(* ===== verification/Prelude.thy ===== *)
theory Prelude
  imports Complex_Main "HOL-Library.Char_ord" "HOL-Library.List_Lexorder"
    "HOL-Library.Product_Lexorder" "HOL-Library.AList"
begin

text \<open>
  What every component shares: results that may be an error (a Python exception is the left
  summand), insertion-ordered dictionaries as association lists, counters, the loop
  \<^verbatim>\<open>while cur < hi: ...; cur += step\<close>, and the lemmas on them that the component
  proofs use as simplification rules.
\<close>

section \<open>Collections of facts\<close>

named_theorems res_simps \<open>how results of fallible code compose\<close>
named_theorems dict_simps \<open>dictionaries as association lists\<close>

section \<open>Results: an exception or a value\<close>

definition res_bind :: "'e + 'a \<Rightarrow> ('a \<Rightarrow> 'e + 'b) \<Rightarrow> 'e + 'b" where
  "res_bind m f = (case m of Inl e \<Rightarrow> Inl e | Inr x \<Rightarrow> f x)"

lemma res_bind_simps [simp]:
  "res_bind (Inl e) f = Inl e"
  "res_bind (Inr x) f = f x"
  by (simp_all add: res_bind_def)

lemma res_bind_Inr_iff [res_simps]:
  "res_bind m f = Inr y \<longleftrightarrow> (\<exists>x. m = Inr x \<and> f x = Inr y)"
  by (cases m) simp_all

lemma res_bind_Inl_iff [res_simps]:
  "res_bind m f = Inl e \<longleftrightarrow> m = Inl e \<or> (\<exists>x. m = Inr x \<and> f x = Inl e)"
  by (cases m) simp_all

text \<open>A comprehension whose body may raise: the first exception wins, left to right.\<close>

fun traverse :: "('a \<Rightarrow> 'e + 'b) \<Rightarrow> 'a list \<Rightarrow> 'e + 'b list" where
  "traverse f [] = Inr []"
| "traverse f (x # xs) =
     res_bind (f x) (\<lambda>y. res_bind (traverse f xs) (\<lambda>ys. Inr (y # ys)))"

lemma traverse_Inr_iff [res_simps]:
  "traverse f xs = Inr ys \<longleftrightarrow> list_all2 (\<lambda>x y. f x = Inr y) xs ys"
proof (induction xs arbitrary: ys)
  case Nil
  then show ?case by auto
next
  case (Cons x xs)
  then show ?case
    by (cases ys) (auto simp: res_bind_Inr_iff)
qed

lemma traverse_length: "traverse f xs = Inr ys \<Longrightarrow> length ys = length xs"
  by (auto simp: traverse_Inr_iff list_all2_lengthD)

lemma traverse_Inl_cases:
  "traverse f xs = Inl e \<Longrightarrow> \<exists>x \<in> set xs. f x = Inl e"
  by (induction xs) (auto simp: res_bind_Inl_iff)

lemma traverse_total: "(\<And>x. x \<in> set xs \<Longrightarrow> f x = Inr (g x)) \<Longrightarrow> traverse f xs = Inr (map g xs)"
  by (induction xs) auto

text \<open>A loop over a list whose body updates a state and may raise.\<close>

fun fold_res :: "('a \<Rightarrow> 's \<Rightarrow> 'e + 's) \<Rightarrow> 'a list \<Rightarrow> 's \<Rightarrow> 'e + 's" where
  "fold_res f [] s = Inr s"
| "fold_res f (x # xs) s = res_bind (f x s) (fold_res f xs)"

lemma fold_res_append:
  "fold_res f (xs @ ys) s = res_bind (fold_res f xs s) (fold_res f ys)"
proof (induction xs arbitrary: s)
  case Nil
  then show ?case by simp
next
  case (Cons x xs)
  then show ?case by (cases "f x s") auto
qed

lemma fold_res_invariant:
  assumes "fold_res f xs s = Inr t" and "P s"
    and "\<And>x s t. x \<in> set xs \<Longrightarrow> P s \<Longrightarrow> f x s = Inr t \<Longrightarrow> P t"
  shows "P t"
  using assms
proof (induction xs arbitrary: s)
  case Nil
  then show ?case by simp
next
  case (Cons x xs)
  from Cons.prems(1) obtain u where "f x s = Inr u" and "fold_res f xs u = Inr t"
    by (auto simp: res_bind_Inr_iff)
  moreover from this(1) Cons.prems(2) have "P u" by (rule Cons.prems(3) [OF list.set_intros(1), rotated])
  ultimately show ?case using Cons.prems(3) by (auto intro: Cons.IH)
qed

lemma fold_res_total:
  assumes "P s" and "\<And>x s. x \<in> set xs \<Longrightarrow> P s \<Longrightarrow> \<exists>t. f x s = Inr t \<and> P t"
  shows "\<exists>t. fold_res f xs s = Inr t \<and> P t"
  using assms
proof (induction xs arbitrary: s)
  case Nil
  then show ?case by simp
next
  case (Cons x xs)
  from Cons.prems obtain u where "f x s = Inr u" and "P u" by fastforce
  with Cons.IH[of u] Cons.prems(2) show ?case by auto
qed

section \<open>Dictionaries\<close>

text \<open>
  A Python dictionary keeps insertion order and writes to an existing key in place, as
  \<open>AList.update\<close> does.  \<open>bump k n d\<close> is \<^verbatim>\<open>d[k] += n\<close> on a
  \<^verbatim>\<open>defaultdict(int)\<close>.
\<close>

definition bump :: "'k \<Rightarrow> int \<Rightarrow> ('k \<times> int) list \<Rightarrow> ('k \<times> int) list" where
  "bump k n d = AList.update k ((case map_of d k of None \<Rightarrow> 0 | Some c \<Rightarrow> c) + n) d"

definition count_of :: "('k \<times> int) list \<Rightarrow> 'k \<Rightarrow> int" where
  "count_of d k = (case map_of d k of None \<Rightarrow> 0 | Some c \<Rightarrow> c)"

lemma count_of_Nil [simp]: "count_of [] k = 0"
  by (simp add: count_of_def)

lemma count_of_bump [simp]: "count_of (bump k n d) k' = count_of d k' + (if k' = k then n else 0)"
  by (simp add: count_of_def bump_def update_conv')

lemma sum_update: "sum_list (map snd (AList.update k v d)) = sum_list (map snd d) + (v - count_of d k)"
  for v :: int
  by (induction d) (auto simp: count_of_def)

lemma total_bump [simp]: "sum_list (map snd (bump k n d)) = sum_list (map snd d) + n"
  unfolding bump_def sum_update by (simp add: count_of_def)

lemma keys_bump: "fst ` set (bump k n d) = insert k (fst ` set d)"
  by (simp add: bump_def dom_update)

lemma distinct_bump [simp]: "distinct (map fst d) \<Longrightarrow> distinct (map fst (bump k n d))"
  by (simp add: bump_def distinct_update)

lemma count_of_in: "distinct (map fst d) \<Longrightarrow> (k, c) \<in> set d \<Longrightarrow> count_of d k = c"
  by (simp add: count_of_def)

lemma count_of_notin: "k \<notin> fst ` set d \<Longrightarrow> count_of d k = 0"
  by (simp add: count_of_def map_of_eq_None_iff [THEN iffD2])

lemma count_of_sum: "distinct (map fst d) \<Longrightarrow> sum_list (map snd (filter (\<lambda>p. fst p = k) d)) = count_of d k"
proof (induction d)
  case Nil
  then show ?case by simp
next
  case (Cons p d)
  obtain k' c where p: "p = (k', c)" by (cases p)
  have "fst p \<notin> fst ` set d" using Cons.prems by simp
  then have "k' = k \<Longrightarrow> filter (\<lambda>p. fst p = k) d = []"
    using p by (auto simp: filter_empty_conv)
  then show ?case using Cons p by (auto simp: count_of_def)
qed

section \<open>Stepping loops\<close>

text \<open>The values \<^verbatim>\<open>cur\<close> takes in \<^verbatim>\<open>while cur < hi: ...; cur += step\<close>.\<close>

function ticks :: "int \<Rightarrow> int \<Rightarrow> int \<Rightarrow> int list" where
  "ticks step cur hi = (if 0 < step \<and> cur < hi then cur # ticks step (cur + step) hi else [])"
  by pat_completeness auto
termination
  by (relation "measure (\<lambda>(step, cur, hi). nat (hi - cur))") auto

declare ticks.simps [simp del]

lemma ticks_done [simp]: "hi \<le> cur \<Longrightarrow> ticks step cur hi = []"
  by (simp add: ticks.simps [of step cur hi])

lemma ticks_step: "0 < step \<Longrightarrow> cur < hi \<Longrightarrow> ticks step cur hi = cur # ticks step (cur + step) hi"
  by (simp add: ticks.simps [of step cur hi])

lemma ticks_bounds: "t \<in> set (ticks step cur hi) \<Longrightarrow> cur \<le> t \<and> t < hi \<and> (t - cur) mod step = 0"
proof (induction step cur hi rule: ticks.induct)
  case (1 step cur hi)
  show ?case
  proof (cases "0 < step \<and> cur < hi")
    case True
    with "1.prems" consider "t = cur" | "t \<in> set (ticks step (cur + step) hi)"
      by (auto simp: ticks_step)
    then show ?thesis
    proof cases
      case 1
      with True show ?thesis by simp
    next
      case 2
      with "1.IH" True have "cur + step \<le> t" "t < hi" "(t - (cur + step)) mod step = 0" by auto
      moreover have "(t - cur) mod step = ((t - (cur + step)) + step) mod step"
        by (simp add: algebra_simps)
      then have "(t - cur) mod step = (t - (cur + step)) mod step" by (simp only: mod_add_self2)
      ultimately show ?thesis using True by linarith
    qed
  next
    case False
    with "1.prems" show ?thesis by (auto simp: ticks.simps [of step cur hi])
  qed
qed

lemma ticks_complete:
  "0 < step \<Longrightarrow> cur \<le> t \<Longrightarrow> t < hi \<Longrightarrow> (t - cur) mod step = 0 \<Longrightarrow> t \<in> set (ticks step cur hi)"
proof (induction step cur hi rule: ticks.induct)
  case (1 step cur hi)
  show ?case
  proof (cases "t = cur")
    case True
    with "1.prems" show ?thesis by (simp add: ticks_step)
  next
    case False
    from "1.prems" have "step dvd t - cur" by auto
    with False "1.prems" have "cur + step \<le> t"
      using zdvd_imp_le [of step "t - cur"] by simp
    moreover have "(t - (cur + step)) mod step = 0"
      using \<open>step dvd t - cur\<close> by (auto simp: algebra_simps dvd_diff)
    ultimately show ?thesis using 1 by (simp add: ticks_step)
  qed
qed

lemma set_ticks:
  "0 < step \<Longrightarrow> set (ticks step cur hi) = {t. cur \<le> t \<and> t < hi \<and> (t - cur) mod step = 0}"
  by (auto dest: ticks_bounds intro: ticks_complete)

lemma ticks_sorted: "sorted_wrt (<) (ticks step cur hi)"
proof (induction step cur hi rule: ticks.induct)
  case (1 step cur hi)
  show ?case
  proof (cases "0 < step \<and> cur < hi")
    case True
    then show ?thesis using 1 ticks_bounds [of _ step "cur + step" hi] by (fastforce simp: ticks_step)
  next
    case False
    then show ?thesis by (auto simp: ticks.simps [of step cur hi])
  qed
qed

lemma ticks_distinct: "distinct (ticks step cur hi)"
  using ticks_sorted strict_sorted_iff by blast

lemma ticks_append:
  assumes "0 < step" and "0 \<le> k" and "cur + k * step \<le> hi"
  shows "ticks step cur hi = ticks step cur (cur + k * step) @ ticks step (cur + k * step) hi"
proof -
  have "ticks step cur hi = ticks step cur (cur + int n * step) @ ticks step (cur + int n * step) hi"
    if "cur + int n * step \<le> hi" for n
    using that
  proof (induction n arbitrary: cur)
    case 0
    then show ?case by simp
  next
    case (Suc n)
    have le: "cur + step + int n * step \<le> hi" using Suc.prems by (simp add: algebra_simps)
    have pos: "0 \<le> int n * step" using assms(1) by simp
    have eq: "int (Suc n) * step = step + int n * step" by (simp add: algebra_simps)
    have lt: "cur < hi" "cur < cur + int (Suc n) * step"
      using pos le assms(1) unfolding eq by linarith+
    have "ticks step cur hi = cur # ticks step (cur + step) hi"
      using lt assms(1) by (simp add: ticks_step)
    also have "\<dots> = cur # ticks step (cur + step) (cur + step + int n * step)
        @ ticks step (cur + step + int n * step) hi"
      using Suc.IH [OF le] by simp
    also have "cur + step + int n * step = cur + int (Suc n) * step"
      by (simp add: algebra_simps)
    finally show ?case using lt assms(1) by (simp add: ticks_step)
  qed
  from this [of "nat k"] assms show ?thesis by simp
qed

section \<open>Ranges\<close>

lemma upto_of_nat: "[0..k - 1] = map int [0..<nat k]"
proof (cases "0 \<le> k")
  case True
  then obtain n where k: "k = int n" using nonneg_int_cases by blast
  have "[0..int m - 1] = map int [0..<m]" for m
  proof (induction m)
    case (Suc m)
    have "[0..int (Suc m) - 1] = [0..int m - 1] @ [int m]" by (simp add: upto_rec2)
    with Suc show ?case by simp
  qed simp
  with k show ?thesis by simp
qed simp

section \<open>Sums over lists\<close>

lemma sum_list_replicate_zero: "sum_list (replicate n 0) = (0::int)"
  by (induction n) auto

lemma sum_list_filter_split:
  "sum_list (map f xs) = sum_list (map f (filter P xs)) + sum_list (map f (filter (\<lambda>x. \<not> P x) xs))"
  for f :: "'a \<Rightarrow> int"
  by (induction xs) auto

lemma sum_list_insort: "sum_list (map f (insort x xs)) = f x + sum_list (map f xs)" for f :: "'a::linorder \<Rightarrow> int"
  by (induction xs) auto

lemma sum_list_sort: "sum_list (map f (sort xs)) = sum_list (map f xs)" for f :: "'a::linorder \<Rightarrow> int"
  by (induction xs) (simp_all add: sum_list_insort)

end
