(* ===== verification/PyNum.thy ===== *)
theory PyNum
  imports Prelude "HOL-Library.Log_Nat"
begin

text \<open>
  Python numbers.  An \<^verbatim>\<open>int\<close> is an \<open>int\<close>.  A finite \<^verbatim>\<open>float\<close> is the
  rational it stands for; \<open>rnd64\<close> is the rounding of IEEE binary64 (53-bit significand,
  subnormals, ties to even), so that every float operation is the exact operation followed by
  \<open>rnd64\<close>.  Signed zeros are identified; the overflow threshold is applied where text or an
  integer becomes a float (\<open>to_float\<close>).  \<open>rne\<close> is \<^verbatim>\<open>round(x)\<close>.
\<close>

section \<open>Rounding to the nearest integer, ties to even\<close>

definition rne :: "rat \<Rightarrow> int" where
  "rne x = (let f = \<lfloor>x\<rfloor>; d = x - of_int f in
     if d < 1/2 then f else if 1/2 < d then f + 1 else if even f then f else f + 1)"

lemma rne_of_int [simp]: "rne (of_int n) = n"
  by (simp add: rne_def)

lemma rne_ge_floor: "\<lfloor>x\<rfloor> \<le> rne x" and rne_le_floor: "rne x \<le> \<lfloor>x\<rfloor> + 1"
  by (auto simp: rne_def Let_def)

lemma rne_le_half: "of_int (rne x) \<le> x + 1/2"
proof -
  have "of_int \<lfloor>x\<rfloor> \<le> x" by simp
  then have "of_int \<lfloor>x\<rfloor> \<le> x + 1/2" by linarith
  then show ?thesis by (auto simp: rne_def Let_def)
qed

lemma rne_ge_half: "x - 1/2 \<le> of_int (rne x)"
proof -
  have "x < of_int \<lfloor>x\<rfloor> + 1" by linarith
  then show ?thesis by (auto simp: rne_def Let_def)
qed

lemma rne_mono: "x \<le> y \<Longrightarrow> rne x \<le> rne y"
proof (cases "\<lfloor>x\<rfloor> = \<lfloor>y\<rfloor>")
  case True
  assume "x \<le> y"
  with True show ?thesis by (auto simp: rne_def Let_def)
next
  case False
  assume "x \<le> y"
  then have "\<lfloor>x\<rfloor> \<le> \<lfloor>y\<rfloor>" by (rule floor_mono)
  with False have "\<lfloor>x\<rfloor> + 1 \<le> \<lfloor>y\<rfloor>" by simp
  then show ?thesis using rne_le_floor [of x] rne_ge_floor [of y] by linarith
qed

lemma rne_le: "x \<le> of_int n \<Longrightarrow> rne x \<le> n"
  using rne_mono [of x "of_int n"] by simp

lemma rne_ge: "of_int n \<le> x \<Longrightarrow> n \<le> rne x"
  using rne_mono [of "of_int n" x] by simp

lemma rne_lt: "x < of_int n - 1/2 \<Longrightarrow> rne x < n"
  using rne_le_half [of x] by linarith

lemma rne_strict: "x + 1 < y \<Longrightarrow> rne x < rne y"
proof -
  assume *: "x + 1 < y"
  have "of_int (rne x) \<le> x + 1/2" by (rule rne_le_half)
  moreover have "y - 1/2 \<le> of_int (rne y)" by (rule rne_ge_half)
  ultimately have "(of_int (rne x) :: rat) < of_int (rne y)" using * by linarith
  then show ?thesis by simp
qed

section \<open>Binary exponents\<close>

definition ilog2 :: "rat \<Rightarrow> int" where
  "ilog2 x = (let (p, q) = quotient_of x;
     k = int (floorlog 2 (nat p)) - int (floorlog 2 (nat q))
     in if 2 powi k \<le> x then k else k - 1)"

lemma floorlog2_bounds:
  assumes "0 < p"
  shows "2 powi (int (floorlog 2 (nat p)) - 1) \<le> (of_int p :: rat)"
    and "(of_int p :: rat) < 2 powi (int (floorlog 2 (nat p)))"
proof -
  let ?a = "floorlog 2 (nat p)"
  have b: "2 ^ (?a - 1) \<le> nat p" "nat p < 2 ^ ?a"
    using floorlog_bounds [of "nat p" 2] assms by auto
  have pos: "1 \<le> ?a" using assms by (simp add: floorlog_def)
  have p: "(of_int p :: rat) = of_nat (nat p)" using assms by simp
  have "(of_nat (2 ^ (?a - 1)) :: rat) \<le> of_nat (nat p)" using b(1) by (simp only: of_nat_le_iff)
  moreover have "int ?a - 1 = int (?a - 1)" using pos by simp
  ultimately show "2 powi (int ?a - 1) \<le> (of_int p :: rat)"
    by (simp only: p power_int_of_nat) simp
  have "(of_nat (nat p) :: rat) < of_nat (2 ^ ?a)" using b(2) by (simp only: of_nat_less_iff)
  then show "(of_int p :: rat) < 2 powi (int ?a)"
    by (simp only: p power_int_of_nat) simp
qed

lemma ilog2_bounds:
  assumes "0 < x"
  shows "2 powi (ilog2 x) \<le> x" and "x < 2 powi (ilog2 x + 1)"
proof -
  obtain p q where pq: "quotient_of x = (p, q)" by (cases "quotient_of x")
  have q: "0 < q" using pq by (rule quotient_of_denom_pos)
  have x: "x = of_int p / of_int q" using pq by (rule quotient_of_div)
  have p: "0 < p" using assms q x by (simp add: zero_less_divide_iff)
  let ?a = "int (floorlog 2 (nat p))" and ?b = "int (floorlog 2 (nat q))"
  have P: "2 powi (?a - 1) \<le> (of_int p :: rat)" "(of_int p :: rat) < 2 powi ?a"
    using floorlog2_bounds [OF p] by auto
  have Q: "2 powi (?b - 1) \<le> (of_int q :: rat)" "(of_int q :: rat) < 2 powi ?b"
    using floorlog2_bounds [OF q] by auto
  have q': "(0::rat) < of_int q" using q by simp
  have hi: "x < 2 powi (?a - ?b + 1)"
  proof -
    have "of_int p < (2 powi (?a - ?b + 1)) * (2 powi (?b - 1) :: rat)"
      using P(2) by (simp add: power_int_add [symmetric])
    also have "\<dots> \<le> 2 powi (?a - ?b + 1) * of_int q"
      using Q(1) by (intro mult_left_mono) simp_all
    finally show ?thesis using q' by (simp add: x divide_less_eq)
  qed
  have lo: "2 powi (?a - ?b - 1) \<le> x"
  proof -
    have "2 powi (?a - ?b - 1) * of_int q \<le> 2 powi (?a - ?b - 1) * (2 powi ?b :: rat)"
      using Q(2) by (intro mult_left_mono) simp_all
    also have "\<dots> = 2 powi ((?a - ?b - 1) + ?b)" by (subst power_int_add) simp_all
    also have "\<dots> = 2 powi (?a - 1)" by (rule arg_cong [where f = "\<lambda>k. 2 powi k"]) simp
    also have "\<dots> \<le> of_int p" by (rule P(1))
    finally show ?thesis using q' by (simp add: x le_divide_eq)
  qed
  have def: "ilog2 x = (if 2 powi (?a - ?b) \<le> x then ?a - ?b else ?a - ?b - 1)"
    by (simp add: ilog2_def pq Let_def)
  show "2 powi (ilog2 x) \<le> x" using lo by (simp add: def)
  show "x < 2 powi (ilog2 x + 1)" using hi by (simp add: def)
qed

lemma powi2_less_imp: "(2::rat) powi a < 2 powi b \<Longrightarrow> a < b"
  using power_int_increasing [of b a "2::rat"] by (meson linorder_not_less not_le one_le_numeral)

lemma ilog2_mono: "0 < x \<Longrightarrow> x \<le> y \<Longrightarrow> ilog2 x \<le> ilog2 y"
proof -
  assume "0 < x" "x \<le> y"
  then have "2 powi (ilog2 x) < (2::rat) powi (ilog2 y + 1)"
    using ilog2_bounds(1) [of x] ilog2_bounds(2) [of y] by linarith
  then show ?thesis using powi2_less_imp by fastforce
qed

lemma ilog2_less: "0 < x \<Longrightarrow> x < 2 powi n \<Longrightarrow> ilog2 x < n"
  using ilog2_bounds(1) [of x] powi2_less_imp [of "ilog2 x" n] by linarith

section \<open>Binary64 rounding\<close>

definition ulp_exp :: "rat \<Rightarrow> int" where
  "ulp_exp x = max (ilog2 x - 52) (-1074)"

definition rnd_pos :: "rat \<Rightarrow> rat" where
  "rnd_pos x = of_int (rne (x / 2 powi (ulp_exp x))) * 2 powi (ulp_exp x)"

definition rnd64 :: "rat \<Rightarrow> rat" where
  "rnd64 x = (if x = 0 then 0 else if 0 < x then rnd_pos x else - rnd_pos (- x))"

lemma rnd64_0 [simp]: "rnd64 0 = 0"
  by (simp add: rnd64_def)

lemma rnd64_minus [simp]: "rnd64 (- x) = - rnd64 x"
  by (simp add: rnd64_def)

lemma rnd_pos_grid:
  assumes "x = of_int m * 2 powi e" and "ulp_exp x \<le> e"
  shows "rnd_pos x = x"
proof -
  let ?u = "ulp_exp x"
  have "x / 2 powi ?u = of_int m * 2 powi (e - ?u)"
    unfolding assms(1) [THEN arg_cong [where f = "\<lambda>y. y / 2 powi ?u"]] by (simp add: power_int_diff)
  also have "\<dots> = of_int (m * 2 ^ nat (e - ?u))"
    using assms(2) by (simp add: power_int_nonneg_exp)
  finally have *: "x / 2 powi ?u = of_int (m * 2 ^ nat (e - ?u))" .
  have "rnd_pos x = of_int (m * 2 ^ nat (e - ?u)) * 2 powi ?u"
    unfolding rnd_pos_def * rne_of_int ..
  also have "\<dots> = x / 2 powi ?u * 2 powi ?u" by (simp only: *)
  finally show ?thesis by simp
qed

lemma rnd_pos_exact:
  assumes "0 < m" and "m \<le> 2 ^ 53" and "-1074 \<le> e"
  shows "rnd_pos (of_int m * 2 powi e) = of_int m * 2 powi e"
proof (cases "m < 2 ^ 53")
  case True
  let ?x = "of_int m * 2 powi e :: rat"
  have "(of_int m :: rat) < 2 ^ 53" using True by (metis of_int_less_iff of_int_numeral of_int_power)
  then have "?x < 2 ^ 53 * 2 powi e" by (intro mult_strict_right_mono) simp_all
  also have "(2 ^ 53 * 2 powi e :: rat) = 2 powi (53 + e)" by (simp add: power_int_add)
  finally have "ilog2 ?x < 53 + e" using assms(1) by (intro ilog2_less) simp_all
  then have "ulp_exp ?x \<le> e" using assms(3) by (simp add: ulp_exp_def)
  then show ?thesis by (rule rnd_pos_grid [OF refl])
next
  case False
  with assms have m: "m = 2 ^ 53" by simp
  let ?x = "of_int m * 2 powi e :: rat"
  have x: "?x = 2 powi (53 + e)" by (simp add: m power_int_add)
  have "(2::rat) powi (53 + e) < 2 powi (54 + e)" by (rule power_int_strict_increasing) simp_all
  then have "ilog2 ?x < 54 + e" unfolding x by (intro ilog2_less) simp_all
  then have "ulp_exp ?x \<le> 53 + e" using assms(3) by (simp add: ulp_exp_def)
  then show ?thesis by (intro rnd_pos_grid [of _ 1 "53 + e"]) (simp_all add: x)
qed

lemma ulp_exp_mono: "0 < x \<Longrightarrow> x \<le> y \<Longrightarrow> ulp_exp x \<le> ulp_exp y"
  using ilog2_mono [of x y] by (auto simp: ulp_exp_def)

lemma rnd_pos_le_pow:
  assumes "0 < x" and "x < 2 powi k" and "-1074 \<le> k" and "-1074 \<le> k - 53"
  shows "rnd_pos x \<le> 2 powi k"
proof -
  let ?u = "ulp_exp x"
  have "ilog2 x < k" using assms(1,2) by (rule ilog2_less)
  then have u: "?u \<le> k" using assms(3) by (simp add: ulp_exp_def)
  have "x / 2 powi ?u \<le> 2 powi k / 2 powi ?u"
    using assms(2) by (intro divide_right_mono) simp_all
  also have "\<dots> = of_int (2 ^ nat (k - ?u))"
    using u by (simp add: power_int_diff [symmetric] power_int_nonneg_exp)
  finally have "rne (x / 2 powi ?u) \<le> 2 ^ nat (k - ?u)" by (rule rne_le)
  then have "(of_int (rne (x / 2 powi ?u)) :: rat) \<le> of_int (2 ^ nat (k - ?u))"
    by (simp only: of_int_le_iff)
  also have "\<dots> = 2 powi (k - ?u)" using u by (simp add: power_int_nonneg_exp)
  finally have "rnd_pos x \<le> 2 powi (k - ?u) * 2 powi ?u"
    unfolding rnd_pos_def by (intro mult_right_mono) simp_all
  then show ?thesis by (simp add: power_int_add [symmetric])
qed

lemma rnd_pos_ge_pow:
  assumes "2 powi k \<le> x" and "ulp_exp x \<le> k"
  shows "2 powi k \<le> rnd_pos x"
proof -
  let ?u = "ulp_exp x"
  have "of_int (2 ^ nat (k - ?u)) = (2 powi k / 2 powi ?u :: rat)"
    using assms(2) by (simp add: power_int_diff [symmetric] power_int_nonneg_exp)
  also have "\<dots> \<le> x / 2 powi ?u"
    using assms(1) by (intro divide_right_mono) simp_all
  finally have "2 ^ nat (k - ?u) \<le> rne (x / 2 powi ?u)" by (rule rne_ge)
  then have "(of_int (2 ^ nat (k - ?u)) :: rat) \<le> of_int (rne (x / 2 powi ?u))"
    by (simp only: of_int_le_iff)
  moreover have "(of_int (2 ^ nat (k - ?u)) :: rat) = 2 powi (k - ?u)"
    using assms(2) by (simp add: power_int_nonneg_exp)
  ultimately have "2 powi (k - ?u) \<le> (of_int (rne (x / 2 powi ?u)) :: rat)" by linarith
  then have "2 powi (k - ?u) * 2 powi ?u \<le> rnd_pos x"
    unfolding rnd_pos_def by (intro mult_right_mono) simp_all
  then show ?thesis by (simp add: power_int_add [symmetric])
qed

lemma rnd_pos_mono:
  assumes "0 < x" and "x \<le> y"
  shows "rnd_pos x \<le> rnd_pos y"
proof (cases "ulp_exp x = ulp_exp y")
  case True
  have "rne (x / 2 powi ulp_exp y) \<le> rne (y / 2 powi ulp_exp y)"
    using assms(2) by (intro rne_mono divide_right_mono) simp_all
  then show ?thesis unfolding rnd_pos_def True by (intro mult_right_mono) simp_all
next
  case False
  let ?k = "ilog2 y"
  have lt: "ulp_exp x < ulp_exp y" using False ulp_exp_mono [OF assms] by simp
  have y: "0 < y" using assms by simp
  have uy: "ulp_exp y = ?k - 52" "-1074 < ?k - 52" using lt by (auto simp: ulp_exp_def)
  have "ilog2 x < ?k" using lt by (auto simp: ulp_exp_def)
  then have "x < 2 powi ?k"
    using ilog2_bounds(2) [OF assms(1)] power_int_increasing [of "ilog2 x + 1" ?k "2::rat"] by simp
  then have "rnd_pos x \<le> 2 powi ?k" using assms(1) uy by (intro rnd_pos_le_pow) simp_all
  also have "\<dots> \<le> rnd_pos y" using ilog2_bounds(1) [OF y] uy by (intro rnd_pos_ge_pow) simp_all
  finally show ?thesis .
qed

lemma rnd_pos_nonneg: "0 < x \<Longrightarrow> 0 \<le> rnd_pos x"
proof -
  assume "0 < x"
  then have "0 \<le> rne (x / 2 powi ulp_exp x)" by (intro rne_ge) simp
  then show ?thesis by (simp add: rnd_pos_def)
qed

theorem rnd64_mono: "x \<le> y \<Longrightarrow> rnd64 x \<le> rnd64 y"
proof -
  assume le: "x \<le> y"
  consider "0 < x" | "x \<le> 0" "0 \<le> y" | "y < 0" by linarith
  then show ?thesis
  proof cases
    case 1
    with le show ?thesis by (simp add: rnd64_def rnd_pos_mono)
  next
    case 2
    have "rnd64 x \<le> 0" using 2 rnd_pos_nonneg [of "- x"] by (auto simp: rnd64_def)
    moreover have "0 \<le> rnd64 y" using 2 rnd_pos_nonneg [of y] by (auto simp: rnd64_def)
    ultimately show ?thesis by simp
  next
    case 3
    with le show ?thesis using rnd_pos_mono [of "- y" "- x"] by (simp add: rnd64_def)
  qed
qed

theorem rnd64_exact:
  assumes "\<bar>m\<bar> \<le> 2 ^ 53" and "-1074 \<le> e"
  shows "rnd64 (of_int m * 2 powi e) = of_int m * 2 powi e"
proof -
  consider "m = 0" | "0 < m" | "m < 0" by linarith
  then show ?thesis
  proof cases
    case 2
    with assms show ?thesis by (simp add: rnd64_def rnd_pos_exact)
  next
    case 3
    with assms have "rnd_pos (of_int (- m) * 2 powi e) = of_int (- m) * 2 powi e"
      by (intro rnd_pos_exact) simp_all
    moreover have "of_int m * 2 powi e < (0::rat)" using 3 by (intro mult_neg_pos) simp_all
    ultimately show ?thesis by (simp add: rnd64_def)
  qed simp
qed

lemma rnd64_of_int: "\<bar>n\<bar> \<le> 2 ^ 53 \<Longrightarrow> rnd64 (of_int n) = of_int n"
  using rnd64_exact [of n 0] by simp

lemma rnd64_quarters: "\<bar>n\<bar> \<le> 2 ^ 53 \<Longrightarrow> rnd64 (of_int n / 4) = of_int n / 4"
  using rnd64_exact [of n "-2"] by (simp add: power_int_minus_divide)

lemma rnd64_nonneg: "0 \<le> x \<Longrightarrow> 0 \<le> rnd64 x"
  using rnd64_mono [of 0 x] by simp

lemma rnd64_le_int: "x \<le> of_int n \<Longrightarrow> \<bar>n\<bar> \<le> 2 ^ 53 \<Longrightarrow> rnd64 x \<le> of_int n"
  using rnd64_mono [of x "of_int n"] by (simp add: rnd64_of_int)

lemma rnd64_ge_int: "of_int n \<le> x \<Longrightarrow> \<bar>n\<bar> \<le> 2 ^ 53 \<Longrightarrow> of_int n \<le> rnd64 x"
  using rnd64_mono [of "of_int n" x] by (simp add: rnd64_of_int)

text \<open>A rounding error is at most half a unit in the last place.\<close>

lemma rnd64_error:
  assumes "2 powi (-1022) \<le> x"
  shows "\<bar>rnd64 x - x\<bar> \<le> x / 2 ^ 53"
proof -
  have pos: "0 < x" using assms zero_less_power_int [of "2::rat" "-1022"] by linarith
  have "- 1022 \<le> ilog2 x"
  proof (rule ccontr)
    assume "\<not> - 1022 \<le> ilog2 x"
    then have "2 powi (ilog2 x + 1) \<le> (2::rat) powi (-1022)" by (intro power_int_increasing) simp_all
    with ilog2_bounds(2) [OF pos] assms show False by linarith
  qed
  then have u: "ulp_exp x = ilog2 x - 52" by (simp add: ulp_exp_def)
  let ?u = "(2::rat) powi (ulp_exp x)"
  have "\<bar>of_int (rne (x / ?u)) - x / ?u\<bar> \<le> 1 / 2"
    using rne_le_half [of "x / ?u"] rne_ge_half [of "x / ?u"] by linarith
  then have "\<bar>of_int (rne (x / ?u)) - x / ?u\<bar> * ?u \<le> 1 / 2 * ?u" by (intro mult_right_mono) simp_all
  moreover have "\<bar>of_int (rne (x / ?u)) - x / ?u\<bar> * ?u = \<bar>(of_int (rne (x / ?u)) - x / ?u) * ?u\<bar>"
    by (simp add: abs_mult)
  moreover have "(of_int (rne (x / ?u)) - x / ?u) * ?u = rnd64 x - x"
    using pos by (simp add: rnd64_def rnd_pos_def left_diff_distrib)
  moreover have "1 / 2 * ?u = 2 powi (ilog2 x) / 2 ^ 53"
    unfolding u by (simp add: power_int_diff)
  ultimately have "\<bar>rnd64 x - x\<bar> \<le> 2 powi (ilog2 x) / 2 ^ 53" by (simp only:)
  also have "\<dots> \<le> x / 2 ^ 53" using ilog2_bounds(1) [OF pos] by (intro divide_right_mono) simp_all
  finally show ?thesis .
qed

section \<open>Float operations on rationals\<close>

definition fadd :: "rat \<Rightarrow> rat \<Rightarrow> rat" where "fadd x y = rnd64 (x + y)"
definition fsub :: "rat \<Rightarrow> rat \<Rightarrow> rat" where "fsub x y = rnd64 (x - y)"
definition fmul :: "rat \<Rightarrow> rat \<Rightarrow> rat" where "fmul x y = rnd64 (x * y)"
definition fdiv :: "rat \<Rightarrow> rat \<Rightarrow> rat" where "fdiv x y = rnd64 (x / y)"

end
