(* ===== verification/PyStr.thy ===== *)
theory PyStr
  imports PyNum "HOL-Library.Sublist"
begin

text \<open>
  Python text as used by the program: a \<^verbatim>\<open>str\<close> is a list of characters (code points
  below 256).  Stripping, splitting, replacing, case folding, and the text forms of integers and
  floats (\<^verbatim>\<open>int(s)\<close>, \<^verbatim>\<open>float(s)\<close>, \<^verbatim>\<open>str(n)\<close>), with the round trip of
  integers and the order of zero-padded numbers.
\<close>

section \<open>Stripping, case, prefixes\<close>

definition is_ws :: "char \<Rightarrow> bool" where
  "is_ws c = (let n = of_char c :: nat in
     (9 \<le> n \<and> n \<le> 13) \<or> (28 \<le> n \<and> n \<le> 32) \<or> n = 133 \<or> n = 160)"

definition rstrip_if :: "(char \<Rightarrow> bool) \<Rightarrow> string \<Rightarrow> string" where
  "rstrip_if P s = rev (dropWhile P (rev s))"

definition strip :: "string \<Rightarrow> string" where
  "strip s = rstrip_if is_ws (dropWhile is_ws s)"

definition lower_char :: "char \<Rightarrow> char" where
  "lower_char c = (let n = of_char c :: nat in
     if 65 \<le> n \<and> n \<le> 90 \<or> 192 \<le> n \<and> n \<le> 222 \<and> n \<noteq> 215 then char_of (n + 32) else c)"

definition lower :: "string \<Rightarrow> string" where
  "lower s = map lower_char s"

definition starts_with :: "string \<Rightarrow> string \<Rightarrow> bool" where
  "starts_with s p = (take (length p) s = p)"

lemma starts_with_prefix: "starts_with s p \<longleftrightarrow> prefix p s"
  by (metis append_eq_conv_conj append_take_drop_id prefix_def starts_with_def)

lemma rstrip_if_append_last: "\<not> P c \<Longrightarrow> rstrip_if P (s @ [c]) = s @ [c]"
  by (simp add: rstrip_if_def)

lemma rstrip_if_last: "rstrip_if P s \<noteq> [] \<Longrightarrow> \<not> P (last (rstrip_if P s))"
  by (metis hd_dropWhile hd_rev last_rev rev_is_Nil_conv rev_rev_ident rstrip_if_def)

lemma rstrip_if_prefix: "prefix (rstrip_if P s) s"
  by (metis rev_rev_ident rstrip_if_def suffix_dropWhile suffix_to_prefix)

lemma rstrip_if_id: "(\<And>c. c \<in> set s \<Longrightarrow> \<not> P c) \<Longrightarrow> rstrip_if P s = s"
  by (cases s rule: rev_cases) (auto simp: rstrip_if_def)

lemma strip_id: "(\<And>c. c \<in> set s \<Longrightarrow> \<not> is_ws c) \<Longrightarrow> strip s = s"
  by (cases s) (auto simp: strip_def intro: rstrip_if_id)

section \<open>Splitting, searching, replacing\<close>

text \<open>\<^verbatim>\<open>s.split(c)\<close> for one separator character: always at least one segment.\<close>

fun split_char :: "char \<Rightarrow> string \<Rightarrow> string list" where
  "split_char c [] = [[]]"
| "split_char c (x # xs) =
     (if x = c then [] # split_char c xs
      else (case split_char c xs of [] \<Rightarrow> [[x]] | y # ys \<Rightarrow> (x # y) # ys))"

text \<open>\<^verbatim>\<open>s.split(c, 1)\<close>: what precedes the first separator, and what follows it if there is one.\<close>

fun split_once :: "char \<Rightarrow> string \<Rightarrow> string \<times> string option" where
  "split_once c [] = ([], None)"
| "split_once c (x # xs) =
     (if x = c then ([], Some xs)
      else (case split_once c xs of (a, b) \<Rightarrow> (x # a, b)))"

lemma split_char_nonempty: "split_char c s \<noteq> []"
  by (induction s) (auto split: list.splits)

lemma split_once_absent: "c \<notin> set s \<Longrightarrow> split_once c s = (s, None)"
  by (induction s) (simp_all add: eq_commute [of _ c])

lemma split_once_first: "c \<notin> set a \<Longrightarrow> split_once c (a @ c # b) = (a, Some b)"
  by (induction a) (simp_all add: eq_commute [of _ c])

lemma split_once_cases:
  obtains "c \<notin> set s" "split_once c s = (s, None)"
  | a b where "s = a @ c # b" "c \<notin> set a" "split_once c s = (a, Some b)"
proof (cases "c \<in> set s")
  case True
  then obtain a b where "s = a @ c # b" "c \<notin> set a" by (auto dest: split_list_first)
  then show ?thesis using split_once_first that(2) by metis
next
  case False
  then show ?thesis using split_once_absent that(1) by metis
qed

fun contains_sub :: "string \<Rightarrow> string \<Rightarrow> bool" where
  "contains_sub p [] = (p = [])"
| "contains_sub p (x # xs) = (starts_with (x # xs) p \<or> contains_sub p xs)"

lemma contains_sub_iff: "contains_sub p s \<longleftrightarrow> (\<exists>a b. s = a @ p @ b)"
proof (induction s)
  case Nil
  then show ?case by auto
next
  case (Cons x xs)
  show ?case
  proof
    assume "contains_sub p (x # xs)"
    then consider "prefix p (x # xs)" | "contains_sub p xs" by (auto simp: starts_with_prefix)
    then show "\<exists>a b. x # xs = a @ p @ b"
    proof cases
      case 1
      then obtain b where "x # xs = [] @ p @ b" by (auto simp: prefix_def)
      then show ?thesis by blast
    next
      case 2
      then obtain a b where "x # xs = (x # a) @ p @ b" using Cons by auto
      then show ?thesis by blast
    qed
  next
    assume "\<exists>a b. x # xs = a @ p @ b"
    then obtain a b where ab: "x # xs = a @ p @ b" by blast
    show "contains_sub p (x # xs)"
    proof (cases a)
      case Nil
      with ab have "prefix p (x # xs)" by (metis append_Nil prefix_def)
      then show ?thesis by (simp only: contains_sub.simps starts_with_prefix simp_thms)
    next
      case (Cons y ys)
      with ab have "xs = ys @ p @ b" by simp
      with Cons.IH show ?thesis by auto
    qed
  qed
qed

text \<open>\<^verbatim>\<open>s.replace(old, new)\<close> for a non-empty \<^verbatim>\<open>old\<close>: left to right, no overlaps.\<close>

function str_replace :: "string \<Rightarrow> string \<Rightarrow> string \<Rightarrow> string" where
  "str_replace old new [] = []"
| "str_replace old new (x # xs) =
     (if old \<noteq> [] \<and> starts_with (x # xs) old
      then new @ str_replace old new (drop (length old) (x # xs))
      else x # str_replace old new xs)"
  by pat_completeness auto
termination
  by (relation "measure (\<lambda>(old, new, s). length s)") auto

lemma str_replace_absent: "\<not> contains_sub old s \<Longrightarrow> str_replace old new s = s"
  by (induction s) auto

section \<open>Integers as text\<close>

definition is_digit :: "char \<Rightarrow> bool" where
  "is_digit c = (48 \<le> (of_char c :: nat) \<and> (of_char c :: nat) \<le> 57)"

definition digit_val :: "char \<Rightarrow> nat" where
  "digit_val c = of_char c - 48"

definition digit_chr :: "nat \<Rightarrow> char" where
  "digit_chr d = char_of (48 + d)"

lemma digit_chr [simp]: "d < 10 \<Longrightarrow> is_digit (digit_chr d)" "d < 10 \<Longrightarrow> digit_val (digit_chr d) = d"
  by (simp_all add: is_digit_def digit_val_def digit_chr_def)

lemma is_digit_not_ws: "is_digit c \<Longrightarrow> \<not> is_ws c"
  by (auto simp: is_digit_def is_ws_def)

lemma is_digit_not_special:
  "is_digit c \<Longrightarrow> c \<noteq> CHR ''-'' \<and> c \<noteq> CHR ''+'' \<and> c \<noteq> CHR ''Z'' \<and> c \<noteq> CHR '':'' \<and> c \<noteq> CHR ''T''"
  by (auto simp: is_digit_def)

fun nat_str :: "nat \<Rightarrow> string" where
  "nat_str n = (if n < 10 then [digit_chr n] else nat_str (n div 10) @ [digit_chr (n mod 10)])"

declare nat_str.simps [simp del]

definition int_str :: "int \<Rightarrow> string" where
  "int_str n = (if n < 0 then CHR ''-'' # nat_str (nat (- n)) else nat_str (nat n))"

text \<open>Digits with single underscores between them, as \<^verbatim>\<open>int\<close> and \<^verbatim>\<open>float\<close> accept.\<close>

fun scan_digits :: "string \<Rightarrow> nat \<Rightarrow> nat option" where
  "scan_digits [] acc = Some acc"
| "scan_digits [c] acc = (if is_digit c then Some (10 * acc + digit_val c) else None)"
| "scan_digits (c # d # cs) acc =
     (if is_digit c then scan_digits (d # cs) (10 * acc + digit_val c)
      else if c = CHR ''_'' \<and> is_digit d then scan_digits cs (10 * acc + digit_val d) else None)"

definition parse_digits :: "string \<Rightarrow> nat option" where
  "parse_digits s = (case s of [] \<Rightarrow> None | c # _ \<Rightarrow> if is_digit c then scan_digits s 0 else None)"

definition py_int :: "string \<Rightarrow> int option" where
  "py_int s = (case strip s of
     [] \<Rightarrow> None
   | c # cs \<Rightarrow>
       if c = CHR ''-'' then map_option (\<lambda>n. - int n) (parse_digits cs)
       else if c = CHR ''+'' then map_option int (parse_digits cs)
       else map_option int (parse_digits (c # cs)))"

lemma scan_digits_all:
  "list_all is_digit s \<Longrightarrow> scan_digits s acc = Some (foldl (\<lambda>a c. 10 * a + digit_val c) acc s)"
  by (induction s acc rule: scan_digits.induct) auto

lemma nat_str_digits: "list_all is_digit (nat_str n)"
  by (induction n rule: nat_str.induct) (subst nat_str.simps, simp)

lemma nat_str_nonempty [simp]: "nat_str n \<noteq> []"
  by (subst nat_str.simps) simp

lemma nat_str_value: "foldl (\<lambda>a c. 10 * a + digit_val c) 0 (nat_str n) = n"
  by (induction n rule: nat_str.induct) (subst nat_str.simps, simp)

lemma parse_nat_str: "parse_digits (nat_str n) = Some n"
proof -
  have d: "list_all is_digit (nat_str n)" by (rule nat_str_digits)
  then have "scan_digits (nat_str n) 0 = Some n" by (simp add: scan_digits_all nat_str_value)
  then show ?thesis using d by (cases "nat_str n") (auto simp: parse_digits_def)
qed

lemma int_str_chars: "c \<in> set (int_str n) \<Longrightarrow> is_digit c \<or> c = CHR ''-''"
  using nat_str_digits [of "nat n"] nat_str_digits [of "nat (- n)"]
  by (auto simp: int_str_def list_all_iff split: if_splits)

lemma int_str_not_ws: "c \<in> set (int_str n) \<Longrightarrow> \<not> is_ws c"
proof -
  assume "c \<in> set (int_str n)"
  then consider "is_digit c" | "c = CHR ''-''" using int_str_chars by blast
  then show ?thesis
  proof cases
    case 1
    then show ?thesis by (rule is_digit_not_ws)
  next
    case 2
    then show ?thesis by (simp add: is_ws_def)
  qed
qed

lemma py_int_int_str [simp]: "py_int (int_str n) = Some n"
proof -
  have s: "strip (int_str n) = int_str n" by (rule strip_id) (rule int_str_not_ws)
  show ?thesis
  proof (cases "n < 0")
    case True
    then show ?thesis unfolding py_int_def s by (simp add: int_str_def parse_nat_str)
  next
    case False
    obtain c cs where c: "nat_str (nat n) = c # cs" by (cases "nat_str (nat n)") simp_all
    with nat_str_digits [of "nat n"] have "is_digit c" by simp
    then have "c \<noteq> CHR ''-''" "c \<noteq> CHR ''+''" by (auto dest: is_digit_not_special)
    with False c show ?thesis unfolding py_int_def s
      using parse_nat_str [of "nat n"] by (simp add: int_str_def)
  qed
qed

lemma int_str_nonempty [simp]: "int_str n \<noteq> []"
  by (simp add: int_str_def)

lemma int_str_inj [simp]: "int_str a = int_str b \<longleftrightarrow> a = b"
  by (metis option.inject py_int_int_str)

section \<open>Zero-padded numbers\<close>

fun pad_digits :: "nat \<Rightarrow> nat \<Rightarrow> string" where
  "pad_digits 0 n = []"
| "pad_digits (Suc w) n = pad_digits w (n div 10) @ [digit_chr (n mod 10)]"

lemma pad_digits_length [simp]: "length (pad_digits w n) = w"
  by (induction w arbitrary: n) auto

lemma pad_digits_digits: "list_all is_digit (pad_digits w n)"
  by (induction w arbitrary: n) auto

lemma pad_digits_value: "n < 10 ^ w \<Longrightarrow> foldl (\<lambda>a c. 10 * a + digit_val c) 0 (pad_digits w n) = n"
  by (induction w arbitrary: n) (auto simp: less_mult_imp_div_less)

lemma string_less_append:
  fixes a b c d :: "'a::order list"
  assumes "length a = length b"
  shows "a @ c < b @ d \<longleftrightarrow> a < b \<or> a = b \<and> c < d"
  using assms
proof (induction a b rule: list_induct2)
  case Nil
  then show ?case by simp
next
  case (Cons x xs y ys)
  then show ?case by (simp only: append_Cons Cons_less_Cons list.inject) blast
qed

lemma digit_chr_less: "a < 10 \<Longrightarrow> b < 10 \<Longrightarrow> digit_chr a < digit_chr b \<longleftrightarrow> a < b"
  by (simp add: digit_chr_def less_char_def)

lemma pad_digits_less:
  "a < 10 ^ w \<Longrightarrow> b < 10 ^ w \<Longrightarrow> pad_digits w a < pad_digits w b \<longleftrightarrow> a < b"
proof (induction w arbitrary: a b)
  case 0
  then show ?case by simp
next
  case (Suc w)
  have lt: "a div 10 < 10 ^ w" "b div 10 < 10 ^ w" using Suc.prems by (auto simp: less_mult_imp_div_less)
  have eq: "pad_digits w (a div 10) = pad_digits w (b div 10) \<longleftrightarrow> a div 10 = b div 10"
    using pad_digits_value [OF lt(1)] pad_digits_value [OF lt(2)] by metis
  have "pad_digits (Suc w) a < pad_digits (Suc w) b \<longleftrightarrow>
      a div 10 < b div 10 \<or> a div 10 = b div 10 \<and> a mod 10 < b mod 10"
    using Suc.IH [OF lt] by (simp add: string_less_append eq digit_chr_less)
  also have "\<dots> \<longleftrightarrow> a < b"
    using div_le_mono [of a b 10] div_le_mono [of b a 10] div_mult_mod_eq [of a 10] div_mult_mod_eq [of b 10]
    by linarith
  finally show ?case .
qed

section \<open>Floats as text\<close>

text \<open>
  \<^verbatim>\<open>float(s)\<close>: an optional sign, then \<^verbatim>\<open>inf\<close>,
  \<^verbatim>\<open>infinity\<close>, \<^verbatim>\<open>nan\<close> or a decimal number with an optional exponent,
  correctly rounded to the nearest float.  \<open>None\<close> is the \<^verbatim>\<open>ValueError\<close>.
\<close>

datatype pfloat = Fin rat | PInf | NInf | NaN

fun is_finite :: "pfloat \<Rightarrow> bool" where
  "is_finite (Fin r) = True"
| "is_finite _ = False"

definition to_float :: "rat \<Rightarrow> pfloat" where
  "to_float r = (if 2 ^ 1024 - 2 ^ 970 \<le> r then PInf
     else if r \<le> - (2 ^ 1024 - 2 ^ 970) then NInf else Fin (rnd64 r))"

text \<open>Evaluation takes the bound of exact integers as a shortcut.\<close>

lemma to_float_small: "\<bar>r\<bar> \<le> 9007199254740992 \<Longrightarrow> to_float r = Fin (rnd64 r)"
proof -
  assume r: "\<bar>r\<bar> \<le> 9007199254740992"
  have "(2::rat) ^ 1024 - 2 ^ 970 = 2 ^ 970 * (2 ^ 54 - 1)" by (simp add: algebra_simps flip: power_add)
  moreover have "(1::rat) * (2 ^ 54 - 1) \<le> 2 ^ 970 * (2 ^ 54 - 1)" by (intro mult_right_mono) simp_all
  ultimately have "(2::rat) ^ 54 - 1 \<le> 2 ^ 1024 - 2 ^ 970" by simp
  then have "9007199254740992 < (2::rat) ^ 1024 - 2 ^ 970" by simp
  then have "\<not> 2 ^ 1024 - 2 ^ 970 \<le> r" "\<not> r \<le> - (2 ^ 1024 - 2 ^ 970)"
    using r abs_ge_self [of r] abs_ge_minus_self [of r] by linarith+
  then show ?thesis unfolding to_float_def by simp
qed

lemma to_float_code [code]:
  "to_float r = (if \<bar>r\<bar> \<le> 9007199254740992 then Fin (rnd64 r)
     else if 2 ^ 1024 - 2 ^ 970 \<le> r then PInf else if r \<le> - (2 ^ 1024 - 2 ^ 970) then NInf else Fin (rnd64 r))"
  using to_float_small by (cases "\<bar>r\<bar> \<le> 9007199254740992") (simp_all add: to_float_def)

definition parse_decimal :: "string \<Rightarrow> rat option" where
  "parse_decimal s = (case split_once (CHR ''.'') s of
     (ip, None) \<Rightarrow> map_option of_nat (parse_digits ip)
   | (ip, Some fp) \<Rightarrow>
       if ip = [] \<and> fp = [] then None
       else (case (if ip = [] then Some 0 else parse_digits ip, if fp = [] then Some 0 else parse_digits fp) of
           (Some i, Some f) \<Rightarrow> Some (of_nat i + of_nat f / 10 ^ length (filter is_digit fp))
         | _ \<Rightarrow> None))"

definition parse_exponent :: "string \<Rightarrow> int option" where
  "parse_exponent s = (case s of [] \<Rightarrow> None
   | c # cs \<Rightarrow> if c = CHR ''-'' then map_option (\<lambda>n. - int n) (parse_digits cs)
       else if c = CHR ''+'' then map_option int (parse_digits cs)
       else map_option int (parse_digits s))"

definition parse_number :: "string \<Rightarrow> rat option" where
  "parse_number s = (case split_once (CHR ''e'') s of
     (m, None) \<Rightarrow> parse_decimal m
   | (m, Some e) \<Rightarrow> (case (parse_decimal m, parse_exponent e) of
         (Some x, Some k) \<Rightarrow> Some (x * 10 powi k) | _ \<Rightarrow> None))"

definition py_float :: "string \<Rightarrow> pfloat option" where
  "py_float s = (let t = lower (strip s);
       neg = (case t of [] \<Rightarrow> False | c # _ \<Rightarrow> c = CHR ''-'');
       body = (case t of [] \<Rightarrow> [] | c # cs \<Rightarrow> if c = CHR ''-'' \<or> c = CHR ''+'' then cs else t)
     in if body = ''inf'' \<or> body = ''infinity'' then Some (if neg then NInf else PInf)
        else if body = ''nan'' then Some NaN
        else map_option (\<lambda>x. to_float (if neg then - x else x)) (parse_number body))"

text \<open>\<^verbatim>\<open>int(x)\<close> of a float: truncation; an infinity or a NaN raises.\<close>

fun trunc_float :: "pfloat \<Rightarrow> int option" where
  "trunc_float (Fin r) = Some (if 0 \<le> r then \<lfloor>r\<rfloor> else \<lceil>r\<rceil>)"
| "trunc_float _ = None"

text \<open>\<^verbatim>\<open>x.is_integer()\<close>\<close>

fun float_is_integer :: "pfloat \<Rightarrow> bool" where
  "float_is_integer (Fin r) = (of_int \<lfloor>r\<rfloor> = r)"
| "float_is_integer _ = False"

end
