(* ===== verification/PyTime.thy ===== *)
theory PyTime
  imports PyStr
begin

text \<open>
  Python's \<^verbatim>\<open>datetime\<close>.  An aware instant is the number of microseconds since
  1970-01-01T00:00:00 UTC.  The proleptic Gregorian calendar is the algorithm of the standard
  library (days before a year, ordinals, ordinal to year/month/day).  ISO text of whole seconds
  is shown to order as the instants do and to parse back, which is what makes the per-second
  buckets of the reports (strings) usable as times.
\<close>

section \<open>Calendar\<close>

definition is_leap :: "int \<Rightarrow> bool" where
  "is_leap y = (y mod 4 = 0 \<and> (y mod 100 \<noteq> 0 \<or> y mod 400 = 0))"

definition days_before_year :: "int \<Rightarrow> int" where
  "days_before_year y = (let z = y - 1 in z * 365 + z div 4 - z div 100 + z div 400)"

definition month_lengths :: "bool \<Rightarrow> int list" where
  "month_lengths leap = [31, if leap then 29 else 28, 31, 30, 31, 30, 31, 31, 30, 31, 30, 31]"

definition ymd_ord :: "int \<times> int \<times> int \<Rightarrow> int" where
  "ymd_ord = (\<lambda>(y, m, d).
     days_before_year y + sum_list (take (nat (m - 1)) (month_lengths (is_leap y))) + d)"

text \<open>The month and day of a zero-based day of the year.\<close>

fun month_scan :: "int list \<Rightarrow> int \<Rightarrow> int \<Rightarrow> int \<times> int" where
  "month_scan [] m n = (m, n + 1)"
| "month_scan (l # ls) m n = (if n < l then (m, n + 1) else month_scan ls (m + 1) (n - l))"

definition ord_ymd :: "int \<Rightarrow> int \<times> int \<times> int" where
  "ord_ymd k = (let n = k - 1;
     n400 = n div 146097; r400 = n mod 146097;
     n100 = r400 div 36524; r100 = r400 mod 36524;
     n4 = r100 div 1461; r4 = r100 mod 1461;
     n1 = r4 div 365; r1 = r4 mod 365;
     year = n400 * 400 + 1 + n100 * 100 + n4 * 4 + n1
   in if n1 = 4 \<or> n100 = 4 then (year - 1, 12, 31)
      else (year, month_scan (month_lengths (is_leap year)) 1 r1))"

definition valid_ymd :: "int \<times> int \<times> int \<Rightarrow> bool" where
  "valid_ymd = (\<lambda>(y, m, d). 1 \<le> m \<and> m \<le> 12 \<and> 1 \<le> d \<and> d \<le> month_lengths (is_leap y) ! nat (m - 1))"

definition year_len :: "int \<Rightarrow> int" where
  "year_len y = (if is_leap y then 366 else 365)"

lemma month_lengths_sum: "sum_list (month_lengths leap) = (if leap then 366 else 365)"
  by (simp add: month_lengths_def)

lemma month_lengths_length [simp]: "length (month_lengths leap) = 12"
  by (simp add: month_lengths_def)

lemma month_lengths_pos: "l \<in> set (month_lengths leap) \<Longrightarrow> 28 \<le> l \<and> l \<le> 31"
  by (auto simp: month_lengths_def split: if_splits)

lemma days_before_next_year: "days_before_year (y + 1) = days_before_year y + year_len y"
proof -
  have step: "y div c = (y - 1) div c + (if y mod c = 0 then 1 else 0)" if "0 < c" for c :: int
  proof -
    define q where "q = (y - 1) div c"
    define m where "m = (y - 1) mod c"
    have y: "y = c * q + (m + 1)" and m: "0 \<le> m" "m < c"
      using that by (simp_all add: q_def m_def algebra_simps)
    show ?thesis
    proof (cases "m + 1 = c")
      case True
      with y have "y = c * (q + 1)" by (simp add: algebra_simps)
      then have "y div c = q + 1" "y mod c = 0" using that by simp_all
      then show ?thesis by (simp add: q_def)
    next
      case False
      with m have "m + 1 < c" by simp
      then have "y div c = q" "y mod c = m + 1"
        using int_div_pos_eq [OF y] int_mod_pos_eq [OF y] m by simp_all
      then show ?thesis using m by (simp add: q_def)
    qed
  qed
  have "400 dvd y \<Longrightarrow> 100 dvd y" "100 dvd y \<Longrightarrow> 4 dvd y"
    by (rule dvd_trans [of _ 400], simp_all) (rule dvd_trans [of _ 100], simp_all)
  then have dvd: "y mod 400 = 0 \<Longrightarrow> y mod 100 = 0" "y mod 100 = 0 \<Longrightarrow> y mod 4 = 0"
    by (simp_all add: mod_eq_0_iff_dvd)
  have next_year: "days_before_year (y + 1) = y * 365 + y div 4 - y div 100 + y div 400"
    and this_year: "days_before_year y = (y - 1) * 365 + (y - 1) div 4 - (y - 1) div 100 + (y - 1) div 400"
    by (simp_all add: days_before_year_def Let_def)
  have combine: "n = y * 365 + q4 - q100 + q400 \<Longrightarrow> t = (y - 1) * 365 + p4 - p100 + p400
      \<Longrightarrow> q4 = p4 + i4 \<Longrightarrow> q100 = p100 + i100 \<Longrightarrow> q400 = p400 + i400
      \<Longrightarrow> l = 365 + i4 - i100 + i400 \<Longrightarrow> n = t + l"
    for n t l q4 q100 q400 p4 p100 p400 i4 i100 i400 :: int
    by simp
  define i4 :: int where "i4 = (if y mod 4 = 0 then 1 else 0)"
  define i100 :: int where "i100 = (if y mod 100 = 0 then 1 else 0)"
  define i400 :: int where "i400 = (if y mod 400 = 0 then 1 else 0)"
  have s: "y div 4 = (y - 1) div 4 + i4" "y div 100 = (y - 1) div 100 + i100" "y div 400 = (y - 1) div 400 + i400"
    unfolding i4_def i100_def i400_def by (rule step, simp)+
  have ifs: "(if P \<and> (\<not> Q \<or> R) then 366 else 365) =
      365 + (if P then 1 else 0) - (if Q then 1 else 0) + (if R then 1 else (0::int))"
    if "R \<Longrightarrow> Q" "Q \<Longrightarrow> P" for P Q R
    using that by (cases P; cases Q; cases R) simp_all
  have "year_len y = 365 + i4 - i100 + i400"
    unfolding year_len_def is_leap_def i4_def i100_def i400_def by (rule ifs [OF dvd])
  from combine [OF next_year this_year s this] show ?thesis .
qed

lemma days_before_year_mono: "y \<le> y' \<Longrightarrow> days_before_year y \<le> days_before_year y'"
proof (induction y' rule: int_ge_induct)
  case base
  then show ?case by simp
next
  case (step i)
  then show ?case using days_before_next_year [of i] by (simp add: year_len_def split: if_splits)
qed

lemma month_scan_spec:
  assumes "0 \<le> n" and "n < sum_list ls" and "\<forall>l \<in> set ls. 0 \<le> l"
  shows "\<exists>j d. month_scan ls m n = (m + int j, d) \<and> j < length ls \<and> 1 \<le> d \<and> d \<le> ls ! j
    \<and> n + 1 = sum_list (take j ls) + d"
  using assms
proof (induction ls m n rule: month_scan.induct)
  case (1 m n)
  then show ?case by simp
next
  case (2 l ls m n)
  show ?case
  proof (cases "n < l")
    case True
    with "2.prems" show ?thesis by (intro exI [of _ 0] exI [of _ "n + 1"]) simp
  next
    case False
    with 2 obtain j d where "month_scan ls (m + 1) (n - l) = (m + 1 + int j, d)" "j < length ls"
      "1 \<le> d" "d \<le> ls ! j" "n - l + 1 = sum_list (take j ls) + d"
      by fastforce
    with False show ?thesis by (intro exI [of _ "Suc j"] exI [of _ d]) simp
  qed
qed

lemma div_by: "(x::int) = c * q + r \<Longrightarrow> 0 \<le> r \<Longrightarrow> r < c \<Longrightarrow> x div c = q"
  by (rule int_div_pos_eq)

lemma days_before_year_parts:
  assumes "0 \<le> b" "b \<le> 3" "0 \<le> c" "c \<le> 24" "0 \<le> d" "d \<le> 3"
  shows "days_before_year (400 * a + 1 + 100 * b + 4 * c + d) = 146097 * a + 36524 * b + 1461 * c + 365 * d"
proof -
  let ?z = "400 * a + 100 * b + 4 * c + d"
  have "?z div 4 = 100 * a + 25 * b + c" by (rule div_by [of _ _ _ d]) (use assms in simp_all)
  moreover have "?z div 100 = 4 * a + b" by (rule div_by [of _ _ _ "4 * c + d"]) (use assms in simp_all)
  moreover have "?z div 400 = a" by (rule div_by [of _ _ _ "100 * b + 4 * c + d"]) (use assms in simp_all)
  moreover have "400 * a + 1 + 100 * b + 4 * c + d - 1 = ?z" by simp
  ultimately have "days_before_year (400 * a + 1 + 100 * b + 4 * c + d)
      = ?z * 365 + (100 * a + 25 * b + c) - (4 * a + b) + a"
    unfolding days_before_year_def Let_def by (simp only:)
  then show ?thesis by simp
qed

text \<open>Every day number is the ordinal of the valid date computed for it.\<close>

lemma ord_ymd_correct: "valid_ymd (ord_ymd k) \<and> ymd_ord (ord_ymd k) = k"
proof -
  define a where "a = (k - 1) div 146097"
  define r400 where "r400 = (k - 1) mod 146097"
  define b where "b = r400 div 36524"
  define r100 where "r100 = r400 mod 36524"
  define c where "c = r100 div 1461"
  define r4 where "r4 = r100 mod 1461"
  define d where "d = r4 div 365"
  define e where "e = r4 mod 365"
  define y where "y = a * 400 + 1 + b * 100 + c * 4 + d"
  have eqs: "k - 1 = 146097 * a + r400" "r400 = 36524 * b + r100" "r100 = 1461 * c + r4" "r4 = 365 * d + e"
    by (simp_all add: a_def r400_def b_def r100_def c_def r4_def d_def e_def)
  have ranges: "0 \<le> r400" "r400 < 146097" "0 \<le> r100" "r100 < 36524" "0 \<le> r4" "r4 < 1461" "0 \<le> e" "e < 365"
    by (simp_all add: r400_def r100_def r4_def e_def)
  have quot: "0 \<le> b" "b \<le> 4" "0 \<le> c" "c \<le> 24" "0 \<le> d" "d \<le> 4"
    using eqs ranges by linarith+
  have ymd: "ord_ymd k = (if d = 4 \<or> b = 4 then (y - 1, 12, 31)
      else (y, month_scan (month_lengths (is_leap y)) 1 e))"
    by (simp add: ord_ymd_def Let_def a_def r400_def b_def r100_def c_def r4_def d_def e_def y_def)
  show ?thesis
  proof (cases "d = 4 \<or> b = 4")
    case False
    then have *: "b \<le> 3" "d \<le> 3" using quot by auto
    have dby: "days_before_year y = 146097 * a + 36524 * b + 1461 * c + 365 * d"
      using days_before_year_parts [of b c d a] quot * by (simp add: y_def algebra_simps)
    have "e < sum_list (month_lengths (is_leap y))" using ranges by (simp add: month_lengths_sum)
    then obtain j t where jt: "month_scan (month_lengths (is_leap y)) 1 e = (1 + int j, t)"
      "j < 12" "1 \<le> t" "t \<le> month_lengths (is_leap y) ! j"
      "e + 1 = sum_list (take j (month_lengths (is_leap y))) + t"
      using month_scan_spec [of e "month_lengths (is_leap y)" 1] ranges month_lengths_pos by fastforce
    then show ?thesis using False dby eqs by (simp add: ymd valid_ymd_def ymd_ord_def)
  next
    case True
    have leap: "is_leap (y - 1)" and dby: "days_before_year (y - 1) + 366 = k"
    proof -
      have "is_leap (y - 1) \<and> days_before_year (y - 1) + 366 = k"
      proof (cases "b = 4")
        case True
        with eqs ranges have "r100 = 0" "r400 = 146096" by linarith+
        with eqs ranges quot have "c = 0" "d = 0" "e = 0" "r4 = 0" by linarith+
        have "y - 1 = 400 * a + 1 + 100 * 3 + 4 * 24 + 3"
          using True \<open>c = 0\<close> \<open>d = 0\<close> by (simp add: y_def)
        then have "days_before_year (y - 1) = 146097 * a + 36524 * 3 + 1461 * 24 + 365 * 3"
          using days_before_year_parts [of 3 24 3 a] by simp
        moreover have "(y - 1) mod 4 = 0" "(y - 1) mod 400 = 0"
          using True \<open>c = 0\<close> \<open>d = 0\<close> by (simp_all add: y_def mod_eq_0_iff_dvd dvd_add_right_iff)
        ultimately show ?thesis using eqs \<open>r400 = 146096\<close> by (simp add: is_leap_def)
      next
        case False
        with True have "d = 4" by simp
        with eqs ranges have "e = 0" "r4 = 1460" by linarith+
        with eqs ranges have c: "c \<le> 23" by linarith
        have b: "b \<le> 3" using False quot by simp
        have y: "y - 1 = 400 * a + 1 + 100 * b + 4 * c + 3" using \<open>d = 4\<close> by (simp add: y_def)
        then have "days_before_year (y - 1) = 146097 * a + 36524 * b + 1461 * c + 365 * 3"
          using days_before_year_parts [of b c 3 a] quot b by simp
        moreover have "(y - 1) mod 4 = 0" unfolding y by presburger
        moreover have "(y - 1) mod 100 = 4 * c + 4"
          by (rule int_mod_pos_eq [of _ _ "4 * a + b"]) (use y quot c in simp_all)
        ultimately show ?thesis using eqs \<open>r4 = 1460\<close> quot by (simp add: is_leap_def)
      qed
      then show "is_leap (y - 1)" "days_before_year (y - 1) + 366 = k" by auto
    qed
    then show ?thesis using True by (simp add: ymd valid_ymd_def ymd_ord_def month_lengths_def)
  qed
qed

text \<open>Later dates have larger ordinals.\<close>

lemma sum_take_mono:
  "i \<le> j \<Longrightarrow> sum_list (take i (month_lengths leap)) \<le> sum_list (take j (month_lengths leap))"
proof (induction j rule: dec_induct)
  case base
  then show ?case by simp
next
  case (step j)
  have "sum_list (take j (month_lengths leap)) \<le> sum_list (take (Suc j) (month_lengths leap))"
  proof (cases "j < 12")
    case True
    then have "0 \<le> month_lengths leap ! j" using month_lengths_pos [of "month_lengths leap ! j" leap] by simp
    with True show ?thesis by (simp add: take_Suc_conv_app_nth)
  qed simp
  with step show ?case by simp
qed

lemma day_of_year_bounds:
  assumes "valid_ymd (y, m, d)"
  shows "days_before_year y < ymd_ord (y, m, d)" and "ymd_ord (y, m, d) \<le> days_before_year (y + 1)"
proof -
  let ?L = "month_lengths (is_leap y)"
  have v: "1 \<le> m" "m \<le> 12" "1 \<le> d" "d \<le> ?L ! nat (m - 1)" using assms by (auto simp: valid_ymd_def)
  have "0 \<le> sum_list (take (nat (m - 1)) ?L)" using sum_take_mono [of 0 "nat (m - 1)"] by simp
  then show "days_before_year y < ymd_ord (y, m, d)" using v by (simp add: ymd_ord_def)
  have "sum_list (take (nat (m - 1)) ?L) + d \<le> sum_list (take (Suc (nat (m - 1))) ?L)"
    using v by (simp add: take_Suc_conv_app_nth)
  also have "\<dots> \<le> sum_list (take 12 ?L)" using v by (intro sum_take_mono) simp
  also have "\<dots> = year_len y" by (simp add: month_lengths_sum year_len_def)
  finally show "ymd_ord (y, m, d) \<le> days_before_year (y + 1)"
    by (simp add: ymd_ord_def days_before_next_year)
qed

lemma ymd_ord_less:
  assumes "valid_ymd a" and "valid_ymd b" and "a < b"
  shows "ymd_ord a < ymd_ord b"
proof -
  obtain y m d y' m' d' where ab: "a = (y, m, d)" "b = (y', m', d')" by (cases a, cases b) auto
  from assms(3) consider "y < y'" | "y = y'" "m < m'" | "y = y'" "m = m'" "d < d'"
    by (auto simp: ab less_prod_def')
  then show ?thesis
  proof cases
    case 1
    then have "days_before_year (y + 1) \<le> days_before_year y'" by (intro days_before_year_mono) simp
    then show ?thesis using day_of_year_bounds [of y m d] day_of_year_bounds [of y' m' d'] assms ab by simp
  next
    case 2
    let ?L = "month_lengths (is_leap y)"
    have v: "1 \<le> m" "m' \<le> 12" "d \<le> ?L ! nat (m - 1)" "1 \<le> d'"
      using assms(1,2) 2 by (auto simp: ab valid_ymd_def)
    have "sum_list (take (nat (m - 1)) ?L) + d \<le> sum_list (take (Suc (nat (m - 1))) ?L)"
      using v 2 by (simp add: take_Suc_conv_app_nth)
    also have "\<dots> \<le> sum_list (take (nat (m' - 1)) ?L)" using v 2 by (intro sum_take_mono) simp
    finally show ?thesis using v 2 by (simp add: ab ymd_ord_def)
  next
    case 3
    then show ?thesis by (simp add: ab ymd_ord_def)
  qed
qed

lemma ord_ymd_less: "j < k \<Longrightarrow> ord_ymd j < ord_ymd k"
  using ord_ymd_correct [of j] ord_ymd_correct [of k] ymd_ord_less [of "ord_ymd k" "ord_ymd j"]
  by (metis less_asym linorder_neqE)

lemma ord_ymd_ymd_ord: "valid_ymd a \<Longrightarrow> ord_ymd (ymd_ord a) = a"
  using ord_ymd_correct [of "ymd_ord a"] ymd_ord_less [of a "ord_ymd (ymd_ord a)"]
    ymd_ord_less [of "ord_ymd (ymd_ord a)" a] by (metis less_irrefl linorder_neqE)

section \<open>ISO text of an instant\<close>

definition date_str :: "int \<times> int \<times> int \<Rightarrow> string" where
  "date_str = (\<lambda>(y, m, d). pad_digits 4 (nat y) @ ''-'' @ pad_digits 2 (nat m) @ ''-'' @ pad_digits 2 (nat d))"

definition clock_str :: "int \<Rightarrow> string" where
  "clock_str s = pad_digits 2 (nat (s div 3600)) @ '':'' @ pad_digits 2 (nat (s div 60 mod 60))
     @ '':'' @ pad_digits 2 (nat (s mod 60))"

definition us_per_s :: int where "us_per_s = 1000000"

definition day_number :: "int \<Rightarrow> int" where
  "day_number t = 719163 + t div us_per_s div 86400"

definition iso_seconds :: "int \<Rightarrow> string" where
  "iso_seconds t = date_str (ord_ymd (day_number t)) @ ''T'' @ clock_str (t div us_per_s mod 86400)"

text \<open>\<^verbatim>\<open>t.isoformat()\<close> of a UTC instant: microseconds only when they are not zero.\<close>

definition isoformat :: "int \<Rightarrow> string" where
  "isoformat t = iso_seconds t @ (if t mod us_per_s = 0 then [] else CHR ''.'' # pad_digits 6 (nat (t mod us_per_s)))
     @ ''+00:00''"

text \<open>\<^verbatim>\<open>t.replace(microsecond=0)\<close>\<close>

definition whole_second :: "int \<Rightarrow> int" where
  "whole_second t = t - t mod us_per_s"

text \<open>The instants a UTC \<^verbatim>\<open>datetime\<close> can hold: years 1 to 9999.\<close>

definition in_range :: "int \<Rightarrow> bool" where
  "in_range t \<longleftrightarrow> 1 \<le> day_number t \<and> day_number t \<le> 3652059"

lemma whole_second_div [simp]: "whole_second t div us_per_s = t div us_per_s"
  "whole_second t mod us_per_s = 0"
  by (simp_all add: whole_second_def minus_mod_eq_mult_div us_per_s_def)

lemma in_range_whole_second [simp]: "in_range (whole_second t) = in_range t"
  by (simp add: in_range_def day_number_def)

lemma iso_seconds_whole_second [simp]: "iso_seconds (whole_second t) = iso_seconds t"
  by (simp add: iso_seconds_def day_number_def)

lemma in_range_year:
  assumes "in_range t"
  shows "0 < fst (ord_ymd (day_number t))" "fst (ord_ymd (day_number t)) < 10000"
proof -
  obtain y m d where o: "ord_ymd (day_number t) = (y, m, d)" by (cases "ord_ymd (day_number t)") auto
  then have "valid_ymd (y, m, d)" "ymd_ord (y, m, d) = day_number t"
    using ord_ymd_correct [of "day_number t"] by auto
  then have b: "days_before_year y < day_number t" "day_number t \<le> days_before_year (y + 1)"
    using day_of_year_bounds [of y m d] by auto
  have "\<not> y \<le> 0"
  proof
    assume "y \<le> 0"
    then have "days_before_year (y + 1) \<le> days_before_year 1" by (intro days_before_year_mono) simp
    with b assms show False by (simp add: in_range_def days_before_year_def)
  qed
  moreover have "\<not> 10000 \<le> y"
  proof
    assume "10000 \<le> y"
    then have "days_before_year 10000 \<le> days_before_year y" by (rule days_before_year_mono)
    with b assms show False by (simp add: in_range_def days_before_year_def)
  qed
  ultimately show "0 < fst (ord_ymd (day_number t))" "fst (ord_ymd (day_number t)) < 10000"
    by (simp_all add: o)
qed

lemma date_str_length: "length (date_str a) = 10"
  by (cases a) (simp add: date_str_def)

lemma clock_str_length: "length (clock_str s) = 8"
  by (simp add: clock_str_def)

lemma pad_nat_less:
  "0 \<le> a \<Longrightarrow> a < 10 ^ w \<Longrightarrow> 0 \<le> b \<Longrightarrow> b < 10 ^ w \<Longrightarrow>
     pad_digits w (nat a) < pad_digits w (nat b) \<longleftrightarrow> a < b"
  by (subst pad_digits_less) (auto simp: nat_less_iff)

lemma valid_ymd_small: "valid_ymd (y, m, d) \<Longrightarrow> 1 \<le> m \<and> m < 100 \<and> 1 \<le> d \<and> d < 100"
  using month_lengths_pos [of "month_lengths (is_leap y) ! nat (m - 1)" "is_leap y"]
  by (fastforce simp: valid_ymd_def)

lemma date_str_less:
  assumes "valid_ymd a" "valid_ymd b" "0 < fst a" "fst a < 10000" "0 < fst b" "fst b < 10000" "a < b"
  shows "date_str a < date_str b"
proof -
  obtain y m d y' m' d' where ab: "a = (y, m, d)" "b = (y', m', d')" by (cases a, cases b) auto
  have "0 \<le> y" "y < 10 ^ 4" "0 \<le> y'" "y' < 10 ^ 4" using assms ab by simp_all
  moreover have "1 \<le> m" "m < 10 ^ 2" "1 \<le> d" "d < 10 ^ 2" "1 \<le> m'" "m' < 10 ^ 2" "1 \<le> d'" "d' < 10 ^ 2"
    using valid_ymd_small assms(1,2) ab by auto
  ultimately show ?thesis using assms(7)
    by (auto simp: ab date_str_def less_prod_def' string_less_append pad_nat_less)
qed

lemma hms_less:
  fixes h m t h' m' t' :: int
  assumes "0 \<le> h" "h < 100" "0 \<le> m" "m < 100" "0 \<le> t" "t < 100"
    and "0 \<le> h'" "h' < 100" "0 \<le> m'" "m' < 100" "0 \<le> t'" "t' < 100"
    and "h < h' \<or> h = h' \<and> (m < m' \<or> m = m' \<and> t < t')"
  shows "pad_digits 2 (nat h) @ '':'' @ pad_digits 2 (nat m) @ '':'' @ pad_digits 2 (nat t)
       < pad_digits 2 (nat h') @ '':'' @ pad_digits 2 (nat m') @ '':'' @ pad_digits 2 (nat t')"
  using assms by (auto simp: string_less_append pad_nat_less)

lemma clock_str_less:
  assumes "0 \<le> r" "r < s" "s < 86400"
  shows "clock_str r < clock_str s"
proof -
  have parts: "x = 3600 * (x div 3600) + 60 * (x div 60 mod 60) + x mod 60" for x :: int
  proof -
    have "x div 3600 = x div 60 div 60" using zdiv_zmult2_eq [of 60 x 60] by simp
    then show ?thesis using div_mult_mod_eq [of x 60] div_mult_mod_eq [of "x div 60" 60] by linarith
  qed
  have lt60: "x div 60 mod 60 < 60" "x mod 60 < 60" "0 \<le> x div 60 mod 60" "0 \<le> x mod 60" for x :: int
    by simp_all
  have lex: "h < h' \<or> h = h' \<and> (m < m' \<or> m = m' \<and> t < t')"
    if "3600 * h + 60 * m + t < 3600 * h' + 60 * m' + t'" "0 \<le> m'" "0 \<le> t'" "m < 60" "t < 60"
      "0 \<le> m" "0 \<le> t" "m' < 60" "t' < 60" for h m t h' m' t' :: int
    using that by linarith
  have hour: "0 \<le> x div 3600" "x div 3600 < 100" if "0 \<le> x" "x < 86400" for x :: int
    using that by (simp_all add: pos_imp_zdiv_nonneg_iff div_less_iff_less_mult)
  have small: "x div 60 mod 60 < 100" "x mod 60 < 100" for x :: int
    by (rule less_trans [OF lt60(1)], simp) (rule less_trans [OF lt60(2)], simp)
  have lt: "3600 * (r div 3600) + 60 * (r div 60 mod 60) + r mod 60
      < 3600 * (s div 3600) + 60 * (s div 60 mod 60) + s mod 60"
    using assms(2) by (simp only: parts [symmetric])
  have r: "0 \<le> r" "r < 86400" and s: "0 \<le> s" "s < 86400" using assms by simp_all
  show ?thesis unfolding clock_str_def
    by (rule hms_less [OF hour [OF r] lt60(3) small(1) lt60(4) small(2)
          hour [OF s] lt60(3) small(1) lt60(4) small(2)
          lex [OF lt lt60(3) lt60(4) lt60(1) lt60(2) lt60(3) lt60(4) lt60(1) lt60(2)]])
qed

text \<open>ISO text of whole seconds orders as the instants do.\<close>

lemma iso_seconds_less_if:
  assumes "in_range s" "in_range t" "s div us_per_s < t div us_per_s"
  shows "iso_seconds s < iso_seconds t"
proof -
  let ?a = "s div us_per_s" and ?b = "t div us_per_s"
  have vs: "valid_ymd (ord_ymd (day_number x))" for x using ord_ymd_correct by blast
  consider "day_number s < day_number t" | "day_number s = day_number t" "?a mod 86400 < ?b mod 86400"
  proof -
    have le: "?a div 86400 \<le> ?b div 86400" by (rule zdiv_mono1 [OF less_imp_le [OF assms(3)]]) simp
    have same: "?a mod 86400 < ?b mod 86400" if "?a div 86400 = ?b div 86400"
      using assms(3) that by (metis add_less_cancel_left mult_div_mod_eq)
    show ?thesis
    proof (cases "?a div 86400 = ?b div 86400")
      case True
      then show ?thesis using same that(2) by (simp add: day_number_def)
    next
      case False
      with le show ?thesis using that(1) by (simp add: day_number_def)
    qed
  qed
  then show ?thesis
  proof cases
    case 1
    have "date_str (ord_ymd (day_number s)) < date_str (ord_ymd (day_number t))"
      using vs ord_ymd_less [OF 1] in_range_year [OF assms(1)] in_range_year [OF assms(2)]
      by (intro date_str_less) simp_all
    then show ?thesis by (simp add: iso_seconds_def string_less_append date_str_length)
  next
    case 2
    then have "clock_str (?a mod 86400) < clock_str (?b mod 86400)" by (intro clock_str_less) simp_all
    with 2 show ?thesis by (simp add: iso_seconds_def string_less_append)
  qed
qed

lemma iso_seconds_less:
  assumes "in_range s" "in_range t"
  shows "iso_seconds s < iso_seconds t \<longleftrightarrow> s div us_per_s < t div us_per_s"
proof
  assume lt: "iso_seconds s < iso_seconds t"
  show "s div us_per_s < t div us_per_s"
  proof (rule ccontr)
    assume "\<not> s div us_per_s < t div us_per_s"
    then consider "s div us_per_s = t div us_per_s" | "t div us_per_s < s div us_per_s" by linarith
    then show False
    proof cases
      case 1
      then have "iso_seconds s = iso_seconds t" by (simp add: iso_seconds_def day_number_def)
      with lt show False by simp
    next
      case 2
      then have "iso_seconds t < iso_seconds s" using assms by (intro iso_seconds_less_if)
      with lt show False by simp
    qed
  qed
qed (rule iso_seconds_less_if [OF assms])

lemma iso_seconds_inj:
  assumes "in_range s" "in_range t"
  shows "iso_seconds s = iso_seconds t \<longleftrightarrow> s div us_per_s = t div us_per_s"
proof
  assume "iso_seconds s = iso_seconds t"
  then show "s div us_per_s = t div us_per_s"
    using iso_seconds_less [OF assms] iso_seconds_less [OF assms(2,1)] by simp
qed (simp add: iso_seconds_def day_number_def)

section \<open>Parsing ISO text\<close>

text \<open>
  \<^verbatim>\<open>datetime.fromisoformat\<close> on the extended format: \<^verbatim>\<open>YYYY-MM-DD\<close>,
  optionally one separator character and \<^verbatim>\<open>HH[:MM[:SS[.f...]]]\<close>, optionally
  \<^verbatim>\<open>Z\<close> or a signed offset.  The result is the wall-clock time in microseconds and
  the offset, absent for a naive value.  The compact and week-date formats are not accepted.
\<close>

type_synonym py_datetime = "int \<times> int option"

definition num_of :: "string \<Rightarrow> int option" where
  "num_of s = (if s \<noteq> [] \<and> list_all is_digit s
     then Some (int (foldl (\<lambda>a c. 10 * a + digit_val c) 0 s)) else None)"

definition parse_date :: "string \<Rightarrow> int option" where
  "parse_date s =
     (if length s = 10 \<and> s ! 4 = CHR ''-'' \<and> s ! 7 = CHR ''-''
      then (case (num_of (take 4 s), num_of (take 2 (drop 5 s)), num_of (drop 8 s)) of
          (Some y, Some m, Some d) \<Rightarrow>
            if 1 \<le> y \<and> valid_ymd (y, m, d) then Some (ymd_ord (y, m, d)) else None
        | _ \<Rightarrow> None)
      else None)"

definition parse_fraction :: "string \<Rightarrow> int option" where
  "parse_fraction s = (case s of [] \<Rightarrow> Some 0
   | c # cs \<Rightarrow> if (c = CHR ''.'' \<or> c = CHR '','') \<and> cs \<noteq> [] \<and> list_all is_digit cs
       then num_of (take 6 (cs @ ''00000'')) else None)"

definition parse_clock :: "string \<Rightarrow> int option" where
  "parse_clock s =
     (let h = num_of (take 2 s);
          m = (if length s = 2 then Some 0 else if s ! 2 = CHR '':'' then num_of (take 2 (drop 3 s)) else None);
          x = (if length s = 2 \<or> length s = 5 then Some 0
               else if s ! 5 = CHR '':'' then num_of (take 2 (drop 6 s)) else None);
          f = parse_fraction (drop 8 s)
      in if length s = 2 \<or> length s = 5 \<or> 8 \<le> length s
         then (case (h, m, x, f) of
             (Some h, Some m, Some x, Some f) \<Rightarrow>
               if h < 24 \<and> m < 60 \<and> x < 60 then Some ((h * 3600 + m * 60 + x) * us_per_s + f) else None
           | _ \<Rightarrow> None)
         else None)"

definition parse_offset :: "string \<Rightarrow> int option option" where
  "parse_offset s = (case s of [] \<Rightarrow> Some None
   | c # cs \<Rightarrow> if c = CHR ''Z'' then (if cs = [] then Some (Some 0) else None)
       else map_option (\<lambda>off. Some (if c = CHR ''-'' then - off else off)) (parse_clock cs))"

definition is_zone_char :: "char \<Rightarrow> bool" where
  "is_zone_char c = (c = CHR ''+'' \<or> c = CHR ''-'' \<or> c = CHR ''Z'')"

definition fromisoformat :: "string \<Rightarrow> py_datetime option" where
  "fromisoformat s = (case parse_date (take 10 s) of None \<Rightarrow> None
   | Some k \<Rightarrow> let midnight = (k - 719163) * 86400 * us_per_s in
       if length s = 10 then Some (midnight, None)
       else let rest = drop 11 s in
         (case (parse_clock (takeWhile (\<lambda>c. \<not> is_zone_char c) rest),
                parse_offset (dropWhile (\<lambda>c. \<not> is_zone_char c) rest)) of
            (Some t, Some z) \<Rightarrow> Some (midnight + t, z)
          | _ \<Rightarrow> None))"

text \<open>\<^verbatim>\<open>d.astimezone(utc)\<close> of an aware value.\<close>

definition to_utc :: "int \<Rightarrow> int \<Rightarrow> int" where
  "to_utc wall offset = wall - offset"

lemma num_of_pad: "w \<noteq> 0 \<Longrightarrow> 0 \<le> n \<Longrightarrow> n < 10 ^ w \<Longrightarrow> num_of (pad_digits w (nat n)) = Some n"
  using pad_digits_value [of "nat n" w] pad_digits_digits [of w "nat n"] pad_digits_length [of w "nat n"]
  by (auto simp: num_of_def nat_less_iff simp del: pad_digits_length)

lemma parse_date_str:
  assumes "valid_ymd a" "0 < fst a" "fst a < 10000"
  shows "parse_date (date_str a) = Some (ymd_ord a)"
proof -
  obtain y m d where a: "a = (y, m, d)" by (cases a)
  let ?s = "date_str a"
  have s: "?s = pad_digits 4 (nat y) @ ''-'' @ pad_digits 2 (nat m) @ ''-'' @ pad_digits 2 (nat d)"
    by (simp add: a date_str_def)
  have "1 \<le> m" "m < 100" "1 \<le> d" "d < 100" using valid_ymd_small assms(1) a by auto
  then have n: "num_of (pad_digits 4 (nat y)) = Some y" "num_of (pad_digits 2 (nat m)) = Some m"
    "num_of (pad_digits 2 (nat d)) = Some d"
    using assms a by (auto intro: num_of_pad)
  have "?s ! 4 = CHR ''-''" "?s ! 7 = CHR ''-''" "length ?s = 10"
    by (simp_all add: s nth_append)
  moreover have "take 4 ?s = pad_digits 4 (nat y)" "take 2 (drop 5 ?s) = pad_digits 2 (nat m)"
    "drop 8 ?s = pad_digits 2 (nat d)"
    by (simp_all add: s)
  ultimately show ?thesis using n assms by (simp add: parse_date_def a)
qed

lemma clock_parts: "x = 3600 * (x div 3600) + 60 * (x div 60 mod 60) + x mod 60" for x :: int
proof -
  have "x div 3600 = x div 60 div 60" using zdiv_zmult2_eq [of 60 x 60] by simp
  then show ?thesis using div_mult_mod_eq [of x 60] div_mult_mod_eq [of "x div 60" 60] by linarith
qed

lemma num_of_two:
  assumes "0 \<le> n" "n < 60"
  shows "num_of (pad_digits 2 (nat n)) = Some n"
  using assms by (intro num_of_pad) simp_all

lemma parse_clock_hms:
  assumes "0 \<le> h" "h < 24" "0 \<le> m" "m < 60" "0 \<le> t" "t < 60"
  shows "parse_clock (pad_digits 2 (nat h) @ '':'' @ pad_digits 2 (nat m) @ '':'' @ pad_digits 2 (nat t))
    = Some ((h * 3600 + m * 60 + t) * us_per_s)"
proof -
  let ?s = "pad_digits 2 (nat h) @ '':'' @ pad_digits 2 (nat m) @ '':'' @ pad_digits 2 (nat t)"
  have n: "num_of (pad_digits 2 (nat h)) = Some h" "num_of (pad_digits 2 (nat m)) = Some m"
    "num_of (pad_digits 2 (nat t)) = Some t"
    using assms by (simp_all add: num_of_two)
  have "?s ! 2 = CHR '':''" "?s ! 5 = CHR '':''" "length ?s = 8"
    by (simp_all add: nth_append)
  moreover have "take 2 ?s = pad_digits 2 (nat h)" "take 2 (drop 3 ?s) = pad_digits 2 (nat m)"
    "take 2 (drop 6 ?s) = pad_digits 2 (nat t)" "drop 8 ?s = []"
    by simp_all
  ultimately show ?thesis using n assms
    unfolding parse_clock_def parse_fraction_def by simp
qed

lemma parse_clock_str:
  assumes "0 \<le> x" "x < 86400"
  shows "parse_clock (clock_str x) = Some (x * us_per_s)"
proof -
  have h: "0 \<le> x div 3600" "x div 3600 < 24" using assms
    by (simp_all add: pos_imp_zdiv_nonneg_iff div_less_iff_less_mult)
  have mt: "0 \<le> x div 60 mod 60" "x div 60 mod 60 < 60" "0 \<le> x mod 60" "x mod 60 < 60" by simp_all
  have "x div 3600 * 3600 + x div 60 mod 60 * 60 + x mod 60 = x"
    using clock_parts [of x] by (simp only: mult.commute)
  then show ?thesis
    using parse_clock_hms [OF h mt] unfolding clock_str_def by (simp only:)
qed

section \<open>Second buckets\<close>

text \<open>
  Second buckets are written as \<^verbatim>\<open>t.replace(microsecond=0).isoformat().replace("+00:00", "Z")\<close>
  and read back with \<^verbatim>\<open>fromisoformat(s.replace("Z", "+00:00"))\<close>.
\<close>

definition isoformat_utc :: "int \<Rightarrow> string" where
  "isoformat_utc t = str_replace ''+00:00'' ''Z'' (isoformat (whole_second t))"

definition parse_second_bucket :: "string \<Rightarrow> py_datetime option" where
  "parse_second_bucket s = fromisoformat (str_replace ''Z'' ''+00:00'' s)"

lemma str_replace_append:
  assumes "p = c # cs" "c \<notin> set a"
  shows "str_replace p n (a @ b) = a @ str_replace p n b"
  using assms(2)
proof (induction a)
  case Nil
  then show ?case by simp
next
  case (Cons x a)
  then have "\<not> starts_with (x # a @ b) p" by (auto simp: starts_with_def assms(1))
  with Cons show ?case by simp
qed

lemma pad_digits_chars: "c \<in> set (pad_digits w n) \<Longrightarrow> is_digit c"
  using pad_digits_digits [of w n] by (simp add: list_all_iff)

lemma iso_seconds_chars:
  assumes "c \<in> set (iso_seconds t)"
  shows "c \<noteq> CHR ''+'' \<and> c \<noteq> CHR ''Z''"
proof -
  obtain y m d where "ord_ymd (day_number t) = (y, m, d)" by (cases "ord_ymd (day_number t)") auto
  with assms consider "c = CHR ''-''" | "c = CHR '':''" | "c = CHR ''T''" | "is_digit c"
    by (auto simp: iso_seconds_def date_str_def clock_str_def dest: pad_digits_chars)
  then show ?thesis
    by cases (auto dest: is_digit_not_special)
qed

lemma isoformat_whole: "isoformat (whole_second t) = iso_seconds t @ ''+00:00''"
  by (simp add: isoformat_def)

lemma isoformat_utc_eq: "isoformat_utc t = iso_seconds t @ ''Z''"
proof -
  have "CHR ''+'' \<notin> set (iso_seconds t)" using iso_seconds_chars by blast
  then show ?thesis
    by (simp add: isoformat_utc_def isoformat_whole str_replace_append starts_with_def)
qed

lemma isoformat_utc_length: "length (isoformat_utc t) = 20"
  by (simp add: isoformat_utc_eq iso_seconds_def date_str_length clock_str_length)

lemma isoformat_utc_whole_second [simp]: "isoformat_utc (whole_second t) = isoformat_utc t"
  by (simp add: isoformat_utc_eq)

lemma isoformat_utc_less:
  assumes "in_range s" "in_range t"
  shows "isoformat_utc s < isoformat_utc t \<longleftrightarrow> s div us_per_s < t div us_per_s"
  using iso_seconds_less [OF assms]
  by (simp add: isoformat_utc_eq string_less_append iso_seconds_def date_str_length clock_str_length)

lemma isoformat_utc_inj:
  assumes "in_range s" "in_range t"
  shows "isoformat_utc s = isoformat_utc t \<longleftrightarrow> s div us_per_s = t div us_per_s"
  using iso_seconds_inj [OF assms] by (simp add: isoformat_utc_eq)

lemma clock_no_zone: "c \<in> set (clock_str x) \<Longrightarrow> \<not> is_zone_char c"
proof -
  assume "c \<in> set (clock_str x)"
  then consider "c = CHR '':''" | "is_digit c"
    by (auto simp: clock_str_def dest: pad_digits_chars)
  then show ?thesis by cases (auto simp: is_zone_char_def dest: is_digit_not_special)
qed

lemma parse_zero_offset: "parse_offset ''+00:00'' = Some (Some 0)"
  by (simp add: parse_offset_def parse_clock_def num_of_def parse_fraction_def is_digit_def digit_val_def)

lemma day_split: "(x div us_per_s div 86400) * 86400 * us_per_s + (x div us_per_s mod 86400) * us_per_s = whole_second x"
proof -
  have "(x div us_per_s div 86400) * 86400 + x div us_per_s mod 86400 = x div us_per_s"
    by (rule div_mult_mod_eq)
  then have "((x div us_per_s div 86400) * 86400 + x div us_per_s mod 86400) * us_per_s = x div us_per_s * us_per_s"
    by (rule arg_cong)
  also have "\<dots> = whole_second x" by (simp add: whole_second_def minus_mod_eq_div_mult)
  finally show ?thesis by (simp only: distrib_right)
qed

lemma parse_second_bucket_isoformat_utc:
  assumes "in_range t"
  shows "parse_second_bucket (isoformat_utc t) = Some (whole_second t, Some 0)"
proof -
  let ?d = "date_str (ord_ymd (day_number t))" and ?c = "clock_str (t div us_per_s mod 86400)"
  let ?s = "?d @ ''T'' @ ?c @ ''+00:00''"
  have "CHR ''Z'' \<notin> set (iso_seconds t)" using iso_seconds_chars by blast
  then have s: "str_replace ''Z'' ''+00:00'' (isoformat_utc t) = ?s"
    by (simp add: isoformat_utc_eq str_replace_append starts_with_def, simp add: iso_seconds_def)
  have date: "parse_date (take 10 ?s) = Some (day_number t)"
    using in_range_year [OF assms] ord_ymd_correct [of "day_number t"]
    by (simp add: date_str_length parse_date_str)
  have rest: "drop 11 ?s = ?c @ ''+00:00''" by (simp add: date_str_length)
  have zone: "takeWhile (\<lambda>c. \<not> is_zone_char c) (?c @ ''+00:00'') = ?c"
    "dropWhile (\<lambda>c. \<not> is_zone_char c) (?c @ ''+00:00'') = ''+00:00''"
    using clock_no_zone by (auto simp: takeWhile_append2 dropWhile_append2 is_zone_char_def)
  have clock: "parse_clock ?c = Some ((t div us_per_s mod 86400) * us_per_s)"
    by (rule parse_clock_str) simp_all
  have len: "length ?s \<noteq> 10" by (simp add: date_str_length)
  have mid: "(day_number t - 719163) * 86400 * us_per_s + (t div us_per_s mod 86400) * us_per_s = whole_second t"
    using day_split [of t] by (simp add: day_number_def)
  show ?thesis
    unfolding parse_second_bucket_def s fromisoformat_def date rest
    using len by (simp only: option.case Let_def if_False rest zone clock parse_zero_offset prod.case mid)
qed

end
