(* ===== verification/PyEnv.thy ===== *)
theory PyEnv
  imports PyTime
begin

text \<open>
  Exceptions, environment variables and the float comparisons that the configuration code of
  every Python program of the repository uses.  An exception carries the fixed part of its
  message; interpolated values are left out.
\<close>

datatype py_exn =
    ValueError string
  | IndexError string
  | KeyError string
  | RuntimeError string
  | TypeError
  | AttributeError
  | OverflowError
  | ZeroDivisionError
  | FileNotFoundError
  | PermissionError
  | TimeoutError string
  | CalledProcessError int

type_synonym 'a py = "py_exn + 'a"

abbreviation raise :: "py_exn \<Rightarrow> 'a py" where "raise \<equiv> Inl"
abbreviation ret :: "'a \<Rightarrow> 'a py" where "ret \<equiv> Inr"

text \<open>\<^verbatim>\<open>if bad: raise ValueError(msg)\<close>\<close>

definition guard :: "bool \<Rightarrow> py_exn \<Rightarrow> unit py" where
  "guard bad e = (if bad then Inl e else Inr ())"

lemma guard_Inr [simp]: "guard bad e = Inr u \<longleftrightarrow> \<not> bad"
  by (simp add: guard_def)

lemma guard_Inl [simp]: "guard bad e = Inl e' \<longleftrightarrow> bad \<and> e' = e"
  by (auto simp: guard_def)

text \<open>\<^verbatim>\<open>try: return parse(raw) except ValueError: raise ValueError(msg)\<close>\<close>

definition or_raise :: "py_exn \<Rightarrow> 'a option \<Rightarrow> 'a py" where
  "or_raise e m = (case m of None \<Rightarrow> Inl e | Some x \<Rightarrow> Inr x)"

lemma or_raise_Inr [simp]: "or_raise e m = Inr x \<longleftrightarrow> m = Some x"
  by (cases m) (auto simp: or_raise_def)

lemma or_raise_Inl [simp]: "or_raise e m = Inl e' \<longleftrightarrow> m = None \<and> e' = e"
  by (cases m) (auto simp: or_raise_def)

text \<open>\<^verbatim>\<open>d.astimezone(UTC)\<close>\<close>

definition as_utc :: "py_datetime \<Rightarrow> int py" where
  "as_utc d = (let t = (case snd d of None \<Rightarrow> fst d | Some offset \<Rightarrow> to_utc (fst d) offset) in
     if in_range t then Inr t else Inl OverflowError)"

section \<open>Environment variables\<close>

type_synonym env = "string \<Rightarrow> string option"

definition getenv :: "env \<Rightarrow> string \<Rightarrow> string \<Rightarrow> string" where
  "getenv env name dflt = (case env name of None \<Rightarrow> dflt | Some v \<Rightarrow> v)"

definition get_int :: "env \<Rightarrow> string \<Rightarrow> int \<Rightarrow> int py" where
  "get_int env name dflt =
     or_raise (ValueError (name @ '' must be an integer'')) (py_int (getenv env name (int_str dflt)))"

text \<open>
  The default of \<^verbatim>\<open>_get_float\<close> goes through \<^verbatim>\<open>str\<close> and back through
  \<^verbatim>\<open>float\<close>, which returns the same float.
\<close>

definition get_float :: "env \<Rightarrow> string \<Rightarrow> pfloat \<Rightarrow> pfloat py" where
  "get_float env name dflt = (case env name of
     None \<Rightarrow> Inr dflt
   | Some v \<Rightarrow> or_raise (ValueError (name @ '' must be a float'')) (py_float v))"

definition get_bool :: "env \<Rightarrow> string \<Rightarrow> bool \<Rightarrow> bool" where
  "get_bool env name dflt = (case env name of
     None \<Rightarrow> dflt
   | Some v \<Rightarrow> lower (strip v) \<in> {''1'', ''true'', ''yes'', ''on''})"

lemma get_int_absent [simp]: "env name = None \<Longrightarrow> get_int env name d = Inr d"
  by (simp add: get_int_def getenv_def or_raise_def)

lemma get_int_cases:
  "get_int env name d = Inr n \<longleftrightarrow> (env name = None \<and> n = d \<or> (\<exists>v. env name = Some v \<and> py_int v = Some n))"
  by (cases "env name") (auto simp: get_int_def getenv_def)

section \<open>Comparisons of floats\<close>

text \<open>Every comparison with a NaN is false.\<close>

fun pf_le :: "pfloat \<Rightarrow> pfloat \<Rightarrow> bool" where
  "pf_le (Fin a) (Fin b) = (a \<le> b)"
| "pf_le NaN _ = False"
| "pf_le _ NaN = False"
| "pf_le NInf _ = True"
| "pf_le _ PInf = True"
| "pf_le _ _ = False"

definition pf_lt :: "pfloat \<Rightarrow> pfloat \<Rightarrow> bool" where
  "pf_lt a b = (pf_le a b \<and> \<not> pf_le b a)"

lemma pf_not_le_zero: "\<not> pf_le x (Fin 0) \<longleftrightarrow> x = NaN \<or> x = PInf \<or> (\<exists>r. x = Fin r \<and> 0 < r)"
  by (cases x) auto

end
