(* ===== verification/Workload.thy ===== *)
theory Workload
  imports PyEnv
begin

text \<open>
  The request classes of the load generator (\<^verbatim>\<open>custom-load-generator/workload.py\<close>): which
  classes a run uses, how a request index inside a second picks its class, and the request that is
  built for a class.
\<close>

section \<open>Constants and data\<close>

definition DEFAULT_REQUEST_CLASSES :: "string list" where
  "DEFAULT_REQUEST_CLASSES =
     [''directory'', ''image'', ''html'', ''other'', ''audio'', ''java'', ''video'', ''compressed'', ''dynamic'']"

definition REQUEST_CLASS_COLUMNS :: "string \<Rightarrow> string option" where
  "REQUEST_CLASS_COLUMNS = map_of
     [(''html'', ''type_HTML''), (''image'', ''type_IMAGE''), (''audio'', ''type_AUDIO''),
      (''video'', ''type_VIDEO''), (''java'', ''type_JAVA''), (''dynamic'', ''type_DYNAMIC''),
      (''compressed'', ''type_COMPRESSED''), (''directory'', ''type_DIRECTORY''), (''other'', ''type_OTHER'')]"

text \<open>The field \<^verbatim>\<open>json_body\<close> of a request is never set by the planner.\<close>

record PreparedRequest =
  req_method :: string
  req_path :: string
  report_url :: string

record WorkloadConfig =
  wl_seed :: int
  demand_base_path :: string
  request_classes :: "string list"

section \<open>Loading the configuration\<close>

definition normalize_base_path :: "string \<Rightarrow> string py" where
  "normalize_base_path value =
     (let stripped = strip value in
      if stripped = [] then Inl (ValueError ''DEMAND_BASE_PATH must not be empty'')
      else let stripped = (if starts_with stripped ''/'' then stripped else CHR ''/'' # stripped)
           in Inr (rstrip_if (\<lambda>c. c = CHR ''/'') stripped))"

definition parse_request_classes :: "string option \<Rightarrow> string list py" where
  "parse_request_classes value = (case value of
     None \<Rightarrow> Inr DEFAULT_REQUEST_CLASSES
   | Some v \<Rightarrow>
      (let parsed = map (\<lambda>segment. lower (strip segment))
             (filter (\<lambda>segment. strip segment \<noteq> []) (split_char (CHR '','') v));
           duplicates = filter (\<lambda>c. 1 < count_list parsed c) parsed;
           unknown = filter (\<lambda>c. REQUEST_CLASS_COLUMNS c = None) parsed
       in if parsed = [] then Inl (ValueError ''REQUEST_CLASSES must include at least one request class'')
          else if duplicates \<noteq> [] then Inl (ValueError ''REQUEST_CLASSES must not contain duplicates'')
          else if unknown \<noteq> [] then Inl (ValueError ''REQUEST_CLASSES contains unsupported request classes'')
          else Inr parsed))"

definition load_workload_config :: "env \<Rightarrow> WorkloadConfig py" where
  "load_workload_config env =
     res_bind (get_int env ''SCRIPT_RANDOM_SEED'' 42) (\<lambda>seed.
     res_bind (normalize_base_path (getenv env ''DEMAND_BASE_PATH'' ''/demand'')) (\<lambda>base.
     res_bind (parse_request_classes (env ''REQUEST_CLASSES'')) (\<lambda>classes.
     Inr \<lparr>wl_seed = seed, demand_base_path = base, request_classes = classes\<rparr>)))"

section \<open>The planner\<close>

definition WorkloadPlanner :: "WorkloadConfig \<Rightarrow> WorkloadConfig py" where
  "WorkloadPlanner config =
     (if request_classes config = [] then Inl (ValueError ''At least one request class must be configured'')
      else Inr config)"

definition operation_names :: "WorkloadConfig \<Rightarrow> string list" where
  "operation_names config = request_classes config"

fun class_scan :: "int \<Rightarrow> (string \<times> int) list \<Rightarrow> int \<Rightarrow> string py" where
  "class_scan running_total [] i =
     Inl (IndexError ''request_index_within_second is outside the request class counts'')"
| "class_scan running_total ((request_class, request_count) # rest) i =
     (let running_total = running_total + request_count in
      if i < running_total then Inr request_class else class_scan running_total rest i)"

definition request_class_for_index :: "WorkloadConfig \<Rightarrow> int list \<Rightarrow> int \<Rightarrow> string py" where
  "request_class_for_index config counts i = class_scan 0 (zip (request_classes config) counts) i"

definition build_request :: "WorkloadConfig \<Rightarrow> string \<Rightarrow> PreparedRequest" where
  "build_request config request_class =
     (let path = demand_base_path config @ ''/'' @ request_class
      in \<lparr>req_method = ''GET'', req_path = path, report_url = path\<rparr>)"

section \<open>Lemmas\<close>

lemma default_classes:
  "distinct DEFAULT_REQUEST_CLASSES" "DEFAULT_REQUEST_CLASSES \<noteq> []"
  "set DEFAULT_REQUEST_CLASSES \<subseteq> dom REQUEST_CLASS_COLUMNS"
  by (auto simp: DEFAULT_REQUEST_CLASSES_def REQUEST_CLASS_COLUMNS_def)

lemma no_duplicates_distinct: "filter (\<lambda>c. 1 < count_list xs c) xs = [] \<Longrightarrow> distinct xs"
proof (rule ccontr)
  assume none: "filter (\<lambda>c. 1 < count_list xs c) xs = []" and "\<not> distinct xs"
  then obtain a b c y where xs: "xs = a @ [y] @ b @ [y] @ c" using not_distinct_decomp by metis
  then have "1 < count_list xs y" "y \<in> set xs" by auto
  with none show False by (auto simp: filter_empty_conv)
qed

lemma distinct_no_duplicates: "distinct xs \<Longrightarrow> filter (\<lambda>c. 1 < count_list xs c) xs = []"
proof -
  have "count_list xs c \<le> 1" if "distinct xs" for c
    using that by (induction xs) auto
  then show "distinct xs \<Longrightarrow> filter (\<lambda>c. 1 < count_list xs c) xs = []"
    by (auto simp: filter_empty_conv not_less)
qed

lemma class_columns_inj: "REQUEST_CLASS_COLUMNS c = Some v \<Longrightarrow> REQUEST_CLASS_COLUMNS d = Some v \<Longrightarrow> c = d"
  by (auto simp: REQUEST_CLASS_COLUMNS_def split: if_splits)

text \<open>The classes of a second in the order their requests are sent.\<close>

definition class_sequence :: "string list \<Rightarrow> int list \<Rightarrow> string list" where
  "class_sequence classes counts = concat (map (\<lambda>(c, n). replicate (nat n) c) (zip classes counts))"

lemma class_scan_spec:
  assumes "\<forall>(c, n) \<in> set ps. 0 \<le> n" "base \<le> i"
  shows "class_scan base ps i =
    (let seq = concat (map (\<lambda>(c, n). replicate (nat n) c) ps) in
     if i - base < int (length seq) then Inr (seq ! nat (i - base))
     else Inl (IndexError ''request_index_within_second is outside the request class counts''))"
  using assms
proof (induction ps arbitrary: base)
  case Nil
  then show ?case by simp
next
  case (Cons p ps)
  obtain c n where p: "p = (c, n)" by (cases p)
  with Cons.prems have n: "0 \<le> n" by simp
  show ?case
  proof (cases "i < base + n")
    case True
    then have "nat (i - base) < nat n" using Cons.prems by simp
    with True show ?thesis using Cons.prems n by (simp add: p nth_append Let_def)
  next
    case False
    then have "base + n \<le> i" by simp
    with Cons have IH: "class_scan (base + n) ps i =
      (let seq = concat (map (\<lambda>(c, n). replicate (nat n) c) ps) in
       if i - (base + n) < int (length seq) then Inr (seq ! nat (i - (base + n)))
       else Inl (IndexError ''request_index_within_second is outside the request class counts''))" by simp
    have "nat (i - base) - nat n = nat (i - (base + n))" using n \<open>base + n \<le> i\<close> by simp
    with False IH n \<open>base + n \<le> i\<close> show ?thesis
      by (auto simp: p nth_append Let_def)
  qed
qed

lemma class_sequence_length:
  assumes "length counts = length classes" "\<forall>n \<in> set counts. 0 \<le> n"
  shows "int (length (class_sequence classes counts)) = sum_list counts"
  using assms(1) [symmetric] assms(2)
  by (induction classes counts rule: list_induct2) (auto simp: class_sequence_def)

lemma class_sequence_set: "set (class_sequence classes counts) \<subseteq> set classes"
  by (auto simp: class_sequence_def dest: set_zip_leftD)

section \<open>Properties\<close>

text \<open>Over the indices of a second, the planner walks the classes in the configured order,
  each as often as its count says: the class of index \<open>i\<close> is the \<open>i\<close>-th of that sequence, and an
  index past the sum of the counts is an \<^verbatim>\<open>IndexError\<close>, never a wrong class.\<close>

theorem request_class_for_index_spec:
  assumes "\<forall>n \<in> set counts. 0 \<le> n" "0 \<le> i"
  shows "request_class_for_index config counts i =
    (if i < int (length (class_sequence (request_classes config) counts))
     then Inr (class_sequence (request_classes config) counts ! nat i)
     else Inl (IndexError ''request_index_within_second is outside the request class counts''))"
proof -
  have "\<forall>(c, n) \<in> set (zip (request_classes config) counts). 0 \<le> n"
    using assms(1) by (auto dest: set_zip_rightD)
  from class_scan_spec [OF this assms(2)] show ?thesis
    by (simp add: request_class_for_index_def class_sequence_def Let_def)
qed

theorem request_class_for_index_spec_witness:
  "request_class_for_index \<lparr>wl_seed = 1, demand_base_path = [], request_classes = [''html'', ''image'']\<rparr> [2, 1] 2
     = Inr ''image''"
  by (subst request_class_for_index_spec) (simp_all add: class_sequence_def numeral_2_eq_2)

text \<open>What \<^verbatim>\<open>_parse_request_classes\<close> accepts is non-empty, free of duplicates and
  known, and it accepts exactly the texts whose cleaned segments are so.\<close>

theorem parse_request_classes_ok:
  "parse_request_classes raw = Inr classes \<longleftrightarrow>
     classes = (case raw of None \<Rightarrow> DEFAULT_REQUEST_CLASSES
       | Some v \<Rightarrow> map (\<lambda>s. lower (strip s)) (filter (\<lambda>s. strip s \<noteq> []) (split_char (CHR '','') v)))
     \<and> classes \<noteq> [] \<and> distinct classes \<and> set classes \<subseteq> dom REQUEST_CLASS_COLUMNS"
proof (cases raw)
  case None
  then show ?thesis using default_classes by (auto simp: parse_request_classes_def)
next
  case (Some v)
  let ?p = "map (\<lambda>s. lower (strip s)) (filter (\<lambda>s. strip s \<noteq> []) (split_char (CHR '','') v))"
  have known: "filter (\<lambda>c. REQUEST_CLASS_COLUMNS c = None) xs \<noteq> [] \<longleftrightarrow> \<not> set xs \<subseteq> dom REQUEST_CLASS_COLUMNS" for xs
    by (simp add: filter_empty_conv subset_iff domIff Bex_def)
  have dup: "filter (\<lambda>c. 1 < count_list xs c) xs \<noteq> [] \<longleftrightarrow> \<not> distinct xs" for xs :: "string list"
    using no_duplicates_distinct distinct_no_duplicates by blast
  have final: "(if p = [] then Inl a else if \<not> distinct p then Inl b else if \<not> set p \<subseteq> D then Inl c else Inr p) = Inr classes
      \<longleftrightarrow> classes = p \<and> classes \<noteq> [] \<and> distinct classes \<and> set classes \<subseteq> D"
    for p :: "string list" and a b c :: py_exn and D by auto
  show ?thesis
    unfolding Some parse_request_classes_def Let_def option.case known dup by (rule final)
qed

lemma normalize_base_path_shape:
  assumes "normalize_base_path v = Inr p"
  shows "p = [] \<or> hd p = CHR ''/'' \<and> last p \<noteq> CHR ''/''"
proof -
  define s where "s = (if starts_with (strip v) ''/'' then strip v else CHR ''/'' # strip v)"
  have v: "strip v \<noteq> []" using assms by (auto simp: normalize_base_path_def)
  have p: "p = rstrip_if (\<lambda>c. c = CHR ''/'') s"
    using assms v unfolding normalize_base_path_def s_def [symmetric] Let_def by simp
  have hd: "s \<noteq> [] \<and> hd s = CHR ''/''"
  proof (cases "strip v")
    case Nil
    with v show ?thesis by simp
  next
    case (Cons c cs)
    show ?thesis
    proof (cases "c = CHR ''/''")
      case True
      with Cons show ?thesis by (simp add: s_def)
    next
      case False
      with Cons show ?thesis by (simp add: s_def starts_with_def)
    qed
  qed
  show ?thesis
  proof (cases "p = []")
    case False
    then have "last p \<noteq> CHR ''/''" using rstrip_if_last [of "\<lambda>c. c = CHR ''/''" s] by (simp add: p)
    moreover obtain r where "s = p @ r"
      using rstrip_if_prefix [of "\<lambda>c. c = CHR ''/''" s] unfolding p [symmetric] by (rule prefixE)
    with False have "hd p = hd s" by simp
    ultimately show ?thesis using hd by simp
  qed simp
qed

end
