(* ===== verification/Script.thy ===== *)
theory Script
  imports Workload
begin

text \<open>
  The configuration of a sender and the load script it replays: \<^verbatim>\<open>SenderConfig\<close>,
  \<^verbatim>\<open>load_runtime_config\<close> and \<^verbatim>\<open>load_script_points\<close> of
  \<^verbatim>\<open>custom-load-generator/load_sender.py\<close>.  A CSV file is the list of its records, each a
  list of fields, as \<^verbatim>\<open>csv.reader\<close> yields them; a missing file is \<open>None\<close>.  Instants are
  microseconds since the epoch.
\<close>

section \<open>Configuration\<close>

record SenderConfig =
  script_path :: string
  request_report_path :: string
  statistics_report_path :: string
  incident_report_path :: string
  metadata_path :: string
  heartbeat_path :: "string option"
  target_host :: string
  dispatch_mode :: string
  max_inflight :: int
  backlog_capacity :: int
  backlog_max_age_seconds :: pfloat
  request_timeout_seconds :: pfloat
  connect_timeout_seconds :: pfloat
  progress_log_interval_sec :: int
  request_log_flush_interval_sec :: int
  response_mode :: string
  verify_ssl :: bool
  worker_count :: int
  worker_index :: "int option"
  quiet_worker_logs :: bool

definition at_least :: "string \<Rightarrow> int \<Rightarrow> int \<Rightarrow> unit py" where
  "at_least name lo n = guard (n < lo) (ValueError (name @ '' must be at least '' @ int_str lo))"

definition load_worker_index :: "env \<Rightarrow> int \<Rightarrow> int option py" where
  "load_worker_index env count = (case env ''WORKER_INDEX'' of
     None \<Rightarrow> Inr None
   | Some v \<Rightarrow>
       res_bind (or_raise (ValueError ''invalid literal for int()'') (py_int v)) (\<lambda>i.
       if i < 0 \<or> count \<le> i then Inl (ValueError ''WORKER_INDEX must be in [0, WORKER_COUNT)'')
       else Inr (Some i)))"

definition load_runtime_config :: "env \<Rightarrow> SenderConfig py" where
  "load_runtime_config env =
     (let host = rstrip_if (\<lambda>c. c = CHR ''/'') (getenv env ''TARGET_HOST'' ''http://silkeste.fun'');
          mode = lower (strip (getenv env ''SCRIPT_DISPATCH_MODE'' ''spread''));
          response = lower (strip (getenv env ''REQUEST_RESPONSE_MODE'' ''release'')) in
     res_bind (guard (host = []) (ValueError ''TARGET_HOST must not be empty'')) (\<lambda>_.
     res_bind (guard (mode \<notin> {''spread'', ''burst''})
       (ValueError ''SCRIPT_DISPATCH_MODE must be either spread or burst'')) (\<lambda>_.
     res_bind (guard (response \<notin> {''release'', ''close''})
       (ValueError ''REQUEST_RESPONSE_MODE must be either release or close'')) (\<lambda>_.
     res_bind (get_int env ''PROGRESS_LOG_INTERVAL_SEC'' 60) (\<lambda>progress.
     res_bind (at_least ''PROGRESS_LOG_INTERVAL_SEC'' 1 progress) (\<lambda>_.
     res_bind (get_int env ''REQUEST_LOG_FLUSH_INTERVAL_SEC'' 60) (\<lambda>flush.
     res_bind (at_least ''REQUEST_LOG_FLUSH_INTERVAL_SEC'' 1 flush) (\<lambda>_.
     res_bind (get_int env ''MAX_INFLIGHT'' 2000) (\<lambda>inflight.
     res_bind (at_least ''MAX_INFLIGHT'' 1 inflight) (\<lambda>_.
     res_bind (get_int env ''BACKLOG_CAPACITY'' 0) (\<lambda>capacity.
     res_bind (at_least ''BACKLOG_CAPACITY'' 0 capacity) (\<lambda>_.
     res_bind (get_float env ''BACKLOG_MAX_AGE_SECONDS'' (Fin 1)) (\<lambda>age.
     res_bind (guard (pf_le age (Fin 0)) (ValueError ''BACKLOG_MAX_AGE_SECONDS must be greater than 0'')) (\<lambda>_.
     res_bind (get_float env ''REQUEST_TIMEOUT_SECONDS'' (Fin (rnd64 (1 / 5)))) (\<lambda>timeout.
     res_bind (get_float env ''CONNECT_TIMEOUT_SECONDS'' timeout) (\<lambda>connect.
     res_bind (guard (pf_le timeout (Fin 0)) (ValueError ''REQUEST_TIMEOUT_SECONDS must be greater than 0'')) (\<lambda>_.
     res_bind (guard (pf_le connect (Fin 0)) (ValueError ''CONNECT_TIMEOUT_SECONDS must be greater than 0'')) (\<lambda>_.
     res_bind (get_int env ''WORKER_COUNT'' 1) (\<lambda>count.
     res_bind (at_least ''WORKER_COUNT'' 1 count) (\<lambda>_.
     res_bind (load_worker_index env count) (\<lambda>windex.
     Inr \<lparr>script_path = getenv env ''SCRIPT_CSV_PATH'' ''/app/scripts/test_script.csv'',
       request_report_path = getenv env ''REQUEST_REPORT_PATH'' ''/app/output/load_generator_request_report.csv'',
       statistics_report_path =
         getenv env ''STATISTICS_REPORT_PATH'' ''/app/output/load_generator_statistics_report.csv'',
       incident_report_path = getenv env ''INCIDENT_REPORT_PATH'' ''/app/output/load_generator_incident_report.csv'',
       metadata_path = getenv env ''METADATA_PATH'' ''/app/output/load_generator_metadata.csv'',
       heartbeat_path = (case env ''HEARTBEAT_PATH'' of None \<Rightarrow> None | Some p \<Rightarrow> if p = [] then None else Some p),
       target_host = host, dispatch_mode = mode, max_inflight = inflight, backlog_capacity = capacity,
       backlog_max_age_seconds = age, request_timeout_seconds = timeout, connect_timeout_seconds = connect,
       progress_log_interval_sec = progress, request_log_flush_interval_sec = flush, response_mode = response,
       verify_ssl = get_bool env ''REQUEST_SSL_VERIFY'' True, worker_count = count, worker_index = windex,
       quiet_worker_logs = get_bool env ''QUIET_WORKER_LOGS'' False\<rparr>)))))))))))))))))))))"

text \<open>What every component of the sender assumes of its configuration.\<close>

definition valid_config :: "SenderConfig \<Rightarrow> bool" where
  "valid_config cfg \<longleftrightarrow>
     target_host cfg \<noteq> [] \<and> dispatch_mode cfg \<in> {''spread'', ''burst''} \<and> response_mode cfg \<in> {''release'', ''close''}
     \<and> 1 \<le> progress_log_interval_sec cfg \<and> 1 \<le> request_log_flush_interval_sec cfg
     \<and> 1 \<le> max_inflight cfg \<and> 0 \<le> backlog_capacity cfg \<and> 1 \<le> worker_count cfg
     \<and> \<not> pf_le (backlog_max_age_seconds cfg) (Fin 0) \<and> \<not> pf_le (request_timeout_seconds cfg) (Fin 0)
     \<and> \<not> pf_le (connect_timeout_seconds cfg) (Fin 0)
     \<and> (case worker_index cfg of None \<Rightarrow> True | Some i \<Rightarrow> 0 \<le> i \<and> i < worker_count cfg)"

lemma at_least_Inr [simp]: "at_least name lo n = Inr u \<longleftrightarrow> lo \<le> n"
  by (simp add: at_least_def not_less)

lemma load_worker_index_range:
  "load_worker_index env count = Inr w \<Longrightarrow> (case w of None \<Rightarrow> True | Some i \<Rightarrow> 0 \<le> i \<and> i < count)"
  by (auto simp: load_worker_index_def res_simps split: option.splits if_splits)

section \<open>CSV rows as dictionaries\<close>

text \<open>
  \<^verbatim>\<open>csv.DictReader\<close>: the first record names the columns, blank records are skipped, and a
  record shorter than the header leaves its last columns \<open>None\<close>.  The outer option is the key's
  presence.
\<close>

type_synonym csv = "string list list"

definition dict_row :: "string list \<Rightarrow> string list \<Rightarrow> string \<Rightarrow> string option option" where
  "dict_row header row k =
     (if k \<notin> set header then None
      else if k \<in> set (drop (length row) header) then Some None
      else Some (map_of (rev (zip header row)) k))"

definition dict_rows :: "csv \<Rightarrow> (string \<Rightarrow> string option option) list" where
  "dict_rows file = (case file of [] \<Rightarrow> []
     | header # rows \<Rightarrow> map (dict_row header) (filter (\<lambda>r. r \<noteq> []) rows))"

definition row_get :: "(string \<Rightarrow> string option option) \<Rightarrow> string \<Rightarrow> string option py" where
  "row_get row k = or_raise (KeyError k) (row k)"

definition row_has_values :: "(string \<Rightarrow> string option option) \<Rightarrow> string list \<Rightarrow> bool" where
  "row_has_values row names = list_all (\<lambda>k. case row k of Some (Some v) \<Rightarrow> v \<noteq> [] | _ \<Rightarrow> False) names"

section \<open>Script points\<close>

record ScriptPoint =
  timestamp :: int
  requests :: int
  request_class_counts :: "int list"

definition parse_timestamp :: "string option \<Rightarrow> int py" where
  "parse_timestamp cell = (case cell of
     None \<Rightarrow> Inl AttributeError
   | Some v \<Rightarrow> (case fromisoformat (strip v) of
       None \<Rightarrow> Inl (ValueError ''Invalid datetime on CSV line'')
     | Some (wall, None) \<Rightarrow> Inl (ValueError ''CSV datetime must include a timezone offset'')
     | Some (wall, Some offset) \<Rightarrow>
         if in_range (to_utc wall offset) then Inr (to_utc wall offset) else Inl OverflowError))"

definition parse_request_count :: "string option \<Rightarrow> int py" where
  "parse_request_count cell = (case cell of
     None \<Rightarrow> Inl TypeError
   | Some v \<Rightarrow> (case py_float v of
       None \<Rightarrow> Inl (ValueError ''Invalid request count on CSV line'')
     | Some x \<Rightarrow>
         if \<not> float_is_integer x then Inl (ValueError ''Request count must be an integer'')
         else (case trunc_float x of
             None \<Rightarrow> Inl OverflowError
           | Some n \<Rightarrow> if n < 0 then Inl (ValueError ''Request count must be non-negative'') else Inr n)))"

definition class_column :: "string \<Rightarrow> string py" where
  "class_column c = or_raise (KeyError c) (REQUEST_CLASS_COLUMNS c)"

definition parse_script_row :: "string list \<Rightarrow> (string \<Rightarrow> string option option) \<Rightarrow> (int \<times> int list) py" where
  "parse_script_row classes row =
     res_bind (row_get row ''datetime'') (\<lambda>d.
     res_bind (parse_timestamp d) (\<lambda>t.
     res_bind (traverse (\<lambda>c. res_bind (class_column c) (\<lambda>col.
        res_bind (row_get row col) parse_request_count)) classes) (\<lambda>counts.
     Inr (t, counts))))"

record script_state =
  points :: "ScriptPoint list"
  current_time :: "int option"
  last_time :: "int option"

definition zero_point :: "nat \<Rightarrow> int \<Rightarrow> ScriptPoint" where
  "zero_point n t = \<lparr>timestamp = t, requests = 0, request_class_counts = replicate n 0\<rparr>"

definition row_point :: "int \<times> int list \<Rightarrow> ScriptPoint" where
  "row_point = (\<lambda>(t, counts). \<lparr>timestamp = t, requests = sum_list counts, request_class_counts = counts\<rparr>)"

text \<open>
  The body of the loop over the rows.  Advancing the clock by a second past the last instant a
  \<^verbatim>\<open>datetime\<close> can hold raises; when the filling loop would do so, the increment after the
  row does too, so one test stands for both.
\<close>

definition script_step :: "string list \<Rightarrow> (string \<Rightarrow> string option option) \<Rightarrow> script_state \<Rightarrow> script_state py" where
  "script_step classes row st =
     res_bind (parse_script_row classes row) (\<lambda>(t, counts).
     if (case last_time st of None \<Rightarrow> False | Some l \<Rightarrow> t < l)
       then Inl (ValueError ''CSV timestamps must be sorted ascending after UTC normalization'')
     else if last_time st = Some t
       then Inl (ValueError ''CSV contains duplicate timestamps after UTC normalization'')
     else
       let cur = (case current_time st of None \<Rightarrow> t | Some c \<Rightarrow> c) in
       if \<not> in_range (t + us_per_s) then Inl OverflowError
       else Inr \<lparr>points = points st @ map (zero_point (length classes)) (ticks us_per_s cur t) @ [row_point (t, counts)],
                 current_time = Some (t + us_per_s), last_time = Some t\<rparr>)"

definition load_script_points :: "csv option \<Rightarrow> string list \<Rightarrow> ScriptPoint list py" where
  "load_script_points file classes = (case file of
     None \<Rightarrow> Inl FileNotFoundError
   | Some recs \<Rightarrow>
       res_bind (traverse class_column classes) (\<lambda>cols.
       let required = ''datetime'' # cols in
       if recs = [] \<or> \<not> set required \<subseteq> set (hd recs) \<or> hd recs = []
         then Inl (ValueError ''CSV must contain columns'')
       else
         res_bind (fold_res (script_step classes) (dict_rows recs)
             \<lparr>points = [], current_time = None, last_time = None\<rparr>) (\<lambda>st.
         if points st = [] then Inl (ValueError ''No CSV rows found in the script file'')
         else Inr (points st))))"

section \<open>The timeline a script denotes\<close>

fun timeline_of :: "nat \<Rightarrow> (int \<times> int list) list \<Rightarrow> ScriptPoint list" where
  "timeline_of n [] = []"
| "timeline_of n [r] = [row_point r]"
| "timeline_of n (r # s # rest) =
     row_point r # map (zero_point n) (ticks us_per_s (fst r + us_per_s) (fst s)) @ timeline_of n (s # rest)"

lemma timeline_of_snoc:
  "rows \<noteq> [] \<Longrightarrow> timeline_of n (rows @ [r]) =
     timeline_of n rows @ map (zero_point n) (ticks us_per_s (fst (last rows) + us_per_s) (fst r)) @ [row_point r]"
proof (induction n rows rule: timeline_of.induct)
  case (3 n a b rest)
  then show ?case by (cases rest) simp_all
qed simp_all

lemma timeline_of_nonempty [simp]: "timeline_of n rows = [] \<longleftrightarrow> rows = []"
  by (cases "(n, rows)" rule: timeline_of.cases) simp_all

definition state_of_rows :: "nat \<Rightarrow> (int \<times> int list) list \<Rightarrow> script_state" where
  "state_of_rows n rows =
     (if rows = [] then \<lparr>points = [], current_time = None, last_time = None\<rparr>
      else \<lparr>points = timeline_of n rows, current_time = Some (fst (last rows) + us_per_s), last_time = Some (fst (last rows))\<rparr>)"

text \<open>One row extends the denoted prefix, or is refused.\<close>

lemma script_step_Inr_iff:
  "script_step classes row (state_of_rows (length classes) done_rows) = Inr st \<longleftrightarrow>
     (\<exists>r. parse_script_row classes row = Inr r \<and> (done_rows \<noteq> [] \<longrightarrow> fst (last done_rows) < fst r)
        \<and> in_range (fst r + us_per_s) \<and> st = state_of_rows (length classes) (done_rows @ [r]))"
proof (cases "parse_script_row classes row")
  case (Inl e)
  then show ?thesis by (simp add: script_step_def)
next
  case (Inr r)
  obtain t counts where r: "r = (t, counts)" by (cases r)
  show ?thesis
  proof (cases "done_rows = []")
    case True
    with Inr show ?thesis by (auto simp: r script_step_def state_of_rows_def Let_def)
  next
    case False
    have "script_step classes row (state_of_rows (length classes) done_rows) =
      (if t < fst (last done_rows) then Inl (ValueError ''CSV timestamps must be sorted ascending after UTC normalization'')
       else if fst (last done_rows) = t then Inl (ValueError ''CSV contains duplicate timestamps after UTC normalization'')
       else if \<not> in_range (t + us_per_s) then Inl OverflowError
       else Inr (state_of_rows (length classes) (done_rows @ [r])))"
      using False Inr by (simp add: r script_step_def state_of_rows_def Let_def timeline_of_snoc)
    then show ?thesis using False by (auto simp: Inr r)
  qed
qed

lemma script_fold_Inr_iff:
  "fold_res (script_step classes) rows (state_of_rows (length classes) done_rows) = Inr st \<longleftrightarrow>
     (\<exists>rs. traverse (parse_script_row classes) rows = Inr rs
        \<and> sorted_wrt (<) (map fst ((if done_rows = [] then [] else [last done_rows]) @ rs))
        \<and> (\<forall>r \<in> set rs. in_range (fst r + us_per_s)) \<and> st = state_of_rows (length classes) (done_rows @ rs))"
proof (induction rows arbitrary: done_rows)
  case Nil
  then show ?case by auto
next
  case (Cons row rows)
  let ?n = "length classes"
  show ?case
  proof (cases "script_step classes row (state_of_rows ?n done_rows)")
    case (Inl e)
    have "\<not> (fst (last done_rows) < fst r \<and> in_range (fst r + us_per_s))"
      if "parse_script_row classes row = Inr r" "done_rows \<noteq> []" for r
      using Inl script_step_Inr_iff [of classes row done_rows "state_of_rows ?n (done_rows @ [r])"] that by auto
    moreover have "\<not> in_range (fst r + us_per_s)"
      if "parse_script_row classes row = Inr r" "done_rows = []" for r
      using Inl script_step_Inr_iff [of classes row done_rows "state_of_rows ?n (done_rows @ [r])"] that by auto
    ultimately show ?thesis using Inl by (auto simp: res_bind_Inr_iff)
  next
    case (Inr u)
    then obtain r where r: "parse_script_row classes row = Inr r" "done_rows \<noteq> [] \<longrightarrow> fst (last done_rows) < fst r"
      "in_range (fst r + us_per_s)" "u = state_of_rows ?n (done_rows @ [r])"
      using script_step_Inr_iff by blast
    have order: "sorted_wrt (<) (map fst ((if done_rows = [] then [] else [last done_rows]) @ r # rs)) \<longleftrightarrow>
        sorted_wrt (<) (map fst ([r] @ rs))" for rs
      using r(2) by auto
    have "fold_res (script_step classes) (row # rows) (state_of_rows ?n done_rows) = Inr st \<longleftrightarrow>
      (\<exists>ys. traverse (parse_script_row classes) rows = Inr ys \<and> sorted_wrt (<) (map fst ([r] @ ys))
        \<and> (\<forall>y \<in> set ys. in_range (fst y + us_per_s)) \<and> st = state_of_rows ?n (done_rows @ r # ys))"
      using Cons.IH [of "done_rows @ [r]"] by (simp add: Inr r(4))
    also have "\<dots> \<longleftrightarrow> (\<exists>ys. traverse (parse_script_row classes) rows = Inr ys
        \<and> sorted_wrt (<) (map fst ((if done_rows = [] then [] else [last done_rows]) @ r # ys))
        \<and> (\<forall>y \<in> set (r # ys). in_range (fst y + us_per_s)) \<and> st = state_of_rows ?n (done_rows @ r # ys))"
      unfolding order using r(3) by simp
    finally show ?thesis by (simp only: traverse.simps r(1) res_bind_simps res_bind_Inr_iff) blast
  qed
qed


lemma sorted_timeline:
  assumes "sorted_wrt (<) (map fst rows)"
  shows "sorted_wrt (<) (map timestamp (timeline_of n rows))
    \<and> (\<forall>p \<in> set (timeline_of n rows). rows \<noteq> [] \<longrightarrow> fst (hd rows) \<le> timestamp p)"
  using assms
proof (induction n rows rule: timeline_of.induct)
  case (1 n)
  then show ?case by simp
next
  case (2 n r)
  then show ?case by (simp add: row_point_def split: prod.split)
next
  case (3 n a b rest)
  let ?fill = "ticks us_per_s (fst a + us_per_s) (fst b)" and ?tail = "timeline_of n (b # rest)"
  have lt: "fst a < fst b" using "3.prems" by simp
  have us: "0 < us_per_s" by (simp add: us_per_s_def)
  have IH: "sorted_wrt (<) (map timestamp ?tail)" "\<forall>p \<in> set ?tail. fst b \<le> timestamp p"
    using "3.IH" "3.prems" by simp_all
  have fill: "x \<in> set ?fill \<Longrightarrow> fst a < x \<and> x < fst b" for x
    using ticks_bounds [of x us_per_s "fst a + us_per_s" "fst b"] us by auto
  have zp: "map timestamp (map (zero_point n) ts) = ts" for ts
    by (induction ts) (simp_all add: zero_point_def)
  have rp: "timestamp (row_point a) = fst a" by (simp add: row_point_def split: prod.split)
  have "map timestamp (timeline_of n (a # b # rest)) = fst a # ?fill @ map timestamp ?tail"
    by (simp add: rp zp [unfolded map_map])
  moreover have "sorted_wrt (<) (fst a # ?fill @ map timestamp ?tail)"
    using IH lt fill ticks_sorted [of us_per_s "fst a + us_per_s" "fst b"] by (fastforce simp: sorted_wrt_append)
  moreover have "fst a \<le> timestamp p" if "p \<in> set (timeline_of n (a # b # rest))" for p
    using that IH(2) lt fill rp by (fastforce simp: zero_point_def)
  ultimately show ?case by (simp only: list.sel simp_thms) blast
qed

lemma sum_zero_points: "sum_list (map requests (map (zero_point n) ts)) = 0"
  by (induction ts) (simp_all add: zero_point_def)

lemma timeline_requests: "sum_list (map requests (timeline_of n rows)) = sum_list (map (\<lambda>r. sum_list (snd r)) rows)"
  by (induction n rows rule: timeline_of.induct)
    (simp_all add: row_point_def sum_zero_points [unfolded map_map] split: prod.split)

definition well_formed_point :: "nat \<Rightarrow> ScriptPoint \<Rightarrow> bool" where
  "well_formed_point n p \<longleftrightarrow> length (request_class_counts p) = n \<and> (\<forall>c \<in> set (request_class_counts p). 0 \<le> c)
     \<and> requests p = sum_list (request_class_counts p)"

lemma zero_point_ok [simp]: "well_formed_point n (zero_point n t)"
  by (simp add: well_formed_point_def zero_point_def sum_list_replicate)

lemma timeline_well_formed:
  "\<forall>r \<in> set rows. length (snd r) = n \<and> (\<forall>c \<in> set (snd r). 0 \<le> c) \<Longrightarrow>
     p \<in> set (timeline_of n rows) \<Longrightarrow> well_formed_point n p"
  by (induction n rows rule: timeline_of.induct)
    (auto simp: well_formed_point_def row_point_def zero_point_def sum_list_replicate split: prod.splits)

lemma parse_request_count_nonneg: "parse_request_count cell = Inr n \<Longrightarrow> 0 \<le> n"
  by (auto simp: parse_request_count_def split: option.splits if_splits)

lemma parse_script_row_counts:
  assumes "parse_script_row classes row = Inr r"
  shows "length (snd r) = length classes \<and> (\<forall>c \<in> set (snd r). 0 \<le> c)"
proof -
  obtain cs where "traverse (\<lambda>c. res_bind (class_column c) (\<lambda>col. res_bind (row_get row col) parse_request_count)) classes
      = Inr cs" and r: "snd r = cs"
    using assms by (auto simp: parse_script_row_def res_bind_Inr_iff)
  then have all2: "list_all2 (\<lambda>c n. res_bind (class_column c) (\<lambda>col. res_bind (row_get row col) parse_request_count) = Inr n) classes cs"
    by (simp add: traverse_Inr_iff)
  have "0 \<le> n" if "n \<in> set cs" for n
    using all2 that parse_request_count_nonneg
    by (auto simp: list_all2_conv_all_nth in_set_conv_nth res_bind_Inr_iff)
  with all2 show ?thesis by (auto simp: r list_all2_lengthD)
qed

section \<open>Properties\<close>

lemma load_script_points_Inr:
  "load_script_points file classes = Inr pts \<longleftrightarrow>
     (\<exists>recs cols rs. file = Some recs \<and> traverse class_column classes = Inr cols
        \<and> recs \<noteq> [] \<and> hd recs \<noteq> [] \<and> set (''datetime'' # cols) \<subseteq> set (hd recs)
        \<and> traverse (parse_script_row classes) (dict_rows recs) = Inr rs \<and> rs \<noteq> []
        \<and> sorted_wrt (<) (map fst rs) \<and> (\<forall>r \<in> set rs. in_range (fst r + us_per_s))
        \<and> pts = timeline_of (length classes) rs)"
proof (cases "file")
  case None
  then show ?thesis by (simp add: load_script_points_def)
next
  case (Some recs)
  have start: "\<lparr>points = [], current_time = None, last_time = None\<rparr> = state_of_rows (length classes) []"
    by (simp add: state_of_rows_def)
  have pts: "points (state_of_rows n rs) = timeline_of n rs" for n rs by (simp add: state_of_rows_def)
  have fold: "res_bind (fold_res (script_step classes) (dict_rows recs) (state_of_rows (length classes) []))
        (\<lambda>st. if points st = [] then Inl e else Inr (points st)) = Inr pts \<longleftrightarrow>
      (\<exists>rs. traverse (parse_script_row classes) (dict_rows recs) = Inr rs \<and> rs \<noteq> []
        \<and> sorted_wrt (<) (map fst rs) \<and> (\<forall>r \<in> set rs. in_range (fst r + us_per_s))
        \<and> pts = timeline_of (length classes) rs)" for e
  proof -
    have ex: "(\<exists>st. (\<exists>rs. A rs \<and> B rs \<and> C rs \<and> st = f rs) \<and> P st) \<longleftrightarrow> (\<exists>rs. A rs \<and> B rs \<and> C rs \<and> P (f rs))"
      for A B C P and f :: "(int \<times> int list) list \<Rightarrow> script_state" by blast
    show ?thesis unfolding res_bind_Inr_iff script_fold_Inr_iff ex by (auto simp: pts)
  qed
  show ?thesis
    unfolding Some load_script_points_def option.case Let_def start res_bind_Inr_iff [of "traverse class_column classes"]
    by (auto simp: fold)
qed

lemma example_script_loads:
  "load_script_points (Some [[''datetime'', ''type_HTML''], [''2024-01-01T00:00:00+00:00'', ''2''], [],
      [''2024-01-01T02:00:02+02:00'', ''1'']]) [''html''] = Inr [
     zero_point 1 1704067201000000 \<lparr>timestamp := 1704067200000000, requests := 2, request_class_counts := [2]\<rparr>,
     zero_point 1 1704067201000000,
     \<lparr>timestamp = 1704067202000000, requests = 1, request_class_counts = [1]\<rparr>]"
  by code_simp

text \<open>C34: a script loads exactly when its header has the columns, every record parses, the
  instants rise strictly and leave room for one more second; the timeline is then the records with
  an empty second for every whole step between two of them.\<close>

theorem load_script_points_iff:
  "load_script_points file classes = Inr pts \<longleftrightarrow>
     (\<exists>recs cols rs. file = Some recs \<and> traverse class_column classes = Inr cols
        \<and> recs \<noteq> [] \<and> hd recs \<noteq> [] \<and> set (''datetime'' # cols) \<subseteq> set (hd recs)
        \<and> traverse (parse_script_row classes) (dict_rows recs) = Inr rs \<and> rs \<noteq> []
        \<and> sorted_wrt (<) (map fst rs) \<and> (\<forall>r \<in> set rs. in_range (fst r + us_per_s))
        \<and> pts = timeline_of (length classes) rs)"
  by (rule load_script_points_Inr)

theorem load_script_points_iff_witness:
  "\<exists>recs rs. traverse (parse_script_row [''html'']) (dict_rows recs) = Inr rs \<and> rs \<noteq> []
     \<and> sorted_wrt (<) (map fst rs) \<and> length (timeline_of 1 rs) = 3"
proof -
  from load_script_points_iff [THEN iffD1, OF example_script_loads]
  obtain recs rs where "traverse (parse_script_row [''html'']) (dict_rows recs) = Inr rs" "rs \<noteq> []"
    "sorted_wrt (<) (map fst rs)" and eq: "[zero_point 1 1704067201000000
        \<lparr>timestamp := 1704067200000000, requests := 2, request_class_counts := [2]\<rparr>,
       zero_point 1 1704067201000000,
       \<lparr>timestamp = 1704067202000000, requests = 1, request_class_counts = [1]\<rparr>] = timeline_of (length [''html'']) rs"
    by (elim exE conjE)
  moreover have "length (timeline_of 1 rs) = 3" using arg_cong [OF eq, of length] by simp
  ultimately show ?thesis by blast
qed

lemma loaded_timeline:
  assumes "load_script_points file classes = Inr pts"
  shows "pts \<noteq> [] \<and> sorted_wrt (<) (map timestamp pts) \<and> (\<forall>p \<in> set pts. well_formed_point (length classes) p)
    \<and> (\<exists>rs. traverse (parse_script_row classes) (dict_rows (the file)) = Inr rs
         \<and> sum_list (map requests pts) = sum_list (map (\<lambda>r. sum_list (snd r)) rs))"
proof -
  obtain recs rs where f: "file = Some recs" and rs: "traverse (parse_script_row classes) (dict_rows recs) = Inr rs"
    "rs \<noteq> []" "sorted_wrt (<) (map fst rs)" and pts: "pts = timeline_of (length classes) rs"
    using assms unfolding load_script_points_Inr by blast
  have "\<forall>r \<in> set rs. length (snd r) = length classes \<and> (\<forall>c \<in> set (snd r). 0 \<le> c)"
    using rs(1) parse_script_row_counts
    by (fastforce simp: traverse_Inr_iff list_all2_conv_all_nth in_set_conv_nth)
  then show ?thesis
    using rs sorted_timeline [OF rs(3)] timeline_well_formed timeline_requests [of "length classes" rs]
    by (auto simp: f pts)
qed

text \<open>In a loaded timeline instants rise strictly, every point has one non-negative count per
  class and their sum as its requests, and the requests add up to those of the records.\<close>

theorem load_script_points_timeline:
  assumes "load_script_points file classes = Inr pts"
  shows "pts \<noteq> [] \<and> sorted_wrt (<) (map timestamp pts) \<and> (\<forall>p \<in> set pts. well_formed_point (length classes) p)
    \<and> (\<exists>rs. traverse (parse_script_row classes) (dict_rows (the file)) = Inr rs
         \<and> sum_list (map requests pts) = sum_list (map (\<lambda>r. sum_list (snd r)) rs))"
  using assms by (rule loaded_timeline)

theorem load_script_points_timeline_witness:
  "(let pts = [zero_point 1 1704067201000000 \<lparr>timestamp := 1704067200000000, requests := 2, request_class_counts := [2]\<rparr>,
       zero_point 1 1704067201000000,
       \<lparr>timestamp = 1704067202000000, requests = 1, request_class_counts = [1]\<rparr>]
    in sorted_wrt (<) (map timestamp pts) \<and> (\<forall>p \<in> set pts. well_formed_point 1 p))"
  using load_script_points_timeline [OF example_script_loads] by (simp only: Let_def list.size One_nat_def) simp

lemma loaded_config:
  assumes "load_runtime_config env = Inr cfg"
  shows "valid_config cfg"
proof (insert assms, unfold load_runtime_config_def Let_def res_bind_Inr_iff guard_Inr at_least_Inr,
    elim exE conjE, drule Inr_inject, hypsubst)
qed (simp add: valid_config_def load_worker_index_range)

text \<open>C38: a configuration that loads is one the sender can run with.\<close>

theorem load_runtime_config_valid:
  assumes "load_runtime_config env = Inr cfg"
  shows "valid_config cfg"
  using assms by (rule loaded_config)

theorem load_runtime_config_valid_witness:
  "\<exists>cfg. load_runtime_config (\<lambda>_. None) = Inr cfg \<and> valid_config cfg"
proof -
  have "\<not> isl (load_runtime_config (\<lambda>_. None))" by code_simp
  then obtain cfg where "load_runtime_config (\<lambda>_. None) = Inr cfg"
    by (cases "load_runtime_config (\<lambda>_. None)") simp_all
  with load_runtime_config_valid show ?thesis by blast
qed

end
