(* ===== verification/Reports.thy ===== *)
theory Reports
  imports Script
begin

text \<open>
  The three report writers of \<^verbatim>\<open>custom-load-generator/load_sender.py\<close>: counts of started
  requests per second and URL, statistics per second, incidents.  A writer is its fields and the
  records of the file it appends to.  The locale \<open>report_writer\<close> states what the sender relies on:
  flushing now and then and once at the end leaves the same file as one dump of everything
  recorded; each writer is an interpretation.
\<close>

section \<open>Seconds\<close>

definition sec :: "int \<Rightarrow> int" where
  "sec t = t div us_per_s"

lemma sec_mult [simp]: "sec (k * us_per_s) = k"
  by (simp add: sec_def us_per_s_def)

lemma whole_second_sec: "whole_second t = sec t * us_per_s"
  by (simp add: whole_second_def sec_def minus_mod_eq_div_mult)

lemma sec_mono: "s \<le> t \<Longrightarrow> sec s \<le> sec t"
  by (simp add: sec_def us_per_s_def zdiv_mono1)

lemma bucket_of_sec: "isoformat_utc (sec t * us_per_s) = isoformat_utc t"
  using isoformat_utc_whole_second [of t] by (simp add: whole_second_sec)

lemma in_range_between:
  assumes "in_range (a * us_per_s)" "in_range (b * us_per_s)" "a \<le> k" "k \<le> b"
  shows "in_range (k * us_per_s)"
proof -
  have day: "day_number (x * us_per_s) = 719163 + x div 86400" for x
    by (simp add: day_number_def us_per_s_def)
  have "a div 86400 \<le> k div 86400" "k div 86400 \<le> b div 86400"
    using assms(3,4) by (simp_all add: zdiv_mono1)
  then show ?thesis using assms(1,2) unfolding in_range_def day by linarith
qed

lemma bucket_sec_less:
  "in_range (j * us_per_s) \<Longrightarrow> in_range (k * us_per_s) \<Longrightarrow>
     isoformat_utc (j * us_per_s) < isoformat_utc (k * us_per_s) \<longleftrightarrow> j < k"
  using isoformat_utc_less sec_mult by (simp add: sec_def)

lemma bucket_sec_inj:
  "in_range (j * us_per_s) \<Longrightarrow> in_range (k * us_per_s) \<Longrightarrow>
     isoformat_utc (j * us_per_s) = isoformat_utc (k * us_per_s) \<longleftrightarrow> j = k"
  using isoformat_utc_inj sec_mult by (simp add: sec_def)

text \<open>The seconds of \<^verbatim>\<open>while current <= closed_through\<close>.\<close>

lemma ticks_seconds: "ticks us_per_s (a * us_per_s) (b * us_per_s + 1) = map (\<lambda>k. k * us_per_s) [a..b]"
proof (induction "nat (b - a + 1)" arbitrary: a)
  case 0
  then have "b * us_per_s + 1 \<le> a * us_per_s" by (simp add: us_per_s_def)
  with 0 show ?case by simp
next
  case (Suc n)
  then have "a \<le> b" by simp
  then have "a * us_per_s < b * us_per_s + 1" "[a..b] = a # [a + 1..b]" by (simp_all add: us_per_s_def upto_rec1)
  moreover have "a * us_per_s + us_per_s = (a + 1) * us_per_s" by (simp add: algebra_simps)
  ultimately show ?case using Suc(1) [of "a + 1"] Suc(2) by (simp add: ticks_step us_per_s_def)
qed

section \<open>The contract of a report writer\<close>

text \<open>
  \<open>holds F evs w\<close>: the writer \<open>w\<close> has seen the events \<open>evs\<close> and has closed no second from \<open>F\<close> on.
  An event may still be recorded in any second that is not closed; flushing at \<open>now\<close> closes the
  seconds before \<open>now\<close>; finishing writes the rest.
\<close>

datatype 'e report_op = Record int 'e | Flush int

fun events :: "'e report_op list \<Rightarrow> (int \<times> 'e) list" where
  "events [] = []"
| "events (Record t e # ops) = (t, e) # events ops"
| "events (Flush now # ops) = events ops"

fun timely :: "int \<Rightarrow> 'e report_op list \<Rightarrow> bool" where
  "timely F [] = True"
| "timely F (Record t e # ops) = (in_range t \<and> F \<le> sec t \<and> timely F ops)"
| "timely F (Flush now # ops) = (in_range now \<and> timely (max F (sec now)) ops)"

fun run_report :: "(int \<Rightarrow> 'e \<Rightarrow> 'w \<Rightarrow> 'w) \<Rightarrow> (int \<Rightarrow> 'w \<Rightarrow> 'w) \<Rightarrow> 'e report_op list \<Rightarrow> 'w \<Rightarrow> 'w" where
  "run_report put flush [] w = w"
| "run_report put flush (Record t e # ops) w = run_report put flush ops (put t e w)"
| "run_report put flush (Flush now # ops) w = run_report put flush ops (flush now w)"

locale report_writer =
  fixes put :: "int \<Rightarrow> 'e \<Rightarrow> 'w \<Rightarrow> 'w"
    and flush :: "int \<Rightarrow> 'w \<Rightarrow> 'w"
    and finish :: "'w \<Rightarrow> 'w"
    and lines_of :: "'w \<Rightarrow> csv"
    and holds :: "int \<Rightarrow> (int \<times> 'e) list \<Rightarrow> 'w \<Rightarrow> bool"
    and complete :: "(int \<times> 'e) list \<Rightarrow> csv \<Rightarrow> bool"
    and ok :: "'e \<Rightarrow> bool"
  assumes put_holds: "holds F evs w \<Longrightarrow> in_range t \<Longrightarrow> F \<le> sec t \<Longrightarrow> ok e \<Longrightarrow> holds F (evs @ [(t, e)]) (put t e w)"
    and flush_holds: "holds F evs w \<Longrightarrow> in_range now \<Longrightarrow> holds (max F (sec now)) evs (flush now w)"
    and finish_complete: "holds F evs w \<Longrightarrow> complete evs (lines_of (finish w))"
begin

lemma run_report_holds:
  "holds F evs w \<Longrightarrow> timely F ops \<Longrightarrow> \<forall>(t, e) \<in> set (events ops). ok e \<Longrightarrow>
     \<exists>F'. holds F' (evs @ events ops) (run_report put flush ops w)"
proof (induction F ops arbitrary: evs w rule: timely.induct)
  case (2 F t e ops)
  then have "holds F (evs @ [(t, e)]) (put t e w)" by (auto intro: put_holds)
  with 2 show ?case by fastforce
next
  case (3 F now ops)
  then have "holds (max F (sec now)) evs (flush now w)" by (auto intro: flush_holds)
  with 3 show ?case by simp
qed auto

lemma incremental_equals_dump:
  "holds F [] w \<Longrightarrow> timely F ops \<Longrightarrow> \<forall>(t, e) \<in> set (events ops). ok e \<Longrightarrow>
     complete (events ops) (lines_of (finish (run_report put flush ops w)))"
  using run_report_holds [of F "[]" w ops] finish_complete by fastforce

end

section \<open>The request report\<close>

record request_writer =
  rr_counts :: "((string \<times> string) \<times> int) list"
  rr_flushed :: "(string \<times> string) set"
  rr_file :: csv

definition rr_reset :: "request_writer \<Rightarrow> request_writer" where
  "rr_reset w = \<lparr>rr_counts = [], rr_flushed = {}, rr_file = [[''second'', ''url'', ''count'']]\<rparr>"

definition rr_record :: "string \<Rightarrow> string \<Rightarrow> request_writer \<Rightarrow> request_writer" where
  "rr_record second_bucket url w = w\<lparr>rr_counts := bump (second_bucket, url) 1 (rr_counts w)\<rparr>"

definition rr_line :: "(string \<times> string) \<times> int \<Rightarrow> string list" where
  "rr_line = (\<lambda>((second_bucket, url), count). [second_bucket, url, int_str count])"

definition rr_flush_closed :: "bool \<Rightarrow> int \<Rightarrow> request_writer \<Rightarrow> request_writer" where
  "rr_flush_closed final now w =
     (let current_second = isoformat_utc now;
          rows = filter (\<lambda>(key, count). key \<notin> rr_flushed w \<and> (final \<or> fst key < current_second)) (sort (rr_counts w))
      in if rows = [] then w
         else w\<lparr>rr_flushed := rr_flushed w \<union> fst ` set rows, rr_file := rr_file w @ map rr_line rows\<rparr>)"

text \<open>What the report should hold: the number of requests per second and URL, sorted.\<close>

definition tally :: "(int \<times> string) list \<Rightarrow> ((string \<times> string) \<times> int) list" where
  "tally evs = foldl (\<lambda>d (t, url). bump (isoformat_utc t, url) 1 d) [] evs"

lemma tally_snoc [simp]: "tally (evs @ [(t, url)]) = bump (isoformat_utc t, url) 1 (tally evs)"
  by (simp add: tally_def)

lemma tally_distinct [simp]: "distinct (map fst (tally evs))"
  by (induction evs rule: rev_induct) (auto simp: tally_def)

definition rr_holds :: "int \<Rightarrow> (int \<times> string) list \<Rightarrow> request_writer \<Rightarrow> bool" where
  "rr_holds F evs w \<longleftrightarrow> in_range (F * us_per_s) \<and> rr_counts w = tally evs
     \<and> (\<exists>B \<le> isoformat_utc (F * us_per_s).
          (\<forall>k \<in> fst ` set (tally evs). k \<in> rr_flushed w \<longleftrightarrow> fst k < B) \<and> (\<forall>k \<in> rr_flushed w. fst k < B)
          \<and> rr_file w = [''second'', ''url'', ''count''] # map rr_line (filter (\<lambda>(k, c). fst k < B) (sort (tally evs))))"

definition rr_complete :: "(int \<times> string) list \<Rightarrow> csv \<Rightarrow> bool" where
  "rr_complete evs file \<longleftrightarrow> file = [''second'', ''url'', ''count''] # map rr_line (sort (tally evs))"

lemma sorted_split:
  fixes xs :: "((string \<times> string) \<times> int) list"
  assumes "sorted xs"
  shows "filter (\<lambda>(k, c). fst k < B) xs @ filter (\<lambda>(k, c). \<not> fst k < B) xs = xs"
  using assms
proof (induction xs)
  case Nil
  then show ?case by simp
next
  case (Cons x xs)
  obtain s u c where x: "x = ((s, u), c)" by (metis prod.exhaust)
  show ?case
  proof (cases "s < B")
    case True
    with Cons show ?thesis by (simp add: x)
  next
    case False
    have "\<not> fst k < B" if "(k, d) \<in> set xs" for k d
    proof -
      have "x \<le> (k, d)" using Cons.prems that by auto
      then have "s \<le> fst k" by (cases k) (auto simp: x less_eq_prod_def less_prod_def)
      with False show ?thesis by auto
    qed
    then have "filter (\<lambda>(k, c). fst k < B) xs = []" by (auto simp: filter_empty_conv)
    with Cons False show ?thesis by (simp add: x)
  qed
qed

lemma sorted_split_upto:
  fixes xs :: "((string \<times> string) \<times> int) list"
  assumes "sorted xs" "B \<le> C"
  shows "filter (\<lambda>(k, c). fst k < B) xs @ filter (\<lambda>(k, c). \<not> fst k < B \<and> fst k < C) xs = filter (\<lambda>(k, c). fst k < C) xs"
proof -
  have "filter (\<lambda>(k, c). fst k < C) xs =
      filter (\<lambda>(k, c). fst k < C) (filter (\<lambda>(k, c). fst k < B) xs @ filter (\<lambda>(k, c). \<not> fst k < B) xs)"
    by (simp only: sorted_split [OF assms(1)])
  also have "\<dots> = filter (\<lambda>(k, c). fst k < B) xs @ filter (\<lambda>(k, c). \<not> fst k < B \<and> fst k < C) xs"
    using assms(2) by (auto intro!: arg_cong2 [where f = append] filter_cong)
  finally show ?thesis ..
qed

lemma filter_bump: "\<not> P k \<Longrightarrow> filter (\<lambda>(k, c). P k) (bump k n d) = filter (\<lambda>(k, c). P k) d"
proof -
  assume "\<not> P k"
  then have "filter (\<lambda>(k, c). P k) (AList.update k v d) = filter (\<lambda>(k, c). P k) d" for v
    by (induction d) auto
  then show ?thesis by (simp add: bump_def)
qed

lemma rr_put_holds:
  assumes "rr_holds F evs w" "in_range t" "F \<le> sec t"
  shows "rr_holds F (evs @ [(t, url)]) (rr_record (isoformat_utc t) url w)"
proof -
  obtain B where B: "B \<le> isoformat_utc (F * us_per_s)"
    "\<forall>k \<in> fst ` set (tally evs). k \<in> rr_flushed w \<longleftrightarrow> fst k < B" "\<forall>k \<in> rr_flushed w. fst k < B"
    "rr_file w = [''second'', ''url'', ''count''] # map rr_line (filter (\<lambda>(k, c). fst k < B) (sort (tally evs)))"
    and F: "in_range (F * us_per_s)" and c: "rr_counts w = tally evs"
    using assms(1) by (auto simp: rr_holds_def)
  have "\<not> isoformat_utc t < isoformat_utc (F * us_per_s)"
    using isoformat_utc_less [OF assms(2) F] assms(3) sec_mult [of F] by (simp add: sec_def)
  with B(1) have late: "\<not> isoformat_utc t < B" by auto
  have "filter (\<lambda>(k, c). fst k < B) (sort (tally (evs @ [(t, url)]))) = filter (\<lambda>(k, c). fst k < B) (sort (tally evs))"
    using filter_bump [of "\<lambda>k. fst k < B" "(isoformat_utc t, url)" 1 "tally evs"] late by (simp add: filter_sort)
  then show ?thesis
    using B F c late unfolding rr_holds_def
    by (intro conjI exI [of _ B]) (auto simp: rr_record_def keys_bump)
qed

lemma rr_flush_holds:
  assumes "rr_holds F evs w" "in_range now"
  shows "rr_holds (max F (sec now)) evs (rr_flush_closed False now w)"
proof -
  obtain B where B: "B \<le> isoformat_utc (F * us_per_s)"
    "\<forall>k \<in> fst ` set (tally evs). k \<in> rr_flushed w \<longleftrightarrow> fst k < B" "\<forall>k \<in> rr_flushed w. fst k < B"
    "rr_file w = [''second'', ''url'', ''count''] # map rr_line (filter (\<lambda>(k, c). fst k < B) (sort (tally evs)))"
    and F: "in_range (F * us_per_s)" and c: "rr_counts w = tally evs"
    using assms(1) by (auto simp: rr_holds_def)
  let ?C = "isoformat_utc now" and ?F = "max F (sec now)" and ?xs = "sort (tally evs)"
  have now: "in_range (sec now * us_per_s)" using assms(2) by (simp flip: whole_second_sec)
  then have F': "in_range (?F * us_per_s)" using F by (simp add: max_def)
  have up: "isoformat_utc (j * us_per_s) \<le> isoformat_utc (?F * us_per_s)" if "in_range (j * us_per_s)" "j \<le> ?F" for j
    using bucket_sec_less [OF F' that(1)] that(2) by (simp add: not_less [symmetric] del: not_less)
  have C: "?C \<le> isoformat_utc (?F * us_per_s)" using up [OF now] by (simp add: bucket_of_sec)
  have B': "B \<le> isoformat_utc (?F * us_per_s)" using up [OF F] B(1) by (meson max.cobounded1 order_trans)
  define rows where "rows = filter (\<lambda>(k, c). k \<notin> rr_flushed w \<and> fst k < ?C) ?xs"
  have flush: "rr_flush_closed False now w = (if rows = [] then w
      else w\<lparr>rr_flushed := rr_flushed w \<union> fst ` set rows, rr_file := rr_file w @ map rr_line rows\<rparr>)"
    by (simp add: rr_flush_closed_def c rows_def Let_def)
  have rows: "rows = filter (\<lambda>(k, c). \<not> fst k < B \<and> fst k < ?C) ?xs"
    unfolding rows_def using B(2) by (intro filter_cong) force+
  show ?thesis
  proof (cases "rows = []")
    case True
    then show ?thesis using B B' F' c by (auto simp: flush rr_holds_def)
  next
    case False
    then obtain k n where "(k, n) \<in> set ?xs" "\<not> fst k < B" "fst k < ?C"
      unfolding rows by (auto simp: filter_empty_conv)
    then have "B \<le> ?C" by auto
    then have lines: "filter (\<lambda>(k, c). fst k < B) ?xs @ rows = filter (\<lambda>(k, c). fst k < ?C) ?xs"
      unfolding rows by (intro sorted_split_upto) simp_all
    have keys: "k \<in> rr_flushed w \<union> fst ` set rows \<longleftrightarrow> fst k < ?C" if "k \<in> fst ` set (tally evs)" for k
    proof -
      have "k \<in> fst ` set rows \<longleftrightarrow> \<not> fst k < B \<and> fst k < ?C" using that unfolding rows by force
      then show ?thesis using B(2) that \<open>B \<le> ?C\<close> by auto
    qed
    have upper: "fst k < ?C" if "k \<in> rr_flushed w \<union> fst ` set rows" for k
      using that B(3) \<open>B \<le> ?C\<close> unfolding rows by force
    show ?thesis
      using False C F' c keys upper lines B(4) unfolding rr_holds_def flush
      by (intro conjI exI [of _ ?C]) (simp_all flip: map_append)
  qed
qed

lemma rr_finish_complete:
  assumes "rr_holds F evs w"
  shows "rr_complete evs (rr_file (rr_flush_closed True now w))"
proof -
  obtain B where B: "\<forall>k \<in> fst ` set (tally evs). k \<in> rr_flushed w \<longleftrightarrow> fst k < B"
    "rr_file w = [''second'', ''url'', ''count''] # map rr_line (filter (\<lambda>(k, c). fst k < B) (sort (tally evs)))"
    and c: "rr_counts w = tally evs"
    using assms by (auto simp: rr_holds_def)
  have "filter (\<lambda>(k, c). k \<notin> rr_flushed w) (sort (tally evs)) = filter (\<lambda>(k, c). \<not> fst k < B) (sort (tally evs))"
    using B(1) by (intro filter_cong) force+
  then have "rr_file (rr_flush_closed True now w) = [''second'', ''url'', ''count''] #
      map rr_line (filter (\<lambda>(k, c). fst k < B) (sort (tally evs)) @ filter (\<lambda>(k, c). \<not> fst k < B) (sort (tally evs)))"
    by (simp add: rr_flush_closed_def c B(2) Let_def)
  also have "\<dots> = [''second'', ''url'', ''count''] # map rr_line (sort (tally evs))"
    by (simp only: sorted_split [OF sorted_sort])
  finally show ?thesis by (simp add: rr_complete_def)
qed

interpretation request_report: report_writer
  "\<lambda>t url. rr_record (isoformat_utc t) url" "rr_flush_closed False" "rr_flush_closed True now" rr_file
  rr_holds rr_complete "\<lambda>url. True" for now
  by unfold_locales (auto intro: rr_put_holds rr_flush_holds rr_finish_complete)

section \<open>The statistics report\<close>

definition COLUMN_NAMES :: "string list" where
  "COLUMN_NAMES = [''planned'', ''scheduled'', ''enqueued'', ''started'', ''started_immediate'',
     ''started_from_backlog'', ''completed'', ''failed'', ''timed_out'', ''dropped_capacity'',
     ''dropped_backlog_full'', ''backlog_expired'']"

type_synonym stat_row = "string \<Rightarrow> int"

record stat_writer =
  st_counts :: "(string \<times> stat_row) list"
  st_first_second :: "int option"
  st_last_flushed :: "int option"
  st_latest_seen :: "int option"
  st_file :: csv

definition st_reset :: "int \<Rightarrow> stat_writer" where
  "st_reset first_second =
     \<lparr>st_counts = [], st_first_second = Some (whole_second first_second),
      st_last_flushed = Some (whole_second first_second - us_per_s), st_latest_seen = None,
      st_file = [''second'' # COLUMN_NAMES]\<rparr>"

text \<open>\<^verbatim>\<open>self.counts[second_bucket]\<close> on the \<^verbatim>\<open>defaultdict\<close>: zeros when absent.\<close>

definition stat_row_of :: "(string \<times> stat_row) list \<Rightarrow> string \<Rightarrow> stat_row" where
  "stat_row_of d b = (case map_of d b of None \<Rightarrow> (\<lambda>_. 0) | Some r \<Rightarrow> r)"

definition stat_add :: "string \<Rightarrow> int \<Rightarrow> string \<Rightarrow> int \<Rightarrow> stat_writer \<Rightarrow> stat_writer" where
  "stat_add second_bucket bucket_time column count w =
     (let row = stat_row_of (st_counts w) second_bucket in
      w\<lparr>st_counts := AList.update second_bucket (row(column := row column + count)) (st_counts w),
        st_latest_seen := (case st_latest_seen w of None \<Rightarrow> Some bucket_time
          | Some seen \<Rightarrow> if seen < bucket_time then Some bucket_time else Some seen)\<rparr>)"

definition st_record :: "string \<Rightarrow> string \<Rightarrow> int \<Rightarrow> stat_writer \<Rightarrow> stat_writer py" where
  "st_record second_bucket column count w =
     (if column \<notin> set COLUMN_NAMES then Inl (ValueError ''Unknown statistics column'')
      else (case parse_second_bucket second_bucket of
          None \<Rightarrow> Inl (ValueError ''Invalid isoformat string'')
        | Some (wall, None) \<Rightarrow> Inl TypeError
        | Some (wall, Some offset) \<Rightarrow> Inr (stat_add second_bucket (to_utc wall offset) column count w)))"

definition stat_line :: "string \<Rightarrow> stat_row \<Rightarrow> string list" where
  "stat_line second_bucket row = second_bucket # map (\<lambda>name. int_str (row name)) COLUMN_NAMES"

text \<open>The loop over the closed seconds: each row is taken out of the counts.\<close>

fun pop_rows :: "int list \<Rightarrow> (string \<times> stat_row) list \<Rightarrow> csv \<times> (string \<times> stat_row) list" where
  "pop_rows [] d = ([], d)"
| "pop_rows (current # rest) d =
     (let b = isoformat_utc current; (rows, d') = pop_rows rest (AList.delete b d)
      in (stat_line b (stat_row_of d b) # rows, d'))"

definition st_flush_closed :: "bool \<Rightarrow> int \<Rightarrow> stat_writer \<Rightarrow> stat_writer" where
  "st_flush_closed final now w = (case (st_first_second w, st_last_flushed w) of
     (Some first, Some last_flushed) \<Rightarrow>
       (case (if final then st_latest_seen w
              else let c = whole_second now - us_per_s in if c < first then None else Some c) of
          None \<Rightarrow> w
        | Some closed_through \<Rightarrow>
            if closed_through \<le> last_flushed then w
            else let (rows, counts) =
                   pop_rows (ticks us_per_s (last_flushed + us_per_s) (closed_through + 1)) (st_counts w)
                 in w\<lparr>st_counts := counts, st_file := st_file w @ rows, st_last_flushed := Some closed_through\<rparr>)
   | _ \<Rightarrow> w)"

subsection \<open>Lemmas\<close>

lemma st_record_ok:
  assumes "column \<in> set COLUMN_NAMES" "in_range t"
  shows "st_record (isoformat_utc t) column n w = Inr (stat_add (isoformat_utc t) (whole_second t) column n w)"
  using assms by (simp add: st_record_def parse_second_bucket_isoformat_utc to_utc_def)

lemma stat_row_of_update: "stat_row_of (AList.update b r d) b' = (if b' = b then r else stat_row_of d b')"
  by (simp add: stat_row_of_def update_conv')

lemma stat_row_of_delete: "stat_row_of (AList.delete b d) b' = (if b' = b then (\<lambda>_. 0) else stat_row_of d b')"
  by (simp add: stat_row_of_def delete_conv')

lemma pop_rows_rows:
  "distinct (map isoformat_utc ts) \<Longrightarrow>
     fst (pop_rows ts d) = map (\<lambda>t. stat_line (isoformat_utc t) (stat_row_of d (isoformat_utc t))) ts"
proof (induction ts arbitrary: d)
  case (Cons t ts)
  then have "fst (pop_rows ts (AList.delete (isoformat_utc t) d)) =
      map (\<lambda>t'. stat_line (isoformat_utc t') (stat_row_of (AList.delete (isoformat_utc t) d) (isoformat_utc t'))) ts"
    by simp
  also have "\<dots> = map (\<lambda>t'. stat_line (isoformat_utc t') (stat_row_of d (isoformat_utc t'))) ts"
  proof (intro map_cong refl)
    fix t' assume "t' \<in> set ts"
    with Cons.prems have "isoformat_utc t' \<noteq> isoformat_utc t" by (simp add: image_iff) metis
    then show "stat_line (isoformat_utc t') (stat_row_of (AList.delete (isoformat_utc t) d) (isoformat_utc t'))
        = stat_line (isoformat_utc t') (stat_row_of d (isoformat_utc t'))" by (simp add: stat_row_of_delete)
  qed
  finally show ?case by (simp add: Let_def split_beta)
qed simp

lemma pop_rows_counts:
  "stat_row_of (snd (pop_rows ts d)) b = (if b \<in> isoformat_utc ` set ts then (\<lambda>_. 0) else stat_row_of d b)"
  by (induction ts arbitrary: d) (auto simp: stat_row_of_delete Let_def split_beta)

subsection \<open>What the report should hold\<close>

definition col_total :: "(int \<times> string \<times> int) list \<Rightarrow> int \<Rightarrow> string \<Rightarrow> int" where
  "col_total evs k column = sum_list (map (\<lambda>(t, c, n). if sec t = k \<and> c = column then n else 0) evs)"

definition stat_lines :: "(int \<times> string \<times> int) list \<Rightarrow> int \<Rightarrow> int \<Rightarrow> csv" where
  "stat_lines evs first l =
     (''second'' # COLUMN_NAMES) # map (\<lambda>k. stat_line (isoformat_utc (k * us_per_s)) (col_total evs k)) [first..l]"

definition st_complete :: "int \<Rightarrow> (int \<times> string \<times> int) list \<Rightarrow> csv \<Rightarrow> bool" where
  "st_complete first evs file \<longleftrightarrow> (\<exists>l. (\<forall>(t, e) \<in> set evs. first \<le> sec t \<and> sec t \<le> l) \<and> file = stat_lines evs first l)"

definition st_holds :: "int \<Rightarrow> int \<Rightarrow> (int \<times> string \<times> int) list \<Rightarrow> stat_writer \<Rightarrow> bool" where
  "st_holds first F evs w \<longleftrightarrow> in_range (first * us_per_s) \<and> first \<le> F
     \<and> st_first_second w = Some (first * us_per_s)
     \<and> (\<exists>l < F. first - 1 \<le> l \<and> st_last_flushed w = Some (l * us_per_s) \<and> st_file w = stat_lines evs first l
          \<and> (\<forall>k > l. in_range (k * us_per_s) \<longrightarrow> stat_row_of (st_counts w) (isoformat_utc (k * us_per_s)) = col_total evs k))
     \<and> (\<forall>(t, e) \<in> set evs. in_range t \<and> first \<le> sec t)
     \<and> st_latest_seen w = (if evs = [] then None else Some (Max ((\<lambda>(t, e). sec t) ` set evs) * us_per_s))"

lemma st_reset_holds:
  assumes "in_range t"
  shows "st_holds (sec t) (sec t) [] (st_reset t)"
proof -
  have "in_range (sec t * us_per_s)" using assms by (simp flip: whole_second_sec)
  moreover have "sec t * us_per_s - us_per_s = (sec t - 1) * us_per_s" by (simp add: algebra_simps)
  ultimately show ?thesis
    unfolding st_holds_def st_reset_def whole_second_sec
    by (intro conjI exI [of _ "sec t - 1"])
      (simp_all add: stat_lines_def stat_row_of_def col_total_def fun_eq_iff)
qed

lemma col_total_snoc:
  "col_total (evs @ [(t, c, n)]) k = (if sec t = k then (col_total evs k)(c := col_total evs k c + n) else col_total evs k)"
  by (auto simp: col_total_def fun_eq_iff)

lemma st_put_holds:
  assumes "st_holds first F evs w" "in_range t" "F \<le> sec t"
  shows "st_holds first F (evs @ [(t, c, n)]) (stat_add (isoformat_utc t) (whole_second t) c n w)"
proof -
  obtain l where L: "l < F" "first - 1 \<le> l" "st_last_flushed w = Some (l * us_per_s)"
    "st_file w = stat_lines evs first l"
    "\<forall>k > l. in_range (k * us_per_s) \<longrightarrow> stat_row_of (st_counts w) (isoformat_utc (k * us_per_s)) = col_total evs k"
    and w: "in_range (first * us_per_s)" "first \<le> F" "st_first_second w = Some (first * us_per_s)"
    "\<forall>(t, e) \<in> set evs. in_range t \<and> first \<le> sec t"
    "st_latest_seen w = (if evs = [] then None else Some (Max ((\<lambda>(t, e). sec t) ` set evs) * us_per_s))"
    using assms(1) unfolding st_holds_def by blast
  let ?evs = "evs @ [(t, c, n)]" and ?w = "stat_add (isoformat_utc t) (whole_second t) c n w"
  have late: "l < sec t" using L(1) assms(3) by simp
  have t: "in_range (sec t * us_per_s)" using assms(2) by (simp flip: whole_second_sec)
  have lines: "stat_lines ?evs first l = stat_lines evs first l"
    using late by (auto simp: stat_lines_def col_total_snoc)
  have counts: "stat_row_of (st_counts ?w) (isoformat_utc (k * us_per_s)) = col_total ?evs k"
    if "l < k" "in_range (k * us_per_s)" for k
  proof -
    have "isoformat_utc (k * us_per_s) = isoformat_utc t \<longleftrightarrow> k = sec t"
      using bucket_sec_inj [OF that(2) t] by (simp add: bucket_of_sec)
    moreover have "stat_row_of (st_counts w) (isoformat_utc t) = col_total evs (sec t)"
      using L(5) late t by (metis bucket_of_sec)
    ultimately show ?thesis
      using L(5) that by (auto simp: stat_add_def Let_def stat_row_of_update col_total_snoc)
  qed
  have us: "a * us_per_s < b * us_per_s \<longleftrightarrow> a < b" for a b by (simp add: us_per_s_def)
  have seen: "st_latest_seen ?w = Some (Max ((\<lambda>(t, e). sec t) ` set ?evs) * us_per_s)"
  proof (cases "evs = []")
    case True
    then show ?thesis using w(5) by (simp add: stat_add_def Let_def whole_second_sec)
  next
    case False
    define M where "M = Max ((\<lambda>(t, e). sec t) ` set evs)"
    have "Max ((\<lambda>(t, e). sec t) ` set ?evs) = max (sec t) M"
      unfolding M_def using False by (simp add: Max_insert)
    then show ?thesis using w(5) False
      unfolding M_def [symmetric] by (simp add: stat_add_def Let_def whole_second_sec us max_def)
  qed
  show ?thesis
    unfolding st_holds_def using L w late assms lines counts seen
    by (intro conjI exI [of _ l]) (auto simp: stat_add_def Let_def)
qed

text \<open>Closing the seconds after \<open>l\<close> up to \<open>m\<close>.\<close>

lemma st_pop:
  assumes "in_range (first * us_per_s)" "in_range (m * us_per_s)" "first - 1 \<le> l" "l < m"
    and rows: "\<forall>k > l. in_range (k * us_per_s) \<longrightarrow> stat_row_of d (isoformat_utc (k * us_per_s)) = col_total evs k"
  shows "stat_lines evs first l @ fst (pop_rows (ticks us_per_s (l * us_per_s + us_per_s) (m * us_per_s + 1)) d)
       = stat_lines evs first m"
    and "\<forall>k > m. in_range (k * us_per_s) \<longrightarrow>
       stat_row_of (snd (pop_rows (ticks us_per_s (l * us_per_s + us_per_s) (m * us_per_s + 1)) d)) (isoformat_utc (k * us_per_s))
         = col_total evs k"
proof -
  let ?ts = "ticks us_per_s (l * us_per_s + us_per_s) (m * us_per_s + 1)"
  have ts: "?ts = map (\<lambda>k. k * us_per_s) [l + 1..m]"
    using ticks_seconds [of "l + 1" m] by (simp add: algebra_simps)
  have range: "in_range (k * us_per_s)" if "l < k" "k \<le> m" for k
    using in_range_between [OF assms(1,2), of k] assms(3) that by simp
  have "inj_on (\<lambda>k. isoformat_utc (k * us_per_s)) {l + 1..m}"
    using bucket_sec_inj range by (intro inj_onI) auto
  then have "distinct (map isoformat_utc ?ts)" by (simp add: ts distinct_map comp_def)
  then have "fst (pop_rows ?ts d) = map (\<lambda>t. stat_line (isoformat_utc t) (stat_row_of d (isoformat_utc t))) ?ts"
    by (rule pop_rows_rows)
  also have "\<dots> = map (\<lambda>k. stat_line (isoformat_utc (k * us_per_s)) (col_total evs k)) [l + 1..m]"
    unfolding ts map_map comp_def using rows range by (intro map_cong) auto
  finally show "stat_lines evs first l @ fst (pop_rows ?ts d) = stat_lines evs first m"
    using upto_split1 [of first "l + 1" m] assms(3,4) by (simp add: stat_lines_def)
  show "\<forall>k > m. in_range (k * us_per_s) \<longrightarrow>
      stat_row_of (snd (pop_rows ?ts d)) (isoformat_utc (k * us_per_s)) = col_total evs k"
  proof (intro allI impI)
    fix k assume k: "m < k" "in_range (k * us_per_s)"
    have "isoformat_utc (k * us_per_s) \<noteq> isoformat_utc (j * us_per_s)" if "l < j" "j \<le> m" for j
      using bucket_sec_inj [OF k(2) range [OF that]] that k(1) by simp
    then have "isoformat_utc (k * us_per_s) \<notin> isoformat_utc ` set ?ts" by (force simp: ts)
    then show "stat_row_of (snd (pop_rows ?ts d)) (isoformat_utc (k * us_per_s)) = col_total evs k"
      using rows k assms(4) by (simp add: pop_rows_counts)
  qed
qed

lemma st_flush_holds:
  assumes "st_holds first F evs w" "in_range now"
  shows "st_holds first (max F (sec now)) evs (st_flush_closed False now w)"
proof -
  obtain l where L: "l < F" "first - 1 \<le> l" "st_last_flushed w = Some (l * us_per_s)"
    "st_file w = stat_lines evs first l"
    "\<forall>k > l. in_range (k * us_per_s) \<longrightarrow> stat_row_of (st_counts w) (isoformat_utc (k * us_per_s)) = col_total evs k"
    and w: "in_range (first * us_per_s)" "first \<le> F" "st_first_second w = Some (first * us_per_s)"
    "\<forall>(t, e) \<in> set evs. in_range t \<and> first \<le> sec t"
    "st_latest_seen w = (if evs = [] then None else Some (Max ((\<lambda>(t, e). sec t) ` set evs) * us_per_s))"
    using assms(1) unfolding st_holds_def by blast
  let ?m = "sec now - 1"
  have c: "whole_second now - us_per_s = ?m * us_per_s" by (simp add: whole_second_sec algebra_simps)
  have cmp: "a * us_per_s < b * us_per_s \<longleftrightarrow> a < b" "a * us_per_s \<le> b * us_per_s \<longleftrightarrow> a \<le> b" for a b
    by (simp_all add: us_per_s_def)
  show ?thesis
  proof (cases "first \<le> ?m \<and> l < ?m")
    case False
    then have "st_flush_closed False now w = w"
      using L(3) w(3) by (auto simp: st_flush_closed_def Let_def c cmp)
    moreover have "l < max F (sec now)" "first \<le> max F (sec now)" using L(1) w(2) by simp_all
    ultimately show ?thesis unfolding st_holds_def using L w by (intro conjI exI [of _ l]) auto
  next
    case True
    let ?p = "pop_rows (ticks us_per_s (l * us_per_s + us_per_s) (?m * us_per_s + 1)) (st_counts w)"
    have "in_range (sec now * us_per_s)" using assms(2) by (simp flip: whole_second_sec)
    then have m: "in_range (?m * us_per_s)" using in_range_between [OF w(1), of "sec now" ?m] True by simp
    have "st_flush_closed False now w = w\<lparr>st_counts := snd ?p, st_file := st_file w @ fst ?p,
        st_last_flushed := Some (?m * us_per_s)\<rparr>"
      using True L(3) w(3) by (simp add: st_flush_closed_def Let_def c cmp split_beta)
    moreover have "?m < max F (sec now)" "first \<le> max F (sec now)" using w(2) by simp_all
    ultimately show ?thesis
      unfolding st_holds_def using L w True st_pop [OF w(1) m L(2) conjunct2 [OF True] L(5)]
      by (intro conjI exI [of _ ?m]) auto
  qed
qed

lemma st_finish_complete:
  assumes "st_holds first F evs w"
  shows "st_complete first evs (st_file (st_flush_closed True now w))"
proof -
  obtain l where L: "l < F" "first - 1 \<le> l" "st_last_flushed w = Some (l * us_per_s)"
    "st_file w = stat_lines evs first l"
    "\<forall>k > l. in_range (k * us_per_s) \<longrightarrow> stat_row_of (st_counts w) (isoformat_utc (k * us_per_s)) = col_total evs k"
    and w: "in_range (first * us_per_s)" "first \<le> F" "st_first_second w = Some (first * us_per_s)"
    "\<forall>(t, e) \<in> set evs. in_range t \<and> first \<le> sec t"
    "st_latest_seen w = (if evs = [] then None else Some (Max ((\<lambda>(t, e). sec t) ` set evs) * us_per_s))"
    using assms(1) unfolding st_holds_def by blast
  define M where "M = Max ((\<lambda>(t, e). sec t) ` set evs)"
  have cmp: "a * us_per_s \<le> b * us_per_s \<longleftrightarrow> a \<le> b" for a b by (simp add: us_per_s_def)
  have upper: "sec t \<le> M" if "(t, e) \<in> set evs" for t e
    unfolding M_def using that by (intro Max_ge) force+
  have seen: "evs \<noteq> [] \<Longrightarrow> st_latest_seen w = Some (M * us_per_s)" by (simp add: w(5) M_def)
  consider "evs = []" | "evs \<noteq> []" "M \<le> l" | "evs \<noteq> []" "l < M" by linarith
  then show ?thesis
  proof cases
    case 1
    then have "st_flush_closed True now w = w" using L(3) w(3,5) by (simp add: st_flush_closed_def)
    with 1 L(4) show ?thesis unfolding st_complete_def by auto
  next
    case 2
    then have "st_flush_closed True now w = w" using L(3) w(3) by (simp add: st_flush_closed_def seen cmp)
    moreover have "\<forall>(t, e) \<in> set evs. first \<le> sec t \<and> sec t \<le> l"
      using 2 upper w(4) by fastforce
    ultimately show ?thesis using L(4) unfolding st_complete_def by auto
  next
    case 3
    let ?p = "pop_rows (ticks us_per_s (l * us_per_s + us_per_s) (M * us_per_s + 1)) (st_counts w)"
    have "M \<in> (\<lambda>(t, e). sec t) ` set evs" unfolding M_def using 3(1) by (intro Max_in) auto
    then obtain t e where "(t, e) \<in> set evs" "M = sec t" by auto
    then have m: "in_range (M * us_per_s)" using w(4) by (auto simp flip: whole_second_sec)
    have "st_file (st_flush_closed True now w) = st_file w @ fst ?p"
      using 3 L(3) w(3) by (simp add: st_flush_closed_def seen cmp split_beta Let_def)
    then have "st_file (st_flush_closed True now w) = stat_lines evs first M"
      using st_pop(1) [OF w(1) m L(2) 3(2) L(5)] L(4) by simp
    moreover have "\<forall>(t, e) \<in> set evs. first \<le> sec t \<and> sec t \<le> M" using upper w(4) by auto
    ultimately show ?thesis unfolding st_complete_def by blast
  qed
qed

interpretation statistics_report: report_writer
  "\<lambda>t (column, count). stat_add (isoformat_utc t) (whole_second t) column count"
  "st_flush_closed False" "st_flush_closed True now" st_file "st_holds first" "st_complete first" "\<lambda>e. True"
  for now first
  by unfold_locales (auto intro: st_put_holds st_flush_holds st_finish_complete)

text \<open>
  A record in a second that is already closed changes neither the file now nor what any later
  flush appends: it stays in the counts for good.
\<close>

lemma st_closed_second_lost:
  assumes "st_holds first F evs w" "in_range t" "st_last_flushed w = Some (l * us_per_s)" "sec t \<le> l" "in_range now"
  shows "st_file (st_flush_closed final now (stat_add (isoformat_utc t) (whole_second t) c n w))
       = st_file (st_flush_closed final now w)"
proof -
  let ?w = "stat_add (isoformat_utc t) (whole_second t) c n w" and ?b = "isoformat_utc t"
  have w: "in_range (first * us_per_s)" "first - 1 \<le> l" "st_first_second w = Some (first * us_per_s)"
    "\<forall>(t, e) \<in> set evs. in_range t \<and> first \<le> sec t"
    "st_latest_seen w = (if evs = [] then None else Some (Max ((\<lambda>(t, e). sec t) ` set evs) * us_per_s))"
    using assms(1,3) unfolding st_holds_def by (auto simp: us_per_s_def)
  have cmp: "a * us_per_s < b * us_per_s \<longleftrightarrow> a < b" "a * us_per_s \<le> b * us_per_s \<longleftrightarrow> a \<le> b" for a b
    by (simp_all add: us_per_s_def)
  have same: "st_first_second ?w = st_first_second w" "st_last_flushed ?w = st_last_flushed w" "st_file ?w = st_file w"
    by (simp_all add: stat_add_def Let_def)
  have t: "in_range (sec t * us_per_s)" using assms(2) by (simp flip: whole_second_sec)
  have rows: "fst (pop_rows (ticks us_per_s (l * us_per_s + us_per_s) (m * us_per_s + 1)) (st_counts ?w))
      = fst (pop_rows (ticks us_per_s (l * us_per_s + us_per_s) (m * us_per_s + 1)) (st_counts w))"
    if m: "in_range (m * us_per_s)" "l < m" for m
  proof -
    have ts: "ticks us_per_s (l * us_per_s + us_per_s) (m * us_per_s + 1) = map (\<lambda>k. k * us_per_s) [l + 1..m]"
      using ticks_seconds [of "l + 1" m] by (simp add: algebra_simps)
    have range: "in_range (k * us_per_s)" if "l < k" "k \<le> m" for k
      using in_range_between [OF w(1) m(1), of k] w(2) that by simp
    have "inj_on (\<lambda>k. isoformat_utc (k * us_per_s)) {l + 1..m}"
      using bucket_sec_inj range by (intro inj_onI) auto
    then have d: "distinct (map isoformat_utc (map (\<lambda>k. k * us_per_s) [l + 1..m]))" by (simp add: distinct_map comp_def)
    have "stat_row_of (st_counts ?w) (isoformat_utc (k * us_per_s)) = stat_row_of (st_counts w) (isoformat_utc (k * us_per_s))"
      if "l < k" "k \<le> m" for k
    proof -
      have "isoformat_utc (k * us_per_s) \<noteq> ?b"
        using bucket_sec_inj [OF range [OF that] t] that(1) assms(4) by (simp add: bucket_of_sec)
      then show ?thesis by (simp add: stat_add_def Let_def stat_row_of_update)
    qed
    then show ?thesis unfolding ts pop_rows_rows [OF d] by auto
  qed
  show ?thesis
  proof (cases final)
    case False
    let ?m = "sec now - 1"
    have c: "whole_second now - us_per_s = ?m * us_per_s" by (simp add: whole_second_sec algebra_simps)
    show ?thesis
    proof (cases "first \<le> ?m \<and> l < ?m")
      case True
      have "in_range (sec now * us_per_s)" using assms(5) by (simp flip: whole_second_sec)
      then have "in_range (?m * us_per_s)" using in_range_between [OF w(1), of "sec now" ?m] True by simp
      then show ?thesis using True rows [of ?m] assms(3) w(3) False same
        by (simp add: st_flush_closed_def Let_def c cmp split_beta)
    qed (use False assms(3) w(3) same in \<open>auto simp: st_flush_closed_def Let_def c cmp\<close>)
  next
    case True
    define M where "M = Max ((\<lambda>(t, e). sec t) ` set evs)"
    have seen: "st_latest_seen w = (if evs = [] then None else Some (M * us_per_s))" using w(5) by (simp add: M_def)
    have seen': "st_latest_seen ?w = Some ((if evs = [] then sec t else max (sec t) M) * us_per_s)"
      using seen by (simp add: stat_add_def Let_def whole_second_sec cmp max_def)
    show ?thesis
    proof (cases "evs \<noteq> [] \<and> l < M")
      case False
      then show ?thesis using assms(3,4) w(3) same seen seen' True
        by (auto simp: st_flush_closed_def cmp max_def)
    next
      case later: True
      have "M \<in> (\<lambda>(t, e). sec t) ` set evs" unfolding M_def using later by (intro Max_in) auto
      then obtain u e where "(u, e) \<in> set evs" "M = sec u" by auto
      then have "in_range (M * us_per_s)" using w(4) by (auto simp flip: whole_second_sec)
      moreover have "max (sec t) M = M" using later assms(4) by simp
      ultimately show ?thesis using later rows [of M] assms(3) w(3) same seen seen' True
        by (simp add: st_flush_closed_def Let_def cmp split_beta)
    qed
  qed
qed

section \<open>The incident report\<close>

type_synonym incident = "string \<times> string \<times> string \<times> string \<times> string"

record incident_writer =
  ir_rows :: "incident list"
  ir_flushed_count :: nat
  ir_file :: csv

definition incident_header :: "string list" where
  "incident_header = [''timestamp'', ''second'', ''url'', ''incident_type'', ''message'']"

definition incident_line :: "incident \<Rightarrow> string list" where
  "incident_line = (\<lambda>(timestamp, second, url, incident_type, message). [timestamp, second, url, incident_type, message])"

definition ir_reset :: "incident_writer \<Rightarrow> incident_writer" where
  "ir_reset w = \<lparr>ir_rows = [], ir_flushed_count = 0, ir_file = [incident_header]\<rparr>"

definition ir_record :: "incident \<Rightarrow> incident_writer \<Rightarrow> incident_writer" where
  "ir_record row w = w\<lparr>ir_rows := ir_rows w @ [row]\<rparr>"

definition ir_flush :: "incident_writer \<Rightarrow> incident_writer" where
  "ir_flush w =
     (if length (ir_rows w) \<le> ir_flushed_count w then w
      else w\<lparr>ir_file := ir_file w @ map incident_line (drop (ir_flushed_count w) (ir_rows w)),
             ir_flushed_count := length (ir_rows w)\<rparr>)"

definition ir_holds :: "int \<Rightarrow> (int \<times> incident) list \<Rightarrow> incident_writer \<Rightarrow> bool" where
  "ir_holds F evs w \<longleftrightarrow> ir_rows w = map snd evs \<and> ir_flushed_count w \<le> length evs
     \<and> ir_file w = incident_header # map incident_line (take (ir_flushed_count w) (ir_rows w))"

definition ir_complete :: "(int \<times> incident) list \<Rightarrow> csv \<Rightarrow> bool" where
  "ir_complete evs file \<longleftrightarrow> file = incident_header # map (incident_line \<circ> snd) evs"

lemma ir_flush_file:
  "ir_holds F evs w \<Longrightarrow> ir_file (ir_flush w) = incident_header # map incident_line (map snd evs)"
  by (auto simp: ir_holds_def ir_flush_def simp flip: map_append)

interpretation incident_report: report_writer
  "\<lambda>t. ir_record" "\<lambda>now. ir_flush" ir_flush ir_file ir_holds ir_complete "\<lambda>e. True"
proof unfold_locales
  show "ir_holds F (evs @ [(t, e)]) (ir_record e w)" if "ir_holds F evs w" for F evs w t e
    using that by (simp add: ir_holds_def ir_record_def)
  show "ir_holds (max F (sec now)) evs (ir_flush w)" if "ir_holds F evs w" for F evs w now
    using that ir_flush_file [OF that] by (auto simp: ir_holds_def ir_flush_def)
  show "ir_complete evs (ir_file (ir_flush w))" if "ir_holds F evs w" for F evs w
    using ir_flush_file [OF that] by (simp add: ir_complete_def)
qed

section \<open>Column totals\<close>

text \<open>What a statistics writer holds of a column: the lines of its file and its pending rows.\<close>

definition cell :: "string list \<Rightarrow> string \<Rightarrow> int" where
  "cell line column = (case map_of (zip COLUMN_NAMES (tl line)) column of
     None \<Rightarrow> 0 | Some v \<Rightarrow> (case py_int v of None \<Rightarrow> 0 | Some n \<Rightarrow> n))"

definition stat_total :: "stat_writer \<Rightarrow> string \<Rightarrow> int" where
  "stat_total w column = sum_list (map (\<lambda>line. cell line column) (tl (st_file w)))
     + sum_list (map (\<lambda>p. snd p column) (st_counts w))"

definition st_wf :: "stat_writer \<Rightarrow> bool" where
  "st_wf w \<longleftrightarrow> distinct (map fst (st_counts w)) \<and> st_file w \<noteq> []"

lemma distinct_columns: "distinct COLUMN_NAMES"
  by (simp add: COLUMN_NAMES_def)

lemma cell_stat_line: "column \<in> set COLUMN_NAMES \<Longrightarrow> cell (stat_line b row) column = row column"
proof -
  assume c: "column \<in> set COLUMN_NAMES"
  have "map_of (zip xs (map f xs)) column = Some (f column)" if "column \<in> set xs" for xs and f :: "string \<Rightarrow> string"
    using that by (induction xs) auto
  from this [OF c, of "\<lambda>name. int_str (row name)"] show ?thesis by (simp add: cell_def stat_line_def)
qed

lemma sum_rows_update:
  "sum_list (map (\<lambda>p. snd p c) (AList.update b r d)) = sum_list (map (\<lambda>p. snd p c) d) + (r c - stat_row_of d b c)"
  for d :: "(string \<times> stat_row) list"
  by (induction d) (auto simp: stat_row_of_def)

lemma sum_rows_delete:
  "distinct (map fst d) \<Longrightarrow>
     sum_list (map (\<lambda>p. snd p c) (AList.delete b d)) = sum_list (map (\<lambda>p. snd p c) d) - stat_row_of d b c"
  for d :: "(string \<times> stat_row) list"
proof (induction d)
  case (Cons p d)
  obtain k r where p: "p = (k, r)" by (cases p)
  show ?case
  proof (cases "k = b")
    case True
    with Cons.prems have "b \<notin> fst ` set d" by (simp add: p)
    then have "AList.delete b d = d" by (rule delete_id)
    with True show ?thesis by (simp add: p stat_row_of_def)
  next
    case False
    with Cons show ?thesis by (simp add: p stat_row_of_def)
  qed
qed (simp add: stat_row_of_def)

lemma stat_total_add [simp]:
  "stat_total (stat_add b t c' n w) c = stat_total w c + (if c = c' then n else 0)"
  by (simp add: stat_total_def stat_add_def Let_def sum_rows_update)

lemma st_wf_add [simp]: "st_wf w \<Longrightarrow> st_wf (stat_add b t c n w)"
  by (simp add: st_wf_def stat_add_def Let_def distinct_update)

lemma pop_rows_total:
  "distinct (map fst d) \<Longrightarrow> c \<in> set COLUMN_NAMES \<Longrightarrow>
     sum_list (map (\<lambda>line. cell line c) (fst (pop_rows ts d))) + sum_list (map (\<lambda>p. snd p c) (snd (pop_rows ts d)))
       = sum_list (map (\<lambda>p. snd p c) d) \<and> distinct (map fst (snd (pop_rows ts d)))"
proof (induction ts arbitrary: d)
  case (Cons t ts)
  let ?b = "isoformat_utc t"
  have "distinct (map fst (AList.delete ?b d))" using Cons.prems(1) by (rule distinct_delete)
  from Cons.IH [OF this Cons.prems(2)] show ?case
    using sum_rows_delete [OF Cons.prems(1), of c ?b] Cons.prems(2)
    by (simp add: Let_def split_beta cell_stat_line)
qed simp

lemma st_flush_total:
  assumes "st_wf w"
  shows "c \<in> set COLUMN_NAMES \<Longrightarrow> stat_total (st_flush_closed final now w) c = stat_total w c"
    and "st_wf (st_flush_closed final now w)"
proof -
  have d: "distinct (map fst (st_counts w))" and f: "st_file w \<noteq> []" using assms by (simp_all add: st_wf_def)
  obtain ts where ts: "st_flush_closed final now w = w \<or>
      (\<exists>l. st_flush_closed final now w = w\<lparr>st_counts := snd (pop_rows ts (st_counts w)),
         st_file := st_file w @ fst (pop_rows ts (st_counts w)), st_last_flushed := l\<rparr>)"
  proof -
    show thesis
    proof (cases "st_flush_closed final now w = w")
      case False
      then obtain first l m where seen: "st_first_second w = Some first" "st_last_flushed w = Some l"
        "(if final then st_latest_seen w
              else let c = whole_second now - us_per_s in if c < first then None else Some c) = Some m"
        by (auto simp: st_flush_closed_def split: option.splits)
      with False have "\<not> m \<le> l" by (auto simp: st_flush_closed_def)
      with seen show thesis
        by (intro that [of "ticks us_per_s (l + us_per_s) (m + 1)"] disjI2 exI [of _ "Some m"])
          (simp add: st_flush_closed_def split_beta)
    qed (use that in blast)
  qed
  have split: "tl (st_file w @ xs) = tl (st_file w) @ xs" for xs using f by simp
  show "stat_total (st_flush_closed final now w) c = stat_total w c" if "c \<in> set COLUMN_NAMES"
    using ts pop_rows_total [OF d that, of ts] by (auto simp: stat_total_def split)
  show "st_wf (st_flush_closed final now w)"
    using ts pop_rows_total [OF d, of "''planned''" ts] f by (auto simp: st_wf_def COLUMN_NAMES_def assms [unfolded st_wf_def])
qed

lemma st_reset_total: "stat_total (st_reset t) c = 0" "st_wf (st_reset t)"
  by (simp_all add: stat_total_def st_reset_def st_wf_def)

section \<open>Properties\<close>

text \<open>C16: however the request report is flushed along the way, as long as no request is recorded
  in a second already flushed, the finished file is the sorted tally of all requests: every second
  and URL once, with its full count.\<close>

theorem request_report_complete:
  assumes "in_range t0" "timely (sec t0) ops"
  shows "rr_file (rr_flush_closed True now
      (run_report (\<lambda>t. rr_record (isoformat_utc t)) (rr_flush_closed False) ops (rr_reset w)))
    = [''second'', ''url'', ''count''] # map rr_line (sort (tally (events ops)))"
proof -
  have "rr_holds (sec t0) [] (rr_reset w)"
    using assms(1) unfolding rr_holds_def
    by (intro conjI exI [of _ "[]"]) (simp_all add: rr_reset_def tally_def flip: whole_second_sec)
  from request_report.incremental_equals_dump [OF this assms(2)] show ?thesis
    by (simp add: rr_complete_def)
qed

theorem request_report_complete_witness:
  "rr_file (rr_flush_closed True 0
      (run_report (\<lambda>t. rr_record (isoformat_utc t)) (rr_flush_closed False)
        [Record 5 ''/a'', Flush 1000000, Record 1000000 ''/b'', Record 1000001 ''/b''] (rr_reset \<lparr>rr_counts = [], rr_flushed = {}, rr_file = []\<rparr>)))
    = [''second'', ''url'', ''count''] #
       map rr_line (sort (tally [(5, ''/a''), (1000000, ''/b''), (1000001, ''/b'')]))"
  using request_report_complete [of 0 "[Record 5 ''/a'', Flush 1000000, Record 1000000 ''/b'', Record 1000001 ''/b'']" 0 "\<lparr>rr_counts = [], rr_flushed = {}, rr_file = []\<rparr>"]
  by (simp add: in_range_def day_number_def sec_def us_per_s_def)

text \<open>C15: however the statistics are flushed along the way, as long as nothing is recorded in a
  second already flushed, the finished statistics file has one line for every second from the start of the run to
  some second after the last record, none missing and none twice, each with the totals of what was
  recorded in it.\<close>

theorem statistics_report_complete:
  assumes "in_range t0" "timely (sec t0) ops"
  shows "\<exists>l. (\<forall>(t, e) \<in> set (events ops). sec t0 \<le> sec t \<and> sec t \<le> l)
    \<and> st_file (st_flush_closed True now
        (run_report (\<lambda>t (column, count). stat_add (isoformat_utc t) (whole_second t) column count)
          (st_flush_closed False) ops (st_reset t0)))
      = stat_lines (events ops) (sec t0) l"
  using statistics_report.incremental_equals_dump [OF st_reset_holds [OF assms(1)] assms(2), of now]
  by (auto simp: st_complete_def)

theorem statistics_report_complete_witness:
  "\<exists>l. 1 \<le> l \<and> st_file (st_flush_closed True 7
        (run_report (\<lambda>t (column, count). stat_add (isoformat_utc t) (whole_second t) column count)
          (st_flush_closed False) [Record 5 (''planned'', 2), Flush 1000000, Record 1000001 (''started'', 1)] (st_reset 3)))
      = stat_lines [(5, ''planned'', 2), (1000001, ''started'', 1)] 0 l"
  using statistics_report_complete [of 3 "[Record 5 (''planned'', 2), Flush 1000000, Record 1000001 (''started'', 1)]" 7]
  by (simp add: in_range_def day_number_def sec_def us_per_s_def) blast

text \<open>A statistic recorded in a second that is already flushed is lost: it changes neither the
  file nor what any later flush appends.\<close>

theorem statistics_late_record_lost:
  assumes "st_holds first F evs w" "in_range t" "st_last_flushed w = Some (l * us_per_s)" "sec t \<le> l" "in_range now"
  shows "st_file (st_flush_closed final now (stat_add (isoformat_utc t) (whole_second t) c n w))
       = st_file (st_flush_closed final now w)"
  using assms by (rule st_closed_second_lost)

theorem statistics_late_record_lost_witness:
  "let w = st_flush_closed False 5000000 (st_reset 0) in
     st_file (st_flush_closed True 9000000 (stat_add (isoformat_utc 1000000) (whole_second 1000000) ''planned'' 3 w))
       = st_file (st_flush_closed True 9000000 w)"
proof -
  let ?w = "st_flush_closed False 5000000 (st_reset 0)"
  have range: "in_range 0" "in_range 5000000" "in_range 1000000" "in_range 9000000"
    by (simp_all add: in_range_def day_number_def us_per_s_def)
  have w: "st_holds (sec 0) (max (sec 0) (sec 5000000)) [] ?w"
    by (rule st_flush_holds [OF st_reset_holds [OF range(1)] range(2)])
  have l: "st_last_flushed ?w = Some (4 * us_per_s)"
    by (simp add: st_flush_closed_def st_reset_def whole_second_def us_per_s_def split_beta Let_def)
  have "sec 1000000 \<le> 4" by (simp add: sec_def us_per_s_def)
  from statistics_late_record_lost [OF w range(3) l this range(4)] show ?thesis by (simp only: Let_def)
qed

text \<open>The incident file lists every incident once, in the order recorded, whatever the flushes.\<close>

theorem incident_report_complete:
  assumes "in_range t0" "timely (sec t0) ops"
  shows "ir_file (ir_flush (run_report (\<lambda>t. ir_record) (\<lambda>now. ir_flush) ops (ir_reset w)))
    = incident_header # map (incident_line \<circ> snd) (events ops)"
proof -
  have "ir_holds (sec t0) [] (ir_reset w)" by (simp add: ir_holds_def ir_reset_def)
  from incident_report.incremental_equals_dump [OF this assms(2)] show ?thesis by (simp add: ir_complete_def)
qed

theorem incident_report_complete_witness:
  "ir_file (ir_flush (run_report (\<lambda>t. ir_record) (\<lambda>now. ir_flush)
      [Record 5 (''t'', ''s'', ''u'', ''client_error'', ''m''), Flush 9, Record 7 (''t2'', ''s'', ''u'', ''client_error'', ''m'')] (ir_reset \<lparr>ir_rows = [], ir_flushed_count = 0, ir_file = []\<rparr>)))
    = [incident_header, [''t'', ''s'', ''u'', ''client_error'', ''m''], [''t2'', ''s'', ''u'', ''client_error'', ''m'']]"
  using incident_report_complete [of 0
      "[Record 5 (''t'', ''s'', ''u'', ''client_error'', ''m''), Flush 9, Record 7 (''t2'', ''s'', ''u'', ''client_error'', ''m'')]"
      "\<lparr>ir_rows = [], ir_flushed_count = 0, ir_file = []\<rparr>"]
  by (simp add: in_range_def day_number_def sec_def us_per_s_def incident_line_def)

end
