(* ===== verification/Sender.thy ===== *)
theory Sender
  imports Reports
begin

text \<open>
  The load sender: class \<^verbatim>\<open>LoadSender\<close> of \<^verbatim>\<open>custom-load-generator/load_sender.py\<close>.
  The state is the object's fields with where its three coroutines stand (the scheduler, the backlog
  loop, the progress loop).  Every operation takes the readings of the clocks it makes: the wall
  clock in microseconds and the loop's monotonic clock in seconds.  Operations that raise return the
  exception.  The step relation interleaves the coroutines, the requests under way, their done
  callbacks, signals and event-loop errors at the points where the code awaits.
\<close>

section \<open>State\<close>

record BacklogItem =
  item_request :: PreparedRequest
  enqueued_monotonic :: rat

datatype sched_pc =
    AtSecond nat            \<comment> \<open>before second \<open>i\<close> of the timeline\<close>
  | InSecond nat nat        \<comment> \<open>spreading second \<open>i\<close>, request \<open>j\<close> next\<close>
  | Draining                \<comment> \<open>scheduling over, waiting for the backlog and the requests\<close>
  | Finished

datatype backlog_pc = LoopTop | WaitEvent | WaitToken | LoopDone

text \<open>
  Tokens are indistinguishable, so the token queue is its size.  \<open>running\<close> are the requests whose
  coroutine has not ended; \<open>ended\<close> counts the tasks that ended and whose done callback has not
  run.  \<open>wall\<close> is the latest wall-clock reading and \<open>starts\<close> the history of started requests; the
  code keeps neither, they only serve to state properties.
\<close>

record sender =
  config :: SenderConfig
  workload :: WorkloadConfig
  timeline :: "ScriptPoint list"
  report_writer :: request_writer
  statistics_writer :: stat_writer
  incident_writer :: incident_writer
  tokens :: int
  backlog_queue :: "BacklogItem list"
  backlog_available :: bool
  running :: "PreparedRequest list"
  ended :: nat
  stop_requested :: bool
  second_request_offsets :: "int list"
  total_planned_requests :: int
  started_requests :: int
  completed_requests :: int
  failed_requests :: int
  timed_out_requests :: int
  dropped_due_to_capacity :: int
  dropped_backlog_full_requests :: int
  backlog_expired_requests :: int
  enqueued_requests :: int
  started_immediate_requests :: int
  started_from_backlog_requests :: int
  planned_requests_so_far :: int
  scheduled_requests :: int
  dispatched_seconds :: nat
  backlog_max_depth :: nat
  scheduling_complete :: bool
  run_started_at :: int
  last_flush_monotonic :: rat
  heartbeat :: "((string \<times> int) list \<times> bool) option"
  sched :: sched_pc
  backlog_at :: backlog_pc
  progress_on :: bool
  wall :: int
  starts :: "(int \<times> string) list"

section \<open>Construction\<close>

fun build_offsets :: "int \<Rightarrow> ScriptPoint list \<Rightarrow> int list" where
  "build_offsets running_total [] = []"
| "build_offsets running_total (point # rest) = running_total # build_offsets (running_total + requests point) rest"

definition build_second_request_offsets :: "ScriptPoint list \<Rightarrow> int list" where
  "build_second_request_offsets pts = build_offsets 0 pts"

text \<open>
  \<^verbatim>\<open>__init__\<close> followed by the part of \<^verbatim>\<open>run\<close> before the first await: the writers are
  reset, the start time is taken and the coroutines are created.  \<open>t0\<close> is the start time.
\<close>

definition init_sender :: "SenderConfig \<Rightarrow> WorkloadConfig \<Rightarrow> ScriptPoint list \<Rightarrow> int \<Rightarrow> sender" where
  "init_sender cfg wl pts t0 =
     \<lparr>config = cfg, workload = wl, timeline = pts,
      report_writer = \<lparr>rr_counts = [], rr_flushed = {}, rr_file = [[''second'', ''url'', ''count'']]\<rparr>,
      statistics_writer = st_reset t0,
      incident_writer = \<lparr>ir_rows = [], ir_flushed_count = 0, ir_file = [incident_header]\<rparr>,
      tokens = max_inflight cfg, backlog_queue = [], backlog_available = False, running = [], ended = 0,
      stop_requested = False, second_request_offsets = build_second_request_offsets pts,
      total_planned_requests = sum_list (map requests pts),
      started_requests = 0, completed_requests = 0, failed_requests = 0, timed_out_requests = 0,
      dropped_due_to_capacity = 0, dropped_backlog_full_requests = 0, backlog_expired_requests = 0,
      enqueued_requests = 0, started_immediate_requests = 0, started_from_backlog_requests = 0,
      planned_requests_so_far = 0, scheduled_requests = 0, dispatched_seconds = 0, backlog_max_depth = 0,
      scheduling_complete = False, run_started_at = t0, last_flush_monotonic = 0, heartbeat = None,
      sched = AtSecond 0, backlog_at = LoopTop, progress_on = True, wall = t0, starts = []\<rparr>"

definition start_sender :: "env \<Rightarrow> csv option \<Rightarrow> int \<Rightarrow> sender py" where
  "start_sender env script t0 =
     res_bind (load_runtime_config env) (\<lambda>cfg.
     res_bind (load_workload_config env) (\<lambda>wl.
     res_bind (WorkloadPlanner wl) (\<lambda>wl.
     res_bind (load_script_points script (request_classes wl)) (\<lambda>pts.
     Inr (init_sender cfg wl pts t0)))))"

section \<open>Operations\<close>

definition record_stat :: "string \<Rightarrow> string \<Rightarrow> int \<Rightarrow> sender \<Rightarrow> sender py" where
  "record_stat second_bucket column n s =
     res_bind (st_record second_bucket column n (statistics_writer s)) (\<lambda>w. Inr (s\<lparr>statistics_writer := w\<rparr>))"

definition inflight_count :: "sender \<Rightarrow> int" where
  "inflight_count s = max_inflight (config s) - tokens s"

definition should_handle_request :: "SenderConfig \<Rightarrow> int \<Rightarrow> bool" where
  "should_handle_request cfg global_request_index = (case worker_index cfg of
     None \<Rightarrow> True
   | Some i \<Rightarrow> global_request_index mod worker_count cfg = i)"

definition wall_clock_bucket :: "sender \<Rightarrow> nat \<Rightarrow> string" where
  "wall_clock_bucket s second_index = isoformat_utc (whole_second (run_started_at s) + int second_index * us_per_s)"

definition start_request_task :: "int \<Rightarrow> PreparedRequest \<Rightarrow> string \<Rightarrow> bool \<Rightarrow> sender \<Rightarrow> sender py" where
  "start_request_task now request second_bucket from_backlog s =
     (let s = s\<lparr>started_requests := started_requests s + 1,
                report_writer := rr_record second_bucket (report_url request) (report_writer s),
                starts := starts s @ [(now, report_url request)]\<rparr> in
     res_bind (record_stat second_bucket ''started'' 1 s) (\<lambda>s.
     res_bind (if from_backlog
         then record_stat second_bucket ''started_from_backlog'' 1
           (s\<lparr>started_from_backlog_requests := started_from_backlog_requests s + 1\<rparr>)
         else record_stat second_bucket ''started_immediate'' 1
           (s\<lparr>started_immediate_requests := started_immediate_requests s + 1\<rparr>)) (\<lambda>s.
     Inr (s\<lparr>running := running s @ [request]\<rparr>))))"

definition enqueue_or_drop :: "rat \<Rightarrow> string \<Rightarrow> PreparedRequest \<Rightarrow> sender \<Rightarrow> sender py" where
  "enqueue_or_drop clk second_bucket request s =
     (if 0 < backlog_capacity (config s) \<and> int (length (backlog_queue s)) < backlog_capacity (config s)
      then
        let s = s\<lparr>backlog_queue := backlog_queue s @ [\<lparr>item_request = request, enqueued_monotonic = clk\<rparr>],
                   enqueued_requests := enqueued_requests s + 1\<rparr> in
        res_bind (record_stat second_bucket ''enqueued'' 1 s) (\<lambda>s.
        Inr (s\<lparr>backlog_max_depth := max (backlog_max_depth s) (length (backlog_queue s)), backlog_available := True\<rparr>))
      else
        res_bind (record_stat second_bucket ''dropped_capacity'' 1
          (s\<lparr>dropped_due_to_capacity := dropped_due_to_capacity s + 1\<rparr>)) (\<lambda>s.
        if 0 < backlog_capacity (config s)
        then record_stat second_bucket ''dropped_backlog_full'' 1
          (s\<lparr>dropped_backlog_full_requests := dropped_backlog_full_requests s + 1\<rparr>)
        else Inr s))"

definition launch_or_backlog :: "int \<Rightarrow> rat \<Rightarrow> nat \<Rightarrow> nat \<Rightarrow> sender \<Rightarrow> sender py" where
  "launch_or_backlog now clk second_index request_index s =
     (let second_bucket = isoformat_utc now in
     res_bind (record_stat second_bucket ''scheduled'' 1 (s\<lparr>scheduled_requests := scheduled_requests s + 1\<rparr>)) (\<lambda>s.
     res_bind (request_class_for_index (workload s)
        (request_class_counts (timeline s ! second_index)) (int request_index)) (\<lambda>request_class.
     let request = build_request (workload s) request_class in
     if tokens s \<le> 0 then enqueue_or_drop clk second_bucket request s
     else start_request_task now request second_bucket False (s\<lparr>tokens := tokens s - 1\<rparr>))))"

definition put_token :: "sender \<Rightarrow> sender py" where
  "put_token s =
     (if max_inflight (config s) \<le> tokens s then Inl (RuntimeError ''QueueFull'')
      else Inr (s\<lparr>tokens := tokens s + 1\<rparr>))"

definition flush_all :: "bool \<Rightarrow> int \<Rightarrow> sender \<Rightarrow> sender" where
  "flush_all final now s =
     s\<lparr>report_writer := rr_flush_closed final now (report_writer s),
       statistics_writer := st_flush_closed final now (statistics_writer s),
       incident_writer := ir_flush (incident_writer s)\<rparr>"

definition flush_request_report_if_due :: "int \<Rightarrow> rat \<Rightarrow> sender \<Rightarrow> sender" where
  "flush_request_report_if_due now clk s =
     (if fsub clk (last_flush_monotonic s) < of_int (request_log_flush_interval_sec (config s)) then s
      else (flush_all False now s)\<lparr>last_flush_monotonic := clk\<rparr>)"

subsection \<open>Dispatching one second of the timeline\<close>

definition assigned_request_count :: "sender \<Rightarrow> nat \<Rightarrow> int" where
  "assigned_request_count s i =
     int (length (filter (\<lambda>j. should_handle_request (config s) (second_request_offsets s ! i + j))
       [0..requests (timeline s ! i) - 1]))"

text \<open>The start of \<^verbatim>\<open>_dispatch_second\<close>: the plan of the second is recorded.\<close>

definition plan_second :: "nat \<Rightarrow> sender \<Rightarrow> sender py" where
  "plan_second i s =
     res_bind (record_stat (wall_clock_bucket s i) ''planned'' (assigned_request_count s i) s) (\<lambda>s.
     Inr (s\<lparr>planned_requests_so_far := planned_requests_so_far s + assigned_request_count s i\<rparr>))"

text \<open>One iteration of either loop over the requests of a second.\<close>

definition dispatch_request :: "nat \<Rightarrow> nat \<times> int \<times> rat \<Rightarrow> sender \<Rightarrow> sender py" where
  "dispatch_request i = (\<lambda>(j, now, clk) s.
     if should_handle_request (config s) (second_request_offsets s ! i + int j)
     then launch_or_backlog now clk i j (s\<lparr>wall := now\<rparr>) else Inr s)"

text \<open>The burst loop has no await; \<open>rds\<close> are the clock readings of its iterations.\<close>

definition dispatch_burst :: "nat \<Rightarrow> (int \<times> rat) list \<Rightarrow> sender \<Rightarrow> sender py" where
  "dispatch_burst i rds s = fold_res (dispatch_request i) (zip [0..<nat (requests (timeline s ! i))] rds) s"

definition end_second :: "nat \<Rightarrow> int \<Rightarrow> rat \<Rightarrow> sender \<Rightarrow> sender" where
  "end_second i now clk s =
     (flush_request_report_if_due now clk (s\<lparr>wall := now\<rparr>))\<lparr>dispatched_seconds := i + 1, sched := AtSecond (i + 1)\<rparr>"

definition dispatch_second :: "nat \<Rightarrow> (int \<times> rat) list \<Rightarrow> int \<Rightarrow> rat \<Rightarrow> sender \<Rightarrow> sender py" where
  "dispatch_second i rds now clk s =
     res_bind (plan_second i s) (\<lambda>s.
     let request_count = requests (timeline s ! i) in
     if request_count \<le> 0 then Inr (s\<lparr>dispatched_seconds := i + 1, sched := AtSecond (i + 1)\<rparr>)
     else if dispatch_mode (config s) = ''burst'' \<or> request_count = 1
     then res_bind (dispatch_burst i rds s) (\<lambda>s. Inr (end_second i now clk s))
     else Inr (s\<lparr>sched := InSecond i 0\<rparr>))"

definition begin_drain :: "sender \<Rightarrow> sender" where
  "begin_drain s = s\<lparr>scheduling_complete := True, backlog_available := True, progress_on := False, sched := Draining\<rparr>"

subsection \<open>The backlog loop\<close>

definition is_backlog_item_expired :: "sender \<Rightarrow> rat \<Rightarrow> BacklogItem \<Rightarrow> bool" where
  "is_backlog_item_expired s clk item =
     pf_lt (backlog_max_age_seconds (config s)) (Fin (fsub clk (enqueued_monotonic item)))"

definition expire_item :: "int \<Rightarrow> sender \<Rightarrow> sender py" where
  "expire_item now s =
     (let s = s\<lparr>dropped_due_to_capacity := dropped_due_to_capacity s + 1,
                backlog_expired_requests := backlog_expired_requests s + 1\<rparr> in
     res_bind (record_stat (isoformat_utc now) ''dropped_capacity'' 1 s)
       (record_stat (isoformat_utc now) ''backlog_expired'' 1))"

text \<open>What follows \<^verbatim>\<open>token = await self.token_queue.get()\<close>, the token taken.\<close>

definition backlog_take :: "int \<Rightarrow> rat \<Rightarrow> sender \<Rightarrow> sender py" where
  "backlog_take now clk s =
     (let s = s\<lparr>tokens := tokens s - 1, backlog_at := LoopTop\<rparr> in
      case backlog_queue s of
        [] \<Rightarrow> put_token s
      | item # rest \<Rightarrow>
          (let s = s\<lparr>backlog_queue := rest\<rparr> in
           if is_backlog_item_expired s clk item
           then res_bind (put_token s) (expire_item now)
           else start_request_task now (item_request item) (isoformat_utc now) True s))"

text \<open>
  One pass from the top of the loop to its next await or \<^verbatim>\<open>continue\<close>;
  \<^verbatim>\<open>get\<close> on a non-empty token queue does not suspend.
\<close>

definition backlog_pass :: "int \<Rightarrow> rat \<Rightarrow> rat \<Rightarrow> sender \<Rightarrow> sender py" where
  "backlog_pass now clk clk' s = (case backlog_queue s of
     [] \<Rightarrow> Inr (if scheduling_complete s then s\<lparr>backlog_at := LoopDone\<rparr>
                 else s\<lparr>backlog_available := False, backlog_at := WaitEvent\<rparr>)
   | item # rest \<Rightarrow>
       if is_backlog_item_expired s clk item then expire_item now (s\<lparr>backlog_queue := rest\<rparr>)
       else if tokens s \<le> 0 then Inr (s\<lparr>backlog_at := WaitToken\<rparr>)
       else backlog_take now clk' s)"

subsection \<open>Requests under way\<close>

text \<open>
  How a request ends: a response, after which leaving the contexts may still raise, or an
  exception.  \<open>str(exc)\<close> is carried where the code reads it.
\<close>

datatype request_exn = RequestTimeout | ClientError string | OtherError string

datatype outcome = Response int "request_exn option" | Raised request_exn

definition record_incident_if_relevant :: "PreparedRequest \<Rightarrow> string \<Rightarrow> string \<Rightarrow> int \<Rightarrow> sender \<Rightarrow> sender" where
  "record_incident_if_relevant request incident_type message now s =
     (if \<not> contains_sub ''Connection reset by peer'' message then s
      else s\<lparr>incident_writer :=
        ir_record (isoformat now, isoformat_utc now, report_url request, incident_type, message) (incident_writer s)\<rparr>)"

definition count_failed :: "int \<Rightarrow> sender \<Rightarrow> sender py" where
  "count_failed now s = record_stat (isoformat_utc now) ''failed'' 1 (s\<lparr>failed_requests := failed_requests s + 1\<rparr>)"

fun handle_exception :: "PreparedRequest \<Rightarrow> int \<Rightarrow> request_exn \<Rightarrow> sender \<Rightarrow> sender py" where
  "handle_exception request now RequestTimeout s =
     record_stat (isoformat_utc now) ''timed_out'' 1 (s\<lparr>timed_out_requests := timed_out_requests s + 1\<rparr>)"
| "handle_exception request now (ClientError message) s =
     res_bind (count_failed now s) (\<lambda>s. Inr (record_incident_if_relevant request ''client_error'' message now s))"
| "handle_exception request now (OtherError message) s =
     res_bind (count_failed now s) (\<lambda>s. Inr (record_incident_if_relevant request ''unexpected_error'' message now s))"

fun handle_outcome :: "PreparedRequest \<Rightarrow> int \<Rightarrow> outcome \<Rightarrow> sender \<Rightarrow> sender py" where
  "handle_outcome request now (Response status exit) s =
     res_bind
       (if 400 \<le> status then count_failed now s
        else record_stat (isoformat_utc now) ''completed'' 1 (s\<lparr>completed_requests := completed_requests s + 1\<rparr>))
       (\<lambda>s. case exit of None \<Rightarrow> Inr s | Some e \<Rightarrow> handle_exception request now e s)"
| "handle_outcome request now (Raised e) s = handle_exception request now e s"

text \<open>The end of \<^verbatim>\<open>_execute_request\<close> for the \<open>k\<close>-th running request, with its \<^verbatim>\<open>finally\<close>.\<close>

definition execute_request :: "nat \<Rightarrow> outcome \<Rightarrow> int \<Rightarrow> sender \<Rightarrow> sender py" where
  "execute_request k result now s =
     res_bind (handle_outcome (running s ! k) now result s) (\<lambda>s.
     res_bind (put_token s) (\<lambda>s.
     Inr (s\<lparr>running := take k (running s) @ drop (Suc k) (running s), ended := ended s + 1\<rparr>)))"

definition record_loop_incident_if_relevant :: "string option \<Rightarrow> string option \<Rightarrow> int \<Rightarrow> sender \<Rightarrow> sender" where
  "record_loop_incident_if_relevant exc message now s =
     (let parts = filter (\<lambda>p. p \<noteq> []) [case exc of None \<Rightarrow> [] | Some e \<Rightarrow> e, case message of None \<Rightarrow> [] | Some m \<Rightarrow> m];
          combined_message = (case parts of [] \<Rightarrow> [] | [a] \<Rightarrow> a | a # b # _ \<Rightarrow> a @ '' | '' @ b) in
      if \<not> contains_sub ''Connection reset by peer'' combined_message then s
      else s\<lparr>incident_writer := ir_record (isoformat now, isoformat_utc now, ''__event_loop__'', ''loop_exception'', combined_message)
        (incident_writer s)\<rparr>)"

subsection \<open>Progress, heartbeat, metadata, the end of the run\<close>

definition heartbeat_payload :: "sender \<Rightarrow> (string \<times> int) list \<times> bool" where
  "heartbeat_payload s =
     ([(''total_points'', int (length (timeline s))), (''total_planned_requests'', total_planned_requests s),
       (''dispatched_seconds'', int (dispatched_seconds s)), (''planned_requests_so_far'', planned_requests_so_far s),
       (''scheduled_requests'', scheduled_requests s), (''enqueued_requests'', enqueued_requests s),
       (''started_requests'', started_requests s), (''started_immediate_requests'', started_immediate_requests s),
       (''started_from_backlog_requests'', started_from_backlog_requests s),
       (''completed_requests'', completed_requests s), (''failed_requests'', failed_requests s),
       (''timed_out_requests'', timed_out_requests s), (''dropped_due_to_capacity'', dropped_due_to_capacity s),
       (''dropped_backlog_full_requests'', dropped_backlog_full_requests s),
       (''backlog_expired_requests'', backlog_expired_requests s), (''inflight_count'', inflight_count s),
       (''backlog_depth'', int (length (backlog_queue s))), (''backlog_max_depth'', int (backlog_max_depth s))],
      scheduling_complete s \<and> running s = [] \<and> ended s = 0 \<and> backlog_queue s = [])"

definition write_heartbeat :: "sender \<Rightarrow> sender" where
  "write_heartbeat s = (case heartbeat_path (config s) of
     None \<Rightarrow> s | Some path \<Rightarrow> s\<lparr>heartbeat := Some (heartbeat_payload s)\<rparr>)"

text \<open>One turn of \<^verbatim>\<open>_progress_loop\<close> after its sleep; the loop goes on while no stop is requested.\<close>

definition progress_tick :: "int \<Rightarrow> sender \<Rightarrow> sender" where
  "progress_tick now s = (write_heartbeat (flush_all False now s))\<lparr>progress_on := \<not> stop_requested s\<rparr>"

definition metadata_rows :: "string \<Rightarrow> ScriptPoint list \<Rightarrow> int \<Rightarrow> csv" where
  "metadata_rows path pts started =
     [[''run_start_time'', ''run_start_second'', ''script_path'', ''script_start_time'', ''script_end_time'',
       ''script_seconds'', ''planned_requests''],
      [isoformat started, isoformat (whole_second started), path, isoformat (timestamp (hd pts)),
       isoformat (timestamp (last pts)), int_str (int (length pts)), int_str (sum_list (map requests pts))]]"

text \<open>\<^verbatim>\<open>_write_metadata\<close> of the sender, called by \<^verbatim>\<open>run\<close> unless the sender is a worker.\<close>

definition sender_metadata :: "sender \<Rightarrow> csv option" where
  "sender_metadata s = (if worker_index (config s) = None
     then Some (metadata_rows (script_path (config s)) (timeline s) (run_started_at s)) else None)"

definition finish_run :: "int \<Rightarrow> sender \<Rightarrow> sender" where
  "finish_run now s = (write_heartbeat (flush_all True now s))\<lparr>sched := Finished\<rparr>"

section \<open>Interleaving\<close>

text \<open>
  \<open>attempt s r\<close>: from \<open>s\<close> one coroutine runs to its next await and yields \<open>r\<close>, a new state or an
  exception.  The clock readings are those of a wall clock that is not set back.  A sleep only delays
  the scheduler, so it is no guard.
\<close>

definition clock_ok :: "sender \<Rightarrow> int \<Rightarrow> bool" where
  "clock_ok s now \<longleftrightarrow> in_range now \<and> wall s \<le> now"

definition readings_ok :: "sender \<Rightarrow> (int \<times> rat) list \<Rightarrow> int \<Rightarrow> bool" where
  "readings_ok s rds now \<longleftrightarrow> sorted (wall s # map fst rds @ [now]) \<and> (\<forall>t \<in> set (now # map fst rds). in_range t)"

inductive own_attempt :: "sender \<Rightarrow> sender py \<Rightarrow> bool" where
  timeline_done: "sched s = AtSecond i \<Longrightarrow> length (timeline s) \<le> i \<or> stop_requested s \<Longrightarrow>
    own_attempt s (Inr (begin_drain s))"
| second: "sched s = AtSecond i \<Longrightarrow> i < length (timeline s) \<Longrightarrow> \<not> stop_requested s \<Longrightarrow>
    length rds = nat (requests (timeline s ! i)) \<Longrightarrow> readings_ok s rds now \<Longrightarrow>
    own_attempt s (dispatch_second i rds now clk s)"
| spread: "sched s = InSecond i j \<Longrightarrow> int j < requests (timeline s ! i) \<Longrightarrow> clock_ok s now \<Longrightarrow>
    own_attempt s (dispatch_request i (j, now, clk) (s\<lparr>sched := InSecond i (Suc j)\<rparr>))"
| spread_done: "sched s = InSecond i j \<Longrightarrow> requests (timeline s ! i) \<le> int j \<Longrightarrow> clock_ok s now \<Longrightarrow>
    own_attempt s (Inr (end_second i now clk s))"
| backlog: "backlog_at s = LoopTop \<Longrightarrow> sched s \<noteq> Finished \<Longrightarrow> clock_ok s now \<Longrightarrow>
    own_attempt s (backlog_pass now clk clk' (s\<lparr>wall := now\<rparr>))"
| event: "backlog_at s = WaitEvent \<Longrightarrow> own_attempt s (Inr (s\<lparr>backlog_at := LoopTop\<rparr>))"
| token: "backlog_at s = WaitToken \<Longrightarrow> 0 < tokens s \<Longrightarrow> clock_ok s now \<Longrightarrow>
    own_attempt s (backlog_take now clk (s\<lparr>wall := now\<rparr>))"
| request: "k < length (running s) \<Longrightarrow> clock_ok s now \<Longrightarrow>
    own_attempt s (execute_request k result now (s\<lparr>wall := now\<rparr>))"
| callback: "0 < ended s \<Longrightarrow> own_attempt s (Inr (s\<lparr>ended := ended s - 1\<rparr>))"
| progress: "progress_on s \<Longrightarrow> clock_ok s now \<Longrightarrow> own_attempt s (Inr (progress_tick now (s\<lparr>wall := now\<rparr>)))"
| finish: "sched s = Draining \<Longrightarrow> backlog_at s = LoopDone \<Longrightarrow> running s = [] \<Longrightarrow> ended s = 0 \<Longrightarrow> clock_ok s now \<Longrightarrow>
    own_attempt s (Inr (finish_run now (s\<lparr>wall := now\<rparr>)))"

text \<open>
  What comes from outside at any time: a signal, an error that the event loop reports.  The code
  takes such errors until it restores the handler, soon after the scheduling has ended; here they
  may come until the end of the run.
\<close>

inductive attempt :: "sender \<Rightarrow> sender py \<Rightarrow> bool" where
  own: "own_attempt s r \<Longrightarrow> attempt s r"
| signal: "sched s \<noteq> Finished \<Longrightarrow> attempt s (Inr (s\<lparr>stop_requested := True\<rparr>))"
| loop_error: "sched s \<noteq> Finished \<Longrightarrow> clock_ok s now \<Longrightarrow>
    attempt s (Inr (record_loop_incident_if_relevant exc message now (s\<lparr>wall := now\<rparr>)))"

definition step :: "sender \<Rightarrow> sender \<Rightarrow> bool" where
  "step s s' \<longleftrightarrow> attempt s (Inr s')"

abbreviation steps :: "sender \<Rightarrow> sender \<Rightarrow> bool" where
  "steps \<equiv> step\<^sup>*\<^sup>*"

definition own_step :: "sender \<Rightarrow> sender \<Rightarrow> bool" where
  "own_step s s' \<longleftrightarrow> own_attempt s (Inr s')"

abbreviation own_steps :: "sender \<Rightarrow> sender \<Rightarrow> bool" where
  "own_steps \<equiv> own_step\<^sup>*\<^sup>*"

lemma own_steps_steps: "own_steps s t \<Longrightarrow> steps s t"
  by (erule rtranclp_mono [THEN predicate2D, rotated]) (auto simp: own_step_def step_def intro: attempt.own)

inductive_cases attempt_errorE: "attempt s (Inl e)"

text \<open>The initial states: a loaded configuration and script, and room in the calendar.\<close>

definition initial :: "sender \<Rightarrow> bool" where
  "initial s \<longleftrightarrow> (\<exists>cfg wl pts t0. s = init_sender cfg wl pts t0 \<and> valid_config cfg \<and> pts \<noteq> []
     \<and> (\<forall>p \<in> set pts. well_formed_point (length (request_classes wl)) p)
     \<and> in_range t0 \<and> in_range (whole_second t0 + int (length pts) * us_per_s))"

end
