(* ===== verification/SenderHooks.thy ===== *)
theory SenderHooks
  imports Sender
begin

text \<open>
  What the load sender installs around a run (\<^verbatim>\<open>custom-load-generator/load_sender.py\<close>): its handler
  of event loop errors, in place of the one it finds and puts back, and its handlers of the signals
  that stop it.
\<close>

text \<open>The handler of a loop, where it is not the default one.\<close>

datatype 'h loop_handler = OwnHandler | OtherHandler 'h

record 'h hooks =
  exception_handler :: "'h loop_handler option"
  previous_loop_exception_handler :: "'h loop_handler option"
  stop_signals :: "string list"

definition install_loop_exception_handler :: "'h hooks \<Rightarrow> 'h hooks" where
  "install_loop_exception_handler k =
     k\<lparr>previous_loop_exception_handler := exception_handler k, exception_handler := Some OwnHandler\<rparr>"

definition restore_loop_exception_handler :: "'h hooks \<Rightarrow> 'h hooks" where
  "restore_loop_exception_handler k =
     k\<lparr>exception_handler := previous_loop_exception_handler k, previous_loop_exception_handler := None\<rparr>"

text \<open>
  An error of the loop: the sender's handler notes it and passes it on to the one before, if any;
  the result says who handles it in the end, \<open>None\<close> the default handler.
\<close>

definition handle_loop_error ::
  "string option \<Rightarrow> string option \<Rightarrow> int \<Rightarrow> 'h hooks \<Rightarrow> sender \<Rightarrow> sender \<times> 'h loop_handler option" where
  "handle_loop_error exc message now k s = (case exception_handler k of
     Some OwnHandler \<Rightarrow> (record_loop_incident_if_relevant exc message now s, previous_loop_exception_handler k)
   | handler \<Rightarrow> (s, handler))"

text \<open>\<open>available\<close> are the signals of the platform; each gets the handler that asks for the stop.\<close>

definition install_signal_handlers :: "(string \<Rightarrow> bool) \<Rightarrow> 'h hooks \<Rightarrow> 'h hooks" where
  "install_signal_handlers available k = k\<lparr>stop_signals := filter available [''SIGINT'', ''SIGTERM'']\<rparr>"

definition receive_signal :: "string \<Rightarrow> 'h hooks \<Rightarrow> sender \<Rightarrow> sender" where
  "receive_signal name k s = (if name \<in> set (stop_signals k) then s\<lparr>stop_requested := True\<rparr> else s)"

text \<open>The hooks act on a run as its steps do.\<close>

lemma receive_signal_step:
  assumes "sched s \<noteq> Finished"
  shows "step\<^sup>=\<^sup>= s (receive_signal name k s)"
  using attempt.signal [OF assms] by (simp add: receive_signal_def step_def)

lemma loop_error_step:
  assumes "sched s \<noteq> Finished" "clock_ok s now"
  shows "step s (fst (handle_loop_error exc message now (install_loop_exception_handler k) (s\<lparr>wall := now\<rparr>)))"
  using attempt.loop_error [OF assms] by (simp add: handle_loop_error_def install_loop_exception_handler_def step_def)

text \<open>Whoever handled the errors of the loop before handles them after the run, and sees those during it.\<close>

lemma errors_passed_on:
  "snd (handle_loop_error exc message now (install_loop_exception_handler k) s) = exception_handler k"
  "exception_handler (restore_loop_exception_handler (install_loop_exception_handler k)) = exception_handler k"
  by (simp_all add: handle_loop_error_def install_loop_exception_handler_def restore_loop_exception_handler_def)

end
