(* ===== verification/SenderSafety.thy ===== *)
theory SenderSafety
  imports Sender
begin

text \<open>
  Invariants of the load sender over all interleavings: no operation raises, the tokens bound the
  requests under way, every counter is accounted for, the statistics hold exactly the counters, the
  request report holds exactly the started requests.
\<close>

section \<open>The invariant\<close>

definition static_ok :: "sender \<Rightarrow> bool" where
  "static_ok s \<longleftrightarrow> valid_config (config s)
     \<and> (\<forall>p \<in> set (timeline s). well_formed_point (length (request_classes (workload s))) p)
     \<and> second_request_offsets s = build_second_request_offsets (timeline s)
     \<and> in_range (run_started_at s) \<and> run_started_at s \<le> wall s
     \<and> in_range (whole_second (run_started_at s) + int (length (timeline s)) * us_per_s)
     \<and> in_range (wall s)"

definition pool_ok :: "sender \<Rightarrow> bool" where
  "pool_ok s \<longleftrightarrow> tokens s + int (length (running s)) = max_inflight (config s) \<and> 0 \<le> tokens s"

definition counts_ok :: "sender \<Rightarrow> bool" where
  "counts_ok s \<longleftrightarrow>
     started_requests s = started_immediate_requests s + started_from_backlog_requests s
     \<and> enqueued_requests s = started_from_backlog_requests s + backlog_expired_requests s + int (length (backlog_queue s))
     \<and> scheduled_requests s = started_requests s + int (length (backlog_queue s)) + dropped_due_to_capacity s
     \<and> dropped_backlog_full_requests s =
         (if 0 < backlog_capacity (config s) then dropped_due_to_capacity s - backlog_expired_requests s else 0)
     \<and> length (backlog_queue s) \<le> backlog_max_depth s \<and> int (backlog_max_depth s) \<le> backlog_capacity (config s)
     \<and> 0 \<le> started_immediate_requests s \<and> 0 \<le> started_from_backlog_requests s \<and> 0 \<le> backlog_expired_requests s
     \<and> backlog_expired_requests s \<le> dropped_due_to_capacity s
     \<and> 0 \<le> completed_requests s \<and> 0 \<le> failed_requests s \<and> 0 \<le> timed_out_requests s
     \<and> started_requests s \<le> completed_requests s + failed_requests s + timed_out_requests s + int (length (running s))
     \<and> completed_requests s + failed_requests s + timed_out_requests s + 2 * int (length (running s)) \<le> 2 * started_requests s"

definition stats_ok :: "sender \<Rightarrow> bool" where
  "stats_ok s \<longleftrightarrow> (let total = stat_total (statistics_writer s) in st_wf (statistics_writer s)
     \<and> total ''planned'' = planned_requests_so_far s \<and> total ''scheduled'' = scheduled_requests s
     \<and> total ''enqueued'' = enqueued_requests s \<and> total ''started'' = started_requests s
     \<and> total ''started_immediate'' = started_immediate_requests s
     \<and> total ''started_from_backlog'' = started_from_backlog_requests s
     \<and> total ''completed'' = completed_requests s \<and> total ''failed'' = failed_requests s
     \<and> total ''timed_out'' = timed_out_requests s \<and> total ''dropped_capacity'' = dropped_due_to_capacity s
     \<and> total ''dropped_backlog_full'' = dropped_backlog_full_requests s
     \<and> total ''backlog_expired'' = backlog_expired_requests s)"

definition report_ok :: "sender \<Rightarrow> bool" where
  "report_ok s \<longleftrightarrow> int (length (starts s)) = started_requests s
     \<and> (if sched s = Finished then rr_complete (starts s) (rr_file (report_writer s))
        else rr_holds (sec (wall s)) (starts s) (report_writer s))"

section \<open>The operations do not raise\<close>

lemma columns [simp]:
  "''planned'' \<in> set COLUMN_NAMES" "''scheduled'' \<in> set COLUMN_NAMES" "''enqueued'' \<in> set COLUMN_NAMES"
  "''started'' \<in> set COLUMN_NAMES" "''started_immediate'' \<in> set COLUMN_NAMES"
  "''started_from_backlog'' \<in> set COLUMN_NAMES" "''completed'' \<in> set COLUMN_NAMES"
  "''failed'' \<in> set COLUMN_NAMES" "''timed_out'' \<in> set COLUMN_NAMES" "''dropped_capacity'' \<in> set COLUMN_NAMES"
  "''dropped_backlog_full'' \<in> set COLUMN_NAMES" "''backlog_expired'' \<in> set COLUMN_NAMES"
  by (simp_all add: COLUMN_NAMES_def)

lemma record_stat_now [simp]:
  "in_range t \<Longrightarrow> column \<in> set COLUMN_NAMES \<Longrightarrow>
     record_stat (isoformat_utc t) column n s =
       Inr (s\<lparr>statistics_writer := stat_add (isoformat_utc t) (whole_second t) column n (statistics_writer s)\<rparr>)"
  by (simp add: record_stat_def st_record_ok)

lemma request_class_resolves:
  assumes "static_ok s" "i < length (timeline s)" "int j < requests (timeline s ! i)"
  shows "\<exists>c \<in> set (request_classes (workload s)).
    request_class_for_index (workload s) (request_class_counts (timeline s ! i)) (int j) = Inr c"
proof -
  let ?cs = "request_classes (workload s)" and ?p = "timeline s ! i"
  have p: "length (request_class_counts ?p) = length ?cs" "\<forall>c \<in> set (request_class_counts ?p). 0 \<le> c"
    "requests ?p = sum_list (request_class_counts ?p)"
    using assms(1,2) unfolding static_ok_def well_formed_point_def by auto
  have len: "int (length (class_sequence ?cs (request_class_counts ?p))) = requests ?p"
    unfolding p(3) using p(1,2) by (rule class_sequence_length)
  have "\<forall>(c, n) \<in> set (zip ?cs (request_class_counts ?p)). 0 \<le> n"
    using p(2) by (auto dest: set_zip_rightD)
  from class_scan_spec [OF this, of 0 "int j"]
  have "request_class_for_index (workload s) (request_class_counts ?p) (int j) =
      Inr (class_sequence ?cs (request_class_counts ?p) ! j)"
    using len assms(3) by (simp add: request_class_for_index_def class_sequence_def Let_def)
  moreover have "class_sequence ?cs (request_class_counts ?p) ! j \<in> set ?cs"
    using class_sequence_set len assms(3) by (metis nat_less_real_le nth_mem of_nat_less_iff subsetD)
  ultimately show ?thesis by blast
qed

lemmas op_defs = start_request_task_def enqueue_or_drop_def put_token_def expire_item_def
  backlog_take_def backlog_pass_def count_failed_def execute_request_def Let_def

text \<open>Everything that holds while the run is not finished, and what an operation leaves alone.\<close>

definition good :: "sender \<Rightarrow> bool" where
  "good s \<longleftrightarrow> static_ok s \<and> pool_ok s \<and> counts_ok s \<and> stats_ok s \<and> report_ok s \<and> sched s \<noteq> Finished"

definition frame :: "sender \<Rightarrow> sender \<Rightarrow> bool" where
  "frame s s' \<longleftrightarrow> config s' = config s \<and> workload s' = workload s \<and> timeline s' = timeline s
     \<and> second_request_offsets s' = second_request_offsets s \<and> run_started_at s' = run_started_at s
     \<and> sched s' = sched s \<and> stop_requested s' = stop_requested s \<and> scheduling_complete s' = scheduling_complete s
     \<and> planned_requests_so_far s' = planned_requests_so_far s \<and> dispatched_seconds s' = dispatched_seconds s
     \<and> wall s' = wall s \<and> progress_on s' = progress_on s"

lemma frame_refl [simp]: "frame s s"
  by (simp add: frame_def)

lemma static_frame: "frame s s' \<Longrightarrow> static_ok s' = static_ok s"
  by (simp add: frame_def static_ok_def)

lemma rr_holds_mono: "rr_holds F evs w \<Longrightarrow> F \<le> F' \<Longrightarrow> in_range (F' * us_per_s) \<Longrightarrow> rr_holds F' evs w"
proof -
  assume h: "rr_holds F evs w" "F \<le> F'" "in_range (F' * us_per_s)"
  then have "isoformat_utc (F * us_per_s) \<le> isoformat_utc (F' * us_per_s)"
    using bucket_sec_less [of F' F] by (auto simp: rr_holds_def not_less [symmetric])
  with h show ?thesis unfolding rr_holds_def by (meson order_trans)
qed

lemma sec_in_range: "in_range t \<Longrightarrow> in_range (sec t * us_per_s)"
  by (simp flip: whole_second_sec)

lemma good_wall: "good s \<Longrightarrow> clock_ok s now \<Longrightarrow> good (s\<lparr>wall := now\<rparr>)"
  using rr_holds_mono [of "sec (wall s)" "starts s" "report_writer s" "sec now"] sec_mono [of "wall s" now]
  by (auto simp: good_def clock_ok_def static_ok_def pool_ok_def counts_ok_def stats_ok_def report_ok_def sec_in_range)

lemma good_start:
  assumes "good s"
  shows "rr_holds (sec (wall s)) (starts s @ [(wall s, url)]) (rr_record (isoformat_utc (wall s)) url (report_writer s))"
  using assms by (intro rr_put_holds) (auto simp: good_def static_ok_def report_ok_def)

text \<open>The part of \<open>good\<close> an operation has to re-establish.\<close>

definition kept :: "sender \<Rightarrow> sender \<Rightarrow> bool" where
  "kept s s' \<longleftrightarrow> frame s s' \<and> pool_ok s' \<and> counts_ok s' \<and> stats_ok s'
     \<and> int (length (starts s')) = started_requests s' \<and> rr_holds (sec (wall s)) (starts s') (report_writer s')"

lemma kept_good: "good s \<Longrightarrow> kept s s' \<Longrightarrow> good s' \<and> frame s s'"
  using static_frame [of s s'] by (auto simp: good_def kept_def frame_def report_ok_def)

lemmas keep_defs = kept_def pool_ok_def counts_ok_def stats_ok_def frame_def

lemma good_range: "good s \<Longrightarrow> in_range (wall s)"
  by (simp add: good_def static_ok_def)

lemma good_rr: "good s \<Longrightarrow> rr_holds (sec (wall s)) (starts s) (report_writer s) \<and> int (length (starts s)) = started_requests s"
  by (auto simp: good_def report_ok_def)

text \<open>What a launch does, on each of its three branches.\<close>

lemma launch_ok:
  assumes "good s" "i < length (timeline s)" "int j < requests (timeline s ! i)"
  shows "\<exists>s'. launch_or_backlog (wall s) clk i j s = Inr s' \<and> good s' \<and> frame s s'
    \<and> scheduled_requests s' = scheduled_requests s + 1 \<and> backlog_at s' = backlog_at s"
proof -
  obtain c where c: "request_class_for_index (workload s) (request_class_counts (timeline s ! i)) (int j) = Inr c"
    using request_class_resolves [OF _ assms(2,3)] assms(1) by (auto simp: good_def)
  have "\<exists>s'. launch_or_backlog (wall s) clk i j s = Inr s' \<and> kept s s'
      \<and> scheduled_requests s' = scheduled_requests s + 1
      \<and> backlog_at s' = backlog_at s"
    using assms(1) c good_range [OF assms(1)] good_start [OF assms(1)] good_rr [OF assms(1)]
    unfolding launch_or_backlog_def good_def
    by (cases "tokens s \<le> 0"; cases "0 < backlog_capacity (config s) \<and> int (length (backlog_queue s)) < backlog_capacity (config s)")
      (auto simp: op_defs keep_defs)
  with kept_good [OF assms(1)] show ?thesis by blast
qed

lemma take_ok:
  assumes "good s" "0 < tokens s"
  shows "\<exists>s'. backlog_take (wall s) clk s = Inr s' \<and> good s' \<and> frame s s'
    \<and> scheduled_requests s' = scheduled_requests s \<and> backlog_at s' = LoopTop"
proof -
  have max: "tokens s \<le> max_inflight (config s)" using assms(1) by (simp add: good_def pool_ok_def)
  have "\<exists>s'. backlog_take (wall s) clk s = Inr s' \<and> kept s s'
      \<and> scheduled_requests s' = scheduled_requests s
      \<and> backlog_at s' = LoopTop"
    using assms max good_range [OF assms(1)] good_start [OF assms(1)] good_rr [OF assms(1)]
    unfolding good_def
    by (cases "backlog_queue s"; cases "is_backlog_item_expired s clk (hd (backlog_queue s))")
      (auto simp: op_defs is_backlog_item_expired_def keep_defs)
  with kept_good [OF assms(1)] show ?thesis by blast
qed

lemma pass_ok:
  assumes "good s" "backlog_at s = LoopTop"
  shows "\<exists>s'. backlog_pass (wall s) clk clk' s = Inr s' \<and> good s' \<and> frame s s'
    \<and> scheduled_requests s' = scheduled_requests s
    \<and> (backlog_at s' = LoopDone \<longrightarrow> scheduling_complete s' \<and> backlog_queue s' = [])"
proof (cases "backlog_queue s")
  case Nil
  have "\<exists>s'. backlog_pass (wall s) clk clk' s = Inr s' \<and> kept s s'
      \<and> scheduled_requests s' = scheduled_requests s
      \<and> (backlog_at s' = LoopDone \<longrightarrow> scheduling_complete s' \<and> backlog_queue s' = [])"
    using assms Nil good_rr [OF assms(1)] unfolding good_def
    by (auto simp: backlog_pass_def keep_defs)
  with kept_good [OF assms(1)] show ?thesis by blast
next
  case (Cons item rest)
  show ?thesis
  proof (cases "is_backlog_item_expired s clk item \<or> tokens s \<le> 0")
    case True
    have "\<exists>s'. backlog_pass (wall s) clk clk' s = Inr s' \<and> kept s s'
      \<and> scheduled_requests s' = scheduled_requests s
      \<and> backlog_at s' \<noteq> LoopDone"
    using assms Cons True good_range [OF assms(1)] good_rr [OF assms(1)] unfolding good_def
      by (cases "is_backlog_item_expired s clk item")
        (auto simp: op_defs keep_defs)
    with kept_good [OF assms(1)] show ?thesis by blast
  next
    case False
    then have "backlog_pass (wall s) clk clk' s = backlog_take (wall s) clk' s" using Cons by (simp add: backlog_pass_def)
    moreover obtain s' where "backlog_take (wall s) clk' s = Inr s'" "good s'" "frame s s'"
      "scheduled_requests s' = scheduled_requests s" "backlog_at s' = LoopTop"
      using take_ok [OF assms(1), of clk'] False by auto
    ultimately show ?thesis by simp
  qed
qed

text \<open>
  What the outcome of a request does to the state before its token goes back: \<open>k\<close> outcomes are
  counted, and nothing else moves.
\<close>

definition unchanged_but_outcomes :: "sender \<Rightarrow> sender \<Rightarrow> bool" where
  "unchanged_but_outcomes s s' \<longleftrightarrow> frame s s' \<and> tokens s' = tokens s \<and> running s' = running s
     \<and> backlog_queue s' = backlog_queue s \<and> backlog_at s' = backlog_at s \<and> backlog_max_depth s' = backlog_max_depth s
     \<and> starts s' = starts s \<and> report_writer s' = report_writer s
     \<and> scheduled_requests s' = scheduled_requests s \<and> enqueued_requests s' = enqueued_requests s
     \<and> started_requests s' = started_requests s \<and> started_immediate_requests s' = started_immediate_requests s
     \<and> started_from_backlog_requests s' = started_from_backlog_requests s
     \<and> dropped_due_to_capacity s' = dropped_due_to_capacity s
     \<and> dropped_backlog_full_requests s' = dropped_backlog_full_requests s
     \<and> backlog_expired_requests s' = backlog_expired_requests s"

definition outcomes_counted :: "int \<Rightarrow> sender \<Rightarrow> sender \<Rightarrow> bool" where
  "outcomes_counted k s s' \<longleftrightarrow> unchanged_but_outcomes s s' \<and> stats_ok s'
     \<and> completed_requests s \<le> completed_requests s' \<and> failed_requests s \<le> failed_requests s'
     \<and> timed_out_requests s \<le> timed_out_requests s'
     \<and> completed_requests s' + failed_requests s' + timed_out_requests s'
       = completed_requests s + failed_requests s + timed_out_requests s + k"

lemma outcomes_trans: "outcomes_counted j s t \<Longrightarrow> outcomes_counted k t u \<Longrightarrow> outcomes_counted (j + k) s u"
  by (simp add: outcomes_counted_def unchanged_but_outcomes_def frame_def)

lemma stat_counted:
  assumes "in_range (wall s)" "stats_ok s"
  shows "\<exists>s'. record_stat (isoformat_utc (wall s)) ''completed'' 1 (s\<lparr>completed_requests := completed_requests s + 1\<rparr>) = Inr s'
      \<and> outcomes_counted 1 s s'"
    and "\<exists>s'. record_stat (isoformat_utc (wall s)) ''timed_out'' 1 (s\<lparr>timed_out_requests := timed_out_requests s + 1\<rparr>) = Inr s'
      \<and> outcomes_counted 1 s s'"
    and "\<exists>s'. count_failed (wall s) s = Inr s' \<and> outcomes_counted 1 s s'"
  using assms by (simp_all add: count_failed_def outcomes_counted_def unchanged_but_outcomes_def stats_ok_def frame_def Let_def)

lemma incident_outcomes: "outcomes_counted k s t \<Longrightarrow> outcomes_counted k s (record_incident_if_relevant request kind msg now t)"
  by (simp add: record_incident_if_relevant_def outcomes_counted_def unchanged_but_outcomes_def stats_ok_def frame_def Let_def)

lemma exception_outcomes:
  assumes "in_range (wall s)" "stats_ok s"
  shows "\<exists>s'. handle_exception request (wall s) e s = Inr s' \<and> outcomes_counted 1 s s'"
proof -
  obtain t where "count_failed (wall s) s = Inr t" "outcomes_counted 1 s t" using stat_counted(3) [OF assms] by blast
  then show ?thesis using stat_counted(2) [OF assms] incident_outcomes by (cases e) simp_all
qed

lemma result_outcomes:
  assumes "in_range (wall s)" "stats_ok s"
  shows "\<exists>s' k. handle_outcome request (wall s) result s = Inr s' \<and> outcomes_counted k s s' \<and> (k = 1 \<or> k = 2)"
proof (cases result)
  case (Raised e)
  with exception_outcomes [OF assms, of request e] show ?thesis by auto
next
  case (Response status exit)
  obtain t where t: "(if 400 \<le> status then count_failed (wall s) s
      else record_stat (isoformat_utc (wall s)) ''completed'' 1 (s\<lparr>completed_requests := completed_requests s + 1\<rparr>)) = Inr t"
    "outcomes_counted 1 s t" using stat_counted(1,3) [OF assms] by (cases "400 \<le> status") auto
  show ?thesis
  proof (cases exit)
    case None
    with t show ?thesis by (simp only: Response handle_outcome.simps res_bind_simps option.case) blast
  next
    case (Some e)
    have w: "wall t = wall s" "stats_ok t" using t(2) by (simp_all add: outcomes_counted_def unchanged_but_outcomes_def frame_def)
    then obtain u where u: "handle_exception request (wall s) e t = Inr u" "outcomes_counted 1 t u"
      using exception_outcomes [of t request e] assms(1) by auto
    from outcomes_trans [OF t(2) u(2)] have "outcomes_counted 2 s u" by simp
    then show ?thesis
      by (simp only: Response Some t(1) u(1) handle_outcome.simps res_bind_simps option.case) blast
  qed
qed

lemma execute_ok:
  assumes "good s" "k < length (running s)"
  shows "\<exists>s'. execute_request k result (wall s) s = Inr s' \<and> good s' \<and> frame s s'
    \<and> scheduled_requests s' = scheduled_requests s \<and> backlog_at s' = backlog_at s
    \<and> backlog_queue s' = backlog_queue s"
proof -
  obtain t n where t: "handle_outcome (running s ! k) (wall s) result s = Inr t" "outcomes_counted n s t" "n = 1 \<or> n = 2"
    using result_outcomes good_range assms(1) unfolding good_def by blast
  let ?run = "take k (running t) @ drop (Suc k) (running t)"
  let ?t = "t\<lparr>tokens := tokens t + 1, running := ?run, ended := ended t + 1\<rparr>"
  have same: "frame s t" "tokens t = tokens s" "running t = running s" "backlog_queue t = backlog_queue s"
    "backlog_at t = backlog_at s" "scheduled_requests t = scheduled_requests s"
    using t(2) by (simp_all add: outcomes_counted_def unchanged_but_outcomes_def)
  have len: "length (running s) = length ?run + 1" using assms(2) same(3) by simp
  have room: "\<not> max_inflight (config t) \<le> tokens t"
    using assms same(1,2) by (simp add: good_def pool_ok_def frame_def)
  have "execute_request k result (wall s) s = Inr ?t"
    using t(1) room by (simp add: execute_request_def put_token_def)
  moreover have "kept s ?t"
  proof -
    have "pool_ok ?t" using assms(1) same(1,2) len by (simp add: good_def pool_ok_def frame_def)
    moreover have "counts_ok ?t"
    proof -
      have c: "counts_ok s" using assms(1) by (simp add: good_def)
      have up: "completed_requests s \<le> completed_requests t" "failed_requests s \<le> failed_requests t"
        "timed_out_requests s \<le> timed_out_requests t" "completed_requests t + failed_requests t + timed_out_requests t
          = completed_requests s + failed_requests s + timed_out_requests s + n" "config t = config s"
        using t(2) by (simp_all add: outcomes_counted_def same(1) [unfolded frame_def])
      have "0 \<le> completed_requests s" "0 \<le> failed_requests s" "0 \<le> timed_out_requests s"
        "started_requests s \<le> completed_requests s + failed_requests s + timed_out_requests s + int (length (running s))"
        "completed_requests s + failed_requests s + timed_out_requests s + 2 * int (length (running s)) \<le> 2 * started_requests s"
        using c by (simp_all add: counts_ok_def)
      then have "0 \<le> completed_requests t" "0 \<le> failed_requests t" "0 \<le> timed_out_requests t"
        "started_requests s \<le> completed_requests t + failed_requests t + timed_out_requests t + int (length ?run)"
        "completed_requests t + failed_requests t + timed_out_requests t + 2 * int (length ?run) \<le> 2 * started_requests s"
        using up t(3) len by auto
      then show ?thesis using c t(2) up(5)
        by (simp add: counts_ok_def outcomes_counted_def unchanged_but_outcomes_def)
    qed
    moreover have "stats_ok ?t" using t(2) by (simp add: outcomes_counted_def stats_ok_def Let_def)
    moreover have "frame s ?t" using same(1) by (simp add: frame_def)
    moreover have "int (length (starts ?t)) = started_requests ?t" "rr_holds (sec (wall s)) (starts ?t) (report_writer ?t)"
      using t(2) good_rr [OF assms(1)] by (simp_all add: outcomes_counted_def unchanged_but_outcomes_def)
    ultimately show ?thesis by (simp add: kept_def)
  qed
  moreover have "scheduled_requests ?t = scheduled_requests s" "backlog_at ?t = backlog_at s"
    "backlog_queue ?t = backlog_queue s" using same by simp_all
  ultimately show ?thesis using kept_good [OF assms(1)] by blast
qed

lemma flush_ok: "good s \<Longrightarrow> kept s (flush_all False (wall s) s)"
proof -
  assume g: "good s"
  then have "rr_holds (max (sec (wall s)) (sec (wall s))) (starts s) (rr_flush_closed False (wall s) (report_writer s))"
    using good_rr good_range by (intro rr_flush_holds) auto
  then show ?thesis
    using g good_rr [OF g] unfolding good_def
    by (auto simp: keep_defs flush_all_def st_flush_total Let_def)
qed

lemma plan_ok:
  assumes "good s" "i < length (timeline s)"
  shows "\<exists>s'. plan_second i s = Inr s' \<and> good s' \<and> s' = s\<lparr>statistics_writer := statistics_writer s',
    planned_requests_so_far := planned_requests_so_far s + assigned_request_count s i\<rparr>"
proof -
  have r: "in_range (whole_second (run_started_at s) + int i * us_per_s)"
  proof -
    have shift: "whole_second (run_started_at s) + int k * us_per_s = (sec (run_started_at s) + int k) * us_per_s" for k
      by (simp add: whole_second_sec algebra_simps)
    have "in_range (sec (run_started_at s) * us_per_s)"
      "in_range ((sec (run_started_at s) + int (length (timeline s))) * us_per_s)"
      using assms(1) sec_in_range shift by (auto simp: good_def static_ok_def)
    then show ?thesis unfolding shift by (rule in_range_between) (use assms(2) in simp_all)
  qed
  have frm: "assigned_request_count (s\<lparr>statistics_writer := w\<rparr>) i = assigned_request_count s i" for w
    by (simp add: assigned_request_count_def)
  show ?thesis
    using assms(1) r good_rr [OF assms(1)]
    by (auto simp: plan_second_def wall_clock_bucket_def frm good_def static_ok_def pool_ok_def counts_ok_def
        stats_ok_def report_ok_def Let_def)
qed

section \<open>Dispatching\<close>

definition handled :: "sender \<Rightarrow> nat \<Rightarrow> nat list \<Rightarrow> int" where
  "handled s i js = int (length (filter (\<lambda>j. should_handle_request (config s) (second_request_offsets s ! i + int j)) js))"

lemma handled_simps [simp]:
  "handled s i [] = 0"
  "handled s i (js @ js') = handled s i js + handled s i js'"
  by (simp_all add: handled_def)

lemma handled_frame: "frame s s' \<Longrightarrow> handled s' i js = handled s i js"
  by (simp add: handled_def frame_def)

lemma handled_wall [simp]: "handled (s\<lparr>wall := t\<rparr>) i js = handled s i js" "handled (s\<lparr>sched := pc\<rparr>) i js = handled s i js"
  by (simp_all add: handled_def)

lemma assigned_handled: "assigned_request_count s i = handled s i [0..<nat (requests (timeline s ! i))]"
proof -
  have "[0..int n - 1] = map int [0..<n]" for n
    by (induction n) (simp_all add: upto_rec2)
  from this [of "nat (requests (timeline s ! i))"]
  have "[0..requests (timeline s ! i) - 1] = map int [0..<nat (requests (timeline s ! i))]"
    by (cases "0 \<le> requests (timeline s ! i)") simp_all
  then show ?thesis by (simp add: assigned_request_count_def handled_def filter_map comp_def)
qed

lemma frame_trans: "frame s s' \<Longrightarrow> frame s' s'' \<Longrightarrow> frame s s''"
  by (simp add: frame_def)

lemma dispatch_ok:
  assumes "good s" "i < length (timeline s)" "int j < requests (timeline s ! i)" "clock_ok s now"
  shows "\<exists>s'. dispatch_request i (j, now, clk) s = Inr s' \<and> good s' \<and> frame (s\<lparr>wall := wall s'\<rparr>) s'
    \<and> wall s \<le> wall s' \<and> wall s' \<le> now \<and> scheduled_requests s' = scheduled_requests s + handled s i [j]
    \<and> backlog_at s' = backlog_at s"
proof (cases "should_handle_request (config s) (second_request_offsets s ! i + int j)")
  case True
  have g: "good (s\<lparr>wall := now\<rparr>)" using assms(1,4) by (rule good_wall)
  from launch_ok [OF g, of i j clk] assms(2,3) obtain s' where
    "launch_or_backlog now clk i j (s\<lparr>wall := now\<rparr>) = Inr s'" "good s'" "frame (s\<lparr>wall := now\<rparr>) s'"
    "scheduled_requests s' = scheduled_requests s + 1" "backlog_at s' = backlog_at s" by auto
  moreover have "wall s' = now" using calculation(3) by (simp add: frame_def)
  ultimately show ?thesis using True assms(4) by (simp add: dispatch_request_def handled_def clock_ok_def)
next
  case False
  then show ?thesis using assms by (simp add: dispatch_request_def handled_def frame_def clock_ok_def)
qed

lemma burst_ok:
  assumes "good s" "i < length (timeline s)" "int (m + length rds) \<le> requests (timeline s ! i)" "readings_ok s rds now"
  shows "\<exists>s'. fold_res (dispatch_request i) (zip [m..<m + length rds] rds) s = Inr s' \<and> good s'
    \<and> frame (s\<lparr>wall := wall s'\<rparr>) s' \<and> wall s' \<le> now
    \<and> scheduled_requests s' = scheduled_requests s + handled s i [m..<m + length rds]
    \<and> backlog_at s' = backlog_at s"
  using assms
proof (induction rds arbitrary: s m)
  case Nil
  then show ?case by (simp add: readings_ok_def frame_def)
next
  case (Cons r rds)
  obtain t clk where r: "r = (t, clk)" by (cases r)
  have "clock_ok s t" using Cons.prems(4) by (simp add: clock_ok_def readings_ok_def r)
  moreover have "int m < requests (timeline s ! i)" using Cons.prems(3) by simp
  ultimately obtain u where u: "dispatch_request i (m, t, clk) s = Inr u" "good u" "frame (s\<lparr>wall := wall u\<rparr>) u"
    "wall u \<le> t" "scheduled_requests u = scheduled_requests s + handled s i [m]" "backlog_at u = backlog_at s"
    using dispatch_ok Cons.prems(1,2) by blast
  have tl: "timeline u = timeline s" using u(3) by (simp add: frame_def)
  have "readings_ok u rds now" using Cons.prems(4) u(4) by (auto simp: readings_ok_def r)
  with Cons.IH [of u "Suc m"] u(2) Cons.prems(2,3) tl obtain s' where
    s': "fold_res (dispatch_request i) (zip [Suc m..<Suc m + length rds] rds) u = Inr s'" "good s'"
    "frame (u\<lparr>wall := wall s'\<rparr>) s'" "wall s' \<le> now"
    "scheduled_requests s' = scheduled_requests u + handled u i [Suc m..<Suc m + length rds]"
    "backlog_at s' = backlog_at u" by auto
  have "[m..<m + length (r # rds)] = m # [Suc m..<Suc m + length rds]" by (simp add: upt_rec)
  moreover have "handled s i (m # [Suc m..<Suc m + length rds]) = handled s i [m] + handled u i [Suc m..<Suc m + length rds]"
    using u(3) handled_frame [of "s\<lparr>wall := wall u\<rparr>" u] by (simp add: handled_def frame_def)
  moreover have "frame (s\<lparr>wall := wall s'\<rparr>) s'" using u(3) s'(3) by (simp add: frame_def)
  ultimately show ?case using u s' by (simp add: r)
qed

section \<open>Where the run stands\<close>

definition planned_upto :: "sender \<Rightarrow> nat \<Rightarrow> int" where
  "planned_upto s i = (\<Sum>k<i. assigned_request_count s k)"

definition schedule_ok :: "sender \<Rightarrow> bool" where
  "schedule_ok s \<longleftrightarrow> (case sched s of
     AtSecond i \<Rightarrow> i \<le> length (timeline s) \<and> dispatched_seconds s = i
       \<and> planned_requests_so_far s = planned_upto s i \<and> scheduled_requests s = planned_upto s i
   | InSecond i j \<Rightarrow> i < length (timeline s) \<and> int j \<le> requests (timeline s ! i) \<and> dispatched_seconds s = i
       \<and> planned_requests_so_far s = planned_upto s (Suc i)
       \<and> scheduled_requests s = planned_upto s i + handled s i [0..<j]
   | _ \<Rightarrow> dispatched_seconds s \<le> length (timeline s)
       \<and> planned_requests_so_far s = planned_upto s (dispatched_seconds s)
       \<and> scheduled_requests s = planned_upto s (dispatched_seconds s)
       \<and> (stop_requested s \<or> dispatched_seconds s = length (timeline s)))"

definition phase_ok :: "sender \<Rightarrow> bool" where
  "phase_ok s \<longleftrightarrow> scheduling_complete s = (sched s \<in> {Draining, Finished})
     \<and> (backlog_at s = LoopDone \<longrightarrow> scheduling_complete s \<and> backlog_queue s = [])
     \<and> (sched s = Finished \<longrightarrow> backlog_at s = LoopDone \<and> running s = [] \<and> ended s = 0)
     \<and> (progress_on s \<longrightarrow> \<not> scheduling_complete s)"

definition inv :: "sender \<Rightarrow> bool" where
  "inv s \<longleftrightarrow> static_ok s \<and> pool_ok s \<and> counts_ok s \<and> stats_ok s \<and> report_ok s \<and> schedule_ok s \<and> phase_ok s"

lemma planned_upto_cong:
  assumes "config s' = config s" "timeline s' = timeline s" "second_request_offsets s' = second_request_offsets s"
  shows "planned_upto s' i = planned_upto s i" "assigned_request_count s' k = assigned_request_count s k"
    "handled s' i js = handled s i js"
  using assms by (simp_all add: planned_upto_def assigned_request_count_def handled_def)

end
