(* ===== verification/SenderRuns.thy ===== *)
theory SenderRuns
  imports SenderSafety
begin

text \<open>
  The invariant holds in every state a run of the load sender reaches, whatever the interleaving,
  the responses, the signals and the clock; and the properties that follow.
\<close>

section \<open>Preservation\<close>

lemma inv_good: "inv s \<Longrightarrow> sched s \<noteq> Finished \<Longrightarrow> good s"
  by (simp add: inv_def good_def)

lemma good_inv: "good s \<Longrightarrow> schedule_ok s \<Longrightarrow> phase_ok s \<Longrightarrow> inv s"
  by (simp add: inv_def good_def)

lemma static_ok_place [simp]:
  "static_ok (s\<lparr>sched := pc\<rparr>) = static_ok s"
  "static_ok (s\<lparr>dispatched_seconds := d\<rparr>) = static_ok s"
  "static_ok (s\<lparr>last_flush_monotonic := c\<rparr>) = static_ok s"
  "static_ok (s\<lparr>stop_requested := b\<rparr>) = static_ok s"
  "static_ok (s\<lparr>progress_on := p\<rparr>) = static_ok s"
  "static_ok (s\<lparr>ended := n\<rparr>) = static_ok s"
  "static_ok (s\<lparr>backlog_at := bp\<rparr>) = static_ok s"
  "static_ok (s\<lparr>backlog_available := b\<rparr>) = static_ok s"
  "static_ok (s\<lparr>scheduling_complete := b\<rparr>) = static_ok s"
  "static_ok (s\<lparr>heartbeat := h\<rparr>) = static_ok s"
  "static_ok (s\<lparr>incident_writer := iw\<rparr>) = static_ok s"
  by (simp_all add: static_ok_def)

lemma pool_ok_place [simp]:
  "pool_ok (s\<lparr>sched := pc\<rparr>) = pool_ok s"
  "pool_ok (s\<lparr>dispatched_seconds := d\<rparr>) = pool_ok s"
  "pool_ok (s\<lparr>last_flush_monotonic := c\<rparr>) = pool_ok s"
  "pool_ok (s\<lparr>stop_requested := b\<rparr>) = pool_ok s"
  "pool_ok (s\<lparr>progress_on := p\<rparr>) = pool_ok s"
  "pool_ok (s\<lparr>ended := n\<rparr>) = pool_ok s"
  "pool_ok (s\<lparr>backlog_at := bp\<rparr>) = pool_ok s"
  "pool_ok (s\<lparr>backlog_available := b\<rparr>) = pool_ok s"
  "pool_ok (s\<lparr>scheduling_complete := b\<rparr>) = pool_ok s"
  "pool_ok (s\<lparr>heartbeat := h\<rparr>) = pool_ok s"
  "pool_ok (s\<lparr>incident_writer := iw\<rparr>) = pool_ok s"
  by (simp_all add: pool_ok_def)

lemma counts_ok_place [simp]:
  "counts_ok (s\<lparr>sched := pc\<rparr>) = counts_ok s"
  "counts_ok (s\<lparr>dispatched_seconds := d\<rparr>) = counts_ok s"
  "counts_ok (s\<lparr>last_flush_monotonic := c\<rparr>) = counts_ok s"
  "counts_ok (s\<lparr>stop_requested := b\<rparr>) = counts_ok s"
  "counts_ok (s\<lparr>progress_on := p\<rparr>) = counts_ok s"
  "counts_ok (s\<lparr>ended := n\<rparr>) = counts_ok s"
  "counts_ok (s\<lparr>backlog_at := bp\<rparr>) = counts_ok s"
  "counts_ok (s\<lparr>backlog_available := b\<rparr>) = counts_ok s"
  "counts_ok (s\<lparr>scheduling_complete := b\<rparr>) = counts_ok s"
  "counts_ok (s\<lparr>heartbeat := h\<rparr>) = counts_ok s"
  "counts_ok (s\<lparr>incident_writer := iw\<rparr>) = counts_ok s"
  by (simp_all add: counts_ok_def)

lemma stats_ok_place [simp]:
  "stats_ok (s\<lparr>sched := pc\<rparr>) = stats_ok s"
  "stats_ok (s\<lparr>dispatched_seconds := d\<rparr>) = stats_ok s"
  "stats_ok (s\<lparr>last_flush_monotonic := c\<rparr>) = stats_ok s"
  "stats_ok (s\<lparr>stop_requested := b\<rparr>) = stats_ok s"
  "stats_ok (s\<lparr>progress_on := p\<rparr>) = stats_ok s"
  "stats_ok (s\<lparr>ended := n\<rparr>) = stats_ok s"
  "stats_ok (s\<lparr>backlog_at := bp\<rparr>) = stats_ok s"
  "stats_ok (s\<lparr>backlog_available := b\<rparr>) = stats_ok s"
  "stats_ok (s\<lparr>scheduling_complete := b\<rparr>) = stats_ok s"
  "stats_ok (s\<lparr>heartbeat := h\<rparr>) = stats_ok s"
  "stats_ok (s\<lparr>incident_writer := iw\<rparr>) = stats_ok s"
  by (simp_all add: stats_ok_def)

lemma report_ok_place [simp]:
  "sched s \<noteq> Finished \<Longrightarrow> pc \<noteq> Finished \<Longrightarrow> report_ok (s\<lparr>sched := pc\<rparr>) = report_ok s"
  "report_ok (s\<lparr>dispatched_seconds := d\<rparr>) = report_ok s"
  "report_ok (s\<lparr>last_flush_monotonic := c\<rparr>) = report_ok s"
  "report_ok (s\<lparr>stop_requested := b\<rparr>) = report_ok s"
  "report_ok (s\<lparr>progress_on := p\<rparr>) = report_ok s"
  "report_ok (s\<lparr>ended := n\<rparr>) = report_ok s"
  "report_ok (s\<lparr>backlog_at := bp\<rparr>) = report_ok s"
  "report_ok (s\<lparr>backlog_available := b\<rparr>) = report_ok s"
  "report_ok (s\<lparr>scheduling_complete := b\<rparr>) = report_ok s"
  "report_ok (s\<lparr>heartbeat := h\<rparr>) = report_ok s"
  "report_ok (s\<lparr>incident_writer := iw\<rparr>) = report_ok s"
  by (simp_all add: report_ok_def)

lemma good_place:
  "good s \<Longrightarrow> pc \<noteq> Finished \<Longrightarrow> good (s\<lparr>sched := pc\<rparr>)"
  "good s \<Longrightarrow> good (s\<lparr>dispatched_seconds := d\<rparr>)"
  "good s \<Longrightarrow> good (s\<lparr>last_flush_monotonic := c\<rparr>)"
  "good s \<Longrightarrow> good (s\<lparr>stop_requested := b\<rparr>)"
  "good s \<Longrightarrow> good (s\<lparr>progress_on := p\<rparr>)"
  "good s \<Longrightarrow> good (s\<lparr>ended := n\<rparr>)"
  "good s \<Longrightarrow> good (s\<lparr>backlog_at := bp\<rparr>)"
  "good s \<Longrightarrow> good (s\<lparr>backlog_available := b\<rparr>)"
  "good s \<Longrightarrow> good (s\<lparr>scheduling_complete := b\<rparr>)"
  "good s \<Longrightarrow> good (s\<lparr>heartbeat := h\<rparr>)"
  "good s \<Longrightarrow> good (s\<lparr>incident_writer := iw\<rparr>)"
  by (simp_all add: good_def)

lemma schedule_frame:
  assumes "frame s s'" "scheduled_requests s' = scheduled_requests s" "schedule_ok s"
  shows "schedule_ok s'"
proof -
  have f: "config s' = config s" "timeline s' = timeline s" "second_request_offsets s' = second_request_offsets s"
    "sched s' = sched s" "dispatched_seconds s' = dispatched_seconds s" "stop_requested s' = stop_requested s"
    "planned_requests_so_far s' = planned_requests_so_far s"
    using assms(1) by (simp_all add: frame_def)
  show ?thesis
    using assms(2,3) planned_upto_cong [OF f(1-3)]
    by (simp add: schedule_ok_def f split: sched_pc.splits)
qed

lemma schedule_wall [simp]: "schedule_ok (s\<lparr>wall := t\<rparr>) = schedule_ok s"
  by (simp add: schedule_ok_def planned_upto_cong [of "s\<lparr>wall := t\<rparr>" s] split: sched_pc.split)

lemma work_inv:
  assumes "inv s" "good s'" "frame (s\<lparr>wall := now\<rparr>) s'" "scheduled_requests s' = scheduled_requests s"
    and "backlog_at s' = LoopDone \<longrightarrow> scheduling_complete s' \<and> backlog_queue s' = []"
  shows "inv s'"
proof -
  have "schedule_ok s'" using schedule_frame [OF assms(3)] assms(1,4) by (simp add: inv_def)
  moreover have "phase_ok s'" using assms by (auto simp: inv_def phase_ok_def frame_def good_def)
  ultimately show ?thesis using assms(2) good_inv by blast
qed

lemma end_second_inv:
  assumes "good s" "phase_ok s" "clock_ok s now" "i < length (timeline s)" "\<not> scheduling_complete s"
    and "planned_requests_so_far s = planned_upto s (Suc i)" "scheduled_requests s = planned_upto s (Suc i)"
  shows "inv (end_second i now clk s)"
proof -
  let ?u = "s\<lparr>wall := now\<rparr>" and ?e = "end_second i now clk s"
  have g: "good ?u" using good_wall [OF assms(1,3)] .
  have k: "kept ?u (flush_all False now ?u)" using flush_ok [OF g] by simp
  have e: "?e = (if fsub clk (last_flush_monotonic s) < of_int (request_log_flush_interval_sec (config s)) then ?u
      else (flush_all False now ?u)\<lparr>last_flush_monotonic := clk\<rparr>)\<lparr>dispatched_seconds := i + 1, sched := AtSecond (i + 1)\<rparr>"
    by (simp add: end_second_def flush_request_report_if_due_def)
  have "good (flush_all False now ?u)" using kept_good [OF g k] by simp
  with g have "good ?e" unfolding e by (simp add: good_place)
  moreover have "schedule_ok ?e"
    using assms(4,6,7) planned_upto_cong [of ?e s] unfolding e
    by (auto simp: schedule_ok_def flush_all_def)
  moreover have "phase_ok ?e" using assms(2,5) unfolding e by (auto simp: phase_ok_def flush_all_def)
  ultimately show ?thesis by (rule good_inv)
qed

lemma second_inv:
  assumes "inv s" "sched s = AtSecond i" "i < length (timeline s)"
    and "length rds = nat (requests (timeline s ! i))" "readings_ok s rds now"
  shows "\<exists>s'. dispatch_second i rds now clk s = Inr s' \<and> inv s'"
proof -
  have g: "good s" using assms(1,2) by (simp add: inv_good)
  have sc: "schedule_ok s" "phase_ok s" using assms(1) by (simp_all add: inv_def)
  then have nc: "\<not> scheduling_complete s" using assms(2) by (simp add: phase_ok_def)
  have at: "planned_requests_so_far s = planned_upto s i" "scheduled_requests s = planned_upto s i" "dispatched_seconds s = i"
    using sc(1) assms(2) by (simp_all add: schedule_ok_def)
  obtain u where u: "plan_second i s = Inr u" "good u" "u = s\<lparr>statistics_writer := statistics_writer u,
      planned_requests_so_far := planned_requests_so_far s + assigned_request_count s i\<rparr>"
    using plan_ok [OF g assms(3)] by blast
  obtain w where uw: "u = s\<lparr>statistics_writer := w,
      planned_requests_so_far := planned_requests_so_far s + assigned_request_count s i\<rparr>"
    using u(3) by blast
  have same: "config u = config s" "timeline u = timeline s" "second_request_offsets u = second_request_offsets s"
    by (simp_all add: uw)
  note cong = planned_upto_cong [OF same]
  have up: "planned_upto s (Suc i) = planned_upto s i + assigned_request_count s i" by (simp add: planned_upto_def)
  have plan: "planned_requests_so_far u = planned_upto u (Suc i)" unfolding cong up by (simp add: uw at(1))
  have "readings_ok u rds now" using assms(5) by (simp add: readings_ok_def uw)
  have phase: "phase_ok u" "\<not> scheduling_complete u" using sc(2) nc by (simp_all add: uw phase_ok_def)
  consider (none) "requests (timeline s ! i) \<le> 0"
    | (burst) "0 < requests (timeline s ! i)" "dispatch_mode (config s) = ''burst'' \<or> requests (timeline s ! i) = 1"
    | (spread) "0 < requests (timeline s ! i)" "\<not> (dispatch_mode (config s) = ''burst'' \<or> requests (timeline s ! i) = 1)"
    by linarith
  then show ?thesis
  proof cases
    case none
    let ?e = "u\<lparr>dispatched_seconds := i + 1, sched := AtSecond (i + 1)\<rparr>"
    have zero: "assigned_request_count s i = 0" using none by (simp add: assigned_handled)
    have "good ?e" using u(2) by (simp add: good_place)
    moreover have "schedule_ok ?e"
      using assms(3) plan at up zero cong planned_upto_cong [of ?e u] by (simp add: schedule_ok_def uw)
    moreover have "phase_ok ?e" using phase by (simp add: phase_ok_def)
    ultimately show ?thesis using none u(1) good_inv by (simp add: dispatch_second_def same)
  next
    case burst
    have "\<exists>v. fold_res (dispatch_request i) (zip [0..<0 + length rds] rds) u = Inr v \<and> good v
      \<and> frame (u\<lparr>wall := wall v\<rparr>) v \<and> wall v \<le> now
      \<and> scheduled_requests v = scheduled_requests u + handled u i [0..<0 + length rds]
      \<and> backlog_at v = backlog_at u"
      using burst assms(3,4) same \<open>readings_ok u rds now\<close> by (intro burst_ok u(2)) simp_all
    then obtain v where v: "dispatch_burst i rds u = Inr v" "good v" "frame (u\<lparr>wall := wall v\<rparr>) v" "wall v \<le> now"
      "scheduled_requests v = scheduled_requests u + assigned_request_count u i" "backlog_at v = backlog_at u"
      using assms(4) same by (auto simp: dispatch_burst_def assigned_handled)
    have fv: "config v = config u" "timeline v = timeline u" "second_request_offsets v = second_request_offsets u"
      "scheduling_complete v = scheduling_complete u" "sched v = sched u" "progress_on v = progress_on u"
      "planned_requests_so_far v = planned_requests_so_far u"
      using v(3) by (simp_all add: frame_def)
    have "phase_ok v" using phase fv v(6) by (auto simp: phase_ok_def uw assms(2))
    moreover have "clock_ok v now" using v(4) assms(5) by (simp add: clock_ok_def readings_ok_def)
    moreover have "scheduled_requests v = planned_upto v (Suc i)"
      unfolding planned_upto_cong [OF fv(1-3)] cong up v(5) by (simp add: uw at(2))
    moreover have "planned_requests_so_far v = planned_upto v (Suc i)"
      unfolding planned_upto_cong [OF fv(1-3)] fv(7) by (rule plan)
    ultimately have "inv (end_second i now clk v)"
      using v(2) fv phase(2) same assms(3) by (intro end_second_inv) simp_all
    then show ?thesis using burst u(1) v(1) by (simp add: dispatch_second_def same)
  next
    case spread
    let ?e = "u\<lparr>sched := InSecond i 0\<rparr>"
    have "good ?e" using u(2) by (simp add: good_place)
    moreover have "schedule_ok ?e"
      using assms(3) plan at cong planned_upto_cong [of ?e u] spread(1) by (simp add: schedule_ok_def uw)
    moreover have "phase_ok ?e" using phase by (simp add: phase_ok_def)
    ultimately show ?thesis using spread u(1) good_inv by (simp add: dispatch_second_def same)
  qed
qed

lemma schedule_place [simp]:
  "schedule_ok (s\<lparr>ended := n\<rparr>) = schedule_ok s" "schedule_ok (s\<lparr>backlog_at := bp\<rparr>) = schedule_ok s"
  "schedule_ok (s\<lparr>progress_on := p\<rparr>) = schedule_ok s" "schedule_ok (s\<lparr>heartbeat := h\<rparr>) = schedule_ok s"
  "schedule_ok (s\<lparr>incident_writer := iw\<rparr>) = schedule_ok s"
  by (simp_all add: schedule_ok_def planned_upto_def assigned_request_count_def handled_def split: sched_pc.split)

lemma drain_inv:
  assumes "inv s" "sched s = AtSecond i" "length (timeline s) \<le> i \<or> stop_requested s"
  shows "inv (begin_drain s)"
proof -
  have "good (begin_drain s)" using inv_good [OF assms(1)] assms(2) by (simp add: begin_drain_def good_place)
  moreover have "schedule_ok (begin_drain s)"
    using assms planned_upto_cong [of "begin_drain s" s]
    by (auto simp: inv_def schedule_ok_def begin_drain_def)
  moreover have "phase_ok (begin_drain s)" using assms(1,2) by (simp add: inv_def phase_ok_def begin_drain_def)
  ultimately show ?thesis by (rule good_inv)
qed

lemma spread_inv:
  assumes "inv s" "sched s = InSecond i j" "int j < requests (timeline s ! i)" "clock_ok s now"
  shows "\<exists>s'. dispatch_request i (j, now, clk) (s\<lparr>sched := InSecond i (Suc j)\<rparr>) = Inr s' \<and> inv s'"
proof -
  let ?u = "s\<lparr>sched := InSecond i (Suc j)\<rparr>"
  have sc: "schedule_ok s" "phase_ok s" using assms(1) by (simp_all add: inv_def)
  have g: "good ?u" using inv_good [OF assms(1)] assms(2) by (simp add: good_place)
  have i: "i < length (timeline s)" using sc(1) assms(2) by (simp add: schedule_ok_def)
  have "clock_ok ?u now" using assms(4) by (simp add: clock_ok_def)
  then obtain s' where s': "dispatch_request i (j, now, clk) ?u = Inr s'" "good s'" "frame (?u\<lparr>wall := wall s'\<rparr>) s'"
    "scheduled_requests s' = scheduled_requests s + handled s i [j]" "backlog_at s' = backlog_at s"
    using dispatch_ok [OF g, of i j now clk] i assms(3) by auto
  have f: "config s' = config s" "timeline s' = timeline s" "second_request_offsets s' = second_request_offsets s"
    "sched s' = InSecond i (Suc j)" "dispatched_seconds s' = dispatched_seconds s" "scheduling_complete s' = scheduling_complete s"
    "planned_requests_so_far s' = planned_requests_so_far s" "progress_on s' = progress_on s"
    using s'(3) by (simp_all add: frame_def)
  have "schedule_ok s'"
    using sc(1) assms(2,3) i planned_upto_cong [OF f(1-3)] s'(4)
    by (simp add: schedule_ok_def f)
  moreover have "phase_ok s'" using sc(2) assms(2) s'(5) by (auto simp: phase_ok_def f)
  ultimately show ?thesis using s' good_inv by blast
qed

lemma spread_done_inv:
  assumes "inv s" "sched s = InSecond i j" "requests (timeline s ! i) \<le> int j" "clock_ok s now"
  shows "inv (end_second i now clk s)"
proof -
  have sc: "schedule_ok s" "phase_ok s" "good s" using assms(1,2) inv_good by (simp_all add: inv_def)
  have at: "i < length (timeline s)" "int j \<le> requests (timeline s ! i)"
    "planned_requests_so_far s = planned_upto s (Suc i)" "scheduled_requests s = planned_upto s i + handled s i [0..<j]"
    using sc(1) assms(2) by (simp_all add: schedule_ok_def)
  then have "nat (requests (timeline s ! i)) = j" using assms(3) by simp
  then have "scheduled_requests s = planned_upto s (Suc i)"
    using at(4) by (simp add: planned_upto_def assigned_handled)
  then show ?thesis
    using sc at assms(2,4) by (intro end_second_inv) (auto simp: phase_ok_def)
qed

lemma wall_inv: "inv s \<Longrightarrow> sched s \<noteq> Finished \<Longrightarrow> clock_ok s now \<Longrightarrow> inv (s\<lparr>wall := now\<rparr>)"
  using good_wall [of s now] inv_good [of s] by (intro good_inv) (auto simp: inv_def phase_ok_def)

lemma flush_inv:
  assumes "inv s" "sched s \<noteq> Finished"
  shows "inv (flush_all False (wall s) s)"
proof -
  have k: "kept s (flush_all False (wall s) s)" using flush_ok inv_good assms by blast
  then have g: "good (flush_all False (wall s) s)" "frame s (flush_all False (wall s) s)"
    using kept_good inv_good assms by blast+
  then have "schedule_ok (flush_all False (wall s) s)"
    using assms(1) by (intro schedule_frame [OF g(2)]) (simp_all add: inv_def, simp add: flush_all_def)
  moreover have "phase_ok (flush_all False (wall s) s)" using assms(1) by (auto simp: inv_def phase_ok_def flush_all_def)
  ultimately show ?thesis using g good_inv by blast
qed

lemma progress_inv:
  assumes "inv s" "progress_on s" "clock_ok s now"
  shows "inv (progress_tick now (s\<lparr>wall := now\<rparr>))"
proof -
  have nf: "sched s \<noteq> Finished" "\<not> scheduling_complete s" using assms(1,2) by (auto simp: inv_def phase_ok_def)
  have "inv (s\<lparr>wall := now\<rparr>)" using wall_inv nf assms by blast
  then have f: "inv (flush_all False now (s\<lparr>wall := now\<rparr>))" using flush_inv [of "s\<lparr>wall := now\<rparr>"] nf by simp
  obtain h where h: "progress_tick now (s\<lparr>wall := now\<rparr>) =
      flush_all False now (s\<lparr>wall := now\<rparr>) \<lparr>heartbeat := h, progress_on := \<not> stop_requested s\<rparr>"
  proof (cases "heartbeat_path (config s)")
    case None
    then show thesis
      by (intro that [of "heartbeat s"]) (simp add: progress_tick_def write_heartbeat_def flush_all_def)
  next
    case (Some p)
    then show thesis
      by (intro that [of "Some (heartbeat_payload (flush_all False now (s\<lparr>wall := now\<rparr>)))"])
        (simp add: progress_tick_def write_heartbeat_def flush_all_def)
  qed
  show ?thesis
    using f nf unfolding h by (simp add: inv_def phase_ok_def) (simp add: flush_all_def)
qed

lemma finish_inv:
  assumes "inv s" "sched s = Draining" "backlog_at s = LoopDone" "running s = []" "ended s = 0" "clock_ok s now"
  shows "inv (finish_run now (s\<lparr>wall := now\<rparr>))"
proof -
  let ?u = "s\<lparr>wall := now\<rparr>"
  have u: "inv ?u" using wall_inv assms by simp
  have flush: "finish_run now ?u = (flush_all True now ?u)
      \<lparr>heartbeat := heartbeat (finish_run now ?u), sched := Finished\<rparr>"
    by (simp add: finish_run_def write_heartbeat_def flush_all_def split: option.split)
  have "rr_holds (sec now) (starts s) (report_writer s)" "int (length (starts s)) = started_requests s"
    using u assms(2) by (simp_all add: inv_def report_ok_def)
  then have "rr_complete (starts s) (rr_file (rr_flush_closed True now (report_writer s)))"
    by (intro rr_finish_complete)
  then have "report_ok (finish_run now ?u)"
    using \<open>int (length (starts s)) = started_requests s\<close> by (subst flush) (simp add: report_ok_def flush_all_def)
  moreover have "static_ok (finish_run now ?u)" "pool_ok (finish_run now ?u)" "counts_ok (finish_run now ?u)"
    using u by (subst flush; simp add: inv_def static_ok_def pool_ok_def counts_ok_def flush_all_def)+
  moreover have "stats_ok (finish_run now ?u)"
    using u by (subst flush) (simp add: inv_def stats_ok_def flush_all_def Let_def st_flush_total)
  moreover have "schedule_ok (finish_run now ?u)"
    using u assms(2) planned_upto_cong [of "finish_run now ?u" ?u]
    by (subst flush) (simp add: inv_def schedule_ok_def flush_all_def planned_upto_def assigned_request_count_def)
  moreover have "phase_ok (finish_run now ?u)"
    using u assms by (subst flush) (simp add: inv_def phase_ok_def flush_all_def)
  ultimately show ?thesis by (simp add: inv_def)
qed

lemma incident_inv:
  assumes "inv s"
  shows "inv (record_loop_incident_if_relevant exc message now s)"
proof -
  obtain w where "record_loop_incident_if_relevant exc message now s = s\<lparr>incident_writer := w\<rparr>"
  proof (cases "record_loop_incident_if_relevant exc message now s = s")
    case True
    then show thesis by (intro that [of "incident_writer s"]) simp
  next
    case False
    then show thesis by (auto simp: record_loop_incident_if_relevant_def Let_def intro: that split: if_splits)
  qed
  then show ?thesis using assms by (auto simp: inv_def phase_ok_def)
qed

lemma own_attempt_inv:
  assumes "own_attempt s r" "inv s"
  shows "\<exists>s'. r = Inr s' \<and> inv s'"
  using assms
proof (cases rule: own_attempt.cases)
  case (backlog now clk clk')
  have g: "good (s\<lparr>wall := now\<rparr>)" using inv_good [OF assms(2) backlog(3)] backlog(4) by (rule good_wall)
  from pass_ok [OF g, of clk clk'] backlog(2) obtain s' where s': "r = Inr s'" "good s'" "frame (s\<lparr>wall := now\<rparr>) s'"
    "scheduled_requests s' = scheduled_requests s"
    "backlog_at s' = LoopDone \<longrightarrow> scheduling_complete s' \<and> backlog_queue s' = []"
    using backlog(1) by auto
  then show ?thesis using work_inv [OF assms(2) s'(2,3)] by blast
next
  case (token now clk)
  have nf: "sched s \<noteq> Finished" using assms(2) token(2) by (auto simp: inv_def phase_ok_def)
  have g: "good (s\<lparr>wall := now\<rparr>)" using inv_good [OF assms(2) nf] token(4) by (rule good_wall)
  from take_ok [OF g, of clk] token(3) obtain s' where s': "r = Inr s'" "good s'" "frame (s\<lparr>wall := now\<rparr>) s'"
    "scheduled_requests s' = scheduled_requests s" "backlog_at s' = LoopTop"
    using token(1) by auto
  then show ?thesis using work_inv [OF assms(2) s'(2,3)] by simp
next
  case (request k now result)
  have nf: "sched s \<noteq> Finished" using assms(2) request(2) by (auto simp: inv_def phase_ok_def)
  have g: "good (s\<lparr>wall := now\<rparr>)" using inv_good [OF assms(2) nf] request(3) by (rule good_wall)
  from execute_ok [OF g, of k result] request(2) obtain s' where s': "r = Inr s'" "good s'" "frame (s\<lparr>wall := now\<rparr>) s'"
    "scheduled_requests s' = scheduled_requests s" "backlog_at s' = backlog_at s" "backlog_queue s' = backlog_queue s"
    using request(1) by auto
  moreover have "scheduling_complete s' = scheduling_complete s" using s'(3) by (simp add: frame_def)
  moreover have "backlog_at s = LoopDone \<longrightarrow> scheduling_complete s \<and> backlog_queue s = []"
    using assms(2) by (auto simp add: inv_def phase_ok_def)
  ultimately show ?thesis using work_inv [OF assms(2) s'(2,3)] by simp
next
  case event
  then show ?thesis using assms(2) by (auto simp: inv_def phase_ok_def)
next
  case callback
  then show ?thesis using assms(2) by (auto simp: inv_def phase_ok_def)
next
  case (timeline_done i)
  then show ?thesis using drain_inv [OF assms(2)] by simp
next
  case (second i rds now clk)
  then show ?thesis using second_inv [OF assms(2) second(2,3,5,6)] by simp
next
  case (spread i j now clk)
  then show ?thesis using spread_inv [OF assms(2) spread(2,3,4)] by simp
next
  case (spread_done i j now clk)
  then show ?thesis using spread_done_inv [OF assms(2) spread_done(2,3,4)] by simp
next
  case (progress now)
  then show ?thesis using progress_inv [OF assms(2)] by simp
next
  case (finish now)
  then show ?thesis using finish_inv [OF assms(2)] by simp
qed

lemma attempt_inv:
  assumes "attempt s r" "inv s"
  shows "\<exists>s'. r = Inr s' \<and> inv s'"
  using assms
proof (cases rule: attempt.cases)
  case own
  then show ?thesis using own_attempt_inv assms(2) by blast
next
  case signal
  have "schedule_ok (s\<lparr>stop_requested := True\<rparr>)"
    using assms(2) planned_upto_cong [of "s\<lparr>stop_requested := True\<rparr>" s]
    by (simp add: inv_def schedule_ok_def split: sched_pc.splits)
  then show ?thesis using signal assms(2) by (auto simp: inv_def phase_ok_def)
next
  case (loop_error now exc message)
  then show ?thesis using wall_inv incident_inv assms(2) by blast
qed

lemma initial_inv:
  assumes "initial s"
  shows "inv s"
proof -
  obtain cfg wl pts t0 where s: "s = init_sender cfg wl pts t0" "valid_config cfg"
    "\<forall>p \<in> set pts. well_formed_point (length (request_classes wl)) p"
    "in_range t0" "in_range (whole_second t0 + int (length pts) * us_per_s)"
    using assms by (auto simp: initial_def)
  have "rr_holds (sec t0) [] \<lparr>rr_counts = [], rr_flushed = {}, rr_file = [[''second'', ''url'', ''count'']]\<rparr>"
    using sec_in_range [OF s(4)] unfolding rr_holds_def
    by (intro conjI exI [of _ "[]"]) (simp_all add: tally_def)
  then show ?thesis using s
    by (simp add: inv_def init_sender_def static_ok_def pool_ok_def counts_ok_def stats_ok_def report_ok_def
        schedule_ok_def phase_ok_def st_reset_total planned_upto_def valid_config_def Let_def)
qed

lemma steps_inv:
  assumes "initial s" "steps s t"
  shows "inv t"
  using assms(2)
proof (induction rule: rtranclp_induct)
  case base
  show ?case using initial_inv [OF assms(1)] .
next
  case (step t u)
  then show ?case using attempt_inv by (fastforce simp: step_def)
qed

end
