(* ===== verification/SenderProps.thy ===== *)
theory SenderProps
  imports SenderRuns
begin

text \<open>
  What the invariant says of every run of the load sender, and that every run can come to its end.
\<close>

section \<open>A run can always end\<close>

lemma clock_wall: "inv s \<Longrightarrow> clock_ok s (wall s)"
  by (simp add: inv_def static_ok_def clock_ok_def)

lemma own_step_inv: "inv s \<Longrightarrow> own_attempt s r \<Longrightarrow> \<exists>s'. r = Inr s' \<and> own_step s s' \<and> inv s'"
  using own_attempt_inv by (fastforce simp: own_step_def)

lemma finish_second:
  assumes "inv s" "sched s = InSecond i j"
  shows "\<exists>t. own_steps s t \<and> inv t \<and> sched t = AtSecond (Suc i) \<and> timeline t = timeline s"
  using assms
proof (induction "nat (requests (timeline s ! i)) - j" arbitrary: s j rule: less_induct)
  case less
  show ?case
  proof (cases "int j < requests (timeline s ! i)")
    case False
    then have "own_attempt s (Inr (end_second i (wall s) 0 s))"
      using less.prems clock_wall by (intro own_attempt.spread_done) auto
    then have "own_step s (end_second i (wall s) 0 s)" "inv (end_second i (wall s) 0 s)"
      using own_attempt_inv less.prems(1) by (auto simp: own_step_def)
    moreover have "sched (end_second i (wall s) 0 s) = AtSecond (Suc i)" "timeline (end_second i (wall s) 0 s) = timeline s"
      by (simp_all add: end_second_def flush_request_report_if_due_def flush_all_def)
    ultimately show ?thesis by blast
  next
    case True
    have a: "own_attempt s (dispatch_request i (j, wall s, 0) (s\<lparr>sched := InSecond i (Suc j)\<rparr>))"
      using less.prems True clock_wall by (intro own_attempt.spread) auto
    have nf: "good (s\<lparr>sched := InSecond i (Suc j)\<rparr>)" using inv_good [of s] less.prems by (simp add: good_place)
    have i: "i < length (timeline s)" using less.prems by (simp add: inv_def schedule_ok_def)
    have "clock_ok (s\<lparr>sched := InSecond i (Suc j)\<rparr>) (wall s)" using clock_wall less.prems(1) by (simp add: clock_ok_def)
    from dispatch_ok [OF nf _ _ this, of i j 0] True i obtain u where
      u: "dispatch_request i (j, wall s, 0) (s\<lparr>sched := InSecond i (Suc j)\<rparr>) = Inr u"
      "frame (s\<lparr>sched := InSecond i (Suc j), wall := wall u\<rparr>) u" by auto
    then have "own_step s u" "inv u" using a own_attempt_inv [OF a] less.prems(1) by (auto simp: own_step_def)
    moreover have "sched u = InSecond i (Suc j)" "timeline u = timeline s" using u(2) by (simp_all add: frame_def)
    moreover have "nat (requests (timeline s ! i)) - Suc j < nat (requests (timeline s ! i)) - j" using True by simp
    ultimately obtain t where "own_steps u t" "inv t" "sched t = AtSecond (Suc i)" "timeline t = timeline u"
      using less.hyps [of u "Suc j"] by auto
    then show ?thesis using \<open>own_step s u\<close> \<open>timeline u = timeline s\<close>
      by (metis converse_rtranclp_into_rtranclp)
  qed
qed

lemma next_second:
  assumes "inv s" "sched s = AtSecond i" "i < length (timeline s)" "\<not> stop_requested s"
  shows "\<exists>t. own_steps s t \<and> inv t \<and> sched t = AtSecond (Suc i) \<and> timeline t = timeline s"
proof -
  let ?rds = "replicate (nat (requests (timeline s ! i))) (wall s, 0)"
  have r: "readings_ok s ?rds (wall s)"
    using assms(1) by (auto simp: readings_ok_def inv_def static_ok_def sorted_append)
  have a: "own_attempt s (dispatch_second i ?rds (wall s) 0 s)"
    using assms r by (intro own_attempt.second) simp_all
  obtain u where u: "dispatch_second i ?rds (wall s) 0 s = Inr u" "own_step s u" "inv u"
    using own_step_inv [OF assms(1) a] by auto
  have g: "good s" using inv_good assms by simp
  obtain p where p: "plan_second i s = Inr p" "good p" "p = s\<lparr>statistics_writer := statistics_writer p,
      planned_requests_so_far := planned_requests_so_far s + assigned_request_count s i\<rparr>"
    using plan_ok [OF g assms(3)] by blast
  have tl: "timeline p = timeline s" "config p = config s" by (subst p(3), simp)+
  have "timeline u = timeline s \<and> (sched u = AtSecond (Suc i) \<or> sched u = InSecond i 0)"
  proof (cases "requests (timeline s ! i) \<le> 0 \<or> \<not> (dispatch_mode (config s) = ''burst'' \<or> requests (timeline s ! i) = 1)")
    case True
    then show ?thesis using u(1) by (auto simp: dispatch_second_def p(1) tl Let_def split: if_splits)
  next
    case False
    then obtain v where v: "dispatch_burst i ?rds p = Inr v" "u = end_second i (wall s) 0 v"
      using u(1) by (auto simp: dispatch_second_def p(1) tl Let_def res_bind_Inr_iff)
    have "readings_ok p ?rds (wall s)" using r by (subst p(3)) (simp add: readings_ok_def)
    then obtain v' where v': "fold_res (dispatch_request i) (zip [0..<0 + length ?rds] ?rds) p = Inr v'"
      "frame (p\<lparr>wall := wall v'\<rparr>) v'"
      using burst_ok [OF p(2), of i 0 ?rds "wall s"] assms(3) False tl by auto
    then have "v' = v" using v(1) by (simp add: dispatch_burst_def tl)
    with v' have "timeline v = timeline p" by (simp add: frame_def)
    then show ?thesis by (simp add: v(2) end_second_def flush_request_report_if_due_def flush_all_def tl)
  qed
  then show ?thesis
  proof (elim conjE disjE)
    assume "timeline u = timeline s" "sched u = AtSecond (Suc i)"
    with u show ?thesis by blast
  next
    assume tu: "timeline u = timeline s" "sched u = InSecond i 0"
    then obtain t where "own_steps u t" "inv t" "sched t = AtSecond (Suc i)" "timeline t = timeline u"
      using finish_second [OF u(3)] by blast
    with u(2) tu show ?thesis by (metis converse_rtranclp_into_rtranclp)
  qed
qed

lemma reach_draining:
  assumes "inv s" "sched s = AtSecond i"
  shows "\<exists>t. own_steps s t \<and> inv t \<and> sched t = Draining"
  using assms
proof (induction "length (timeline s) - i" arbitrary: s i rule: less_induct)
  case less
  show ?case
  proof (cases "length (timeline s) \<le> i \<or> stop_requested s")
    case True
    then have "own_attempt s (Inr (begin_drain s))" using less.prems by (intro own_attempt.timeline_done) auto
    with own_step_inv [OF less.prems(1) this] have "own_step s (begin_drain s)" "inv (begin_drain s)" by auto
    then show ?thesis by (intro exI [of _ "begin_drain s"]) (auto simp: begin_drain_def)
  next
    case False
    then obtain u where u: "own_steps s u" "inv u" "sched u = AtSecond (Suc i)" "timeline u = timeline s"
      using next_second less.prems by (metis not_le)
    moreover have "length (timeline s) - Suc i < length (timeline s) - i" using False by (auto intro: diff_less_mono2)
    ultimately obtain t where "own_steps u t" "inv t" "sched t = Draining" using less.hyps [of u "Suc i"] by auto
    with u(1) show ?thesis by (meson rtranclp_trans)
  qed
qed

text \<open>While draining, something is left to do and each such step brings the end nearer.\<close>

definition drain_rank :: "sender \<Rightarrow> nat" where
  "drain_rank s = 4 * length (backlog_queue s) + 2 * length (running s) + ended s
     + (case backlog_at s of LoopDone \<Rightarrow> 0 | LoopTop \<Rightarrow> 1 | _ \<Rightarrow> 2)"

lemma take_rank:
  assumes "good s" "0 < tokens s" "backlog_take (wall s) clk s = Inr s'" "backlog_at s \<noteq> LoopDone"
  shows "drain_rank s' < drain_rank s \<or> backlog_queue s = [] \<and> backlog_at s = LoopTop"
proof (cases "backlog_queue s")
  case Nil
  then show ?thesis
    using assms by (auto simp: op_defs drain_rank_def split: if_splits backlog_pc.splits)
next
  case (Cons item rest)
  have max: "tokens s \<le> max_inflight (config s)" using assms(1) by (simp add: good_def pool_ok_def)
  show ?thesis
    using assms Cons max good_range [OF assms(1)]
    by (cases "is_backlog_item_expired s clk item")
      (auto simp: op_defs is_backlog_item_expired_def drain_rank_def split: backlog_pc.splits)
qed

lemma pass_rank:
  assumes "good s" "0 < tokens s" "backlog_at s = LoopTop" "scheduling_complete s"
    "backlog_pass (wall s) clk clk' s = Inr s'"
  shows "drain_rank s' < drain_rank s"
proof (cases "backlog_queue s")
  case Nil
  then show ?thesis using assms by (auto simp: backlog_pass_def drain_rank_def)
next
  case (Cons item rest)
  show ?thesis
  proof (cases "is_backlog_item_expired s clk item")
    case True
    then show ?thesis using assms Cons good_range [OF assms(1)]
      by (auto simp: op_defs drain_rank_def)
  next
    case False
    then have "backlog_take (wall s) clk' s = Inr s'" using assms Cons by (simp add: backlog_pass_def)
    with take_rank [OF assms(1,2) this] assms(3) Cons show ?thesis by simp
  qed
qed

lemma drain_step:
  assumes "inv s" "sched s = Draining"
  shows "(\<exists>t. own_step s t \<and> sched t = Finished) \<or> (\<exists>t. own_step s t \<and> inv t \<and> sched t = Draining \<and> drain_rank t < drain_rank s)"
proof -
  have g: "good s" and ck: "clock_ok s (wall s)" using inv_good clock_wall assms by auto
  have room: "tokens s + int (length (running s)) = max_inflight (config s)" "1 \<le> max_inflight (config s)"
    using g by (simp_all add: good_def pool_ok_def static_ok_def valid_config_def)
  have sc: "scheduling_complete s" using assms by (simp add: inv_def phase_ok_def)
  consider (run) "running s \<noteq> []" | (call) "0 < ended s" | (wait) "running s = []" "backlog_at s = WaitEvent"
    | (token) "running s = []" "backlog_at s = WaitToken" | (top) "running s = []" "backlog_at s = LoopTop"
    | (idle) "running s = []" "ended s = 0" "backlog_at s = LoopDone"
    by (metis backlog_pc.exhaust gr0I)
  then show ?thesis
  proof cases
    case run
    have a: "own_attempt s (execute_request 0 (Raised RequestTimeout) (wall s) (s\<lparr>wall := wall s\<rparr>))"
      using run ck by (intro own_attempt.request) simp_all
    have "\<exists>t. execute_request 0 (Raised RequestTimeout) (wall s) s = Inr t \<and> sched t = Draining \<and> drain_rank t < drain_rank s"
      using run room good_range [OF g] assms(2)
      by (cases "running s") (auto simp: op_defs drain_rank_def)
    then show ?thesis using own_step_inv [OF assms(1) a] by auto
  next
    case call
    then have a: "own_attempt s (Inr (s\<lparr>ended := ended s - 1\<rparr>))" by (rule own_attempt.callback)
    then show ?thesis using own_step_inv [OF assms(1) a] call assms(2)
      by (intro disjI2 exI [of _ "s\<lparr>ended := ended s - 1\<rparr>"]) (auto simp: drain_rank_def)
  next
    case wait
    then have a: "own_attempt s (Inr (s\<lparr>backlog_at := LoopTop\<rparr>))" by (intro own_attempt.event)
    then show ?thesis using own_step_inv [OF assms(1) a] wait assms(2)
      by (intro disjI2 exI [of _ "s\<lparr>backlog_at := LoopTop\<rparr>"]) (auto simp: drain_rank_def)
  next
    case token
    have t: "0 < tokens s" using token room by simp
    have a: "own_attempt s (backlog_take (wall s) 0 (s\<lparr>wall := wall s\<rparr>))" using token t ck by (intro own_attempt.token)
    obtain u where u: "backlog_take (wall s) 0 s = Inr u" "frame s u" using take_ok [OF g t, of 0] by blast
    moreover have "drain_rank u < drain_rank s" using take_rank [OF g t u(1)] token(2) by simp
    ultimately show ?thesis using own_step_inv [OF assms(1) a] assms(2) by (auto simp: frame_def)
  next
    case top
    have t: "0 < tokens s" using top room by simp
    have a: "own_attempt s (backlog_pass (wall s) 0 0 (s\<lparr>wall := wall s\<rparr>))" using top assms(2) ck by (intro own_attempt.backlog) auto
    obtain u where u: "backlog_pass (wall s) 0 0 s = Inr u" "frame s u" using pass_ok [OF g top(2), of 0 0] by blast
    moreover have "drain_rank u < drain_rank s" using pass_rank [OF g t top(2) sc u(1)] .
    ultimately show ?thesis using own_step_inv [OF assms(1) a] assms(2) by (auto simp: frame_def)
  next
    case idle
    then have "own_attempt s (Inr (finish_run (wall s) (s\<lparr>wall := wall s\<rparr>)))" using assms(2) ck by (intro own_attempt.finish)
    then show ?thesis by (auto simp: own_step_def finish_run_def)
  qed
qed

lemma reach_finished:
  assumes "inv s" "sched s = Draining"
  shows "\<exists>t. own_steps s t \<and> sched t = Finished"
  using assms
proof (induction "drain_rank s" arbitrary: s rule: less_induct)
  case less
  from drain_step [OF less.prems] show ?case
  proof
    assume "\<exists>t. own_step s t \<and> sched t = Finished"
    then show ?thesis by blast
  next
    assume "\<exists>t. own_step s t \<and> inv t \<and> sched t = Draining \<and> drain_rank t < drain_rank s"
    then obtain t where t: "own_step s t" "inv t" "sched t = Draining" "drain_rank t < drain_rank s" by blast
    with less.hyps obtain v where "own_steps t v" "sched v = Finished" by blast
    with t(1) show ?thesis by (meson converse_rtranclp_into_rtranclp)
  qed
qed

lemma can_finish_alone: "inv s \<Longrightarrow> \<exists>t. own_steps s t \<and> sched t = Finished"
proof (cases "sched s")
  case (InSecond i j)
  assume "inv s"
  then obtain u where "own_steps s u" "inv u" "sched u = AtSecond (Suc i)" using finish_second InSecond by blast
  with reach_draining obtain v where "own_steps s v" "inv v" "sched v = Draining" by (meson rtranclp_trans)
  with reach_finished show ?thesis by (meson rtranclp_trans)
next
  case (AtSecond i)
  assume "inv s"
  with AtSecond reach_draining obtain v where "own_steps s v" "inv v" "sched v = Draining" by blast
  with reach_finished show ?thesis by (meson rtranclp_trans)
qed (use reach_finished in blast)+

lemma can_finish: "inv s \<Longrightarrow> \<exists>t. steps s t \<and> sched t = Finished"
  using can_finish_alone own_steps_steps by blast

section \<open>A concrete sender for the witnesses\<close>

definition example_config :: SenderConfig where
  "example_config = \<lparr>script_path = ''s'', request_report_path = ''r'', statistics_report_path = ''t'',
     incident_report_path = ''i'', metadata_path = ''m'', heartbeat_path = None, target_host = ''h'',
     dispatch_mode = ''burst'', max_inflight = 1, backlog_capacity = 1, backlog_max_age_seconds = Fin 1,
     request_timeout_seconds = Fin 1, connect_timeout_seconds = Fin 1, progress_log_interval_sec = 60,
     request_log_flush_interval_sec = 60, response_mode = ''release'', verify_ssl = True, worker_count = 1,
     worker_index = None, quiet_worker_logs = False\<rparr>"

definition example_sender :: sender where
  "example_sender = init_sender example_config
     \<lparr>wl_seed = 42, demand_base_path = ''/demand'', request_classes = [''html'']\<rparr>
     [\<lparr>timestamp = 0, requests = 3, request_class_counts = [3]\<rparr>] 0"

lemma example_valid: "valid_config example_config"
  by (simp add: example_config_def valid_config_def)

lemma example_initial: "initial example_sender"
  unfolding initial_def
  by (rule exI [of _ example_config], rule exI, rule exI, rule exI, rule conjI,
      rule example_sender_def, intro conjI)
    (simp_all add: example_valid well_formed_point_def in_range_def day_number_def us_per_s_def whole_second_def)

text \<open>Its first second started: one request runs, one waits, one was dropped.\<close>

definition example_started :: sender where
  "example_started = (case dispatch_second 0 [(1, 0), (2, 0), (3, 0)] 4 0 example_sender of Inr s \<Rightarrow> s | Inl e \<Rightarrow> example_sender)"

lemma example_attempt: "attempt example_sender (dispatch_second 0 [(1, 0), (2, 0), (3, 0)] 4 0 example_sender)"
  by (rule attempt.own, rule own_attempt.second)
    (simp_all add: example_sender_def init_sender_def readings_ok_def in_range_def day_number_def us_per_s_def)

lemma example_reached: "steps example_sender example_started"
proof -
  obtain s where "dispatch_second 0 [(1, 0), (2, 0), (3, 0)] 4 0 example_sender = Inr s"
    using attempt_inv [OF example_attempt initial_inv [OF example_initial]] by blast
  with example_attempt have "step example_sender example_started" by (simp add: step_def example_started_def)
  then show ?thesis by blast
qed

section \<open>Properties\<close>

text \<open>C1: no run of the sender raises: from any state a run reaches, whatever coroutine goes on,
  the token queue never overflows, the planner never meets an index outside its counts, and no
  statistic is refused.\<close>

theorem sender_never_raises:
  assumes "initial s0" "steps s0 s" "attempt s r"
  shows "\<exists>s'. r = Inr s'"
  using attempt_inv [OF assms(3) steps_inv [OF assms(1,2)]] by blast

theorem sender_never_raises_witness:
  "\<exists>s'. dispatch_second 0 [(1, 0), (2, 0), (3, 0)] 4 0 example_sender = Inr s'"
  using sender_never_raises [OF example_initial _ example_attempt] by blast

text \<open>C3: the tokens bound the requests under way: those running are exactly what
  \<^verbatim>\<open>inflight_count\<close> says, and never more than \<^verbatim>\<open>max_inflight\<close>.\<close>

theorem inflight_bounded:
  assumes "initial s0" "steps s0 s"
  shows "inflight_count s = int (length (running s)) \<and> inflight_count s \<le> max_inflight (config s) \<and> 0 \<le> tokens s"
  using steps_inv [OF assms] by (auto simp: inv_def pool_ok_def inflight_count_def)

theorem inflight_bounded_witness:
  "inflight_count example_started = int (length (running example_started)) \<and> 0 \<le> tokens example_started"
  using inflight_bounded [OF example_initial example_reached] by blast

text \<open>C2: no request is lost or counted twice on its way: at every moment the scheduled requests
  are those started, those waiting and those dropped; the enqueued ones have been started from the
  backlog, have expired, or wait; the drops that are not expiries are exactly the refusals of a full
  backlog when there is one.\<close>

theorem requests_conserved:
  assumes "initial s0" "steps s0 s"
  shows "scheduled_requests s = started_requests s + int (length (backlog_queue s)) + dropped_due_to_capacity s
    \<and> started_requests s = started_immediate_requests s + started_from_backlog_requests s
    \<and> enqueued_requests s = started_from_backlog_requests s + backlog_expired_requests s + int (length (backlog_queue s))
    \<and> dropped_backlog_full_requests s =
        (if 0 < backlog_capacity (config s) then dropped_due_to_capacity s - backlog_expired_requests s else 0)"
  using steps_inv [OF assms] by (simp add: inv_def counts_ok_def)

theorem requests_conserved_witness:
  "scheduled_requests example_started =
     started_requests example_started + int (length (backlog_queue example_started)) + dropped_due_to_capacity example_started"
  using requests_conserved [OF example_initial example_reached] by blast

text \<open>The backlog never grows past its recorded depth nor that past the configured capacity.\<close>

theorem backlog_bounded:
  assumes "initial s0" "steps s0 s"
  shows "length (backlog_queue s) \<le> backlog_max_depth s \<and> int (backlog_max_depth s) \<le> backlog_capacity (config s)"
  using steps_inv [OF assms] by (simp add: inv_def counts_ok_def)

theorem backlog_bounded_witness:
  "int (backlog_max_depth example_started) \<le> backlog_capacity (config example_started)"
  using backlog_bounded [OF example_initial example_reached] by blast

text \<open>The statistics writer, its file and its pending seconds together, holds in every column
  exactly the sender's counter, at every moment and across all flushes.\<close>

theorem statistics_match_counters:
  assumes "initial s0" "steps s0 s"
  shows "stats_ok s"
  using steps_inv [OF assms] by (simp add: inv_def)

theorem statistics_match_counters_witness:
  "stat_total (statistics_writer example_started) ''scheduled'' = scheduled_requests example_started"
  using statistics_match_counters [OF example_initial example_reached] by (simp add: stats_ok_def Let_def)

text \<open>C4: a finished run has nothing left: no running request, no backlog; it scheduled exactly the
  requests planned for the seconds it dispatched, which are all of them unless it was told to stop;
  each was started or dropped, and each started one was counted as completed, failed or timed out
  at least once, at most twice.\<close>

theorem finished_run_accounts:
  assumes "initial s0" "steps s0 s" "sched s = Finished"
  shows "running s = [] \<and> backlog_queue s = []
    \<and> scheduled_requests s = planned_upto s (dispatched_seconds s)
    \<and> planned_requests_so_far s = planned_upto s (dispatched_seconds s)
    \<and> (stop_requested s \<or> dispatched_seconds s = length (timeline s))
    \<and> scheduled_requests s = started_requests s + dropped_due_to_capacity s
    \<and> started_requests s \<le> completed_requests s + failed_requests s + timed_out_requests s
    \<and> completed_requests s + failed_requests s + timed_out_requests s \<le> 2 * started_requests s"
  using steps_inv [OF assms(1,2)] assms(3) by (auto simp: inv_def phase_ok_def schedule_ok_def counts_ok_def)

theorem finished_run_accounts_witness:
  "\<exists>s. steps example_sender s \<and> sched s = Finished
    \<and> scheduled_requests s = started_requests s + dropped_due_to_capacity s"
proof -
  obtain s where s: "steps example_sender s" "sched s = Finished"
    using can_finish [OF initial_inv [OF example_initial]] by blast
  with finished_run_accounts [OF example_initial s] show ?thesis by blast
qed

lemma tally_sum: "sum_list (map snd (tally evs)) = int (length evs)"
  by (induction evs rule: rev_induct) (auto simp: tally_def)

text \<open>After a finished run the request report is the sorted tally of the started requests, one
  line per second and URL, and its counts add up to the started requests.\<close>

theorem finished_request_report:
  assumes "initial s0" "steps s0 s" "sched s = Finished"
  shows "rr_file (report_writer s) = [''second'', ''url'', ''count''] # map rr_line (sort (tally (starts s)))
    \<and> sum_list (map (\<lambda>line. the (py_int (line ! 2))) (tl (rr_file (report_writer s)))) = started_requests s"
proof -
  have "rr_complete (starts s) (rr_file (report_writer s))" "int (length (starts s)) = started_requests s"
    using steps_inv [OF assms(1,2)] assms(3) by (simp_all add: inv_def report_ok_def)
  moreover have "map (\<lambda>line. the (py_int (line ! 2))) (map rr_line xs) = map snd xs" for xs
    by (induction xs) (auto simp: rr_line_def)
  ultimately show ?thesis
    by (simp add: rr_complete_def sum_list_sort tally_sum del: map_map)
qed

theorem finished_request_report_witness:
  "\<exists>s. steps example_sender s \<and> sched s = Finished
    \<and> sum_list (map (\<lambda>line. the (py_int (line ! 2))) (tl (rr_file (report_writer s)))) = started_requests s"
proof -
  obtain s where s: "steps example_sender s" "sched s = Finished"
    using can_finish [OF initial_inv [OF example_initial]] by blast
  with finished_request_report [OF example_initial s] show ?thesis by blast
qed

text \<open>C36: the sender never deadlocks: from every state a run reaches, its own coroutines and the
  ends of its requests can bring it to its end, without a signal or an error of the event loop.\<close>

theorem sender_can_finish:
  assumes "initial s0" "steps s0 s"
  shows "\<exists>t. own_steps s t \<and> sched t = Finished"
  using can_finish_alone [OF steps_inv [OF assms]] .

theorem sender_can_finish_witness:
  "\<exists>t. own_steps example_started t \<and> sched t = Finished"
  by (rule sender_can_finish [OF example_initial example_reached])

text \<open>Outcomes are counted once, except that a response whose context fails on leaving is
  counted twice, once by its status and once by the failure.\<close>

theorem outcome_counted:
  assumes "in_range now"
  shows "\<exists>s'. handle_outcome request now result s = Inr s'
    \<and> completed_requests s' + failed_requests s' + timed_out_requests s'
      = completed_requests s + failed_requests s + timed_out_requests s
        + (case result of Response status (Some e) \<Rightarrow> 2 | _ \<Rightarrow> 1)"
proof (cases result)
  case (Raised e)
  then show ?thesis using assms by (cases e) (simp_all add: count_failed_def record_incident_if_relevant_def)
next
  case (Response status exit)
  show ?thesis
  proof (cases exit)
    case None
    then show ?thesis using Response assms by (simp add: count_failed_def)
  next
    case (Some e)
    then show ?thesis using Response assms
      by (cases e) (simp_all add: count_failed_def record_incident_if_relevant_def)
  qed
qed

theorem outcome_counted_witness:
  "\<exists>s'. handle_outcome (build_request (workload example_sender) ''html'') 5 (Response 200 (Some RequestTimeout)) example_sender = Inr s'
    \<and> completed_requests s' + failed_requests s' + timed_out_requests s'
      = completed_requests example_sender + failed_requests example_sender + timed_out_requests example_sender + 2"
  using outcome_counted [of 5 "build_request (workload example_sender) ''html''" "Response 200 (Some RequestTimeout)" example_sender]
  by (simp add: in_range_def day_number_def us_per_s_def)

end
