(* ===== verification/Merge.thy ===== *)
theory Merge
  imports SenderProps
begin

text \<open>
  The multi-worker mode of \<^verbatim>\<open>custom-load-generator/load_sender.py\<close>: how requests are shared
  out over worker processes, what environment and file names each worker gets, how the workers'
  reports are merged and how their heartbeats are aggregated.
\<close>

section \<open>File names and environments of the workers\<close>

text \<open>The part of \<^verbatim>\<open>pathlib\<close> used: a path is its text, the name is what follows the last slash.\<close>

definition path_name :: "string \<Rightarrow> string" where
  "path_name p = rev (takeWhile (\<lambda>c. c \<noteq> CHR ''/'') (rev p))"

definition path_dir :: "string \<Rightarrow> string" where
  "path_dir p = rev (dropWhile (\<lambda>c. c \<noteq> CHR ''/'') (rev p))"

text \<open>The suffix starts at the last dot unless that is the first or the last character.\<close>

definition path_suffix :: "string \<Rightarrow> string" where
  "path_suffix p = (let n = path_name p; ext = rev (takeWhile (\<lambda>c. c \<noteq> CHR ''.'') (rev n)) in
     if ext = [] \<or> length n \<le> length ext + 1 then [] else CHR ''.'' # ext)"

definition path_stem :: "string \<Rightarrow> string" where
  "path_stem p = take (length (path_name p) - length (path_suffix p)) (path_name p)"

definition with_name :: "string \<Rightarrow> string \<Rightarrow> string" where
  "with_name p n = path_dir p @ n"

definition worker_output_path :: "string \<Rightarrow> int \<Rightarrow> string" where
  "worker_output_path base_path i =
     with_name base_path (path_stem base_path @ ''.worker'' @ int_str i @ path_suffix base_path)"

definition worker_heartbeat_path :: "SenderConfig \<Rightarrow> int \<Rightarrow> string" where
  "worker_heartbeat_path cfg i =
     worker_output_path (with_name (statistics_report_path cfg) ''load_generator_worker_heartbeat.json'') i"

definition worker_env :: "env \<Rightarrow> SenderConfig \<Rightarrow> int \<Rightarrow> env" where
  "worker_env env cfg i = env(
     ''WORKER_INDEX'' \<mapsto> int_str i, ''WORKER_COUNT'' \<mapsto> int_str (worker_count cfg),
     ''REQUEST_REPORT_PATH'' \<mapsto> worker_output_path (request_report_path cfg) i,
     ''STATISTICS_REPORT_PATH'' \<mapsto> worker_output_path (statistics_report_path cfg) i,
     ''INCIDENT_REPORT_PATH'' \<mapsto> worker_output_path (incident_report_path cfg) i,
     ''METADATA_PATH'' \<mapsto> metadata_path cfg,
     ''HEARTBEAT_PATH'' \<mapsto> worker_heartbeat_path cfg i,
     ''QUIET_WORKER_LOGS'' \<mapsto> ''true'')"

lemma worker_output_path_inj: "worker_output_path p i = worker_output_path p j \<longleftrightarrow> i = j"
  by (simp add: worker_output_path_def with_name_def)

lemma worker_output_path_nonempty: "worker_output_path p i \<noteq> []"
  by (simp add: worker_output_path_def with_name_def)

section \<open>Merging reports\<close>

text \<open>An absent file is skipped, a row without a value in some column is skipped.\<close>

definition cell_text :: "(string \<Rightarrow> string option option) \<Rightarrow> string \<Rightarrow> string" where
  "cell_text row k = (case row k of Some (Some v) \<Rightarrow> v | _ \<Rightarrow> [])"

definition int_cell :: "(string \<Rightarrow> string option option) \<Rightarrow> string \<Rightarrow> int py" where
  "int_cell row k = or_raise (ValueError ''invalid literal for int()'') (py_int (cell_text row k))"

definition merge_request_row ::
  "(string \<Rightarrow> string option option) \<Rightarrow> ((string \<times> string) \<times> int) list \<Rightarrow> ((string \<times> string) \<times> int) list py" where
  "merge_request_row row counts =
     (if \<not> row_has_values row [''second'', ''url'', ''count''] then Inr counts
      else res_bind (int_cell row ''count'') (\<lambda>n.
        Inr (bump (cell_text row ''second'', cell_text row ''url'') n counts)))"

definition merge_request_reports :: "csv option list \<Rightarrow> csv py" where
  "merge_request_reports files =
     res_bind (fold_res merge_request_row (concat (map (case_option [] dict_rows) files)) []) (\<lambda>counts.
     Inr ([''second'', ''url'', ''count''] # map rr_line (sort counts)))"

text \<open>\<^verbatim>\<open>totals[second][column_name] += int(row[column_name])\<close>\<close>

definition merge_cell ::
  "(string \<Rightarrow> string option option) \<Rightarrow> string \<Rightarrow> string \<Rightarrow> (string \<times> stat_row) list \<Rightarrow> (string \<times> stat_row) list py" where
  "merge_cell row second column totals =
     res_bind (int_cell row column) (\<lambda>n.
     let r = stat_row_of totals second in Inr (AList.update second (r(column := r column + n)) totals))"

definition merge_statistics_row ::
  "(string \<Rightarrow> string option option) \<Rightarrow> (string \<times> stat_row) list \<Rightarrow> (string \<times> stat_row) list py" where
  "merge_statistics_row row totals =
     (if \<not> row_has_values row (''second'' # COLUMN_NAMES) then Inr totals
      else fold_res (merge_cell row (cell_text row ''second'')) COLUMN_NAMES totals)"

definition merge_statistics_reports :: "csv option list \<Rightarrow> csv py" where
  "merge_statistics_reports files =
     res_bind (fold_res merge_statistics_row (concat (map (case_option [] dict_rows) files)) []) (\<lambda>totals.
     Inr ((''second'' # COLUMN_NAMES) # map (\<lambda>second. stat_line second (stat_row_of totals second)) (sort (map fst totals))))"

definition incident_rows :: "csv option list \<Rightarrow> incident list" where
  "incident_rows files = map (\<lambda>row. (cell_text row ''timestamp'', cell_text row ''second'', cell_text row ''url'',
       cell_text row ''incident_type'', cell_text row ''message''))
     (filter (\<lambda>row. row_has_values row incident_header) (concat (map (case_option [] dict_rows) files)))"

definition merge_incident_reports :: "csv option list \<Rightarrow> csv" where
  "merge_incident_reports files = incident_header # map incident_line (sort (incident_rows files))"

section \<open>Heartbeats\<close>

type_synonym heartbeat_json = "(string \<times> int) list"

definition hb_get :: "string \<Rightarrow> heartbeat_json \<Rightarrow> int py" where
  "hb_get k hb = or_raise (KeyError k) (map_of hb k)"

definition hb_max :: "string \<Rightarrow> heartbeat_json list \<Rightarrow> int py" where
  "hb_max k hbs = map_sum id (\<lambda>xs. foldr max (tl xs) (hd xs)) (traverse (hb_get k) hbs)"

definition hb_sum :: "string \<Rightarrow> heartbeat_json list \<Rightarrow> int py" where
  "hb_sum k hbs = map_sum id sum_list (traverse (hb_get k) hbs)"

definition hb_summed :: "string list" where
  "hb_summed = [''planned_requests_so_far'', ''scheduled_requests'', ''enqueued_requests'', ''started_requests'',
     ''started_immediate_requests'', ''started_from_backlog_requests'', ''completed_requests'', ''failed_requests'',
     ''timed_out_requests'', ''dropped_due_to_capacity'', ''dropped_backlog_full_requests'',
     ''backlog_expired_requests'', ''inflight_count'', ''backlog_depth'', ''backlog_max_depth'']"

text \<open>The numbers of the progress line; no line when no heartbeat could be read.\<close>

definition aggregate_worker_progress :: "heartbeat_json option list \<Rightarrow> (string \<times> int) list option py" where
  "aggregate_worker_progress reads =
     (let hbs = List.map_filter id reads in
      if hbs = [] then Inr None
      else res_bind (traverse (\<lambda>k. res_bind (hb_max k hbs) (\<lambda>n. Inr (k, n)))
             [''total_points'', ''dispatched_seconds'', ''total_planned_requests'']) (\<lambda>maxima.
           res_bind (traverse (\<lambda>k. res_bind (hb_sum k hbs) (\<lambda>n. Inr (k, n))) hb_summed) (\<lambda>totals.
           Inr (Some (maxima @ totals)))))"

section \<open>Merged request reports\<close>

definition add_counts :: "('k \<times> int) list \<Rightarrow> ('k \<times> int) list \<Rightarrow> ('k \<times> int) list" where
  "add_counts xs d = foldl (\<lambda>d (k, c). bump k c d) d xs"

lemma count_of_add: "count_of (add_counts xs d) k = count_of d k + sum_list (map snd (filter (\<lambda>p. fst p = k) xs))"
  by (induction xs arbitrary: d) (auto simp: add_counts_def)

lemma distinct_add: "distinct (map fst d) \<Longrightarrow> distinct (map fst (add_counts xs d))"
  by (induction xs arbitrary: d) (auto simp: add_counts_def)

lemma keys_add: "fst ` set (add_counts xs d) = fst ` set xs \<union> fst ` set d"
proof (induction xs arbitrary: d)
  case (Cons p xs)
  obtain k c where p: "p = (k, c)" by (cases p)
  have "add_counts (p # xs) d = add_counts xs (bump k c d)" by (simp add: p add_counts_def)
  then show ?case by (simp add: Cons.IH keys_bump p)
qed (simp add: add_counts_def)

lemma alist_eqI:
  assumes "distinct (map fst d)" "distinct (map fst e)" "fst ` set d = fst ` set e" "\<And>k. count_of d k = count_of e k"
  shows "set d = set e"
proof -
  have sub: "set d \<subseteq> set e"
    if "distinct (map fst d)" "distinct (map fst e)" "fst ` set d = fst ` set e" "\<And>k. count_of d k = count_of e k"
    for d e :: "('a \<times> int) list"
  proof
    fix p assume p: "p \<in> set d"
    obtain k c where kc: "p = (k, c)" by (cases p)
    have "k \<in> fst ` set e" using p that(3) by (force simp: kc)
    then obtain c' where c': "(k, c') \<in> set e" by auto
    have "c = count_of d k" using count_of_in [OF that(1)] p kc by simp
    also have "\<dots> = c'" using that(4) count_of_in [OF that(2) c'] by simp
    finally show "p \<in> set e" using c' kc by simp
  qed
  show ?thesis using sub [OF assms] sub [OF assms(2,1) assms(3) [symmetric] assms(4) [symmetric]] by blast
qed

lemma merge_request_row_line:
  assumes "s \<noteq> []" "u \<noteq> []"
  shows "merge_request_row (dict_row [''second'', ''url'', ''count''] (rr_line ((s, u), c))) d = Inr (bump (s, u) c d)"
  using assms
  by (simp add: merge_request_row_def row_has_values_def dict_row_def rr_line_def cell_text_def int_cell_def or_raise_def)

lemma dict_rows_request: "dict_rows ([''second'', ''url'', ''count''] # map rr_line xs)
    = map (\<lambda>x. dict_row [''second'', ''url'', ''count''] (rr_line x)) xs"
  by (induction xs) (auto simp: dict_rows_def rr_line_def split: prod.splits)

lemma merge_request_fold:
  assumes "\<forall>p \<in> set xs. fst (fst p) \<noteq> [] \<and> snd (fst p) \<noteq> []"
  shows "fold_res merge_request_row (map (\<lambda>x. dict_row [''second'', ''url'', ''count''] (rr_line x)) xs) d
    = Inr (add_counts xs d)"
  using assms
proof (induction xs arbitrary: d)
  case (Cons x xs)
  obtain s u c where x: "x = ((s, u), c)" by (metis prod.exhaust)
  with Cons show ?case by (simp add: merge_request_row_line add_counts_def)
qed (simp add: add_counts_def)

lemma tally_count: "count_of (tally evs) k = int (length (filter (\<lambda>(t, url). (isoformat_utc t, url) = k) evs))"
  by (induction evs rule: rev_induct) (auto simp: tally_def)

lemma tally_keys: "fst ` set (tally evs) = (\<lambda>(t, url). (isoformat_utc t, url)) ` set evs"
proof (induction evs rule: rev_induct)
  case (snoc e evs)
  obtain t url where "e = (t, url)" by (cases e)
  then show ?case by (simp add: snoc keys_bump)
qed (simp add: tally_def)

lemma distinct_sort_fst: "distinct (map fst d) \<Longrightarrow> distinct (map fst (sort d))" for d :: "('k::linorder \<times> int) list"
  by (simp add: distinct_map)

lemma count_of_sort: "distinct (map fst d) \<Longrightarrow> count_of (sort d) k = count_of d k" for d :: "('k::linorder \<times> int) list"
proof -
  assume d: "distinct (map fst d)"
  have "count_of (sort d) k = sum_list (map snd (sort (filter (\<lambda>p. fst p = k) d)))"
    using count_of_sum [OF distinct_sort_fst [OF d], of k] by (simp only: filter_sort)
  then show ?thesis using count_of_sum [OF d, of k] by (simp only: sum_list_sort)
qed

lemma add_counts_tally:
  "count_of (add_counts (concat (map (\<lambda>evs. sort (tally evs)) evss)) d) k = count_of d k + count_of (tally (concat evss)) k"
proof -
  have one: "sum_list (map snd (filter (\<lambda>p. fst p = k) (sort (tally evs)))) = count_of (tally evs) k" for evs
    using count_of_sum [OF distinct_sort_fst [OF tally_distinct]] count_of_sort [OF tally_distinct] by metis
  have "sum_list (map snd (filter (\<lambda>p. fst p = k) (concat (map (\<lambda>evs. sort (tally evs)) evss))))
      = count_of (tally (concat evss)) k"
    by (induction evss) (simp_all add: one tally_count)
  then show ?thesis by (simp add: count_of_add)
qed

definition request_file :: "(int \<times> string) list \<Rightarrow> csv" where
  "request_file evs = [''second'', ''url'', ''count''] # map rr_line (sort (tally evs))"

lemma merge_tallies:
  assumes "\<forall>evs \<in> set evss. \<forall>(t, url) \<in> set evs. url \<noteq> []"
  shows "merge_request_reports (map (\<lambda>evs. Some (request_file evs)) evss) = Inr (request_file (concat evss))"
proof -
  let ?xs = "concat (map (\<lambda>evs. sort (tally evs)) evss)"
  have ne: "\<forall>p \<in> set ?xs. fst (fst p) \<noteq> [] \<and> snd (fst p) \<noteq> []"
  proof
    fix p assume "p \<in> set ?xs"
    then obtain evs where evs: "evs \<in> set evss" "p \<in> set (tally evs)" by auto
    then have "fst p \<in> (\<lambda>(t, url). (isoformat_utc t, url)) ` set evs" unfolding tally_keys [symmetric] by simp
    then obtain t u where "(t, u) \<in> set evs" "fst p = (isoformat_utc t, u)" by auto
    then show "fst (fst p) \<noteq> [] \<and> snd (fst p) \<noteq> []"
      using assms evs(1) isoformat_utc_length [of t] by fastforce
  qed
  have "concat (map (case_option [] dict_rows) (map (\<lambda>evs. Some (request_file evs)) evss))
      = map (\<lambda>x. dict_row [''second'', ''url'', ''count''] (rr_line x)) ?xs"
    by (induction evss) (simp_all add: request_file_def dict_rows_request)
  then have "merge_request_reports (map (\<lambda>evs. Some (request_file evs)) evss)
      = Inr ([''second'', ''url'', ''count''] # map rr_line (sort (add_counts ?xs [])))"
    using merge_request_fold [OF ne, of "[]"] by (simp only: merge_request_reports_def res_bind_simps)
  moreover have "sort (add_counts ?xs []) = sort (tally (concat evss))"
  proof (rule sorted_distinct_set_unique)
    have d: "distinct (map fst (add_counts ?xs []))" by (rule distinct_add) simp
    have "fst ` set ?xs = (\<Union>evs \<in> set evss. fst ` set (tally evs))" by auto
    also have "\<dots> = fst ` set (tally (concat evss))" unfolding tally_keys by auto
    finally have "fst ` set (add_counts ?xs []) = fst ` set (tally (concat evss))" by (simp add: keys_add)
    then have "set (add_counts ?xs []) = set (tally (concat evss))"
      by (rule alist_eqI [OF d tally_distinct]) (simp add: add_counts_tally)
    then show "set (sort (add_counts ?xs [])) = set (sort (tally (concat evss)))" by simp
    from d show "distinct (sort (add_counts ?xs []))" by (simp add: distinct_map)
    from tally_distinct [of "concat evss"] show "distinct (sort (tally (concat evss)))"
      by (simp only: distinct_map distinct_sort)
  qed (rule sorted_sort)+
  ultimately show ?thesis by (simp add: request_file_def)
qed

section \<open>Merged statistics reports\<close>

abbreviation "stat_header \<equiv> ''second'' # COLUMN_NAMES"

definition stat_file :: "(string \<times> stat_row) list \<Rightarrow> csv" where
  "stat_file xs = stat_header # map (\<lambda>(b, row). stat_line b row) xs"

definition row_total :: "(string \<times> stat_row) list \<Rightarrow> string \<Rightarrow> string \<Rightarrow> int" where
  "row_total xs b c = sum_list (map (\<lambda>p. if fst p = b then snd p c else 0) xs)"

lemma stat_header_distinct: "distinct stat_header"
  using distinct_columns by (simp add: COLUMN_NAMES_def)

lemma dict_row_line: "dict_row stat_header (stat_line b row) k =
    (if k = ''second'' then Some (Some b) else if k \<in> set COLUMN_NAMES then Some (Some (int_str (row k))) else None)"
proof -
  have len: "length (stat_line b row) = length stat_header" by (simp add: stat_line_def)
  have "map_of (rev (zip stat_header (stat_line b row))) = map_of (zip stat_header (stat_line b row))"
    using stat_header_distinct len by (subst map_of_inject_set) (simp_all add: rev_map [symmetric] distinct_rev)
  moreover have "map_of (zip xs (map f xs)) k = (if k \<in> set xs then Some (f k) else None)" for xs and f :: "string \<Rightarrow> string"
    by (induction xs) auto
  ultimately show ?thesis using len by (simp add: dict_row_def) (simp add: stat_line_def)
qed

lemma stat_values: "b \<noteq> [] \<Longrightarrow> row_has_values (dict_row stat_header (stat_line b row)) stat_header"
  unfolding row_has_values_def list_all_iff by (auto simp: dict_row_line)

lemma columns_not_second: "c \<in> set COLUMN_NAMES \<Longrightarrow> c \<noteq> ''second''"
  using stat_header_distinct by auto

lemma merge_columns:
  assumes "distinct cols" "set cols \<subseteq> set COLUMN_NAMES" "distinct (map fst d)"
  shows "\<exists>d'. fold_res (merge_cell (dict_row stat_header (stat_line b row)) b) cols d = Inr d'
     \<and> distinct (map fst d') \<and> fst ` set d' = (if cols = [] then {} else {b}) \<union> fst ` set d
     \<and> (\<forall>b' c. stat_row_of d' b' c = stat_row_of d b' c + (if b' = b \<and> c \<in> set cols then row c else 0))"
  using assms
proof (induction cols arbitrary: d)
  case (Cons col cols)
  let ?d = "AList.update b ((stat_row_of d b)(col := stat_row_of d b col + row col)) d"
  have cell: "int_cell (dict_row stat_header (stat_line b row)) col = Inr (row col)"
    using Cons.prems(2) columns_not_second by (simp add: int_cell_def cell_text_def dict_row_line or_raise_def)
  have "distinct (map fst ?d)" using Cons.prems(3) by (rule distinct_update)
  with Cons.IH [of ?d] Cons.prems obtain d' where d':
    "fold_res (merge_cell (dict_row stat_header (stat_line b row)) b) cols ?d = Inr d'"
    "distinct (map fst d')" "fst ` set d' = (if cols = [] then {} else {b}) \<union> fst ` set ?d"
    "\<forall>b' c. stat_row_of d' b' c = stat_row_of ?d b' c + (if b' = b \<and> c \<in> set cols then row c else 0)"
    by auto
  have "stat_row_of d' b' c = stat_row_of d b' c + (if b' = b \<and> c \<in> set (col # cols) then row c else 0)" for b' c
    using d'(4) Cons.prems(1) by (auto simp: stat_row_of_update)
  moreover have "merge_cell (dict_row stat_header (stat_line b row)) b col d = Inr ?d"
    by (simp add: merge_cell_def cell Let_def)
  moreover have "fst ` set d' = {b} \<union> fst ` set d" using d'(3) by (auto simp: dom_update)
  ultimately show ?case using d'(1,2) by auto
qed simp

lemma merge_statistics_fold:
  assumes "\<forall>p \<in> set xs. fst p \<noteq> []" "distinct (map fst d)"
  shows "\<exists>d'. fold_res merge_statistics_row (map (\<lambda>(b, row). dict_row stat_header (stat_line b row)) xs) d = Inr d'
     \<and> distinct (map fst d') \<and> fst ` set d' = fst ` set xs \<union> fst ` set d
     \<and> (\<forall>b c. c \<in> set COLUMN_NAMES \<longrightarrow> stat_row_of d' b c = stat_row_of d b c + row_total xs b c)"
  using assms
proof (induction xs arbitrary: d)
  case (Cons x xs)
  obtain b row where x: "x = (b, row)" by (cases x)
  obtain e where e: "merge_statistics_row (dict_row stat_header (stat_line b row)) d = Inr e" "distinct (map fst e)"
    "fst ` set e = {b} \<union> fst ` set d"
    "\<forall>b' c. stat_row_of e b' c = stat_row_of d b' c + (if b' = b \<and> c \<in> set COLUMN_NAMES then row c else 0)"
    using merge_columns [OF distinct_columns subset_refl Cons.prems(2), of b row] stat_values [of b row] Cons.prems(1)
    by (auto simp: merge_statistics_row_def x cell_text_def dict_row_line COLUMN_NAMES_def [symmetric])
      (simp add: COLUMN_NAMES_def)
  with Cons.IH [OF _ e(2)] Cons.prems(1) obtain d' where
    "fold_res merge_statistics_row (map (\<lambda>(b, row). dict_row stat_header (stat_line b row)) xs) e = Inr d'"
    "distinct (map fst d')" "fst ` set d' = fst ` set xs \<union> fst ` set e"
    "\<forall>b c. c \<in> set COLUMN_NAMES \<longrightarrow> stat_row_of d' b c = stat_row_of e b c + row_total xs b c"
    by auto
  with e show ?case by (intro exI [of _ d']) (auto simp: x row_total_def)
qed (simp add: row_total_def)

lemma dict_rows_stat: "dict_rows (stat_file xs) = map (\<lambda>(b, row). dict_row stat_header (stat_line b row)) xs"
  by (induction xs) (auto simp: dict_rows_def stat_file_def stat_line_def split: prod.splits)

lemma merge_stat_files:
  assumes "\<forall>p \<in> set (concat xss). fst p \<noteq> []"
  shows "\<exists>seconds. merge_statistics_reports (map (\<lambda>xs. Some (stat_file xs)) xss)
      = Inr (stat_file (map (\<lambda>b. (b, row_total (concat xss) b)) seconds))
    \<and> sorted seconds \<and> distinct seconds \<and> set seconds = fst ` set (concat xss)"
proof -
  obtain d where d: "fold_res merge_statistics_row
      (map (\<lambda>(b, row). dict_row stat_header (stat_line b row)) (concat xss)) [] = Inr d"
    "distinct (map fst d)" "fst ` set d = fst ` set (concat xss)"
    "\<forall>b c. c \<in> set COLUMN_NAMES \<longrightarrow> stat_row_of d b c = row_total (concat xss) b c"
    using merge_statistics_fold [OF assms, of "[]"] by (auto simp: stat_row_of_def)
  have "concat (map (case_option [] dict_rows) (map (\<lambda>xs. Some (stat_file xs)) xss))
      = map (\<lambda>(b, row). dict_row stat_header (stat_line b row)) (concat xss)"
    by (induction xss) (simp_all add: dict_rows_stat)
  then have "merge_statistics_reports (map (\<lambda>xs. Some (stat_file xs)) xss)
      = Inr (stat_header # map (\<lambda>b. stat_line b (stat_row_of d b)) (sort (map fst d)))"
    using d(1) by (simp add: merge_statistics_reports_def del: map_map)
  also have "(\<lambda>b. stat_line b (stat_row_of d b)) = (\<lambda>b. stat_line b (row_total (concat xss) b))"
    using d(4) by (auto simp: stat_line_def)
  finally show ?thesis using d(2,3)
    by (intro exI [of _ "sort (map fst d)"]) (simp add: stat_file_def comp_def)
qed

text \<open>What a file holds of a column in all.\<close>

definition file_total :: "csv \<Rightarrow> string \<Rightarrow> int" where
  "file_total file c = sum_list (map (\<lambda>line. cell line c) (tl file))"

lemma file_total_stat_file:
  "c \<in> set COLUMN_NAMES \<Longrightarrow> file_total (stat_file xs) c = sum_list (map (\<lambda>p. snd p c) xs)"
  by (induction xs) (auto simp: file_total_def stat_file_def cell_stat_line)

lemma row_total_sum:
  assumes "distinct seconds" "fst ` set xs \<subseteq> set seconds"
  shows "sum_list (map (\<lambda>b. row_total xs b c) seconds) = sum_list (map (\<lambda>p. snd p c) xs)"
  using assms(2)
proof (induction xs)
  case (Cons p xs)
  have "sum_list (map (\<lambda>b. if fst p = b then snd p c else 0) seconds) = snd p c"
  proof -
    have "sum_list (map (\<lambda>b. if a = b then n else 0) bs) = (if a \<in> set bs then n else 0)" if "distinct bs"
      for a :: string and n :: int and bs using that by (induction bs) auto
    then show ?thesis using Cons.prems assms(1) by simp
  qed
  then show ?case using Cons by (simp add: row_total_def sum_list_addf)
qed (simp add: row_total_def sum_list_replicate_zero)

section \<open>Sharing out the requests\<close>

abbreviation as_worker :: "int \<Rightarrow> SenderConfig \<Rightarrow> SenderConfig" where
  "as_worker w cfg \<equiv> cfg\<lparr>worker_index := Some w\<rparr>"

lemma should_handle_worker: "should_handle_request (as_worker w cfg) g \<longleftrightarrow> g mod worker_count cfg = w"
  by (simp add: should_handle_request_def)

lemma count_by_class:
  assumes "\<And>g. g \<in> set gs \<Longrightarrow> f g \<in> A" "finite A"
  shows "(\<Sum>w \<in> A. int (length (filter (\<lambda>g. f g = w) gs))) = int (length gs)"
  using assms(1)
proof (induction gs)
  case (Cons g gs)
  have "(\<Sum>w \<in> A. int (length (filter (\<lambda>x. f x = w) (g # gs))))
      = (\<Sum>w \<in> A. (if f g = w then 1 else 0) + int (length (filter (\<lambda>x. f x = w) gs)))"
    by (intro sum.cong) auto
  also have "\<dots> = 1 + int (length gs)" using Cons assms(2) by (simp add: sum.distrib)
  finally show ?case by simp
qed simp

section \<open>The configuration of a worker\<close>

definition worker_names :: "string list" where
  "worker_names = [''WORKER_INDEX'', ''WORKER_COUNT'', ''REQUEST_REPORT_PATH'', ''STATISTICS_REPORT_PATH'',
     ''INCIDENT_REPORT_PATH'', ''METADATA_PATH'', ''HEARTBEAT_PATH'', ''QUIET_WORKER_LOGS'']"

lemma worker_env_other: "name \<notin> set worker_names \<Longrightarrow> worker_env env cfg i name = env name"
  by (simp add: worker_env_def worker_names_def)

lemma getenv_other [simp]:
  "name \<notin> set worker_names \<Longrightarrow> getenv (worker_env env cfg i) name d = getenv env name d"
  "name \<notin> set worker_names \<Longrightarrow> get_int (worker_env env cfg i) name n = get_int env name n"
  "name \<notin> set worker_names \<Longrightarrow> get_float (worker_env env cfg i) name x = get_float env name x"
  "name \<notin> set worker_names \<Longrightarrow> get_bool (worker_env env cfg i) name b = get_bool env name b"
  by (simp_all add: getenv_def get_int_def get_float_def get_bool_def worker_env_other)

lemma getenv_own [simp]:
  "getenv (worker_env env cfg i) ''REQUEST_REPORT_PATH'' d = worker_output_path (request_report_path cfg) i"
  "getenv (worker_env env cfg i) ''STATISTICS_REPORT_PATH'' d = worker_output_path (statistics_report_path cfg) i"
  "getenv (worker_env env cfg i) ''INCIDENT_REPORT_PATH'' d = worker_output_path (incident_report_path cfg) i"
  "getenv (worker_env env cfg i) ''METADATA_PATH'' d = metadata_path cfg"
  "worker_env env cfg i ''HEARTBEAT_PATH'' = Some (worker_heartbeat_path cfg i)"
  "get_int (worker_env env cfg i) ''WORKER_COUNT'' n = Inr (worker_count cfg)"
  by (simp_all add: getenv_def get_int_def worker_env_def or_raise_def)

lemma quiet_own [simp]: "get_bool (worker_env env cfg i) ''QUIET_WORKER_LOGS'' b = True"
proof -
  have "lower (strip ''true'') = ''true''" by code_simp
  then show ?thesis by (simp add: get_bool_def worker_env_def)
qed

lemma index_own [simp]:
  "0 \<le> i \<Longrightarrow> i < n \<Longrightarrow> load_worker_index (worker_env env cfg i) n = Inr (Some i)"
  by (simp add: load_worker_index_def worker_env_def or_raise_def)

lemma other_names [simp]:
  "''TARGET_HOST'' \<notin> set worker_names" "''SCRIPT_DISPATCH_MODE'' \<notin> set worker_names"
  "''REQUEST_RESPONSE_MODE'' \<notin> set worker_names" "''PROGRESS_LOG_INTERVAL_SEC'' \<notin> set worker_names"
  "''REQUEST_LOG_FLUSH_INTERVAL_SEC'' \<notin> set worker_names" "''MAX_INFLIGHT'' \<notin> set worker_names"
  "''BACKLOG_CAPACITY'' \<notin> set worker_names" "''BACKLOG_MAX_AGE_SECONDS'' \<notin> set worker_names"
  "''REQUEST_TIMEOUT_SECONDS'' \<notin> set worker_names" "''CONNECT_TIMEOUT_SECONDS'' \<notin> set worker_names"
  "''SCRIPT_CSV_PATH'' \<notin> set worker_names" "''REQUEST_SSL_VERIFY'' \<notin> set worker_names"
  by (simp_all add: worker_names_def)

lemma worker_config:
  assumes "load_runtime_config env = Inr cfg" "0 \<le> i" "i < worker_count cfg"
  shows "load_runtime_config (worker_env env cfg i) = Inr (cfg\<lparr>
    request_report_path := worker_output_path (request_report_path cfg) i,
    statistics_report_path := worker_output_path (statistics_report_path cfg) i,
    incident_report_path := worker_output_path (incident_report_path cfg) i,
    heartbeat_path := Some (worker_heartbeat_path cfg i), worker_index := Some i, quiet_worker_logs := True\<rparr>)"
proof -
  have hb: "worker_heartbeat_path cfg i \<noteq> []"
    by (simp add: worker_heartbeat_path_def worker_output_path_nonempty)
  have g: "\<not> b \<Longrightarrow> guard b e = Inr ()" "lo \<le> n \<Longrightarrow> at_least nm lo n = Inr ()" for b e nm lo n by simp_all
  show ?thesis
  proof (insert assms hb, unfold load_runtime_config_def [of env] Let_def res_bind_Inr_iff guard_Inr at_least_Inr,
      elim exE conjE, drule Inr_inject, hypsubst)
  qed (simp add: load_runtime_config_def Let_def g)
qed

section \<open>Heartbeats of workers\<close>

lemma traverse_Inr_map: "(\<And>x. x \<in> set xs \<Longrightarrow> f x = Inr (g x)) \<Longrightarrow> traverse f xs = Inr (map g xs)"
  by (rule traverse_total)

definition payload_value :: "sender \<Rightarrow> string \<Rightarrow> int" where
  "payload_value s k = (case map_of (fst (heartbeat_payload s)) k of None \<Rightarrow> 0 | Some n \<Rightarrow> n)"

lemma payload_keys:
  "k \<in> set ([''total_points'', ''dispatched_seconds'', ''total_planned_requests''] @ hb_summed) \<Longrightarrow>
     hb_get k (fst (heartbeat_payload s)) = Inr (payload_value s k)"
  by (auto simp: hb_summed_def hb_get_def or_raise_def payload_value_def heartbeat_payload_def)

lemma payload_columns:
  "k \<in> set ([''total_points'', ''dispatched_seconds'', ''total_planned_requests''] @ hb_summed) \<Longrightarrow>
     traverse (hb_get k) (map (\<lambda>s. fst (heartbeat_payload s)) ss) = Inr (map (\<lambda>s. payload_value s k) ss)"
  using traverse_total [of "map (\<lambda>s. fst (heartbeat_payload s)) ss" "hb_get k" "\<lambda>hb. case map_of hb k of None \<Rightarrow> 0 | Some n \<Rightarrow> n"]
    payload_keys by (auto simp: payload_value_def comp_def)

section \<open>Properties\<close>

text \<open>Every request index belongs to exactly one worker.\<close>

theorem workers_partition_requests:
  assumes "valid_config cfg"
  shows "\<exists>!w. 0 \<le> w \<and> w < worker_count cfg \<and> should_handle_request (as_worker w cfg) g"
proof -
  have "0 < worker_count cfg" using assms by (simp add: valid_config_def)
  then show ?thesis by (intro ex1I [of _ "g mod worker_count cfg"]) (auto simp: should_handle_worker)
qed

theorem workers_partition_requests_witness:
  "\<exists>!w. 0 \<le> w \<and> w < worker_count example_config \<and> should_handle_request (as_worker w example_config) 7"
  by (rule workers_partition_requests [OF example_valid])

text \<open>In every second of the timeline the shares of the workers add up to the requests planned
  for it: no request is left out and none is sent twice.\<close>

theorem workers_share_second:
  assumes "valid_config (config s)" "0 \<le> requests (timeline s ! i)"
  shows "(\<Sum>w \<in> {0..<worker_count (config s)}. assigned_request_count (s\<lparr>config := as_worker w (config s)\<rparr>) i)
    = requests (timeline s ! i)"
proof -
  let ?n = "worker_count (config s)" and ?gs = "[0..requests (timeline s ! i) - 1]"
  have n: "0 < ?n" using assms(1) by (simp add: valid_config_def)
  have "(\<Sum>w \<in> {0..<?n}. int (length (filter (\<lambda>j. (second_request_offsets s ! i + j) mod ?n = w) ?gs))) = int (length ?gs)"
    using n by (intro count_by_class) simp_all
  then show ?thesis using assms(2) by (simp add: assigned_request_count_def should_handle_worker)
qed

theorem workers_share_second_witness:
  "(\<Sum>w \<in> {0..<worker_count (config example_sender)}.
      assigned_request_count (example_sender\<lparr>config := as_worker w (config example_sender)\<rparr>) 0) = 3"
  using workers_share_second [of example_sender 0] example_valid
  by (simp add: example_sender_def init_sender_def)

text \<open>Each worker process loads, from the environment its parent gives it, the parent's own
  configuration with its index, its report paths and its heartbeat.\<close>

theorem worker_loads_its_share:
  assumes "load_runtime_config env = Inr cfg" "0 \<le> i" "i < worker_count cfg"
  shows "load_runtime_config (worker_env env cfg i) = Inr (cfg\<lparr>
    request_report_path := worker_output_path (request_report_path cfg) i,
    statistics_report_path := worker_output_path (statistics_report_path cfg) i,
    incident_report_path := worker_output_path (incident_report_path cfg) i,
    heartbeat_path := Some (worker_heartbeat_path cfg i), worker_index := Some i, quiet_worker_logs := True\<rparr>)"
  using assms by (rule worker_config)

theorem worker_loads_its_share_witness:
  "\<exists>cfg cfg'. load_runtime_config (\<lambda>_. None) = Inr cfg \<and> load_runtime_config (worker_env (\<lambda>_. None) cfg 0) = Inr cfg'
    \<and> worker_index cfg' = Some 0"
proof -
  have "\<not> isl (load_runtime_config (\<lambda>_. None))" by code_simp
  then obtain cfg where cfg: "load_runtime_config (\<lambda>_. None) = Inr cfg"
    by (cases "load_runtime_config (\<lambda>_. None)") simp_all
  then have "1 \<le> worker_count cfg"
    by (auto simp: load_runtime_config_def Let_def res_bind_Inr_iff)
  with worker_loads_its_share [OF cfg, of 0] cfg show ?thesis by auto
qed

text \<open>No two workers share a file: the paths derived from one base differ between workers.\<close>

theorem worker_paths_distinct:
  "distinct (map (worker_output_path base) [0..n - 1])"
  by (simp add: distinct_map inj_on_def worker_output_path_inj)

text \<open>C17: merging the finished request reports of the workers, those of absent workers left out,
  gives exactly the report one process would have written for all their requests.\<close>

theorem merged_request_report:
  assumes "\<forall>evs \<in> set evss. \<forall>(t, url) \<in> set evs. url \<noteq> []"
  shows "merge_request_reports (map (\<lambda>evs. Some (request_file evs)) evss) = Inr (request_file (concat evss))"
  using assms by (rule merge_tallies)

theorem merged_request_report_witness:
  "merge_request_reports [Some (request_file [(0, ''/a''), (1, ''/b'')]), Some (request_file [(2, ''/a'')])]
    = Inr (request_file [(0, ''/a''), (1, ''/b''), (2, ''/a'')])"
  using merged_request_report [of "[[(0, ''/a''), (1, ''/b'')], [(2, ''/a'')]]"] by simp

text \<open>Merging statistics reports loses and invents nothing: the merged file has every second of
  the inputs once, in order, and in every column the sum of the inputs' totals.\<close>

theorem merged_statistics_totals:
  assumes "\<forall>p \<in> set (concat xss). fst p \<noteq> []"
  shows "\<exists>seconds file. merge_statistics_reports (map (\<lambda>xs. Some (stat_file xs)) xss) = Inr file
    \<and> sorted seconds \<and> distinct seconds \<and> set seconds = fst ` set (concat xss) \<and> map hd (tl file) = seconds
    \<and> (\<forall>c \<in> set COLUMN_NAMES. file_total file c = sum_list (map (\<lambda>xs. file_total (stat_file xs) c) xss))"
proof -
  obtain seconds where s: "merge_statistics_reports (map (\<lambda>xs. Some (stat_file xs)) xss)
      = Inr (stat_file (map (\<lambda>b. (b, row_total (concat xss) b)) seconds))"
    "sorted seconds" "distinct seconds" "set seconds = fst ` set (concat xss)"
    using merge_stat_files [OF assms] by blast
  let ?file = "stat_file (map (\<lambda>b. (b, row_total (concat xss) b)) seconds)"
  have "file_total ?file c = sum_list (map (\<lambda>xs. file_total (stat_file xs) c) xss)" if "c \<in> set COLUMN_NAMES" for c
  proof -
    have "sum_list (map (\<lambda>xs. file_total (stat_file xs) c) xss) = sum_list (map (\<lambda>p. snd p c) (concat xss))"
      by (induction xss) (simp_all add: file_total_stat_file [OF that])
    then show ?thesis
      using row_total_sum [OF s(3), of "concat xss" c] s(4) by (simp add: file_total_stat_file [OF that] comp_def)
  qed
  moreover have "map hd (tl ?file) = seconds" by (simp add: stat_file_def stat_line_def comp_def)
  ultimately show ?thesis using s by blast
qed

theorem merged_statistics_totals_witness:
  "\<exists>file. merge_statistics_reports [Some (stat_file [(''t'', \<lambda>_. 1)]), Some (stat_file [(''t'', \<lambda>_. 2)])] = Inr file
    \<and> file_total file ''started'' = file_total (stat_file [(''t'', \<lambda>_. 1)]) ''started'' + file_total (stat_file [(''t'', \<lambda>_. 2)]) ''started''"
proof -
  obtain out where "merge_statistics_reports (map (\<lambda>xs. Some (stat_file xs)) [[(''t'', \<lambda>_. 1)], [(''t'', \<lambda>_. 2)]]) = Inr out"
    "\<forall>c \<in> set COLUMN_NAMES. file_total out c
      = sum_list (map (\<lambda>xs. file_total (stat_file xs) c) [[(''t'', \<lambda>_. 1)], [(''t'', \<lambda>_. 2)]])"
    using merged_statistics_totals [of "[[(''t'', \<lambda>_. 1)], [(''t'', \<lambda>_. 2)]]"] by auto
  then show ?thesis by simp
qed

text \<open>The aggregated progress of workers whose heartbeats are all readable never fails on a
  missing key and shows the sums of their counters.\<close>

theorem aggregated_progress_sums:
  assumes "ss \<noteq> []"
  shows "\<exists>maxima. aggregate_worker_progress (map (\<lambda>s. Some (fst (heartbeat_payload s))) ss)
    = Inr (Some (maxima @ map (\<lambda>k. (k, sum_list (map (\<lambda>s. payload_value s k) ss))) hb_summed))"
proof -
  let ?hbs = "map (\<lambda>s. fst (heartbeat_payload s)) ss" and ?m = "[''total_points'', ''dispatched_seconds'', ''total_planned_requests'']"
  have reads: "List.map_filter id (map (\<lambda>s. Some (fst (heartbeat_payload s))) ss) = ?hbs"
    by (induction ss) (simp_all add: List.map_filter_def)
  have mx: "\<exists>maxima. traverse (\<lambda>k. res_bind (hb_max k ?hbs) (\<lambda>n. Inr (k, n))) ?m = Inr maxima"
    using payload_columns [of _ ss] by (simp add: hb_max_def)
  have "traverse (\<lambda>k. res_bind (hb_sum k ?hbs) (\<lambda>n. Inr (k, n))) hb_summed
      = Inr (map (\<lambda>k. (k, sum_list (map (\<lambda>s. payload_value s k) ss))) hb_summed)"
    using payload_columns [of _ ss] by (intro traverse_total) (simp add: hb_sum_def)
  with mx show ?thesis using assms by (auto simp: aggregate_worker_progress_def reads Let_def)
qed

theorem aggregated_progress_sums_witness:
  "\<exists>maxima. aggregate_worker_progress [Some (fst (heartbeat_payload example_sender))]
    = Inr (Some (maxima @ map (\<lambda>k. (k, payload_value example_sender k)) hb_summed))"
  using aggregated_progress_sums [of "[example_sender]"] by simp

end
