(* ===== verification/SenderJob.thy ===== *)
theory SenderJob
  imports Sender
begin

text \<open>
  What no step of the load sender changes: its configuration, workload and timeline; and where the
  URLs it reports come from: every started request and every waiting one was built by the planner.
\<close>

definition urls_ok :: "sender \<Rightarrow> bool" where
  "urls_ok s \<longleftrightarrow> (\<forall>(t, url) \<in> set (starts s). url \<noteq> [])
     \<and> (\<forall>item \<in> set (backlog_queue s). report_url (item_request item) \<noteq> [])"

text \<open>A step from the first state to the second keeps the job.\<close>

definition same_job :: "sender \<Rightarrow> sender \<Rightarrow> bool" where
  "same_job s s' \<longleftrightarrow> config s' = config s \<and> workload s' = workload s \<and> timeline s' = timeline s
     \<and> second_request_offsets s' = second_request_offsets s \<and> (urls_ok s \<longrightarrow> urls_ok s')"

text \<open>All it looks at; the other fields may change.\<close>

definition job_view :: "sender \<Rightarrow> SenderConfig \<times> WorkloadConfig \<times> ScriptPoint list \<times> int list \<times> (int \<times> string) list \<times> BacklogItem list" where
  "job_view s = (config s, workload s, timeline s, second_request_offsets s, starts s, backlog_queue s)"

lemma same_job_view: "job_view t = job_view s \<Longrightarrow> same_job s t"
  by (simp add: same_job_def urls_ok_def job_view_def)

lemma same_job_trans: "same_job s t \<Longrightarrow> same_job t u \<Longrightarrow> same_job s u"
  by (simp add: same_job_def)

lemma same_job_left: "job_view s = job_view s' \<Longrightarrow> same_job s' t \<Longrightarrow> same_job s t"
  by (rule same_job_trans [OF same_job_view]) simp_all

lemma job_view_wall [simp]: "job_view (s\<lparr>wall := x\<rparr>) = job_view s"
  by (simp add: job_view_def)

lemma job_view_tokens [simp]: "job_view (s\<lparr>tokens := x\<rparr>) = job_view s"
  by (simp add: job_view_def)

lemma job_view_backlog_at [simp]: "job_view (s\<lparr>backlog_at := x\<rparr>) = job_view s"
  by (simp add: job_view_def)

lemma job_view_sched [simp]: "job_view (s\<lparr>sched := x\<rparr>) = job_view s"
  by (simp add: job_view_def)

lemma job_view_statistics_writer [simp]: "job_view (s\<lparr>statistics_writer := x\<rparr>) = job_view s"
  by (simp add: job_view_def)

lemma job_view_report_writer [simp]: "job_view (s\<lparr>report_writer := x\<rparr>) = job_view s"
  by (simp add: job_view_def)

lemma job_view_incident_writer [simp]: "job_view (s\<lparr>incident_writer := x\<rparr>) = job_view s"
  by (simp add: job_view_def)

lemma job_view_running [simp]: "job_view (s\<lparr>running := x\<rparr>) = job_view s"
  by (simp add: job_view_def)

lemma job_view_ended [simp]: "job_view (s\<lparr>ended := x\<rparr>) = job_view s"
  by (simp add: job_view_def)

lemma job_view_stop_requested [simp]: "job_view (s\<lparr>stop_requested := x\<rparr>) = job_view s"
  by (simp add: job_view_def)

lemma job_view_heartbeat [simp]: "job_view (s\<lparr>heartbeat := x\<rparr>) = job_view s"
  by (simp add: job_view_def)

lemma job_view_progress_on [simp]: "job_view (s\<lparr>progress_on := x\<rparr>) = job_view s"
  by (simp add: job_view_def)

lemma job_view_scheduling_complete [simp]: "job_view (s\<lparr>scheduling_complete := x\<rparr>) = job_view s"
  by (simp add: job_view_def)

lemma job_view_backlog_available [simp]: "job_view (s\<lparr>backlog_available := x\<rparr>) = job_view s"
  by (simp add: job_view_def)

lemma job_view_dispatched_seconds [simp]: "job_view (s\<lparr>dispatched_seconds := x\<rparr>) = job_view s"
  by (simp add: job_view_def)

lemma job_view_last_flush_monotonic [simp]: "job_view (s\<lparr>last_flush_monotonic := x\<rparr>) = job_view s"
  by (simp add: job_view_def)

lemma job_view_planned_requests_so_far [simp]: "job_view (s\<lparr>planned_requests_so_far := x\<rparr>) = job_view s"
  by (simp add: job_view_def)

lemma job_view_scheduled_requests [simp]: "job_view (s\<lparr>scheduled_requests := x\<rparr>) = job_view s"
  by (simp add: job_view_def)

lemma job_view_started_requests [simp]: "job_view (s\<lparr>started_requests := x\<rparr>) = job_view s"
  by (simp add: job_view_def)

lemma job_view_enqueued_requests [simp]: "job_view (s\<lparr>enqueued_requests := x\<rparr>) = job_view s"
  by (simp add: job_view_def)

lemma job_view_started_immediate_requests [simp]: "job_view (s\<lparr>started_immediate_requests := x\<rparr>) = job_view s"
  by (simp add: job_view_def)

lemma job_view_started_from_backlog_requests [simp]: "job_view (s\<lparr>started_from_backlog_requests := x\<rparr>) = job_view s"
  by (simp add: job_view_def)

lemma job_view_dropped_due_to_capacity [simp]: "job_view (s\<lparr>dropped_due_to_capacity := x\<rparr>) = job_view s"
  by (simp add: job_view_def)

lemma job_view_backlog_expired_requests [simp]: "job_view (s\<lparr>backlog_expired_requests := x\<rparr>) = job_view s"
  by (simp add: job_view_def)

lemma job_view_dropped_backlog_full_requests [simp]: "job_view (s\<lparr>dropped_backlog_full_requests := x\<rparr>) = job_view s"
  by (simp add: job_view_def)

lemma job_view_failed_requests [simp]: "job_view (s\<lparr>failed_requests := x\<rparr>) = job_view s"
  by (simp add: job_view_def)

lemma job_view_completed_requests [simp]: "job_view (s\<lparr>completed_requests := x\<rparr>) = job_view s"
  by (simp add: job_view_def)

lemma job_view_timed_out_requests [simp]: "job_view (s\<lparr>timed_out_requests := x\<rparr>) = job_view s"
  by (simp add: job_view_def)

lemma job_view_backlog_max_depth [simp]: "job_view (s\<lparr>backlog_max_depth := x\<rparr>) = job_view s"
  by (simp add: job_view_def)

lemma record_stat_view: "record_stat b c n s = Inr t \<Longrightarrow> job_view t = job_view s"
  by (auto simp: record_stat_def res_bind_Inr_iff)

lemma put_token_view: "put_token s = Inr t \<Longrightarrow> job_view t = job_view s"
  by (auto simp: put_token_def split: if_splits)

lemmas views = record_stat_view put_token_view

lemma built_url [simp]: "report_url (build_request wl c) \<noteq> []"
  by (simp add: build_request_def Let_def)

lemma job_started: "report_url request \<noteq> [] \<Longrightarrow> same_job s (s\<lparr>starts := starts s @ [(now, report_url request)]\<rparr>)"
  by (auto simp: same_job_def urls_ok_def)

lemma job_start:
  assumes "start_request_task now request b from s = Inr t" "report_url request \<noteq> []"
  shows "same_job s t"
proof -
  obtain u v where "record_stat b ''started'' 1 (s\<lparr>started_requests := started_requests s + 1,
        report_writer := rr_record b (report_url request) (report_writer s), starts := starts s @ [(now, report_url request)]\<rparr>) = Inr u"
    and "(if from then record_stat b ''started_from_backlog'' 1 (u\<lparr>started_from_backlog_requests := started_from_backlog_requests u + 1\<rparr>)
      else record_stat b ''started_immediate'' 1 (u\<lparr>started_immediate_requests := started_immediate_requests u + 1\<rparr>)) = Inr v"
    and "t = v\<lparr>running := running v @ [request]\<rparr>"
    using assms(1) by (auto simp: start_request_task_def res_bind_Inr_iff Let_def)
  then have "job_view t = job_view (s\<lparr>starts := starts s @ [(now, report_url request)]\<rparr>)"
    by (cases "from") (auto dest!: views simp: job_view_def)
  then show ?thesis using same_job_trans [OF job_started [OF assms(2)] same_job_view] by blast
qed

lemma job_enqueue:
  assumes "enqueue_or_drop clk b request s = Inr t" "report_url request \<noteq> []"
  shows "same_job s t"
proof -
  let ?item = "\<lparr>item_request = request, enqueued_monotonic = clk\<rparr>"
  consider "job_view t = job_view s" | "job_view t = job_view (s\<lparr>backlog_queue := backlog_queue s @ [?item]\<rparr>)"
  proof (cases "0 < backlog_capacity (config s) \<and> int (length (backlog_queue s)) < backlog_capacity (config s)")
    case True
    with assms(1) obtain u where u: "record_stat b ''enqueued'' 1 (s\<lparr>backlog_queue := backlog_queue s @ [?item],
        enqueued_requests := enqueued_requests s + 1\<rparr>) = Inr u"
      and t: "t = u\<lparr>backlog_max_depth := max (backlog_max_depth u) (length (backlog_queue u)), backlog_available := True\<rparr>"
      by (simp add: enqueue_or_drop_def Let_def res_bind_Inr_iff) blast
    have "job_view t = job_view u" unfolding t by simp
    with record_stat_view [OF u] have "job_view t = job_view (s\<lparr>backlog_queue := backlog_queue s @ [?item]\<rparr>)"
      by (simp add: job_view_def)
    then show ?thesis by (rule that(2))
  next
    case False
    have "enqueue_or_drop clk b request s = res_bind (record_stat b ''dropped_capacity'' 1
        (s\<lparr>dropped_due_to_capacity := dropped_due_to_capacity s + 1\<rparr>)) (\<lambda>s. if 0 < backlog_capacity (config s)
        then record_stat b ''dropped_backlog_full'' 1 (s\<lparr>dropped_backlog_full_requests := dropped_backlog_full_requests s + 1\<rparr>)
        else Inr s)"
      unfolding enqueue_or_drop_def using False by (rule if_not_P)
    with assms(1) obtain u where u: "record_stat b ''dropped_capacity'' 1
        (s\<lparr>dropped_due_to_capacity := dropped_due_to_capacity s + 1\<rparr>) = Inr u"
      and t: "(if 0 < backlog_capacity (config u)
        then record_stat b ''dropped_backlog_full'' 1 (u\<lparr>dropped_backlog_full_requests := dropped_backlog_full_requests u + 1\<rparr>)
        else Inr u) = Inr t"
      by (simp only: res_bind_Inr_iff) blast
    have "job_view t = job_view u"
      using t record_stat_view [of b _ 1 "u\<lparr>dropped_backlog_full_requests := dropped_backlog_full_requests u + 1\<rparr>" t]
      by (cases "0 < backlog_capacity (config u)") simp_all
    with record_stat_view [OF u] have "job_view t = job_view s" by simp
    then show ?thesis by (rule that(1))
  qed
  then show ?thesis
  proof cases
    case 1
    then show ?thesis by (rule same_job_view)
  next
    case 2
    have "same_job s (s\<lparr>backlog_queue := backlog_queue s @ [?item]\<rparr>)" using assms(2) by (auto simp: same_job_def urls_ok_def)
    then show ?thesis using same_job_view [OF 2] same_job_trans by blast
  qed
qed

lemma job_launch:
  assumes "launch_or_backlog now clk i j s = Inr t"
  shows "same_job s t"
proof -
  obtain u c where u: "record_stat (isoformat_utc now) ''scheduled'' 1 (s\<lparr>scheduled_requests := scheduled_requests s + 1\<rparr>) = Inr u"
    and rest: "(if tokens u \<le> 0 then enqueue_or_drop clk (isoformat_utc now) (build_request (workload u) c) u
      else start_request_task now (build_request (workload u) c) (isoformat_utc now) False (u\<lparr>tokens := tokens u - 1\<rparr>)) = Inr t"
    using assms by (auto simp: launch_or_backlog_def res_bind_Inr_iff Let_def)
  have "same_job u t"
  proof (cases "tokens u \<le> 0")
    case True
    with rest show ?thesis using job_enqueue built_url by (metis (full_types))
  next
    case False
    with rest have "same_job (u\<lparr>tokens := tokens u - 1\<rparr>) t" using job_start built_url by simp
    then show ?thesis by (rule same_job_left [rotated]) simp
  qed
  moreover have "job_view u = job_view s" using record_stat_view [OF u] by simp
  ultimately show ?thesis by (metis same_job_left)
qed

lemma flush_view [simp]: "job_view (flush_all final now s) = job_view s"
  by (simp add: flush_all_def)

lemma end_second_view [simp]: "job_view (end_second i now clk s) = job_view s"
  by (simp add: end_second_def flush_request_report_if_due_def)

lemma job_dispatch_request: "dispatch_request i r s = Inr t \<Longrightarrow> same_job s t"
  using job_launch same_job_left [of s "s\<lparr>wall := fst (snd r)\<rparr>"] same_job_view [of s s]
  by (cases r) (auto simp: dispatch_request_def split: if_splits)

lemma job_burst: "dispatch_burst i rds s = Inr t \<Longrightarrow> same_job s t"
proof -
  have "fold_res (dispatch_request i) rs s = Inr t \<Longrightarrow> same_job s t" for rs s
  proof (induction rs arbitrary: s)
    case Nil
    then show ?case by (simp add: same_job_view)
  next
    case (Cons r rs)
    then obtain u where "dispatch_request i r s = Inr u" "fold_res (dispatch_request i) rs u = Inr t" by (auto simp: res_bind_Inr_iff)
    then show ?case using Cons.IH job_dispatch_request same_job_trans by blast
  qed
  then show "dispatch_burst i rds s = Inr t \<Longrightarrow> same_job s t" by (simp add: dispatch_burst_def)
qed

lemma job_dispatch_second:
  assumes "dispatch_second i rds now clk s = Inr t"
  shows "same_job s t"
proof -
  obtain u where u: "plan_second i s = Inr u" and rest:
    "(if requests (timeline u ! i) \<le> 0 then Inr (u\<lparr>dispatched_seconds := i + 1, sched := AtSecond (i + 1)\<rparr>)
      else if dispatch_mode (config u) = ''burst'' \<or> requests (timeline u ! i) = 1
      then res_bind (dispatch_burst i rds u) (\<lambda>s. Inr (end_second i now clk s))
      else Inr (u\<lparr>sched := InSecond i 0\<rparr>)) = Inr t"
    using assms by (auto simp: dispatch_second_def res_bind_Inr_iff Let_def)
  have "job_view u = job_view s" using u by (auto simp: plan_second_def res_bind_Inr_iff dest!: views)
  moreover have "same_job u t"
  proof (cases "0 < requests (timeline u ! i) \<and> (dispatch_mode (config u) = ''burst'' \<or> requests (timeline u ! i) = 1)")
    case True
    with rest obtain v where "dispatch_burst i rds u = Inr v" "t = end_second i now clk v" by (auto simp: res_bind_Inr_iff)
    then show ?thesis using same_job_trans [OF job_burst same_job_view] by simp
  next
    case False
    with rest have "job_view t = job_view u" by (auto split: if_splits)
    then show ?thesis by (rule same_job_view)
  qed
  ultimately show ?thesis by (metis same_job_left)
qed

lemma job_popped: "backlog_queue s = item # rest \<Longrightarrow> same_job s (s\<lparr>backlog_queue := rest\<rparr>)"
  by (simp add: same_job_def urls_ok_def)

lemma expire_view: "expire_item now s = Inr t \<Longrightarrow> job_view t = job_view s"
  by (auto simp: expire_item_def res_bind_Inr_iff Let_def dest!: views)

lemma job_take:
  assumes "backlog_take now clk s = Inr t" "urls_ok s"
  shows "same_job s t"
proof (cases "backlog_queue s")
  case Nil
  then have "job_view t = job_view s" using assms(1) by (auto simp: backlog_take_def Let_def dest!: views)
  then show ?thesis by (rule same_job_view)
next
  case (Cons item rest)
  let ?s = "s\<lparr>tokens := tokens s - 1, backlog_at := LoopTop, backlog_queue := rest\<rparr>"
  have view: "job_view ?s = job_view (s\<lparr>backlog_queue := rest\<rparr>)" by (simp add: job_view_def)
  have taken: "(if is_backlog_item_expired ?s clk item then res_bind (put_token ?s) (expire_item now)
      else start_request_task now (item_request item) (isoformat_utc now) True ?s) = Inr t"
    using assms(1) Cons by (simp add: backlog_take_def Let_def)
  have "same_job ?s t"
  proof (cases "is_backlog_item_expired ?s clk item")
    case True
    with taken obtain u where "put_token ?s = Inr u" "expire_item now u = Inr t" by (simp only: if_True res_bind_Inr_iff) blast
    then have "job_view t = job_view ?s" using expire_view put_token_view by metis
    then show ?thesis by (rule same_job_view)
  next
    case False
    with taken have "start_request_task now (item_request item) (isoformat_utc now) True ?s = Inr t" by (simp only: if_False)
    moreover have "report_url (item_request item) \<noteq> []" using assms(2) Cons by (simp add: urls_ok_def)
    ultimately show ?thesis by (rule job_start)
  qed
  with job_popped [OF Cons] show ?thesis using same_job_left [OF view [symmetric]] same_job_trans by blast
qed

lemma job_pass:
  assumes "backlog_pass now clk clk' s = Inr t" "urls_ok s"
  shows "same_job s t"
proof (cases "backlog_queue s")
  case Nil
  then have "job_view t = job_view s" using assms(1) by (auto simp: backlog_pass_def)
  then show ?thesis by (rule same_job_view)
next
  case (Cons item rest)
  have pass: "(if is_backlog_item_expired s clk item then expire_item now (s\<lparr>backlog_queue := rest\<rparr>)
      else if tokens s \<le> 0 then Inr (s\<lparr>backlog_at := WaitToken\<rparr>) else backlog_take now clk' s) = Inr t"
    using assms(1) Cons by (simp add: backlog_pass_def)
  consider "is_backlog_item_expired s clk item" | "\<not> is_backlog_item_expired s clk item" "tokens s \<le> 0"
    | "\<not> is_backlog_item_expired s clk item" "\<not> tokens s \<le> 0" by blast
  then show ?thesis
  proof cases
    case 1
    with pass have "expire_item now (s\<lparr>backlog_queue := rest\<rparr>) = Inr t" by (simp only: if_True)
    from same_job_trans [OF job_popped [OF Cons] same_job_view [OF expire_view [OF this]]] show ?thesis .
  next
    case 2
    with pass have "s\<lparr>backlog_at := WaitToken\<rparr> = t" by (simp only: if_True if_False sum.inject)
    then show ?thesis using same_job_view [OF job_view_backlog_at] by blast
  next
    case 3
    with pass have "backlog_take now clk' s = Inr t" by (simp only: if_False)
    then show ?thesis using assms(2) by (rule job_take)
  qed
qed

lemma incident_view [simp]:
  "job_view (record_incident_if_relevant request kind message now s) = job_view s"
  "job_view (record_loop_incident_if_relevant exc msg now s) = job_view s"
  by (simp_all add: record_incident_if_relevant_def record_loop_incident_if_relevant_def Let_def)

lemma exception_view: "handle_exception request now e s = Inr t \<Longrightarrow> job_view t = job_view s"
  by (cases e) (auto simp: count_failed_def res_bind_Inr_iff dest!: views)

lemma outcome_view: "handle_outcome request now result s = Inr t \<Longrightarrow> job_view t = job_view s"
proof (cases result)
  case (Response status exit)
  assume "handle_outcome request now result s = Inr t"
  then obtain u where "job_view u = job_view s" "(case exit of None \<Rightarrow> Inr u | Some e \<Rightarrow> handle_exception request now e u) = Inr t"
    using Response by (auto simp: count_failed_def res_bind_Inr_iff dest!: views split: if_splits)
  then show ?thesis by (cases exit) (auto dest!: exception_view)
qed (auto dest!: exception_view)

lemma execute_view: "execute_request k result now s = Inr t \<Longrightarrow> job_view t = job_view s"
  by (auto simp: execute_request_def res_bind_Inr_iff dest!: outcome_view views)

lemma tick_view [simp]: "job_view (progress_tick now s) = job_view s" "job_view (finish_run now s) = job_view s"
  "job_view (begin_drain s) = job_view s"
  by (simp_all add: progress_tick_def finish_run_def write_heartbeat_def begin_drain_def split: option.split)

lemma own_attempt_job:
  assumes "own_attempt s (Inr t)" "urls_ok s"
  shows "same_job s t"
  using assms(1)
proof cases
  case (second i rds now clk)
  then show ?thesis using job_dispatch_second by metis
next
  case (spread i j now clk)
  then show ?thesis using job_dispatch_request same_job_left [of s "s\<lparr>sched := InSecond i (Suc j)\<rparr>"] by (metis job_view_sched)
next
  case (backlog now clk clk')
  have "urls_ok (s\<lparr>wall := now\<rparr>)" using assms(2) by (simp add: urls_ok_def)
  then show ?thesis using backlog job_pass same_job_left [of s "s\<lparr>wall := now\<rparr>"] by (metis job_view_wall)
next
  case (token now clk)
  have "urls_ok (s\<lparr>wall := now\<rparr>)" using assms(2) by (simp add: urls_ok_def)
  then show ?thesis using token job_take same_job_left [of s "s\<lparr>wall := now\<rparr>"] by (metis job_view_wall)
next
  case (request k now result)
  then have "job_view t = job_view (s\<lparr>wall := now\<rparr>)" by (metis execute_view)
  then show ?thesis by (simp add: same_job_view)
qed (simp_all add: same_job_view)

lemma attempt_job:
  assumes "attempt s (Inr t)" "urls_ok s"
  shows "same_job s t"
  using assms(1)
proof cases
  case own
  then show ?thesis using own_attempt_job assms(2) by blast
qed (simp_all add: same_job_view)

text \<open>Over a whole run.\<close>

lemma steps_job:
  assumes "initial s" "steps s t"
  shows "same_job s t" "urls_ok t"
proof -
  have "urls_ok s" using assms(1) by (auto simp: initial_def init_sender_def urls_ok_def)
  have "same_job s t \<and> urls_ok t"
    using assms(2)
  proof (induction rule: rtranclp_induct)
    case base
    then show ?case using \<open>urls_ok s\<close> by (simp add: same_job_view)
  next
    case (step t u)
    then have "same_job t u" using attempt_job by (auto simp: step_def)
    with step.IH show ?case using same_job_trans by (auto simp: same_job_def)
  qed
  then show "same_job s t" "urls_ok t" by blast+
qed

end
