(* ===== verification/Fleet.thy ===== *)
theory Fleet
  imports Merge SenderJob
begin

text \<open>
  The sender and the multi-worker mode together: every worker process is a sender that loaded the
  configuration its parent prepared for it, the same workload and the same script; what the parent
  merges are the request reports these senders leave.
\<close>

section \<open>The processes of a fleet\<close>

definition worker_cfg :: "SenderConfig \<Rightarrow> int \<Rightarrow> SenderConfig" where
  "worker_cfg cfg i = cfg\<lparr>
    request_report_path := worker_output_path (request_report_path cfg) i,
    statistics_report_path := worker_output_path (statistics_report_path cfg) i,
    incident_report_path := worker_output_path (incident_report_path cfg) i,
    heartbeat_path := Some (worker_heartbeat_path cfg i), worker_index := Some i, quiet_worker_logs := True\<rparr>"

text \<open>Worker \<open>w\<close> has ended in state \<open>s\<close>; it need not have started when the others did.\<close>

definition worker_ended :: "SenderConfig \<Rightarrow> WorkloadConfig \<Rightarrow> ScriptPoint list \<Rightarrow> nat \<Rightarrow> sender \<Rightarrow> bool" where
  "worker_ended cfg wl pts w s \<longleftrightarrow> (\<exists>t0. initial (init_sender (worker_cfg cfg (int w)) wl pts t0)
     \<and> steps (init_sender (worker_cfg cfg (int w)) wl pts t0) s \<and> sched s = Finished)"

definition fleet_ended :: "SenderConfig \<Rightarrow> WorkloadConfig \<Rightarrow> ScriptPoint list \<Rightarrow> sender list \<Rightarrow> bool" where
  "fleet_ended cfg wl pts ss \<longleftrightarrow> length ss = nat (worker_count cfg) \<and> (\<forall>w < length ss. worker_ended cfg wl pts w (ss ! w))"

definition report_total :: "csv \<Rightarrow> int" where
  "report_total report = sum_list (map (\<lambda>line. the (py_int (line ! 2))) (tl report))"

section \<open>What one process leaves\<close>

lemma report_total_file: "report_total (request_file evs) = int (length evs)"
proof -
  have "map (\<lambda>line. the (py_int (line ! 2))) (map rr_line xs) = map snd xs" for xs
    by (induction xs) (auto simp: rr_line_def)
  then show ?thesis by (simp add: report_total_def request_file_def sum_list_sort tally_sum del: map_map)
qed

lemma worker_ended_facts:
  assumes "worker_ended cfg wl pts w s"
  shows "config s = worker_cfg cfg (int w)" "timeline s = pts"
    "second_request_offsets s = build_second_request_offsets pts"
    "rr_file (report_writer s) = request_file (starts s)" "\<forall>(t, url) \<in> set (starts s). url \<noteq> []"
    "int (length (starts s)) = scheduled_requests s - dropped_due_to_capacity s"
    "scheduled_requests s = planned_upto s (dispatched_seconds s)"
    "stop_requested s \<or> dispatched_seconds s = length pts"
    "\<forall>p \<in> set pts. 0 \<le> requests p"
proof -
  obtain t0 where run: "initial (init_sender (worker_cfg cfg (int w)) wl pts t0)"
    "steps (init_sender (worker_cfg cfg (int w)) wl pts t0) s" and fin: "sched s = Finished"
    using assms unfolding worker_ended_def by blast
  note job = steps_job [OF run]
  show frm: "config s = worker_cfg cfg (int w)" "timeline s = pts"
    "second_request_offsets s = build_second_request_offsets pts"
    using job(1) by (simp_all add: same_job_def init_sender_def)
  show "\<forall>(t, url) \<in> set (starts s). url \<noteq> []" using job(2) by (simp add: urls_ok_def)
  have i: "inv s" using steps_inv [OF run] .
  then show "rr_file (report_writer s) = request_file (starts s)"
    using fin by (simp add: inv_def report_ok_def rr_complete_def request_file_def)
  show "int (length (starts s)) = scheduled_requests s - dropped_due_to_capacity s"
    using i fin by (simp add: inv_def report_ok_def counts_ok_def phase_ok_def)
  show "scheduled_requests s = planned_upto s (dispatched_seconds s)" "stop_requested s \<or> dispatched_seconds s = length pts"
    using i fin frm(2) by (auto simp: inv_def schedule_ok_def)
  have "\<forall>p \<in> set pts. \<exists>n. well_formed_point n p" using i frm(2) by (auto simp: inv_def static_ok_def)
  then show "\<forall>p \<in> set pts. 0 \<le> requests p"
    by (auto simp: well_formed_point_def intro!: sum_list_nonneg)
qed

section \<open>Sharing out a script\<close>

lemma assigned_worker:
  assumes "config s = worker_cfg cfg w" "timeline s = pts" "second_request_offsets s = build_second_request_offsets pts"
  shows "assigned_request_count s i = int (length (filter
      (\<lambda>j. (build_second_request_offsets pts ! i + j) mod worker_count cfg = w) [0..requests (pts ! i) - 1]))"
  using assms by (simp add: assigned_request_count_def should_handle_request_def worker_cfg_def)

lemma sum_list_upto: "sum_list (map f xs) = (\<Sum>i < length xs. f (xs ! i))" for f :: "'a \<Rightarrow> int"
  by (simp add: sum_list_sum_nth atLeast0LessThan)

lemma fleet_plans_script:
  assumes "\<And>w. w < nat n \<Longrightarrow> plan w = (\<Sum>i < length pts. int (length (filter
      (\<lambda>j. (offs ! i + j) mod n = int w) [0..requests (pts ! i) - 1])))"
    and "0 < n" "\<forall>p \<in> set pts. 0 \<le> requests p"
  shows "(\<Sum>w < nat n. plan w) = sum_list (map requests pts)"
proof -
  have "(\<Sum>w < nat n. plan w) = (\<Sum>w < nat n. \<Sum>i < length pts. int (length (filter
      (\<lambda>j. (offs ! i + j) mod n = int w) [0..requests (pts ! i) - 1])))"
    using assms(1) by (intro sum.cong) auto
  also have "\<dots> = (\<Sum>i < length pts. \<Sum>w < nat n. int (length (filter
      (\<lambda>j. (offs ! i + j) mod n = int w) [0..requests (pts ! i) - 1])))"
    by (rule sum.swap)
  also have "\<dots> = (\<Sum>i < length pts. requests (pts ! i))"
  proof (intro sum.cong refl)
    fix i assume i: "i \<in> {..<length pts}"
    let ?gs = "[0..requests (pts ! i) - 1]"
    have "(\<Sum>w < nat n. int (length (filter (\<lambda>j. (offs ! i + j) mod n = int w) ?gs)))
        = (\<Sum>w \<in> {0..<n}. int (length (filter (\<lambda>j. (offs ! i + j) mod n = w) ?gs)))"
      using assms(2) by (intro sum.reindex_bij_witness [where i = nat and j = int]) auto
    also have "\<dots> = int (length ?gs)" using assms(2) by (intro count_by_class) auto
    also have "\<dots> = requests (pts ! i)" using assms(3) i by simp
    finally show "(\<Sum>w < nat n. int (length (filter (\<lambda>j. (offs ! i + j) mod n = int w) ?gs))) = requests (pts ! i)" .
  qed
  finally show ?thesis by (simp add: sum_list_upto)
qed

lemma fleet_merged:
  assumes "fleet_ended cfg wl pts ss" "1 \<le> worker_count cfg"
  shows "\<exists>report. merge_request_reports (map (\<lambda>s. Some (rr_file (report_writer s))) ss) = Inr report
    \<and> report = request_file (concat (map starts ss))
    \<and> ((\<forall>s \<in> set ss. \<not> stop_requested s) \<longrightarrow>
        report_total report = sum_list (map requests pts) - sum_list (map dropped_due_to_capacity ss))"
proof -
  have len: "length ss = nat (worker_count cfg)" and each: "\<And>w. w < length ss \<Longrightarrow> worker_ended cfg wl pts w (ss ! w)"
    using assms(1) unfolding fleet_ended_def by blast+
  note facts = worker_ended_facts [OF each]
  have files: "map (\<lambda>s. Some (rr_file (report_writer s))) ss = map (\<lambda>evs. Some (request_file evs)) (map starts ss)"
    using facts(4) by (auto simp: list_eq_iff_nth_eq)
  have "\<forall>evs \<in> set (map starts ss). \<forall>(t, url) \<in> set evs. url \<noteq> []"
    using facts(5) by (fastforce simp: in_set_conv_nth)
  from merge_tallies [OF this] have merged: "merge_request_reports (map (\<lambda>s. Some (rr_file (report_writer s))) ss)
      = Inr (request_file (concat (map starts ss)))" unfolding files .
  have "int (length (concat (map starts ss))) = sum_list (map requests pts) - sum_list (map dropped_due_to_capacity ss)"
    if run: "\<forall>s \<in> set ss. \<not> stop_requested s"
  proof -
    have "int (length (concat (map starts ss))) = sum_list (map (\<lambda>s. int (length (starts s))) ss)"
      by (induction ss) simp_all
    also have "map (\<lambda>s. int (length (starts s))) ss = map (\<lambda>s. scheduled_requests s - dropped_due_to_capacity s) ss"
      using facts(6) by (auto simp: list_eq_iff_nth_eq)
    also have "sum_list \<dots> = (\<Sum>w < length ss. scheduled_requests (ss ! w)) - sum_list (map dropped_due_to_capacity ss)"
      by (simp add: sum_list_subtractf sum_list_upto [of scheduled_requests])
    also have "(\<Sum>w < length ss. scheduled_requests (ss ! w)) = sum_list (map requests pts)"
      unfolding len
    proof (rule fleet_plans_script)
      fix w assume "w < nat (worker_count cfg)"
      then have w: "w < length ss" by (simp add: len)
      then have "dispatched_seconds (ss ! w) = length pts" using facts(8) run by auto
      then have "scheduled_requests (ss ! w) = (\<Sum>i < length pts. assigned_request_count (ss ! w) i)"
        using facts(7) [OF w] by (simp add: planned_upto_def)
      then show "scheduled_requests (ss ! w) = (\<Sum>i < length pts. int (length (filter
          (\<lambda>j. (build_second_request_offsets pts ! i + j) mod worker_count cfg = int w) [0..requests (pts ! i) - 1])))"
        using assigned_worker [OF facts(1,2,3)] w by simp
    qed (use assms(2) facts(9) [of 0] len in auto)
    finally show ?thesis .
  qed
  then show ?thesis using merged by (simp add: report_total_file)
qed

section \<open>A concrete fleet\<close>

definition example_fleet_config :: SenderConfig where
  "example_fleet_config = example_config\<lparr>worker_count := 2\<rparr>"

lemma example_worker_initial:
  assumes "w < 2"
  shows "initial (init_sender (worker_cfg example_fleet_config (int w)) (workload example_sender) (timeline example_sender) 0)"
  unfolding initial_def
  by (rule exI [of _ "worker_cfg example_fleet_config (int w)"], rule exI, rule exI, rule exI, rule conjI, rule refl)
    (use assms in \<open>simp add: worker_cfg_def example_fleet_config_def example_config_def example_sender_def init_sender_def
      valid_config_def well_formed_point_def in_range_def day_number_def us_per_s_def whole_second_def\<close>)

lemma example_fleet: "\<exists>ss. fleet_ended example_fleet_config (workload example_sender) (timeline example_sender) ss"
proof -
  have "\<exists>s. worker_ended example_fleet_config (workload example_sender) (timeline example_sender) w s" if "w < 2" for w
    using can_finish [OF initial_inv [OF example_worker_initial [OF that]]] example_worker_initial [OF that]
    unfolding worker_ended_def by blast
  then obtain f where "\<And>w. w < 2 \<Longrightarrow> worker_ended example_fleet_config (workload example_sender) (timeline example_sender) w (f w)"
    by metis
  then show ?thesis
    by (intro exI [of _ "map f [0..<2]"]) (simp add: fleet_ended_def example_fleet_config_def example_config_def)
qed

section \<open>Properties\<close>

text \<open>C19: the merged report of a fleet that has ended is the report one process would have written for
  all started requests, and when no process was told to stop its counts add up to the requests of
  the script less those the processes dropped.\<close>

theorem fleet_reports_script:
  assumes "fleet_ended cfg wl pts ss" "1 \<le> worker_count cfg"
  shows "\<exists>report. merge_request_reports (map (\<lambda>s. Some (rr_file (report_writer s))) ss) = Inr report
    \<and> report = request_file (concat (map starts ss))
    \<and> ((\<forall>s \<in> set ss. \<not> stop_requested s) \<longrightarrow>
        report_total report = sum_list (map requests pts) - sum_list (map dropped_due_to_capacity ss))"
  using assms by (rule fleet_merged)

theorem fleet_reports_script_witness:
  "\<exists>ss report. fleet_ended example_fleet_config (workload example_sender) (timeline example_sender) ss
    \<and> merge_request_reports (map (\<lambda>s. Some (rr_file (report_writer s))) ss) = Inr report
    \<and> ((\<forall>s \<in> set ss. \<not> stop_requested s) \<longrightarrow> report_total report = 3 - sum_list (map dropped_due_to_capacity ss))"
proof -
  obtain ss where ss: "fleet_ended example_fleet_config (workload example_sender) (timeline example_sender) ss"
    using example_fleet by blast
  from fleet_reports_script [OF this] ss show ?thesis
    by (fastforce simp: example_fleet_config_def example_config_def example_sender_def init_sender_def)
qed

end
