(* ===== verification/Effects.thy ===== *)
theory Effects
  imports PyEnv
begin

text \<open>
  Programs that act on the world around them: functions of the world that return a value or raise,
  with the world as it is then, or that do not return at all.
\<close>

type_synonym ('w, 'a) script = "'w \<Rightarrow> ('a py \<times> 'w) option"

definition s_return :: "'a \<Rightarrow> ('w, 'a) script" where
  "s_return x = (\<lambda>w. Some (Inr x, w))"

definition of_py :: "'a py \<Rightarrow> ('w, 'a) script" where
  "of_py x = (\<lambda>w. Some (x, w))"

definition s_bind :: "('w, 'a) script \<Rightarrow> ('a \<Rightarrow> ('w, 'b) script) \<Rightarrow> ('w, 'b) script" where
  "s_bind m f = (\<lambda>w. case m w of
     None \<Rightarrow> None
   | Some (Inl e, w') \<Rightarrow> Some (Inl e, w')
   | Some (Inr x, w') \<Rightarrow> f x w')"

lemma s_bind_Some_Inr:
  "s_bind m f w = Some (Inr y, w') \<longleftrightarrow> (\<exists>x w1. m w = Some (Inr x, w1) \<and> f x w1 = Some (Inr y, w'))"
  by (auto simp: s_bind_def split: option.splits sum.splits)

lemma s_bindE:
  assumes "s_bind m f w = Some (Inr y, w')"
  obtains x w1 where "m w = Some (Inr x, w1)" and "f x w1 = Some (Inr y, w')"
  using assms by (auto simp: s_bind_Some_Inr)

lemma of_py_bindE:
  assumes "s_bind (of_py p) f w = Some (Inr y, w')"
  obtains x where "p = Inr x" and "f x w = Some (Inr y, w')"
  using assms by (auto simp: s_bind_Some_Inr of_py_def)

lemma s_return_Some [simp]: "s_return x w = Some (y, w') \<longleftrightarrow> y = Inr x \<and> w' = w"
  by (auto simp: s_return_def)

lemma of_py_Some [simp]: "of_py x w = Some (y, w') \<longleftrightarrow> x = y \<and> w' = w"
  by (auto simp: of_py_def)

section \<open>Scripts that return\<close>

text \<open>A script returns if from every world it gives a result, normal or not.\<close>

definition returns :: "('w, 'a) script \<Rightarrow> bool" where
  "returns m \<longleftrightarrow> (\<forall>w. m w \<noteq> None)"

named_theorems returns_intros \<open>how scripts that return are put together\<close>

lemma returns_return [returns_intros]: "returns (s_return x)"
  and returns_of_py [returns_intros]: "returns (of_py p)"
  by (simp_all add: returns_def s_return_def of_py_def)

lemma returns_bind [returns_intros]: "returns m \<Longrightarrow> (\<And>x. returns (f x)) \<Longrightarrow> returns (s_bind m f)"
  unfolding returns_def s_bind_def by (auto split: option.split sum.split)

lemma returns_if [returns_intros]: "(b \<Longrightarrow> returns m) \<Longrightarrow> (\<not> b \<Longrightarrow> returns m') \<Longrightarrow> returns (if b then m else m')"
  by simp

lemma returns_option [returns_intros]:
  "returns m \<Longrightarrow> (\<And>x. returns (f x)) \<Longrightarrow> returns (case p of None \<Rightarrow> m | Some x \<Rightarrow> f x)"
  by (cases p) simp_all

text \<open>A bind on a value that may be an error need only return for the value there is.\<close>

lemma returns_bind_py: "(\<And>x. p = Inr x \<Longrightarrow> returns (f x)) \<Longrightarrow> returns (s_bind (of_py p) f)"
  unfolding returns_def s_bind_def of_py_def by (auto split: sum.split)

section \<open>What a script keeps\<close>

text \<open>If it holds before, it holds when the script ends, normally or not.\<close>

definition keeps :: "('w \<Rightarrow> bool) \<Rightarrow> ('w, 'a) script \<Rightarrow> bool" where
  "keeps P m \<longleftrightarrow> (\<forall>w r w'. P w \<longrightarrow> m w = Some (r, w') \<longrightarrow> P w')"

named_theorems keeps_intros \<open>how scripts that keep a property are put together\<close>

lemma keepsD: "keeps P m \<Longrightarrow> P w \<Longrightarrow> m w = Some (r, w') \<Longrightarrow> P w'"
  by (simp add: keeps_def)

lemma keeps_return [keeps_intros]: "keeps P (s_return x)"
  and keeps_of_py [keeps_intros]: "keeps P (of_py p)"
  by (simp_all add: keeps_def)

lemma keeps_bind [keeps_intros]: "keeps P m \<Longrightarrow> (\<And>x. keeps P (f x)) \<Longrightarrow> keeps P (s_bind m f)"
proof (unfold keeps_def, intro allI impI)
  fix w r w'
  assume k: "\<forall>w r w'. P w \<longrightarrow> m w = Some (r, w') \<longrightarrow> P w'" "\<And>x. \<forall>w r w'. P w \<longrightarrow> f x w = Some (r, w') \<longrightarrow> P w'"
    and p: "P w" and b: "s_bind m f w = Some (r, w')"
  from b obtain r1 w1 where m: "m w = Some (r1, w1)" by (cases "m w") (auto simp: s_bind_def)
  then have "P w1" using k(1) p by blast
  with b m k(2) show "P w'" by (cases r1) (auto simp: s_bind_def)
qed

lemma keeps_if [keeps_intros]: "(b \<Longrightarrow> keeps P m) \<Longrightarrow> (\<not> b \<Longrightarrow> keeps P m') \<Longrightarrow> keeps P (if b then m else m')"
  by simp

end
