(* ===== verification/Supervisor.thy ===== *)
theory Supervisor
  imports Fleet Effects
begin

text \<open>
  \<^verbatim>\<open>_run_multi_worker\<close> and \<^verbatim>\<open>main\<close> of \<^verbatim>\<open>custom-load-generator/load_sender.py\<close>: the parent
  starts one process per worker, polls them, merges what they have written so far, and at the end
  merges once more, removes their files and returns.
\<close>

section \<open>The machine the parent runs on\<close>

text \<open>
  Files by path, those that hold CSV and those that hold a heartbeat; the parent's child processes
  with their environments and, once they have ended, exit codes; the clock.  What else there is,
  the memory of the workers among it, is in \<open>elsewhere\<close>.
\<close>

record 'h machine =
  csv_files :: "string \<Rightarrow> csv option"
  heartbeat_files :: "string \<Rightarrow> heartbeat_json option"
  processes :: "(env \<times> int option) list"
  clock :: int
  elsewhere :: 'h

text \<open>
  What goes on beside the parent: whatever the others do before the parent's next look at a file or
  a process, and while it sleeps, which a \<^verbatim>\<open>KeyboardInterrupt\<close> may end.
\<close>

record 'h outside =
  meanwhile :: "'h machine \<Rightarrow> 'h machine"
  nap :: "int \<Rightarrow> 'h machine \<Rightarrow> bool \<times> 'h machine"

definition look :: "'h outside \<Rightarrow> ('h machine \<Rightarrow> 'a) \<Rightarrow> 'h machine \<Rightarrow> 'a \<times> 'h machine" where
  "look sur f m = (let m' = meanwhile sur m in (f m', m'))"

fun look_all :: "'h outside \<Rightarrow> ('p \<Rightarrow> 'h machine \<Rightarrow> 'a) \<Rightarrow> 'p list \<Rightarrow> 'h machine \<Rightarrow> 'a list \<times> 'h machine" where
  "look_all sur f [] m = ([], m)"
| "look_all sur f (p # ps) m = (case look sur (f p) m of (x, m') \<Rightarrow> (case look_all sur f ps m' of (xs, m'') \<Rightarrow> (x # xs, m'')))"

definition effect :: "('w \<Rightarrow> 'a \<times> 'w) \<Rightarrow> ('w, 'a) script" where
  "effect f = (\<lambda>w. case f w of (x, w') \<Rightarrow> Some (Inr x, w'))"

definition write_csv :: "string \<Rightarrow> csv \<Rightarrow> ('h machine, unit) script" where
  "write_csv path rows = effect (\<lambda>m. ((), m\<lparr>csv_files := (csv_files m)(path \<mapsto> rows)\<rparr>))"

section \<open>Merging and logging\<close>

definition request_paths :: "SenderConfig \<Rightarrow> string list" where
  "request_paths cfg = map (worker_output_path (request_report_path cfg)) [0..worker_count cfg - 1]"

definition statistics_paths :: "SenderConfig \<Rightarrow> string list" where
  "statistics_paths cfg = map (worker_output_path (statistics_report_path cfg)) [0..worker_count cfg - 1]"

definition incident_paths :: "SenderConfig \<Rightarrow> string list" where
  "incident_paths cfg = map (worker_output_path (incident_report_path cfg)) [0..worker_count cfg - 1]"

definition heartbeat_paths :: "SenderConfig \<Rightarrow> string list" where
  "heartbeat_paths cfg = map (worker_heartbeat_path cfg) [0..worker_count cfg - 1]"

definition read_csvs :: "'h outside \<Rightarrow> string list \<Rightarrow> ('h machine, csv option list) script" where
  "read_csvs sur paths = effect (look_all sur (\<lambda>path m. csv_files m path) paths)"

definition merge_to :: "'h outside \<Rightarrow> (csv option list \<Rightarrow> csv py) \<Rightarrow> string list \<Rightarrow> string \<Rightarrow> ('h machine, unit) script" where
  "merge_to sur merging paths out =
     s_bind (read_csvs sur paths) (\<lambda>files. s_bind (of_py (merging files)) (write_csv out))"

definition merge_worker_outputs_live :: "'h outside \<Rightarrow> SenderConfig \<Rightarrow> ('h machine, unit) script" where
  "merge_worker_outputs_live sur cfg =
     s_bind (merge_to sur merge_request_reports (request_paths cfg) (request_report_path cfg)) (\<lambda>_.
     s_bind (merge_to sur merge_statistics_reports (statistics_paths cfg) (statistics_report_path cfg)) (\<lambda>_.
     merge_to sur (\<lambda>files. Inr (merge_incident_reports files)) (incident_paths cfg) (incident_report_path cfg)))"

text \<open>A heartbeat is replaced as a whole, so that a file that is there can be read.\<close>

definition read_heartbeat :: "string \<Rightarrow> 'h machine \<Rightarrow> heartbeat_json option" where
  "read_heartbeat path m = heartbeat_files m path"

definition log_aggregated_worker_progress :: "'h outside \<Rightarrow> SenderConfig \<Rightarrow> ('h machine, unit) script" where
  "log_aggregated_worker_progress sur cfg =
     s_bind (effect (look_all sur read_heartbeat (heartbeat_paths cfg))) (\<lambda>reads.
     s_bind (of_py (aggregate_worker_progress reads)) (\<lambda>_. s_return ()))"

definition merge_and_log :: "'h outside \<Rightarrow> SenderConfig \<Rightarrow> ('h machine, unit) script" where
  "merge_and_log sur cfg = s_bind (merge_worker_outputs_live sur cfg) (\<lambda>_. log_aggregated_worker_progress sur cfg)"

section \<open>Starting and watching the workers\<close>

text \<open>A child is known by its place in the list of processes.\<close>

definition spawn_worker :: "env \<Rightarrow> SenderConfig \<Rightarrow> int \<Rightarrow> 'h machine \<Rightarrow> nat \<times> 'h machine" where
  "spawn_worker env cfg i m =
     (length (processes m), m\<lparr>processes := processes m @ [(worker_env env cfg i, None)]\<rparr>)"

fun spawn_workers :: "env \<Rightarrow> SenderConfig \<Rightarrow> int list \<Rightarrow> 'h machine \<Rightarrow> nat list \<times> 'h machine" where
  "spawn_workers env cfg [] m = ([], m)"
| "spawn_workers env cfg (i # is) m = (case spawn_worker env cfg i m of (h, m') \<Rightarrow>
     (case spawn_workers env cfg is m' of (hs, m'') \<Rightarrow> (h # hs, m'')))"

definition exit_code :: "nat \<Rightarrow> 'h machine \<Rightarrow> int option" where
  "exit_code h m = snd (processes m ! h)"

text \<open>\<^verbatim>\<open>all(process.poll() is not None for process in worker_processes)\<close>\<close>

fun all_exited :: "'h outside \<Rightarrow> nat list \<Rightarrow> 'h machine \<Rightarrow> bool \<times> 'h machine" where
  "all_exited sur [] m = (True, m)"
| "all_exited sur (h # hs) m = (case look sur (exit_code h) m of
     (None, m') \<Rightarrow> (False, m') | (Some _, m') \<Rightarrow> all_exited sur hs m')"

text \<open>The polling loop; its value says whether it was interrupted.\<close>

partial_function (option) watch ::
  "'h outside \<Rightarrow> SenderConfig \<Rightarrow> nat list \<Rightarrow> 'h machine \<Rightarrow> (bool py \<times> 'h machine) option" where
  "watch sur cfg hs m = (case all_exited sur hs m of (over, m1) \<Rightarrow>
     if over then Some (Inr False, m1)
     else (case nap sur (progress_log_interval_sec cfg) m1 of (interrupted, m2) \<Rightarrow>
       if interrupted then Some (Inr True, m2)
       else (case merge_and_log sur cfg m2 of
           None \<Rightarrow> None
         | Some (Inl e, m3) \<Rightarrow> Some (Inl e, m3)
         | Some (Inr _, m3) \<Rightarrow> watch sur cfg hs m3)))"

declare watch.simps [code]

lemma watch_stop: "all_exited sur hs m = (True, m1) \<Longrightarrow> watch sur cfg hs m = Some (Inr False, m1)"
  by (subst watch.simps) simp

lemma watch_round:
  assumes "all_exited sur hs m = (False, m1)" "nap sur (progress_log_interval_sec cfg) m1 = (False, m2)"
    "merge_and_log sur cfg m2 = Some (Inr u, m3)"
  shows "watch sur cfg hs m = watch sur cfg hs m3"
  by (subst watch.simps) (simp add: assms)

text \<open>\<^verbatim>\<open>process.wait()\<close> of a process that has not ended would not return here.\<close>

definition wait_all :: "nat list \<Rightarrow> ('h machine, int list) script" where
  "wait_all hs = (\<lambda>m. case those (map (\<lambda>h. exit_code h m) hs) of
     None \<Rightarrow> None | Some codes \<Rightarrow> Some (Inr codes, m))"

definition unlink_all :: "SenderConfig \<Rightarrow> 'h machine \<Rightarrow> 'h machine" where
  "unlink_all cfg m =
     m\<lparr>csv_files := \<lambda>path. if path \<in> set (request_paths cfg @ statistics_paths cfg @ incident_paths cfg)
         then None else csv_files m path,
       heartbeat_files := \<lambda>path. if path \<in> set (heartbeat_paths cfg) then None else heartbeat_files m path\<rparr>"

section \<open>The two modes of main\<close>

datatype run_mode = SingleWorker | MultiWorker

definition choose_mode :: "SenderConfig \<Rightarrow> run_mode" where
  "choose_mode cfg = (if 1 < worker_count cfg \<and> worker_index cfg = None then MultiWorker else SingleWorker)"

datatype main_end = Returned int | Interrupted | Failed

definition main_exit :: "main_end \<Rightarrow> int" where
  "main_exit e = (case e of Returned n \<Rightarrow> n | Interrupted \<Rightarrow> 130 | Failed \<Rightarrow> 1)"

definition multi_worker_exit :: "int list \<Rightarrow> int" where
  "multi_worker_exit exit_codes = (if list_ex (\<lambda>code. code \<noteq> 0) exit_codes then 1 else 0)"

text \<open>What follows the polling loop.\<close>

definition collect_workers :: "'h outside \<Rightarrow> SenderConfig \<Rightarrow> nat list \<Rightarrow> ('h machine, main_end) script" where
  "collect_workers sur cfg hs =
     s_bind (merge_and_log sur cfg) (\<lambda>_.
     s_bind (wait_all hs) (\<lambda>exit_codes.
     s_bind (effect (\<lambda>m. ((), unlink_all cfg m))) (\<lambda>_.
     s_return (Returned (multi_worker_exit exit_codes)))))"

definition supervise_workers :: "'h outside \<Rightarrow> env \<Rightarrow> SenderConfig \<Rightarrow> ('h machine, main_end) script" where
  "supervise_workers sur env cfg =
     s_bind (effect (spawn_workers env cfg [0..worker_count cfg - 1])) (\<lambda>hs.
     s_bind (watch sur cfg hs) (\<lambda>interrupted.
     if interrupted then s_return Interrupted else collect_workers sur cfg hs))"

definition write_parent_metadata :: "SenderConfig \<Rightarrow> ScriptPoint list \<Rightarrow> ('h machine, unit) script" where
  "write_parent_metadata cfg pts = (\<lambda>m. write_csv (metadata_path cfg) (metadata_rows (script_path cfg) pts (clock m)) m)"

definition run_multi_worker :: "'h outside \<Rightarrow> env \<Rightarrow> ('h machine, main_end) script" where
  "run_multi_worker sur env =
     s_bind (of_py (load_runtime_config env)) (\<lambda>cfg.
     s_bind (of_py (load_workload_config env)) (\<lambda>wl.
     s_bind (\<lambda>m. Some (load_script_points (csv_files m (script_path cfg)) (request_classes wl), m)) (\<lambda>pts.
     s_bind (write_parent_metadata cfg pts) (\<lambda>_.
     supervise_workers sur env cfg))))"

text \<open>
  \<^verbatim>\<open>configure_logging\<close> gives the level or raises, outside the handlers of \<^verbatim>\<open>main\<close>.  The run
  of a single sender, \<open>single\<close>, is the relation of the sender and an argument here.
\<close>

definition upper :: "string \<Rightarrow> string" where
  "upper s = map (\<lambda>c. if CHR ''a'' \<le> c \<and> c \<le> CHR ''z'' then char_of (of_char c - 32 :: nat) else c) s"

definition log_levels :: "string list" where
  "log_levels = [''CRITICAL'', ''FATAL'', ''ERROR'', ''WARN'', ''WARNING'', ''INFO'', ''DEBUG'', ''NOTSET'']"

definition configure_logging :: "env \<Rightarrow> string py" where
  "configure_logging env =
     (let level = (if get_bool env ''QUIET_WORKER_LOGS'' False then ''WARNING''
           else upper (strip (getenv env ''LOG_LEVEL'' ''INFO''))) in
      if level \<in> set log_levels then Inr level else Inl (ValueError ''Unknown level''))"

definition sender_main :: "'h outside \<Rightarrow> (env \<Rightarrow> ('h machine, main_end) script) \<Rightarrow> env \<Rightarrow> ('h machine, int) script" where
  "sender_main sur single env =
     s_bind (of_py (configure_logging env)) (\<lambda>_ m.
       case s_bind (of_py (load_runtime_config env)) (\<lambda>cfg.
           case choose_mode cfg of MultiWorker \<Rightarrow> run_multi_worker sur env | SingleWorker \<Rightarrow> single env) m of
         None \<Rightarrow> None
       | Some (Inl e, m') \<Rightarrow> Some (Inr (main_exit Failed), m')
       | Some (Inr r, m') \<Rightarrow> Some (Inr (main_exit r), m'))"

section \<open>What is assumed of the machine\<close>

text \<open>Processes neither appear nor vanish beside the parent, and one that has ended keeps its exit code.\<close>

definition later :: "'h machine \<Rightarrow> 'h machine \<Rightarrow> bool" where
  "later m m' \<longleftrightarrow> map fst (processes m') = map fst (processes m)
     \<and> (\<forall>h < length (processes m). exit_code h m \<noteq> None \<longrightarrow> exit_code h m' = exit_code h m)"

definition all_ended :: "'h machine \<Rightarrow> bool" where
  "all_ended m \<longleftrightarrow> (\<forall>h < length (processes m). exit_code h m \<noteq> None)"

text \<open>Once all workers have ended, nobody else writes CSV files.\<close>

definition lawful :: "'h outside \<Rightarrow> bool" where
  "lawful sur \<longleftrightarrow> (\<forall>m. later m (meanwhile sur m)) \<and> (\<forall>n m. later m (snd (nap sur n m)))
     \<and> (\<forall>m. all_ended m \<longrightarrow> csv_files (meanwhile sur m) = csv_files m)"

text \<open>The files of the run have different paths.\<close>

definition paths_apart :: "SenderConfig \<Rightarrow> bool" where
  "paths_apart cfg \<longleftrightarrow> distinct ([request_report_path cfg, statistics_report_path cfg, incident_report_path cfg]
     @ request_paths cfg @ statistics_paths cfg @ incident_paths cfg)"

section \<open>After the workers have ended\<close>

lemma later_length: "later m m' \<Longrightarrow> length (processes m') = length (processes m)"
  unfolding later_def by (metis length_map)

lemma later_ended: "later m m' \<Longrightarrow> all_ended m \<Longrightarrow> processes m' = processes m"
proof (rule nth_equalityI)
  fix h assume a: "later m m'" "all_ended m" "h < length (processes m')"
  then have h: "h < length (processes m)" by (simp add: later_length)
  with a(2) have "exit_code h m \<noteq> None" by (simp add: all_ended_def)
  with a(1) h have "exit_code h m' = exit_code h m" unfolding later_def by blast
  then have "snd (processes m' ! h) = snd (processes m ! h)" by (simp add: exit_code_def)
  moreover have "map fst (processes m') ! h = map fst (processes m) ! h" using a(1) unfolding later_def by (elim conjE) (rule arg_cong)
  then have "fst (processes m' ! h) = fst (processes m ! h)" using a(3) h by simp
  ultimately show "processes m' ! h = processes m ! h" by (rule prod_eqI [rotated])
qed (rule later_length)

lemma look_ended:
  assumes "lawful sur" "all_ended m"
  shows "processes (meanwhile sur m) = processes m" "csv_files (meanwhile sur m) = csv_files m"
    "all_ended (meanwhile sur m)"
  using assms later_ended [of m "meanwhile sur m"] by (auto simp: lawful_def all_ended_def exit_code_def)

lemma look_all_ended:
  assumes "lawful sur" "all_ended m" "look_all sur f ps m = (xs, m')"
  shows "processes m' = processes m \<and> csv_files m' = csv_files m \<and> all_ended m'"
  using assms(2,3)
proof (induction ps arbitrary: m xs)
  case (Cons p ps)
  then show ?case using look_ended [OF assms(1) Cons.prems(1)] Cons.IH [OF look_ended(3) [OF assms(1) Cons.prems(1)]]
    by (auto simp: look_def Let_def split: prod.splits)
qed simp

lemma look_all_csv:
  assumes "lawful sur" "all_ended m" "look_all sur (\<lambda>path m. csv_files m path) ps m = (xs, m')"
  shows "xs = map (csv_files m) ps"
  using assms(2,3)
proof (induction ps arbitrary: m xs)
  case (Cons p ps)
  then show ?case using look_ended [OF assms(1) Cons.prems(1)] Cons.IH [OF look_ended(3) [OF assms(1) Cons.prems(1)]]
    by (auto simp: look_def Let_def split: prod.splits)
qed simp

lemma merge_to_ended:
  assumes "lawful sur" "all_ended m" "merge_to sur merging paths out m = Some (Inr u, m')"
  obtains rows where "merging (map (csv_files m) paths) = Inr rows" "csv_files m' = (csv_files m)(out \<mapsto> rows)"
    "processes m' = processes m" "all_ended m'"
proof -
  obtain xs m1 where l: "look_all sur (\<lambda>path m. csv_files m path) paths m = (xs, m1)" by (cases "look_all sur (\<lambda>path m. csv_files m path) paths m")
  note same = look_all_ended [OF assms(1,2) l] look_all_csv [OF assms(1,2) l]
  from assms(3) obtain rows where "merging xs = Inr rows" "m' = m1\<lparr>csv_files := (csv_files m1)(out \<mapsto> rows)\<rparr>"
    by (auto simp: merge_to_def read_csvs_def effect_def l s_bind_Some_Inr write_csv_def)
  with same show ?thesis by (intro that) (auto simp: all_ended_def exit_code_def)
qed

lemma log_ended:
  assumes "lawful sur" "all_ended m" "log_aggregated_worker_progress sur cfg m = Some (Inr u, m')"
  shows "processes m' = processes m \<and> csv_files m' = csv_files m \<and> all_ended m'"
  using assms(3) look_all_ended [OF assms(1,2)]
  by (auto simp: log_aggregated_worker_progress_def s_bind_Some_Inr effect_def split: prod.splits)

lemma those_Some: "those xs = Some ys \<longleftrightarrow> xs = map Some ys"
proof (induction xs arbitrary: ys)
  case (Cons x xs)
  then show ?case by (cases x; cases ys) auto
qed auto

text \<open>The parent's three reports are the merges of what the workers have left.\<close>

lemma collect_ended:
  assumes "lawful sur" "all_ended m" "paths_apart cfg" "collect_workers sur cfg hs m = Some (Inr e, m')"
  obtains r t codes where "merge_request_reports (map (csv_files m) (request_paths cfg)) = Inr r"
    "merge_statistics_reports (map (csv_files m) (statistics_paths cfg)) = Inr t"
    "csv_files m' (request_report_path cfg) = Some r" "csv_files m' (statistics_report_path cfg) = Some t"
    "csv_files m' (incident_report_path cfg) = Some (merge_incident_reports (map (csv_files m) (incident_paths cfg)))"
    "map (\<lambda>h. exit_code h m) hs = map Some codes" "e = Returned (multi_worker_exit codes)"
    "processes m' = processes m"
    "\<forall>path \<in> set (request_paths cfg @ statistics_paths cfg @ incident_paths cfg). csv_files m' path = None"
proof -
  let ?R = "request_report_path cfg" and ?T = "statistics_report_path cfg" and ?I = "incident_report_path cfg"
  have apart: "?R \<noteq> ?T" "?R \<noteq> ?I" "?T \<noteq> ?I" "{?R, ?T, ?I} \<inter> set (request_paths cfg @ statistics_paths cfg @ incident_paths cfg) = {}"
    using assms(3) by (auto simp: paths_apart_def)
  from assms(4) obtain m1 m2 m3 m4 codes where
    1: "merge_to sur merge_request_reports (request_paths cfg) ?R m = Some (Inr (), m1)" and
    2: "merge_to sur merge_statistics_reports (statistics_paths cfg) ?T m1 = Some (Inr (), m2)" and
    3: "merge_to sur (\<lambda>files. Inr (merge_incident_reports files)) (incident_paths cfg) ?I m2 = Some (Inr (), m3)" and
    4: "log_aggregated_worker_progress sur cfg m3 = Some (Inr (), m4)" and
    5: "wait_all hs m4 = Some (Inr codes, m4)" "m' = unlink_all cfg m4" "e = Returned (multi_worker_exit codes)"
    by (auto simp: collect_workers_def merge_and_log_def merge_worker_outputs_live_def s_bind_Some_Inr effect_def
        wait_all_def split: option.splits)
  obtain r where r: "merge_request_reports (map (csv_files m) (request_paths cfg)) = Inr r"
    "csv_files m1 = (csv_files m)(?R \<mapsto> r)" "processes m1 = processes m" "all_ended m1"
    using merge_to_ended [OF assms(1,2) 1] .
  obtain t where t: "merge_statistics_reports (map (csv_files m1) (statistics_paths cfg)) = Inr t"
    "csv_files m2 = (csv_files m1)(?T \<mapsto> t)" "processes m2 = processes m1" "all_ended m2"
    using merge_to_ended [OF assms(1) r(4) 2] .
  obtain i where i: "Inr (merge_incident_reports (map (csv_files m2) (incident_paths cfg))) = (Inr i :: csv py)"
    "csv_files m3 = (csv_files m2)(?I \<mapsto> i)" "processes m3 = processes m2" "all_ended m3"
    using merge_to_ended [OF assms(1) t(4) 3] .
  note l = log_ended [OF assms(1) i(4) 4]
  have stats: "map (csv_files m1) (statistics_paths cfg) = map (csv_files m) (statistics_paths cfg)"
    and incs: "map (csv_files m2) (incident_paths cfg) = map (csv_files m) (incident_paths cfg)"
    unfolding r(2) t(2) using apart(4) by auto
  have "map (\<lambda>h. exit_code h m) hs = map Some codes"
    using 5(1) l r(3) t(3) i(3) by (auto simp: wait_all_def exit_code_def those_Some split: option.splits)
  moreover have "csv_files m' ?R = Some r" "csv_files m' ?T = Some t" "csv_files m' ?I = Some i"
    using l r(2) t(2) i(2) apart by (auto simp: 5(2) unlink_all_def)
  moreover have "i = merge_incident_reports (map (csv_files m) (incident_paths cfg))" using i(1) incs by simp
  moreover have "processes m' = processes m" using l r(3) t(3) i(3) by (simp add: 5(2) unlink_all_def)
  moreover have "\<forall>path \<in> set (request_paths cfg @ statistics_paths cfg @ incident_paths cfg). csv_files m' path = None"
    by (simp add: 5(2) unlink_all_def)
  ultimately show ?thesis using that r(1) t(1) 5(3) stats by simp
qed

section \<open>The polling loop\<close>

lemma later_refl [simp]: "later m m"
  by (simp add: later_def)

lemma later_trans:
  assumes "later m m1" "later m1 m2"
  shows "later m m2"
  unfolding later_def
proof (intro conjI allI impI)
  show "map fst (processes m2) = map fst (processes m)" using assms by (simp add: later_def)
  fix h assume h: "h < length (processes m)" "exit_code h m \<noteq> None"
  then have 1: "exit_code h m1 = exit_code h m" using assms(1) unfolding later_def by blast
  moreover have "exit_code h m2 = exit_code h m1"
    using assms(2) h 1 later_length [OF assms(1)] unfolding later_def by metis
  ultimately show "exit_code h m2 = exit_code h m" by simp
qed

lemma polled:
  assumes "lawful sur" "all_exited sur hs m = (over, m')" "\<forall>h \<in> set hs. h < length (processes m)"
  shows "later m m' \<and> (over \<longrightarrow> (\<forall>h \<in> set hs. exit_code h m' \<noteq> None))"
  using assms(2,3)
proof (induction hs arbitrary: m)
  case (Cons h hs)
  let ?m = "meanwhile sur m"
  have l: "later m ?m" using assms(1) by (simp add: lawful_def)
  show ?case
  proof (cases "exit_code h ?m")
    case None
    then show ?thesis using Cons.prems(1) l by (simp add: look_def Let_def)
  next
    case (Some c)
    then have rest: "all_exited sur hs ?m = (over, m')" using Cons.prems(1) by (simp add: look_def Let_def)
    have "\<forall>h \<in> set hs. h < length (processes ?m)" using Cons.prems(2) later_length [OF l] by simp
    from Cons.IH [OF rest this] have ih: "later ?m m'" "over \<longrightarrow> (\<forall>h \<in> set hs. exit_code h m' \<noteq> None)" by blast+
    have "exit_code h m' = exit_code h ?m"
      using ih(1) Some Cons.prems(2) later_length [OF l] unfolding later_def by (metis list.set_intros(1) option.distinct(1))
    then show ?thesis using ih later_trans [OF l ih(1)] Some by simp
  qed
qed simp

lemma all_exited_keeps:
  assumes "\<And>m. P m \<Longrightarrow> P (meanwhile sur m)" "P m" "all_exited sur hs m = (over, m')"
  shows "P m'"
  using assms(2,3)
proof (induction hs arbitrary: m)
  case (Cons h hs)
  then show ?case using assms(1) by (cases "exit_code h (meanwhile sur m)") (auto simp: look_def Let_def)
qed simp

lemma watch_keeps:
  assumes "\<And>m. P m \<Longrightarrow> P (meanwhile sur m)" "\<And>n m. P m \<Longrightarrow> P (snd (nap sur n m))" "keeps P (merge_and_log sur cfg)"
    and "watch sur cfg hs m = Some (r, m')" "P m"
  shows "P m' \<and> (r = Inr False \<longrightarrow> (\<exists>m0. P m0 \<and> all_exited sur hs m0 = (True, m')))"
proof -
  let ?Q = "\<lambda>sur' cfg' hs' m y. sur' = sur \<longrightarrow> cfg' = cfg \<longrightarrow> hs' = hs \<longrightarrow> P m \<longrightarrow>
    P (snd y) \<and> (fst y = Inr False \<longrightarrow> (\<exists>m0. P m0 \<and> all_exited sur hs m0 = (True, snd y)))"
  have "?Q sur cfg hs m y" if "watch sur cfg hs m = Some y" for y
    using that
  proof (rule watch.raw_induct [where P = ?Q, rotated], intro impI)
    fix watch' sur' cfg' hs' m y
    assume ih: "\<And>sur' cfg' hs' m y. watch' sur' cfg' hs' m = Some y \<Longrightarrow> ?Q sur' cfg' hs' m y"
      and body: "(case all_exited sur' hs' m of (over, m1) \<Rightarrow> if over then Some (Inr False, m1)
        else (case nap sur' (progress_log_interval_sec cfg') m1 of (interrupted, m2) \<Rightarrow>
          if interrupted then Some (Inr True, m2)
          else (case merge_and_log sur' cfg' m2 of None \<Rightarrow> None | Some (Inl e, m3) \<Rightarrow> Some (Inl e, m3)
            | Some (Inr _, m3) \<Rightarrow> watch' sur' cfg' hs' m3))) = Some y"
      and eqs: "sur' = sur" "cfg' = cfg" "hs' = hs" and pm: "P m"
    obtain over m1 where poll: "all_exited sur hs m = (over, m1)" by (cases "all_exited sur hs m")
    have p1: "P m1" using all_exited_keeps [OF assms(1) pm poll] .
    obtain interrupted m2 where nap: "nap sur (progress_log_interval_sec cfg) m1 = (interrupted, m2)"
      by (cases "nap sur (progress_log_interval_sec cfg) m1")
    then have p2: "P m2" using assms(2) [OF p1, of "progress_log_interval_sec cfg"] by simp
    show "P (snd y) \<and> (fst y = Inr False \<longrightarrow> (\<exists>m0. P m0 \<and> all_exited sur hs m0 = (True, snd y)))"
    proof (cases "over \<or> interrupted")
      case True
      then show ?thesis using body p1 p2 pm poll nap eqs by (cases over) auto
    next
      case False
      then obtain r3 m3 where log: "merge_and_log sur cfg m2 = Some (r3, m3)"
        using body poll nap eqs by (cases "merge_and_log sur cfg m2") auto
      have p3: "P m3" using keepsD [OF assms(3) p2 log] .
      show ?thesis
      proof (cases r3)
        case (Inl e)
        then show ?thesis using body False poll nap log eqs p3 by auto
      next
        case (Inr u)
        then have "watch' sur cfg hs m3 = Some y" using body False poll nap log eqs by auto
        then show ?thesis using ih p3 by blast
      qed
    qed
  qed
  from this [OF assms(4)] assms(5) show ?thesis by simp
qed

lemma look_all_keeps:
  assumes "\<And>m. P m \<Longrightarrow> P (meanwhile sur m)"
  shows "keeps P (effect (look_all sur f ps))"
proof -
  have "P m \<Longrightarrow> look_all sur f ps m = (xs, m') \<Longrightarrow> P m'" for m xs m'
  proof (induction ps arbitrary: m xs)
    case (Cons p ps)
    then show ?case using assms by (auto simp: look_def Let_def split: prod.splits)
  qed simp
  then show ?thesis unfolding keeps_def effect_def by (auto split: prod.splits)
qed

lemma write_csv_keeps:
  assumes "\<And>m rows. P m \<Longrightarrow> P (m\<lparr>csv_files := (csv_files m)(out \<mapsto> rows)\<rparr>)"
  shows "keeps P (write_csv out rows)"
  using assms by (simp add: keeps_def write_csv_def effect_def)

lemma merge_and_log_keeps:
  assumes "\<And>m. P m \<Longrightarrow> P (meanwhile sur m)"
    and "\<And>out m rows. out \<in> {request_report_path cfg, statistics_report_path cfg, incident_report_path cfg} \<Longrightarrow> P m \<Longrightarrow>
      P (m\<lparr>csv_files := (csv_files m)(out \<mapsto> rows)\<rparr>)"
  shows "keeps P (merge_and_log sur cfg)"
  unfolding merge_and_log_def merge_worker_outputs_live_def log_aggregated_worker_progress_def merge_to_def read_csvs_def
  by (intro keeps_intros look_all_keeps write_csv_keeps assms) simp_all

section \<open>Workers that are senders\<close>

text \<open>
  A child process runs \<^verbatim>\<open>main\<close> of the same file in its own environment: what it has left
  when it ends with 0 is what a finished run of the sender leaves at its request report's path.
\<close>

definition leaves_reports :: "csv option \<Rightarrow> 'h machine \<Rightarrow> bool" where
  "leaves_reports script m \<longleftrightarrow> (\<forall>h < length (processes m). exit_code h m = Some 0 \<longrightarrow>
     (\<exists>cfg t0 s0 s. load_runtime_config (fst (processes m ! h)) = Inr cfg
        \<and> start_sender (fst (processes m ! h)) script t0 = Inr s0 \<and> initial s0 \<and> steps s0 s \<and> sched s = Finished
        \<and> csv_files m (request_report_path cfg) = Some (rr_file (report_writer s))))"

definition worker_envs :: "env \<Rightarrow> SenderConfig \<Rightarrow> env list" where
  "worker_envs env cfg = map (worker_env env cfg) [0..worker_count cfg - 1]"

definition runs_senders :: "'h outside \<Rightarrow> env list \<Rightarrow> csv option \<Rightarrow> bool" where
  "runs_senders sur envs script \<longleftrightarrow> (\<forall>m. map fst (processes m) = envs \<longrightarrow> leaves_reports script m \<longrightarrow>
     leaves_reports script (meanwhile sur m) \<and> (\<forall>n. leaves_reports script (snd (nap sur n m))))"

lemma worker_envs_nth: "h < length (worker_envs env cfg) \<Longrightarrow> worker_envs env cfg ! h = worker_env env cfg (int h)"
  by (simp add: worker_envs_def upto_of_nat)

lemma request_paths_nth:
  "h < length (worker_envs env cfg) \<Longrightarrow> request_paths cfg ! h = worker_output_path (request_report_path cfg) (int h)"
  by (simp add: worker_envs_def request_paths_def upto_of_nat)

lemma worker_loads:
  assumes "load_runtime_config env = Inr cfg" "h < length (worker_envs env cfg)"
  shows "load_runtime_config (worker_envs env cfg ! h) = Inr (worker_cfg cfg (int h))"
  using worker_config [OF assms(1), of "int h"] assms(2)
  by (simp add: worker_envs_nth worker_cfg_def) (simp add: worker_envs_def)

text \<open>The parent's own writes do not touch what the workers have left.\<close>

lemma leaves_reports_write:
  assumes "load_runtime_config env = Inr cfg" "map fst (processes m) = worker_envs env cfg" "leaves_reports script m"
    "out \<notin> set (request_paths cfg)"
  shows "leaves_reports script (m\<lparr>csv_files := (csv_files m)(out \<mapsto> rows)\<rparr>)"
proof -
  have len: "length (processes m) = length (worker_envs env cfg)" using arg_cong [OF assms(2), of length] by simp
  have "wcfg = worker_cfg cfg (int h) \<and> request_report_path wcfg \<noteq> out"
    if "h < length (processes m)" "load_runtime_config (fst (processes m ! h)) = Inr wcfg" for h wcfg
  proof -
    have h: "h < length (worker_envs env cfg)" using that(1) len by simp
    have "fst (processes m ! h) = worker_envs env cfg ! h" using that(1) assms(2) by (metis nth_map)
    then have w: "wcfg = worker_cfg cfg (int h)" using worker_loads [OF assms(1) h] that(2) by simp
    have "request_report_path wcfg = request_paths cfg ! h" by (simp add: w worker_cfg_def request_paths_nth [OF h])
    moreover have "h < length (request_paths cfg)" using h by (simp add: worker_envs_def request_paths_def)
    ultimately show ?thesis using w assms(4) by (metis nth_mem)
  qed
  then show ?thesis using assms(3) unfolding leaves_reports_def exit_code_def by (fastforce simp: fun_upd_def)
qed

lemma workload_own: "load_workload_config (worker_env env cfg i) = load_workload_config env"
proof -
  have "''SCRIPT_RANDOM_SEED'' \<notin> set worker_names" "''DEMAND_BASE_PATH'' \<notin> set worker_names" "''REQUEST_CLASSES'' \<notin> set worker_names"
    by (simp_all add: worker_names_def)
  then show ?thesis by (simp add: load_workload_config_def worker_env_other)
qed

lemma ended_worker:
  assumes "load_runtime_config env = Inr cfg" "load_workload_config env = Inr wl"
    "load_script_points script (request_classes wl) = Inr pts"
    "map fst (processes m) = worker_envs env cfg" "leaves_reports script m"
    "h < length (worker_envs env cfg)" "exit_code h m = Some 0"
  shows "\<exists>s. worker_ended cfg wl pts h s \<and> csv_files m (request_paths cfg ! h) = Some (rr_file (report_writer s))"
proof -
  have len: "h < length (processes m)" using arg_cong [OF assms(4), of length] assms(6) by simp
  have e: "fst (processes m ! h) = worker_env env cfg (int h)"
    using assms(4) worker_envs_nth [OF assms(6)] len by (metis nth_map)
  obtain wcfg t0 s0 s where w: "load_runtime_config (worker_env env cfg (int h)) = Inr wcfg"
    "start_sender (worker_env env cfg (int h)) script t0 = Inr s0" "initial s0" "steps s0 s" "sched s = Finished"
    "csv_files m (request_report_path wcfg) = Some (rr_file (report_writer s))"
    using assms(5,7) len unfolding leaves_reports_def by (metis e)
  have cfg: "wcfg = worker_cfg cfg (int h)"
    using w(1) worker_loads [OF assms(1,6)] by (simp add: worker_envs_nth [OF assms(6)])
  have "s0 = init_sender (worker_cfg cfg (int h)) wl pts t0"
    using w(1,2) assms(2,3) by (auto simp: start_sender_def workload_own cfg WorkloadPlanner_def res_bind_Inr_iff split: if_splits)
  then have "worker_ended cfg wl pts h s" using w(3,4,5) unfolding worker_ended_def by blast
  then show ?thesis using w(6) by (auto simp: cfg worker_cfg_def request_paths_nth [OF assms(6)])
qed

lemma ended_fleet:
  assumes "load_runtime_config env = Inr cfg" "load_workload_config env = Inr wl"
    "load_script_points script (request_classes wl) = Inr pts"
    "map fst (processes m) = worker_envs env cfg" "leaves_reports script m"
    "map snd (processes m) = map (\<lambda>_. Some 0) codes" "length codes = length (worker_envs env cfg)"
  shows "\<exists>ss. fleet_ended cfg wl pts ss
     \<and> map (csv_files m) (request_paths cfg) = map (\<lambda>s. Some (rr_file (report_writer s))) ss"
proof -
  let ?n = "length (worker_envs env cfg)"
  have "exit_code h m = Some 0" if "h < ?n" for h
  proof -
    have "map snd (processes m) ! h = Some 0" using that assms(7) by (simp add: assms(6))
    moreover have "h < length (processes m)" using that arg_cong [OF assms(4), of length] by simp
    ultimately show ?thesis by (simp add: exit_code_def)
  qed
  then have "\<exists>s. worker_ended cfg wl pts h s \<and> csv_files m (request_paths cfg ! h) = Some (rr_file (report_writer s))"
    if "h < ?n" for h
    using ended_worker [OF assms(1-5) that] that by blast
  then obtain f where f: "\<And>h. h < ?n \<Longrightarrow> worker_ended cfg wl pts h (f h)
      \<and> csv_files m (request_paths cfg ! h) = Some (rr_file (report_writer (f h)))" by metis
  have n: "?n = nat (worker_count cfg)" "length (request_paths cfg) = ?n" by (simp_all add: worker_envs_def request_paths_def)
  have "fleet_ended cfg wl pts (map f [0..<?n])" using f n(1) by (simp add: fleet_ended_def)
  moreover have "map (csv_files m) (request_paths cfg) = map (\<lambda>s. Some (rr_file (report_writer s))) (map f [0..<?n])"
    using f n(2) by (intro nth_equalityI) simp_all
  ultimately show ?thesis by blast
qed

section \<open>The run of the parent\<close>

lemma spawned:
  "spawn_workers env cfg is m = ([length (processes m)..<length (processes m) + length is],
     m\<lparr>processes := processes m @ map (\<lambda>i. (worker_env env cfg i, None)) is\<rparr>)"
  by (induction "is" arbitrary: m) (simp_all add: spawn_worker_def upt_conv_Cons del: upt_Suc)

text \<open>How far the parent has come when its polling loop begins.\<close>

lemma run_multi_workerE:
  assumes "run_multi_worker sur env m = Some (Inr r, m')" "processes m = []"
  obtains cfg wl pts interrupted m1 m2 where "load_runtime_config env = Inr cfg" "load_workload_config env = Inr wl"
    "load_script_points (csv_files m (script_path cfg)) (request_classes wl) = Inr pts"
    "processes m1 = map (\<lambda>e. (e, None)) (worker_envs env cfg)"
    "watch sur cfg [0..<length (worker_envs env cfg)] m1 = Some (Inr interrupted, m2)"
    "(if interrupted then s_return Interrupted else collect_workers sur cfg [0..<length (worker_envs env cfg)]) m2 = Some (Inr r, m')"
proof -
  from assms(1) obtain cfg wl pts interrupted m0 m1 hs m2 where
    "load_runtime_config env = Inr cfg" "load_workload_config env = Inr wl"
    "load_script_points (csv_files m (script_path cfg)) (request_classes wl) = Inr pts"
    and w: "write_parent_metadata cfg pts m = Some (Inr (), m0)"
    and sp: "spawn_workers env cfg [0..worker_count cfg - 1] m0 = (hs, m1)"
    and "watch sur cfg hs m1 = Some (Inr interrupted, m2)"
    "(if interrupted then s_return Interrupted else collect_workers sur cfg hs) m2 = Some (Inr r, m')"
    unfolding run_multi_worker_def supervise_workers_def effect_def
    by (auto elim!: s_bindE of_py_bindE split: prod.splits)
  moreover have "processes m0 = []" using w assms(2) by (auto simp: write_parent_metadata_def write_csv_def effect_def)
  then have "hs = [0..<length (worker_envs env cfg)]" "processes m1 = map (\<lambda>e. (e, None)) (worker_envs env cfg)"
    using sp unfolding spawned by (auto simp: worker_envs_def)
  ultimately show ?thesis using that by blast
qed

lemma paths_apart_requests:
  "paths_apart cfg \<Longrightarrow> out \<in> {request_report_path cfg, statistics_report_path cfg, incident_report_path cfg} \<Longrightarrow>
     out \<notin> set (request_paths cfg)"
  by (auto simp: paths_apart_def)

lemma multi_worker_returned:
  assumes "lawful sur" "runs_senders sur (worker_envs env cfg) script" "processes m = []"
    "csv_files m (script_path cfg) = script" "load_runtime_config env = Inr cfg" "paths_apart cfg"
    "run_multi_worker sur env m = Some (Inr (Returned code), m')"
  shows "\<exists>codes wl pts. load_workload_config env = Inr wl \<and> load_script_points script (request_classes wl) = Inr pts
     \<and> processes m' = zip (worker_envs env cfg) (map Some codes) \<and> length codes = nat (worker_count cfg)
     \<and> code = (if \<forall>c \<in> set codes. c = 0 then 0 else 1)
     \<and> (\<forall>path \<in> set (request_paths cfg @ statistics_paths cfg @ incident_paths cfg). csv_files m' path = None)
     \<and> (code = 0 \<longrightarrow> (\<exists>ss. fleet_ended cfg wl pts ss
          \<and> csv_files m' (request_report_path cfg) = Some (request_file (concat (map starts ss)))))"
proof -
  let ?envs = "worker_envs env cfg"
  let ?P = "\<lambda>m. map fst (processes m) = ?envs \<and> leaves_reports script m"
  obtain wl pts interrupted m1 m2 where wl: "load_workload_config env = Inr wl"
    and pts: "load_script_points script (request_classes wl) = Inr pts"
    and m1: "processes m1 = map (\<lambda>e. (e, None)) ?envs"
    and watch: "watch sur cfg [0..<length ?envs] m1 = Some (Inr interrupted, m2)"
    and rest: "(if interrupted then s_return Interrupted else collect_workers sur cfg [0..<length ?envs]) m2
      = Some (Inr (Returned code), m')"
    using run_multi_workerE [OF assms(7,3)] assms(4,5) by (metis sum.inject(2))
  have go: "\<not> interrupted" and collect: "collect_workers sur cfg [0..<length ?envs] m2 = Some (Inr (Returned code), m')"
    using rest by (cases interrupted; simp)+
  have step: "later m (meanwhile sur m)" "later m (snd (nap sur n m))" for m n using assms(1) by (auto simp: lawful_def)
  have "?P m1" using m1 by (simp add: leaves_reports_def exit_code_def comp_def)
  moreover have "?P m \<Longrightarrow> ?P (meanwhile sur m)" "?P m \<Longrightarrow> ?P (snd (nap sur n m))" for m n
    using assms(2) step unfolding runs_senders_def later_def by simp_all
  moreover have "keeps ?P (merge_and_log sur cfg)"
  proof (rule merge_and_log_keeps)
    fix out and m :: "'a machine" and rows
    assume out: "out \<in> {request_report_path cfg, statistics_report_path cfg, incident_report_path cfg}" and p: "?P m"
    show "?P (m\<lparr>csv_files := (csv_files m)(out \<mapsto> rows)\<rparr>)"
      using leaves_reports_write [OF assms(5) conjunct1 [OF p] conjunct2 [OF p] paths_apart_requests [OF assms(6) out]] p by simp
  qed (rule calculation(2))
  ultimately obtain m0 where m2: "?P m2" and m0: "?P m0" "all_exited sur [0..<length ?envs] m0 = (True, m2)"
    using watch_keeps [of ?P sur cfg, OF _ _ _ watch] go by auto
  have len: "length (processes m0) = length ?envs" "length (processes m2) = length ?envs"
    using m0(1) m2 by (metis length_map)+
  then have ended: "all_ended m2" using polled [OF assms(1) m0(2)] by (auto simp: all_ended_def)
  obtain r t codes where merged: "merge_request_reports (map (csv_files m2) (request_paths cfg)) = Inr r"
    and "merge_statistics_reports (map (csv_files m2) (statistics_paths cfg)) = Inr t"
    and report: "csv_files m' (request_report_path cfg) = Some r" and "csv_files m' (statistics_report_path cfg) = Some t"
    and "csv_files m' (incident_report_path cfg) = Some (merge_incident_reports (map (csv_files m2) (incident_paths cfg)))"
    and cs: "map (\<lambda>h. exit_code h m2) [0..<length ?envs] = map Some codes"
    and ret: "Returned code = Returned (multi_worker_exit codes)" and same: "processes m' = processes m2"
    and gone: "\<forall>path \<in> set (request_paths cfg @ statistics_paths cfg @ incident_paths cfg). csv_files m' path = None"
    using collect_ended [OF assms(1) ended assms(6) collect] .
  have codes: "map snd (processes m2) = map Some codes"
  proof -
    have "map (\<lambda>h. exit_code h m2) [0..<length ?envs] = map snd (processes m2)"
      by (rule nth_equalityI) (use len(2) in \<open>simp_all add: exit_code_def\<close>)
    from trans [OF this [symmetric] cs] show ?thesis .
  qed
  have lcodes: "length codes = length ?envs" using arg_cong [OF codes, of length] len(2) by simp
  have n: "length ?envs = nat (worker_count cfg)" by (simp add: worker_envs_def)
  have procs: "processes m' = zip ?envs (map Some codes)" using m2 codes same by (metis zip_map_fst_snd)
  have code: "code = (if \<forall>c \<in> set codes. c = 0 then 0 else 1)"
    using ret by (auto simp: multi_worker_exit_def list_ex_iff)
  have "\<exists>ss. fleet_ended cfg wl pts ss \<and> csv_files m' (request_report_path cfg) = Some (request_file (concat (map starts ss)))"
    if "code = 0"
  proof -
    have "\<forall>c \<in> set codes. c = 0" using code that by (metis zero_neq_one)
    then have "map snd (processes m2) = map (\<lambda>_. Some 0) codes" using codes by simp
    from ended_fleet [OF assms(5) wl pts conjunct1 [OF m2] conjunct2 [OF m2] this lcodes] obtain ss where
      ss: "fleet_ended cfg wl pts ss" "map (csv_files m2) (request_paths cfg) = map (\<lambda>s. Some (rr_file (report_writer s))) ss"
      by blast
    moreover have "1 \<le> worker_count cfg" using loaded_config [OF assms(5)] by (simp add: valid_config_def)
    ultimately have "r = request_file (concat (map starts ss))" using fleet_merged [OF ss(1)] merged by auto
    with ss(1) report show ?thesis by blast
  qed
  with gone show ?thesis
    by (intro exI [of _ codes] exI [of _ wl] exI [of _ pts] conjI impI wl pts procs code)
      (simp_all only: lcodes n)
qed

section \<open>The parent returns\<close>

text \<open>
  Every sleep of the parent brings the workers nearer to their end, by a rank of the memory that
  only they change.
\<close>

definition makes_progress :: "'h outside \<Rightarrow> ('h \<Rightarrow> nat) \<Rightarrow> bool" where
  "makes_progress sur rank \<longleftrightarrow> (\<forall>m. rank (elsewhere (meanwhile sur m)) \<le> rank (elsewhere m))
     \<and> (\<forall>n m. \<not> all_ended (snd (nap sur n m)) \<longrightarrow> rank (elsewhere (snd (nap sur n m))) < rank (elsewhere m))"

lemma returns_effect [returns_intros]: "returns (effect f)"
  by (simp add: returns_def effect_def split: prod.split)

lemma returns_merge_and_log: "returns (merge_and_log sur cfg)"
  unfolding merge_and_log_def merge_worker_outputs_live_def log_aggregated_worker_progress_def merge_to_def read_csvs_def write_csv_def
  by (intro returns_intros)

lemma later_all_ended: "later m m' \<Longrightarrow> all_ended m \<Longrightarrow> all_ended m'"
  using later_ended [of m m'] by (simp add: all_ended_def exit_code_def)

lemma merge_and_log_later: "lawful sur \<Longrightarrow> keeps (later m) (merge_and_log sur cfg)"
proof (rule merge_and_log_keeps)
  fix m1 :: "'a machine" assume "lawful sur" "later m m1"
  then show "later m (meanwhile sur m1)" using later_trans unfolding lawful_def by blast
qed (simp add: later_def exit_code_def)

lemma merge_and_log_rank: "makes_progress sur rank \<Longrightarrow> keeps (\<lambda>m. rank (elsewhere m) \<le> k) (merge_and_log sur cfg)"
proof (rule merge_and_log_keeps)
  fix m :: "'a machine" assume "makes_progress sur rank" "rank (elsewhere m) \<le> k"
  then show "rank (elsewhere (meanwhile sur m)) \<le> k" unfolding makes_progress_def by (meson order_trans)
qed simp

lemma polled_ended:
  assumes "lawful sur" "all_ended m" "\<forall>h \<in> set hs. h < length (processes m)"
  shows "fst (all_exited sur hs m)"
  using assms(2,3)
proof (induction hs arbitrary: m)
  case (Cons h hs)
  note same = look_ended [OF assms(1) Cons.prems(1)]
  have "exit_code h (meanwhile sur m) \<noteq> None" using Cons.prems same(1) by (simp add: all_ended_def exit_code_def)
  then show ?case using Cons.IH [OF same(3)] Cons.prems(2) same(1) by (auto simp: look_def Let_def)
qed simp

lemma watch_ended:
  assumes "lawful sur" "all_ended m" "\<forall>h \<in> set hs. h < length (processes m)"
  shows "watch sur cfg hs m \<noteq> None"
  using polled_ended [OF assms] by (subst watch.simps) (auto split: prod.split)

lemma watch_returns:
  assumes "lawful sur" "makes_progress sur rank" "\<forall>h \<in> set hs. h < length (processes m)"
  shows "watch sur cfg hs m \<noteq> None"
  using assms(3)
proof (induction "rank (elsewhere m)" arbitrary: m rule: less_induct)
  case less
  obtain over m1 where poll: "all_exited sur hs m = (over, m1)" by (cases "all_exited sur hs m")
  have m1: "later m m1" using polled [OF assms(1) poll less.prems] by blast
  have r1: "rank (elsewhere m1) \<le> rank (elsewhere m)"
  proof (rule all_exited_keeps [where P = "\<lambda>m1. rank (elsewhere m1) \<le> rank (elsewhere m)", OF _ _ poll])
    fix m2 :: "'a machine" assume "rank (elsewhere m2) \<le> rank (elsewhere m)"
    then show "rank (elsewhere (meanwhile sur m2)) \<le> rank (elsewhere m)"
      using assms(2) unfolding makes_progress_def by (meson order_trans)
  qed simp
  obtain interrupted m2 where nap: "nap sur (progress_log_interval_sec cfg) m1 = (interrupted, m2)"
    by (cases "nap sur (progress_log_interval_sec cfg) m1")
  then have m2: "later m1 m2" using assms(1) unfolding lawful_def by (metis snd_conv)
  obtain r m3 where log: "merge_and_log sur cfg m2 = Some (r, m3)"
    using returns_merge_and_log unfolding returns_def by (metis not_None_eq surj_pair)
  have m3: "later m2 m3" using keepsD [OF merge_and_log_later [OF assms(1)] later_refl log] .
  have h3: "\<forall>h \<in> set hs. h < length (processes m3)"
    using less.prems later_length [OF m1] later_length [OF m2] later_length [OF m3] by simp
  have "watch sur cfg hs m3 \<noteq> None"
  proof (cases "all_ended m2")
    case True
    then show ?thesis using watch_ended [OF assms(1) later_all_ended [OF m3] h3] by blast
  next
    case False
    then have "rank (elsewhere m2) < rank (elsewhere m1)" using assms(2) nap unfolding makes_progress_def by (metis snd_conv)
    moreover have "rank (elsewhere m3) \<le> rank (elsewhere m2)"
      using keepsD [OF merge_and_log_rank [OF assms(2)] order_refl log] .
    ultimately show ?thesis using less.hyps [OF _ h3] r1 by simp
  qed
  then show ?case by (subst watch.simps) (auto simp: poll nap log split: sum.split)
qed

lemma collect_returns:
  assumes "lawful sur" "\<forall>h \<in> set hs. h < length (processes m) \<and> exit_code h m \<noteq> None"
  shows "collect_workers sur cfg hs m \<noteq> None"
proof -
  obtain r m1 where log: "merge_and_log sur cfg m = Some (r, m1)"
    using returns_merge_and_log unfolding returns_def by (metis not_None_eq surj_pair)
  have "later m m1" using keepsD [OF merge_and_log_later [OF assms(1)] later_refl log] .
  then have "\<forall>h \<in> set hs. exit_code h m1 \<noteq> None" using assms(2) unfolding later_def by metis
  then have "map (\<lambda>h. exit_code h m1) hs = map Some (map (\<lambda>h. the (exit_code h m1)) hs)" by simp
  then have "those (map (\<lambda>h. exit_code h m1) hs) = Some (map (\<lambda>h. the (exit_code h m1)) hs)" by (simp only: those_Some)
  then have "wait_all hs m1 \<noteq> None" by (simp add: wait_all_def)
  then show ?thesis using log
    by (cases r) (auto simp: collect_workers_def s_bind_def effect_def s_return_def wait_all_def split: sum.split option.splits)
qed

lemma s_bind_returns:
  "m w = Some (r, w1) \<Longrightarrow> (\<And>x. r = Inr x \<Longrightarrow> f x w1 \<noteq> None) \<Longrightarrow> s_bind m f w \<noteq> None"
  by (cases r) (simp_all add: s_bind_def)

lemma of_py_returns: "(\<And>x. p = Inr x \<Longrightarrow> f x w \<noteq> None) \<Longrightarrow> s_bind (of_py p) f w \<noteq> None"
  by (rule s_bind_returns [of "of_py p" w p w]) (simp_all add: of_py_def)

lemma supervise_returns:
  assumes "lawful sur" "makes_progress sur rank" "processes m = []"
  shows "supervise_workers sur env cfg m \<noteq> None"
proof -
  let ?hs = "[0..<length [0..worker_count cfg - 1]]"
  obtain m1 where m1: "effect (spawn_workers env cfg [0..worker_count cfg - 1]) m = Some (Inr ?hs, m1)"
    "length (processes m1) = length [0..worker_count cfg - 1]" using assms(3) by (simp add: effect_def spawned)
  have hs: "\<forall>h \<in> set ?hs. h < length (processes m1)" using m1(2) by simp
  obtain r m2 where w: "watch sur cfg ?hs m1 = Some (r, m2)"
    using watch_returns [OF assms(1,2) hs] by (metis not_None_eq surj_pair)
  have "collect_workers sur cfg ?hs m2 \<noteq> None" if "r = Inr False"
  proof -
    let ?P = "\<lambda>m. length (processes m) = length (processes m1)"
    have keep: "?P (meanwhile sur m)" "?P (snd (nap sur n m))" if "?P m" for m n
      using that later_length assms(1) unfolding lawful_def by metis+
    have "keeps ?P (merge_and_log sur cfg)" by (rule merge_and_log_keeps) (simp_all add: keep(1))
    from watch_keeps [of ?P sur cfg, OF keep this w refl] that obtain mp where
      mp: "?P m2" "?P mp" "all_exited sur ?hs mp = (True, m2)" by blast
    then have "\<forall>h \<in> set ?hs. exit_code h m2 \<noteq> None" using polled [OF assms(1) mp(3)] hs by simp
    with mp(1) hs show ?thesis by (intro collect_returns [OF assms(1)]) simp
  qed
  then have rest: "(if interrupted then s_return Interrupted else collect_workers sur cfg ?hs) m2 \<noteq> None"
    if "r = Inr interrupted" for interrupted
    using that by (cases interrupted) (simp_all add: s_return_def)
  have "s_bind (watch sur cfg ?hs) (\<lambda>interrupted.
      if interrupted then s_return Interrupted else collect_workers sur cfg ?hs) m1 \<noteq> None"
    by (rule s_bind_returns, rule w, rule rest)
  then show ?thesis
    by (simp only: supervise_workers_def s_bind_def [of "effect (spawn_workers env cfg [0..worker_count cfg - 1])"]
        m1(1) option.case prod.case sum.case not_False_eq_True)
qed

lemma multi_worker_returns:
  assumes "lawful sur" "makes_progress sur rank" "processes m = []"
  shows "run_multi_worker sur env m \<noteq> None"
  unfolding run_multi_worker_def
proof (rule of_py_returns, rule of_py_returns, rule s_bind_returns, rule refl)
  fix cfg wl pts
  obtain m1 where "write_parent_metadata cfg pts m = Some (Inr (), m1)" "processes m1 = []"
    using assms(3) by (simp add: write_parent_metadata_def write_csv_def effect_def)
  then show "s_bind (write_parent_metadata cfg pts) (\<lambda>_. supervise_workers sur env cfg) m \<noteq> None"
    using supervise_returns [OF assms(1,2), of m1 env cfg] by (simp add: s_bind_def)
qed

section \<open>A concrete machine\<close>

text \<open>One sleep of the parent is enough for the workers: each leaves its report and ends with 0.\<close>

definition example_surroundings :: "(string \<Rightarrow> csv option) \<Rightarrow> unit outside" where
  "example_surroundings reports = \<lparr>meanwhile = id,
     nap = \<lambda>n m. (False, m\<lparr>processes := map (\<lambda>(e, c). (e, if c = None then Some 0 else c)) (processes m),
       csv_files := \<lambda>path. case reports path of None \<Rightarrow> csv_files m path | Some r \<Rightarrow> Some r\<rparr>)\<rparr>"

definition example_fleet_env :: env where
  "example_fleet_env = [''WORKER_COUNT'' \<mapsto> ''2'', ''REQUEST_CLASSES'' \<mapsto> ''html'']"

definition example_script :: csv where
  "example_script = [[''datetime'', ''type_HTML''], [''2024-01-01T00:00:00+00:00'', ''2''], [],
     [''2024-01-01T02:00:02+02:00'', ''1'']]"

definition example_machine :: "SenderConfig \<Rightarrow> unit machine" where
  "example_machine cfg = \<lparr>csv_files = [script_path cfg \<mapsto> example_script], heartbeat_files = Map.empty, processes = [],
     clock = 0, elsewhere = ()\<rparr>"

lemma example_lawful: "lawful (example_surroundings reports)"
  by (auto simp: lawful_def example_surroundings_def later_def exit_code_def split: prod.split)

lemma example_progress: "makes_progress (example_surroundings reports) (\<lambda>_. 0)"
  by (auto simp: makes_progress_def example_surroundings_def all_ended_def exit_code_def split: prod.split)

lemma look_all_id: "meanwhile sur = id \<Longrightarrow> look_all sur f ps m = (map (\<lambda>p. f p m) ps, m)"
  by (induction ps) (simp_all add: look_def)

lemma merge_nothing: "merge_statistics_reports (map (\<lambda>p. None) ps) = Inr [stat_header]"
proof -
  have "concat (map (case_option [] dict_rows) (map (\<lambda>p. None) ps)) = []" by (induction ps) simp_all
  then show ?thesis by (simp only: merge_statistics_reports_def fold_res.simps res_bind_simps list.map sort_key_simps)
qed

text \<open>A round in which only request reports are there.\<close>

lemma merge_and_log_quiet:
  assumes "meanwhile sur = id" "merge_request_reports (map (csv_files m) (request_paths cfg)) = Inr r" "paths_apart cfg"
    "\<forall>p \<in> set (statistics_paths cfg). csv_files m p = None" "heartbeat_files m = Map.empty"
  shows "\<exists>i. merge_and_log sur cfg m = Some (Inr (), m\<lparr>csv_files := (csv_files m)(request_report_path cfg \<mapsto> r,
    statistics_report_path cfg \<mapsto> [stat_header], incident_report_path cfg \<mapsto> i)\<rparr>)"
proof -
  have "request_report_path cfg \<notin> set (statistics_paths cfg)" using assms(3) by (auto simp: paths_apart_def)
  then have "map ((csv_files m)(request_report_path cfg \<mapsto> r)) (statistics_paths cfg) = map (\<lambda>p. None) (statistics_paths cfg)"
    using assms(4) by auto
  then have stats: "merge_statistics_reports (map ((csv_files m)(request_report_path cfg \<mapsto> r)) (statistics_paths cfg)) = Inr [stat_header]"
    by (simp only: merge_nothing)
  have hb: "List.map_filter id (map (\<lambda>p. None) ps) = []" for ps :: "string list"
    by (induction ps) (simp_all add: List.map_filter_def)
  show ?thesis
    using assms(2,5) stats
    by (simp add: merge_and_log_def merge_worker_outputs_live_def merge_to_def read_csvs_def s_bind_def effect_def
        look_all_id [OF assms(1)] of_py_def write_csv_def log_aggregated_worker_progress_def read_heartbeat_def
        aggregate_worker_progress_def hb s_return_def Let_def) blast
qed

lemma example_round:
  assumes "paths_apart cfg" "map (csv_files m) (request_paths cfg) = map Some files" "merge_request_reports (map Some files) = Inr r"
    "\<forall>p \<in> set (statistics_paths cfg). csv_files m p = None" "heartbeat_files m = Map.empty"
  shows "\<exists>m'. merge_and_log (example_surroundings reports) cfg m = Some (Inr (), m') \<and> processes m' = processes m
    \<and> map (csv_files m') (request_paths cfg) = map Some files
    \<and> (\<forall>p \<in> set (statistics_paths cfg). csv_files m' p = None) \<and> heartbeat_files m' = Map.empty"
proof -
  have apart: "{request_report_path cfg, statistics_report_path cfg, incident_report_path cfg}
      \<inter> set (request_paths cfg @ statistics_paths cfg) = {}" using assms(1) by (auto simp: paths_apart_def)
  have merged: "merge_request_reports (map (csv_files m) (request_paths cfg)) = Inr r" using assms(2,3) by simp
  have "meanwhile (example_surroundings reports) = id" by (simp add: example_surroundings_def)
  from merge_and_log_quiet [OF this merged assms(1,4,5)] obtain i where
    "merge_and_log (example_surroundings reports) cfg m = Some (Inr (), m\<lparr>csv_files := (csv_files m)(request_report_path cfg \<mapsto> r,
      statistics_report_path cfg \<mapsto> [stat_header], incident_report_path cfg \<mapsto> i)\<rparr>)" by blast
  moreover have "map ((csv_files m)(request_report_path cfg \<mapsto> r, statistics_report_path cfg \<mapsto> [stat_header],
      incident_report_path cfg \<mapsto> i)) (request_paths cfg) = map Some files"
    unfolding assms(2) [symmetric] using apart by auto
  ultimately show ?thesis using assms(4,5) apart by auto
qed

lemma example_run:
  assumes "load_runtime_config env = Inr cfg" "load_workload_config env = Inr wl"
    "load_script_points (Some example_script) (request_classes wl) = Inr pts" "worker_count cfg = 2" "paths_apart cfg"
    "{script_path cfg, metadata_path cfg} \<inter> set (statistics_paths cfg) = {}"
    "map reports (request_paths cfg) = map Some files" "merge_request_reports (map Some files) = Inr r"
    "\<forall>p \<in> set (statistics_paths cfg). reports p = None"
  shows "\<exists>m'. run_multi_worker (example_surroundings reports) env (example_machine cfg) = Some (Inr (Returned 0), m')"
proof -
  let ?sur = "example_surroundings reports"
  let ?m0 = "(example_machine cfg)\<lparr>csv_files := [script_path cfg \<mapsto> example_script,
      metadata_path cfg \<mapsto> metadata_rows (script_path cfg) pts 0]\<rparr>"
  let ?m1 = "?m0\<lparr>processes := [(worker_env env cfg 0, None), (worker_env env cfg 1, None)]\<rparr>"
  let ?m2 = "snd (nap ?sur (progress_log_interval_sec cfg) ?m1)"
  have id: "meanwhile ?sur = id" by (simp add: example_surroundings_def)
  have two: "[0..worker_count cfg - 1] = [0, 1]" by (simp add: assms(4) upto_rec1)
  have codes: "exit_code 0 ?m2 = Some 0" "exit_code (Suc 0) ?m2 = Some 0" by (simp_all add: example_surroundings_def exit_code_def)
  have some: "reports p \<noteq> None" if "p \<in> set (request_paths cfg)" for p
  proof -
    have "reports p \<in> set (map reports (request_paths cfg))" using that by simp
    then show ?thesis unfolding assms(7) by auto
  qed
  have files: "map (csv_files ?m2) (request_paths cfg) = map Some files"
    unfolding assms(7) [symmetric] using some
    by (intro map_cong refl) (auto simp: example_surroundings_def split: option.split)
  have none: "\<forall>p \<in> set (statistics_paths cfg). csv_files ?m2 p = None"
    using assms(6,9) by (auto simp: example_surroundings_def)
  have hb: "heartbeat_files ?m2 = Map.empty" by (simp add: example_surroundings_def example_machine_def)
  obtain m3 where m3: "merge_and_log ?sur cfg ?m2 = Some (Inr (), m3)" "processes m3 = processes ?m2"
    "map (csv_files m3) (request_paths cfg) = map Some files" "\<forall>p \<in> set (statistics_paths cfg). csv_files m3 p = None"
    "heartbeat_files m3 = Map.empty" using example_round [OF assms(5) files assms(8) none hb] by blast
  obtain m4 where m4: "merge_and_log ?sur cfg m3 = Some (Inr (), m4)" "processes m4 = processes m3"
    using example_round [OF assms(5) m3(3) assms(8) m3(4,5)] by blast
  have c3: "exit_code 0 m3 = Some 0" "exit_code (Suc 0) m3 = Some 0" "exit_code 0 m4 = Some 0" "exit_code (Suc 0) m4 = Some 0"
    using codes m3(2) m4(2) by (simp_all add: exit_code_def)
  have "all_exited ?sur [0, 1] ?m1 = (False, ?m1)" by (simp add: look_def id exit_code_def)
  moreover have "nap ?sur (progress_log_interval_sec cfg) ?m1 = (False, ?m2)" by (simp add: example_surroundings_def)
  ultimately have "watch ?sur cfg [0, 1] ?m1 = watch ?sur cfg [0, 1] m3" using m3(1) by (rule watch_round)
  also have "\<dots> = Some (Inr False, m3)" by (rule watch_stop) (simp add: look_def id c3)
  finally have "watch ?sur cfg [0, 1] ?m1 = Some (Inr False, m3)" .
  moreover have "collect_workers ?sur cfg [0, 1] m3 = Some (Inr (Returned 0), unlink_all cfg m4)"
    using m4(1) c3 by (simp add: collect_workers_def s_bind_def wait_all_def effect_def s_return_def multi_worker_exit_def)
  moreover have "effect (spawn_workers env cfg [0..worker_count cfg - 1]) ?m0 = Some (Inr [0, 1], ?m1)"
    by (simp add: two effect_def spawn_worker_def example_machine_def)
  ultimately have "supervise_workers ?sur env cfg ?m0 = Some (Inr (Returned 0), unlink_all cfg m4)"
    by (simp add: supervise_workers_def s_bind_def)
  moreover have "write_parent_metadata cfg pts (example_machine cfg) = Some (Inr (), ?m0)"
    by (simp add: write_parent_metadata_def write_csv_def effect_def example_machine_def)
  moreover have "csv_files (example_machine cfg) (script_path cfg) = Some example_script" by (simp add: example_machine_def)
  ultimately show ?thesis using assms(1,2,3) by (simp add: run_multi_worker_def s_bind_def of_py_def)
qed

lemma example_loaded:
  "\<exists>cfg wl. load_runtime_config example_fleet_env = Inr cfg \<and> load_workload_config example_fleet_env = Inr wl
     \<and> request_classes wl = [''html''] \<and> worker_count cfg = 2 \<and> choose_mode cfg = MultiWorker \<and> paths_apart cfg
     \<and> {script_path cfg, metadata_path cfg} \<inter> set (statistics_paths cfg) = {}"
proof -
  have "(case load_runtime_config example_fleet_env of Inl e \<Rightarrow> False | Inr cfg \<Rightarrow> worker_count cfg = 2
      \<and> choose_mode cfg = MultiWorker \<and> paths_apart cfg
      \<and> script_path cfg \<notin> set (statistics_paths cfg) \<and> metadata_path cfg \<notin> set (statistics_paths cfg))" by code_simp
  moreover have "(case load_workload_config example_fleet_env of Inl e \<Rightarrow> False | Inr wl \<Rightarrow> request_classes wl = [''html''])" by code_simp
  ultimately show ?thesis
    by (cases "load_runtime_config example_fleet_env"; cases "load_workload_config example_fleet_env") simp_all
qed

text \<open>Finished senders for its two workers.\<close>

lemma example_sender_starts:
  assumes "load_runtime_config env = Inr cfg" "load_workload_config env = Inr wl" "request_classes wl = [''html'']"
    "h < length (worker_envs env cfg)" "load_script_points (Some example_script) [''html''] = Inr pts" "length pts = 3"
  shows "start_sender (worker_envs env cfg ! h) (Some example_script) 0 = Inr (init_sender (worker_cfg cfg (int h)) wl pts 0)
    \<and> initial (init_sender (worker_cfg cfg (int h)) wl pts 0)"
proof -
  have w: "load_runtime_config (worker_envs env cfg ! h) = Inr (worker_cfg cfg (int h))" using worker_loads [OF assms(1,4)] .
  have "load_workload_config (worker_envs env cfg ! h) = Inr wl" by (simp add: worker_envs_nth [OF assms(4)] workload_own assms(2))
  then have "start_sender (worker_envs env cfg ! h) (Some example_script) 0 = Inr (init_sender (worker_cfg cfg (int h)) wl pts 0)"
    using assms(3,5) by (simp add: start_sender_def w WorkloadPlanner_def)
  moreover have "initial (init_sender (worker_cfg cfg (int h)) wl pts 0)"
    unfolding initial_def using loaded_config [OF w] loaded_timeline [OF assms(5)] assms(3,6)
    by (intro exI [of _ "worker_cfg cfg (int h)"] exI [of _ wl] exI [of _ pts] exI [of _ 0])
      (simp add: in_range_def day_number_def us_per_s_def whole_second_def)
  ultimately show ?thesis by blast
qed

lemma example_runs_senders:
  assumes "load_runtime_config env = Inr cfg"
    and started: "\<And>h. h < length (worker_envs env cfg) \<Longrightarrow>
      start_sender (worker_envs env cfg ! h) script 0 = Inr (s0 h) \<and> initial (s0 h) \<and> steps (s0 h) (s h) \<and> sched (s h) = Finished"
    and reports: "\<And>h. h < length (worker_envs env cfg) \<Longrightarrow> reports (request_paths cfg ! h) = Some (rr_file (report_writer (s h)))"
  shows "runs_senders (example_surroundings reports) (worker_envs env cfg) script"
  unfolding runs_senders_def
proof (intro allI impI conjI)
  fix m :: "unit machine" assume m: "map fst (processes m) = worker_envs env cfg" "leaves_reports script m"
  then show "leaves_reports script (meanwhile (example_surroundings reports) m)" by (simp add: example_surroundings_def)
  fix n
  let ?m = "snd (nap (example_surroundings reports) n m)"
  have envs: "map fst (processes ?m) = worker_envs env cfg"
    using m(1) by (simp add: example_surroundings_def comp_def split_beta)
  show "leaves_reports script ?m"
    unfolding leaves_reports_def
  proof (intro allI impI)
    fix h assume "h < length (processes ?m)"
    moreover have "length (processes ?m) = length (worker_envs env cfg)" using arg_cong [OF envs, of length] by simp
    ultimately have h: "h < length (worker_envs env cfg)" and e: "fst (processes ?m ! h) = worker_envs env cfg ! h"
      using envs by (simp, metis nth_map)
    have path: "request_report_path (worker_cfg cfg (int h)) = request_paths cfg ! h"
      by (simp add: worker_cfg_def request_paths_nth [OF h])
    have "csv_files ?m (request_paths cfg ! h) = Some (rr_file (report_writer (s h)))"
      using reports [OF h] by (simp add: example_surroundings_def)
    then show "\<exists>cfg t0 s0 s. load_runtime_config (fst (processes ?m ! h)) = Inr cfg
        \<and> start_sender (fst (processes ?m ! h)) script t0 = Inr s0 \<and> initial s0 \<and> steps s0 s \<and> sched s = Finished
        \<and> csv_files ?m (request_report_path cfg) = Some (rr_file (report_writer s))"
      using started [OF h] unfolding e path [symmetric]
      by (intro exI [of _ "worker_cfg cfg (int h)"] exI [of _ 0] exI [of _ "s0 h"] exI [of _ "s h"]) (simp add: worker_loads [OF assms(1) h])
  qed
qed

lemma example_parent:
  "\<exists>cfg reports m'. load_runtime_config example_fleet_env = Inr cfg \<and> choose_mode cfg = MultiWorker \<and> paths_apart cfg
     \<and> runs_senders (example_surroundings reports) (worker_envs example_fleet_env cfg) (Some example_script)
     \<and> run_multi_worker (example_surroundings reports) example_fleet_env (example_machine cfg) = Some (Inr (Returned 0), m')"
proof -
  let ?env = example_fleet_env
  obtain cfg wl where cfg: "load_runtime_config ?env = Inr cfg" and wl: "load_workload_config ?env = Inr wl" "request_classes wl = [''html'']"
    and c: "worker_count cfg = 2" "choose_mode cfg = MultiWorker" "paths_apart cfg"
      "{script_path cfg, metadata_path cfg} \<inter> set (statistics_paths cfg) = {}"
    using example_loaded by blast
  let ?envs = "worker_envs ?env cfg" and ?paths = "request_paths cfg"
  have two: "length ?envs = 2" "length ?paths = 2" by (simp_all add: worker_envs_def request_paths_def c(1))
  obtain pts where pts: "load_script_points (Some example_script) [''html''] = Inr pts" "length pts = 3"
    using example_script_loads unfolding example_script_def by (metis length_Cons list.size(3) numeral_3_eq_3)
  let ?s0 = "\<lambda>h. init_sender (worker_cfg cfg (int h)) wl pts 0"
  note starts = example_sender_starts [OF cfg wl _ pts]
  have "\<exists>t. h < length ?envs \<longrightarrow> steps (?s0 h) t \<and> sched t = Finished" for h
    using starts [of h] can_finish [OF initial_inv, of "?s0 h"] by blast
  then obtain s where s: "\<And>h. h < length ?envs \<Longrightarrow> steps (?s0 h) (s h) \<and> sched (s h) = Finished"
    using choice [of "\<lambda>h t. h < length ?envs \<longrightarrow> steps (?s0 h) t \<and> sched t = Finished"] by blast
  let ?files = "map (\<lambda>h. rr_file (report_writer (s h))) [0..<2]"
  let ?reports = "map_of (zip ?paths ?files)"
  have d: "distinct ?paths" "set (statistics_paths cfg) \<inter> set ?paths = {}" using c(3) by (auto simp: paths_apart_def)
  have rep: "?reports (?paths ! h) = Some (rr_file (report_writer (s h)))" if "h < length ?envs" for h
    using that two d(1) by (simp add: map_of_zip_nth)
  have runs: "runs_senders (example_surroundings ?reports) ?envs (Some example_script)"
    using example_runs_senders [OF cfg, of "Some example_script" ?s0 s ?reports] starts s rep by blast
  have "worker_ended cfg wl pts h (s h)" if "h < 2" for h
  proof -
    have "initial (?s0 h)" "steps (?s0 h) (s h)" "sched (s h) = Finished" using starts [of h] s [of h] that two(1) by simp_all
    then show ?thesis unfolding worker_ended_def by blast
  qed
  note ended = worker_ended_facts(4,5) [OF this]
  let ?evss = "map (\<lambda>h. starts (s h)) [0..<2]"
  have files: "map Some ?files = map (\<lambda>evs. Some (request_file evs)) ?evss" using ended(1) by simp
  have "\<forall>evs \<in> set ?evss. \<forall>(t, url) \<in> set evs. url \<noteq> []" using ended(2) by simp
  from merge_tallies [OF this] have merged: "merge_request_reports (map Some ?files) = Inr (request_file (concat ?evss))"
    unfolding files .
  have "map ?reports ?paths = map Some ?files"
    using rep two by (intro nth_equalityI) simp_all
  moreover have "\<forall>p \<in> set (statistics_paths cfg). ?reports p = None"
    using d(2) two(2) by (auto simp: map_of_eq_None_iff dest: set_zip_leftD)
  ultimately obtain m' where "run_multi_worker (example_surroundings ?reports) ?env (example_machine cfg) = Some (Inr (Returned 0), m')"
    using example_run [OF cfg wl(1) _ c(1,3,4) _ merged] pts(1) wl(2) by metis
  then show ?thesis using cfg c runs by blast
qed

section \<open>Properties\<close>

text \<open>C18: when the parent of several workers exits with 0, all of them did; they were complete runs of the
  sender over the script, its request report is the one a single process would have written for all
  their requests, and their own files are gone.\<close>

theorem parent_exits_zero:
  assumes "lawful sur" "runs_senders sur (worker_envs env cfg) script" "processes m = []"
    "csv_files m (script_path cfg) = script" "load_runtime_config env = Inr cfg" "paths_apart cfg"
    "choose_mode cfg = MultiWorker" "sender_main sur single env m = Some (Inr 0, m')"
  shows "\<exists>wl pts ss. load_workload_config env = Inr wl \<and> load_script_points script (request_classes wl) = Inr pts
     \<and> processes m' = map (\<lambda>e. (e, Some 0)) (worker_envs env cfg) \<and> fleet_ended cfg wl pts ss
     \<and> csv_files m' (request_report_path cfg) = Some (request_file (concat (map starts ss)))
     \<and> (\<forall>path \<in> set (request_paths cfg @ statistics_paths cfg @ incident_paths cfg). csv_files m' path = None)"
proof -
  from assms(8) obtain level r where "configure_logging env = Inr level"
    and "run_multi_worker sur env m = Some (r, m')" "(case r of Inl e \<Rightarrow> 1 | Inr r \<Rightarrow> main_exit r) = 0"
    using assms(5,7) unfolding sender_main_def
    by (auto elim!: of_py_bindE simp: s_bind_def of_py_def main_exit_def split: option.splits sum.splits prod.splits)
  then have "run_multi_worker sur env m = Some (Inr (Returned 0), m')"
    by (cases r) (auto simp: main_exit_def split: main_end.splits)
  from multi_worker_returned [OF assms(1-6) this] obtain codes wl pts where
    loads: "load_workload_config env = Inr wl" "load_script_points script (request_classes wl) = Inr pts"
    and procs: "processes m' = zip (worker_envs env cfg) (map Some codes)" "length codes = nat (worker_count cfg)"
    and zero: "0 = (if \<forall>c \<in> set codes. c = 0 then 0 else (1 :: int))"
    and gone: "\<forall>path \<in> set (request_paths cfg @ statistics_paths cfg @ incident_paths cfg). csv_files m' path = None"
    and rest: "(0 :: int) = 0 \<longrightarrow> (\<exists>ss. fleet_ended cfg wl pts ss
        \<and> csv_files m' (request_report_path cfg) = Some (request_file (concat (map starts ss))))"
    by (elim exE conjE)
  have "\<forall>c \<in> set codes. c = 0" using zero by (metis zero_neq_one)
  then have "codes = replicate (nat (worker_count cfg)) 0" using procs(2) by (simp add: list_eq_iff_nth_eq)
  then have "processes m' = map (\<lambda>e. (e, Some 0)) (worker_envs env cfg)"
    unfolding procs(1) by (intro nth_equalityI) (simp_all add: worker_envs_def)
  then show ?thesis using loads gone rest by blast
qed

theorem parent_exits_zero_witness:
  "\<exists>(sur :: unit outside) cfg m m' wl pts ss.
     sender_main sur (\<lambda>_. s_return (Returned 1)) example_fleet_env m = Some (Inr 0, m') \<and> fleet_ended cfg wl pts ss
     \<and> csv_files m' (request_report_path cfg) = Some (request_file (concat (map starts ss)))"
proof -
  obtain cfg reports m' where e: "load_runtime_config example_fleet_env = Inr cfg" "choose_mode cfg = MultiWorker" "paths_apart cfg"
    "runs_senders (example_surroundings reports) (worker_envs example_fleet_env cfg) (Some example_script)"
    "run_multi_worker (example_surroundings reports) example_fleet_env (example_machine cfg) = Some (Inr (Returned 0), m')"
    using example_parent by blast
  have "\<not> isl (configure_logging example_fleet_env)" by code_simp
  then obtain level where "configure_logging example_fleet_env = Inr level" by (cases "configure_logging example_fleet_env") simp_all
  then have run: "sender_main (example_surroundings reports) (\<lambda>_. s_return (Returned 1)) example_fleet_env (example_machine cfg)
      = Some (Inr 0, m')"
    using e(1,2,5) by (simp add: sender_main_def s_bind_def of_py_def main_exit_def)
  have "csv_files (example_machine cfg) (script_path cfg) = Some example_script" "processes (example_machine cfg) = []"
    by (simp_all add: example_machine_def)
  from parent_exits_zero [OF example_lawful e(4) this(2,1) e(1,3,2) run] run show ?thesis by blast
qed

text \<open>C22: the parent returns, whatever its environment says and its workers write, if every sleep brings
  the workers nearer to their end.\<close>

theorem parent_returns:
  assumes "lawful sur" "makes_progress sur rank" "processes m = []"
  shows "\<exists>r. run_multi_worker sur env m = Some r"
  using multi_worker_returns [OF assms] by blast

theorem parent_returns_witness:
  "\<exists>r. run_multi_worker (example_surroundings (\<lambda>_. None)) example_fleet_env (example_machine example_config) = Some r"
  by (rule parent_returns [OF example_lawful example_progress]) (simp add: example_machine_def)

end
