(* ===== verification/Json.thy ===== *)
theory Json
  imports PyEnv
begin

text \<open>
  JSON values as \<^verbatim>\<open>json.load\<close> returns them and the dictionary access, truth value and
  number conversions the services apply to them.
\<close>

datatype json =
    JNull
  | JBool bool
  | JInt int
  | JFloat pfloat
  | JStr string
  | JArr "json list"
  | JObj "(string \<times> json) list"

text \<open>\<^verbatim>\<open>d.get(k)\<close> of a dictionary, \<open>JNull\<close> when the key is absent.\<close>

fun jget :: "string \<Rightarrow> json \<Rightarrow> json" where
  "jget k (JObj ps) = (case map_of ps k of None \<Rightarrow> JNull | Some v \<Rightarrow> v)"
| "jget k _ = JNull"

fun is_obj :: "json \<Rightarrow> bool" where
  "is_obj (JObj ps) = True"
| "is_obj _ = False"

fun is_arr :: "json \<Rightarrow> bool" where
  "is_arr (JArr xs) = True"
| "is_arr _ = False"

fun arr_items :: "json \<Rightarrow> json list" where
  "arr_items (JArr xs) = xs"
| "arr_items _ = []"

fun obj_items :: "json \<Rightarrow> (string \<times> json) list" where
  "obj_items (JObj ps) = ps"
| "obj_items _ = []"

fun truthy :: "json \<Rightarrow> bool" where
  "truthy JNull = False"
| "truthy (JBool b) = b"
| "truthy (JInt n) = (n \<noteq> 0)"
| "truthy (JFloat x) = (x \<noteq> Fin 0)"
| "truthy (JStr s) = (s \<noteq> [])"
| "truthy (JArr xs) = (xs \<noteq> [])"
| "truthy (JObj ps) = (ps \<noteq> [])"

text \<open>\<^verbatim>\<open>float(v)\<close>: an integer beyond the range of floats overflows.\<close>

fun float_of_json :: "json \<Rightarrow> pfloat py" where
  "float_of_json (JStr s) = or_raise (ValueError ''could not convert string to float'') (py_float s)"
| "float_of_json (JInt n) = (if is_finite (to_float (of_int n)) then Inr (to_float (of_int n)) else Inl OverflowError)"
| "float_of_json (JFloat x) = Inr x"
| "float_of_json (JBool b) = Inr (Fin (if b then 1 else 0))"
| "float_of_json _ = Inl TypeError"

text \<open>\<^verbatim>\<open>int(x)\<close> of a float.\<close>

fun int_of_float :: "pfloat \<Rightarrow> int py" where
  "int_of_float (Fin r) = Inr (if 0 \<le> r then \<lfloor>r\<rfloor> else \<lceil>r\<rceil>)"
| "int_of_float NaN = Inl (ValueError ''cannot convert float NaN to integer'')"
| "int_of_float _ = Inl OverflowError"

section \<open>Text of a value\<close>

text \<open>
  \<^verbatim>\<open>str\<close> and \<^verbatim>\<open>repr\<close>.  A float is written with the fewest digits that read back to it, in
  positional form from \<^verbatim>\<open>1e-4\<close> up to \<^verbatim>\<open>1e16\<close>.
\<close>

fun decimal_exponent :: "nat \<Rightarrow> rat \<Rightarrow> int" where
  "decimal_exponent 0 r = 0"
| "decimal_exponent (Suc k) r =
     (if 10 \<le> r then 1 + decimal_exponent k (r / 10) else if r < 1 then decimal_exponent k (r * 10) - 1 else 0)"

definition digits_for :: "rat \<Rightarrow> int \<Rightarrow> nat \<Rightarrow> int option" where
  "digits_for r e n =
     (let s = 10 powi (int n - 1 - e); lo = \<lfloor>r * s\<rfloor>; below = r * s - of_int lo; above = of_int (lo + 1) - r * s;
          reads = (\<lambda>c. to_float (of_int c / s) = Fin r)
      in if reads lo \<and> (\<not> reads (lo + 1) \<or> below < above \<or> below = above \<and> even lo) then Some lo
         else if reads (lo + 1) then Some (lo + 1) else None)"

text \<open>Seventeen digits always suffice.\<close>

fun shortest_digits :: "nat \<Rightarrow> nat \<Rightarrow> rat \<Rightarrow> int \<Rightarrow> string \<times> int" where
  "shortest_digits 0 n r e = ([], e)"
| "shortest_digits (Suc k) n r e = (case digits_for r e n of
     Some c \<Rightarrow> if c = 10 ^ n then (''1'', e + 1) else (int_str c, e)
   | None \<Rightarrow> shortest_digits k (Suc n) r e)"

definition float_digits :: "string \<times> int \<Rightarrow> string" where
  "float_digits p = (case p of (ds, e) \<Rightarrow>
     if - 5 < e \<and> e < 16 then
       (if e < 0 then ''0.'' @ replicate (nat (- e - 1)) (CHR ''0'') @ ds
        else if int (length ds) \<le> e + 1 then ds @ replicate (nat (e + 1) - length ds) (CHR ''0'') @ ''.0''
        else take (nat (e + 1)) ds @ ''.'' @ drop (nat (e + 1)) ds)
     else take 1 ds @ (if length ds = 1 then [] else ''.'' @ drop 1 ds) @ ''e'' @ (if e < 0 then ''-'' else ''+'')
       @ (let n = nat_str (nat \<bar>e\<bar>) in if length n < 2 then CHR ''0'' # n else n))"

fun float_repr :: "pfloat \<Rightarrow> string" where
  "float_repr (Fin r) = (if r = 0 then ''0.0'' else (if r < 0 then ''-'' else []) @
     float_digits (shortest_digits 17 1 \<bar>r\<bar> (decimal_exponent 400 \<bar>r\<bar>)))"
| "float_repr PInf = ''inf''"
| "float_repr NInf = ''-inf''"
| "float_repr NaN = ''nan''"

definition hex_digit :: "nat \<Rightarrow> char" where
  "hex_digit n = (if n < 10 then digit_chr n else char_of (n + 87))"

definition repr_char :: "char \<Rightarrow> char \<Rightarrow> string" where
  "repr_char q c = (let n = of_char c :: nat in
     if c = q \<or> n = 92 then [CHR 0x5C, c]
     else if n = 9 then [CHR 0x5C, CHR ''t''] else if n = 10 then [CHR 0x5C, CHR ''n'']
     else if n = 13 then [CHR 0x5C, CHR ''r'']
     else if n < 32 \<or> 127 \<le> n \<and> n \<le> 160 \<or> n = 173 then [CHR 0x5C, CHR ''x'', hex_digit (n div 16), hex_digit (n mod 16)]
     else [c])"

definition string_repr :: "string \<Rightarrow> string" where
  "string_repr s = (let q = (if CHR 0x27 \<in> set s \<and> CHR 0x22 \<notin> set s then CHR 0x22 else CHR 0x27) in
     q # concat (map (repr_char q) s) @ [q])"

fun comma_separated :: "string list \<Rightarrow> string" where
  "comma_separated [] = []"
| "comma_separated [x] = x"
| "comma_separated (x # y # xs) = x @ '', '' @ comma_separated (y # xs)"

fun py_repr :: "json \<Rightarrow> string" where
  "py_repr JNull = ''None''"
| "py_repr (JBool b) = (if b then ''True'' else ''False'')"
| "py_repr (JInt n) = int_str n"
| "py_repr (JFloat x) = float_repr x"
| "py_repr (JStr s) = string_repr s"
| "py_repr (JArr xs) = ''['' @ comma_separated (map py_repr xs) @ '']''"
| "py_repr (JObj ps) = ''{'' @ comma_separated (map (\<lambda>(k, v). string_repr k @ '': '' @ py_repr v) ps) @ ''}''"

fun py_str :: "json \<Rightarrow> string" where
  "py_str (JStr s) = s"
| "py_str j = py_repr j"

text \<open>\<^verbatim>\<open>str(v or d)\<close>\<close>

definition str_or :: "json \<Rightarrow> string \<Rightarrow> string" where
  "str_or v d = (if truthy v then py_str v else d)"

section \<open>Equality and dictionaries\<close>

text \<open>\<^verbatim>\<open>==\<close>: numbers by value, dictionaries whatever their order.\<close>

fun number_of_json :: "json \<Rightarrow> pfloat option" where
  "number_of_json (JBool b) = Some (Fin (if b then 1 else 0))"
| "number_of_json (JInt n) = Some (Fin (of_int n))"
| "number_of_json (JFloat x) = Some x"
| "number_of_json _ = None"

function (sequential) json_eq :: "json \<Rightarrow> json \<Rightarrow> bool" where
  "json_eq (JArr xs) (JArr ys) = (length xs = length ys \<and> list_all (\<lambda>(x, y). json_eq x y) (zip xs ys))"
| "json_eq (JObj ps) (JObj qs) = (length ps = length qs \<and>
     list_all (\<lambda>(k, v). case map_of qs k of None \<Rightarrow> False | Some w \<Rightarrow> json_eq v w) ps)"
| "json_eq (JStr s) (JStr u) = (s = u)"
| "json_eq JNull JNull = True"
| "json_eq x y = (number_of_json x \<noteq> None \<and> number_of_json x = number_of_json y \<and> number_of_json x \<noteq> Some NaN)"
  by pat_completeness auto
termination
proof (relation "measure (\<lambda>(x, y). size x)", goal_cases)
  case (2 xs ys z x y)
  then have "x \<in> set xs" by (auto dest: set_zip_leftD)
  then have "size x < Suc (size_list size xs)" by (induction xs) auto
  then show ?case by simp
next
  case (3 ps qs z k v w)
  then have "(k, v) \<in> set ps" by auto
  then have "size v < Suc (size_list (size_prod (\<lambda>_. 0) size) ps)" by (induction ps) auto
  then show ?case by (simp add: size_prod_def)
qed simp

text \<open>\<^verbatim>\<open>k in d\<close>, \<^verbatim>\<open>d.get(k, default)\<close> and \<^verbatim>\<open>d[k] = v\<close>\<close>

fun has_key :: "string \<Rightarrow> json \<Rightarrow> bool" where
  "has_key k (JObj ps) = (map_of ps k \<noteq> None)"
| "has_key k _ = False"

definition jget_or :: "string \<Rightarrow> json \<Rightarrow> json \<Rightarrow> json" where
  "jget_or k dflt j = (if has_key k j then jget k j else dflt)"

text \<open>\<^verbatim>\<open>x.get(k)\<close> on a value that may not be a dictionary.\<close>

definition py_get :: "string \<Rightarrow> json \<Rightarrow> json py" where
  "py_get k j = (if is_obj j then Inr (jget k j) else Inl AttributeError)"

definition py_get_or :: "string \<Rightarrow> json \<Rightarrow> json \<Rightarrow> json py" where
  "py_get_or k dflt j = (if is_obj j then Inr (jget_or k dflt j) else Inl AttributeError)"

text \<open>\<^verbatim>\<open>for x in v\<close>: the elements of a list, the keys of a dictionary, the characters of a text.\<close>

fun iterate :: "json \<Rightarrow> json list py" where
  "iterate (JArr xs) = Inr xs"
| "iterate (JObj ps) = Inr (map (\<lambda>p. JStr (fst p)) ps)"
| "iterate (JStr s) = Inr (map (\<lambda>c. JStr [c]) s)"
| "iterate _ = Inl TypeError"

end
