(* ===== verification/Forecast.thy ===== *)
theory Forecast
  imports Json Script
begin

text \<open>
  The forecasting service (\<^verbatim>\<open>forecasting-service/app\<close>): options and their validation
  (\<^verbatim>\<open>models.py\<close>), Prometheus range queries (\<^verbatim>\<open>clients.py\<close>) and the prediction
  pipeline (\<^verbatim>\<open>service.py\<close>).  What Prometheus and the remote model answer are arguments of
  the definitions, as is the field parsing of the pydantic models.  Instants are whole seconds.
\<close>

section \<open>Options\<close>

record ForecastOption =
  deployment :: string
  namespace :: string
  service :: string
  ingress :: string
  app_pod_regex :: string
  target_metric :: string
  remote_target_metric :: "string option"
  feature_metrics :: "string list"
  guardrail_queries :: "(string \<times> string) list option"
  lookback_steps :: int
  horizon_steps :: int
  step_seconds :: int
  model_full_name :: string
  prometheus_query :: "string option"
  prometheus_queries :: "(string \<times> string) list option"
  is_local :: bool
  endpoint :: "string option"
  remote_contract :: string

text \<open>The truth value of an optional text or dictionary: neither absent nor empty.\<close>

definition given :: "'a list option \<Rightarrow> bool" where
  "given x = (case x of None \<Rightarrow> False | Some v \<Rightarrow> v \<noteq> [])"

definition validate_configuration :: "ForecastOption \<Rightarrow> ForecastOption py" where
  "validate_configuration opt =
     (if \<not> given (prometheus_query opt) \<and> \<not> given (prometheus_queries opt)
        then Inl (ValueError ''Forecast option must define prometheus_query or prometheus_queries'')
      else if is_local opt \<and> given (endpoint opt)
        then Inl (ValueError ''Local forecast option must not define endpoint'')
      else if \<not> is_local opt \<and> \<not> given (endpoint opt)
        then Inl (ValueError ''Remote forecast option must define endpoint'')
      else Inr opt)"

text \<open>The \<^verbatim>\<open>ge=1\<close> constraints, checked before the validator.\<close>

definition check_fields :: "ForecastOption \<Rightarrow> ForecastOption py" where
  "check_fields opt =
     (if lookback_steps opt < 1 \<or> horizon_steps opt < 1 \<or> step_seconds opt < 1
      then Inl (ValueError ''Input should be greater than or equal to 1'') else validate_configuration opt)"

definition model_name :: "ForecastOption \<Rightarrow> string" where
  "model_name opt = fst (split_once (CHR '':'') (model_full_name opt))"

definition model_version :: "ForecastOption \<Rightarrow> string" where
  "model_version opt = (case snd (split_once (CHR '':'') (model_full_name opt)) of None \<Rightarrow> ''latest'' | Some v \<Rightarrow> v)"

definition query_for_metric :: "ForecastOption \<Rightarrow> string \<Rightarrow> string py" where
  "query_for_metric opt metric =
     (case (if given (prometheus_queries opt) then map_of (the (prometheus_queries opt)) metric else None) of
        Some q \<Rightarrow> Inr q
      | None \<Rightarrow> if given (prometheus_query opt) then Inr (the (prometheus_query opt))
                else Inl (KeyError ''No Prometheus query configured for feature metric''))"

text \<open>\<open>parse\<close> is what pydantic makes of an option's fields.\<close>

definition load_options ::
  "(json \<Rightarrow> ForecastOption py) \<Rightarrow> (string \<times> json) list \<Rightarrow> (string \<times> ForecastOption) list py" where
  "load_options parse payload =
     res_bind (fold_res (\<lambda>(contract_id, v) options. res_bind (parse v) (\<lambda>opt. res_bind (check_fields opt) (\<lambda>opt.
         Inr (AList.update contract_id opt options)))) payload []) (\<lambda>options.
     if options = [] then Inl (ValueError ''No forecast options were loaded'') else Inr options)"

section \<open>Range queries\<close>

text \<open>The parts of a Prometheus answer that are read; a sample is a list meant to hold a pair.\<close>

record range_answer =
  status :: string
  series :: "json list list list"

definition add_sample :: "bool \<Rightarrow> json list \<Rightarrow> (int \<times> rat option) list \<Rightarrow> (int \<times> rat option) list py" where
  "add_sample nullable pair pts = (case pair of
     [stamp, v] \<Rightarrow>
       res_bind (float_of_json v) (\<lambda>parsed.
       res_bind (float_of_json stamp) (\<lambda>t. res_bind (int_of_float t) (\<lambda>k.
       Inr (AList.update k (case parsed of Fin r \<Rightarrow> Some r | _ \<Rightarrow> if nullable then None else Some 0) pts))))
   | _ \<Rightarrow> Inl (ValueError ''not enough or too many values to unpack''))"

definition query_range ::
  "(string \<Rightarrow> int \<Rightarrow> int \<Rightarrow> int \<Rightarrow> range_answer py) \<Rightarrow> string \<Rightarrow> int \<Rightarrow> int \<Rightarrow> int \<Rightarrow> int \<Rightarrow> bool \<Rightarrow> rat option list py" where
  "query_range prom query start_at end_at step expected_points nullable =
     res_bind (prom query start_at end_at step) (\<lambda>payload.
     let missing = (if nullable then None else Some 0) in
     if status payload \<noteq> ''success'' then Inl (ValueError ''Prometheus range query failed'')
     else case series payload of
       [] \<Rightarrow> Inr (replicate (nat expected_points) missing)
     | samples # _ \<Rightarrow>
         res_bind (fold_res (add_sample nullable) samples []) (\<lambda>pts.
         Inr (map (\<lambda>index. case map_of pts (start_at + index * step) of None \<Rightarrow> missing | Some v \<Rightarrow> v)
           [0..expected_points - 1])))"

text \<open>\<^verbatim>\<open>_format_prometheus_duration\<close>; \<^verbatim>\<open>math.isclose\<close> is relative to the larger magnitude.\<close>

definition is_close :: "rat \<Rightarrow> rat \<Rightarrow> bool" where
  "is_close a b = (let rel = rnd64 (1 / 1000000000); diff = \<bar>fsub b a\<bar> in
     a = b \<or> diff \<le> \<bar>fmul rel b\<bar> \<or> diff \<le> \<bar>fmul rel a\<bar>)"

definition format_prometheus_duration :: "rat \<Rightarrow> string" where
  "format_prometheus_duration seconds =
     (let whole_seconds = (if 0 \<le> seconds then \<lfloor>seconds\<rfloor> else \<lceil>seconds\<rceil>) in
      if is_close seconds (of_int whole_seconds) then int_str whole_seconds @ ''s''
      else int_str (max 1 \<lceil>fmul seconds 1000\<rceil>) @ ''ms'')"

section \<open>Queries and history\<close>

definition render_query :: "string \<Rightarrow> ForecastOption \<Rightarrow> string" where
  "render_query query opt =
     foldl (\<lambda>rendered (k, v). str_replace (''{{'' @ k @ ''}}'') v rendered) query
       [(''deployment'', deployment opt), (''namespace'', namespace opt), (''service'', service opt),
        (''ingress'', ingress opt), (''app_pod_regex'', app_pod_regex opt)]"

type_synonym history = "(string \<times> rat list) list"

definition fetch_feature_history ::
  "(string \<Rightarrow> int \<Rightarrow> int \<Rightarrow> int \<Rightarrow> range_answer py) \<Rightarrow> ForecastOption \<Rightarrow> int \<Rightarrow> history py" where
  "fetch_feature_history prom opt generated_at =
     (let start_at = generated_at - step_seconds opt * (lookback_steps opt - 1) in
      fold_res (\<lambda>metric history.
        res_bind (query_for_metric opt metric) (\<lambda>raw.
        res_bind (query_range prom (render_query raw opt) start_at generated_at (step_seconds opt) (lookback_steps opt) False) (\<lambda>values.
        res_bind (traverse (\<lambda>v. case v of None \<Rightarrow> Inl TypeError | Some r \<Rightarrow> Inr r) values) (\<lambda>values.
        Inr (AList.update metric values history)))))
        (feature_metrics opt) [])"

definition fetch_guardrail_history ::
  "(string \<Rightarrow> int \<Rightarrow> int \<Rightarrow> int \<Rightarrow> range_answer py) \<Rightarrow> ForecastOption \<Rightarrow> int \<Rightarrow> (string \<times> rat option list) list py" where
  "fetch_guardrail_history prom opt generated_at =
     (if \<not> given (guardrail_queries opt) then Inr []
      else let start_at = generated_at - step_seconds opt * (horizon_steps opt - 1) in
      fold_res (\<lambda>(metric, raw) observed.
        res_bind (query_range prom (render_query raw opt) start_at generated_at (step_seconds opt) (horizon_steps opt) True) (\<lambda>values.
        Inr (AList.update metric values observed)))
        (the (guardrail_queries opt)) [])"

section \<open>Predictions\<close>

definition LINEAR_REGRESSION_HISTORY_METRICS :: "string list" where
  "LINEAR_REGRESSION_HISTORY_METRICS =
     [''total_requests_per_minute'', ''total_cpu_seconds_per_minute'', ''total_bandwidth_bytes_per_minute'']"

record MetricForecastRow =
  row_datetime :: int
  total_requests_per_minute :: pfloat
  total_cpu_seconds_per_minute :: pfloat
  total_bandwidth_bytes_per_minute :: pfloat

record PredictionResult =
  predictions :: "pfloat list"
  prediction_rows :: "MetricForecastRow list"
  result_current_time_origin :: "int option"
  result_world_cup_time_origin :: "int option"
  remote_endpoint :: "string option"
  result_remote_contract :: "string option"
  required_history_rows :: "int option"
  provided_history_rows :: "int option"
  buffered_history_rows :: "int option"

definition local_result :: "pfloat list \<Rightarrow> MetricForecastRow list \<Rightarrow> int \<Rightarrow> PredictionResult" where
  "local_result ps rows origin =
     \<lparr>predictions = ps, prediction_rows = rows, result_current_time_origin = Some origin,
      result_world_cup_time_origin = None, remote_endpoint = None, result_remote_contract = None,
      required_history_rows = None, provided_history_rows = None, buffered_history_rows = None\<rparr>"

definition metric_row :: "int \<Rightarrow> rat \<Rightarrow> rat \<Rightarrow> rat \<Rightarrow> MetricForecastRow" where
  "metric_row t a b c = \<lparr>row_datetime = t, total_requests_per_minute = Fin a,
     total_cpu_seconds_per_minute = Fin b, total_bandwidth_bytes_per_minute = Fin c\<rparr>"

text \<open>\<^verbatim>\<open>history[metric]\<close>\<close>

definition series_of :: "history \<Rightarrow> string \<Rightarrow> rat list" where
  "series_of h metric = (case map_of h metric of None \<Rightarrow> [] | Some xs \<Rightarrow> xs)"

definition has_metrics :: "history \<Rightarrow> bool" where
  "has_metrics h = list_all (\<lambda>metric. map_of h metric \<noteq> None) LINEAR_REGRESSION_HISTORY_METRICS"

definition last_or_zero :: "rat list \<Rightarrow> rat" where
  "last_or_zero xs = (if xs = [] then 0 else last xs)"

definition build_last_value_prediction_rows :: "history \<Rightarrow> int \<Rightarrow> int \<Rightarrow> int \<Rightarrow> MetricForecastRow list" where
  "build_last_value_prediction_rows h generated_at step horizon =
     (if \<not> has_metrics h then []
      else map (\<lambda>k. metric_row (generated_at + k * step)
          (last_or_zero (series_of h ''total_requests_per_minute''))
          (last_or_zero (series_of h ''total_cpu_seconds_per_minute''))
          (last_or_zero (series_of h ''total_bandwidth_bytes_per_minute''))) [1..horizon])"

definition predict_local :: "ForecastOption \<Rightarrow> history \<Rightarrow> int \<Rightarrow> PredictionResult py" where
  "predict_local opt h generated_at =
     (if model_name opt = ''last_value'' then
        res_bind (if given (remote_target_metric opt) then Inr (the (remote_target_metric opt))
          else case feature_metrics opt of [] \<Rightarrow> Inl (IndexError ''list index out of range'') | m # _ \<Rightarrow> Inr m) (\<lambda>primary.
        Inr (local_result (replicate (nat (horizon_steps opt)) (Fin (last_or_zero (series_of h primary))))
          (build_last_value_prediction_rows h generated_at (step_seconds opt) (horizon_steps opt)) generated_at))
      else Inl (ValueError ''Unsupported local model''))"

definition series_value_for_offset :: "rat list \<Rightarrow> int \<Rightarrow> rat py" where
  "series_value_for_offset xs offset =
     (let index = int (length xs) - 1 - offset in
      if index < 0 then Inl (ValueError ''History does not contain the requested offset'') else Inr (xs ! nat index))"

definition build_linear_regression_history_rows :: "history \<Rightarrow> int \<Rightarrow> int \<Rightarrow> int \<Rightarrow> MetricForecastRow list py" where
  "build_linear_regression_history_rows h generated_at step required_rows =
     (if \<not> has_metrics h then Inl (ValueError ''Missing required metrics for linear regression contract'')
      else traverse (\<lambda>offset.
        res_bind (series_value_for_offset (series_of h ''total_requests_per_minute'') offset) (\<lambda>a.
        res_bind (series_value_for_offset (series_of h ''total_cpu_seconds_per_minute'') offset) (\<lambda>b.
        res_bind (series_value_for_offset (series_of h ''total_bandwidth_bytes_per_minute'') offset) (\<lambda>c.
        Inr (metric_row (generated_at - offset * step) a b c))))) [0..required_rows - 1])"

definition build_response_history_rows :: "history \<Rightarrow> int \<Rightarrow> int \<Rightarrow> MetricForecastRow list" where
  "build_response_history_rows h generated_at step =
     (if \<not> has_metrics h then []
      else
        let a = series_of h ''total_requests_per_minute''; b = series_of h ''total_cpu_seconds_per_minute'';
            c = series_of h ''total_bandwidth_bytes_per_minute'';
            n = min (length a) (min (length b) (length c));
            start_at = generated_at - step * (int n - 1)
        in map (\<lambda>i. metric_row (start_at + int i * step) (a ! i) (b ! i) (c ! i)) [0..<n])"

definition row_metric :: "MetricForecastRow \<Rightarrow> string \<Rightarrow> pfloat" where
  "row_metric r m = (if m = ''total_requests_per_minute'' then total_requests_per_minute r
     else if m = ''total_cpu_seconds_per_minute'' then total_cpu_seconds_per_minute r
     else total_bandwidth_bytes_per_minute r)"

record LinearRegressionServingRequest =
  request_time_origin :: int
  request_history :: "MetricForecastRow list"

record LinearRegressionServingResponse =
  current_time_origin :: int
  world_cup_time_origin :: int
  required_context_rows :: "int option"
  response_provided_rows :: "int option"
  response_buffered_rows :: "int option"
  response_predictions :: "MetricForecastRow list"

definition extract_metric_predictions :: "LinearRegressionServingResponse \<Rightarrow> string \<Rightarrow> int \<Rightarrow> pfloat list py" where
  "extract_metric_predictions response metric expected_horizon =
     (if metric \<notin> set LINEAR_REGRESSION_HISTORY_METRICS
        then Inl (ValueError ''Unsupported linear regression target metric'')
      else if int (length (response_predictions response)) < expected_horizon
        then Inl (ValueError ''Remote model returned too few prediction rows'')
      else Inr (map (\<lambda>row. row_metric row metric) (take (nat expected_horizon) (response_predictions response))))"

fun extract_from :: "string list \<Rightarrow> json \<Rightarrow> int \<Rightarrow> pfloat list py" where
  "extract_from [] payload expected_horizon = Inl (ValueError ''Remote model response missing prediction list'')"
| "extract_from (key # keys) payload expected_horizon =
     (case jget key payload of
        JNull \<Rightarrow> extract_from keys payload expected_horizon
      | JArr xs \<Rightarrow>
          res_bind (traverse float_of_json xs) (\<lambda>ps.
          if int (length ps) < expected_horizon then Inl (ValueError ''Remote model returned too few predictions'')
          else Inr (take (nat expected_horizon) ps))
      | _ \<Rightarrow> Inl (ValueError ''Remote model field must be a list''))"

definition extract_predictions :: "json \<Rightarrow> int \<Rightarrow> pfloat list py" where
  "extract_predictions payload expected_horizon =
     extract_from [''predictions'', ''forecast'', ''values'', ''prediction''] payload expected_horizon"

record RemotePredictionRequest =
  ask_deployment :: string
  ask_target_metric :: string
  ask_feature_metrics :: "string list"
  ask_lookback_steps :: int
  ask_horizon_steps :: int
  ask_step_seconds :: int
  ask_model_full_name :: string
  ask_generated_at :: int
  ask_history :: history

definition predict_legacy_remote ::
  "(string \<Rightarrow> RemotePredictionRequest \<Rightarrow> json py) \<Rightarrow> ForecastOption \<Rightarrow> history \<Rightarrow> int \<Rightarrow> PredictionResult py" where
  "predict_legacy_remote remote opt h generated_at =
     res_bind (remote (case endpoint opt of None \<Rightarrow> [] | Some e \<Rightarrow> e)
       \<lparr>ask_deployment = deployment opt, ask_target_metric = target_metric opt, ask_feature_metrics = feature_metrics opt,
        ask_lookback_steps = lookback_steps opt, ask_horizon_steps = horizon_steps opt, ask_step_seconds = step_seconds opt,
        ask_model_full_name = model_full_name opt, ask_generated_at = generated_at, ask_history = h\<rparr>) (\<lambda>raw.
     res_bind (extract_predictions raw (horizon_steps opt)) (\<lambda>ps.
     Inr ((local_result ps [] generated_at)\<lparr>remote_endpoint := endpoint opt, result_remote_contract := Some (remote_contract opt)\<rparr>)))"

definition predict_linear_regression ::
  "(string \<Rightarrow> LinearRegressionServingRequest \<Rightarrow> LinearRegressionServingResponse py) \<Rightarrow> ForecastOption \<Rightarrow> history \<Rightarrow> int
     \<Rightarrow> PredictionResult py" where
  "predict_linear_regression serve opt h generated_at =
     res_bind (build_linear_regression_history_rows h generated_at (step_seconds opt) (lookback_steps opt)) (\<lambda>rows.
     res_bind (guard (rows = []) (ValueError ''List should have at least 1 item'')) (\<lambda>_.
     res_bind (serve (case endpoint opt of None \<Rightarrow> [] | Some e \<Rightarrow> e)
       \<lparr>request_time_origin = generated_at, request_history = rows\<rparr>) (\<lambda>response.
     let target = (if given (remote_target_metric opt) then the (remote_target_metric opt) else target_metric opt) in
     res_bind (extract_metric_predictions response target (horizon_steps opt)) (\<lambda>ps.
     Inr \<lparr>predictions = ps, prediction_rows = take (nat (horizon_steps opt)) (response_predictions response),
       result_current_time_origin = Some (current_time_origin response),
       result_world_cup_time_origin = Some (world_cup_time_origin response),
       remote_endpoint = endpoint opt, result_remote_contract = Some (remote_contract opt),
       required_history_rows = required_context_rows response,
       provided_history_rows = response_provided_rows response,
       buffered_history_rows = response_buffered_rows response\<rparr>))))"

text \<open>The two ways of asking a remote model, with their answers.\<close>

record remote_model =
  ask_legacy :: "string \<Rightarrow> RemotePredictionRequest \<Rightarrow> json py"
  ask_serving :: "string \<Rightarrow> LinearRegressionServingRequest \<Rightarrow> LinearRegressionServingResponse py"

definition predict :: "remote_model \<Rightarrow> ForecastOption \<Rightarrow> history \<Rightarrow> int \<Rightarrow> PredictionResult py" where
  "predict remote opt h generated_at =
     (if is_local opt then predict_local opt h generated_at
      else if remote_contract opt = ''linear_regression_serving_v1''
      then predict_linear_regression (ask_serving remote) opt h generated_at
      else predict_legacy_remote (ask_legacy remote) opt h generated_at)"

section \<open>A forecast\<close>

text \<open>
  \<^verbatim>\<open>now.timestamp()\<close> is a float; floor division and the product give the last multiple of
  the step.  \<open>now\<close> is in microseconds, the result in seconds.
\<close>

definition aligned_now :: "int \<Rightarrow> int \<Rightarrow> int" where
  "aligned_now now step = \<lfloor>rnd64 (of_int now / 1000000) / of_int step\<rfloor> * step"

record ForecastResponse =
  resp_deployment :: string
  resp_contract_id :: string
  resp_target_metric :: string
  resp_feature_metrics :: "string list"
  resp_step_seconds :: int
  resp_history :: history
  resp_history_rows :: "MetricForecastRow list"
  resp_predictions :: "pfloat list"
  resp_observed :: "(string \<times> rat option list) list"
  resp_model_name :: string
  resp_model_version :: string
  resp_generated_at :: int
  resp_prediction_rows :: "MetricForecastRow list"
  resp_current_time_origin :: "int option"
  resp_world_cup_time_origin :: "int option"
  resp_remote_endpoint :: "string option"
  resp_remote_contract :: "string option"
  resp_required_history_rows :: "int option"
  resp_provided_history_rows :: "int option"
  resp_buffered_history_rows :: "int option"

definition predict_workload ::
  "(string \<Rightarrow> int \<Rightarrow> int \<Rightarrow> int \<Rightarrow> range_answer py) \<Rightarrow> remote_model \<Rightarrow> (json \<Rightarrow> ForecastOption py)
     \<Rightarrow> (string \<times> json) list \<Rightarrow> int \<Rightarrow> string \<Rightarrow> ForecastResponse py" where
  "predict_workload prom remote parse payload now contract_id =
     res_bind (load_options parse payload) (\<lambda>options.
     res_bind (or_raise (KeyError ''Contract was not found'') (map_of options contract_id)) (\<lambda>opt.
     let generated_at = aligned_now now (step_seconds opt) in
     res_bind (fetch_feature_history prom opt generated_at) (\<lambda>h.
     res_bind (fetch_guardrail_history prom opt generated_at) (\<lambda>observed.
     res_bind (predict remote opt h generated_at) (\<lambda>result.
     Inr \<lparr>resp_deployment = deployment opt, resp_contract_id = contract_id, resp_target_metric = target_metric opt,
       resp_feature_metrics = feature_metrics opt, resp_step_seconds = step_seconds opt, resp_history = h,
       resp_history_rows = build_response_history_rows h generated_at (step_seconds opt),
       resp_predictions = predictions result, resp_observed = observed, resp_model_name = model_name opt,
       resp_model_version = model_version opt, resp_generated_at = generated_at,
       resp_prediction_rows = prediction_rows result,
       resp_current_time_origin = result_current_time_origin result,
       resp_world_cup_time_origin = result_world_cup_time_origin result,
       resp_remote_endpoint = remote_endpoint result, resp_remote_contract = result_remote_contract result,
       resp_required_history_rows = required_history_rows result,
       resp_provided_history_rows = provided_history_rows result,
       resp_buffered_history_rows = buffered_history_rows result\<rparr>)))))"

section \<open>What a range query returns\<close>

text \<open>A sample on its own: the second it belongs to and the value it gives.\<close>

definition parse_sample :: "bool \<Rightarrow> json list \<Rightarrow> (int \<times> rat option) py" where
  "parse_sample nullable pair = res_bind (add_sample nullable pair []) (\<lambda>pts. Inr (hd pts))"

lemma add_sample_parse:
  "add_sample nullable pair pts =
     res_bind (parse_sample nullable pair) (\<lambda>(k, v). Inr (AList.update k v pts))"
  unfolding parse_sample_def add_sample_def
  by (cases pair rule: list.exhaust; cases "tl pair"; cases "tl (tl pair)")
    (auto split: list.split sum.split simp: res_bind_def)

lemma parse_sample_value: "snd p \<noteq> None" if parsed: "parse_sample False pair = Inr p"
proof (cases "\<exists>stamp v. pair = [stamp, v]")
  case True
  then obtain x k where "p = (k, case x of Fin r \<Rightarrow> Some r | _ \<Rightarrow> Some 0)"
    using parsed by (auto simp: parse_sample_def add_sample_def res_bind_Inr_iff)
  then show ?thesis by (cases x) simp_all
next
  case False
  then have "add_sample False pair [] = Inl (ValueError ''not enough or too many values to unpack'')"
    unfolding add_sample_def by (auto split: list.split)
  with parsed show ?thesis by (simp add: parse_sample_def)
qed

lemma samples_fold:
  "fold_res (add_sample nullable) samples pts = Inr pts' \<Longrightarrow>
     \<exists>ps. traverse (parse_sample nullable) samples = Inr ps \<and> (\<forall>t. map_of pts' t = (map_of pts ++ map_of (rev ps)) t)"
proof (induction samples arbitrary: pts)
  case Nil
  then show ?case by simp
next
  case (Cons s samples)
  from Cons.prems obtain k v where kv: "parse_sample nullable s = Inr (k, v)"
    and "fold_res (add_sample nullable) samples (AList.update k v pts) = Inr pts'"
    using add_sample_parse [of nullable s pts] by (auto simp: res_bind_Inr_iff split: prod.splits)
  with Cons.IH obtain ps where "traverse (parse_sample nullable) samples = Inr ps"
    "\<forall>t. map_of pts' t = (map_of (AList.update k v pts) ++ map_of (rev ps)) t" by blast
  with kv show ?case by (auto simp: update_conv' map_add_def split: option.splits)
qed

text \<open>The value the answer gives for one second: its last sample there, if it has one.\<close>

definition value_at :: "(int \<times> rat option) list \<Rightarrow> bool \<Rightarrow> int \<Rightarrow> rat option" where
  "value_at ps nullable t =
     (case filter (\<lambda>p. fst p = t) ps of [] \<Rightarrow> (if nullable then None else Some 0) | qs \<Rightarrow> snd (last qs))"

lemma value_at_map_of:
  "value_at ps nullable t = (case map_of (rev ps) t of None \<Rightarrow> if nullable then None else Some 0 | Some v \<Rightarrow> v)"
proof (induction ps rule: rev_induct)
  case Nil
  then show ?case by (simp add: value_at_def)
next
  case (snoc p ps)
  then show ?case by (cases "filter (\<lambda>p. fst p = t) ps") (auto simp: value_at_def)
qed

lemma query_range_Inr:
  assumes "query_range prom query start_at end_at step n nullable = Inr vs"
  shows "\<exists>payload ps. prom query start_at end_at step = Inr payload \<and> status payload = ''success''
     \<and> traverse (parse_sample nullable) (case series payload of [] \<Rightarrow> [] | samples # _ \<Rightarrow> samples) = Inr ps
     \<and> vs = map (\<lambda>i. value_at ps nullable (start_at + i * step)) [0..n - 1]"
proof -
  obtain payload where payload: "prom query start_at end_at step = Inr payload" "status payload = ''success''"
    using assms by (auto simp: query_range_def res_bind_Inr_iff Let_def split: if_splits)
  show ?thesis
  proof (cases "series payload")
    case Nil
    with assms payload have "vs = replicate (nat n) (if nullable then None else Some 0)"
      by (simp add: query_range_def Let_def)
    with payload Nil show ?thesis
      by (auto simp: value_at_def map_replicate_const)
  next
    case (Cons samples rest)
    with assms payload obtain pts where "fold_res (add_sample nullable) samples [] = Inr pts"
      and vs: "vs = map (\<lambda>i. case map_of pts (start_at + i * step) of None \<Rightarrow> if nullable then None else Some 0 | Some v \<Rightarrow> v) [0..n - 1]"
      by (auto simp: query_range_def Let_def res_bind_Inr_iff)
    then obtain ps where "traverse (parse_sample nullable) samples = Inr ps" "map_of pts = map_of (rev ps)"
      using samples_fold by (fastforce simp: fun_eq_iff)
    with payload Cons vs show ?thesis by (auto simp: value_at_map_of)
  qed
qed

lemma query_range_length: "query_range prom query s e step n nullable = Inr vs \<Longrightarrow> length vs = nat n"
  by (auto dest!: query_range_Inr)

text \<open>A range query answers with exactly the points asked for, each the value of the last
  sample in its second; without \<^verbatim>\<open>nullable\<close> every point has a value.\<close>

theorem query_range_points:
  assumes "query_range prom query start_at end_at step n nullable = Inr vs"
  shows "length vs = nat n \<and> (\<not> nullable \<longrightarrow> None \<notin> set vs)
     \<and> (\<exists>payload ps. prom query start_at end_at step = Inr payload \<and> status payload = ''success''
        \<and> traverse (parse_sample nullable) (case series payload of [] \<Rightarrow> [] | samples # _ \<Rightarrow> samples) = Inr ps
        \<and> vs = map (\<lambda>i. value_at ps nullable (start_at + i * step)) [0..n - 1])"
proof -
  obtain payload ps where *: "prom query start_at end_at step = Inr payload" "status payload = ''success''"
    "traverse (parse_sample nullable) (case series payload of [] \<Rightarrow> [] | samples # _ \<Rightarrow> samples) = Inr ps"
    "vs = map (\<lambda>i. value_at ps nullable (start_at + i * step)) [0..n - 1]"
    using query_range_Inr [OF assms] by blast
  have "value_at ps nullable t \<noteq> None" if n: "\<not> nullable" for t
  proof (cases "map_of (rev ps) t")
    case None
    with n show ?thesis by (simp add: value_at_map_of)
  next
    case (Some v)
    then have "(t, v) \<in> set ps" by (auto dest: map_of_SomeD)
    with *(3) n obtain pair where "parse_sample False pair = Inr (t, v)"
      by (auto simp: traverse_Inr_iff list_all2_conv_all_nth in_set_conv_nth)
    from parse_sample_value [OF this] Some show ?thesis by (simp add: value_at_map_of)
  qed
  then have "\<not> nullable \<longrightarrow> None \<notin> set vs" unfolding *(4) set_map by (metis (no_types, lifting) imageE)
  with * query_range_length [OF assms] show ?thesis by blast
qed

definition example_prom :: "string \<Rightarrow> int \<Rightarrow> int \<Rightarrow> int \<Rightarrow> range_answer py" where
  "example_prom query start_at end_at step = Inr \<lparr>status = ''success'',
     series = [[[JInt start_at, JStr ''1.5''], [JFloat (Fin (of_int end_at)), JStr ''NaN''], [JInt start_at, JInt 2]]]\<rparr>"

theorem query_range_points_witness:
  "(let vs = [Some 2, None, None] :: rat option list in length vs = 3)
   \<and> value_at [(0, Some (3/2)), (120, None), (0, Some 2)] True 0 = Some 2"
proof -
  have "query_range example_prom ''q'' 0 120 60 3 True = Inr [Some 2, None, None]" by code_simp
  from query_range_points [OF this] show ?thesis by (simp add: value_at_def)
qed

section \<open>Rows of the history\<close>

lemma response_rows_reversed:
  assumes "has_metrics h" and "\<forall>m \<in> set LINEAR_REGRESSION_HISTORY_METRICS. length (series_of h m) = n"
  shows "rev (build_response_history_rows h g step) =
     map (\<lambda>k. metric_row (g - int k * step)
       (series_of h ''total_requests_per_minute'' ! (n - 1 - k))
       (series_of h ''total_cpu_seconds_per_minute'' ! (n - 1 - k))
       (series_of h ''total_bandwidth_bytes_per_minute'' ! (n - 1 - k))) [0..<n]"
proof (rule nth_equalityI)
  show "length (rev (build_response_history_rows h g step)) = length (map (\<lambda>k. metric_row (g - int k * step)
       (series_of h ''total_requests_per_minute'' ! (n - 1 - k))
       (series_of h ''total_cpu_seconds_per_minute'' ! (n - 1 - k))
       (series_of h ''total_bandwidth_bytes_per_minute'' ! (n - 1 - k))) [0..<n])"
    using assms by (simp add: build_response_history_rows_def LINEAR_REGRESSION_HISTORY_METRICS_def Let_def)
next
  fix i assume "i < length (rev (build_response_history_rows h g step))"
  then have i: "i < n"
    using assms by (simp add: build_response_history_rows_def LINEAR_REGRESSION_HISTORY_METRICS_def Let_def)
  have "metric_row (g - step * (int n - 1) + (int n - (1 + int i)) * step) = metric_row (g - int i * step)"
    by (rule arg_cong [of _ _ metric_row]) (simp add: algebra_simps)
  with i show "rev (build_response_history_rows h g step) ! i = map (\<lambda>k. metric_row (g - int k * step)
       (series_of h ''total_requests_per_minute'' ! (n - 1 - k))
       (series_of h ''total_cpu_seconds_per_minute'' ! (n - 1 - k))
       (series_of h ''total_bandwidth_bytes_per_minute'' ! (n - 1 - k))) [0..<n] ! i"
    using assms by (simp add: build_response_history_rows_def LINEAR_REGRESSION_HISTORY_METRICS_def Let_def rev_nth)
qed

lemma series_value_in:
  "0 \<le> i \<Longrightarrow> i < int (length xs) \<Longrightarrow> series_value_for_offset xs i = Inr (xs ! (length xs - 1 - nat i))"
proof -
  assume "0 \<le> i" "i < int (length xs)"
  then have "nat (int (length xs) - 1 - i) = length xs - 1 - nat i" "\<not> int (length xs) - 1 - i < 0" by linarith+
  then show ?thesis by (simp add: series_value_for_offset_def Let_def)
qed

lemma traverse_raises: "x \<in> set xs \<Longrightarrow> f x = Inl e \<Longrightarrow> \<exists>e. traverse f xs = Inl e"
  by (cases "traverse f xs") (auto simp: traverse_Inr_iff list_all2_conv_all_nth in_set_conv_nth)

text \<open>When the three series have equally many points, as every fetched history has, the rows
  sent to the regression model are the rows of the response from the newest back, as many as asked
  for; asking for more than there are is an error.\<close>

theorem linear_regression_rows:
  assumes "has_metrics h" and "\<forall>m \<in> set LINEAR_REGRESSION_HISTORY_METRICS. length (series_of h m) = n"
  shows "if k \<le> int n
     then build_linear_regression_history_rows h g step k = Inr (take (nat k) (rev (build_response_history_rows h g step)))
     else \<exists>e. build_linear_regression_history_rows h g step k = Inl e"
proof (cases "k \<le> int n")
  case True
  have len: "length (series_of h ''total_requests_per_minute'') = n" "length (series_of h ''total_cpu_seconds_per_minute'') = n"
    "length (series_of h ''total_bandwidth_bytes_per_minute'') = n"
    using assms(2) by (simp_all add: LINEAR_REGRESSION_HISTORY_METRICS_def)
  have "build_linear_regression_history_rows h g step k = Inr (map (\<lambda>i. metric_row (g - i * step)
       (series_of h ''total_requests_per_minute'' ! (n - 1 - nat i))
       (series_of h ''total_cpu_seconds_per_minute'' ! (n - 1 - nat i))
       (series_of h ''total_bandwidth_bytes_per_minute'' ! (n - 1 - nat i))) [0..k - 1])"
    unfolding build_linear_regression_history_rows_def if_not_P [OF not_not [THEN iffD2, OF assms(1)]]
  proof (rule traverse_total)
    fix i assume "i \<in> set [0..k - 1]"
    then have "0 \<le> i" "i < int n" using True by auto
    then show "res_bind (series_value_for_offset (series_of h ''total_requests_per_minute'') i) (\<lambda>a.
        res_bind (series_value_for_offset (series_of h ''total_cpu_seconds_per_minute'') i) (\<lambda>b.
        res_bind (series_value_for_offset (series_of h ''total_bandwidth_bytes_per_minute'') i) (\<lambda>c.
        Inr (metric_row (g - i * step) a b c)))) = Inr (metric_row (g - i * step)
       (series_of h ''total_requests_per_minute'' ! (n - 1 - nat i))
       (series_of h ''total_cpu_seconds_per_minute'' ! (n - 1 - nat i))
       (series_of h ''total_bandwidth_bytes_per_minute'' ! (n - 1 - nat i)))"
      by (simp only: len series_value_in res_bind_simps)
  qed
  also have "[0..k - 1] = map int [0..<nat k]" by (rule upto_of_nat)
  finally show ?thesis
    using True by (simp add: response_rows_reversed [OF assms] take_map comp_def min_def)
next
  case False
  then have at: "int n \<in> set [0..k - 1]" by auto
  have sv: "series_value_for_offset (series_of h ''total_requests_per_minute'') (int n)
      = Inl (ValueError ''History does not contain the requested offset'')"
    using assms(2) by (simp add: series_value_for_offset_def LINEAR_REGRESSION_HISTORY_METRICS_def)
  have "\<exists>e. build_linear_regression_history_rows h g step k = Inl e"
    unfolding build_linear_regression_history_rows_def
    unfolding if_not_P [OF not_not [THEN iffD2, OF assms(1)]] by (rule traverse_raises [OF at]) (simp only: sv res_bind_simps)
  with False show ?thesis by simp
qed

theorem linear_regression_rows_witness:
  "\<exists>e. build_linear_regression_history_rows
     [(''total_requests_per_minute'', [1]), (''total_cpu_seconds_per_minute'', [2]), (''total_bandwidth_bytes_per_minute'', [3])]
     60 60 2 = Inl e"
proof -
  have "has_metrics [(''total_requests_per_minute'', [1]), (''total_cpu_seconds_per_minute'', [2]), (''total_bandwidth_bytes_per_minute'', [3])]"
    "\<forall>m \<in> set LINEAR_REGRESSION_HISTORY_METRICS. length (series_of [(''total_requests_per_minute'', [1]),
       (''total_cpu_seconds_per_minute'', [2]), (''total_bandwidth_bytes_per_minute'', [3])] m) = 1"
    by code_simp+
  from linear_regression_rows [OF this, of 2 60 60] show ?thesis by simp
qed

section \<open>A whole forecast\<close>

text \<open>Loops that fill a dictionary.\<close>

lemma fold_res_updates:
  assumes "fold_res f xs d = Inr d'"
    and "\<And>x d d'. x \<in> set xs \<Longrightarrow> f x d = Inr d' \<Longrightarrow> \<exists>v. d' = AList.update (key x) v d \<and> Q x v"
  shows "fst ` set d' = fst ` set d \<union> key ` set xs
     \<and> (\<forall>k v. map_of d' k = Some v \<longrightarrow> map_of d k = Some v \<or> (\<exists>x \<in> set xs. key x = k \<and> Q x v))"
  using assms
proof (induction xs arbitrary: d)
  case Nil
  then show ?case by simp
next
  case (Cons x xs)
  from Cons.prems(1) obtain u where u: "f x d = Inr u" "fold_res f xs u = Inr d'" by (auto simp: res_bind_Inr_iff)
  from Cons.prems(2) [OF _ u(1)] obtain v where v: "u = AList.update (key x) v d" "Q x v" by auto
  have IH: "fst ` set d' = fst ` set u \<union> key ` set xs
      \<and> (\<forall>k v. map_of d' k = Some v \<longrightarrow> map_of u k = Some v \<or> (\<exists>x \<in> set xs. key x = k \<and> Q x v))"
    by (rule Cons.IH [OF u(2)]) (rule Cons.prems(2), simp_all)
  with v show ?case by (auto simp: dom_update update_conv' split: if_splits)
qed

lemma fold_res_fills:
  assumes "fold_res f xs [] = Inr d"
    and "\<And>x d d'. x \<in> set xs \<Longrightarrow> f x d = Inr d' \<Longrightarrow> \<exists>v. d' = AList.update (key x) v d \<and> Q x v"
  shows "fst ` set d = key ` set xs \<and> (\<forall>k v. map_of d k = Some v \<longrightarrow> (\<exists>x \<in> set xs. key x = k \<and> Q x v))"
  using fold_res_updates [where f = f and key = key and Q = Q, OF assms] by simp

definition usable_option :: "ForecastOption \<Rightarrow> bool" where
  "usable_option opt \<longleftrightarrow> 1 \<le> lookback_steps opt \<and> 1 \<le> horizon_steps opt \<and> 1 \<le> step_seconds opt
     \<and> (given (prometheus_query opt) \<or> given (prometheus_queries opt)) \<and> (is_local opt \<longleftrightarrow> \<not> given (endpoint opt))"

lemma check_fields_Inr: "check_fields opt = Inr opt' \<Longrightarrow> opt' = opt \<and> usable_option opt"
  by (auto simp: check_fields_def validate_configuration_def usable_option_def split: if_splits)

lemma load_options_usable:
  assumes "load_options parse payload = Inr options" and "map_of options k = Some opt"
  shows "usable_option opt \<and> (\<exists>v. (k, v) \<in> set payload \<and> parse v = Inr opt)"
proof -
  have fold: "fold_res (\<lambda>(contract_id, v) options. res_bind (parse v) (\<lambda>opt. res_bind (check_fields opt) (\<lambda>opt.
         Inr (AList.update contract_id opt options)))) payload [] = Inr options"
    using assms(1) by (auto simp: load_options_def res_bind_Inr_iff split: if_splits)
  have "fst ` set options = fst ` set payload \<and> (\<forall>k opt. map_of options k = Some opt
      \<longrightarrow> (\<exists>x \<in> set payload. fst x = k \<and> usable_option opt \<and> parse (snd x) = Inr opt))"
    by (rule fold_res_fills [OF fold]) (auto simp: res_bind_Inr_iff dest!: check_fields_Inr)
  with assms(2) show ?thesis by (metis prod.collapse)
qed

lemma feature_history_shape:
  assumes "fetch_feature_history prom opt g = Inr h"
  shows "fst ` set h = set (feature_metrics opt) \<and> (\<forall>m xs. map_of h m = Some xs \<longrightarrow> length xs = nat (lookback_steps opt))"
proof -
  have "fst ` set h = (\<lambda>m. m) ` set (feature_metrics opt)
      \<and> (\<forall>m xs. map_of h m = Some xs \<longrightarrow> (\<exists>x \<in> set (feature_metrics opt). x = m \<and> length xs = nat (lookback_steps opt)))"
    by (rule fold_res_fills [OF assms [unfolded fetch_feature_history_def Let_def]])
      (auto simp: res_bind_Inr_iff dest!: traverse_length query_range_length)
  then show ?thesis by auto
qed

lemma guardrail_history_shape:
  assumes "fetch_guardrail_history prom opt g = Inr observed"
  shows "fst ` set observed = (if given (guardrail_queries opt) then fst ` set (the (guardrail_queries opt)) else {})
     \<and> (\<forall>m xs. map_of observed m = Some xs \<longrightarrow> length xs = nat (horizon_steps opt))"
proof (cases "given (guardrail_queries opt)")
  case True
  with assms have "fold_res (\<lambda>(metric, raw) observed.
        res_bind (query_range prom (render_query raw opt) (g - step_seconds opt * (horizon_steps opt - 1)) g
          (step_seconds opt) (horizon_steps opt) True) (\<lambda>values. Inr (AList.update metric values observed)))
        (the (guardrail_queries opt)) [] = Inr observed"
    by (simp add: fetch_guardrail_history_def Let_def)
  then have "fst ` set observed = fst ` set (the (guardrail_queries opt))
      \<and> (\<forall>m xs. map_of observed m = Some xs
        \<longrightarrow> (\<exists>x \<in> set (the (guardrail_queries opt)). fst x = m \<and> length xs = nat (horizon_steps opt)))"
    by (rule fold_res_fills) (auto simp: res_bind_Inr_iff dest!: query_range_length)
  with True show ?thesis by auto
next
  case False
  with assms show ?thesis by (simp add: fetch_guardrail_history_def)
qed

lemma predict_length:
  assumes "predict remote opt h g = Inr result"
  shows "length (predictions result) = nat (horizon_steps opt) \<and> length (prediction_rows result) \<le> nat (horizon_steps opt)"
proof -
  have ex: "extract_from keys raw n = Inr ps \<Longrightarrow> length ps = nat n" for keys raw n ps
    by (induction keys) (auto simp: res_bind_Inr_iff split: json.splits if_splits)
  show ?thesis
    using assms
    by (auto simp: predict_def predict_local_def predict_linear_regression_def predict_legacy_remote_def
        extract_metric_predictions_def extract_predictions_def build_last_value_prediction_rows_def local_result_def
        res_bind_Inr_iff Let_def min_def simp del: extract_from.simps dest!: ex split: if_splits)
qed

text \<open>What a forecast answers: its contract is one of the loaded, valid options; there is one
  prediction per step of the horizon, a history of \<^verbatim>\<open>lookback_steps\<close> values for exactly the
  feature metrics and one of \<^verbatim>\<open>horizon_steps\<close> values for exactly the guardrail queries.\<close>

theorem predict_workload_shape:
  assumes "predict_workload prom remote parse payload now contract_id = Inr r"
  shows "\<exists>opt v. (contract_id, v) \<in> set payload \<and> parse v = Inr opt \<and> usable_option opt
     \<and> resp_contract_id r = contract_id \<and> resp_generated_at r = aligned_now now (step_seconds opt)
     \<and> length (resp_predictions r) = nat (horizon_steps opt)
     \<and> length (resp_prediction_rows r) \<le> nat (horizon_steps opt)
     \<and> fst ` set (resp_history r) = set (feature_metrics opt)
     \<and> (\<forall>m xs. map_of (resp_history r) m = Some xs \<longrightarrow> length xs = nat (lookback_steps opt))
     \<and> fst ` set (resp_observed r) = (if given (guardrail_queries opt) then fst ` set (the (guardrail_queries opt)) else {})
     \<and> (\<forall>m xs. map_of (resp_observed r) m = Some xs \<longrightarrow> length xs = nat (horizon_steps opt))
     \<and> resp_history_rows r = build_response_history_rows (resp_history r) (resp_generated_at r) (resp_step_seconds r)"
proof -
  obtain options opt h observed result where o: "load_options parse payload = Inr options"
      "map_of options contract_id = Some opt"
    and h: "fetch_feature_history prom opt (aligned_now now (step_seconds opt)) = Inr h"
    and g: "fetch_guardrail_history prom opt (aligned_now now (step_seconds opt)) = Inr observed"
    and p: "predict remote opt h (aligned_now now (step_seconds opt)) = Inr result"
    and r: "resp_contract_id r = contract_id" "resp_generated_at r = aligned_now now (step_seconds opt)"
      "resp_predictions r = predictions result" "resp_prediction_rows r = prediction_rows result"
      "resp_history r = h" "resp_observed r = observed" "resp_step_seconds r = step_seconds opt"
      "resp_history_rows r = build_response_history_rows h (aligned_now now (step_seconds opt)) (step_seconds opt)"
    using assms by (auto simp: predict_workload_def res_bind_Inr_iff Let_def)
  from load_options_usable [OF o] obtain v where v: "(contract_id, v) \<in> set payload" "parse v = Inr opt"
    and u: "usable_option opt" by blast
  show ?thesis
    unfolding r
    by (rule exI [of _ opt], rule exI [of _ v])
      (intro conjI v u refl feature_history_shape [OF h, THEN conjunct1] feature_history_shape [OF h, THEN conjunct2]
        guardrail_history_shape [OF g, THEN conjunct1] guardrail_history_shape [OF g, THEN conjunct2]
        predict_length [OF p, THEN conjunct1] predict_length [OF p, THEN conjunct2])
qed

definition example_option :: ForecastOption where
  "example_option = \<lparr>deployment = ''d'', namespace = ''default'', service = ''s'', ingress = ''i'', app_pod_regex = ''d-.*'',
     target_metric = ''m'', remote_target_metric = None, feature_metrics = [''m''],
     guardrail_queries = Some [(''g'', ''q'')], lookback_steps = 2, horizon_steps = 3, step_seconds = 60,
     model_full_name = ''last_value:1'', prometheus_query = Some ''q'', prometheus_queries = None,
     is_local = True, endpoint = None, remote_contract = ''legacy_prediction_list''\<rparr>"

definition example_forecast :: "ForecastResponse py" where
  "example_forecast = predict_workload example_prom \<lparr>ask_legacy = \<lambda>_ _. Inl TypeError, ask_serving = \<lambda>_ _. Inl TypeError\<rparr>
       (\<lambda>_. Inr example_option) [(''c'', JNull)] 125500000 ''c''"

theorem predict_workload_shape_witness:
  "\<exists>r. example_forecast = Inr r \<and> resp_contract_id r = ''c''"
proof -
  have "\<not> isl example_forecast" by code_simp
  then obtain r where r: "example_forecast = Inr r" by (metis sum.collapse(2))
  from predict_workload_shape [OF r [unfolded example_forecast_def]] have "resp_contract_id r = ''c''" by (elim exE conjE)
  with r show ?thesis by (intro exI conjI)
qed

text \<open>A forecast is stamped with a multiple of the step that is at most a second ahead of the
  clock and less than a step behind it.\<close>

theorem aligned_now_bounds:
  assumes "0 < step" and "\<bar>now\<bar> < 2 ^ 53 * 1000000"
  shows "step dvd aligned_now now step \<and> aligned_now now step \<le> now div 1000000 + 1
     \<and> now div 1000000 < aligned_now now step + step"
proof -
  define x where "x = rnd64 (of_int now / 1000000)"
  define s where "s = now div 1000000"
  have s: "s * 1000000 \<le> now" "now \<le> (s + 1) * 1000000"
  proof -
    obtain m where "s * 1000000 + m = now" "0 \<le> m" "m < 1000000"
      using that [of "now mod 1000000"] unfolding s_def by simp
    then show "s * 1000000 \<le> now" "now \<le> (s + 1) * 1000000" by auto
  qed
  have bound: "\<bar>s\<bar> \<le> 2 ^ 53" "\<bar>s + 1\<bar> \<le> 2 ^ 53" using assms(2) unfolding s_def by auto
  have "of_int s \<le> (of_int now / 1000000 :: rat)" "of_int now / 1000000 \<le> (of_int (s + 1) :: rat)"
    using s by (simp_all add: le_divide_eq divide_le_eq flip: of_int_le_iff [where 'a = rat])
  with bound have x: "of_int s \<le> x" "x \<le> of_int (s + 1)"
    unfolding x_def by (blast intro: rnd64_ge_int rnd64_le_int)+
  define q where "q = \<lfloor>x / of_int step\<rfloor>"
  have "of_int q \<le> x / of_int step" "x / of_int step < of_int q + 1" unfolding q_def by linarith+
  with assms(1) have "of_int q * of_int step \<le> x" "x < (of_int q + 1) * of_int step"
    by (simp_all add: le_divide_eq divide_less_eq)
  with x have "(of_int (q * step) :: rat) \<le> of_int (s + 1)" "(of_int s :: rat) < of_int ((q + 1) * step)" by simp_all
  then have "q * step \<le> s + 1" "s < (q + 1) * step" by (simp_all only: of_int_le_iff of_int_less_iff)
  then show ?thesis unfolding aligned_now_def x_def [symmetric] q_def [symmetric] s_def [symmetric]
    by (simp add: algebra_simps)
qed

theorem aligned_now_bounds_witness: "60 dvd aligned_now 1700000000500000 60"
  using aligned_now_bounds [of 60 1700000000500000] by simp

end
