(* ===== verification/LoopHistory.thy ===== *)
theory LoopHistory
  imports Json
begin

text \<open>
  The history of controller loops of the system showcase
  (\<^verbatim>\<open>system-showcase/app/loop_history_store.py\<close>): a bounded list of pod loops and one of node
  loops per scaler, kept in a JSON file.
\<close>

section \<open>The file\<close>

datatype history_file = Absent | Unparsable | Stored json

record scaler_payload =
  podLoops :: "json list"
  nodeLoops :: "json list"

type_synonym history_payload = "(string \<times> scaler_payload) list"

definition no_loops :: scaler_payload where
  "no_loops = \<lparr>podLoops = [], nodeLoops = []\<rparr>"

text \<open>\<^verbatim>\<open>_read_payload\<close>: the entries that are dictionaries, their lists or empty ones.\<close>

definition normalize_scaler :: "json \<Rightarrow> scaler_payload" where
  "normalize_scaler v = \<lparr>podLoops = arr_items (jget ''podLoops'' v), nodeLoops = arr_items (jget ''nodeLoops'' v)\<rparr>"

definition normalize_scalers :: "(string \<times> json) list \<Rightarrow> history_payload" where
  "normalize_scalers qs =
     foldl (\<lambda>d (k, v). if is_obj v then AList.update k (normalize_scaler v) d else d) [] qs"

definition read_payload :: "history_file \<Rightarrow> history_payload py" where
  "read_payload f = (case f of
     Absent \<Rightarrow> Inr []
   | Unparsable \<Rightarrow> Inr []
   | Stored payload \<Rightarrow>
       res_bind (py_get ''scalers'' payload) (\<lambda>scalers.
       if is_obj scalers then Inr (normalize_scalers (obj_items scalers)) else Inr []))"

definition scaler_json :: "scaler_payload \<Rightarrow> json" where
  "scaler_json s = JObj [(''podLoops'', JArr (podLoops s)), (''nodeLoops'', JArr (nodeLoops s))]"

definition write_payload :: "history_payload \<Rightarrow> history_file" where
  "write_payload payload =
     Stored (JObj [(''scalers'', JObj (map (\<lambda>(k, s). (k, scaler_json s)) payload))])"

text \<open>\<^verbatim>\<open>payload.setdefault("scalers", {}).setdefault(scaler_key, ...)\<close>\<close>

definition setdefault_scaler :: "string \<Rightarrow> history_payload \<Rightarrow> history_payload" where
  "setdefault_scaler key payload = (if map_of payload key = None then payload @ [(key, no_loops)] else payload)"

definition loops_of :: "string \<Rightarrow> history_payload \<Rightarrow> scaler_payload" where
  "loops_of key payload = (case map_of payload key of None \<Rightarrow> no_loops | Some s \<Rightarrow> s)"

section \<open>Operations\<close>

definition trim_to :: "int \<Rightarrow> 'a list \<Rightarrow> 'a list" where
  "trim_to limit items = (if limit < int (length items) then drop (nat (int (length items) - limit)) items else items)"

definition record_key :: "json \<Rightarrow> string" where
  "record_key r = strip (str_or (jget ''loopKey'' r) [])"

definition record_minute :: "json \<Rightarrow> string" where
  "record_minute r = strip (str_or (jget ''minuteBucket'' r) [])"

definition append_if_new :: "int \<Rightarrow> json list \<Rightarrow> json \<Rightarrow> (json list \<times> bool) py" where
  "append_if_new limit items r =
     (if \<not> truthy r then Inr (items, False)
      else if \<not> is_obj r then Inl AttributeError
      else if record_key r = [] then Inr (items, False)
      else if items = [] then Inr (trim_to limit (items @ [r]), True)
      else res_bind (py_get ''loopKey'' (last items)) (\<lambda>last_key.
        if json_eq last_key (JStr (record_key r)) then Inr (items, False)
        else if record_minute r \<noteq> [] \<and> record_minute r = record_minute (last items) then
          (if json_eq (last items) r then Inr (items, False) else Inr (butlast items @ [r], True))
        else Inr (trim_to limit (items @ [r]), True)))"

record history_view =
  view_limit :: int
  view_pods :: "json list"
  view_nodes :: "json list"

definition get_snapshot :: "int \<Rightarrow> history_file \<Rightarrow> string \<Rightarrow> history_view py" where
  "get_snapshot limit f key =
     res_bind (read_payload f) (\<lambda>payload. let s = loops_of key (setdefault_scaler key payload) in
     Inr \<lparr>view_limit = limit, view_pods = podLoops s, view_nodes = nodeLoops s\<rparr>)"

text \<open>The result holds the view, whether anything changed, and the file afterwards.\<close>

definition sync_latest ::
  "int \<Rightarrow> history_file \<Rightarrow> string \<Rightarrow> json \<Rightarrow> json \<Rightarrow> (history_view \<times> bool \<times> history_file) py" where
  "sync_latest limit f key pod_loop node_loop =
     res_bind (read_payload f) (\<lambda>payload.
     let payload = setdefault_scaler key payload; s = loops_of key payload in
     res_bind (append_if_new limit (podLoops s) pod_loop) (\<lambda>(pods, pod_changed).
     res_bind (append_if_new limit (nodeLoops s) node_loop) (\<lambda>(nodes, node_changed).
     let changed = (pod_changed \<or> node_changed);
         payload = AList.update key \<lparr>podLoops = pods, nodeLoops = nodes\<rparr> payload
     in Inr (\<lparr>view_limit = limit, view_pods = pods, view_nodes = nodes\<rparr>, changed,
          if changed then write_payload payload else f))))"

section \<open>Reading back what was written\<close>

lemma normalize_scaler_json [simp]: "normalize_scaler (scaler_json s) = s"
  by (simp add: normalize_scaler_def scaler_json_def)

lemma is_obj_scaler_json [simp]: "is_obj (scaler_json s)"
  by (simp add: scaler_json_def)

lemma normalize_scalers_append:
  "normalize_scalers (qs @ [(k, v)]) = (if is_obj v then AList.update k (normalize_scaler v) (normalize_scalers qs) else normalize_scalers qs)"
  by (simp add: normalize_scalers_def)

lemma update_new_key: "k \<notin> fst ` set d \<Longrightarrow> AList.update k v d = d @ [(k, v)]"
  by (induction d) auto

lemma normalize_written: "distinct (map fst payload) \<Longrightarrow> normalize_scalers (map (\<lambda>(k, s). (k, scaler_json s)) payload) = payload"
proof (induction payload rule: rev_induct)
  case Nil
  then show ?case by (simp add: normalize_scalers_def)
next
  case (snoc p payload)
  then show ?case by (cases p) (simp add: normalize_scalers_append update_new_key)
qed

lemma read_written: "distinct (map fst payload) \<Longrightarrow> read_payload (write_payload payload) = Inr payload"
  by (simp add: read_payload_def write_payload_def py_get_def normalize_written)

lemma normalize_scalers_distinct: "distinct (map fst (normalize_scalers qs))"
  by (induction qs rule: rev_induct)
    (auto simp: normalize_scalers_def distinct_update split: prod.split)

lemma read_payload_distinct: "read_payload f = Inr payload \<Longrightarrow> distinct (map fst payload)"
  by (auto simp: read_payload_def res_bind_Inr_iff normalize_scalers_distinct split: history_file.splits if_splits)

lemma setdefault_distinct: "distinct (map fst payload) \<Longrightarrow> distinct (map fst (setdefault_scaler key payload))"
  by (auto simp: setdefault_scaler_def map_of_eq_None_iff)

lemma loops_of_setdefault [simp]: "loops_of key (setdefault_scaler key' payload) = loops_of key payload"
  by (auto simp: setdefault_scaler_def loops_of_def map_add_def split: option.split)

lemma setdefault_idem [simp]: "map_of payload key \<noteq> None \<Longrightarrow> setdefault_scaler key payload = payload"
  by (simp add: setdefault_scaler_def)

lemma loops_of_update [simp]: "loops_of key' (AList.update key s payload) = (if key' = key then s else loops_of key' payload)"
  by (simp add: loops_of_def update_conv')

section \<open>One list\<close>

lemma trim_to_length: "0 \<le> limit \<Longrightarrow> int (length (trim_to limit xs)) \<le> limit"
  by (auto simp: trim_to_def)

lemma trim_to_last: "1 \<le> limit \<Longrightarrow> xs \<noteq> [] \<Longrightarrow> trim_to limit xs \<noteq> [] \<and> last (trim_to limit xs) = last xs"
  by (auto simp: trim_to_def last_drop)

text \<open>What an append does to a list, whichever way it goes.\<close>

lemma append_if_new_cases:
  assumes "append_if_new limit items r = Inr (items', changed)"
  obtains "items' = items" "\<not> changed"
  | "items' = trim_to limit (items @ [r])" "changed" "is_obj r" "record_key r \<noteq> []"
  | "items' = butlast items @ [r]" "items \<noteq> []" "changed" "is_obj r" "record_key r \<noteq> []"
  using assms by (auto simp: append_if_new_def res_bind_Inr_iff split: if_splits)

lemma append_if_new_length:
  assumes "append_if_new limit items r = Inr (items', changed)" "0 \<le> limit" "int (length items) \<le> limit"
  shows "int (length items') \<le> limit"
  using assms(1) by (cases rule: append_if_new_cases) (use assms in \<open>auto simp: trim_to_length\<close>)

text \<open>A key without surrounding space, as the records of the controller carry it.\<close>

definition clean_key :: "json \<Rightarrow> bool" where
  "clean_key r \<longleftrightarrow> truthy r \<longrightarrow> json_eq (jget ''loopKey'' r) (JStr (record_key r))"

lemma append_if_new_again:
  assumes "append_if_new limit items r = Inr (items', changed)" "1 \<le> limit" "clean_key r"
  shows "append_if_new limit items' r = Inr (items', False)"
proof -
  have again: "append_if_new limit items' r = Inr (items', False)"
    if "items' \<noteq> []" "last items' = r" "is_obj r" "record_key r \<noteq> []"
  proof -
    have "truthy r" using that(3,4) by (cases r) (auto simp: record_key_def str_or_def strip_def rstrip_if_def)
    with that assms(3) show ?thesis by (simp add: append_if_new_def py_get_def clean_key_def)
  qed
  from assms(1) show ?thesis
  proof (cases rule: append_if_new_cases)
    case 1
    with assms(1) show ?thesis by simp
  next
    case 2
    with trim_to_last [OF assms(2), of "items @ [r]"] again show ?thesis by simp
  next
    case 3
    with again show ?thesis by simp
  qed
qed

section \<open>Properties\<close>

lemma sync_latestE:
  assumes "sync_latest limit f key p n = Inr (view, changed, f')"
  obtains payload pc nc where "read_payload f = Inr payload"
    and "append_if_new limit (podLoops (loops_of key payload)) p = Inr (view_pods view, pc)"
    and "append_if_new limit (nodeLoops (loops_of key payload)) n = Inr (view_nodes view, nc)"
    and "changed = (pc \<or> nc)" and "view_limit view = limit"
    and "f' = (if changed then write_payload (AList.update key \<lparr>podLoops = view_pods view, nodeLoops = view_nodes view\<rparr>
            (setdefault_scaler key payload)) else f)"
proof -
  from assms obtain payload pods pc nodes nc where *: "read_payload f = Inr payload"
    "append_if_new limit (podLoops (loops_of key payload)) p = Inr (pods, pc)"
    "append_if_new limit (nodeLoops (loops_of key payload)) n = Inr (nodes, nc)"
    and r: "view = \<lparr>view_limit = limit, view_pods = pods, view_nodes = nodes\<rparr>" "changed = (pc \<or> nc)"
      "f' = (if pc \<or> nc then write_payload (AList.update key \<lparr>podLoops = pods, nodeLoops = nodes\<rparr> (setdefault_scaler key payload)) else f)"
    unfolding sync_latest_def Let_def by (force simp: res_bind_Inr_iff)
  show thesis by (rule that [of payload pc nc]) (use * r in simp_all)
qed

lemma sync_unchanged:
  assumes "sync_latest limit f key p n = Inr (view, False, f')"
  shows "f' = f"
proof -
  from assms obtain payload pc nc where "False = (pc \<or> nc)"
    "f' = (if False then write_payload (AList.update key \<lparr>podLoops = view_pods view, nodeLoops = view_nodes view\<rparr>
            (setdefault_scaler key payload)) else f)"
    by (rule sync_latestE)
  then show ?thesis by simp
qed

lemma read_after_sync:
  assumes "sync_latest limit f key p n = Inr (view, changed, f')"
  shows "\<exists>payload payload'. read_payload f = Inr payload \<and> read_payload f' = Inr payload'
     \<and> loops_of key payload' = \<lparr>podLoops = view_pods view, nodeLoops = view_nodes view\<rparr>
     \<and> (\<forall>k. k \<noteq> key \<longrightarrow> loops_of k payload' = loops_of k payload)"
proof -
  from assms obtain payload pc nc where *: "read_payload f = Inr payload"
    "append_if_new limit (podLoops (loops_of key payload)) p = Inr (view_pods view, pc)"
    "append_if_new limit (nodeLoops (loops_of key payload)) n = Inr (view_nodes view, nc)"
    "changed = (pc \<or> nc)"
    and f': "f' = (if changed then write_payload (AList.update key \<lparr>podLoops = view_pods view, nodeLoops = view_nodes view\<rparr>
            (setdefault_scaler key payload)) else f)"
    by (rule sync_latestE)
  show ?thesis
  proof (cases changed)
    case True
    have "read_payload f' = Inr (AList.update key \<lparr>podLoops = view_pods view, nodeLoops = view_nodes view\<rparr>
        (setdefault_scaler key payload))"
      using True f' read_payload_distinct [OF *(1)] by (simp add: read_written distinct_update setdefault_distinct)
    with *(1) show ?thesis by simp
  next
    case False
    from *(2) have "view_pods view = podLoops (loops_of key payload)"
      by (cases rule: append_if_new_cases) (use False *(4) in simp_all)
    moreover from *(3) have "view_nodes view = nodeLoops (loops_of key payload)"
      by (cases rule: append_if_new_cases) (use False *(4) in simp_all)
    ultimately show ?thesis using False f' *(1) by simp
  qed
qed

text \<open>What a synchronisation returns is what the file answers for that scaler afterwards, and
  the file answers for every other scaler as before.\<close>

theorem history_sync_then_get:
  assumes "sync_latest limit f key p n = Inr (view, changed, f')"
  shows "get_snapshot limit f' k = (if k = key then Inr view else get_snapshot limit f k)"
proof -
  from read_after_sync [OF assms] obtain payload payload' where "read_payload f = Inr payload"
    "read_payload f' = Inr payload'" "loops_of key payload' = \<lparr>podLoops = view_pods view, nodeLoops = view_nodes view\<rparr>"
    "\<forall>k. k \<noteq> key \<longrightarrow> loops_of k payload' = loops_of k payload" by blast
  moreover have "view_limit view = limit" using assms by (rule sync_latestE)
  ultimately show ?thesis by (auto simp: get_snapshot_def)
qed

definition example_loop :: json where
  "example_loop = JObj [(''loopKey'', JStr ''pod:1:2''), (''minuteBucket'', JStr ''unknown'')]"

definition example_view :: history_view where
  "example_view = \<lparr>view_limit = 2, view_pods = [example_loop], view_nodes = []\<rparr>"

definition example_file :: history_file where
  "example_file = write_payload [(''ns/a'', \<lparr>podLoops = [example_loop], nodeLoops = []\<rparr>)]"

lemma example_sync: "sync_latest 2 Absent ''ns/a'' example_loop JNull = Inr (example_view, True, example_file)"
  by code_simp

theorem history_sync_then_get_witness: "get_snapshot 2 example_file ''ns/a'' = Inr example_view"
  using history_sync_then_get [OF example_sync, of "''ns/a''"] by simp

definition history_within :: "int \<Rightarrow> history_file \<Rightarrow> bool" where
  "history_within limit f \<longleftrightarrow> (\<forall>payload k. read_payload f = Inr payload \<longrightarrow>
     int (length (podLoops (loops_of k payload))) \<le> limit \<and> int (length (nodeLoops (loops_of k payload))) \<le> limit)"

lemma sync_within:
  assumes "sync_latest limit f key p n = Inr (view, changed, f')" and "0 \<le> limit" and "history_within limit f"
  shows "history_within limit f'"
proof -
  from read_after_sync [OF assms(1)] obtain payload payload' where r: "read_payload f = Inr payload"
    "read_payload f' = Inr payload'" "loops_of key payload' = \<lparr>podLoops = view_pods view, nodeLoops = view_nodes view\<rparr>"
    "\<forall>k. k \<noteq> key \<longrightarrow> loops_of k payload' = loops_of k payload" by blast
  from assms(1) obtain pc nc where "append_if_new limit (podLoops (loops_of key payload)) p = Inr (view_pods view, pc)"
    "append_if_new limit (nodeLoops (loops_of key payload)) n = Inr (view_nodes view, nc)"
    by (rule sync_latestE) (use r(1) in auto)
  with append_if_new_length assms(2,3) r(1)
  have "int (length (view_pods view)) \<le> limit" "int (length (view_nodes view)) \<le> limit"
    unfolding history_within_def by blast+
  with r assms(3) show ?thesis unfolding history_within_def by (metis Inr_inject scaler_payload.select_convs)
qed

text \<open>Reporting the same loops again changes nothing.\<close>

theorem history_sync_again:
  assumes "sync_latest limit f key p n = Inr (view, changed, f')" and "1 \<le> limit"
    and "clean_key p" and "clean_key n"
  shows "sync_latest limit f' key p n = Inr (view, False, f')"
proof -
  from read_after_sync [OF assms(1)] obtain payload payload' where r: "read_payload f = Inr payload"
    "read_payload f' = Inr payload'" "loops_of key payload' = \<lparr>podLoops = view_pods view, nodeLoops = view_nodes view\<rparr>"
    by blast
  from assms(1) obtain pc nc where "append_if_new limit (podLoops (loops_of key payload)) p = Inr (view_pods view, pc)"
    "append_if_new limit (nodeLoops (loops_of key payload)) n = Inr (view_nodes view, nc)" and lim: "view_limit view = limit"
    by (rule sync_latestE) (use r(1) in auto)
  with append_if_new_again assms(2-4)
  have "append_if_new limit (view_pods view) p = Inr (view_pods view, False)"
    "append_if_new limit (view_nodes view) n = Inr (view_nodes view, False)" by blast+
  with r lim show ?thesis by (simp add: sync_latest_def Let_def)
qed

theorem history_sync_again_witness:
  "sync_latest 2 example_file ''ns/a'' example_loop JNull = Inr (example_view, False, example_file)"
proof -
  have "clean_key example_loop" by code_simp
  then show ?thesis by (rule history_sync_again [OF example_sync, rotated]) (simp_all add: clean_key_def)
qed

end
