(* ===== verification/ForecastApp.thy ===== *)
theory ForecastApp
  imports Forecast LoopHistory
begin

text \<open>
  \<^verbatim>\<open>forecasting-service/app/main.py\<close>, \<^verbatim>\<open>config.py\<close> and the remote model client of
  \<^verbatim>\<open>clients.py\<close>: the settings, the routes and the exchange with a remote model, around the
  prediction pipeline.
\<close>

section \<open>Settings\<close>

record forecast_settings =
  forecast_app_name :: string
  forecast_host :: string
  forecast_port :: int
  forecast_prometheus_base_url :: string
  forecast_prometheus_timeout_seconds :: rat
  remote_model_timeout_seconds :: rat
  forecast_options_path :: string

definition default_forecast_settings :: forecast_settings where
  "default_forecast_settings =
     \<lparr>forecast_app_name = ''forecasting-service'', forecast_host = ''0.0.0.0'', forecast_port = 8080,
      forecast_prometheus_base_url = ''http://monitoring-stack-kube-prom-prometheus.monitoring.svc.cluster.local:9090'',
      forecast_prometheus_timeout_seconds = 30, remote_model_timeout_seconds = 15,
      forecast_options_path = ''config/options.json''\<rparr>"

definition forecast_settings_accepted :: "forecast_settings \<Rightarrow> bool" where
  "forecast_settings_accepted c \<longleftrightarrow> 0 < forecast_prometheus_timeout_seconds c \<and> 0 < remote_model_timeout_seconds c"

section \<open>The remote model\<close>

text \<open>What a POST gives: a status with the JSON of the body, where it is JSON, or a transport error.\<close>

datatype model_answer = ModelAnswer int "json option" | ModelError

definition response_json :: "model_answer \<Rightarrow> json py" where
  "response_json r = (case r of
     ModelError \<Rightarrow> Inl (RuntimeError ''httpx.HTTPError'')
   | ModelAnswer code body \<Rightarrow>
       if 200 \<le> code \<and> code < 300 then or_raise (ValueError ''JSONDecodeError'') body
       else Inl (RuntimeError ''httpx.HTTPStatusError''))"

definition remote_predict :: "(string \<Rightarrow> json \<Rightarrow> model_answer) \<Rightarrow> string \<Rightarrow> json \<Rightarrow> json py" where
  "remote_predict http url payload = response_json (http url payload)"

text \<open>\<^verbatim>\<open>model_dump(mode="json")\<close> of the two requests; \<open>stamp\<close> is how pydantic writes a datetime.\<close>

definition legacy_request_json :: "(int \<Rightarrow> string) \<Rightarrow> RemotePredictionRequest \<Rightarrow> json" where
  "legacy_request_json stamp q = JObj
     [(''deployment'', JStr (ask_deployment q)), (''target_metric'', JStr (ask_target_metric q)),
      (''feature_metrics'', JArr (map JStr (ask_feature_metrics q))), (''lookback_steps'', JInt (ask_lookback_steps q)),
      (''horizon_steps'', JInt (ask_horizon_steps q)), (''step_seconds'', JInt (ask_step_seconds q)),
      (''model_full_name'', JStr (ask_model_full_name q)), (''generated_at'', JStr (stamp (ask_generated_at q))),
      (''history'', JObj (map (\<lambda>(k, vs). (k, JArr (map (\<lambda>v. JFloat (Fin v)) vs))) (ask_history q)))]"

definition row_json :: "(int \<Rightarrow> string) \<Rightarrow> MetricForecastRow \<Rightarrow> json" where
  "row_json stamp r = JObj
     [(''datetime'', JStr (stamp (row_datetime r))),
      (''total_requests_per_minute'', JFloat (total_requests_per_minute r)),
      (''total_cpu_seconds_per_minute'', JFloat (total_cpu_seconds_per_minute r)),
      (''total_bandwidth_bytes_per_minute'', JFloat (total_bandwidth_bytes_per_minute r))]"

definition serving_request_json :: "(int \<Rightarrow> string) \<Rightarrow> LinearRegressionServingRequest \<Rightarrow> json" where
  "serving_request_json stamp q = JObj
     [(''current_time_origin'', JStr (stamp (request_time_origin q))),
      (''history'', JArr (map (row_json stamp) (request_history q)))]"

text \<open>\<open>validate\<close> is \<^verbatim>\<open>LinearRegressionServingResponse.model_validate\<close>.\<close>

definition http_model ::
  "(string \<Rightarrow> json \<Rightarrow> model_answer) \<Rightarrow> (int \<Rightarrow> string) \<Rightarrow> (json \<Rightarrow> LinearRegressionServingResponse py) \<Rightarrow> remote_model" where
  "http_model http stamp validate =
     \<lparr>ask_legacy = (\<lambda>url q. remote_predict http url (legacy_request_json stamp q)),
      ask_serving = (\<lambda>url q. res_bind (remote_predict http url (serving_request_json stamp q)) validate)\<rparr>"

section \<open>Routes\<close>

text \<open>\<^verbatim>\<open>ForecastRequest\<close>: the contract id under the first of its names that is there, not empty.\<close>

definition forecast_request :: "json \<Rightarrow> string option" where
  "forecast_request body =
     (if \<not> is_obj body then None
      else case (if has_key ''contract_id'' body then jget ''contract_id'' body else jget ''option_id'' body) of
        JStr s \<Rightarrow> if 1 \<le> length s then Some s else None
      | _ \<Rightarrow> None)"

text \<open>\<^verbatim>\<open>_load_json_file\<close> on the options file, whose value has to be a dictionary for its items.\<close>

definition load_json_file :: "history_file \<Rightarrow> json py" where
  "load_json_file f = (case f of
     Absent \<Rightarrow> Inl FileNotFoundError
   | Unparsable \<Rightarrow> Inl (ValueError ''JSONDecodeError'')
   | Stored payload \<Rightarrow> Inr payload)"

definition option_items :: "history_file \<Rightarrow> (string \<times> json) list py" where
  "option_items f = res_bind (load_json_file f) (\<lambda>payload. if is_obj payload then Inr (obj_items payload) else Inl AttributeError)"

record forecast_world =
  world_prometheus :: "string \<Rightarrow> int \<Rightarrow> int \<Rightarrow> int \<Rightarrow> range_answer py"
  world_http :: "string \<Rightarrow> json \<Rightarrow> model_answer"
  world_stamp :: "int \<Rightarrow> string"
  world_validate :: "json \<Rightarrow> LinearRegressionServingResponse py"
  world_parse :: "json \<Rightarrow> ForecastOption py"
  options_file :: history_file
  forecast_now :: int

datatype forecast_route = GetHealth | GetRoot | PostForecast json | PostPredictWorkload json

datatype forecast_answer =
  Message "(string \<times> string) list" | Forecasted ForecastResponse | ForecastRefused | ForecastFailed py_exn

definition answer_forecast :: "forecast_world \<Rightarrow> json \<Rightarrow> forecast_answer" where
  "answer_forecast w body = (case forecast_request body of
     None \<Rightarrow> ForecastRefused
   | Some contract_id \<Rightarrow> (case res_bind (option_items (options_file w)) (\<lambda>payload.
         predict_workload (world_prometheus w) (http_model (world_http w) (world_stamp w) (world_validate w)) (world_parse w)
           payload (forecast_now w) contract_id) of
       Inl e \<Rightarrow> ForecastFailed e
     | Inr response \<Rightarrow> Forecasted response))"

fun forecast_app :: "forecast_world \<Rightarrow> forecast_route \<Rightarrow> forecast_answer" where
  "forecast_app w GetHealth = Message [(''status'', ''ok'')]"
| "forecast_app w GetRoot = Message [(''message'', ''forecasting-service is running'')]"
| "forecast_app w (PostForecast body) = answer_forecast w body"
| "forecast_app w (PostPredictWorkload body) = answer_forecast w body"

section \<open>Properties\<close>

text \<open>How a remote model may fail: the exchange, an answer that is no success, one that is no JSON.\<close>

lemma response_json_Inr: "response_json r = Inr v \<longleftrightarrow> (\<exists>code. r = ModelAnswer code (Some v) \<and> 200 \<le> code \<and> code < 300)"
  by (auto simp: response_json_def split: model_answer.splits if_splits)

lemma remote_needs_success:
  assumes "predict (http_model http stamp validate) opt h t = Inr result" "\<not> is_local opt"
  shows "\<exists>url q code v. http url q = ModelAnswer code (Some v) \<and> 200 \<le> code \<and> code < 300"
proof -
  have sent: "\<exists>url q code v. http url q = ModelAnswer code (Some v) \<and> 200 \<le> code \<and> code < 300"
    if "remote_predict http url q = Inr v" for url q v
    using that by (auto simp: remote_predict_def response_json_Inr)
  show ?thesis
  proof (cases "remote_contract opt = ''linear_regression_serving_v1''")
    case True
    with assms obtain url q v where "remote_predict http url q = Inr v"
      by (auto simp: predict_def predict_linear_regression_def http_model_def res_bind_Inr_iff)
    then show ?thesis by (rule sent)
  next
    case False
    with assms obtain url q v where "remote_predict http url q = Inr v"
      by (auto simp: predict_def predict_legacy_remote_def http_model_def res_bind_Inr_iff)
    then show ?thesis by (rule sent)
  qed
qed

lemma predict_workload_option:
  assumes "predict_workload prom remote parse payload now contract_id = Inr r"
  obtains options opt h t result where "load_options parse payload = Inr options" "map_of options contract_id = Some opt"
    "predict remote opt h t = Inr result" "resp_contract_id r = contract_id" "resp_predictions r = predictions result"
  using assms by (auto simp: predict_workload_def res_bind_Inr_iff Let_def intro: that)

text \<open>C37: no forecast is made up: where every exchange with a remote model ends in an error, a status that
  is no success or a body that is no JSON, a forecast is answered for a local contract only, and
  only where the body names one.\<close>

theorem remote_failure_gives_no_forecast:
  assumes "forecast_app w (PostForecast body) = Forecasted response"
    "\<And>url q code v. world_http w url q = ModelAnswer code (Some v) \<Longrightarrow> code < 200 \<or> 300 \<le> code"
  shows "\<exists>payload options opt. option_items (options_file w) = Inr payload \<and> load_options (world_parse w) payload = Inr options
    \<and> forecast_request body = Some (resp_contract_id response) \<and> map_of options (resp_contract_id response) = Some opt \<and> is_local opt"
proof -
  from assms(1) obtain contract_id payload where c: "forecast_request body = Some contract_id"
    "option_items (options_file w) = Inr payload"
    "predict_workload (world_prometheus w) (http_model (world_http w) (world_stamp w) (world_validate w)) (world_parse w)
       payload (forecast_now w) contract_id = Inr response"
    by (auto simp: answer_forecast_def res_bind_Inr_iff split: option.splits sum.splits)
  from c(3) obtain options opt h t result where o: "load_options (world_parse w) payload = Inr options"
    "map_of options contract_id = Some opt" "resp_contract_id response = contract_id"
    "predict (http_model (world_http w) (world_stamp w) (world_validate w)) opt h t = Inr result"
    by (rule predict_workload_option)
  have "is_local opt"
  proof (rule ccontr)
    assume "\<not> is_local opt"
    from remote_needs_success [OF o(4) this] obtain url q code v
      where "world_http w url q = ModelAnswer code (Some v)" "200 \<le> code" "code < 300" by blast
    with assms(2) [of url q code v] show False by simp
  qed
  with c o show ?thesis by blast
qed

definition example_forecast_world :: forecast_world where
  "example_forecast_world = \<lparr>world_prometheus = example_prom, world_http = \<lambda>_ _. ModelAnswer 503 (Some JNull), world_stamp = \<lambda>_. [],
     world_validate = \<lambda>_. Inl TypeError, world_parse = \<lambda>_. Inr example_option, options_file = Stored (JObj [(''c'', JNull)]),
     forecast_now = 125500000\<rparr>"

definition example_forecast_body :: json where
  "example_forecast_body = JObj [(''option_id'', JStr ''c'')]"

theorem remote_failure_gives_no_forecast_witness:
  "\<exists>response. forecast_app example_forecast_world (PostForecast example_forecast_body) = Forecasted response
     \<and> forecast_request example_forecast_body = Some (resp_contract_id response)"
proof -
  have "(case forecast_app example_forecast_world (PostForecast example_forecast_body) of Forecasted response \<Rightarrow> True | _ \<Rightarrow> False)"
    by code_simp
  then obtain response where f: "forecast_app example_forecast_world (PostForecast example_forecast_body) = Forecasted response"
    by (auto split: forecast_answer.splits)
  have "\<exists>payload options opt. option_items (options_file example_forecast_world) = Inr payload
      \<and> load_options (world_parse example_forecast_world) payload = Inr options
      \<and> forecast_request example_forecast_body = Some (resp_contract_id response)
      \<and> map_of options (resp_contract_id response) = Some opt \<and> is_local opt"
    by (rule remote_failure_gives_no_forecast [OF f]) (simp add: example_forecast_world_def)
  with f show ?thesis by blast
qed

end
