(* ===== verification/Sampling.thy ===== *)
theory Sampling
  imports PyNum
begin

text \<open>
  Choosing points of a long series: the index \<^verbatim>\<open>round((i / d) * n)\<close> that both the loop signals
  and the script range of the system showcase compute in floats.
\<close>

definition scaled_index :: "int \<Rightarrow> int \<Rightarrow> int \<Rightarrow> int" where
  "scaled_index i d n = rne (fmul (fdiv (of_int i) (of_int d)) (of_int n))"

lemma scaled_index_0 [simp]: "scaled_index 0 d n = 0"
  by (simp add: scaled_index_def fdiv_def fmul_def) (simp add: rne_def)

lemma scaled_index_full [simp]:
  assumes "0 < d" "\<bar>n\<bar> \<le> 2 ^ 53"
  shows "scaled_index d d n = n"
proof -
  have "rnd64 1 = 1" using rnd64_of_int [of 1] by simp
  with assms show ?thesis by (simp add: scaled_index_def fdiv_def fmul_def rnd64_of_int)
qed

lemma scaled_index_mono:
  assumes "i \<le> j" "0 < d" "0 \<le> n"
  shows "scaled_index i d n \<le> scaled_index j d n"
  unfolding scaled_index_def fmul_def fdiv_def
  using assms by (intro rne_mono rnd64_mono mult_right_mono divide_right_mono) simp_all

lemma scaled_index_bounds:
  assumes "0 \<le> i" "i \<le> d" "0 < d" "0 \<le> n" "n \<le> 2 ^ 53"
  shows "0 \<le> scaled_index i d n" and "scaled_index i d n \<le> n"
  using scaled_index_mono [OF assms(1,3,4)] scaled_index_mono [OF assms(2-4)] assms by simp_all

text \<open>The float is within three units of \<open>n / 2 ^ 53\<close> of the exact quotient.\<close>

lemma scaled_error:
  assumes "0 \<le> i" "i \<le> d" "0 < d" "d \<le> 2 ^ 20" "0 < n" "n \<le> 2 ^ 40"
  shows "\<bar>fmul (fdiv (of_int i) (of_int d)) (of_int n) - of_int i * of_int n / of_int d\<bar> \<le> 3 * of_int n / 2 ^ 53"
proof (cases "i = 0")
  case True
  then show ?thesis using assms by (simp add: fdiv_def fmul_def)
next
  case False
  let ?q = "of_int i / of_int d :: rat" and ?n = "of_int n :: rat"
  let ?r = "rnd64 ?q"
  have i: "1 \<le> i" using False assms(1) by simp
  have q: "1 / 2 ^ 20 \<le> ?q" "?q \<le> 1"
  proof -
    have "(of_int d :: rat) \<le> of_int (2 ^ 20)" using assms(4) by (simp only: of_int_le_iff)
    then have "1 / 2 ^ 20 \<le> (1 / of_int d :: rat)" using assms(3) by (intro frac_le) simp_all
    also have "\<dots> \<le> ?q" using i assms(3) by (intro divide_right_mono) simp_all
    finally show "1 / 2 ^ 20 \<le> ?q" .
    show "?q \<le> 1" using assms(2,3) by simp
  qed
  have small: "2 powi (-1022) \<le> (1 / 2 ^ 21 :: rat)"
  proof -
    have "2 powi (-1022) \<le> (2 powi (-21) :: rat)" by (rule power_int_increasing) simp_all
    then show ?thesis by (simp add: power_int_minus)
  qed
  have "(1 / 2 ^ 21 :: rat) \<le> 1 / 2 ^ 20" by simp
  then have "2 powi (-1022) \<le> ?q" using small q(1) by (meson order_trans)
  then have "\<bar>?r - ?q\<bar> \<le> ?q / 2 ^ 53" by (rule rnd64_error)
  also have "\<dots> \<le> 1 / 2 ^ 53" using q(2) by (intro divide_right_mono) simp_all
  finally have e1: "\<bar>?r - ?q\<bar> \<le> 1 / 2 ^ 53" .
  have n: "1 \<le> ?n" using assms(5) by simp
  have "(1 / 2 ^ 21 :: rat) \<le> 1 / 2 ^ 20 - 1 / 2 ^ 53" by simp
  then have r: "1 / 2 ^ 21 \<le> ?r" "?r \<le> 1 + 1 / 2 ^ 53" using e1 q by linarith+
  have "1 / 2 ^ 21 * 1 \<le> ?r * ?n" using r(1) n by (intro mult_mono) simp_all
  then have "\<bar>rnd64 (?r * ?n) - ?r * ?n\<bar> \<le> ?r * ?n / 2 ^ 53" using small by (intro rnd64_error) linarith
  also have "\<dots> \<le> (1 + 1 / 2 ^ 53) * ?n / 2 ^ 53" using r(2) n by (intro divide_right_mono mult_right_mono) simp_all
  also have "\<dots> \<le> 2 * ?n / 2 ^ 53" using n by (intro divide_right_mono mult_right_mono) simp_all
  finally have e2: "\<bar>rnd64 (?r * ?n) - ?r * ?n\<bar> \<le> 2 * ?n / 2 ^ 53" .
  have "\<bar>?r * ?n - ?q * ?n\<bar> = \<bar>(?r - ?q) * ?n\<bar>" by (simp only: left_diff_distrib)
  also have "\<dots> = \<bar>?r - ?q\<bar> * ?n" unfolding abs_mult using n by simp
  also have "\<dots> \<le> 1 / 2 ^ 53 * ?n" using e1 n by (intro mult_right_mono) simp_all
  finally have "\<bar>?r * ?n - ?q * ?n\<bar> \<le> ?n / 2 ^ 53" by simp
  moreover have "\<bar>rnd64 (?r * ?n) - ?r * ?n\<bar> \<le> 2 * (?n / 2 ^ 53)" using e2 by simp
  ultimately have "\<bar>rnd64 (?r * ?n) - ?q * ?n\<bar> \<le> 3 * (?n / 2 ^ 53)" by linarith
  then show ?thesis by (simp add: fmul_def fdiv_def)
qed

lemma close_gap: "\<bar>x - a\<bar> \<le> e \<Longrightarrow> \<bar>y - b\<bar> \<le> e \<Longrightarrow> b - a = g \<Longrightarrow> 1 + 2 * e < g \<Longrightarrow> x + 1 < y"
  for x y a b e g :: rat
  by linarith

text \<open>When there are more points than samples, every sample starts a new point.\<close>

lemma scaled_index_strict:
  assumes "0 \<le> i" "i < d" "d \<le> 2 ^ 20" "d < n" "n \<le> 2 ^ 40"
  shows "scaled_index i d n < scaled_index (i + 1) d n"
proof -
  let ?x = "fmul (fdiv (of_int i) (of_int d)) (of_int n)" and ?y = "fmul (fdiv (of_int (i + 1)) (of_int d)) (of_int n)"
  let ?d = "of_int d :: rat" and ?n = "of_int n :: rat"
  have d: "0 < ?d" "?d \<le> 2 ^ 20" using assms of_int_le_iff [of d "2 ^ 20", where 'a = rat] by simp_all
  have n: "?d + 1 \<le> ?n" using assms(4) of_int_le_iff [of "d + 1" n, where 'a = rat] by simp
  have gap: "of_int (i + 1) * ?n / ?d - of_int i * ?n / ?d = ?n / ?d"
    by (simp add: add_divide_distrib distrib_right)
  have room: "1 + 2 * (3 * ?n / 2 ^ 53) < ?n / ?d"
  proof -
    have "(?d + 1) * (6 * ?d) \<le> (2 ^ 20 + 1) * (6 * 2 ^ 20)" using d by (intro mult_mono) simp_all
    then have "6 * ?d * (?d + 1) < 2 ^ 53" by (simp add: algebra_simps)
    have six: "6 * ?d < 2 ^ 53" using d(2) by simp
    have "?d * 2 ^ 53 < (?d + 1) * (2 ^ 53 - 6 * ?d)"
      using \<open>6 * ?d * (?d + 1) < 2 ^ 53\<close> by (simp add: algebra_simps)
    also have "\<dots> \<le> ?n * (2 ^ 53 - 6 * ?d)" using n six by (intro mult_right_mono) simp_all
    finally have "?d * (2 ^ 53 + 6 * ?n) < ?n * 2 ^ 53" by (simp add: algebra_simps)
    then have "(2 ^ 53 + 6 * ?n) / 2 ^ 53 < ?n / ?d" using d(1) by (simp add: divide_less_eq less_divide_eq algebra_simps)
    then show ?thesis by (simp add: add_divide_distrib)
  qed
  have "\<bar>?x - of_int i * ?n / ?d\<bar> \<le> 3 * ?n / 2 ^ 53" "\<bar>?y - of_int (i + 1) * ?n / ?d\<bar> \<le> 3 * ?n / 2 ^ 53"
    using assms by (intro scaled_error; simp)+
  then have "?x + 1 < ?y" using gap room by (rule close_gap)
  then show ?thesis unfolding scaled_index_def by (rule rne_strict)
qed

text \<open>Consecutive buckets from one cut to the next make up the list.\<close>

lemma cut_le: "\<forall>i < m. cut i \<le> cut (Suc i) \<Longrightarrow> cut 0 \<le> cut m" for cut :: "nat \<Rightarrow> nat"
proof (induction m)
  case (Suc m)
  then have "cut 0 \<le> cut m" by simp
  also have "cut m \<le> cut (Suc m)" using Suc.prems by simp
  finally show ?case .
qed simp

lemma concat_cuts:
  fixes cut :: "nat \<Rightarrow> nat"
  assumes "\<forall>i < m. cut i \<le> cut (Suc i)" and "cut m \<le> length xs"
  shows "concat (map (\<lambda>i. drop (cut i) (take (cut (Suc i)) xs)) [0..<m]) = drop (cut 0) (take (cut m) xs)"
  using assms
proof (induction m)
  case 0
  then show ?case by simp
next
  case (Suc m)
  have le: "cut 0 \<le> cut m" using Suc.prems(1) by (intro cut_le) auto
  have cm: "cut m \<le> cut (Suc m)" "cut m \<le> length xs" using Suc.prems by auto
  have "drop (cut 0) (take (cut m) xs) @ drop (cut m) (take (cut (Suc m)) xs) = drop (cut 0) (take (cut (Suc m)) xs)"
  proof -
    have "take (cut (Suc m)) xs = take (cut m) xs @ drop (cut m) (take (cut (Suc m)) xs)"
      using cm(1) by (metis append_take_drop_id min.absorb1 take_take)
    moreover have "cut 0 - length (take (cut m) xs) = 0" using le cm by simp
    ultimately show ?thesis by (metis drop_append drop_0)
  qed
  with Suc cm show ?case by simp
qed

end
