(* ===== verification/Showcase.thy ===== *)
theory Showcase
  imports LoopHistory Sampling "HOL-Library.Multiset"
begin

text \<open>
  The snapshot service of the system showcase (\<^verbatim>\<open>system-showcase/app/snapshot_service.py\<close>): it
  reads the custom scalers, turns their last loops into records of the loop history, groups the
  history by minute, pages it and caches the answer.  What Kubernetes answers and
  \<^verbatim>\<open>json.loads\<close> are arguments; an instant is in microseconds and local time is UTC.
\<close>

section \<open>Dictionaries that may be something else\<close>

definition jset :: "string \<Rightarrow> json \<Rightarrow> json \<Rightarrow> json" where
  "jset k v j = JObj (AList.update k v (obj_items j))"

definition jpop :: "string \<Rightarrow> json \<Rightarrow> json" where
  "jpop k j = JObj (AList.delete k (obj_items j))"

text \<open>\<^verbatim>\<open>{k: d.get(k) for k in keys}\<close>\<close>

definition pick :: "string list \<Rightarrow> json \<Rightarrow> json py" where
  "pick keys j = (if is_obj j then Inr (JObj (map (\<lambda>k. (k, jget k j)) keys)) else Inl AttributeError)"

section \<open>Series of numbers\<close>

text \<open>What \<^verbatim>\<open>float\<close> refuses is skipped, except for an integer too large, which overflows.\<close>

definition numeric_item :: "json \<Rightarrow> pfloat option py" where
  "numeric_item item = (if item = JNull then Inr None
     else case float_of_json item of
       Inr x \<Rightarrow> Inr (Some x)
     | Inl e \<Rightarrow> if e = OverflowError then Inl e else Inr None)"

definition sample_series :: "pfloat list \<Rightarrow> int \<Rightarrow> pfloat list" where
  "sample_series xs max_points =
     (if int (length xs) \<le> max_points then xs
      else map (\<lambda>i. xs ! nat (scaled_index i (max (max_points - 1) 1) (int (length xs) - 1))) [0..max_points - 1])"

definition downsample_numeric_series :: "json \<Rightarrow> int \<Rightarrow> pfloat list py" where
  "downsample_numeric_series v max_points = (case v of
     JArr items \<Rightarrow> res_bind (traverse numeric_item items) (\<lambda>os.
       Inr (sample_series (List.map_filter id os) max_points))
   | _ \<Rightarrow> Inr [])"

definition floats :: "pfloat list \<Rightarrow> json" where
  "floats xs = JArr (map JFloat xs)"

text \<open>\<^verbatim>\<open>max\<close> keeps the first of the largest; a NaN is never larger.\<close>

fun py_max :: "pfloat \<Rightarrow> pfloat list \<Rightarrow> pfloat" where
  "py_max m [] = m"
| "py_max m (x # xs) = py_max (if pf_lt m x then x else m) xs"

section \<open>Loops\<close>

definition POD_DEFAULT_EXCLUDE_TOKENS :: "string list" where
  "POD_DEFAULT_EXCLUDE_TOKENS = [''WORKER'', ''NODE_ALLOCATABLE'', ''POD_REQUEST'', ''PODS_PER_WORKER'']"

definition NODE_DEFAULT_INCLUDE_TOKENS :: "string list" where
  "NODE_DEFAULT_INCLUDE_TOKENS =
     [''WORKER'', ''NODE_ALLOCATABLE'', ''POD_REQUEST'', ''PODS_PER_WORKER'', ''INGRESS_REPLICAS_PER_WORKER'']"

definition POD_SIGNAL_SPECS :: "(string \<times> string \<times> string \<times> string) list" where
  "POD_SIGNAL_SPECS =
     [(''requests'', ''RPM'', ''req/min'', ''total_requests_per_minute''),
      (''cpu'', ''CPU'', ''sec/min'', ''total_cpu_seconds_per_minute''),
      (''network'', ''Network'', ''bytes/min'', ''total_bandwidth_bytes_per_minute'')]"

definition POD_LOG_FIELDS :: "string list" where
  "POD_LOG_FIELDS =
     [''forecastContractId'', ''forecastModelName'', ''forecastModelVersion'', ''forecastGeneratedAt'',
      ''forecastStepSeconds'', ''targetDeployment'', ''peakRequestsPerMinute'', ''effectiveRequestsPerMinute'',
      ''peakCpuSecondsPerMinute'', ''effectiveCpuSecondsPerMinute'', ''requestReplicaDemand'', ''cpuReplicaDemand'',
      ''baseReplicaDemand'', ''dominantSignal'', ''currentReplicas'', ''proposedReplicas'', ''desiredReplicas'',
      ''currentReactivePressureBump'', ''nextReactivePressureBump'', ''reactivePressureReplicaBump'',
      ''reactivePressureReason'', ''scaleDownAllowed'', ''scaleDownReason'', ''appliedScale'']"

definition NODE_LOG_FIELDS :: "string list" where
  "NODE_LOG_FIELDS =
     [''workerTargetMode'', ''workerCapacityStrategy'', ''targetWorkerCount'', ''rawTargetWorkerCount'',
      ''desiredReplicas'', ''unschedulablePods'', ''safetyPods'', ''desiredPodsForCapacity'',
      ''nodeAllocatableMilliCpu'', ''podRequestMilliCpu'', ''podsPerWorker'', ''minWorkerCount'', ''maxWorkerCount'',
      ''readyWorkerCount'', ''currentAppScheduledPods'', ''totalAppSlotCapacity'', ''missingAppSlots'',
      ''requiredReadyWorkers'', ''observedReadyWorkers'', ''pendingCreateWorkers'', ''pendingDeleteWorkers'',
      ''effectiveWorkers'', ''workersToCreate'', ''workersToDelete'', ''lastAction'', ''lastReason'']"

definition signal_metrics :: "string list" where
  "signal_metrics = [''total_requests_per_minute'', ''total_cpu_seconds_per_minute'', ''total_bandwidth_bytes_per_minute'']"

definition build_loop_key :: "string \<Rightarrow> string \<Rightarrow> json \<Rightarrow> string" where
  "build_loop_key kind observed_at fallback =
     kind @ '':'' @ (if observed_at = [] then ''unknown'' else observed_at) @ '':''
       @ (if fallback = JNull then ''none'' else py_str fallback)"

definition minute_bucket :: "string \<Rightarrow> string py" where
  "minute_bucket v =
     (if v = [] then Inr ''unknown''
      else case fromisoformat (str_replace ''Z'' ''+00:00'' v) of
        None \<Rightarrow> Inr (take 16 v)
      | Some d \<Rightarrow> res_bind (as_utc d) (\<lambda>t. Inr (isoformat (t - t mod (60 * us_per_s)))))"

definition ordered_log_fields :: "json \<Rightarrow> string list \<Rightarrow> json" where
  "ordered_log_fields payload keys = JArr (map
     (\<lambda>k. JObj [(''key'', JStr k), (''label'', JStr k), (''value'', jget k payload)])
     (filter (\<lambda>k. has_key k payload) keys))"

text \<open>\<open>loads\<close> is \<^verbatim>\<open>json.loads\<close>, \<open>None\<close> where it fails to decode.\<close>

definition parse_json_string :: "(string \<Rightarrow> json option) \<Rightarrow> json \<Rightarrow> json" where
  "parse_json_string loads v = (case v of
     JStr s \<Rightarrow> if strip s = [] then JNull else (case loads s of None \<Rightarrow> v | Some j \<Rightarrow> j)
   | _ \<Rightarrow> JNull)"

definition rows_metric :: "json list \<Rightarrow> string \<Rightarrow> json list" where
  "rows_metric rows k = map (jget k) (filter (has_key k) rows)"

definition extract_rows :: "json list \<Rightarrow> json py" where
  "extract_rows rows =
     res_bind (traverse (\<lambda>k. res_bind (downsample_numeric_series (JArr (rows_metric rows k)) 10000) (\<lambda>xs. Inr (k, floats xs)))
       signal_metrics) (\<lambda>ps. Inr (JObj ps))"

definition extract_series :: "json \<Rightarrow> json py" where
  "extract_series d =
     res_bind (traverse (\<lambda>(k, v). res_bind (downsample_numeric_series v 10000) (\<lambda>xs. Inr (k, floats xs)))
       (filter (\<lambda>p. is_arr (snd p)) (obj_items d))) (\<lambda>ps. Inr (JObj ps))"

definition extract_input_history :: "json \<Rightarrow> json py" where
  "extract_input_history body =
     (if \<not> is_obj body then Inr (JObj [])
      else if is_obj (jget ''history'' body) then extract_series (jget ''history'' body)
      else if \<not> is_arr (jget ''history'' body) then Inr (JObj [])
      else extract_rows (arr_items (jget ''history'' body)))"

definition extract_response_history :: "json \<Rightarrow> json py" where
  "extract_response_history body =
     (if \<not> is_obj body then Inr (JObj [])
      else if is_obj (jget ''history'' body) then extract_series (jget ''history'' body)
      else if \<not> is_arr (jget ''history_rows'' body) then Inr (JObj [])
      else extract_rows (arr_items (jget ''history_rows'' body)))"

definition build_pod_signal ::
  "string \<times> string \<times> string \<times> string \<Rightarrow> json \<Rightarrow> json \<Rightarrow> json \<Rightarrow> json \<Rightarrow> json py" where
  "build_pod_signal spec history observed prediction_rows request_predictions = (case spec of (signal_id, label, unit, metric_key) \<Rightarrow>
     res_bind (iterate prediction_rows) (\<lambda>rows.
     let rows_source = rows_metric rows metric_key in
     res_bind (py_get metric_key history) (\<lambda>from_history.
     res_bind (if from_history = JNull then py_get metric_key observed else Inr from_history) (\<lambda>input_source.
     let prediction_source =
           (if metric_key = ''total_requests_per_minute'' \<and> rows_source = [] then request_predictions else JArr rows_source) in
     res_bind (downsample_numeric_series input_source 60) (\<lambda>input_points.
     res_bind (downsample_numeric_series prediction_source 20) (\<lambda>prediction_points.
     Inr (JObj [(''id'', JStr signal_id), (''label'', JStr label), (''unit'', JStr unit),
       (''input'', floats input_points), (''prediction'', floats prediction_points),
       (''inputLast'', if input_points = [] then JNull else JFloat (last input_points)),
       (''predictionLast'', if prediction_points = [] then JNull else JFloat (last prediction_points)),
       (''predictionPeak'', case prediction_points of [] \<Rightarrow> JNull | x # xs \<Rightarrow> JFloat (py_max x xs))])))))))"

definition normalize_pod_loop :: "(string \<Rightarrow> json option) \<Rightarrow> json \<Rightarrow> json py" where
  "normalize_pod_loop loads payload =
     (if payload = JNull then Inr JNull
      else if \<not> is_obj payload then Inl TypeError
      else
        let normalized = (if has_key ''appliedScale'' payload then payload else jset ''appliedScale'' (JBool False) payload);
            request_body = parse_json_string loads (jget ''forecastRequestPayload'' payload);
            response_body = parse_json_string loads (jget ''forecastResponseBody'' payload) in
        res_bind (extract_response_history response_body) (\<lambda>from_response.
        res_bind (if truthy from_response then Inr from_response else extract_input_history request_body) (\<lambda>from_input.
        let history = (if truthy from_input \<or> \<not> is_obj response_body then from_input
              else let h = jget_or ''history'' (JObj []) response_body in if truthy h then h else JObj []);
            observed = (if is_obj response_body then jget_or ''observed'' (JObj []) response_body else JObj []);
            prediction_rows = (if is_obj response_body then jget_or ''prediction_rows'' (JArr []) response_body else JArr []);
            prediction_values = (if is_obj response_body then jget_or ''predictions'' (JArr []) response_body else JArr []);
            observed_at = str_or (jget ''observedAt'' payload) [];
            normalized = jset ''loopKey'' (JStr (build_loop_key ''pod'' observed_at (jget ''desiredReplicas'' payload))) normalized in
        res_bind (minute_bucket observed_at) (\<lambda>minute.
        let normalized = jset ''minuteBucket'' (JStr minute) normalized in
        res_bind (traverse (\<lambda>spec. build_pod_signal spec history observed prediction_rows prediction_values) POD_SIGNAL_SPECS) (\<lambda>signals.
        let normalized = jset ''signals'' (JArr signals) normalized;
            normalized = jset ''logFields'' (ordered_log_fields normalized POD_LOG_FIELDS) normalized
        in Inr (jpop ''forecastResponseBody'' (jpop ''forecastRequestPayload'' normalized)))))))"

definition normalize_node_loop :: "json \<Rightarrow> json py" where
  "normalize_node_loop payload =
     (if payload = JNull then Inr JNull
      else if \<not> is_obj payload then Inl TypeError
      else
        let observed_at = str_or (jget ''observedAt'' payload) [];
            normalized = jset ''loopKey'' (JStr (build_loop_key ''node'' observed_at (jget ''targetWorkerCount'' payload))) payload in
        res_bind (minute_bucket observed_at) (\<lambda>minute.
        let normalized = jset ''minuteBucket'' (JStr minute) normalized;
            normalized = jset ''logFields'' (ordered_log_fields normalized NODE_LOG_FIELDS) normalized;
            operations = jget ''activeOperations'' payload
        in Inr (jset ''activeOperations'' (if truthy operations then operations else JArr []) normalized)))"

section \<open>Pages of minute groups\<close>

definition loop_bucket :: "json \<Rightarrow> string py" where
  "loop_bucket r = res_bind (py_get ''minuteBucket'' r) (\<lambda>v. Inr (str_or v ''unknown''))"

text \<open>\<^verbatim>\<open>d.setdefault(bucket, []).append(loop)\<close>\<close>

definition add_to_group :: "string \<Rightarrow> 'a \<Rightarrow> (string \<times> 'a list) list \<Rightarrow> (string \<times> 'a list) list" where
  "add_to_group k x d = AList.update k ((case map_of d k of None \<Rightarrow> [] | Some xs \<Rightarrow> xs) @ [x]) d"

definition group_loops :: "json list \<Rightarrow> (string \<times> json list) list py" where
  "group_loops loops =
     fold_res (\<lambda>r d. res_bind (loop_bucket r) (\<lambda>k. Inr (add_to_group k r d))) (rev loops) []"

record minute_group =
  group_key :: string
  group_pods :: "json list"
  group_nodes :: "json list"

definition build_group :: "(string \<times> json list) list \<Rightarrow> (string \<times> json list) list \<Rightarrow> string \<Rightarrow> minute_group" where
  "build_group pods nodes bucket =
     \<lparr>group_key = bucket, group_pods = (case map_of pods bucket of None \<Rightarrow> [] | Some xs \<Rightarrow> xs),
      group_nodes = (case map_of nodes bucket of None \<Rightarrow> [] | Some xs \<Rightarrow> xs)\<rparr>"

record group_page =
  page_items :: "minute_group list"
  recent_items :: "minute_group list"
  page_number :: int
  page_size :: int
  total_items :: int
  total_pages :: int
  has_previous :: bool
  has_next :: bool
  start_item :: int
  end_item :: int

definition ordered_keys :: "(string \<times> json list) list \<Rightarrow> (string \<times> json list) list \<Rightarrow> string list" where
  "ordered_keys pods nodes = rev (sort (remdups (map fst pods @ map fst nodes)))"

text \<open>The slice \<^verbatim>\<open>xs[a:b]\<close> for bounds that are not negative.\<close>

definition slice :: "int \<Rightarrow> int \<Rightarrow> 'a list \<Rightarrow> 'a list" where
  "slice a b xs = drop (nat a) (take (nat b) xs)"

definition page_of :: "string list \<Rightarrow> (string \<Rightarrow> minute_group) \<Rightarrow> int \<Rightarrow> int \<Rightarrow> group_page" where
  "page_of keys grp page per_page =
     (let total = int (length keys);
          pages = max ((total + per_page - 1) div per_page) 1;
          current = min (max page 1) pages;
          start_index = (current - 1) * per_page;
          end_index = min (start_index + per_page) total
      in \<lparr>page_items = map grp (slice start_index end_index keys), recent_items = map grp (take 16 keys),
          page_number = current, page_size = per_page, total_items = total, total_pages = pages,
          has_previous = (1 < current), has_next = (current < pages),
          start_item = (if total \<noteq> 0 then start_index + 1 else 0), end_item = end_index\<rparr>)"

definition paginate_minute_groups :: "json list \<Rightarrow> json list \<Rightarrow> int \<Rightarrow> int \<Rightarrow> group_page py" where
  "paginate_minute_groups pod_loops node_loops page per_page =
     res_bind (group_loops pod_loops) (\<lambda>pods.
     res_bind (group_loops node_loops) (\<lambda>nodes.
     Inr (page_of (ordered_keys pods nodes) (build_group pods nodes) page per_page)))"

section \<open>Kubernetes objects\<close>

record settings =
  scaler_namespace :: string
  scaler_name :: string
  controller_namespace :: string
  controller_deployment_name :: string
  worker_jobs_namespace :: string
  base_path :: string
  cache_ttl_seconds :: int
  loop_history_limit :: int

record WorkloadContext =
  ctx_scaler_name :: json
  ctx_scaler_namespace :: json
  ctx_deployment_name :: json
  ctx_controller_namespace :: string
  ctx_controller_deployment_name :: string
  ctx_worker_jobs_namespace :: string

fun find_scaler :: "json list \<Rightarrow> string \<Rightarrow> string \<Rightarrow> json option py" where
  "find_scaler [] ns name = Inr None"
| "find_scaler (item # items) ns name =
     res_bind (py_get_or ''metadata'' (JObj []) item) (\<lambda>metadata.
     res_bind (py_get ''namespace'' metadata) (\<lambda>item_ns.
     if json_eq item_ns (JStr ns) \<and> json_eq (jget ''name'' metadata) (JStr name) then Inr (Some item)
     else find_scaler items ns name))"

definition choose_scaler :: "json list \<Rightarrow> string \<Rightarrow> string \<Rightarrow> json option py" where
  "choose_scaler items ns name =
     res_bind (find_scaler items ns name) (\<lambda>found. Inr (case (found, items) of
       (Some item, _) \<Rightarrow> Some item
     | (None, []) \<Rightarrow> None
     | (None, item # _) \<Rightarrow> Some item))"

definition scaler_summary :: "json \<Rightarrow> json py" where
  "scaler_summary scaler =
     res_bind (py_get_or ''metadata'' (JObj []) scaler) (\<lambda>metadata.
     res_bind (py_get_or ''spec'' (JObj []) scaler) (\<lambda>spec.
     res_bind (py_get_or ''name'' (JStr []) metadata) (\<lambda>name.
     res_bind (py_get_or ''namespace'' (JStr []) metadata) (\<lambda>ns.
     res_bind (py_get_or ''deploymentName'' (JStr []) spec) (\<lambda>deployment.
     Inr (JObj [(''name'', name), (''namespace'', ns), (''deploymentName'', deployment)]))))))"

definition context_from_scaler :: "settings \<Rightarrow> json \<Rightarrow> WorkloadContext py" where
  "context_from_scaler cfg scaler =
     res_bind (py_get_or ''metadata'' (JObj []) scaler) (\<lambda>metadata.
     res_bind (py_get_or ''spec'' (JObj []) scaler) (\<lambda>spec.
     res_bind (py_get_or ''name'' (JStr (scaler_name cfg)) metadata) (\<lambda>name.
     res_bind (py_get_or ''namespace'' (JStr (scaler_namespace cfg)) metadata) (\<lambda>ns.
     res_bind (py_get ''deploymentName'' spec) (\<lambda>deployment.
     Inr \<lparr>ctx_scaler_name = name, ctx_scaler_namespace = ns,
       ctx_deployment_name = (if truthy deployment then deployment else JStr ''demo-app-deployment''),
       ctx_controller_namespace = controller_namespace cfg,
       ctx_controller_deployment_name = controller_deployment_name cfg,
       ctx_worker_jobs_namespace = worker_jobs_namespace cfg\<rparr>)))))"

text \<open>A deployment is given by the environment of each of its containers.\<close>

type_synonym container_env = "(string \<times> string option) list option"

definition extract_controller_env :: "container_env list option \<Rightarrow> (string \<times> string) list" where
  "extract_controller_env deployment = (case deployment of
     Some (container # _) \<Rightarrow>
       sort_key fst (foldl (\<lambda>d (name, v). if starts_with name ''SCALER_''
           then AList.update name (case v of None \<Rightarrow> [] | Some s \<Rightarrow> s) d else d)
         [] (case container of None \<Rightarrow> [] | Some vars \<Rightarrow> vars))
   | _ \<Rightarrow> [])"

definition is_node_default :: "string \<Rightarrow> bool" where
  "is_node_default key = (list_ex (\<lambda>token. contains_sub token key) NODE_DEFAULT_INCLUDE_TOKENS
     \<or> list_ex (\<lambda>token. contains_sub token key) POD_DEFAULT_EXCLUDE_TOKENS)"

definition split_controller_defaults :: "(string \<times> string) list \<Rightarrow> (string \<times> string) list \<times> (string \<times> string) list" where
  "split_controller_defaults env_map =
     (filter (\<lambda>p. \<not> is_node_default (fst p)) env_map, filter (\<lambda>p. is_node_default (fst p)) env_map)"

definition pod_config_spec :: "json \<Rightarrow> json py" where
  "pod_config_spec = pick [''url'', ''deploymentName'', ''forecastDeployment'', ''intervalMinutes'', ''requestsPerPod'',
     ''safetyFactor'', ''sparePod'', ''minReplicas'', ''maxReplicas'']"

definition pod_config_status :: "json \<Rightarrow> json py" where
  "pod_config_status = pick [''lastForecastPeak'', ''lastEffectiveRequestsPerMinute'', ''lastDesiredReplicas'',
     ''currentReplicas'', ''reactivePressureBump'', ''reactivePressureReason'']"

definition or_empty :: "json \<Rightarrow> json" where
  "or_empty v = (if truthy v then v else JObj [])"

definition node_config_spec :: "json \<Rightarrow> json py" where
  "node_config_spec spec =
     res_bind (py_get ''workerPrototype'' spec) (\<lambda>worker.
     pick [''targetWorkerCount'', ''maxBatchSize'', ''nodeLabelKey'', ''nodeLabelValue''] (or_empty worker))"

definition node_config_status :: "json \<Rightarrow> json \<Rightarrow> json py" where
  "node_config_status status latest_node_loop =
     res_bind (py_get ''workerPrototype'' status) (\<lambda>worker.
     let worker = or_empty worker in
     res_bind (pick [''targetWorkerCount'', ''observedReadyWorkerCount'', ''pendingCreateCount'', ''pendingDeleteCount'',
         ''effectiveWorkerCount''] worker) (\<lambda>counts.
     let action = jget ''lastAction'' worker; reason = jget ''lastReason'' worker in
     Inr (JObj (obj_items counts @
       [(''lastAction'', if truthy action then action else jget ''lastAction'' (or_empty latest_node_loop)),
        (''lastReason'', if truthy reason then reason else jget ''lastReason'' (or_empty latest_node_loop))]))))"

record V1Job =
  job_name :: string
  job_namespace :: string
  job_labels :: "(string \<times> string) list option"
  job_active :: "int option"
  job_succeeded :: "int option"
  job_failed :: "int option"
  job_start_time :: "int option"
  job_completion_time :: "int option"
  job_conditions :: "(json \<times> json \<times> json \<times> json) list option"
  job_creation :: "int option"

definition serialize_job :: "V1Job \<Rightarrow> json" where
  "serialize_job job =
     (let labels = (case job_labels job of None \<Rightarrow> [] | Some ls \<Rightarrow> ls);
          count = (\<lambda>n. JInt (case n of None \<Rightarrow> 0 | Some k \<Rightarrow> k));
          instant = (\<lambda>t. JStr (case t of None \<Rightarrow> [] | Some u \<Rightarrow> isoformat u)) in
      JObj [(''name'', JStr (job_name job)), (''namespace'', JStr (job_namespace job)),
        (''operationType'', JStr (case map_of labels ''autoscaling.my.domain/worker-op'' of None \<Rightarrow> [] | Some v \<Rightarrow> v)),
        (''active'', count (job_active job)), (''succeeded'', count (job_succeeded job)), (''failed'', count (job_failed job)),
        (''startTime'', instant (job_start_time job)), (''completionTime'', instant (job_completion_time job)),
        (''conditions'', JArr (map (\<lambda>(typ, status, reason, message).
           JObj [(''type'', typ), (''status'', status), (''reason'', reason), (''message'', message)])
           (case job_conditions job of None \<Rightarrow> [] | Some cs \<Rightarrow> cs)))])"

section \<open>A snapshot\<close>

text \<open>
  What Kubernetes answers during one request, and whether its job list comes before the
  deployment.  A service is given by its configuration, the answers and \<^verbatim>\<open>json.loads\<close>.
\<close>

record kubernetes =
  list_custom_scalers :: "json list py"
  read_controller_deployment :: "string \<Rightarrow> string \<Rightarrow> container_env list option py"
  list_worker_jobs :: "string \<Rightarrow> json \<Rightarrow> json \<Rightarrow> V1Job list py"
  jobs_answer_first :: bool

record sidebar =
  pod_spec :: json
  pod_status :: json
  pod_defaults :: "(string \<times> string) list"
  node_spec :: json
  node_status :: json
  node_defaults :: "(string \<times> string) list"
  job_status :: "json list"

record snapshot =
  generated_at :: int
  snapshot_base_path :: string
  snapshot_cache_ttl :: int
  available_scalers :: "json list"
  active_scaler :: json
  latest_pod_loop :: json
  latest_node_loop :: json
  history_limit :: int
  count_pod_loops :: int
  count_node_loops :: int
  groups :: group_page
  snapshot_sidebar :: sidebar
  errors :: "(string \<times> py_exn) list"

definition empty_sidebar :: sidebar where
  "empty_sidebar = \<lparr>pod_spec = JObj [], pod_status = JObj [], pod_defaults = [],
     node_spec = JObj [], node_status = JObj [], node_defaults = [], job_status = []\<rparr>"

text \<open>\<^verbatim>\<open>_capture\<close>: the value or the default, and the error if there was one.\<close>

definition capture :: "string \<Rightarrow> 'a py \<Rightarrow> 'a \<Rightarrow> 'a \<times> (string \<times> py_exn) list" where
  "capture source answer dflt = (case answer of Inr x \<Rightarrow> (x, []) | Inl e \<Rightarrow> (dflt, [(source, e)]))"

definition normalized_base_path :: "settings \<Rightarrow> string" where
  "normalized_base_path cfg =
     (let v = (if strip (base_path cfg) = [] then ''/system-showcase'' else strip (base_path cfg));
          v = (if starts_with v ''/'' then v else CHR ''/'' # v);
          v = rstrip_if (\<lambda>c. c = CHR ''/'') v
      in if v = [] then ''/system-showcase'' else v)"

definition no_scaler_snapshot ::
  "settings \<Rightarrow> int \<Rightarrow> json list \<Rightarrow> (string \<times> py_exn) list \<Rightarrow> history_view \<Rightarrow> group_page \<Rightarrow> snapshot" where
  "no_scaler_snapshot cfg now available errs hist pages =
     \<lparr>generated_at = now, snapshot_base_path = normalized_base_path cfg, snapshot_cache_ttl = cache_ttl_seconds cfg,
      available_scalers = available, active_scaler = JNull, latest_pod_loop = JNull, latest_node_loop = JNull,
      history_limit = view_limit hist, count_pod_loops = int (length (view_pods hist)),
      count_node_loops = int (length (view_nodes hist)), groups = pages, snapshot_sidebar = empty_sidebar,
      errors = errs @ [(''kubernetes.customscalers'', KeyError ''No CustomScaler resource was found.'')]\<rparr>"

text \<open>A key of the history: \<^verbatim>\<open>f"{namespace}/{name}"\<close>.\<close>

definition scaler_key :: "json \<Rightarrow> json \<Rightarrow> string" where
  "scaler_key ns name = py_str ns @ ''/'' @ py_str name"

definition build_sidebar :: "json \<Rightarrow> json \<Rightarrow> json \<Rightarrow> container_env list option \<Rightarrow> V1Job list \<Rightarrow> sidebar py" where
  "build_sidebar spec status node_loop deployment jobs =
     (let (pods, nodes) = split_controller_defaults (extract_controller_env deployment) in
     res_bind (pod_config_spec spec) (\<lambda>ps. res_bind (pod_config_status status) (\<lambda>pst.
     res_bind (node_config_spec spec) (\<lambda>ns. res_bind (node_config_status status node_loop) (\<lambda>nst.
     Inr \<lparr>pod_spec = ps, pod_status = pst, pod_defaults = pods, node_spec = ns, node_status = nst,
       node_defaults = nodes, job_status = map serialize_job (take 24 jobs)\<rparr>)))))"

text \<open>
  The scalers and their summaries, or none with the error.  The history file is returned whatever
  happens, since what was written before an exception stays.
\<close>

definition read_scalers :: "kubernetes \<Rightarrow> json list \<times> json list \<times> (string \<times> py_exn) list" where
  "read_scalers kube =
     (case res_bind (list_custom_scalers kube) (\<lambda>items. res_bind (traverse scaler_summary items) (\<lambda>summaries. Inr (items, summaries))) of
        Inl e \<Rightarrow> ([], [], [(''kubernetes.customscalers'', e)])
      | Inr (items, summaries) \<Rightarrow> (items, summaries, []))"

definition active_snapshot ::
  "settings \<Rightarrow> kubernetes \<Rightarrow> (string \<Rightarrow> json option) \<Rightarrow> int \<Rightarrow> history_file \<Rightarrow> json list \<Rightarrow> (string \<times> py_exn) list \<Rightarrow> json
     \<Rightarrow> int \<Rightarrow> int \<Rightarrow> history_file \<times> snapshot py" where
  "active_snapshot cfg kube loads now f available errs scaler page per_page =
     (case res_bind (context_from_scaler cfg scaler) (\<lambda>ctx.
        let (deployment, e1) = capture ''kubernetes.controllerDeployment''
              (read_controller_deployment kube (ctx_controller_namespace ctx) (ctx_controller_deployment_name ctx)) None;
            (jobs, e2) = capture ''kubernetes.jobs''
              (list_worker_jobs kube (ctx_worker_jobs_namespace ctx) (ctx_scaler_name ctx) (ctx_scaler_namespace ctx)) [] in
        res_bind (py_get_or ''spec'' (JObj []) scaler) (\<lambda>spec.
        res_bind (py_get_or ''status'' (JObj []) scaler) (\<lambda>status.
        res_bind (py_get ''lastPodLoop'' status) (\<lambda>pod_payload.
        res_bind (normalize_pod_loop loads pod_payload) (\<lambda>pod_loop.
        res_bind (normalize_node_loop (jget ''lastNodeLoop'' status)) (\<lambda>node_loop.
        res_bind (sync_latest (loop_history_limit cfg) f (scaler_key (ctx_scaler_namespace ctx) (ctx_scaler_name ctx))
            pod_loop node_loop) (\<lambda>(hist, _, f').
        Inr (deployment, jobs, if jobs_answer_first kube then e2 @ e1 else e1 @ e2, spec, status, pod_loop, node_loop, hist, f')))))))) of
        Inl e \<Rightarrow> (f, Inl e)
      | Inr (deployment, jobs, captured, spec, status, pod_loop, node_loop, hist, f') \<Rightarrow>
         (f', res_bind (paginate_minute_groups (view_pods hist) (view_nodes hist) page per_page) (\<lambda>pages.
           res_bind (py_get_or ''metadata'' (JObj []) scaler) (\<lambda>metadata.
           res_bind (guard (\<not> has_key ''name'' metadata \<or> \<not> has_key ''namespace'' metadata) (KeyError ''metadata'')) (\<lambda>_.
           res_bind (build_sidebar spec status node_loop deployment jobs) (\<lambda>side.
           Inr \<lparr>generated_at = now, snapshot_base_path = normalized_base_path cfg, snapshot_cache_ttl = cache_ttl_seconds cfg,
             available_scalers = available,
             active_scaler = JObj [(''name'', jget ''name'' metadata), (''namespace'', jget ''namespace'' metadata),
               (''spec'', spec), (''status'', status)],
             latest_pod_loop = pod_loop, latest_node_loop = node_loop,
             history_limit = view_limit hist, count_pod_loops = int (length (view_pods hist)),
             count_node_loops = int (length (view_nodes hist)), groups = pages, snapshot_sidebar = side,
             errors = errs @ captured\<rparr>))))))"

definition build_snapshot ::
  "settings \<Rightarrow> kubernetes \<Rightarrow> (string \<Rightarrow> json option) \<Rightarrow> int \<Rightarrow> history_file \<Rightarrow> string \<Rightarrow> string \<Rightarrow> int \<Rightarrow> int
     \<Rightarrow> history_file \<times> snapshot py" where
  "build_snapshot cfg kube loads now f ns name page per_page =
     (let (items, available, errs) = read_scalers kube in
      case choose_scaler items ns name of
        Inl e \<Rightarrow> (f, Inl e)
      | Inr None \<Rightarrow> (f,
          res_bind (get_snapshot (loop_history_limit cfg) f (ns @ ''/'' @ name)) (\<lambda>hist.
          res_bind (paginate_minute_groups (view_pods hist) (view_nodes hist) page per_page) (\<lambda>pages.
          Inr (no_scaler_snapshot cfg now available errs hist pages))))
      | Inr (Some scaler) \<Rightarrow> active_snapshot cfg kube loads now f available errs scaler page per_page)"

section \<open>The cache and the poller\<close>

record showcase =
  cache :: "((string \<times> string \<times> int \<times> int) \<times> (int \<times> snapshot)) list"
  history :: history_file

record snapshot_request =
  force_refresh :: bool
  req_namespace :: "string option"
  req_name :: "string option"
  req_page :: int
  req_page_size :: int

definition cache_key :: "settings \<Rightarrow> snapshot_request \<Rightarrow> string \<times> string \<times> int \<times> int" where
  "cache_key cfg r =
     ((case req_namespace r of Some (c # cs) \<Rightarrow> c # cs | _ \<Rightarrow> scaler_namespace cfg),
      (case req_name r of Some (c # cs) \<Rightarrow> c # cs | _ \<Rightarrow> scaler_name cfg),
      max (req_page r) 1, min (max (req_page_size r) 1) 100)"

definition cached_answer :: "settings \<Rightarrow> showcase \<Rightarrow> string \<times> string \<times> int \<times> int \<Rightarrow> int \<Rightarrow> snapshot option" where
  "cached_answer cfg st key now = (case map_of (cache st) key of
     Some (cached_at, payload) \<Rightarrow> if now - cached_at < cache_ttl_seconds cfg * us_per_s then Some payload else None
   | None \<Rightarrow> None)"

text \<open>
  \<^verbatim>\<open>SnapshotService.get_snapshot\<close>.  The clock is read before and after the lock is taken
  (\<open>t1\<close>, \<open>t2\<close>), when the snapshot is built and when it is stored (\<open>t3\<close>, \<open>t4\<close>); \<open>waited\<close>
  is the state after waiting for the lock.
\<close>

definition service_get_snapshot ::
  "settings \<Rightarrow> kubernetes \<Rightarrow> (string \<Rightarrow> json option) \<Rightarrow> int \<times> int \<times> int \<times> int \<Rightarrow> showcase \<Rightarrow> showcase \<Rightarrow> snapshot_request
     \<Rightarrow> showcase \<times> snapshot py" where
  "service_get_snapshot cfg kube loads clock st waited r = (case clock of (t1, t2, t3, t4) \<Rightarrow>
     let key = cache_key cfg r; (ns, name, page, per_page) = key in
     case (if force_refresh r then None else cached_answer cfg st key t1) of
       Some payload \<Rightarrow> (st, Inr payload)
     | None \<Rightarrow> (case (if force_refresh r then None else cached_answer cfg waited key t2) of
         Some payload \<Rightarrow> (waited, Inr payload)
       | None \<Rightarrow> (case build_snapshot cfg kube loads t3 (history waited) ns name page per_page of
           (f, Inl e) \<Rightarrow> (waited\<lparr>history := f\<rparr>, Inl e)
         | (f, Inr payload) \<Rightarrow>
             (waited\<lparr>history := f, cache := AList.update key (t4, payload) (cache waited)\<rparr>, Inr payload))))"

text \<open>One scaler of \<^verbatim>\<open>poll_history_once\<close>.\<close>

definition poll_scaler ::
  "settings \<Rightarrow> (string \<Rightarrow> json option) \<Rightarrow> history_file \<Rightarrow> json \<Rightarrow> (history_file \<times> bool) py" where
  "poll_scaler cfg loads f scaler =
     res_bind (py_get_or ''metadata'' (JObj []) scaler) (\<lambda>metadata.
     res_bind (py_get_or ''status'' (JObj []) scaler) (\<lambda>status.
     res_bind (py_get_or ''namespace'' (JStr (scaler_namespace cfg)) metadata) (\<lambda>ns.
     res_bind (py_get_or ''name'' (JStr (scaler_name cfg)) metadata) (\<lambda>name.
     res_bind (py_get ''lastPodLoop'' status) (\<lambda>pod_payload.
     res_bind (normalize_pod_loop loads pod_payload) (\<lambda>pod_loop.
     res_bind (normalize_node_loop (jget ''lastNodeLoop'' status)) (\<lambda>node_loop.
     res_bind (sync_latest (loop_history_limit cfg) f (scaler_key ns name) pod_loop node_loop) (\<lambda>(_, changed, f').
     Inr (f', changed)))))))))"

fun poll_scalers ::
  "settings \<Rightarrow> (string \<Rightarrow> json option) \<Rightarrow> history_file \<Rightarrow> bool \<Rightarrow> json list \<Rightarrow> history_file \<times> bool py" where
  "poll_scalers cfg loads f changed [] = (f, Inr changed)"
| "poll_scalers cfg loads f changed (scaler # scalers) = (case poll_scaler cfg loads f scaler of
     Inl e \<Rightarrow> (f, Inl e)
   | Inr (f', c) \<Rightarrow> poll_scalers cfg loads f' (changed \<or> c) scalers)"

definition poll_history_once ::
  "settings \<Rightarrow> kubernetes \<Rightarrow> (string \<Rightarrow> json option) \<Rightarrow> showcase \<Rightarrow> showcase \<times> bool py" where
  "poll_history_once cfg kube loads st = (case list_custom_scalers kube of
     Inl e \<Rightarrow> (st, Inr False)
   | Inr items \<Rightarrow> (case poll_scalers cfg loads (history st) False items of
       (f, Inl e) \<Rightarrow> (st\<lparr>history := f\<rparr>, Inl e)
     | (f, Inr changed) \<Rightarrow> (st\<lparr>history := f, cache := (if changed then [] else cache st)\<rparr>, Inr changed)))"

section \<open>Sampling keeps the ends\<close>

text \<open>A series longer than asked for is thinned out to exactly that many of its points, in order
  and without repetition, among them the first and the last.\<close>

theorem sample_series_keeps_ends:
  assumes "2 \<le> max_points" and "max_points \<le> 2 ^ 20" and "max_points < int (length xs)" and "int (length xs) \<le> 2 ^ 40"
  shows "\<exists>is. sample_series xs max_points = map ((!) xs) is \<and> int (length is) = max_points
     \<and> sorted_wrt (<) is \<and> set is \<subseteq> {..<length xs} \<and> hd is = 0 \<and> last is = length xs - 1"
proof -
  let ?d = "max_points - 1" and ?n = "int (length xs) - 1"
  define idx where "idx = (\<lambda>i. nat (scaled_index (int i) ?d ?n))"
  define js where "js = map idx [0..<nat max_points]"
  have strict: "idx i < idx (Suc i)" if "Suc i < nat max_points" for i
  proof -
    have "scaled_index (int i) ?d ?n < scaled_index (int i + 1) ?d ?n"
      using that assms by (intro scaled_index_strict) auto
    moreover have "0 \<le> scaled_index (int i) ?d ?n" using that assms by (intro scaled_index_bounds) auto
    ultimately show ?thesis by (simp add: idx_def add.commute)
  qed
  have bound: "idx i \<le> length xs - 1" if "i < nat max_points" for i
  proof -
    have "scaled_index (int i) ?d ?n \<le> ?n" using that assms by (intro scaled_index_bounds) auto
    then show ?thesis by (simp add: idx_def)
  qed
  have js: "length js = nat max_points" "js \<noteq> []" using assms by (simp_all add: js_def)
  have "sorted_wrt (<) js"
    using strict js(1) by (simp add: sorted_wrt_iff_nth_Suc_transp js_def)
  moreover have "set js \<subseteq> {..<length xs}"
    using bound assms by (fastforce simp: js_def)
  moreover have "hd js = 0" using assms by (simp add: js_def hd_map idx_def)
  moreover have "last js = length xs - 1"
  proof -
    have "last js = idx (nat max_points - 1)" using assms js by (simp add: last_conv_nth js_def)
    also have "\<dots> = nat (scaled_index ?d ?d ?n)" using assms by (simp add: idx_def nat_diff_distrib)
    also have "\<dots> = length xs - 1" using assms by simp
    finally show ?thesis .
  qed
  moreover have "sample_series xs max_points = map ((!) xs) js"
    using assms by (simp add: sample_series_def js_def idx_def upto_of_nat)
  ultimately show ?thesis using js(1) assms(1) by (intro exI [of _ js]) simp
qed

theorem sample_series_keeps_ends_witness:
  "\<exists>is. sample_series [Fin 1, Fin 2, Fin 3] 2 = map ((!) [Fin 1, Fin 2, Fin 3]) is \<and> last is = 2"
  using sample_series_keeps_ends [of 2 "[Fin 1, Fin 2, Fin 3]"] by auto

section \<open>Pages\<close>

lemma group_loops_snoc_rev:
  "fold_res (\<lambda>r d. res_bind (loop_bucket r) (\<lambda>k. Inr (add_to_group k r d))) xs [] = Inr d \<Longrightarrow>
     distinct (map fst d) \<and> (\<forall>r \<in> set xs. \<exists>k \<in> fst ` set d. loop_bucket r = Inr k)
     \<and> (\<forall>k. (case map_of d k of None \<Rightarrow> [] | Some ys \<Rightarrow> ys) = filter (\<lambda>r. loop_bucket r = Inr k) xs)"
proof (induction xs arbitrary: d rule: rev_induct)
  case Nil
  then show ?case by simp
next
  case (snoc r xs)
  from snoc.prems obtain d' k where d': "fold_res (\<lambda>r d. res_bind (loop_bucket r) (\<lambda>k. Inr (add_to_group k r d))) xs [] = Inr d'"
    and k: "loop_bucket r = Inr k" and d: "d = add_to_group k r d'"
    by (auto simp: fold_res_append res_bind_Inr_iff)
  have keys: "fst ` set d = insert k (fst ` set d')" by (simp add: d add_to_group_def dom_update)
  have look: "(case map_of d k' of None \<Rightarrow> [] | Some ys \<Rightarrow> ys)
      = (case map_of d' k' of None \<Rightarrow> [] | Some ys \<Rightarrow> ys) @ (if k' = k then [r] else [])" for k'
    by (auto simp: d add_to_group_def update_conv' split: option.split)
  from snoc.IH [OF d'] show ?case
    unfolding keys look using k by (auto simp: d add_to_group_def distinct_update)
qed

lemma group_loops_spec:
  assumes "group_loops loops = Inr d"
  shows "distinct (map fst d)" and "\<forall>r \<in> set loops. \<exists>k \<in> fst ` set d. loop_bucket r = Inr k"
    and "(case map_of d k of None \<Rightarrow> [] | Some ys \<Rightarrow> ys) = filter (\<lambda>r. loop_bucket r = Inr k) (rev loops)"
  using group_loops_snoc_rev [OF assms [unfolded group_loops_def]] by simp_all

lemma mset_grouped:
  assumes "distinct ks" and "\<forall>r \<in> set xs. \<exists>k \<in> set ks. f r = Inr k"
  shows "mset (concat (map (\<lambda>k. filter (\<lambda>r. f r = Inr k) xs) ks)) = mset xs"
  using assms
proof (induction ks arbitrary: xs)
  case Nil
  then show ?case by simp
next
  case (Cons k ks)
  let ?xs = "filter (\<lambda>r. f r \<noteq> Inr k) xs"
  have "map (\<lambda>k. filter (\<lambda>r. f r = Inr k) ?xs) ks = map (\<lambda>k. filter (\<lambda>r. f r = Inr k) xs) ks"
    using Cons.prems(1) by (auto simp: filter_filter intro!: filter_cong)
  moreover have "mset (concat (map (\<lambda>k. filter (\<lambda>r. f r = Inr k) ?xs) ks)) = mset ?xs"
    using Cons.prems by (intro Cons.IH) auto
  ultimately have rest: "mset (concat (map (\<lambda>k. filter (\<lambda>r. f r = Inr k) xs) ks)) = mset ?xs" by (simp only:)
  have "mset (filter (\<lambda>r. f r = Inr k) xs) + mset ?xs = mset xs" by (induction xs) auto
  with rest show ?case by simp
qed

text \<open>The pages one after the other are all groups.\<close>

lemma pages_concat:
  assumes "0 < per_page" and "pages = max ((int (length keys) + per_page - 1) div per_page) 1"
  shows "concat (map (\<lambda>k. page_items (page_of keys grp k per_page)) [1..pages]) = map grp keys"
proof -
  let ?total = "int (length keys)"
  define cut where "cut i = min (i * nat per_page) (length keys)" for i
  have one: "1 \<le> pages" using assms by simp
  have full: "?total \<le> pages * per_page"
  proof -
    have "?total \<le> (?total + per_page - 1) div per_page * per_page"
      using assms(1) div_mult_mod_eq [of "?total + per_page - 1" per_page] pos_mod_bound [OF assms(1), of "?total + per_page - 1"]
      by linarith
    also have "\<dots> \<le> pages * per_page" using assms by (intro mult_right_mono) simp_all
    finally show ?thesis .
  qed
  have item: "page_items (page_of keys grp (int i + 1) per_page) = map grp (drop (cut i) (take (cut (Suc i)) keys))"
    if "i < nat pages" for i
  proof -
    have current: "min (max (int i + 1) 1) pages = int i + 1" using that by simp
    have ends: "nat (min (int i * per_page + per_page) ?total) = cut (Suc i)"
    proof -
      obtain s where s: "per_page = int s" using assms(1) by (metis less_imp_le nonneg_int_cases)
      have "int i * int s + int s = int (i * s + s)" by simp
      then have "min (int i * int s + int s) ?total = int (min (i * s + s) (length keys))" by (simp only: of_nat_min)
      then show ?thesis by (simp add: s cut_def add.commute)
    qed
    have "drop (nat (int i * per_page)) (take (cut (Suc i)) keys) = drop (cut i) (take (cut (Suc i)) keys)"
      using assms(1) by (simp add: cut_def nat_mult_distrib min_def)
    then show ?thesis
      unfolding page_of_def Let_def assms(2) [symmetric] slice_def using current ends by simp
  qed
  have "[1..pages] = map (\<lambda>i. int i + 1) [0..<nat pages]"
  proof -
    have "[1..pages] = map (\<lambda>i. i + 1) [0..pages - 1]" by (rule nth_equalityI) (simp_all add: nth_upto)
    then show ?thesis by (simp add: upto_of_nat comp_def)
  qed
  moreover have "map (\<lambda>i. page_items (page_of keys grp (int i + 1) per_page)) [0..<nat pages]
      = map (\<lambda>i. map grp (drop (cut i) (take (cut (Suc i)) keys))) [0..<nat pages]"
    by (rule map_cong) (simp_all add: item)
  ultimately have "concat (map (\<lambda>k. page_items (page_of keys grp k per_page)) [1..pages])
      = concat (map (\<lambda>i. map grp (drop (cut i) (take (cut (Suc i)) keys))) [0..<nat pages])"
    by (simp only: map_map comp_def)
  also have "\<dots> = map grp (concat (map (\<lambda>i. drop (cut i) (take (cut (Suc i)) keys)) [0..<nat pages]))"
    by (simp add: map_concat comp_def)
  also have "concat (map (\<lambda>i. drop (cut i) (take (cut (Suc i)) keys)) [0..<nat pages]) = keys"
  proof -
    have "nat pages * nat per_page = nat (pages * per_page)" using one by (simp add: nat_mult_distrib)
    moreover have "length keys \<le> nat (pages * per_page)" using full by linarith
    ultimately have "cut (nat pages) = length keys" unfolding cut_def by (simp only: min_absorb2)
    then show ?thesis using concat_cuts [of "nat pages" cut keys] by (simp add: cut_def min_le_iff_disj mult_le_mono1)
  qed
  finally show ?thesis .
qed

text \<open>C35: the pages one after the other show every minute once, newest first, and every loop of the
  history in exactly one group, the one of its minute.\<close>

theorem pages_show_every_loop:
  assumes "0 < per_page" and "paginate_minute_groups pod_loops node_loops 1 per_page = Inr first"
  shows "\<exists>shown. (\<forall>k. paginate_minute_groups pod_loops node_loops k per_page = Inr (shown k))
     \<and> (let gs = concat (map (\<lambda>k. page_items (shown k)) [1..total_pages first]) in
          sorted_wrt (>) (map group_key gs) \<and> int (length gs) = total_items first
          \<and> mset (concat (map group_pods gs)) = mset pod_loops \<and> mset (concat (map group_nodes gs)) = mset node_loops
          \<and> (\<forall>g \<in> set gs. \<forall>r \<in> set (group_pods g @ group_nodes g). loop_bucket r = Inr (group_key g)))"
proof -
  obtain pods nodes where g: "group_loops pod_loops = Inr pods" "group_loops node_loops = Inr nodes"
    and first: "first = page_of (ordered_keys pods nodes) (build_group pods nodes) 1 per_page"
    using assms(2) by (auto simp: paginate_minute_groups_def res_bind_Inr_iff)
  let ?keys = "ordered_keys pods nodes" and ?grp = "build_group pods nodes"
  let ?gs = "map ?grp ?keys"
  note spec = group_loops_spec [OF g(1)] group_loops_spec [OF g(2)]
  have keys: "distinct ?keys" "set ?keys = fst ` set pods \<union> fst ` set nodes" "sorted_wrt (>) ?keys"
    by (auto simp: ordered_keys_def sorted_wrt_rev strict_sorted_iff)
  have grp: "group_key (?grp k) = k" "group_pods (?grp k) = filter (\<lambda>r. loop_bucket r = Inr k) (rev pod_loops)"
    "group_nodes (?grp k) = filter (\<lambda>r. loop_bucket r = Inr k) (rev node_loops)" for k
    using spec(3,6) by (simp_all add: build_group_def)
  have "concat (map (\<lambda>k. page_items (page_of ?keys ?grp k per_page)) [1..total_pages first]) = ?gs"
    by (rule pages_concat [OF assms(1)]) (simp add: first page_of_def Let_def)
  moreover have "sorted_wrt (>) (map group_key ?gs)" using keys(3) by (simp add: comp_def grp)
  moreover have "int (length ?gs) = total_items first" by (simp add: first page_of_def Let_def)
  moreover have "mset (concat (map group_pods ?gs)) = mset pod_loops"
    using mset_grouped [OF keys(1), of "rev pod_loops" loop_bucket] spec(2) keys(2) by (simp add: comp_def grp) blast
  moreover have "mset (concat (map group_nodes ?gs)) = mset node_loops"
    using mset_grouped [OF keys(1), of "rev node_loops" loop_bucket] spec(5) keys(2) by (simp add: comp_def grp) blast
  moreover have "\<forall>g \<in> set ?gs. \<forall>r \<in> set (group_pods g @ group_nodes g). loop_bucket r = Inr (group_key g)"
    by (auto simp: grp)
  moreover have "paginate_minute_groups pod_loops node_loops k per_page = Inr (page_of ?keys ?grp k per_page)" for k
    by (simp add: paginate_minute_groups_def g)
  ultimately show ?thesis by (intro exI [of _ "\<lambda>k. page_of ?keys ?grp k per_page"]) (simp only: Let_def, simp)
qed

theorem pages_show_every_loop_witness:
  "\<exists>first. paginate_minute_groups [example_loop] [example_loop] 1 25 = Inr first \<and> total_items first = 1
     \<and> (\<exists>shown. paginate_minute_groups [example_loop] [example_loop] 1 25 = Inr (shown (1::int))
       \<and> mset (concat (map group_pods (concat (map (\<lambda>k. page_items (shown k)) [1..total_pages first])))) = {#example_loop#})"
proof -
  have "(case paginate_minute_groups [example_loop] [example_loop] 1 25 of Inl e \<Rightarrow> False | Inr p \<Rightarrow> total_items p = 1)"
    by code_simp
  then obtain first where first: "paginate_minute_groups [example_loop] [example_loop] 1 25 = Inr first" "total_items first = 1"
    by (cases "paginate_minute_groups [example_loop] [example_loop] 1 25") simp_all
  have "0 < (25 :: int)" by simp
  from pages_show_every_loop [OF this first(1), unfolded Let_def] obtain shown where
    "\<forall>k. paginate_minute_groups [example_loop] [example_loop] k 25 = Inr (shown k)"
    and "mset (concat (map group_pods (concat (map (\<lambda>k. page_items (shown k)) [1..total_pages first])))) = mset [example_loop]"
    by (elim exE conjE)
  with first show ?thesis by (intro exI [of _ first] conjI exI [of _ shown]) simp_all
qed

section \<open>Cache and history\<close>

definition example_settings :: settings where
  "example_settings = \<lparr>scaler_namespace = ''ns'', scaler_name = ''s'', controller_namespace = ''c'',
     controller_deployment_name = ''m'', worker_jobs_namespace = ''c'', base_path = ''/system-showcase'',
     cache_ttl_seconds = 5, loop_history_limit = 10\<rparr>"

definition example_kubernetes :: "json list \<Rightarrow> kubernetes" where
  "example_kubernetes scalers = \<lparr>list_custom_scalers = Inr scalers, read_controller_deployment = \<lambda>_ _. Inr None,
     list_worker_jobs = \<lambda>_ _ _. Inr [], jobs_answer_first = False\<rparr>"

definition example_scaler :: json where
  "example_scaler = JObj [(''metadata'', JObj [(''name'', JStr ''s''), (''namespace'', JStr ''ns'')]), (''spec'', JObj []),
     (''status'', JObj [(''lastNodeLoop'', JObj [(''observedAt'', JStr ''now''), (''targetWorkerCount'', JInt 2)])])]"

definition example_request :: snapshot_request where
  "example_request = \<lparr>force_refresh = False, req_namespace = None, req_name = None, req_page = 1, req_page_size = 25\<rparr>"

definition example_showcase :: showcase where
  "example_showcase = \<lparr>cache = [], history = Absent\<rparr>"

definition example_answer :: "showcase \<times> snapshot py" where
  "example_answer = service_get_snapshot example_settings (example_kubernetes [example_scaler]) (\<lambda>_. None) (0, 0, 0, 1)
     example_showcase example_showcase example_request"

text \<open>A snapshot that is answered stays in the cache under its key, and until it is as old as the
  time to live every request for the same page gets it back, whatever Kubernetes would answer by
  then; a forced request always builds anew.\<close>

theorem snapshot_stays_cached:
  assumes "service_get_snapshot cfg kube loads (t1, t2, t3, t4) st waited r = (st', Inr payload)"
  shows "\<exists>cached_at. map_of (cache st') (cache_key cfg r) = Some (cached_at, payload)
     \<and> (\<forall>kube' loads' t clock waited' r'. \<not> force_refresh r' \<and> cache_key cfg r' = cache_key cfg r
           \<and> t - cached_at < cache_ttl_seconds cfg * us_per_s \<longrightarrow>
         service_get_snapshot cfg kube' loads' (t, clock) st' waited' r' = (st', Inr payload))
     \<and> (force_refresh r \<longrightarrow> cached_at = t4 \<and> (case cache_key cfg r of (ns, name, page, per_page) \<Rightarrow>
           build_snapshot cfg kube loads t3 (history waited) ns name page per_page = (history st', Inr payload)))"
proof -
  obtain ns name page per_page where key: "cache_key cfg r = (ns, name, page, per_page)" by (cases "cache_key cfg r") auto
  have hit: "\<exists>cached_at. map_of (cache s) k = Some (cached_at, p)" if "cached_answer cfg s k t = Some p" for s k t p
    using that by (auto simp: cached_answer_def split: option.splits if_splits)
  have cached: "\<exists>cached_at. map_of (cache st') (cache_key cfg r) = Some (cached_at, payload)
      \<and> (force_refresh r \<longrightarrow> cached_at = t4
         \<and> build_snapshot cfg kube loads t3 (history waited) ns name page per_page = (history st', Inr payload))"
    using assms unfolding service_get_snapshot_def Let_def key
    by (auto simp: update_conv' split: option.splits prod.splits sum.splits if_splits dest!: hit)
  then obtain cached_at where c: "map_of (cache st') (cache_key cfg r) = Some (cached_at, payload)"
    "force_refresh r \<longrightarrow> cached_at = t4
       \<and> build_snapshot cfg kube loads t3 (history waited) ns name page per_page = (history st', Inr payload)" by blast
  have "service_get_snapshot cfg kube' loads' (t, clock) st' waited' r' = (st', Inr payload)"
    if "\<not> force_refresh r'" "cache_key cfg r' = cache_key cfg r" "t - cached_at < cache_ttl_seconds cfg * us_per_s"
    for kube' loads' t clock waited' r'
  proof -
    have "cached_answer cfg st' (cache_key cfg r') t = Some payload" using that c(1) by (simp add: cached_answer_def)
    with that(1) show ?thesis by (simp add: service_get_snapshot_def Let_def split: prod.split)
  qed
  with c key show ?thesis by (intro exI [of _ cached_at]) simp
qed

theorem snapshot_stays_cached_witness:
  "\<exists>st payload. example_answer = (st, Inr payload) \<and> (\<exists>cached_at. map_of (cache st) (cache_key example_settings example_request) = Some (cached_at, payload))"
proof -
  have "\<not> isl (snd example_answer)" by code_simp
  then obtain st payload where a: "example_answer = (st, Inr payload)" by (metis prod.collapse sum.collapse(2))
  from snapshot_stays_cached [OF a [unfolded example_answer_def]] a show ?thesis by blast
qed

lemma poll_scaler_unchanged: "poll_scaler cfg loads f scaler = Inr (f', False) \<Longrightarrow> f' = f"
  by (auto simp: poll_scaler_def res_bind_Inr_iff dest!: sync_unchanged)

lemma poll_scalers_unchanged:
  "poll_scalers cfg loads f changed items = (f', Inr changed') \<Longrightarrow> (changed \<longrightarrow> changed') \<and> (\<not> changed' \<longrightarrow> f' = f)"
proof (induction items arbitrary: f changed)
  case Nil
  then show ?case by simp
next
  case (Cons scaler items)
  from Cons.prems obtain f1 c where s: "poll_scaler cfg loads f scaler = Inr (f1, c)"
    "poll_scalers cfg loads f1 (changed \<or> c) items = (f', Inr changed')" by (auto split: sum.splits prod.splits)
  from Cons.IH [OF s(2)] poll_scaler_unchanged s(1) show ?case by (cases c) auto
qed

text \<open>A poll that reports a change has emptied the cache, and one that reports none has changed
  neither the history nor the cache.\<close>

theorem poll_keeps_cache_in_step:
  assumes "poll_history_once cfg kube loads st = (st', Inr changed)"
  shows "if changed then cache st' = [] else st' = st"
  using assms poll_scalers_unchanged
  by (fastforce simp: poll_history_once_def split: sum.splits prod.splits if_splits)

theorem poll_keeps_cache_in_step_witness:
  "\<exists>st. poll_history_once example_settings (example_kubernetes [example_scaler]) (\<lambda>_. None) example_showcase = (st, Inr True)
     \<and> cache st = []"
proof -
  have "snd (poll_history_once example_settings (example_kubernetes [example_scaler]) (\<lambda>_. None) example_showcase) = Inr True"
    by code_simp
  then obtain st where st: "poll_history_once example_settings (example_kubernetes [example_scaler]) (\<lambda>_. None) example_showcase
      = (st, Inr True)" by (metis prod.collapse)
  from poll_keeps_cache_in_step [OF st] st show ?thesis by simp
qed

end
