(* ===== verification/Gateway.thy ===== *)
theory Gateway
  imports Showcase
begin

text \<open>
  \<^verbatim>\<open>system-showcase/app/kubernetes_client.py\<close>: what the showcase asks the cluster and in which
  order it returns the answers.  The API server is a parameter: an answer for every call, or the
  status of an \<^verbatim>\<open>ApiException\<close>.
\<close>

section \<open>The cluster\<close>

datatype 'a api = ApiAnswer 'a | ApiException int

definition api_py :: "'a api \<Rightarrow> 'a py" where
  "api_py r = (case r of ApiAnswer x \<Rightarrow> Inr x | ApiException status \<Rightarrow> Inl (RuntimeError ''ApiException''))"

record V1Deployment =
  match_labels :: "(string \<times> string) list option"
  deployment_containers :: "container_env list"

record V1Pod =
  pod_name :: "string option"
  pod_labels :: "(string \<times> string) list option"

record V1Node =
  node_name :: "string option"
  node_labels :: "(string \<times> string) list option"

record cluster =
  custom_objects :: "string \<Rightarrow> string \<Rightarrow> string \<Rightarrow> json api"
  custom_object :: "string \<Rightarrow> string \<Rightarrow> string \<Rightarrow> string \<Rightarrow> string \<Rightarrow> json api"
  deployments :: "string \<Rightarrow> string \<Rightarrow> V1Deployment api"
  pods :: "string \<Rightarrow> string \<Rightarrow> V1Pod list api"
  nodes :: "V1Node list api"
  jobs :: "string \<Rightarrow> string \<Rightarrow> V1Job list api"

section \<open>The gateway\<close>

definition CUSTOM_SCALER_GROUP :: string where "CUSTOM_SCALER_GROUP = ''autoscaling.my.domain''"
definition CUSTOM_SCALER_VERSION :: string where "CUSTOM_SCALER_VERSION = ''v1''"
definition CUSTOM_SCALER_PLURAL :: string where "CUSTOM_SCALER_PLURAL = ''customscalers''"

text \<open>
  The sort key of a scaler.  Kubernetes names are text; another value would not compare with them,
  which shows where there is more than one scaler.
\<close>

definition scaler_fields :: "json \<Rightarrow> (json \<times> json) py" where
  "scaler_fields item =
     res_bind (py_get_or ''metadata'' (JObj []) item) (\<lambda>metadata.
     res_bind (py_get_or ''namespace'' (JStr []) metadata) (\<lambda>ns.
     res_bind (py_get_or ''name'' (JStr []) metadata) (\<lambda>name. Inr (ns, name))))"

definition text_key :: "json \<Rightarrow> string py" where
  "text_key v = (case v of JStr s \<Rightarrow> Inr s | _ \<Rightarrow> Inl TypeError)"

definition scaler_order :: "json \<Rightarrow> (string \<times> string) py" where
  "scaler_order item =
     res_bind (scaler_fields item) (\<lambda>(ns, name).
     res_bind (text_key ns) (\<lambda>ns. res_bind (text_key name) (\<lambda>name. Inr (ns, name))))"

definition gateway_custom_scalers :: "cluster \<Rightarrow> json list py" where
  "gateway_custom_scalers c =
     res_bind (api_py (custom_objects c CUSTOM_SCALER_GROUP CUSTOM_SCALER_VERSION CUSTOM_SCALER_PLURAL)) (\<lambda>payload.
     res_bind (py_get_or ''items'' (JArr []) payload) (\<lambda>items.
     res_bind (iterate items) (\<lambda>items.
     res_bind (traverse scaler_fields items) (\<lambda>_.
     if length items \<le> 1 then Inr items
     else res_bind (traverse (\<lambda>item. res_bind (scaler_order item) (\<lambda>k. Inr (k, item))) items) (\<lambda>keyed.
       Inr (map snd (sort_key fst keyed)))))))"

definition get_custom_scaler :: "cluster \<Rightarrow> string \<Rightarrow> string \<Rightarrow> json py" where
  "get_custom_scaler c ns name =
     api_py (custom_object c CUSTOM_SCALER_GROUP CUSTOM_SCALER_VERSION ns CUSTOM_SCALER_PLURAL name)"

definition read_deployment :: "cluster \<Rightarrow> string \<Rightarrow> string \<Rightarrow> V1Deployment py" where
  "read_deployment c ns name = api_py (deployments c ns name)"

text \<open>\<^verbatim>\<open>",".join(...)\<close>\<close>

definition or_text :: "string option \<Rightarrow> string" where
  "or_text v = (case v of None \<Rightarrow> [] | Some s \<Rightarrow> s)"

definition label_selector :: "(string \<times> string) list \<Rightarrow> string" where
  "label_selector labels = (case map (\<lambda>(k, v). k @ ''='' @ v) labels of
     [] \<Rightarrow> [] | p # ps \<Rightarrow> p @ concat (map (\<lambda>q. '','' @ q) ps))"

definition list_pods_for_deployment :: "cluster \<Rightarrow> string \<Rightarrow> V1Deployment \<Rightarrow> V1Pod list py" where
  "list_pods_for_deployment c ns deployment =
     (let selector = (case match_labels deployment of None \<Rightarrow> [] | Some ls \<Rightarrow> ls) in
      res_bind (api_py (pods c ns (label_selector selector))) (\<lambda>items.
      Inr (sort_key (\<lambda>pod. or_text (pod_name pod)) items)))"

text \<open>The loop over the nodes, with its \<^verbatim>\<open>continue\<close>s.\<close>

fun managed_nodes :: "string \<Rightarrow> string \<Rightarrow> V1Node list \<Rightarrow> V1Node list \<Rightarrow> V1Node list" where
  "managed_nodes key v [] items = items"
| "managed_nodes key v (node # rest) items =
     (let labels = (case node_labels node of None \<Rightarrow> [] | Some ls \<Rightarrow> ls) in
      if map_of labels ''node-role.kubernetes.io/control-plane'' \<noteq> None
         \<or> map_of labels ''node-role.kubernetes.io/master'' \<noteq> None then managed_nodes key v rest items
      else if key \<noteq> [] \<and> map_of labels key = None then managed_nodes key v rest items
      else if key \<noteq> [] \<and> v \<noteq> [] \<and> map_of labels key \<noteq> Some v then managed_nodes key v rest items
      else managed_nodes key v rest (items @ [node]))"

definition list_managed_worker_nodes :: "cluster \<Rightarrow> string \<Rightarrow> string \<Rightarrow> V1Node list py" where
  "list_managed_worker_nodes c key v =
     res_bind (api_py (nodes c)) (\<lambda>items.
     Inr (sort_key (\<lambda>node. or_text (node_name node)) (managed_nodes key v items [])))"

text \<open>
  \<^verbatim>\<open>sorted(..., reverse=True)\<close> keeps the order of equal elements.  A missing timestamp becomes
  0, which does not compare with an instant.
\<close>

definition creation_key :: "V1Job \<Rightarrow> int" where
  "creation_key j = (case job_creation j of None \<Rightarrow> 0 | Some t \<Rightarrow> t)"

definition newest_first :: "V1Job list \<Rightarrow> V1Job list py" where
  "newest_first js =
     (if list_ex (\<lambda>j. job_creation j = None) js \<and> list_ex (\<lambda>j. job_creation j \<noteq> None) js then Inl TypeError
      else Inr (rev (sort_key creation_key (rev js))))"

definition gateway_worker_jobs :: "cluster \<Rightarrow> string \<Rightarrow> json \<Rightarrow> json \<Rightarrow> V1Job list py" where
  "gateway_worker_jobs c ns name scaler_ns =
     res_bind (api_py (jobs c ns (''autoscaling.my.domain/customscaler='' @ py_str name
       @ '',autoscaling.my.domain/scaler-namespace='' @ py_str scaler_ns))) newest_first"

text \<open>A controller that is not there is no error.\<close>

definition gateway_controller_deployment :: "cluster \<Rightarrow> string \<Rightarrow> string \<Rightarrow> V1Deployment option py" where
  "gateway_controller_deployment c ns name = (case deployments c ns name of
     ApiAnswer d \<Rightarrow> Inr (Some d)
   | ApiException status \<Rightarrow> if status = 404 then Inr None else Inl (RuntimeError ''ApiException''))"

text \<open>The gateway as the snapshot service sees it.\<close>

definition gateway :: "cluster \<Rightarrow> bool \<Rightarrow> kubernetes" where
  "gateway c jobs_first =
     \<lparr>list_custom_scalers = gateway_custom_scalers c,
      read_controller_deployment = (\<lambda>ns name. res_bind (gateway_controller_deployment c ns name)
        (\<lambda>d. Inr (map_option deployment_containers d))),
      list_worker_jobs = gateway_worker_jobs c, jobs_answer_first = jobs_first\<rparr>"

section \<open>Orders\<close>

lemma traverse_keyed:
  "traverse (\<lambda>item. res_bind (f item) (\<lambda>k. Inr (k, item))) items = Inr keyed \<longleftrightarrow>
     (\<exists>ks. traverse f items = Inr ks \<and> keyed = zip ks items)"
proof (induction items arbitrary: keyed)
  case (Cons item items)
  show ?case
  proof
    assume "traverse (\<lambda>item. res_bind (f item) (\<lambda>k. Inr (k, item))) (item # items) = Inr keyed"
    then obtain k rest where "f item = Inr k" "keyed = (k, item) # rest"
      "traverse (\<lambda>item. res_bind (f item) (\<lambda>k. Inr (k, item))) items = Inr rest" by (auto simp: res_bind_Inr_iff)
    with Cons.IH obtain ks where "traverse f items = Inr ks" "rest = zip ks items" by blast
    with \<open>f item = Inr k\<close> \<open>keyed = (k, item) # rest\<close> show "\<exists>ks. traverse f (item # items) = Inr ks \<and> keyed = zip ks (item # items)"
      by (intro exI [of _ "k # ks"]) simp
  next
    assume "\<exists>ks. traverse f (item # items) = Inr ks \<and> keyed = zip ks (item # items)"
    then obtain k ks where "f item = Inr k" "traverse f items = Inr ks" "keyed = (k, item) # zip ks items"
      by (auto simp: res_bind_Inr_iff)
    moreover from this(2) have "traverse (\<lambda>item. res_bind (f item) (\<lambda>k. Inr (k, item))) items = Inr (zip ks items)"
      using Cons.IH by blast
    ultimately show "traverse (\<lambda>item. res_bind (f item) (\<lambda>k. Inr (k, item))) (item # items) = Inr keyed" by simp
  qed
qed auto

text \<open>The keys of a permuted list are the permuted keys.\<close>

lemma traverse_perm:
  assumes "traverse f xs = Inr ks" "mset ys = mset xs"
  shows "\<exists>ls. traverse f ys = Inr ls \<and> mset (zip ls ys) = mset (zip ks xs)"
proof -
  let ?g = "\<lambda>x. case f x of Inr k \<Rightarrow> k | Inl e \<Rightarrow> undefined"
  have f: "f x = Inr (?g x)" if "x \<in> set xs" for x
    using assms(1) that by (fastforce simp: traverse_Inr_iff list_all2_conv_all_nth in_set_conv_nth)
  have "set ys = set xs" using assms(2) by (metis set_mset_mset)
  then have "traverse f ys = Inr (map ?g ys)" "traverse f xs = Inr (map ?g xs)" using f by (auto intro!: traverse_total)
  moreover have "zip (map ?g zs) zs = map (\<lambda>x. (?g x, x)) zs" for zs by (induction zs) simp_all
  ultimately show ?thesis using assms by (intro exI [of _ "map ?g ys"]) simp
qed

lemma sort_keyed_unique:
  fixes ps qs :: "('k::linorder \<times> 'a) list"
  assumes "mset ps = mset qs" "distinct (map fst ps)"
  shows "sort_key fst ps = sort_key fst qs"
proof (rule sort_key_inj_key_eq)
  show "inj_on fst (set ps)" using assms(2) by (simp add: distinct_map)
qed (simp_all add: assms(1))

lemma scaler_order_fields: "traverse scaler_order items = Inr ks \<Longrightarrow> \<exists>fs. traverse scaler_fields items = Inr fs"
proof (induction items arbitrary: ks)
  case (Cons item items)
  then show ?case by (auto simp: res_bind_Inr_iff scaler_order_def)
qed simp

text \<open>The cluster's answers about scalers, in whatever order, are one list.\<close>

lemma gateway_scalers_unique:
  assumes "custom_objects c CUSTOM_SCALER_GROUP CUSTOM_SCALER_VERSION CUSTOM_SCALER_PLURAL = ApiAnswer payload"
    "custom_objects c' CUSTOM_SCALER_GROUP CUSTOM_SCALER_VERSION CUSTOM_SCALER_PLURAL = ApiAnswer payload'"
    "py_get_or ''items'' (JArr []) payload = Inr (JArr items)" "py_get_or ''items'' (JArr []) payload' = Inr (JArr items')"
    "mset items' = mset items" "traverse scaler_order items = Inr ks" "distinct ks"
  shows "gateway_custom_scalers c' = gateway_custom_scalers c"
proof -
  obtain ls where ls: "traverse scaler_order items' = Inr ls" "mset (zip ls items') = mset (zip ks items)"
    using traverse_perm [OF assms(6,5)] by blast
  have "length ks = length items" using assms(6) by (rule traverse_length)
  then have "distinct (map fst (zip ks items))" using assms(7) by simp
  then have "sort_key fst (zip ls items') = sort_key fst (zip ks items)"
    using sort_keyed_unique [OF ls(2) [symmetric]] by simp
  moreover have "traverse (\<lambda>item. res_bind (scaler_order item) (\<lambda>k. Inr (k, item))) items = Inr (zip ks items)"
    "traverse (\<lambda>item. res_bind (scaler_order item) (\<lambda>k. Inr (k, item))) items' = Inr (zip ls items')"
    unfolding traverse_keyed using assms(6) ls(1) by blast+
  moreover have "\<exists>fs. traverse scaler_fields items = Inr fs" "\<exists>fs. traverse scaler_fields items' = Inr fs"
    using scaler_order_fields assms(6) ls(1) by blast+
  moreover have "items' = items" if "length items \<le> 1"
    using that assms(5) mset_eq_length [OF assms(5)] by (cases items; cases items') auto
  ultimately show ?thesis
    using assms(1-4) mset_eq_length [OF assms(5)] by (auto simp: gateway_custom_scalers_def api_py_def)
qed

text \<open>Which nodes count as managed workers.\<close>

definition managed :: "string \<Rightarrow> string \<Rightarrow> V1Node \<Rightarrow> bool" where
  "managed key v node \<longleftrightarrow> (let labels = map_of (case node_labels node of None \<Rightarrow> [] | Some ls \<Rightarrow> ls) in
     labels ''node-role.kubernetes.io/control-plane'' = None \<and> labels ''node-role.kubernetes.io/master'' = None
     \<and> (key = [] \<or> (if v = [] then labels key \<noteq> None else labels key = Some v)))"

lemma managed_nodes_filter: "managed_nodes key v all items = items @ filter (managed key v) all"
proof (induction all arbitrary: items)
  case (Cons node all)
  then show ?case by (auto simp: managed_def Let_def)
qed simp

lemma newest_first_spec:
  assumes "newest_first js = Inr out"
  shows "mset out = mset js" "sorted_wrt (\<lambda>a b. creation_key b \<le> creation_key a) out"
proof -
  have out: "out = rev (sort_key creation_key (rev js))" using assms by (simp add: newest_first_def split: if_splits)
  then show "mset out = mset js" by simp
  have "sorted (map creation_key (sort_key creation_key (rev js)))" by simp
  then show "sorted_wrt (\<lambda>a b. creation_key b \<le> creation_key a) out"
    by (simp only: out sorted_map sorted_wrt_rev)
qed

section \<open>A concrete cluster\<close>

definition example_job :: "string \<Rightarrow> int \<Rightarrow> V1Job" where
  "example_job name t = \<lparr>job_name = name, job_namespace = ''c'', job_labels = None, job_active = None, job_succeeded = Some 1,
     job_failed = None, job_start_time = None, job_completion_time = None, job_conditions = None, job_creation = Some t\<rparr>"

definition other_scaler :: json where
  "other_scaler = JObj [(''metadata'', JObj [(''name'', JStr ''r''), (''namespace'', JStr ''ns'')]), (''spec'', JObj []), (''status'', JObj [])]"

definition example_cluster :: cluster where
  "example_cluster = \<lparr>custom_objects = \<lambda>_ _ _. ApiAnswer (JObj [(''items'', JArr [example_scaler, other_scaler])]),
     custom_object = \<lambda>_ _ _ _ _. ApiException 404, deployments = \<lambda>_ _. ApiException 404,
     pods = \<lambda>_ _. ApiAnswer [], nodes = ApiAnswer [], jobs = \<lambda>_ _. ApiAnswer [example_job ''a'' 1, example_job ''b'' 2]\<rparr>"

section \<open>Properties\<close>

text \<open>The order in which the API server lists the scalers does not show: if their names differ, a
  snapshot is the same whatever that order is, also where it falls back on the first scaler.\<close>

theorem snapshot_ignores_api_order:
  assumes "custom_objects c CUSTOM_SCALER_GROUP CUSTOM_SCALER_VERSION CUSTOM_SCALER_PLURAL = ApiAnswer payload"
    "py_get_or ''items'' (JArr []) payload = Inr (JArr items)" "py_get_or ''items'' (JArr []) payload' = Inr (JArr items')"
    "mset items' = mset items" "traverse scaler_order items = Inr ks" "distinct ks"
  shows "service_get_snapshot cfg (gateway (c\<lparr>custom_objects := \<lambda>_ _ _. ApiAnswer payload'\<rparr>) jobs_first) loads clock st waited r
    = service_get_snapshot cfg (gateway c jobs_first) loads clock st waited r"
proof -
  let ?c = "c\<lparr>custom_objects := \<lambda>_ _ _. ApiAnswer payload'\<rparr>"
  have "gateway_custom_scalers ?c = gateway_custom_scalers c"
    by (rule gateway_scalers_unique [OF assms(1) _ assms(2,3,4,5,6)]) simp
  then have "gateway ?c jobs_first = gateway c jobs_first"
    by (simp add: gateway_def gateway_controller_deployment_def gateway_worker_jobs_def fun_eq_iff)
  then show ?thesis by simp
qed

theorem snapshot_ignores_api_order_witness:
  "service_get_snapshot example_settings (gateway (example_cluster\<lparr>custom_objects := \<lambda>_ _ _.
       ApiAnswer (JObj [(''items'', JArr [other_scaler, example_scaler])])\<rparr>) False) (\<lambda>_. None) (0, 0, 0, 1)
       example_showcase example_showcase example_request
     = service_get_snapshot example_settings (gateway example_cluster False) (\<lambda>_. None) (0, 0, 0, 1)
         example_showcase example_showcase example_request"
proof (rule snapshot_ignores_api_order)
  show "custom_objects example_cluster CUSTOM_SCALER_GROUP CUSTOM_SCALER_VERSION CUSTOM_SCALER_PLURAL
      = ApiAnswer (JObj [(''items'', JArr [example_scaler, other_scaler])])" by (simp add: example_cluster_def)
  show "traverse scaler_order [example_scaler, other_scaler] = Inr [(''ns'', ''s''), (''ns'', ''r'')]" by code_simp
  show "mset [other_scaler, example_scaler] = mset [example_scaler, other_scaler]"
    unfolding mset.simps by (rule add_mset_commute)
qed (simp_all add: py_get_or_def jget_or_def)

text \<open>The managed workers are the nodes outside the control plane that carry the label, sorted by name.\<close>

theorem managed_workers_listed:
  "list_managed_worker_nodes c key v = Inr ns \<longleftrightarrow>
     (\<exists>all. nodes c = ApiAnswer all \<and> ns = sort_key (\<lambda>node. or_text (node_name node)) (filter (managed key v) all))"
  by (cases "nodes c") (auto simp: list_managed_worker_nodes_def api_py_def managed_nodes_filter)

text \<open>The sidebar shows the newest jobs of the scaler: all jobs of the answer when there are at most
  24, else 24 of them such that no hidden one is newer than a shown one.\<close>

theorem sidebar_shows_newest_jobs:
  assumes "gateway_worker_jobs c ns name scaler_ns = Inr js" "build_sidebar spec status node_loop deployment js = Inr side"
  shows "\<exists>all selector. jobs c ns selector = ApiAnswer all \<and> mset js = mset all
    \<and> job_status side = map serialize_job (take 24 js)
    \<and> (\<forall>shown \<in> set (take 24 js). \<forall>hidden \<in> set (drop 24 js). creation_key hidden \<le> creation_key shown)"
proof -
  let ?sel = "''autoscaling.my.domain/customscaler='' @ py_str name @ '',autoscaling.my.domain/scaler-namespace='' @ py_str scaler_ns"
  obtain all where all: "jobs c ns ?sel = ApiAnswer all" "newest_first all = Inr js"
    using assms(1) by (cases "jobs c ns ?sel") (auto simp: gateway_worker_jobs_def api_py_def)
  have "sorted_wrt (\<lambda>a b. creation_key b \<le> creation_key a) (take 24 js @ drop 24 js)"
    using newest_first_spec(2) [OF all(2)] by simp
  then have "\<forall>shown \<in> set (take 24 js). \<forall>hidden \<in> set (drop 24 js). creation_key hidden \<le> creation_key shown"
    unfolding sorted_wrt_append by blast
  moreover have "job_status side = map serialize_job (take 24 js)"
    using assms(2) by (auto simp: build_sidebar_def res_bind_Inr_iff split: prod.splits)
  ultimately show ?thesis using all(1) newest_first_spec(1) [OF all(2)] by blast
qed

theorem sidebar_shows_newest_jobs_witness:
  "\<exists>js side. gateway_worker_jobs example_cluster ''c'' (JStr ''s'') (JStr ''ns'') = Inr js
     \<and> build_sidebar (JObj []) (JObj []) JNull None js = Inr side \<and> mset js = {#example_job ''a'' 1, example_job ''b'' 2#}
     \<and> job_status side = map serialize_job (take 24 js)"
proof -
  have "(case gateway_worker_jobs example_cluster ''c'' (JStr ''s'') (JStr ''ns'') of Inl e \<Rightarrow> False
      | Inr js \<Rightarrow> \<not> isl (build_sidebar (JObj []) (JObj []) JNull None js))" by code_simp
  then obtain js where js: "gateway_worker_jobs example_cluster ''c'' (JStr ''s'') (JStr ''ns'') = Inr js"
    and "\<not> isl (build_sidebar (JObj []) (JObj []) JNull None js)"
    by (cases "gateway_worker_jobs example_cluster ''c'' (JStr ''s'') (JStr ''ns'')") simp_all
  then obtain side where side: "build_sidebar (JObj []) (JObj []) JNull None js = Inr side"
    by (cases "build_sidebar (JObj []) (JObj []) JNull None js") simp_all
  from sidebar_shows_newest_jobs [OF js side] js side show ?thesis by (auto simp: example_cluster_def)
qed

end
