(* ===== verification/Poller.thy ===== *)
theory Poller
  imports Gateway
begin

text \<open>
  \<^verbatim>\<open>system-showcase/app/snapshot_service.py\<close> as one asyncio program: the background poller with
  its stop event and its task, the requests that build snapshots under \<^verbatim>\<open>_cache_lock\<close>, and the
  lifespan of \<^verbatim>\<open>main.py\<close> that starts and stops the poller.  A step is what runs between two
  points where a coroutine waits, so the steps of the poller, of the requests and of the
  lifespan interleave freely.
\<close>

section \<open>State\<close>

text \<open>
  Where the coroutine of a poller task waits, with the stop event it holds: not yet started, at
  the head of the loop, for the list of scalers, for \<^verbatim>\<open>_cache_lock\<close> to clear the cache, in
  \<^verbatim>\<open>wait_for\<close>, or finished.
\<close>

datatype poll_task = Created | AtLoop nat | Listing nat | Clearing nat | AtWait nat | Ended

text \<open>
  Who holds \<^verbatim>\<open>_cache_lock\<close>: nobody, a request that builds the snapshot of a page, or one that
  has built it.
\<close>

type_synonym page_key = "string \<times> string \<times> int \<times> int"

datatype cache_lock = Free | Building page_key | Built page_key snapshot

datatype lifespan = Down | Serving | Stopping

text \<open>The \<^verbatim>\<open>asyncio.Event\<close>s and tasks made so far are numbered.\<close>

record live_showcase =
  service :: showcase
  cache_lock :: cache_lock
  stop_events :: "bool list"
  poller_stop :: "nat option"
  poller_tasks :: "poll_task list"
  poller_task :: "nat option"
  lifespan :: lifespan

definition new_showcase :: "history_file \<Rightarrow> live_showcase" where
  "new_showcase f = \<lparr>service = \<lparr>cache = [], history = f\<rparr>, cache_lock = Free, stop_events = [], poller_stop = None,
     poller_tasks = [], poller_task = None, lifespan = Down\<rparr>"

section \<open>Operations\<close>

definition start_background_poller :: "live_showcase \<Rightarrow> live_showcase" where
  "start_background_poller a =
     (if (case poller_task a of None \<Rightarrow> False | Some i \<Rightarrow> poller_tasks a ! i \<noteq> Ended) then a
      else a\<lparr>stop_events := stop_events a @ [False], poller_stop := Some (length (stop_events a)),
        poller_tasks := poller_tasks a @ [Created], poller_task := Some (length (poller_tasks a))\<rparr>)"

text \<open>\<^verbatim>\<open>stop_background_poller\<close> up to \<^verbatim>\<open>await self._poller_task\<close>, whether that returns, and the rest.\<close>

definition request_stop :: "live_showcase \<Rightarrow> live_showcase" where
  "request_stop a = (case poller_stop a of None \<Rightarrow> a | Some e \<Rightarrow> a\<lparr>stop_events := (stop_events a)[e := True]\<rparr>)"

definition poller_awaited :: "live_showcase \<Rightarrow> bool" where
  "poller_awaited a = (case poller_task a of None \<Rightarrow> True | Some i \<Rightarrow> poller_tasks a ! i = Ended)"

definition forget_poller :: "live_showcase \<Rightarrow> live_showcase" where
  "forget_poller a = a\<lparr>poller_task := None, poller_stop := None\<rparr>"

text \<open>\<^verbatim>\<open>lifespan\<close>: before and after its \<^verbatim>\<open>yield\<close>.\<close>

definition startup :: "live_showcase \<Rightarrow> live_showcase" where
  "startup a = (start_background_poller a)\<lparr>lifespan := Serving\<rparr>"

definition shutdown :: "live_showcase \<Rightarrow> live_showcase" where
  "shutdown a = (request_stop a)\<lparr>lifespan := Stopping\<rparr>"

definition shut_down :: "live_showcase \<Rightarrow> live_showcase" where
  "shut_down a = (forget_poller a)\<lparr>lifespan := Down\<rparr>"

definition set_history :: "history_file \<Rightarrow> live_showcase \<Rightarrow> live_showcase" where
  "set_history f a = a\<lparr>service := (service a)\<lparr>history := f\<rparr>\<rparr>"

text \<open>
  One step of a poller task: \<^verbatim>\<open>_run_background_poller\<close> with \<^verbatim>\<open>poll_history_once\<close> inlined.  An
  exception of the poll is swallowed; \<^verbatim>\<open>wait_for\<close> returns or times out to the head of the loop.
\<close>

fun poller_runs ::
  "settings \<Rightarrow> kubernetes \<Rightarrow> (string \<Rightarrow> json option) \<Rightarrow> live_showcase \<Rightarrow> poll_task \<Rightarrow> live_showcase \<times> poll_task" where
  "poller_runs cfg kube loads a Created = (a, (case poller_stop a of None \<Rightarrow> Ended | Some e \<Rightarrow> AtLoop e))"
| "poller_runs cfg kube loads a (AtLoop e) = (a, (if stop_events a ! e then Ended else Listing e))"
| "poller_runs cfg kube loads a (Listing e) = (case list_custom_scalers kube of
     Inl _ \<Rightarrow> (a, AtWait e)
   | Inr items \<Rightarrow> (case poll_scalers cfg loads (history (service a)) False items of
       (f, Inl _) \<Rightarrow> (set_history f a, AtWait e)
     | (f, Inr changed) \<Rightarrow> (set_history f a, (if changed then Clearing e else AtWait e))))"
| "poller_runs cfg kube loads a (Clearing e) =
     (if cache_lock a = Free then (a\<lparr>service := (service a)\<lparr>cache := []\<rparr>\<rparr>, AtWait e) else (a, Clearing e))"
| "poller_runs cfg kube loads a (AtWait e) = (a, AtLoop e)"
| "poller_runs cfg kube loads a Ended = (a, Ended)"

definition run_task :: "settings \<Rightarrow> kubernetes \<Rightarrow> (string \<Rightarrow> json option) \<Rightarrow> nat \<Rightarrow> live_showcase \<Rightarrow> live_showcase" where
  "run_task cfg kube loads i a = (case poller_runs cfg kube loads a (poller_tasks a ! i) of
     (a', t) \<Rightarrow> a'\<lparr>poller_tasks := (poller_tasks a)[i := t]\<rparr>)"

text \<open>
  \<^verbatim>\<open>SnapshotService.get_snapshot\<close> from the lock on: the second look at the cache, the snapshot,
  which reads or writes the history at one point, and its entry in the cache.
\<close>

definition take_lock :: "settings \<Rightarrow> int \<Rightarrow> snapshot_request \<Rightarrow> live_showcase \<Rightarrow> live_showcase" where
  "take_lock cfg t2 r a =
     (case (if force_refresh r then None else cached_answer cfg (service a) (cache_key cfg r) t2) of
        Some payload \<Rightarrow> a
      | None \<Rightarrow> a\<lparr>cache_lock := Building (cache_key cfg r)\<rparr>)"

definition build_locked :: "settings \<Rightarrow> kubernetes \<Rightarrow> (string \<Rightarrow> json option) \<Rightarrow> int \<Rightarrow> page_key \<Rightarrow> live_showcase \<Rightarrow> live_showcase" where
  "build_locked cfg kube loads t3 key a = (case key of (ns, name, page, per_page) \<Rightarrow>
     (case build_snapshot cfg kube loads t3 (history (service a)) ns name page per_page of
        (f, Inl e) \<Rightarrow> (set_history f a)\<lparr>cache_lock := Free\<rparr>
      | (f, Inr payload) \<Rightarrow> (set_history f a)\<lparr>cache_lock := Built key payload\<rparr>))"

definition store_locked :: "int \<Rightarrow> page_key \<Rightarrow> snapshot \<Rightarrow> live_showcase \<Rightarrow> live_showcase" where
  "store_locked t4 key payload a =
     a\<lparr>service := (service a)\<lparr>cache := AList.update key (t4, payload) (cache (service a))\<rparr>, cache_lock := Free\<rparr>"

section \<open>Runs\<close>

text \<open>What a step shows: that a poll changed the history, or that a snapshot was built for a page.\<close>

datatype label = Quiet | PollChanged | SnapshotBuilt page_key snapshot

definition task_label :: "poll_task \<Rightarrow> poll_task \<Rightarrow> label" where
  "task_label t t' = (case (t, t') of (Listing _, Clearing _) \<Rightarrow> PollChanged | _ \<Rightarrow> Quiet)"

definition build_label :: "cache_lock \<Rightarrow> label" where
  "build_label l = (case l of Built key payload \<Rightarrow> SnapshotBuilt key payload | _ \<Rightarrow> Quiet)"

inductive showcase_step :: "settings \<Rightarrow> (string \<Rightarrow> json option) \<Rightarrow> live_showcase \<Rightarrow> label \<Rightarrow> live_showcase \<Rightarrow> bool"
  for cfg loads where
  startup: "lifespan a = Down \<Longrightarrow> showcase_step cfg loads a Quiet (startup a)"
| shutdown: "lifespan a = Serving \<Longrightarrow> showcase_step cfg loads a Quiet (shutdown a)"
| shut_down: "lifespan a = Stopping \<Longrightarrow> poller_awaited a \<Longrightarrow> showcase_step cfg loads a Quiet (shut_down a)"
| task: "i < length (poller_tasks a) \<Longrightarrow> a' = run_task cfg kube loads i a
    \<Longrightarrow> showcase_step cfg loads a (task_label (poller_tasks a ! i) (poller_tasks a' ! i)) a'"
| locked: "cache_lock a = Free \<Longrightarrow> showcase_step cfg loads a Quiet (take_lock cfg t2 r a)"
| built: "cache_lock a = Building key \<Longrightarrow> a' = build_locked cfg kube loads t3 key a
    \<Longrightarrow> showcase_step cfg loads a (build_label (cache_lock a')) a'"
| stored: "cache_lock a = Built key payload \<Longrightarrow> showcase_step cfg loads a Quiet (store_locked t4 key payload a)"

inductive showcase_run :: "settings \<Rightarrow> (string \<Rightarrow> json option) \<Rightarrow> history_file \<Rightarrow> label list \<Rightarrow> live_showcase \<Rightarrow> bool"
  for cfg loads f where
  new: "showcase_run cfg loads f [] (new_showcase f)"
| step: "showcase_run cfg loads f ls a \<Longrightarrow> showcase_step cfg loads a l a' \<Longrightarrow> showcase_run cfg loads f (ls @ [l]) a'"

inductive_cases showcase_stepE: "showcase_step cfg loads a l a'"

section \<open>One poller\<close>

fun event_of :: "poll_task \<Rightarrow> nat option" where
  "event_of (AtLoop e) = Some e"
| "event_of (Listing e) = Some e"
| "event_of (Clearing e) = Some e"
| "event_of (AtWait e) = Some e"
| "event_of t = None"

text \<open>
  The \<open>n\<close>th task belongs to the \<open>n\<close>th stop event; of the tasks only the last one made may still be
  running, and it does so while the application serves.
\<close>

definition poller_wf :: "live_showcase \<Rightarrow> bool" where
  "poller_wf a \<longleftrightarrow>
     length (stop_events a) = length (poller_tasks a)
   \<and> (case lifespan a of
        Down \<Rightarrow> poller_task a = None \<and> poller_stop a = None \<and> (\<forall>t \<in> set (poller_tasks a). t = Ended)
      | l \<Rightarrow> poller_tasks a \<noteq> [] \<and> poller_task a = Some (length (poller_tasks a) - 1)
          \<and> poller_stop a = poller_task a \<and> (last (stop_events a) \<longleftrightarrow> l = Stopping)
          \<and> (\<forall>t \<in> set (butlast (poller_tasks a)). t = Ended)
          \<and> event_of (last (poller_tasks a)) \<in> {None, poller_task a}
          \<and> (l = Serving \<longrightarrow> last (poller_tasks a) \<noteq> Ended))"

lemma poller_wf_new: "poller_wf (new_showcase f)"
  by (simp add: poller_wf_def new_showcase_def)

lemma poller_wf_cong:
  assumes "stop_events a' = stop_events a" "poller_tasks a' = poller_tasks a" "poller_task a' = poller_task a"
    "poller_stop a' = poller_stop a" "lifespan a' = lifespan a"
  shows "poller_wf a' = poller_wf a"
  unfolding poller_wf_def assms ..

lemma poller_wf_startup: "poller_wf a \<Longrightarrow> lifespan a = Down \<Longrightarrow> poller_wf (startup a)"
  by (simp add: poller_wf_def startup_def start_background_poller_def)

lemma poller_wf_shutdown: "poller_wf a \<Longrightarrow> lifespan a = Serving \<Longrightarrow> poller_wf (shutdown a)"
proof -
  assume wf: "poller_wf a" and l: "lifespan a = Serving"
  then have "stop_events a \<noteq> []" by (auto simp: poller_wf_def)
  with wf l show "poller_wf (shutdown a)"
    by (auto simp: poller_wf_def shutdown_def request_stop_def last_list_update)
qed

lemma poller_wf_shut_down: "poller_wf a \<Longrightarrow> lifespan a = Stopping \<Longrightarrow> poller_awaited a \<Longrightarrow> poller_wf (shut_down a)"
proof -
  assume wf: "poller_wf a" and s: "lifespan a = Stopping" and w: "poller_awaited a"
  from wf s have ne: "poller_tasks a \<noteq> []" and t: "poller_task a = Some (length (poller_tasks a) - 1)"
    and b: "\<forall>t \<in> set (butlast (poller_tasks a)). t = Ended" and l: "length (stop_events a) = length (poller_tasks a)"
    by (simp_all add: poller_wf_def)
  from w t ne have "last (poller_tasks a) = Ended" by (simp add: poller_awaited_def last_conv_nth)
  with b ne have "\<forall>t \<in> set (poller_tasks a). t = Ended"
    by (metis append_butlast_last_id in_set_conv_decomp rotate1.simps(2) set_ConsD set_rotate1)
  with l show "poller_wf (shut_down a)" by (simp add: poller_wf_def shut_down_def forget_poller_def)
qed

lemma poller_runs_keeps:
  assumes "poller_runs cfg kube loads a t = (a', t')"
  shows "stop_events a' = stop_events a" "poller_tasks a' = poller_tasks a" "poller_task a' = poller_task a"
    "poller_stop a' = poller_stop a" "lifespan a' = lifespan a" "cache_lock a' = cache_lock a"
  using assms by (cases t; auto simp: set_history_def split: sum.splits prod.splits if_splits)+

text \<open>A task keeps its event, takes the current one when it first runs, and ends only on its event.\<close>

lemma poller_runs_task:
  assumes "poller_runs cfg kube loads a t = (a', t')"
  shows "t = Ended \<Longrightarrow> t' = Ended"
    "event_of t' \<in> {None, event_of t, poller_stop a}"
    "t' = Ended \<Longrightarrow> t = Ended \<or> t = Created \<and> poller_stop a = None \<or> (\<exists>e. event_of t = Some e \<and> stop_events a ! e)"
  using assms by (cases t; auto split: sum.splits prod.splits if_splits option.splits)+

lemma poller_wf_task:
  assumes wf: "poller_wf a" and i: "i < length (poller_tasks a)"
  shows "poller_wf (run_task cfg kube loads i a)"
proof -
  obtain a' t where r: "poller_runs cfg kube loads a (poller_tasks a ! i) = (a', t)" by (cases "poller_runs cfg kube loads a (poller_tasks a ! i)")
  note keeps = poller_runs_keeps [OF r] and task = poller_runs_task [OF r]
  have run: "run_task cfg kube loads i a = a'\<lparr>poller_tasks := (poller_tasks a)[i := t]\<rparr>" by (simp add: run_task_def r)
  show ?thesis
  proof (cases "poller_tasks a ! i = Ended")
    case True
    with task(1) have "t = Ended" by blast
    with True have "(poller_tasks a)[i := t] = poller_tasks a" by (metis list_update_id)
    with keeps have "poller_wf (run_task cfg kube loads i a) = poller_wf a" by (intro poller_wf_cong) (simp_all add: run)
    with wf show ?thesis by blast
  next
    case False
    then have down: "lifespan a \<noteq> Down" using wf i by (auto simp: poller_wf_def)
    then have ne: "poller_tasks a \<noteq> []" and pt: "poller_task a = Some (length (poller_tasks a) - 1)"
      and ps: "poller_stop a = poller_task a" and old: "\<forall>t \<in> set (butlast (poller_tasks a)). t = Ended"
      and ev: "event_of (last (poller_tasks a)) \<in> {None, poller_task a}" and len: "length (stop_events a) = length (poller_tasks a)"
      and stop: "last (stop_events a) \<longleftrightarrow> lifespan a = Stopping"
      using wf by (auto simp: poller_wf_def split: lifespan.splits)
    have i_last: "i = length (poller_tasks a) - 1"
    proof (rule ccontr)
      assume "i \<noteq> length (poller_tasks a) - 1"
      with i have "i < length (butlast (poller_tasks a))" by simp
      then have "butlast (poller_tasks a) ! i \<in> set (butlast (poller_tasks a))" by (rule nth_mem)
      with old have "butlast (poller_tasks a) ! i = Ended" by blast
      with \<open>i < length (butlast (poller_tasks a))\<close> False show False by (simp add: nth_butlast)
    qed
    then have last: "last (poller_tasks a) = poller_tasks a ! i" using ne by (simp add: last_conv_nth)
    have upd: "(poller_tasks a)[i := t] = butlast (poller_tasks a) @ [t]"
      unfolding i_last using ne by (metis append_butlast_last_id length_butlast list_update_length)
    have "event_of t \<in> {None, poller_task a}" using task(2) ev ps last by auto
    moreover have "lifespan a = Stopping" if "t = Ended"
    proof -
      from task(3) [OF that] False ps pt obtain e where e: "event_of (poller_tasks a ! i) = Some e" "stop_events a ! e" by auto
      with ev last pt have "e = length (stop_events a) - 1" using len by simp
      with e(2) len ne have "last (stop_events a)" by (metis last_conv_nth length_0_conv)
      with stop show ?thesis by simp
    qed
    ultimately show ?thesis
      using wf down len pt ps stop old keeps ne unfolding run poller_wf_def by (cases "lifespan a") (auto simp: upd)
  qed
qed

lemma poller_wf_requests:
  "poller_wf (take_lock cfg t2 r a) = poller_wf a"
  "poller_wf (build_locked cfg kube loads t3 key a) = poller_wf a"
  "poller_wf (store_locked t4 key payload a) = poller_wf a"
  by (rule poller_wf_cong; auto simp: take_lock_def build_locked_def store_locked_def set_history_def
        split: option.splits sum.splits prod.splits)+

lemma poller_wf_step: "showcase_step cfg loads a l a' \<Longrightarrow> poller_wf a \<Longrightarrow> poller_wf a'"
  by (erule showcase_stepE)
    (simp_all add: poller_wf_startup poller_wf_shutdown poller_wf_shut_down poller_wf_task poller_wf_requests)

lemma poller_wf_run: "showcase_run cfg loads f ls a \<Longrightarrow> poller_wf a"
  by (induction rule: showcase_run.induct) (simp_all add: poller_wf_new poller_wf_step)

section \<open>What the cache was built from\<close>

text \<open>
  Whatever the cache holds, or a request is about to put there, was built after the last change a
  poll made, unless a poll still waits to clear the cache.
\<close>

definition built_since :: "label list \<Rightarrow> page_key \<Rightarrow> snapshot \<Rightarrow> bool" where
  "built_since ls key payload \<longleftrightarrow> SnapshotBuilt key payload \<in> set (takeWhile (\<lambda>l. l \<noteq> PollChanged) (rev ls))
     \<or> PollChanged \<notin> set ls"

definition clearing :: "poll_task \<Rightarrow> bool" where
  "clearing t \<longleftrightarrow> (\<exists>e. t = Clearing e)"

definition cache_fresh :: "label list \<Rightarrow> live_showcase \<Rightarrow> bool" where
  "cache_fresh ls a \<longleftrightarrow> (\<exists>t \<in> set (poller_tasks a). clearing t)
     \<or> (\<forall>key t payload. (key, t, payload) \<in> set (cache (service a)) \<longrightarrow> built_since ls key payload)
       \<and> (\<forall>key payload. cache_lock a = Built key payload \<longrightarrow> built_since ls key payload)"

lemma built_since_snoc [simp]:
  "built_since (ls @ [Quiet]) key payload = built_since ls key payload"
  "built_since ls key payload \<Longrightarrow> built_since (ls @ [SnapshotBuilt key' payload']) key payload"
  "built_since (ls @ [SnapshotBuilt key payload]) key payload"
  by (auto simp: built_since_def)

lemma set_update_entries: "set (AList.update k v xs) \<subseteq> insert (k, v) (set xs)"
  by (induction xs) auto

text \<open>A poller task leaves the cache and the lock alone but where it clears the cache.\<close>

lemma poller_runs_clears:
  assumes "poller_runs cfg kube loads a t = (a', t')"
  shows "clearing t \<and> \<not> clearing t' \<and> cache (service a') = [] \<and> cache_lock a' = Free \<and> task_label t t' = Quiet
    \<or> clearing t \<and> clearing t' \<and> task_label t t' = Quiet
    \<or> \<not> clearing t \<and> \<not> clearing t' \<and> cache (service a') = cache (service a) \<and> cache_lock a' = cache_lock a \<and> task_label t t' = Quiet
    \<or> \<not> clearing t \<and> clearing t' \<and> task_label t t' = PollChanged"
  using assms
  by (cases t; auto simp: clearing_def task_label_def set_history_def split: sum.splits prod.splits option.splits if_splits)

lemma cache_fresh_task:
  assumes "cache_fresh ls a" "i < length (poller_tasks a)"
  shows "cache_fresh (ls @ [task_label (poller_tasks a ! i) (poller_tasks (run_task cfg kube loads i a) ! i)]) (run_task cfg kube loads i a)"
proof -
  obtain a' t' where r: "poller_runs cfg kube loads a (poller_tasks a ! i) = (a', t')"
    by (cases "poller_runs cfg kube loads a (poller_tasks a ! i)")
  have run: "run_task cfg kube loads i a = a'\<lparr>poller_tasks := (poller_tasks a)[i := t']\<rparr>" by (simp add: run_task_def r)
  have now: "(\<exists>t \<in> set ((poller_tasks a)[i := t']). clearing t)" if "clearing t'"
    using that assms(2) set_update_memI by fast
  have still: "(\<exists>t \<in> set ((poller_tasks a)[i := t']). clearing t)"
    if "\<exists>t \<in> set (poller_tasks a). clearing t" "\<not> clearing (poller_tasks a ! i)"
  proof -
    from that obtain j where j: "j < length (poller_tasks a)" "clearing (poller_tasks a ! j)" by (auto simp: in_set_conv_nth)
    with that(2) have "i \<noteq> j" by blast
    then have "(poller_tasks a)[i := t'] ! j = poller_tasks a ! j" by simp
    with j show ?thesis by (metis length_list_update nth_mem)
  qed
  have label: "task_label (poller_tasks a ! i) (poller_tasks (run_task cfg kube loads i a) ! i) = task_label (poller_tasks a ! i) t'"
    using assms(2) by (simp add: run)
  from poller_runs_clears [OF r] show ?thesis
    unfolding label by (elim disjE conjE) (use assms(1) now still in \<open>auto simp: cache_fresh_def run\<close>)
qed

lemma cache_fresh_step:
  assumes "showcase_step cfg loads a l a'" "cache_fresh ls a"
  shows "cache_fresh (ls @ [l]) a'"
  using assms(1)
proof cases
  case (built key kube t3)
  with assms(2) show ?thesis
    by (auto simp: cache_fresh_def build_locked_def build_label_def set_history_def split: prod.splits sum.splits)
next
  case (stored key payload t4)
  with assms(2) set_update_entries [of key "(t4, payload)" "cache (service a)"] show ?thesis
    by (fastforce simp: cache_fresh_def store_locked_def)
next
  case (task i kube)
  with assms(2) cache_fresh_task show ?thesis by simp
qed (use assms(2) in \<open>auto simp: cache_fresh_def startup_def start_background_poller_def shutdown_def request_stop_def
    shut_down_def forget_poller_def take_lock_def split: option.splits\<close>)

lemma cache_fresh_run: "showcase_run cfg loads f ls a \<Longrightarrow> cache_fresh ls a"
proof (induction rule: showcase_run.induct)
  case new
  show ?case by (simp add: cache_fresh_def new_showcase_def)
next
  case (step ls a l a')
  from step.hyps(2) step.IH show ?case by (rule cache_fresh_step)
qed

lemma built_since_last: "built_since (ls @ PollChanged # ls') key payload \<Longrightarrow> SnapshotBuilt key payload \<in> set ls'"
  by (auto simp: built_since_def takeWhile_append dest: set_takeWhileD split: if_splits)

section \<open>Without interleaving\<close>

text \<open>A poll that is not interrupted is \<^const>\<open>poll_history_once\<close>.\<close>

lemma poll_alone:
  assumes "cache_lock a = Free"
  shows "(let (a1, t1) = poller_runs cfg kube loads a (Listing e); (a2, t2) = (if t1 = Clearing e then poller_runs cfg kube' loads a1 t1 else (a1, t1))
      in (service a2, t2)) = (fst (poll_history_once cfg kube loads (service a)), AtWait e)"
  using assms by (auto simp: poll_history_once_def set_history_def split: sum.splits prod.splits)

text \<open>The steps of a request, one after the other.\<close>

definition request_alone ::
  "settings \<Rightarrow> kubernetes \<Rightarrow> (string \<Rightarrow> json option) \<Rightarrow> int \<Rightarrow> int \<Rightarrow> int \<Rightarrow> snapshot_request \<Rightarrow> live_showcase \<Rightarrow> live_showcase" where
  "request_alone cfg kube loads t2 t3 t4 r a =
     (let a = take_lock cfg t2 r a;
          a = (case cache_lock a of Building key \<Rightarrow> build_locked cfg kube loads t3 key a | _ \<Rightarrow> a)
      in case cache_lock a of Built key payload \<Rightarrow> store_locked t4 key payload a | _ \<Rightarrow> a)"

text \<open>Taking the lock, building the snapshot and storing it, with nothing in between, is what
  \<open>service_get_snapshot\<close> does in one go once its first look at the cache has found nothing.\<close>

theorem steps_refine_get_snapshot:
  assumes "cache_lock a = Free" "force_refresh r \<or> cached_answer cfg seen (cache_key cfg r) t1 = None"
  shows "service (request_alone cfg kube loads t2 t3 t4 r a) = fst (service_get_snapshot cfg kube loads (t1, t2, t3, t4) seen (service a) r)
    \<and> cache_lock (request_alone cfg kube loads t2 t3 t4 r a) = Free"
  using assms
  by (auto simp: request_alone_def take_lock_def build_locked_def store_locked_def service_get_snapshot_def set_history_def Let_def
        split: option.splits prod.splits sum.splits)

theorem steps_refine_get_snapshot_witness:
  "cache_lock (request_alone example_settings (gateway example_cluster False) (\<lambda>_. None) 0 0 1 example_request (new_showcase Absent)) = Free
   \<and> cached_answer example_settings example_showcase (cache_key example_settings example_request) 0 = None"
proof -
  have c: "cached_answer example_settings example_showcase (cache_key example_settings example_request) 0 = None"
    by (simp add: cached_answer_def example_showcase_def)
  moreover have "cache_lock (new_showcase Absent) = Free" by (simp add: new_showcase_def)
  ultimately show ?thesis
    using steps_refine_get_snapshot [of "new_showcase Absent" example_request example_settings example_showcase 0
        "gateway example_cluster False" "\<lambda>_. None" 0 0 1] by blast
qed

section \<open>The history stays within its limit\<close>

lemma poll_scalers_within:
  "0 \<le> loop_history_limit cfg \<Longrightarrow> history_within (loop_history_limit cfg) f
    \<Longrightarrow> history_within (loop_history_limit cfg) (fst (poll_scalers cfg loads f changed items))"
proof (induction items arbitrary: f changed)
  case (Cons scaler items)
  have "history_within (loop_history_limit cfg) f'" if "poll_scaler cfg loads f scaler = Inr (f', c)" for f' c
    using that Cons.prems by (auto simp: poll_scaler_def res_bind_Inr_iff intro: sync_within)
  with Cons show ?case by (auto split: sum.splits prod.splits)
qed simp

lemma build_snapshot_within:
  assumes "0 \<le> loop_history_limit cfg" "history_within (loop_history_limit cfg) f"
  shows "history_within (loop_history_limit cfg) (fst (build_snapshot cfg kube loads now f ns name page per_page))"
proof -
  have "history_within (loop_history_limit cfg) (fst (active_snapshot cfg kube loads now f available errs scaler page per_page))"
    for available errs scaler
    unfolding active_snapshot_def using assms
    by (auto simp: res_bind_Inr_iff Let_def case_prod_beta split: sum.split intro: sync_within)
  with assms show ?thesis by (auto simp: build_snapshot_def split: prod.split sum.split option.split)
qed

lemma history_within_step:
  assumes "showcase_step cfg loads a l a'" "0 \<le> loop_history_limit cfg" "history_within (loop_history_limit cfg) (history (service a))"
  shows "history_within (loop_history_limit cfg) (history (service a'))"
  using assms(1)
proof cases
  case (task i kube)
  obtain a1 t where r: "poller_runs cfg kube loads a (poller_tasks a ! i) = (a1, t)" by (cases "poller_runs cfg kube loads a (poller_tasks a ! i)")
  have "history (service a1) \<in> {history (service a)} \<union> range (\<lambda>items. fst (poll_scalers cfg loads (history (service a)) False items))"
    using r by (cases "poller_tasks a ! i"; auto simp: set_history_def image_iff split: sum.splits prod.splits if_splits)
       (metis fst_conv)+
  with assms(3) poll_scalers_within [OF assms(2,3)] have "history_within (loop_history_limit cfg) (history (service a1))" by auto
  with task r show ?thesis by (simp add: run_task_def)
next
  case (built key kube t3)
  obtain ns name page per_page where "key = (ns, name, page, per_page)" by (cases key)
  with built have "history (service a') = fst (build_snapshot cfg kube loads t3 (history (service a)) ns name page per_page)"
    by (auto simp: build_locked_def set_history_def split: prod.splits sum.splits)
  with build_snapshot_within [OF assms(2,3)] show ?thesis by simp
qed (use assms(3) in \<open>auto simp: startup_def start_background_poller_def shutdown_def request_stop_def
    shut_down_def forget_poller_def take_lock_def store_locked_def split: option.splits\<close>)

section \<open>A concrete run\<close>

lemma run_of_task:
  assumes "showcase_run cfg loads f ls a" "i < length (poller_tasks a)"
    "task_label (poller_tasks a ! i) (poller_tasks (run_task cfg kube loads i a) ! i) = l"
  shows "showcase_run cfg loads f (ls @ [l]) (run_task cfg kube loads i a)"
  unfolding assms(3) [symmetric] by (rule showcase_run.step [OF assms(1) showcase_step.task [OF assms(2) refl]])

abbreviation (input) example_task :: "live_showcase \<Rightarrow> live_showcase" where
  "example_task \<equiv> run_task example_settings (gateway example_cluster False) (\<lambda>_. None) 0"

definition example_started :: live_showcase where
  "example_started = example_task (example_task (startup (new_showcase Absent)))"

definition example_polled :: live_showcase where
  "example_polled = example_task (example_task example_started)"

lemma example_started_run: "showcase_run example_settings (\<lambda>_. None) Absent [Quiet, Quiet, Quiet] example_started"
proof -
  have "showcase_run example_settings (\<lambda>_. None) Absent ([] @ [Quiet]) (startup (new_showcase Absent))"
    by (rule showcase_run.step [OF showcase_run.new showcase_step.startup]) code_simp
  then have "showcase_run example_settings (\<lambda>_. None) Absent [Quiet] (startup (new_showcase Absent))" by simp
  then have "showcase_run example_settings (\<lambda>_. None) Absent ([Quiet] @ [Quiet]) (example_task (startup (new_showcase Absent)))"
    by (rule run_of_task) code_simp+
  then have "showcase_run example_settings (\<lambda>_. None) Absent (([Quiet] @ [Quiet]) @ [Quiet]) example_started"
    unfolding example_started_def by (rule run_of_task) code_simp+
  then show ?thesis by simp
qed

lemma example_polled_run: "showcase_run example_settings (\<lambda>_. None) Absent [Quiet, Quiet, Quiet, PollChanged, Quiet] example_polled"
proof -
  have "showcase_run example_settings (\<lambda>_. None) Absent ([Quiet, Quiet, Quiet] @ [PollChanged]) (example_task example_started)"
    by (rule run_of_task [OF example_started_run]) code_simp+
  then have "showcase_run example_settings (\<lambda>_. None) Absent (([Quiet, Quiet, Quiet] @ [PollChanged]) @ [Quiet]) example_polled"
    unfolding example_polled_def by (rule run_of_task) code_simp+
  then show ?thesis by simp
qed

lemma example_serving: "lifespan example_polled = Serving"
  by code_simp

definition example_built :: live_showcase where
  "example_built = build_locked example_settings (gateway example_cluster False) (\<lambda>_. None) 0 (cache_key example_settings example_request)
     (take_lock example_settings 0 example_request example_polled)"

lemma example_stored_run:
  obtains key payload where
    "showcase_run example_settings (\<lambda>_. None) Absent ([Quiet, Quiet, Quiet] @ PollChanged # [Quiet, Quiet, SnapshotBuilt key payload, Quiet])
      (store_locked 1 key payload example_built)"
    "poller_tasks (store_locked 1 key payload example_built) = [AtWait 0]"
    "(key, 1, payload) \<in> set (cache (service (store_locked 1 key payload example_built)))"
proof -
  let ?ls = "[Quiet, Quiet, Quiet, PollChanged, Quiet]" and ?run = "showcase_run example_settings (\<lambda>_. None) Absent"
  have "(case cache_lock example_built of Built key payload \<Rightarrow> True | _ \<Rightarrow> False)" by code_simp
  then obtain key payload where built: "cache_lock example_built = Built key payload" by (auto split: cache_lock.splits)
  have free: "cache_lock example_polled = Free" by code_simp
  have key: "cache_lock (take_lock example_settings 0 example_request example_polled)
      = Building (cache_key example_settings example_request)" by code_simp
  have "?run (?ls @ [Quiet]) (take_lock example_settings 0 example_request example_polled)"
    by (rule showcase_run.step [OF example_polled_run showcase_step.locked [OF free]])
  then have "?run ((?ls @ [Quiet]) @ [build_label (cache_lock example_built)]) example_built"
    by (rule showcase_run.step) (rule showcase_step.built [OF key example_built_def])
  then have "?run (((?ls @ [Quiet]) @ [SnapshotBuilt key payload]) @ [Quiet]) (store_locked 1 key payload example_built)"
    unfolding built build_label_def cache_lock.case
    by (rule showcase_run.step) (rule showcase_step.stored [OF built])
  moreover have "poller_tasks example_built = [AtWait 0]" by code_simp
  ultimately show ?thesis
    by (intro that [of key payload]) (auto simp: store_locked_def update_conv' intro!: map_of_SomeD)
qed

section \<open>Properties\<close>

text \<open>How many steps a poller task may still take once its stop event is set.\<close>

fun poll_rank :: "poll_task \<Rightarrow> nat" where
  "poll_rank Ended = 0"
| "poll_rank (AtLoop e) = 1"
| "poll_rank Created = 2"
| "poll_rank (AtWait e) = 2"
| "poll_rank (Clearing e) = 3"
| "poll_rank (Listing e) = 4"

lemma poll_rank_less:
  assumes "poller_runs cfg kube loads a t = (a', t')" "t \<noteq> Ended" "cache_lock a = Free"
    "event_of t \<in> {None, Some i}" "poller_stop a = Some i" "stop_events a ! i"
  shows "poll_rank t' < poll_rank t"
  using assms by (cases t; auto split: sum.splits prod.splits if_splits)

lemma run_task_stopping:
  fixes cfg kube loads
  assumes "poller_wf a" "lifespan a = Stopping" "cache_lock a = Free" "poller_task a = Some i"
  defines "b \<equiv> run_task cfg kube loads i a"
  shows "poller_wf b" "lifespan b = Stopping" "cache_lock b = Free" "poller_task b = Some i"
    "poll_rank (poller_tasks b ! i) \<le> poll_rank (poller_tasks a ! i) - 1"
proof -
  have i: "i < length (poller_tasks a)" "i = length (poller_tasks a) - 1" "poller_stop a = Some i" "poller_tasks a \<noteq> []"
    "event_of (poller_tasks a ! i) \<in> {None, Some i}" "last (stop_events a)" "length (stop_events a) = length (poller_tasks a)"
    using assms(1,2,4) by (auto simp: poller_wf_def last_conv_nth)
  then have set: "stop_events a ! i" by (metis last_conv_nth length_0_conv)
  obtain a' t where r: "poller_runs cfg kube loads a (poller_tasks a ! i) = (a', t)" by (cases "poller_runs cfg kube loads a (poller_tasks a ! i)")
  have b: "b = a'\<lparr>poller_tasks := (poller_tasks a)[i := t]\<rparr>" by (simp add: b_def run_task_def r)
  show "poller_wf b" unfolding b_def by (rule poller_wf_task [OF assms(1) i(1)])
  show "lifespan b = Stopping" "cache_lock b = Free" "poller_task b = Some i"
    using poller_runs_keeps [OF r] assms(2-4) by (simp_all add: b)
  show "poll_rank (poller_tasks b ! i) \<le> poll_rank (poller_tasks a ! i) - 1"
  proof (cases "poller_tasks a ! i = Ended")
    case True
    then show ?thesis using poller_runs_task(1) [OF r] i(1) by (simp add: b)
  next
    case False
    from poll_rank_less [OF r False assms(3) i(5,3) set] i(1) show ?thesis by (simp add: b)
  qed
qed

lemma stopping_ends:
  "poller_wf a \<Longrightarrow> lifespan a = Stopping \<Longrightarrow> cache_lock a = Free \<Longrightarrow> poller_task a = Some i \<Longrightarrow> poll_rank (poller_tasks a ! i) \<le> length kubes
    \<Longrightarrow> poller_awaited (fold (\<lambda>kube. run_task cfg kube loads i) kubes a)"
proof (induction kubes arbitrary: a)
  case Nil
  then have "poll_rank (poller_tasks a ! i) = 0" by simp
  then have "poller_tasks a ! i = Ended" by (cases "poller_tasks a ! i") simp_all
  with Nil show ?case by (simp add: poller_awaited_def)
next
  case (Cons kube kubes)
  note b = run_task_stopping [OF Cons.prems(1-4), of cfg kube loads]
  from b(5) Cons.prems(5) have "poll_rank (poller_tasks (run_task cfg kube loads i a) ! i) \<le> length kubes" by simp
  from Cons.IH [OF b(1-4) this] show ?case by simp
qed

text \<open>C21: however the poller, the requests and the lifespan interleave, and however often the
  application is started and stopped, no two poller tasks run at once: while it serves exactly the
  last one made is running, and when it is down none is.\<close>

theorem one_poller_at_a_time:
  assumes "showcase_run cfg loads f ls a"
  shows "(lifespan a = Serving \<longrightarrow> (\<exists>ts t. poller_tasks a = ts @ [t] \<and> t \<noteq> Ended \<and> (\<forall>t' \<in> set ts. t' = Ended)))
     \<and> (lifespan a = Down \<longrightarrow> (\<forall>t \<in> set (poller_tasks a). t = Ended))
     \<and> (\<forall>i < length (poller_tasks a). \<forall>j < length (poller_tasks a). poller_tasks a ! i \<noteq> Ended \<and> poller_tasks a ! j \<noteq> Ended \<longrightarrow> i = j)"
proof -
  have wf: "poller_wf a" by (rule poller_wf_run [OF assms])
  have "\<exists>t. poller_tasks a = butlast (poller_tasks a) @ [t] \<and> (lifespan a = Serving \<longrightarrow> t \<noteq> Ended)" if "lifespan a \<noteq> Down"
    using wf that by (intro exI [of _ "last (poller_tasks a)"]) (auto simp: poller_wf_def split: lifespan.splits)
  then have parts: "\<exists>ts t. poller_tasks a = ts @ [t] \<and> (lifespan a = Serving \<longrightarrow> t \<noteq> Ended) \<and> (\<forall>t' \<in> set ts. t' = Ended)"
    if "lifespan a \<noteq> Down"
    using wf that by (auto simp: poller_wf_def split: lifespan.splits)
  have "i = j" if "i < length (poller_tasks a)" "j < length (poller_tasks a)" "poller_tasks a ! i \<noteq> Ended" "poller_tasks a ! j \<noteq> Ended" for i j
  proof -
    have "lifespan a \<noteq> Down" using wf that by (auto simp: poller_wf_def)
    with parts obtain ts t where ts: "poller_tasks a = ts @ [t]" "\<forall>t' \<in> set ts. t' = Ended" by blast
    have "k = length ts" if "k < length (poller_tasks a)" "poller_tasks a ! k \<noteq> Ended" for k
      using that ts by (cases "k < length ts") (auto simp: nth_append)
    with that show ?thesis by blast
  qed
  moreover have "\<forall>t \<in> set (poller_tasks a). t = Ended" if "lifespan a = Down" using wf that by (simp add: poller_wf_def)
  moreover have "\<exists>ts t. poller_tasks a = ts @ [t] \<and> t \<noteq> Ended \<and> (\<forall>t' \<in> set ts. t' = Ended)" if "lifespan a = Serving"
    using parts that by auto
  ultimately show ?thesis by blast
qed

theorem one_poller_at_a_time_witness:
  "lifespan example_polled = Serving \<and> (\<exists>ts t. poller_tasks example_polled = ts @ [t] \<and> t \<noteq> Ended \<and> (\<forall>t' \<in> set ts. t' = Ended))"
  using one_poller_at_a_time [OF example_polled_run] example_serving by blast

text \<open>C20: once a poll has changed the history and has cleared the cache, no snapshot that was built
  before the change is in the cache again, although requests build and store theirs at the same
  time.\<close>

theorem cache_follows_polls:
  assumes "showcase_run cfg loads f (ls @ PollChanged # ls') a" "\<forall>e. Clearing e \<notin> set (poller_tasks a)"
    "(key, t, payload) \<in> set (cache (service a))"
  shows "SnapshotBuilt key payload \<in> set ls'"
proof -
  have "\<forall>t \<in> set (poller_tasks a). \<not> clearing t" using assms(2) by (auto simp: clearing_def)
  with cache_fresh_run [OF assms(1)] assms(3) have "built_since (ls @ PollChanged # ls') key payload"
    unfolding cache_fresh_def by blast
  then show ?thesis by (rule built_since_last)
qed

theorem cache_follows_polls_witness:
  "\<exists>ls ls' a key t payload. showcase_run example_settings (\<lambda>_. None) Absent (ls @ PollChanged # ls') a
     \<and> (key, t, payload) \<in> set (cache (service a)) \<and> SnapshotBuilt key payload \<in> set ls'"
proof (rule example_stored_run)
  fix key payload
  let ?a = "store_locked 1 key payload example_built"
  assume run: "showcase_run example_settings (\<lambda>_. None) Absent ([Quiet, Quiet, Quiet] @ PollChanged # [Quiet, Quiet, SnapshotBuilt key payload, Quiet]) ?a"
    and tasks: "poller_tasks ?a = [AtWait 0]" and entry: "(key, 1, payload) \<in> set (cache (service ?a))"
  have "\<forall>e. Clearing e \<notin> set (poller_tasks ?a)" by (simp add: tasks)
  from run entry cache_follows_polls [OF run this entry] show ?thesis by blast
qed

text \<open>The shutdown returns: when its stop event is set and no request holds the cache lock, four
  steps of the poller are enough, whatever Kubernetes answers to it meanwhile.\<close>

theorem shutdown_ends_poller:
  assumes "showcase_run cfg loads f ls a" "lifespan a = Stopping" "cache_lock a = Free" "4 \<le> length kubes"
  shows "\<exists>i. poller_task a = Some i \<and> poller_awaited (fold (\<lambda>kube. run_task cfg kube loads i) kubes a)"
proof -
  have wf: "poller_wf a" by (rule poller_wf_run [OF assms(1)])
  then obtain i where i: "poller_task a = Some i" using assms(2) by (simp add: poller_wf_def)
  have "poll_rank t \<le> 4" for t by (cases t) simp_all
  with assms(4) have "poll_rank (poller_tasks a ! i) \<le> length kubes" by (meson le_trans)
  with stopping_ends [OF wf assms(2,3) i] i show ?thesis by blast
qed

theorem shutdown_ends_poller_witness:
  "\<exists>i. poller_task (shutdown example_polled) = Some i \<and> poller_awaited (fold (\<lambda>kube. run_task example_settings kube (\<lambda>_. None) i)
     (replicate 4 (gateway example_cluster False)) (shutdown example_polled))"
proof -
  have "lifespan example_polled = Serving" by (rule example_serving)
  then have "showcase_run example_settings (\<lambda>_. None) Absent ([Quiet, Quiet, Quiet, PollChanged, Quiet] @ [Quiet]) (shutdown example_polled)"
    by (rule showcase_run.step [OF example_polled_run showcase_step.shutdown])
  then show ?thesis by (rule shutdown_ends_poller) (simp add: shutdown_def, code_simp, simp)
qed

text \<open>Whatever the poller and the requests do and however they interleave, no list of the loop
  history ever grows past the limit.\<close>

theorem history_stays_within:
  assumes "showcase_run cfg loads f ls a" "0 \<le> loop_history_limit cfg" "history_within (loop_history_limit cfg) f"
  shows "history_within (loop_history_limit cfg) (history (service a))"
  using assms(1)
proof induction
  case new
  show ?case using assms(3) by (simp add: new_showcase_def)
next
  case (step ls a l a')
  from history_within_step [OF step.hyps(2) assms(2) step.IH] show ?case .
qed

theorem history_stays_within_witness: "history_within 10 (history (service example_polled))"
proof -
  have limit: "loop_history_limit example_settings = 10" by (simp add: example_settings_def)
  have "history_within 10 Absent" by (simp add: history_within_def read_payload_def loops_of_def no_loops_def)
  with history_stays_within [OF example_polled_run] limit show ?thesis by simp
qed

end
