(* ===== verification/Manifest.thy ===== *)
theory Manifest
  imports PyEnv
begin

text \<open>
  Text as the bootstrap scripts take it apart (\<^verbatim>\<open>linux-script/bootstrap-k3s-master.py\<close>): lines,
  words, the documents of a YAML stream and the two fields looked up in them, and the toleration
  added to the template of a helper pod.  The regular expressions are written out as what they
  match.
\<close>

section \<open>Lines and words\<close>

definition newline :: char where
  "newline = CHR 0x0A"

definition join_with :: "string \<Rightarrow> string list \<Rightarrow> string" where
  "join_with sep ds = (case ds of [] \<Rightarrow> [] | e # es \<Rightarrow> e @ concat (map (\<lambda>d. sep @ d) es))"

lemma join_with_simps [simp]:
  "join_with sep [] = []" "join_with sep [d] = d" "join_with sep (d # e # es) = d @ sep @ join_with sep (e # es)"
  by (simp_all add: join_with_def)

lemma join_with_Cons: "ds \<noteq> [] \<Longrightarrow> join_with sep (d # ds) = d @ sep @ join_with sep ds"
  by (cases ds) simp_all

definition join_lines :: "string list \<Rightarrow> string" where
  "join_lines = join_with [newline]"

text \<open>\<^verbatim>\<open>s.splitlines()\<close>: a carriage return before a line feed belongs to the same break.\<close>

definition is_line_break :: "char \<Rightarrow> bool" where
  "is_line_break c = (let n = of_char c :: nat in (10 \<le> n \<and> n \<le> 13) \<or> (28 \<le> n \<and> n \<le> 30) \<or> n = 133)"

fun break_lines :: "string \<Rightarrow> string list" where
  "break_lines [] = []"
| "break_lines (c # s) =
     (if is_line_break c then [] # break_lines s
      else (case break_lines s of [] \<Rightarrow> [[c]] | l # ls \<Rightarrow> (c # l) # ls))"

definition splitlines :: "string \<Rightarrow> string list" where
  "splitlines s = break_lines (str_replace [CHR 0x0D, newline] [newline] s)"

text \<open>\<^verbatim>\<open>s.split()\<close>\<close>

definition split_words :: "string \<Rightarrow> string list" where
  "split_words s = filter (\<lambda>w. w \<noteq> []) (split_char (CHR '' '') (map (\<lambda>c. if is_ws c then CHR '' '' else c) s))"

text \<open>\<^verbatim>\<open>s.replace(old, new, 1)\<close> for a non-empty \<^verbatim>\<open>old\<close>\<close>

fun replace_first :: "string \<Rightarrow> string \<Rightarrow> string \<Rightarrow> string" where
  "replace_first old new [] = []"
| "replace_first old new (x # xs) =
     (if starts_with (x # xs) old then new @ drop (length old) (x # xs) else x # replace_first old new xs)"

lemma replace_first_splits:
  assumes "contains_sub old s" "old \<noteq> []"
  shows "\<exists>a b. s = a @ old @ b \<and> replace_first old new s = a @ new @ b"
  using assms(1)
proof (induction s)
  case Nil
  then show ?case using assms(2) by simp
next
  case (Cons x xs)
  show ?case
  proof (cases "starts_with (x # xs) old")
    case True
    then have "x # xs = [] @ old @ drop (length old) (x # xs)"
      unfolding starts_with_def by (metis append_Nil append_take_drop_id)
    with True show ?thesis by (metis append_Nil replace_first.simps(2))
  next
    case False
    with Cons.prems have "contains_sub old xs" by simp
    then obtain a b where "xs = a @ old @ b \<and> replace_first old new xs = a @ new @ b" using Cons.IH by blast
    with False have "x # xs = (x # a) @ old @ b \<and> replace_first old new (x # xs) = (x # a) @ new @ b"
      by (metis append_Cons replace_first.simps(2))
    then show ?thesis by blast
  qed
qed

lemma split_char_append: "split_char c (a @ c # b) = split_char c a @ split_char c b"
  by (induction a) (auto simp: split_char_nonempty split: list.split)

lemma split_char_absent: "c \<notin> set s \<Longrightarrow> split_char c s = [s]"
  by (induction s) auto

lemma split_char_pieces: "l \<in> set (split_char c s) \<Longrightarrow> c \<notin> set l"
  by (induction s arbitrary: l) (auto split: if_splits list.splits)

lemma join_split: "join_with [c] (split_char c s) = s"
proof (induction s)
  case (Cons x xs)
  then show ?case using split_char_nonempty [of c xs] by (cases "split_char c xs") (auto simp: join_with_def)
qed simp

lemma split_join_lines:
  assumes "ls \<noteq> []" "\<forall>l \<in> set ls. newline \<notin> set l"
  shows "split_char newline (join_lines ls) = ls"
  using assms unfolding join_lines_def
proof (induction ls)
  case (Cons d ds)
  show ?case
  proof (cases ds)
    case (Cons e es)
    with Cons.IH Cons.prems have "split_char newline (d @ newline # join_with [newline] ds) = [d] @ ds"
      by (simp only: split_char_append) (simp add: split_char_absent)
    with Cons show ?thesis by simp
  qed (use Cons.prems in \<open>simp add: split_char_absent\<close>)
qed simp

section \<open>Documents\<close>

text \<open>
  \<^verbatim>\<open>re.split(r"(?m)^---\s*$", text)\<close>: three dashes at the start of a line and nothing but white
  space after them.  What the white space takes of the following lines is stripped from the
  document anyway.
\<close>

definition is_separator :: "string \<Rightarrow> bool" where
  "is_separator l \<longleftrightarrow> starts_with l ''---'' \<and> list_all is_ws (drop 3 l)"

fun split_separated :: "string list \<Rightarrow> string list list" where
  "split_separated [] = [[]]"
| "split_separated (l # ls) =
     (if is_separator l then [] # split_separated ls
      else (case split_separated ls of [] \<Rightarrow> [[l]] | g # gs \<Rightarrow> (l # g) # gs))"

definition split_yaml_documents :: "string \<Rightarrow> string list" where
  "split_yaml_documents s =
     filter (\<lambda>d. d \<noteq> []) (map (\<lambda>g. strip (join_lines g)) (split_separated (split_char newline s)))"

text \<open>
  \<^verbatim>\<open>re.search(r"(?m)^<key>\s*(.+?)\s*$", document)\<close>, its group stripped: white space after the key
  may go over to the next lines, the value ends with its line.
\<close>

definition value_after :: "string \<Rightarrow> string option" where
  "value_after s = (let v = dropWhile is_ws s in
     if v \<noteq> [] then Some (rstrip_if is_ws (takeWhile (\<lambda>c. c \<noteq> newline) v))
     else if list_ex (\<lambda>c. c \<noteq> newline) s then Some [] else None)"

fun search_field :: "string \<Rightarrow> bool \<Rightarrow> string \<Rightarrow> string option" where
  "search_field key line_start [] = None"
| "search_field key line_start (c # s) =
     (case (if line_start \<and> starts_with (c # s) key then value_after (drop (length key) (c # s)) else None) of
        Some v \<Rightarrow> Some v
      | None \<Rightarrow> search_field key (c = newline) s)"

definition extract_kind_and_name :: "string \<Rightarrow> string option \<times> string option" where
  "extract_kind_and_name document = (search_field ''kind:'' True document, search_field ''  name:'' True document)"

text \<open>The documents of the bundle that are applied: not the two the script makes itself.\<close>

definition wanted_document :: "string \<Rightarrow> bool" where
  "wanted_document document = (case extract_kind_and_name document of
     (kind, name) \<Rightarrow> \<not> (kind \<in> {Some ''ConfigMap'', Some ''Secret''}
       \<and> name \<in> {Some ''custom-scaler-vm-job-config'', Some ''custom-scaler-vm-job-secret''}))"

definition filter_bundle :: "string \<Rightarrow> string" where
  "filter_bundle manifest =
     (let docs = filter wanted_document (split_yaml_documents manifest) in
      if docs = [] then [] else join_with (newline # ''---'' @ [newline]) docs @ [newline])"

section \<open>The helper pod\<close>

definition infra_toleration :: string where
  "infra_toleration = join_lines
     [''          tolerations:'', ''            - key: role'', ''              operator: Equal'',
      ''              value: infra'', ''              effect: NoSchedule'', []]"

definition infra_snippet :: string where
  "infra_snippet = join_lines
     [[], ''            - key: role'', ''              operator: Equal'', ''              value: infra'',
      ''              effect: NoSchedule'']"

definition toleration_marker :: string where
  "toleration_marker = ''          tolerations:''"

definition spec_marker :: string where
  "spec_marker = ''        spec:'' @ [newline]"

definition patch_helper :: "string \<Rightarrow> string" where
  "patch_helper helper =
     (if contains_sub ''key: role'' helper then helper
      else if contains_sub toleration_marker helper
        then replace_first toleration_marker (toleration_marker @ infra_snippet) helper
      else if contains_sub spec_marker helper
        then replace_first spec_marker (spec_marker @ infra_toleration) helper
      else helper)"

section \<open>The bundle splits into the wanted documents\<close>

lemma strip_splits: "\<exists>u v. s = u @ strip s @ v \<and> list_all is_ws u \<and> list_all is_ws v"
proof -
  obtain v where v: "dropWhile is_ws s = strip s @ v"
    using rstrip_if_prefix [of is_ws "dropWhile is_ws s"] by (auto simp: strip_def prefix_def)
  have "list_all is_ws v"
  proof -
    have "v = rev (takeWhile is_ws (rev (dropWhile is_ws s)))"
      using v unfolding strip_def rstrip_if_def
      by (metis append_eq_append_conv2 append_same_eq rev_append rev_rev_ident takeWhile_dropWhile_id)
    then show ?thesis by (auto simp: list_all_iff dest: set_takeWhileD)
  qed
  moreover have "s = takeWhile is_ws s @ strip s @ v" by (metis v takeWhile_dropWhile_id)
  ultimately show ?thesis by (metis list_all_iff set_takeWhileD)
qed

lemma strip_ends: "strip s \<noteq> [] \<Longrightarrow> \<not> is_ws (hd (strip s)) \<and> \<not> is_ws (last (strip s))"
proof -
  assume ne: "strip s \<noteq> []"
  obtain v where "dropWhile is_ws s = strip s @ v"
    using rstrip_if_prefix [of is_ws "dropWhile is_ws s"] by (auto simp: strip_def prefix_def)
  with ne have "hd (strip s) = hd (dropWhile is_ws s)" "dropWhile is_ws s \<noteq> []" by auto
  with ne show ?thesis using hd_dropWhile rstrip_if_last unfolding strip_def by metis
qed

lemma strip_between:
  assumes "d \<noteq> []" "\<not> is_ws (hd d)" "\<not> is_ws (last d)" "list_all is_ws v"
  shows "strip (d @ v) = d"
proof -
  have "dropWhile is_ws (d @ v) = d @ v" using assms(1,2) by (cases d) auto
  moreover have "dropWhile is_ws (rev v @ rev d) = dropWhile is_ws (rev d)"
    using assms(4) by (intro dropWhile_append2) (auto simp: list_all_iff)
  moreover have "dropWhile is_ws (rev d) = rev d" using assms(1,3) by (cases d rule: rev_cases) auto
  ultimately show ?thesis by (simp add: strip_def rstrip_if_def)
qed

lemma strip_Nil [simp]: "strip [] = []"
  by (simp add: strip_def rstrip_if_def)

lemma strip_strip [simp]: "strip (strip s) = strip s"
  using strip_ends [of s] strip_between [of "strip s" "[]"] by (cases "strip s = []") auto

lemma join_with_middle:
  "join_with [c] (pre @ l # post) = concat (map (\<lambda>d. d @ [c]) pre) @ l @ concat (map ((#) c) post)"
proof (induction pre)
  case Nil
  show ?case by (induction post arbitrary: l) auto
next
  case (Cons p pre)
  then show ?case by (simp add: join_with_Cons)
qed

text \<open>The lines of a text are its stretches without a newline between newlines and ends.\<close>

lemma line_iff:
  "l \<in> set (split_char c s) \<longleftrightarrow>
     (\<exists>a b. s = a @ l @ b \<and> c \<notin> set l \<and> (a = [] \<or> last a = c) \<and> (b = [] \<or> hd b = c))" (is "?L \<longleftrightarrow> ?R")
proof
  assume ?L
  then obtain pre post where p: "split_char c s = pre @ l # post" by (meson split_list)
  then have "s = concat (map (\<lambda>d. d @ [c]) pre) @ l @ concat (map ((#) c) post)"
    using join_split [of c s] by (simp add: join_with_middle)
  moreover have "concat (map (\<lambda>d. d @ [c]) pre) = [] \<or> last (concat (map (\<lambda>d. d @ [c]) pre)) = c"
    by (cases pre rule: rev_cases) auto
  moreover have "concat (map ((#) c) post) = [] \<or> hd (concat (map ((#) c) post)) = c" by (cases post) auto
  ultimately show ?R using split_char_pieces [OF \<open>?L\<close>] by blast
next
  assume ?R
  then obtain a b where s: "s = a @ l @ b" and l: "c \<notin> set l" and a: "a = [] \<or> last a = c" and b: "b = [] \<or> hd b = c"
    by blast
  from b have "l \<in> set (split_char c (l @ b))"
    using l by (cases b) (auto simp: split_char_absent split_char_append)
  moreover from a have "a = [] \<or> (\<exists>a'. a = a' @ [c])" by (metis append_butlast_last_id)
  ultimately show ?L unfolding s by (auto simp: split_char_append)
qed

lemma separator_extends:
  assumes "is_separator l" "list_all is_ws u" "list_all is_ws v"
  shows "is_separator (dropWhile is_ws (u @ l @ v))"
proof -
  obtain r where l: "l = ''---'' @ r" "list_all is_ws r"
    using assms(1) unfolding is_separator_def starts_with_def by (metis append_take_drop_id length_Cons list.size(3) numeral_3_eq_3)
  have "dropWhile is_ws (u @ l @ v) = l @ v"
    using assms(2) l(1) by (auto simp: list_all_iff is_ws_def)
  with l assms(3) show ?thesis by (auto simp: is_separator_def starts_with_def list_all_iff)
qed

lemma last_line: "\<exists>u1 u2. u = u1 @ u2 \<and> c \<notin> set u2 \<and> (u1 = [] \<or> last u1 = c)"
proof (cases "c \<in> set u")
  case True
  then obtain ys zs where "u = ys @ c # zs" "c \<notin> set zs" by (meson split_list_last)
  then have "u = (ys @ [c]) @ zs \<and> c \<notin> set zs \<and> (ys @ [c] = [] \<or> last (ys @ [c]) = c)" by simp
  then show ?thesis by blast
qed (intro exI [of _ "[]"] exI [of _ u], simp)

lemma first_line: "\<exists>v1 v2. v = v1 @ v2 \<and> c \<notin> set v1 \<and> (v2 = [] \<or> hd v2 = c)"
proof (cases "c \<in> set v")
  case True
  then obtain ys zs where "v = ys @ c # zs" "c \<notin> set ys" by (meson split_list_first)
  then show ?thesis by (metis list.sel(1))
qed (intro exI [of _ v] exI [of _ "[]"], simp)

text \<open>Stripping makes no separator where no separator was indented.\<close>

lemma strip_separators:
  assumes plain: "\<forall>l \<in> set (split_char newline d). \<not> is_separator (dropWhile is_ws l)"
  shows "\<forall>l \<in> set (split_char newline (strip d)). \<not> is_separator l"
proof
  fix l assume "l \<in> set (split_char newline (strip d))"
  then obtain a b where ab: "strip d = a @ l @ b" and l: "newline \<notin> set l"
    and a: "a = [] \<or> last a = newline" and b: "b = [] \<or> hd b = newline"
    by (auto simp: line_iff)
  obtain u v where d: "d = u @ strip d @ v" and ws: "list_all is_ws u" "list_all is_ws v"
    using strip_splits [of d] by (elim exE conjE)
  obtain u1 u2 where u: "u = u1 @ u2" "newline \<notin> set u2" "u1 = [] \<or> last u1 = newline"
    using last_line [of u newline] by (elim exE conjE)
  obtain v1 v2 where v: "v = v1 @ v2" "newline \<notin> set v1" "v2 = [] \<or> hd v2 = newline"
    using first_line [of v newline] by (elim exE conjE)
  define before where "before = (if a = [] then u2 else [])"
  define behind where "behind = (if b = [] then v1 else [])"
  have "d = (if a = [] then u1 else u @ a) @ (before @ l @ behind) @ (if b = [] then v2 else b @ v)"
    using d ab u(1) v(1) by (simp add: before_def behind_def)
  moreover have "(if a = [] then u1 else u @ a) = [] \<or> last (if a = [] then u1 else u @ a) = newline" using a u(3) by auto
  moreover have "(if b = [] then v2 else b @ v) = [] \<or> hd (if b = [] then v2 else b @ v) = newline" using b v(3) by auto
  moreover have "newline \<notin> set (before @ l @ behind)" using l u(2) v(2) by (auto simp: before_def behind_def)
  ultimately have "before @ l @ behind \<in> set (split_char newline d)"
    unfolding line_iff by (intro exI conjI)
  then have "\<not> is_separator (dropWhile is_ws (before @ l @ behind))" by (rule plain [rule_format])
  moreover have "list_all is_ws before" "list_all is_ws behind" using ws u(1) v(1) by (auto simp: before_def behind_def)
  ultimately show "\<not> is_separator l" using separator_extends by metis
qed

lemma separated_groups:
  "\<forall>g \<in> set (split_separated ls). set g \<subseteq> set ls \<and> (\<forall>l \<in> set g. \<not> is_separator l)"
proof (induction ls)
  case (Cons l ls)
  then show ?case by (cases "split_separated ls") auto
qed simp

lemma split_separated_append:
  "\<forall>l \<in> set ls. \<not> is_separator l \<Longrightarrow> split_separated (ls @ rest) = (case split_separated rest of g # gs \<Rightarrow> (ls @ g) # gs | [] \<Rightarrow> [ls])"
proof (induction ls)
  case Nil
  have "split_separated rest \<noteq> []" by (cases rest) (auto split: list.split)
  then show ?case by (cases "split_separated rest") auto
qed (auto split: list.split)

lemma dashes_separator [simp]: "is_separator ''---''" "\<not> is_separator []"
  by (simp_all add: is_separator_def starts_with_def)

definition plain_document :: "string \<Rightarrow> bool" where
  "plain_document d \<longleftrightarrow> d \<noteq> [] \<and> strip d = d \<and> (\<forall>l \<in> set (split_char newline d). \<not> is_separator l)"

lemma split_joined_documents:
  assumes "ds \<noteq> []" "\<forall>d \<in> set ds. plain_document d"
  shows "split_yaml_documents (join_with (newline # ''---'' @ [newline]) ds @ [newline]) = ds"
  using assms
proof (induction ds)
  case (Cons d ds)
  then have d: "d \<noteq> []" "strip d = d" and lines: "\<forall>l \<in> set (split_char newline d). \<not> is_separator l"
    by (auto simp: plain_document_def)
  from d have strip_d: "strip (d @ [newline]) = d"
    using strip_ends [of d] by (intro strip_between) (auto simp: is_ws_def newline_def)
  show ?case
  proof (cases ds)
    case Nil
    have "split_separated (split_char newline (d @ [newline])) = [split_char newline (d @ [newline])]"
      using lines by (simp add: split_char_append [of newline d "[]", simplified] split_separated_append)
    with Nil d strip_d show ?thesis
      by (simp add: split_yaml_documents_def join_lines_def join_split)
  next
    case (Cons e es)
    define rest where "rest = join_with (newline # ''---'' @ [newline]) ds @ [newline]"
    have "join_with (newline # ''---'' @ [newline]) (d # ds) @ [newline] = d @ newline # ''---'' @ newline # rest"
      by (simp add: Cons rest_def)
    moreover have "split_char newline (d @ newline # ''---'' @ newline # rest)
        = split_char newline d @ ''---'' # split_char newline rest"
      by (simp only: split_char_append) (simp add: split_char_absent newline_def)
    moreover have "split_separated (split_char newline d @ ''---'' # split_char newline rest)
        = split_char newline d # split_separated (split_char newline rest)"
      using lines by (simp add: split_separated_append)
    ultimately have "split_yaml_documents (join_with (newline # ''---'' @ [newline]) (d # ds) @ [newline])
        = d # split_yaml_documents rest"
      using d by (simp add: split_yaml_documents_def join_lines_def join_split)
    moreover have "split_yaml_documents rest = ds" using Cons Cons.IH Cons.prems unfolding rest_def by simp
    ultimately show ?thesis by simp
  qed
qed simp

lemma split_documents_plain:
  assumes "\<forall>l \<in> set (split_char newline manifest). is_separator (dropWhile is_ws l) \<longrightarrow> is_separator l"
    and "d \<in> set (split_yaml_documents manifest)"
  shows "plain_document d"
proof -
  from assms(2) obtain g where g: "g \<in> set (split_separated (split_char newline manifest))"
    and d: "d = strip (join_lines g)" "d \<noteq> []"
    unfolding split_yaml_documents_def by auto
  from d have ne: "g \<noteq> []" by (auto simp: join_lines_def strip_def rstrip_if_def)
  from separated_groups g have sub: "set g \<subseteq> set (split_char newline manifest)" and no: "\<forall>l \<in> set g. \<not> is_separator l" by blast+
  have "split_char newline (join_lines g) = g"
    using sub by (intro split_join_lines ne) (auto dest: split_char_pieces)
  with sub no assms(1) have "\<forall>l \<in> set (split_char newline (join_lines g)). \<not> is_separator (dropWhile is_ws l)" by auto
  from strip_separators [OF this] show ?thesis using d by (simp add: plain_document_def)
qed

text \<open>C27: what the script applies is the bundle without the two objects it makes itself: taken
  apart again, the filtered bundle has exactly the other documents, in their order, provided no line of the
  bundle is an indented separator.\<close>

theorem bundle_keeps_documents:
  assumes "\<forall>l \<in> set (split_char newline manifest). is_separator (dropWhile is_ws l) \<longrightarrow> is_separator l"
  shows "split_yaml_documents (filter_bundle manifest) = filter wanted_document (split_yaml_documents manifest)"
proof (cases "filter wanted_document (split_yaml_documents manifest) = []")
  case True
  then show ?thesis by (simp add: filter_bundle_def split_yaml_documents_def join_lines_def strip_def rstrip_if_def)
next
  case False
  then show ?thesis
    using split_joined_documents [OF False] split_documents_plain [OF assms] by (simp add: filter_bundle_def)
qed

definition example_manifest :: string where
  "example_manifest = join_lines
     [''kind: ConfigMap'', ''metadata:'', ''  name: custom-scaler-vm-job-config'', ''---'', ''kind: Role'', ''metadata:'', ''  name: r'']"

theorem bundle_keeps_documents_witness:
  "split_yaml_documents (filter_bundle example_manifest) = [join_lines [''kind: Role'', ''metadata:'', ''  name: r'']]"
proof -
  have "\<forall>l \<in> set (split_char newline example_manifest). is_separator (dropWhile is_ws l) \<longrightarrow> is_separator l" by code_simp
  moreover have "filter wanted_document (split_yaml_documents example_manifest)
      = [join_lines [''kind: Role'', ''metadata:'', ''  name: r'']]" by code_simp
  ultimately show ?thesis using bundle_keeps_documents [of example_manifest] by simp
qed

section \<open>The helper is patched once\<close>

text \<open>The template of the helper pod is changed at most once: a patched template is left alone, and
  one with a place for it has the toleration afterwards.\<close>

theorem patch_helper_once:
  "patch_helper (patch_helper helper) = patch_helper helper
   \<and> (contains_sub ''key: role'' (patch_helper helper) \<longleftrightarrow>
       contains_sub ''key: role'' helper \<or> contains_sub toleration_marker helper \<or> contains_sub spec_marker helper)"
proof -
  have key: "contains_sub ''key: role'' (replace_first old new s)"
    if "contains_sub ''key: role'' new" "contains_sub old s" "old \<noteq> []" for old new s
  proof -
    from replace_first_splits [OF that(2,3)] obtain a b where "replace_first old new s = a @ new @ b" by blast
    moreover from that(1) obtain x y where "new = x @ ''key: role'' @ y" by (metis contains_sub_iff)
    ultimately have "replace_first old new s = (a @ x) @ ''key: role'' @ (y @ b)" by simp
    then show ?thesis unfolding contains_sub_iff by blast
  qed
  have news: "contains_sub ''key: role'' (toleration_marker @ infra_snippet)" "contains_sub ''key: role'' (spec_marker @ infra_toleration)"
    by code_simp+
  have markers: "toleration_marker \<noteq> []" "spec_marker \<noteq> []" by code_simp+
  show ?thesis
    using key [OF news(1) _ markers(1)] key [OF news(2) _ markers(2)]
    unfolding patch_helper_def by (auto simp del: contains_sub.simps)
qed

end
