(* ===== verification/LoadTestStore.thy ===== *)
theory LoadTestStore
  imports LoopHistory Manifest
begin

text \<open>
  \<^verbatim>\<open>system-showcase/app/load_test_store.py\<close>: the uploaded script and the metadata of a load
  test, each in a JSON file of its own that is written as a whole.
\<close>

record load_test_store =
  script_file :: history_file
  metadata_file :: history_file

text \<open>\<^verbatim>\<open>_read_json\<close>: \<^verbatim>\<open>None\<close> when there is no file.\<close>

definition read_json :: "history_file \<Rightarrow> json py" where
  "read_json f = (case f of
     Absent \<Rightarrow> Inr JNull
   | Unparsable \<Rightarrow> Inl (ValueError ''JSONDecodeError'')
   | Stored payload \<Rightarrow> Inr payload)"

definition store_snapshot :: "load_test_store \<Rightarrow> json py" where
  "store_snapshot st =
     res_bind (read_json (script_file st)) (\<lambda>script.
     res_bind (read_json (metadata_file st)) (\<lambda>metadata.
     Inr (JObj [(''script'', script), (''metadata'', metadata)])))"

text \<open>\<open>now\<close> is the instant of the upload.\<close>

definition save_script :: "int \<Rightarrow> string \<Rightarrow> string \<Rightarrow> load_test_store \<Rightarrow> json \<times> load_test_store" where
  "save_script now filename content st =
     (let lines = splitlines content;
          payload = JObj [(''filename'', JStr filename), (''content'', JStr content), (''uploadedAt'', JStr (isoformat now)),
            (''lineCount'', JInt (int (length lines))), (''preview'', JArr (map JStr (take 12 lines)))]
      in (payload, st\<lparr>script_file := Stored payload\<rparr>))"

definition save_metadata :: "int \<Rightarrow> json \<Rightarrow> load_test_store \<Rightarrow> json \<times> load_test_store" where
  "save_metadata now metadata st =
     (let payload = JObj [(''uploadedAt'', JStr (isoformat now)), (''payload'', metadata)]
      in (payload, st\<lparr>metadata_file := Stored payload\<rparr>))"

section \<open>Uploads\<close>

text \<open>An upload of either kind, the instant first; the later one of its kind is what is read.\<close>

datatype upload = ScriptUpload int string string | MetadataUpload int json

fun store_upload :: "upload \<Rightarrow> load_test_store \<Rightarrow> load_test_store" where
  "store_upload (ScriptUpload now filename content) st = snd (save_script now filename content st)"
| "store_upload (MetadataUpload now metadata) st = snd (save_metadata now metadata st)"

fun is_script :: "upload \<Rightarrow> bool" where
  "is_script (ScriptUpload now filename content) = True"
| "is_script (MetadataUpload now metadata) = False"

fun uploaded :: "upload \<Rightarrow> json" where
  "uploaded (ScriptUpload now filename content) = fst (save_script now filename content \<lparr>script_file = Absent, metadata_file = Absent\<rparr>)"
| "uploaded (MetadataUpload now metadata) = fst (save_metadata now metadata \<lparr>script_file = Absent, metadata_file = Absent\<rparr>)"

definition latest :: "(upload \<Rightarrow> bool) \<Rightarrow> upload list \<Rightarrow> json" where
  "latest P us = (case filter P (rev us) of [] \<Rightarrow> JNull | u # _ \<Rightarrow> uploaded u)"

text \<open>
  A slot of a store: some of the operations write it, as a whole, and the others leave it alone.
  What is read from it is what the last of its own operations has put there.
\<close>

locale slot =
  fixes put :: "'u \<Rightarrow> 's \<Rightarrow> 's" and content :: "'s \<Rightarrow> 'a" and mine :: "'u \<Rightarrow> bool" and written :: "'u \<Rightarrow> 'a"
  assumes put_mine: "mine u \<Longrightarrow> content (put u s) = written u"
    and put_other: "\<not> mine u \<Longrightarrow> content (put u s) = content s"
begin

lemma content_fold: "content (fold put us s) = (case filter mine (rev us) of [] \<Rightarrow> content s | u # _ \<Rightarrow> written u)"
  by (induction us rule: rev_induct) (simp_all add: put_mine put_other)

end

interpretation script_slot: slot store_upload "\<lambda>st. read_json (script_file st)" is_script "\<lambda>u. Inr (uploaded u)"
proof
  fix u s
  show "is_script u \<Longrightarrow> read_json (script_file (store_upload u s)) = Inr (uploaded u)"
    "\<not> is_script u \<Longrightarrow> read_json (script_file (store_upload u s)) = read_json (script_file s)"
    by (cases u; simp add: save_script_def save_metadata_def read_json_def Let_def)+
qed

interpretation metadata_slot: slot store_upload "\<lambda>st. read_json (metadata_file st)" "\<lambda>u. \<not> is_script u" "\<lambda>u. Inr (uploaded u)"
proof
  fix u s
  show "\<not> is_script u \<Longrightarrow> read_json (metadata_file (store_upload u s)) = Inr (uploaded u)"
    "\<not> \<not> is_script u \<Longrightarrow> read_json (metadata_file (store_upload u s)) = read_json (metadata_file s)"
    by (cases u; simp add: save_script_def save_metadata_def read_json_def Let_def)+
qed

text \<open>After any uploads to an empty store, what is read back is the last script and the last metadata
  uploaded, as they were answered then, and nothing where none was.\<close>

lemma read_back:
  "store_snapshot (fold store_upload us \<lparr>script_file = Absent, metadata_file = Absent\<rparr>) =
     Inr (JObj [(''script'', latest is_script us), (''metadata'', latest (\<lambda>u. \<not> is_script u) us)])"
  unfolding store_snapshot_def script_slot.content_fold metadata_slot.content_fold latest_def
  by (simp add: read_json_def split: list.split)

end
