(* ===== verification/ScriptRange.thy ===== *)
theory ScriptRange
  imports PyEnv Sampling "HOL-Library.Sublist"
begin

text \<open>
  The script range of the system showcase (\<^verbatim>\<open>system-showcase/app/script_range_store.py\<close>): a
  window of a long CSV file of requests per second, found through a sparse index of byte offsets
  and thinned out for display.  The file is its list of lines as \<^verbatim>\<open>readline\<close> returns them; an
  instant is in microseconds and local time is UTC.
\<close>

section \<open>Lines\<close>

text \<open>An infinite number of requests is not the \<^verbatim>\<open>ValueError\<close> that is caught.\<close>

definition parse_line :: "string \<Rightarrow> (int \<times> int) option py" where
  "parse_line line =
     (let decoded = strip line; parts = split_char (CHR '','') decoded in
      if decoded = [] then Inr None
      else if length parts < 3 then Inr None
      else (case fromisoformat (parts ! 1) of None \<Rightarrow> Inr None
        | Some d \<Rightarrow> res_bind (as_utc d) (\<lambda>t.
            case py_float (parts ! 2) of
              None \<Rightarrow> Inr None
            | Some NaN \<Rightarrow> Inr None
            | Some (Fin r) \<Rightarrow> Inr (Some (t, if 0 \<le> r then \<lfloor>r\<rfloor> else \<lceil>r\<rceil>))
            | _ \<Rightarrow> Inl OverflowError)))"

text \<open>The lines that \<^verbatim>\<open>readline\<close> returns after \<^verbatim>\<open>seek\<close>.\<close>

fun lines_from :: "nat \<Rightarrow> string list \<Rightarrow> string list" where
  "lines_from n [] = []"
| "lines_from n (l # ls) =
     (if n = 0 then l # ls else if length l \<le> n then lines_from (n - length l) ls else drop n l # ls)"

section \<open>The index\<close>

record range_store =
  index_ready :: bool
  header_offset :: nat
  index :: "(int \<times> nat) list"
  first_timestamp :: "int option"
  last_timestamp :: "int option"

definition new_range_store :: range_store where
  "new_range_store = \<lparr>index_ready = False, header_offset = 0, index = [], first_timestamp = None, last_timestamp = None\<rparr>"

definition index_line :: "nat \<Rightarrow> string \<Rightarrow> nat \<times> nat \<times> range_store \<Rightarrow> (nat \<times> nat \<times> range_store) py" where
  "index_line stride line = (\<lambda>(current_offset, row_index, st).
     res_bind (parse_line line) (\<lambda>parsed.
     Inr (current_offset + length line, row_index + 1,
       case parsed of None \<Rightarrow> st
       | Some (t, _) \<Rightarrow> st\<lparr>first_timestamp := (case first_timestamp st of None \<Rightarrow> Some t | Some u \<Rightarrow> Some u),
           last_timestamp := Some t,
           index := (if row_index mod stride = 0 then index st @ [(t, current_offset)] else index st)\<rparr>)))"

definition header_length :: "string list \<Rightarrow> nat" where
  "header_length file = (case file of [] \<Rightarrow> 0 | h # _ \<Rightarrow> length h)"

definition ensure_index :: "nat \<Rightarrow> string list \<Rightarrow> range_store \<Rightarrow> range_store py" where
  "ensure_index stride file st =
     (if index_ready st then Inr st
      else let st = st\<lparr>index := [], header_offset := header_length file\<rparr> in
        res_bind (fold_res (index_line stride) (tl file) (header_offset st, 0, st)) (\<lambda>(_, _, st).
        Inr (st\<lparr>index_ready := True\<rparr>)))"

text \<open>\<^verbatim>\<open>bisect_right(xs, x)\<close> between \<open>lo\<close> and \<open>hi\<close>.\<close>

function bisect_right :: "int list \<Rightarrow> int \<Rightarrow> nat \<Rightarrow> nat \<Rightarrow> nat" where
  "bisect_right xs x lo hi =
     (if lo < hi then
        let mid = (lo + hi) div 2 in
        if x < xs ! mid then bisect_right xs x lo mid else bisect_right xs x (mid + 1) hi
      else lo)"
  by pat_completeness auto
termination by (relation "measure (\<lambda>(xs, x, lo, hi). hi - lo)") auto

declare bisect_right.simps [simp del]

definition starting_offset :: "range_store \<Rightarrow> int \<Rightarrow> nat" where
  "starting_offset st world_cup_start =
     (if index st = [] then header_offset st
      else let n = bisect_right (map fst (index st)) world_cup_start 0 (length (index st)) in
        if n = 0 then header_offset st else snd (index st ! (n - 1)))"

section \<open>The window\<close>

record range_point =
  world_cup_time :: int
  real_time :: int
  point_requests :: rat

text \<open>\<^verbatim>\<open>int((timestamp - start).total_seconds())\<close> of a later instant\<close>

definition second_offset :: "int \<Rightarrow> int" where
  "second_offset us = \<lfloor>rnd64 (of_int us / 1000000)\<rfloor>"

fun collect_points :: "int \<Rightarrow> int \<Rightarrow> int \<Rightarrow> string list \<Rightarrow> (int \<times> int) list \<Rightarrow> (int \<times> int) list py" where
  "collect_points start_at end_at duration [] d = Inr d"
| "collect_points start_at end_at duration (line # ls) d =
     res_bind (parse_line line) (\<lambda>parsed. case parsed of
       None \<Rightarrow> collect_points start_at end_at duration ls d
     | Some (t, reqs) \<Rightarrow>
         if t < start_at then collect_points start_at end_at duration ls d
         else if end_at \<le> t then Inr d
         else let k = second_offset (t - start_at) in
           collect_points start_at end_at duration ls (if 0 \<le> k \<and> k < duration then AList.update k reqs d else d))"

definition slice_filled_series :: "string list \<Rightarrow> nat \<Rightarrow> int \<Rightarrow> int \<Rightarrow> int \<Rightarrow> range_point list py" where
  "slice_filled_series file read_offset world_cup_start real_start duration =
     (let world_cup_end = world_cup_start + duration * us_per_s in
      if \<not> in_range world_cup_end then Inl OverflowError
      else res_bind (collect_points world_cup_start world_cup_end duration (lines_from read_offset file) []) (\<lambda>d.
        if \<not> in_range (real_start + (duration - 1) * us_per_s) then Inl OverflowError
        else Inr (map (\<lambda>k. \<lparr>world_cup_time = world_cup_start + k * us_per_s, real_time = real_start + k * us_per_s,
            point_requests = of_int (case map_of d k of None \<Rightarrow> 0 | Some n \<Rightarrow> n)\<rparr>) [0..duration - 1])))"

text \<open>\<^verbatim>\<open>round(x, 2)\<close>\<close>

definition round2 :: "rat \<Rightarrow> rat" where
  "round2 x = rnd64 (of_int (rne (x * 100)) / 100)"

definition sample_bucket :: "range_point list \<Rightarrow> range_point py" where
  "sample_bucket bucket =
     (if bucket = [] then Inl ZeroDivisionError
      else case to_float (sum_list (map point_requests bucket) / of_nat (length bucket)) of
        Fin avg \<Rightarrow> Inr ((bucket ! (length bucket div 2))\<lparr>point_requests := round2 avg\<rparr>)
      | _ \<Rightarrow> Inl OverflowError)"

definition bucket_of :: "range_point list \<Rightarrow> int \<Rightarrow> int \<Rightarrow> range_point list" where
  "bucket_of points max_points i =
     (let start_index = scaled_index i max_points (int (length points));
          end_index = scaled_index (i + 1) max_points (int (length points))
      in drop (nat start_index) (take (nat (max end_index (start_index + 1))) points))"

definition downsample_points :: "range_point list \<Rightarrow> int \<Rightarrow> range_point list py" where
  "downsample_points points max_points =
     (if int (length points) \<le> max_points then Inr points
      else traverse (\<lambda>i. sample_bucket (bucket_of points max_points i)) [0..max_points - 1])"

record range_view =
  query_real_start :: int
  query_world_cup_start :: int
  duration_seconds :: int
  world_cup_start :: int
  world_cup_end :: int
  total_points :: int
  sampled_points :: int
  total_requests :: rat
  peak_requests :: rat
  range_series :: "range_point list"

text \<open>
  The answer (\<open>None\<close> when the file is missing or has no readable row) and the store afterwards.
  A start without a zone cannot be compared with the instants of the file.
\<close>

definition get_range ::
  "nat \<Rightarrow> int \<Rightarrow> string list option \<Rightarrow> int \<Rightarrow> range_store \<Rightarrow> py_datetime option \<Rightarrow> py_datetime option \<Rightarrow> int option
     \<Rightarrow> (range_view option \<times> range_store) py" where
  "get_range index_stride max_points file now st real_start wc_start duration =
     (case file of None \<Rightarrow> Inr (None, st)
      | Some ls \<Rightarrow>
        res_bind (ensure_index (max index_stride 1) ls st) (\<lambda>st.
        case (first_timestamp st, last_timestamp st) of
          (Some first_at, Some last_at) \<Rightarrow>
            res_bind (case real_start of None \<Rightarrow> Inr now | Some d \<Rightarrow> as_utc d) (\<lambda>r.
            let real_at = r - r mod (60 * us_per_s);
                dur = max (case duration of None \<Rightarrow> 3600 | Some n \<Rightarrow> if n = 0 then 3600 else n) 1 in
            res_bind (case wc_start of None \<Rightarrow> Inr first_at
              | Some (wall, None) \<Rightarrow> Inl TypeError
              | Some (wall, Some offset) \<Rightarrow> Inr (to_utc wall offset)) (\<lambda>w.
            let w = (if w < first_at then first_at else w); w = (if w > last_at then last_at else w) in
            res_bind (slice_filled_series ls (starting_offset st w) w real_at dur) (\<lambda>points.
            res_bind (downsample_points points (max max_points 32)) (\<lambda>sampled.
            let reqs = map point_requests points in
            Inr (Some \<lparr>query_real_start = real_at, query_world_cup_start = w, duration_seconds = dur,
                world_cup_start = first_at, world_cup_end = last_at, total_points = int (length points),
                sampled_points = int (length sampled), total_requests = sum_list reqs,
                peak_requests = (if reqs = [] then 0 else Max (set reqs)), range_series = sampled\<rparr>, st)))))
        | _ \<Rightarrow> Inr (None, st)))"

section \<open>The window as a function of the rows\<close>

text \<open>The readable rows of some lines.\<close>

definition some_rows :: "(int \<times> int) option list \<Rightarrow> (int \<times> int) list" where
  "some_rows os = List.map_filter id os"

lemma some_rows_simps [simp]:
  "some_rows [] = []"
  "some_rows (None # os) = some_rows os"
  "some_rows (Some r # os) = r # some_rows os"
  "some_rows (os @ os') = some_rows os @ some_rows os'"
  by (simp_all add: some_rows_def map_filter_def)

definition file_rows :: "string list \<Rightarrow> (int \<times> int) list py" where
  "file_rows ls = res_bind (traverse parse_line ls) (\<lambda>os. Inr (some_rows os))"

lemma file_rows_Nil [simp]: "file_rows [] = Inr []"
  by (simp add: file_rows_def)

lemma file_rows_Cons:
  "file_rows (l # ls) = Inr rows \<longleftrightarrow>
     (\<exists>p rest. parse_line l = Inr p \<and> file_rows ls = Inr rest \<and> rows = (case p of None \<Rightarrow> rest | Some r \<Rightarrow> r # rest))"
  (is "?l \<longleftrightarrow> ?r")
proof
  assume ?l
  then obtain p os where "parse_line l = Inr p" "traverse parse_line ls = Inr os" "rows = some_rows (p # os)"
    by (auto simp: file_rows_def res_bind_Inr_iff)
  then show ?r by (cases p) (auto simp: file_rows_def)
next
  assume ?r
  then obtain p os where "parse_line l = Inr p" "traverse parse_line ls = Inr os"
    "rows = (case p of None \<Rightarrow> some_rows os | Some r \<Rightarrow> r # some_rows os)"
    by (auto simp: file_rows_def res_bind_Inr_iff)
  then show ?l by (cases p) (simp_all add: file_rows_def)
qed

lemma file_rows_append:
  "file_rows (as @ bs) = Inr rows \<Longrightarrow> \<exists>ra rb. file_rows as = Inr ra \<and> file_rows bs = Inr rb \<and> rows = ra @ rb"
proof (induction as arbitrary: rows)
  case Nil
  then show ?case by simp
next
  case (Cons l as)
  from Cons.prems obtain p rest where l: "parse_line l = Inr p" "file_rows (as @ bs) = Inr rest"
    "rows = (case p of None \<Rightarrow> rest | Some r \<Rightarrow> r # rest)" by (auto simp: file_rows_Cons)
  from Cons.IH [OF l(2)] obtain ra rb where "file_rows as = Inr ra" "file_rows bs = Inr rb" "rest = ra @ rb" by blast
  with l show ?case by (cases p) (auto simp: file_rows_Cons)
qed

definition note_row :: "int \<Rightarrow> int \<Rightarrow> int \<times> int \<Rightarrow> (int \<times> int) list \<Rightarrow> (int \<times> int) list" where
  "note_row start_at duration r d = (let k = second_offset (fst r - start_at) in
     if 0 \<le> k \<and> k < duration then AList.update k (snd r) d else d)"

lemma collect_points_rows:
  assumes "file_rows ls = Inr rows" and "sorted (map fst rows)"
  shows "collect_points s e duration ls d = Inr (fold (note_row s duration) (filter (\<lambda>r. s \<le> fst r \<and> fst r < e) rows) d)"
  using assms
proof (induction ls arbitrary: rows d)
  case Nil
  then show ?case by simp
next
  case (Cons l ls)
  from Cons.prems(1) obtain p rest where l: "parse_line l = Inr p" "file_rows ls = Inr rest"
    and rows: "rows = (case p of None \<Rightarrow> rest | Some r \<Rightarrow> r # rest)" by (auto simp: file_rows_Cons)
  show ?case
  proof (cases p)
    case None
    with l rows Cons show ?thesis by simp
  next
    case (Some r)
    obtain t n where r: "r = (t, n)" by (cases r)
    have rest: "sorted (map fst rest)" "\<forall>r \<in> set rest. t \<le> fst r" using Cons.prems(2) rows Some r by auto
    have "filter (\<lambda>r. s \<le> fst r \<and> fst r < e) rest = []" if "e \<le> t"
      using rest(2) that by (fastforce simp: filter_empty_conv)
    with l rows Some r Cons.IH [OF l(2) rest(1)] show ?thesis
      by (auto simp: note_row_def Let_def)
  qed
qed

text \<open>The second of an instant, computed in floats, is the exact one within a year and more.\<close>

lemma second_offset_exact:
  assumes "0 \<le> us" and "us < 2 ^ 32 * 1000000"
  shows "second_offset us = us div 1000000"
proof -
  define s where "s = us div 1000000"
  obtain m where m: "us = s * 1000000 + m" "0 \<le> m" "m < 1000000"
    using that [of "us mod 1000000"] unfolding s_def by simp
  have s: "0 \<le> s" "s < 2 ^ 32" using assms m by auto
  let ?x = "of_int us / 1000000 :: rat"
  have x: "?x = of_int s + of_int m / 1000000" by (simp add: m(1) add_divide_distrib)
  have lo: "of_int s \<le> rnd64 ?x" using s m(2) by (intro rnd64_ge_int) (simp_all add: x)
  have hi: "rnd64 ?x < of_int (s + 1)"
  proof (cases "us = 0")
    case True
    then show ?thesis using s by simp
  next
    case False
    then have us: "1 \<le> us" using assms(1) by simp
    have "2 powi (-1022) \<le> (2 powi (-20) :: rat)" by (rule power_int_increasing) simp_all
    also have "\<dots> = 1 / 1048576" by (simp add: power_int_minus)
    finally have tiny: "2 powi (-1022) \<le> (1 / 1000000 :: rat)" by (rule order_trans) simp
    have one: "1 / 1000000 \<le> ?x" using us by (simp add: divide_right_mono)
    have "\<bar>rnd64 ?x - ?x\<bar> \<le> ?x / 2 ^ 53" using tiny one by (intro rnd64_error) (rule order_trans)
    moreover have "?x / 2 ^ 53 < 1 / 1000000"
    proof -
      have "?x < 2 ^ 32" using assms(2) of_int_less_iff [of us "2 ^ 32 * 1000000", where 'a = rat] by simp
      then show ?thesis by simp
    qed
    moreover have "?x + 1 / 1000000 \<le> of_int (s + 1)"
    proof -
      have "(of_int m :: rat) + 1 \<le> 1000000" using m(3) of_int_le_iff [of "m + 1" 1000000, where 'a = rat] by simp
      then show ?thesis by (simp add: x)
    qed
    ultimately show ?thesis by linarith
  qed
  show ?thesis unfolding second_offset_def s_def [symmetric] using lo hi by (intro floor_unique) simp_all
qed

text \<open>The requests of the \<open>k\<close>-th second: those of its last row.\<close>

definition requests_at :: "(int \<times> int) list \<Rightarrow> int \<Rightarrow> int" where
  "requests_at rows from_at = (let rs = filter (\<lambda>r. from_at \<le> fst r \<and> fst r < from_at + us_per_s) rows in
     if rs = [] then 0 else snd (last rs))"

lemma requests_at_snoc [simp]:
  "requests_at (rows @ [r]) a = (if a \<le> fst r \<and> fst r < a + us_per_s then snd r else requests_at rows a)"
  by (auto simp: requests_at_def)

lemma requests_at_Nil [simp]: "requests_at [] a = 0"
  by (simp add: requests_at_def)

lemma fold_note_row:
  assumes "\<forall>r \<in> set rs. s \<le> fst r \<and> fst r < s + duration * us_per_s" and "duration \<le> 2 ^ 31" and "0 \<le> k" "k < duration"
  shows "(case map_of (fold (note_row s duration) rs []) k of None \<Rightarrow> 0 | Some n \<Rightarrow> n) = requests_at rs (s + k * us_per_s)"
  using assms(1)
proof (induction rs rule: rev_induct)
  case Nil
  then show ?case by simp
next
  case (snoc r rs)
  define u where "u = fst r - s"
  have u: "0 \<le> u" "u < duration * 1000000" using snoc.prems by (auto simp: u_def us_per_s_def)
  have "duration * 1000000 \<le> 2 ^ 31 * 1000000" using assms(2) by simp
  then have so: "second_offset u = u div 1000000" using u by (intro second_offset_exact) simp_all
  have "s + k * us_per_s \<le> fst r \<and> fst r < s + k * us_per_s + us_per_s \<longleftrightarrow> k * 1000000 \<le> u \<and> u < (k + 1) * 1000000"
    by (auto simp: u_def us_per_s_def)
  also have "\<dots> \<longleftrightarrow> u div 1000000 = k"
    using div_pos_pos_trivial [of "u - k * 1000000" 1000000] by (auto simp: algebra_simps)
  finally have "s + k * us_per_s \<le> fst r \<and> fst r < s + k * us_per_s + us_per_s \<longleftrightarrow> second_offset (fst r - s) = k"
    using so by (simp add: u_def)
  with snoc show ?case using assms(3,4) by (auto simp: note_row_def Let_def update_conv')
qed

section \<open>The index\<close>

lemma bisect_right_bounds:
  assumes "sorted xs" "lo \<le> hi" "hi \<le> length xs" "\<forall>i < lo. xs ! i \<le> x" "\<forall>i. hi \<le> i \<and> i < length xs \<longrightarrow> x < xs ! i"
  shows "bisect_right xs x lo hi \<le> length xs
     \<and> (\<forall>i < bisect_right xs x lo hi. xs ! i \<le> x) \<and> (\<forall>i. bisect_right xs x lo hi \<le> i \<and> i < length xs \<longrightarrow> x < xs ! i)"
  using assms
proof (induction xs x lo hi rule: bisect_right.induct)
  case (1 xs x lo hi)
  let ?mid = "(lo + hi) div 2"
  show ?case
  proof (cases "lo < hi")
    case True
    then have mid: "lo \<le> ?mid" "?mid < hi" by auto
    show ?thesis
    proof (cases "x < xs ! ?mid")
      case left: True
      have "x < xs ! i" if "?mid \<le> i" "i < length xs" for i
        using left sorted_nth_mono [OF "1.prems"(1) that] by linarith
      then have above: "\<forall>i. ?mid \<le> i \<and> i < length xs \<longrightarrow> x < xs ! i" by blast
      have step: "bisect_right xs x lo hi = bisect_right xs x lo ?mid"
        unfolding bisect_right.simps [of xs x lo hi] Let_def using True left by (simp only: if_True)
      show ?thesis
        unfolding step
        by (rule "1.IH"(1) [OF True refl left "1.prems"(1) _ _ "1.prems"(4) above]) (use mid "1.prems"(3) in linarith)+
    next
      case right: False
      have "xs ! i \<le> x" if "i < ?mid + 1" for i
        using right sorted_nth_mono [OF "1.prems"(1), of i ?mid] that mid "1.prems"(3) by fastforce
      then have below: "\<forall>i < ?mid + 1. xs ! i \<le> x" by blast
      have step: "bisect_right xs x lo hi = bisect_right xs x (?mid + 1) hi"
        unfolding bisect_right.simps [of xs x lo hi] Let_def using True right by (simp only: if_True if_False)
      show ?thesis
        unfolding step
        by (rule "1.IH"(2) [OF True refl right "1.prems"(1) _ "1.prems"(3) below "1.prems"(5)]) (use mid in linarith)
    qed
  next
    case False
    then have step: "bisect_right xs x lo hi = lo" unfolding bisect_right.simps [of xs x lo hi] by (rule if_not_P)
    have "lo = hi" using False "1.prems"(2) by simp
    with "1.prems"(3-5) show ?thesis unfolding step by blast
  qed
qed

text \<open>An entry of the index is the instant of a row and the offset its line begins at.\<close>

definition entry_ok :: "nat \<Rightarrow> string list \<Rightarrow> int \<times> nat \<Rightarrow> bool" where
  "entry_ok base ls e \<longleftrightarrow> (\<exists>pre l post n. ls = pre @ l # post \<and> snd e = base + length (concat pre)
     \<and> parse_line l = Inr (Some (fst e, n)))"

lemma entry_ok_append: "entry_ok base ls e \<Longrightarrow> entry_ok base (ls @ ls2) e"
  unfolding entry_ok_def by (elim exE conjE) (rule exI, rule exI, rule exI, rule exI, intro conjI, simp_all)

lemma index_lines:
  assumes "fold_res (index_line stride) ls (base, 0, st0) = Inr (off, n, st)" and "file_rows ls = Inr rows"
    and "index st0 = []" "first_timestamp st0 = None" "last_timestamp st0 = None"
  shows "off = base + length (concat ls) \<and> header_offset st = header_offset st0
     \<and> (\<forall>e \<in> set (index st). entry_ok base ls e) \<and> subseq (map fst (index st)) (map fst rows)
     \<and> first_timestamp st = (if rows = [] then None else Some (fst (hd rows)))
     \<and> last_timestamp st = (if rows = [] then None else Some (fst (last rows)))"
  using assms(1,2)
proof (induction ls arbitrary: off n st rows rule: rev_induct)
  case Nil
  with assms show ?case by simp
next
  case (snoc l ls)
  from file_rows_append [OF snoc.prems(2)] obtain ra rb where ra: "file_rows ls = Inr ra" "file_rows [l] = Inr rb"
    and rows: "rows = ra @ rb" by blast
  from snoc.prems(1) obtain off' n' st' where st': "fold_res (index_line stride) ls (base, 0, st0) = Inr (off', n', st')"
    and last: "index_line stride l (off', n', st') = Inr (off, n, st)"
    by (auto simp: fold_res_append res_bind_Inr_iff)
  note IH = snoc.IH [OF st' ra(1)]
  from last obtain p where p: "parse_line l = Inr p" and off: "off = off' + length l"
    by (auto simp: index_line_def res_bind_Inr_iff)
  from ra(2) p have rb: "rb = (case p of None \<Rightarrow> [] | Some r \<Rightarrow> [r])" by (auto simp: file_rows_Cons)
  show ?case
  proof (cases p)
    case None
    with last p IH rb rows off show ?thesis by (auto simp: index_line_def intro: entry_ok_append)
  next
    case (Some r)
    obtain t m where r: "r = (t, m)" by (cases r)
    have "entry_ok base (ls @ [l]) (t, off')"
      using IH p Some r unfolding entry_ok_def by auto
    moreover have "subseq (map fst (index st') @ [t]) (map fst ra @ [t])" "subseq (map fst (index st')) (map fst ra @ [t])"
      using IH by (auto intro: list_emb_append_mono subseq_append')
    ultimately show ?thesis
      using last p Some r IH rb rows off
      by (cases "ra = []"; cases "n' mod stride = 0") (auto simp: index_line_def entry_ok_append)
  qed
qed

lemma lines_from_boundary: "[] \<notin> set (pre @ ls) \<Longrightarrow> lines_from (length (concat pre)) (pre @ ls) = ls"
proof (induction pre)
  case Nil
  then show ?case by (cases ls) simp_all
next
  case (Cons l pre)
  then show ?case by (cases l) simp_all
qed

lemma subseq_sorted: "subseq ys xs \<Longrightarrow> sorted xs \<Longrightarrow> sorted ys" for xs :: "int list"
proof (induction rule: list_emb.induct)
  case (list_emb_Cons2 y x ys xs)
  then show ?case using list_emb_set [of "(=)" ys xs] by auto
qed auto

text \<open>Where reading starts: at the first line, or at a row not after the start of the window.\<close>

lemma starting_offset_splits:
  assumes st: "ensure_index stride file new_range_store = Inr st" and rows: "file_rows (tl file) = Inr rows"
    and sorted: "sorted (map fst rows)" and "file \<noteq> []" and lines: "[] \<notin> set file"
  shows "\<exists>pre ls ra rb. tl file = pre @ ls \<and> lines_from (starting_offset st w) file = ls
     \<and> file_rows pre = Inr ra \<and> file_rows ls = Inr rb \<and> rows = ra @ rb
     \<and> (ra = [] \<or> rb \<noteq> [] \<and> fst (hd rb) \<le> w)"
proof -
  obtain h ls where fl: "file = h # ls" using assms(4) by (cases "file") simp_all
  obtain off n st' where fold: "fold_res (index_line stride) ls (length h, 0, new_range_store\<lparr>index := [], header_offset := length h\<rparr>) = Inr (off, n, st')"
    and st': "st = st'\<lparr>index_ready := True\<rparr>"
    using st by (auto simp: ensure_index_def fl header_length_def new_range_store_def res_bind_Inr_iff)
  have idx: "header_offset st' = length h" "\<forall>e \<in> set (index st'). entry_ok (length h) ls e"
    "subseq (map fst (index st')) (map fst rows)"
    using index_lines [OF fold, of rows] rows by (simp_all add: fl new_range_store_def)
  let ?xs = "map fst (index st')"
  let ?n = "bisect_right ?xs w 0 (length ?xs)"
  have "sorted ?xs" using idx(3) sorted by (rule subseq_sorted)
  from bisect_right_bounds [OF this le0 order_refl, of w]
  have n: "?n \<le> length ?xs" "\<forall>i < ?n. ?xs ! i \<le> w" by auto
  show ?thesis
  proof (cases "index st' = [] \<or> ?n = 0")
    case True
    then have "starting_offset st w = length h" by (auto simp: starting_offset_def st' idx(1) Let_def)
    moreover have "lines_from (length (concat [h])) ([h] @ ls) = ls" using lines by (intro lines_from_boundary) (simp add: fl)
    ultimately have "lines_from (starting_offset st w) file = ls" by (simp add: fl)
    with rows show ?thesis by (intro exI [of _ "[]"] exI [of _ ls] exI [of _ rows]) (simp add: fl)
  next
    case False
    let ?e = "index st' ! (?n - 1)"
    have so: "starting_offset st w = snd ?e" using False by (simp add: starting_offset_def st' Let_def)
    have e: "?e \<in> set (index st')" "fst ?e \<le> w"
      using n False spec [OF n(2), of "?n - 1"] by auto
    from idx(2) e(1) obtain pre l post m where split: "ls = pre @ l # post" "snd ?e = length h + length (concat pre)"
      "parse_line l = Inr (Some (fst ?e, m))" unfolding entry_ok_def by blast
    have "lines_from (length (concat (h # pre))) ((h # pre) @ l # post) = l # post"
      using lines by (intro lines_from_boundary) (simp add: fl split(1))
    moreover have "starting_offset st w = length (concat (h # pre))" unfolding so split(2) by simp
    ultimately have "lines_from (starting_offset st w) file = l # post" by (simp only: fl split(1) append_Cons)
    moreover obtain ra rb where ra: "file_rows pre = Inr ra" "file_rows (l # post) = Inr rb" "rows = ra @ rb"
      using file_rows_append [of pre "l # post" rows] rows by (auto simp: fl split(1))
    moreover from ra(2) split(3) have "rb \<noteq> []" "fst (hd rb) = fst ?e" by (auto simp: file_rows_Cons)
    ultimately show ?thesis using e(2) split(1) by (intro exI [of _ pre] exI [of _ "l # post"]) (simp add: fl)
  qed
qed

lemma requests_at_skip:
  assumes "sorted (map fst (ra @ rb))" and "ra = [] \<or> rb \<noteq> [] \<and> fst (hd rb) \<le> w" and "w \<le> a"
  shows "requests_at (ra @ rb) a = requests_at rb a"
proof (cases "filter (\<lambda>r. a \<le> fst r \<and> fst r < a + us_per_s) ra = []")
  case True
  then show ?thesis by (simp add: requests_at_def)
next
  case False
  then obtain r where r: "r \<in> set ra" "a \<le> fst r" by (auto simp: filter_empty_conv)
  with assms(2) have rb: "rb \<noteq> []" "fst (hd rb) \<le> w" by auto
  then have hd: "hd rb \<in> set rb" by simp
  with assms(1) r(1) have "fst r \<le> fst (hd rb)" by (auto simp: sorted_append)
  with rb(2) r(2) assms(3) have "fst (hd rb) = a" by simp
  with hd have "filter (\<lambda>r. a \<le> fst r \<and> fst r < a + us_per_s) rb \<noteq> []"
    by (auto simp: filter_empty_conv us_per_s_def intro!: bexI [of _ "hd rb"])
  then show ?thesis by (simp add: requests_at_def)
qed

lemma requests_at_window:
  assumes "s \<le> a" and "a + us_per_s \<le> e"
  shows "requests_at (filter (\<lambda>r. s \<le> fst r \<and> fst r < e) rows) a = requests_at rows a"
proof -
  have "filter (\<lambda>r. a \<le> fst r \<and> fst r < a + us_per_s) (filter (\<lambda>r. s \<le> fst r \<and> fst r < e) rows)
      = filter (\<lambda>r. a \<le> fst r \<and> fst r < a + us_per_s) rows"
    unfolding filter_filter using assms by (intro filter_cong refl) auto
  then show ?thesis by (simp add: requests_at_def)
qed

text \<open>C14: for a file in the order of time, reading from the index gives the window of the whole file: one point per second, with the
  requests of the last row of that second and none where there is no row.\<close>

theorem slice_is_window:
  assumes "ensure_index stride file new_range_store = Inr st" and "file_rows (tl file) = Inr rows"
    and "sorted (map fst rows)" and "file \<noteq> []" and "[] \<notin> set file"
    and "0 \<le> duration" and "duration \<le> 2 ^ 31" and "in_range (w + duration * us_per_s)"
    and "in_range (real_at + (duration - 1) * us_per_s)"
  shows "slice_filled_series file (starting_offset st w) w real_at duration =
     Inr (map (\<lambda>k. \<lparr>world_cup_time = w + k * us_per_s, real_time = real_at + k * us_per_s,
        point_requests = of_int (requests_at rows (w + k * us_per_s))\<rparr>) [0..duration - 1])"
proof -
  let ?e = "w + duration * us_per_s"
  from starting_offset_splits [OF assms(1-5)] obtain pre ls ra rb where ls: "lines_from (starting_offset st w) file = ls"
    "file_rows ls = Inr rb" "rows = ra @ rb" "ra = [] \<or> rb \<noteq> [] \<and> fst (hd rb) \<le> w" by blast
  let ?rs = "filter (\<lambda>r. w \<le> fst r \<and> fst r < ?e) rb"
  have sorted: "sorted (map fst rb)" using assms(3) ls(3) by (simp add: sorted_append)
  have collect: "collect_points w ?e duration ls [] = Inr (fold (note_row w duration) ?rs [])"
    by (rule collect_points_rows [OF ls(2) sorted])
  have point: "(case map_of (fold (note_row w duration) ?rs []) k of None \<Rightarrow> 0 | Some n \<Rightarrow> n) = requests_at rows (w + k * us_per_s)"
    if "k \<in> set [0..duration - 1]" for k
  proof -
    from that have k: "0 \<le> k" "k < duration" by auto
    then have "k * us_per_s + us_per_s \<le> duration * us_per_s" by (auto simp: us_per_s_def)
    with fold_note_row [OF _ assms(7) k, of ?rs w] show ?thesis
      using requests_at_window [of w "w + k * us_per_s" ?e rb] k(1)
        requests_at_skip [OF assms(3) [unfolded ls(3)] ls(4), of "w + k * us_per_s"]
      by (simp add: us_per_s_def ls(3))
  qed
  show ?thesis
    unfolding slice_filled_series_def Let_def ls(1) collect
    using assms(8,9) by (simp add: point cong: map_cong)
qed

definition example_csv :: "string list" where
  "example_csv = [''i,t,r'', ''0,1970-01-01T00:00:00+00:00,3'', ''1,1970-01-01T00:00:01+00:00,5'']"

theorem slice_is_window_witness:
  "\<exists>st. ensure_index 1 example_csv new_range_store = Inr st
     \<and> slice_filled_series example_csv (starting_offset st 1000000) 1000000 0 2 =
       Inr [\<lparr>world_cup_time = 1000000, real_time = 0, point_requests = 5\<rparr>,
            \<lparr>world_cup_time = 2000000, real_time = 1000000, point_requests = 0\<rparr>]"
proof -
  have rows: "file_rows (tl example_csv) = Inr [(0, 3), (1000000, 5)]" by code_simp
  have "\<not> isl (ensure_index 1 example_csv new_range_store)" by code_simp
  then obtain st where st: "ensure_index 1 example_csv new_range_store = Inr st" by (metis sum.collapse(2))
  have "in_range (1000000 + 2 * us_per_s)" "in_range (0 + (2 - 1) * us_per_s)" by code_simp+
  moreover have "requests_at [(0, 3), (1000000, 5)] 1000000 = 5" "requests_at [(0, 3), (1000000, 5)] 2000000 = 0"
    by (simp_all add: requests_at_def us_per_s_def)
  ultimately show ?thesis
    using slice_is_window [OF st rows, of 2 1000000 0] st
    by (intro exI [of _ st]) (simp add: example_csv_def us_per_s_def upto_rec1)
qed

section \<open>Thinning out\<close>

lemma sample_bucket_nonempty: "sample_bucket b = Inr p \<Longrightarrow> b \<noteq> []"
  by (auto simp: sample_bucket_def)

text \<open>A long window is cut into consecutive, non-empty buckets that make it up, one for each
  sample; no bucket is ever empty, so the average is defined, and a sample carries the times of a
  point of its bucket.\<close>

theorem downsample_partitions:
  assumes "max_points < int (length points)" and "0 < max_points" and "max_points \<le> 2 ^ 20"
    and "int (length points) \<le> 2 ^ 40"
  shows "\<exists>buckets. concat buckets = points \<and> [] \<notin> set buckets \<and> int (length buckets) = max_points
     \<and> downsample_points points max_points = traverse sample_bucket buckets"
proof -
  let ?n = "int (length points)" and ?m = "nat max_points"
  define cut where "cut i = nat (scaled_index (int i) max_points ?n)" for i
  have strict: "scaled_index (int i) max_points ?n < scaled_index (int i + 1) max_points ?n" if "i < ?m" for i
    using that assms by (intro scaled_index_strict) simp_all
  have nonneg: "0 \<le> scaled_index (int i) max_points ?n" if "i \<le> ?m" for i
    using that assms by (intro scaled_index_bounds) simp_all
  have step: "cut i < cut (Suc i)" if "i < ?m" for i
    using strict [OF that] nonneg [of i] that unfolding cut_def by (simp add: add.commute)
  have ends: "cut 0 = 0" "cut ?m = length points" using assms by (simp_all add: cut_def)
  have upto: "cut (Suc i) \<le> length points" if "i < ?m" for i
  proof -
    have "scaled_index (int (Suc i)) max_points ?n \<le> ?n" using that assms by (intro scaled_index_bounds) simp_all
    then show ?thesis by (simp add: cut_def)
  qed
  define buckets where "buckets = map (\<lambda>i. drop (cut i) (take (cut (Suc i)) points)) [0..<?m]"
  have bucket: "bucket_of points max_points (int i) = drop (cut i) (take (cut (Suc i)) points)" if "i < ?m" for i
  proof -
    have "max (scaled_index (int i + 1) max_points ?n) (scaled_index (int i) max_points ?n + 1) = scaled_index (int i + 1) max_points ?n"
      using strict [OF that] by (intro max_absorb1) simp
    then show ?thesis unfolding bucket_of_def cut_def Let_def by (simp add: add.commute)
  qed
  have "concat buckets = points"
    unfolding buckets_def using concat_cuts [of ?m cut points] step ends by (simp add: less_imp_le)
  moreover have "[] \<notin> set buckets"
    unfolding buckets_def using step upto by (force simp: image_iff)
  moreover have "int (length buckets) = max_points" using assms by (simp add: buckets_def)
  moreover have "downsample_points points max_points = traverse sample_bucket buckets"
  proof -
    have "[0..max_points - 1] = map int [0..<?m]" by (rule upto_of_nat)
    moreover have "traverse sample_bucket (map g xs) = traverse (\<lambda>i. sample_bucket (g i)) xs" for g :: "nat \<Rightarrow> _" and xs
      by (induction xs) simp_all
    moreover have "traverse (\<lambda>i. sample_bucket (bucket_of points max_points i)) (map int is)
        = traverse (\<lambda>i. sample_bucket (drop (cut i) (take (cut (Suc i)) points))) is" if "set is \<subseteq> {..<?m}" for "is"
      using that by (induction "is") (simp_all add: bucket)
    ultimately show ?thesis
      using assms(1) by (simp add: downsample_points_def buckets_def lessThan_atLeast0)
  qed
  ultimately show ?thesis by blast
qed

theorem downsample_partitions_witness:
  "\<exists>buckets. concat buckets = replicate 3 \<lparr>world_cup_time = 0, real_time = 0, point_requests = 1\<rparr> \<and> int (length buckets) = 2"
  using downsample_partitions [of 2 "replicate 3 \<lparr>world_cup_time = 0, real_time = 0, point_requests = 1\<rparr>"]
  by (simp del: replicate.simps) blast

end
