(* ===== verification/ShowcaseApp.thy ===== *)
theory ShowcaseApp
  imports Gateway LoadTestStore ScriptRange
begin

text \<open>
  \<^verbatim>\<open>system-showcase/app/main.py\<close> and \<^verbatim>\<open>settings.py\<close>: the settings with their bounds, the routes
  with the bounds on their parameters, and the application they serve, which joins the snapshot
  service, the load test store and the script range store.
\<close>

section \<open>Settings\<close>

text \<open>
  The settings the showcase reads, beside those of the snapshot service.  \<^verbatim>\<open>BaseSettings\<close> fills
  them from the environment and refuses what is out of bounds.
\<close>

record app_settings =
  app_name :: string
  host :: string
  port :: int
  prometheus_base_url :: string
  prometheus_timeout_seconds :: rat
  metrics_window_minutes :: int
  metrics_step_seconds :: int
  background_poll_interval_seconds :: int
  app_namespace :: string
  app_service_name :: string
  app_ingress_name :: string
  app_pod_regex :: string
  load_test_data_dir :: string
  service_settings :: settings

definition default_settings :: app_settings where
  "default_settings =
     \<lparr>app_name = ''system-showcase'', host = ''0.0.0.0'', port = 8080,
      prometheus_base_url = ''http://monitoring-stack-kube-prom-prometheus.monitoring.svc.cluster.local:9090'',
      prometheus_timeout_seconds = 20, metrics_window_minutes = 20, metrics_step_seconds = 60,
      background_poll_interval_seconds = 5, app_namespace = ''default'', app_service_name = [], app_ingress_name = [],
      app_pod_regex = [], load_test_data_dir = ''/tmp/system-showcase'',
      service_settings = \<lparr>scaler_namespace = ''default'', scaler_name = ''customscaler-sample'',
        controller_namespace = ''custom-scaler-system'', controller_deployment_name = ''custom-scaler-controller-manager'',
        worker_jobs_namespace = ''custom-scaler-system'', base_path = ''/system-showcase'', cache_ttl_seconds = 5,
        loop_history_limit = 2000\<rparr>\<rparr>"

definition settings_accepted :: "app_settings \<Rightarrow> bool" where
  "settings_accepted c \<longleftrightarrow> 0 < prometheus_timeout_seconds c \<and> 5 \<le> metrics_window_minutes c \<and> 15 \<le> metrics_step_seconds c
     \<and> 1 \<le> cache_ttl_seconds (service_settings c) \<and> 1 \<le> background_poll_interval_seconds c
     \<and> 10 \<le> loop_history_limit (service_settings c)"

section \<open>Requests and answers\<close>

text \<open>
  A request with its query parameters or its body, already of the declared types; an absent one
  is \<open>None\<close>.
\<close>

datatype app_request =
    Health | Root | Base | Home | ApiHealth
  | SnapshotQuery "bool option" "string option" "string option" "int option" "int option"
  | LoadTestQuery
  | RangeQuery "py_datetime option" "py_datetime option" "int option"
  | ScriptPost string string
  | MetadataPost "json option"

datatype app_response =
    Redirect string | IndexPage | NotBuilt | JsonAnswer json | SnapshotAnswer snapshot
  | RangeAnswer "range_view option" | Refused | Failed py_exn

record showcase_app =
  snapshots :: showcase
  load_tests :: load_test_store
  ranges :: range_store

text \<open>
  What the world is while a request is served: the cluster, \<^verbatim>\<open>json.loads\<close>, the instants at which
  the clock is read, and whether the frontend has been built.  Requests are served one after the
  other here; theory \<open>Poller\<close> interleaves those for snapshots with each other and the poller.
\<close>

record app_world =
  world_kubernetes :: kubernetes
  world_loads :: "string \<Rightarrow> json option"
  world_clock :: "int \<times> int \<times> int \<times> int"
  world_now :: int
  frontend_built :: bool

section \<open>Routes\<close>

definition in_bounds :: "int \<Rightarrow> int option \<Rightarrow> int option \<Rightarrow> bool" where
  "in_bounds lo hi v = (case v of None \<Rightarrow> True | Some n \<Rightarrow> lo \<le> n \<and> (case hi of None \<Rightarrow> True | Some h \<Rightarrow> n \<le> h))"

definition or_default :: "'a \<Rightarrow> 'a option \<Rightarrow> 'a" where
  "or_default d v = (case v of None \<Rightarrow> d | Some x \<Rightarrow> x)"

definition showcase_home :: "bool \<Rightarrow> app_response" where
  "showcase_home built = (if built then IndexPage else NotBuilt)"

definition showcase_snapshot ::
  "settings \<Rightarrow> app_world \<Rightarrow> bool option \<Rightarrow> string option \<Rightarrow> string option \<Rightarrow> int option \<Rightarrow> int option \<Rightarrow> showcase_app
     \<Rightarrow> showcase_app \<times> app_response" where
  "showcase_snapshot cfg w forced ns name page per_page app =
     (if in_bounds 1 None page \<and> in_bounds 1 (Some 100) per_page then
        case service_get_snapshot cfg (world_kubernetes w) (world_loads w) (world_clock w) (snapshots app) (snapshots app)
          \<lparr>force_refresh = or_default False forced, req_namespace = ns, req_name = name, req_page = or_default 1 page,
           req_page_size = or_default 25 per_page\<rparr> of
          (s, Inr payload) \<Rightarrow> (app\<lparr>snapshots := s\<rparr>, SnapshotAnswer payload)
        | (s, Inl e) \<Rightarrow> (app\<lparr>snapshots := s\<rparr>, Failed e)
      else (app, Refused))"

definition get_load_test_state :: "showcase_app \<Rightarrow> showcase_app \<times> app_response" where
  "get_load_test_state app = (app, case store_snapshot (load_tests app) of Inl e \<Rightarrow> Failed e | Inr v \<Rightarrow> JsonAnswer v)"

text \<open>
  The CSV file lies beside the module and does not change.  An index that could not be built fails
  again on the next request; what it has left behind by then is read by nobody.
\<close>

definition get_script_range ::
  "string list option \<Rightarrow> app_world \<Rightarrow> py_datetime option \<Rightarrow> py_datetime option \<Rightarrow> int option \<Rightarrow> showcase_app
     \<Rightarrow> showcase_app \<times> app_response" where
  "get_script_range csv w real_start wc_start duration app =
     (if in_bounds 1 (Some 604800) duration then
        case get_range 10000 600 csv (world_now w) (ranges app) real_start wc_start duration of
          Inl e \<Rightarrow> (app, Failed e)
        | Inr (v, st) \<Rightarrow> (app\<lparr>ranges := st\<rparr>, RangeAnswer v)
      else (app, Refused))"

definition save_load_test_script :: "app_world \<Rightarrow> string \<Rightarrow> string \<Rightarrow> showcase_app \<Rightarrow> showcase_app \<times> app_response" where
  "save_load_test_script w filename content app =
     (if 1 \<le> length filename \<and> 1 \<le> length content then
        let (payload, st) = save_script (world_now w) filename content (load_tests app)
        in (app\<lparr>load_tests := st\<rparr>, JsonAnswer payload)
      else (app, Refused))"

definition save_load_test_metadata :: "app_world \<Rightarrow> json option \<Rightarrow> showcase_app \<Rightarrow> showcase_app \<times> app_response" where
  "save_load_test_metadata w body app =
     (let metadata = or_default (JObj []) body in
      if is_obj metadata then
        let (payload, st) = save_metadata (world_now w) metadata (load_tests app)
        in (app\<lparr>load_tests := st\<rparr>, JsonAnswer payload)
      else (app, Refused))"

fun handle_request ::
  "app_settings \<Rightarrow> string list option \<Rightarrow> app_world \<Rightarrow> app_request \<Rightarrow> showcase_app \<Rightarrow> showcase_app \<times> app_response" where
  "handle_request cfg csv w Health app = (app, JsonAnswer (JObj [(''status'', JStr ''ok'')]))"
| "handle_request cfg csv w Root app = (app, Redirect (normalized_base_path (service_settings cfg) @ ''/''))"
| "handle_request cfg csv w Base app = (app, Redirect (normalized_base_path (service_settings cfg) @ ''/''))"
| "handle_request cfg csv w Home app = (app, showcase_home (frontend_built w))"
| "handle_request cfg csv w ApiHealth app =
     (app, JsonAnswer (JObj [(''status'', JStr ''ok''), (''service'', JStr (app_name cfg))]))"
| "handle_request cfg csv w (SnapshotQuery forced ns name page per_page) app =
     showcase_snapshot (service_settings cfg) w forced ns name page per_page app"
| "handle_request cfg csv w LoadTestQuery app = get_load_test_state app"
| "handle_request cfg csv w (RangeQuery real_start wc_start duration) app = get_script_range csv w real_start wc_start duration app"
| "handle_request cfg csv w (ScriptPost filename content) app = save_load_test_script w filename content app"
| "handle_request cfg csv w (MetadataPost body) app = save_load_test_metadata w body app"

text \<open>Requests one after the other, each with its world.\<close>

definition serve :: "app_settings \<Rightarrow> string list option \<Rightarrow> (app_world \<times> app_request) list \<Rightarrow> showcase_app \<Rightarrow> showcase_app" where
  "serve cfg csv rs app = fold (\<lambda>(w, r) app. fst (handle_request cfg csv w r app)) rs app"

definition new_app :: "history_file \<Rightarrow> showcase_app" where
  "new_app f = \<lparr>snapshots = \<lparr>cache = [], history = f\<rparr>, load_tests = \<lparr>script_file = Absent, metadata_file = Absent\<rparr>,
     ranges = new_range_store\<rparr>"

section \<open>Load tests\<close>

text \<open>The uploads among the requests that are accepted.\<close>

fun accepted_upload :: "app_world \<times> app_request \<Rightarrow> upload list" where
  "accepted_upload (w, ScriptPost filename content) =
     (if filename \<noteq> [] \<and> content \<noteq> [] then [ScriptUpload (world_now w) filename content] else [])"
| "accepted_upload (w, MetadataPost None) = [MetadataUpload (world_now w) (JObj [])]"
| "accepted_upload (w, MetadataPost (Some v)) = (if is_obj v then [MetadataUpload (world_now w) v] else [])"
| "accepted_upload (w, _) = []"

lemma handle_keeps_load_tests:
  "load_tests (fst (handle_request cfg csv w r app)) = fold store_upload (accepted_upload (w, r)) (load_tests app)"
proof (cases r)
  case (MetadataPost body)
  then show ?thesis
    by (cases body) (auto simp: save_load_test_metadata_def or_default_def Let_def split: prod.splits)
qed (auto simp: showcase_snapshot_def get_load_test_state_def get_script_range_def save_load_test_script_def Suc_le_eq
       split: prod.splits sum.splits)

lemma serve_load_tests:
  "load_tests (serve cfg csv rs app) = fold store_upload (concat (map accepted_upload rs)) (load_tests app)"
  unfolding serve_def by (induction rs arbitrary: app) (simp_all add: handle_keeps_load_tests split: prod.splits)

text \<open>Whatever is asked of the application in between, also by requests it refuses, the load test
  page answers with the last accepted script and the last accepted metadata.\<close>

theorem load_test_page_shows_latest:
  "snd (handle_request cfg csv w LoadTestQuery (serve cfg csv rs (new_app f))) =
     JsonAnswer (JObj [(''script'', latest is_script (concat (map accepted_upload rs))),
       (''metadata'', latest (\<lambda>u. \<not> is_script u) (concat (map accepted_upload rs)))])"
  by (simp add: get_load_test_state_def serve_load_tests new_app_def read_back)

section \<open>Ranges\<close>

text \<open>The index is as it was made, or it is the one of the file.\<close>

definition range_index_ok :: "string list option \<Rightarrow> range_store \<Rightarrow> bool" where
  "range_index_ok csv st \<longleftrightarrow> st = new_range_store \<or> (\<exists>ls. csv = Some ls \<and> ensure_index 10000 ls new_range_store = Inr st)"

lemma ensure_index_again:
  assumes "range_index_ok (Some ls) st"
  shows "ensure_index 10000 ls st = ensure_index 10000 ls new_range_store"
proof -
  have "ensure_index 10000 ls st = Inr st" if "ensure_index 10000 ls new_range_store = Inr st"
  proof -
    from that have "index_ready st" by (auto simp: ensure_index_def Let_def new_range_store_def res_bind_Inr_iff)
    then show ?thesis by (simp add: ensure_index_def)
  qed
  with assms show ?thesis by (auto simp: range_index_ok_def)
qed

lemma get_range_fresh:
  assumes "range_index_ok csv st"
  shows "get_range 10000 600 csv now st real_start wc_start duration = (case csv of None \<Rightarrow> Inr (None, st)
     | Some ls \<Rightarrow> get_range 10000 600 csv now new_range_store real_start wc_start duration)"
  using assms by (cases csv) (simp_all add: get_range_def ensure_index_again)

lemma get_range_keeps_index:
  assumes "range_index_ok csv st" "get_range 10000 600 csv now st real_start wc_start duration = Inr (v, st')"
  shows "range_index_ok csv st'"
proof (cases csv)
  case None
  with assms show ?thesis by (simp add: get_range_def)
next
  case (Some ls)
  show ?thesis
  proof (cases "ensure_index 10000 ls st")
    case (Inl e)
    with assms(2) Some show ?thesis by (simp add: get_range_def)
  next
    case (Inr st1)
    with assms(2) Some have "st' = st1"
      by (cases "first_timestamp st1"; cases "last_timestamp st1") (auto simp: get_range_def Let_def res_bind_Inr_iff)
    with Inr ensure_index_again [of ls st] assms(1) Some show ?thesis by (auto simp: range_index_ok_def)
  qed
qed

lemma handle_keeps_index:
  assumes "range_index_ok csv (ranges app)"
  shows "range_index_ok csv (ranges (fst (handle_request cfg csv w r app)))"
proof (cases r)
  case (RangeQuery real_start wc_start duration)
  with assms show ?thesis by (auto simp: get_script_range_def get_range_keeps_index split: sum.splits prod.splits)
qed (use assms in \<open>auto simp: showcase_snapshot_def get_load_test_state_def save_load_test_script_def
  save_load_test_metadata_def Let_def split: prod.splits sum.splits\<close>)

lemma serve_keeps_index: "range_index_ok csv (ranges app) \<Longrightarrow> range_index_ok csv (ranges (serve cfg csv rs app))"
proof (induction rs arbitrary: app)
  case (Cons r rs)
  obtain w q where r: "r = (w, q)" by (cases r)
  from Cons.IH [OF handle_keeps_index [OF Cons.prems]] show ?case by (simp add: serve_def r)
qed (simp add: serve_def)

text \<open>A question for a range of the script is answered as a newly started application would
  answer it: neither the index built by an earlier request nor anything else that was asked before
  shows in the answer.\<close>

theorem range_answer_independent:
  "snd (handle_request cfg csv w (RangeQuery real_start wc_start duration) (serve cfg csv rs (new_app f)))
     = snd (handle_request cfg csv w (RangeQuery real_start wc_start duration) (new_app f'))"
proof -
  have "range_index_ok csv (ranges (new_app f))" by (simp add: range_index_ok_def new_app_def)
  then have "range_index_ok csv (ranges (serve cfg csv rs (new_app f)))" by (rule serve_keeps_index)
  then show ?thesis
    by (auto simp: get_script_range_def new_app_def get_range_fresh get_range_def [of _ _ None] split: option.splits sum.splits prod.splits)
qed

end
