(* ===== verification/Prometheus.thy ===== *)
theory Prometheus
  imports Json
begin

text \<open>
  \<^verbatim>\<open>system-showcase/app/prometheus_client.py\<close>: the series of a range query with their names and
  their finite points.  The HTTP exchange is the JSON value it ends in or the exception.
\<close>

record PrometheusPoint =
  point_timestamp :: string
  point_value :: rat

definition series_name_of :: "json \<Rightarrow> json" where
  "series_name_of metric =
     (case filter truthy (map (\<lambda>k. jget k metric) [''state'', ''pod'', ''route'', ''method'', ''job'', ''__name__'']) of
        [] \<Rightarrow> JStr ''value''
      | v # _ \<Rightarrow> v)"

text \<open>The parameters of the request; \<open>stamp\<close> is \<^verbatim>\<open>timestamp()\<close> as it is sent.\<close>

definition query_params :: "(int \<Rightarrow> string) \<Rightarrow> string \<Rightarrow> int \<Rightarrow> int \<Rightarrow> int \<Rightarrow> (string \<times> string) list" where
  "query_params stamp query start_at end_at step =
     [(''query'', query), (''start'', stamp start_at), (''end'', stamp end_at), (''step'', int_str step @ ''s'')]"

definition query_url :: "string \<Rightarrow> string" where
  "query_url base_url = rstrip_if (\<lambda>c. c = CHR ''/'') base_url @ ''/api/v1/query_range''"

text \<open>
  One sample: the value is read first, and one that is not finite is passed over before the
  timestamp is looked at.  \<open>local_iso\<close> is \<^verbatim>\<open>datetime.fromtimestamp(t).isoformat()\<close>.
\<close>

definition read_sample :: "(pfloat \<Rightarrow> string py) \<Rightarrow> json \<Rightarrow> PrometheusPoint option py" where
  "read_sample local_iso pair =
     res_bind (iterate pair) (\<lambda>parts. case parts of
       [stamp, v] \<Rightarrow>
         res_bind (float_of_json v) (\<lambda>parsed. case parsed of
           Fin r \<Rightarrow> res_bind (float_of_json stamp) (\<lambda>t. res_bind (local_iso t) (\<lambda>text_at. Inr (Some \<lparr>point_timestamp = text_at, point_value = r\<rparr>)))
         | _ \<Rightarrow> Inr None)
     | _ \<Rightarrow> Inl (ValueError ''not enough or too many values to unpack''))"

definition read_series :: "(pfloat \<Rightarrow> string py) \<Rightarrow> json \<Rightarrow> (json \<times> PrometheusPoint list) py" where
  "read_series local_iso item =
     res_bind (py_get_or ''metric'' (JObj []) item) (\<lambda>metric.
     res_bind (py_get_or ''values'' (JArr []) item) (\<lambda>samples.
     res_bind (iterate samples) (\<lambda>samples.
     res_bind (traverse (read_sample local_iso) samples) (\<lambda>pts.
     res_bind (guard (\<not> is_obj metric) AttributeError) (\<lambda>_.
     Inr (series_name_of metric, concat (map (\<lambda>p. case p of None \<Rightarrow> [] | Some x \<Rightarrow> [x]) pts)))))))"

definition showcase_query_range ::
  "(string \<Rightarrow> (string \<times> string) list \<Rightarrow> json py) \<Rightarrow> (int \<Rightarrow> string) \<Rightarrow> (pfloat \<Rightarrow> string py) \<Rightarrow> string
     \<Rightarrow> string \<Rightarrow> int \<Rightarrow> int \<Rightarrow> int \<Rightarrow> (json \<times> PrometheusPoint list) list py" where
  "showcase_query_range http stamp local_iso base_url query start_at end_at step =
     res_bind (http (query_url base_url) (query_params stamp query start_at end_at step)) (\<lambda>payload.
     res_bind (py_get ''status'' payload) (\<lambda>st.
     res_bind (guard (\<not> json_eq st (JStr ''success'')) (ValueError ''Prometheus query_range failed'')) (\<lambda>_.
     res_bind (py_get_or ''data'' (JObj []) payload) (\<lambda>data.
     res_bind (py_get_or ''result'' (JArr []) data) (\<lambda>result.
     res_bind (iterate result) (\<lambda>items.
     traverse (read_series local_iso) items))))))"

end
