(* ===== verification/Locust.thy ===== *)
theory Locust
  imports Manifest
begin

text \<open>
  \<^verbatim>\<open>locust-test\<close>: the requests of the two kinds of users, the ranges their numbers are drawn from and
  the text they send.  The framework that runs the users is not modelled; the functions of
  \<^verbatim>\<open>random\<close> are parameters.
\<close>

section \<open>Configuration\<close>

definition DEFAULT_TARGET_HOST :: "env \<Rightarrow> string" where
  "DEFAULT_TARGET_HOST env = getenv env ''TARGET_HOST'' ''http://autoscaling-k8s-test''"

definition get_int_or_default :: "env \<Rightarrow> string \<Rightarrow> int \<Rightarrow> int" where
  "get_int_or_default env name dflt = (case py_int (getenv env name (int_str dflt)) of None \<Rightarrow> dflt | Some n \<Rightarrow> n)"

definition get_int_range :: "env \<Rightarrow> string \<Rightarrow> string \<Rightarrow> int \<Rightarrow> int \<Rightarrow> int \<times> int" where
  "get_int_range env min_name max_name default_min default_max =
     (let min_value = get_int_or_default env min_name default_min; max_value = get_int_or_default env max_name default_max in
      if min_value > max_value then (max_value, min_value) else (min_value, max_value))"

text \<open>
  \<^verbatim>\<open>_configure_logging\<close>: whether the warnings of the connection pool are suppressed.  A variable
  without any word has no first one.
\<close>

definition suppress_pool_warnings :: "env \<Rightarrow> bool py" where
  "suppress_pool_warnings env = (case split_words (getenv env ''SUPPRESS_URLLIB3_POOL_WARNINGS'' ''true'') of
     [] \<Rightarrow> Inl (IndexError ''list index out of range'')
   | w # _ \<Rightarrow> Inr (lower w \<in> {''1'', ''true'', ''yes'', ''on''}))"

section \<open>Requests\<close>

datatype locust_method = Get | Post

record locust_request =
  request_method :: locust_method
  request_url :: string
  request_text :: "string option"
  request_name :: string
  request_stream :: bool

definition send_request :: "locust_method \<Rightarrow> string \<Rightarrow> string option \<Rightarrow> string \<Rightarrow> locust_request" where
  "send_request meth url body name =
     \<lparr>request_method = meth, request_url = url, request_text = body, request_name = name, request_stream = True\<rparr>"

text \<open>\<open>randint lo hi\<close> is \<^verbatim>\<open>random.randint(lo, hi)\<close>.\<close>

definition range_prime_request :: "(int \<Rightarrow> int \<Rightarrow> int) \<Rightarrow> env \<Rightarrow> locust_request" where
  "range_prime_request randint env =
     (let (range_min, range_max) = get_int_range env ''PRIME_RANGE_MIN'' ''PRIME_RANGE_MAX'' 1000 500000
      in send_request Get (''/api/prime/range?n='' @ int_str (randint range_min range_max)) None ''/prime/range'')"

definition kth_prime_request :: "(int \<Rightarrow> int \<Rightarrow> int) \<Rightarrow> env \<Rightarrow> locust_request" where
  "kth_prime_request randint env =
     (let (kth_min, kth_max) = get_int_range env ''PRIME_KTH_MIN'' ''PRIME_KTH_MAX'' 1000 50000
      in send_request Get (''/api/prime/kth?k='' @ int_str (randint kth_min kth_max)) None ''/prime/kth'')"

definition check_prime_request :: "(int \<Rightarrow> int \<Rightarrow> int) \<Rightarrow> env \<Rightarrow> locust_request" where
  "check_prime_request randint env =
     (let (check_min, check_max) = get_int_range env ''PRIME_CHECK_MIN'' ''PRIME_CHECK_MAX'' 5000000 100000000
      in send_request Get (''/api/prime/check?n='' @ int_str (randint check_min check_max)) None ''/prime/check'')"

text \<open>\<open>choices i\<close> is what the \<open>i\<close>th call of \<^verbatim>\<open>random.choices\<close> draws: five lower-case letters.\<close>

definition random_text :: "(nat \<Rightarrow> string) \<Rightarrow> nat \<Rightarrow> string" where
  "random_text choices n = join_with '' '' (map choices [0..<n div 5])"

definition analyze_text_request :: "(nat \<Rightarrow> string) \<Rightarrow> locust_request" where
  "analyze_text_request choices = send_request Post ''/text/analyze'' (Some (random_text choices 1000)) ''/text/analyze''"

definition transform_text_request :: "(nat \<Rightarrow> string) \<Rightarrow> locust_request" where
  "transform_text_request choices =
     send_request Post ''/text/transform?rounds=50'' (Some (random_text choices 200)) ''/text/transform''"

section \<open>Users\<close>

text \<open>A task of a user with its weight; a user waits between two bounds after each.\<close>

datatype locust_task = RangePrime | KthPrime | CheckPrime | AnalyzeText | TransformText

fun run_locust_task :: "(int \<Rightarrow> int \<Rightarrow> int) \<Rightarrow> (nat \<Rightarrow> string) \<Rightarrow> env \<Rightarrow> locust_task \<Rightarrow> locust_request" where
  "run_locust_task randint choices env RangePrime = range_prime_request randint env"
| "run_locust_task randint choices env KthPrime = kth_prime_request randint env"
| "run_locust_task randint choices env CheckPrime = check_prime_request randint env"
| "run_locust_task randint choices env AnalyzeText = analyze_text_request choices"
| "run_locust_task randint choices env TransformText = transform_text_request choices"

record locust_user =
  user_host :: string
  user_wait :: "int \<times> int"
  user_tasks :: "(int \<times> locust_task) list"

definition prime_user :: "env \<Rightarrow> locust_user" where
  "prime_user env = \<lparr>user_host = DEFAULT_TARGET_HOST env, user_wait = (1, 1),
     user_tasks = [(1, RangePrime), (1, KthPrime), (1, CheckPrime)]\<rparr>"

definition text_user :: "env \<Rightarrow> locust_user" where
  "text_user env = \<lparr>user_host = DEFAULT_TARGET_HOST env, user_wait = (1, 2),
     user_tasks = [(1, AnalyzeText), (1, TransformText)]\<rparr>"

text \<open>The module: the users with their weights.\<close>

definition user_weight :: "env \<Rightarrow> string \<Rightarrow> int \<Rightarrow> int py" where
  "user_weight env name dflt = (case env name of None \<Rightarrow> Inr dflt
     | Some v \<Rightarrow> or_raise (ValueError ''invalid literal for int'') (py_int v))"

definition locustfile :: "env \<Rightarrow> (int \<times> locust_user) list py" where
  "locustfile env =
     res_bind (suppress_pool_warnings env) (\<lambda>_.
     res_bind (user_weight env ''PRIME_USER_WEIGHT'' 1) (\<lambda>prime.
     res_bind (user_weight env ''TEXT_USER_WEIGHT'' 2) (\<lambda>txt.
     Inr [(prime, prime_user env), (txt, text_user env)])))"

section \<open>Properties\<close>

text \<open>An address is \<open>path\<close> and a number between two values, whichever of them is the larger.\<close>

definition asks_between :: "string \<Rightarrow> int \<Rightarrow> int \<Rightarrow> string \<Rightarrow> bool" where
  "asks_between path x y url \<longleftrightarrow> (\<exists>n. url = path @ int_str n \<and> min x y \<le> n \<and> n \<le> max x y)"

lemma asks_in_range:
  assumes "\<And>lo hi. lo \<le> hi \<Longrightarrow> lo \<le> randint lo hi \<and> randint lo hi \<le> hi"
  shows "asks_between path (get_int_or_default env a x) (get_int_or_default env b y)
    (request_url (let (lo, hi) = get_int_range env a b x y in send_request Get (path @ int_str (randint lo hi)) None name))"
proof -
  let ?x = "get_int_or_default env a x" and ?y = "get_int_or_default env b y"
  have "get_int_range env a b x y = (min ?x ?y, max ?x ?y)" by (simp add: get_int_range_def Let_def)
  moreover have "min ?x ?y \<le> randint (min ?x ?y) (max ?x ?y) \<and> randint (min ?x ?y) (max ?x ?y) \<le> max ?x ?y"
    by (rule assms) simp
  ultimately show ?thesis
    unfolding asks_between_def send_request_def by (intro exI [of _ "randint (min ?x ?y) (max ?x ?y)"]) simp
qed

text \<open>
  Whatever the environment holds, also bounds in the wrong order or no numbers, no task asks for
  a number of an empty range and the number it sends lies between the two bounds.
\<close>

theorem prime_requests_in_bounds:
  assumes "\<And>lo hi. lo \<le> hi \<Longrightarrow> lo \<le> randint lo hi \<and> randint lo hi \<le> hi"
  shows "asks_between ''/api/prime/range?n='' (get_int_or_default env ''PRIME_RANGE_MIN'' 1000)
      (get_int_or_default env ''PRIME_RANGE_MAX'' 500000) (request_url (run_locust_task randint choices env RangePrime))
    \<and> asks_between ''/api/prime/kth?k='' (get_int_or_default env ''PRIME_KTH_MIN'' 1000)
      (get_int_or_default env ''PRIME_KTH_MAX'' 50000) (request_url (run_locust_task randint choices env KthPrime))
    \<and> asks_between ''/api/prime/check?n='' (get_int_or_default env ''PRIME_CHECK_MIN'' 5000000)
      (get_int_or_default env ''PRIME_CHECK_MAX'' 100000000) (request_url (run_locust_task randint choices env CheckPrime))"
  unfolding run_locust_task.simps range_prime_request_def kth_prime_request_def check_prime_request_def
  by (intro conjI asks_in_range assms)

theorem prime_requests_in_bounds_witness:
  "asks_between ''/api/prime/kth?k='' 9 7
    (request_url (run_locust_task (\<lambda>lo hi. hi) (\<lambda>_. []) [''PRIME_KTH_MIN'' \<mapsto> ''9'', ''PRIME_KTH_MAX'' \<mapsto> ''7''] KthPrime))"
proof -
  let ?env = "[''PRIME_KTH_MIN'' \<mapsto> ''9'', ''PRIME_KTH_MAX'' \<mapsto> ''7'']"
  have "py_int ''9'' = Some 9" "py_int ''7'' = Some 7" by code_simp+
  then have "get_int_or_default ?env ''PRIME_KTH_MIN'' 1000 = 9" "get_int_or_default ?env ''PRIME_KTH_MAX'' 50000 = 7"
    by (simp_all add: get_int_or_default_def getenv_def)
  with prime_requests_in_bounds [of "\<lambda>lo hi. hi" ?env "\<lambda>_. []", THEN conjunct2, THEN conjunct1]
  show ?thesis by (simp only: order_refl simp_thms)
qed

text \<open>The text has one word of five letters for every five characters asked for, and the blanks between
  them on top.\<close>

lemma random_text_length:
  assumes "\<And>i. length (choices i) = 5" "5 \<le> n"
  shows "length (random_text choices n) = 6 * (n div 5) - 1"
proof -
  have "length (join_with '' '' (map choices is)) = 6 * length is - 1" for "is"
  proof (induction "is")
    case (Cons i "is")
    then show ?case using assms(1) by (cases "is") simp_all
  qed simp
  from this [of "[0..<n div 5]"] show ?thesis by (simp add: random_text_def)
qed

end
