(* ===== verification/Host.thy ===== *)
theory Host
  imports Json Effects
begin

text \<open>
  What the scripts of \<^verbatim>\<open>linux-script\<close> do to the world: calls of the Vultr API, commands, the
  monotonic clock and pauses, as arguments of the model; the environment variables and the waiting
  loops they have in common.
\<close>

section \<open>The world of a script\<close>

datatype http_call = Get string | Post string json | Patch string json | Delete string

datatype http_answer = Answer string | HttpError int | UrlError

text \<open>
  A command is its words and the variables added to its environment, and gives its exit code or
  is not found.  \<open>write_json\<close> writes the text of a value to a file, \<open>read_text\<close> gives the content
  of a path that is a file.  \<open>loads\<close> is \<^verbatim>\<open>json.loads\<close>, \<open>None\<close> where it fails to decode.
\<close>

record 'w host =
  http :: "http_call \<Rightarrow> 'w \<Rightarrow> http_answer \<times> 'w"
  run :: "string list \<Rightarrow> (string \<times> string) list \<Rightarrow> 'w \<Rightarrow> int py \<times> 'w"
  monotonic :: "'w \<Rightarrow> rat"
  pause :: "int \<Rightarrow> 'w \<Rightarrow> 'w"
  write_json :: "string \<Rightarrow> json \<Rightarrow> 'w \<Rightarrow> 'w"
  read_text :: "string \<Rightarrow> 'w \<Rightarrow> string option"
  loads :: "string \<Rightarrow> json option"

text \<open>\<^verbatim>\<open>except WorkerTeardownError\<close> and the like: the scripts' own errors are runtime errors.\<close>

definition own_error :: "py_exn \<Rightarrow> bool" where
  "own_error e = (case e of RuntimeError _ \<Rightarrow> True | _ \<Rightarrow> False)"

text \<open>
  The handlers of \<^verbatim>\<open>main\<close>: own errors end the script with 1, a failed command with its exit
  code, a command that does not exist with 1.
\<close>

definition exit_on_own_error :: "('w, int) script \<Rightarrow> ('w, int) script" where
  "exit_on_own_error m = (\<lambda>w. case m w of
     Some (Inl e, w') \<Rightarrow> if own_error e then Some (Inr 1, w') else Some (Inl e, w')
   | r \<Rightarrow> r)"

definition exit_on_error :: "('w, int) script \<Rightarrow> ('w, int) script" where
  "exit_on_error m = (\<lambda>w. case m w of
     Some (Inl e, w') \<Rightarrow>
       (case e of
          RuntimeError _ \<Rightarrow> Some (Inr 1, w')
        | CalledProcessError code \<Rightarrow> Some (Inr (if code \<noteq> 0 then code else 1), w')
        | FileNotFoundError \<Rightarrow> Some (Inr 1, w')
        | _ \<Rightarrow> Some (Inl e, w'))
   | r \<Rightarrow> r)"

lemma exit_on_error_0: "exit_on_error m w = Some (Inr 0, w') \<Longrightarrow> m w = Some (Inr 0, w')"
  by (auto simp: exit_on_error_def split: option.splits sum.splits prod.splits py_exn.splits if_splits)

section \<open>Calls and commands\<close>

text \<open>\<^verbatim>\<open>None\<close>, the answer of an empty body, is \<open>JNull\<close>.\<close>

definition api_call :: "'w host \<Rightarrow> http_call \<Rightarrow> 'w \<Rightarrow> json py \<times> 'w" where
  "api_call h c w = (case http h c w of
     (Answer raw, w') \<Rightarrow>
       (if strip raw = [] then Inr JNull
        else or_raise (ValueError ''JSONDecodeError'') (loads h raw), w')
   | (HttpError status, w') \<Rightarrow> (Inl (RuntimeError ''Vultr API request failed.''), w')
   | (UrlError, w') \<Rightarrow> (Inl (RuntimeError ''Vultr API request failed.''), w'))"

definition call_api :: "'w host \<Rightarrow> http_call \<Rightarrow> ('w, json) script" where
  "call_api h c = (\<lambda>w. Some (api_call h c w))"

text \<open>\<^verbatim>\<open>run_command\<close> with and without \<^verbatim>\<open>check\<close>.\<close>

definition run_unchecked :: "'w host \<Rightarrow> string list \<Rightarrow> ('w, int) script" where
  "run_unchecked h args = (\<lambda>w. Some (run h args [] w))"

definition run_command :: "'w host \<Rightarrow> string list \<Rightarrow> (string \<times> string) list \<Rightarrow> ('w, unit) script" where
  "run_command h args env = (\<lambda>w. case run h args env w of
     (Inl e, w') \<Rightarrow> Some (Inl e, w')
   | (Inr code, w') \<Rightarrow> Some (if code = 0 then Inr () else Inl (CalledProcessError code), w'))"

lemma run_commandE: "run_command h args env w = Some (Inr u, w') \<Longrightarrow> run h args env w = (Inr 0, w')"
  by (auto simp: run_command_def split: prod.splits sum.splits if_splits)

section \<open>Environment variables\<close>

definition require_env :: "env \<Rightarrow> string \<Rightarrow> string py" where
  "require_env env name =
     (let v = strip (getenv env name []) in
      if v = [] then Inl (RuntimeError (''Missing required environment variable: '' @ name)) else Inr v)"

definition get_bool_env :: "env \<Rightarrow> string \<Rightarrow> string \<Rightarrow> bool py" where
  "get_bool_env env name dflt =
     (let v = lower (strip (getenv env name dflt)) in
      if v \<in> {''1'', ''true'', ''yes'', ''on''} then Inr True
      else if v \<in> {''0'', ''false'', ''no'', ''off''} then Inr False
      else Inl (RuntimeError (''Environment variable '' @ name @ '' must be one of: true, false, 1, 0, yes, no, on, off'')))"

definition get_int_env :: "env \<Rightarrow> string \<Rightarrow> string \<Rightarrow> int py" where
  "get_int_env env name dflt =
     or_raise (RuntimeError (''Environment variable '' @ name @ '' must be an integer.'')) (py_int (strip (getenv env name dflt)))"

section \<open>Waiting\<close>

text \<open>\<^verbatim>\<open>time.sleep\<close>\<close>

definition sleep :: "'w host \<Rightarrow> int \<Rightarrow> 'w \<Rightarrow> unit py \<times> 'w" where
  "sleep h seconds w = (if seconds < 0 then (Inl (ValueError ''sleep length must be non-negative''), w) else (Inr (), pause h seconds w))"

text \<open>
  \<^verbatim>\<open>while time.monotonic() < deadline: ...; time.sleep(interval)\<close>: an attempt either ends the
  loop with a value, raises, or leaves it to the next round.  \<open>None\<close> would be a loop that never
  ends; \<open>Some (Inr None, w)\<close> is the deadline.
\<close>

partial_function (option) wait_until ::
  "'w host \<Rightarrow> rat \<Rightarrow> int \<Rightarrow> ('s \<Rightarrow> 'w \<Rightarrow> ('r + 's) py \<times> 'w) \<Rightarrow> 's \<Rightarrow> 'w \<Rightarrow> ('r option py \<times> 'w) option" where
  "wait_until h deadline interval attempt s w =
     (if \<not> monotonic h w < deadline then Some (Inr None, w)
      else case attempt s w of
        (Inl e, w1) \<Rightarrow> Some (Inl e, w1)
      | (Inr (Inl r), w1) \<Rightarrow> Some (Inr (Some r), w1)
      | (Inr (Inr s'), w1) \<Rightarrow> (case sleep h interval w1 of
            (Inl e, w2) \<Rightarrow> Some (Inl e, w2)
          | (Inr _, w2) \<Rightarrow> wait_until h deadline interval attempt s' w2))"

declare wait_until.simps [code]

definition deadline_after :: "'w host \<Rightarrow> int \<Rightarrow> 'w \<Rightarrow> rat" where
  "deadline_after h seconds w = fadd (monotonic h w) (of_int seconds)"

text \<open>The clock never goes back and a pause is at least as long as asked for.\<close>

definition clock_ok :: "'w host \<Rightarrow> bool" where
  "clock_ok h \<longleftrightarrow> (\<forall>c w. monotonic h w \<le> monotonic h (snd (http h c w)))
     \<and> (\<forall>args env w. monotonic h w \<le> monotonic h (snd (run h args env w)))
     \<and> (\<forall>path v w. monotonic h w \<le> monotonic h (write_json h path v w))
     \<and> (\<forall>n w. 0 \<le> n \<longrightarrow> monotonic h w + of_int n \<le> monotonic h (pause h n w))"

lemma wait_until_returns:
  assumes clock: "clock_ok h" and pos: "interval \<noteq> 0"
    and mono: "\<And>s w. monotonic h w \<le> monotonic h (snd (attempt s w))"
  shows "\<exists>r. wait_until h deadline interval attempt s w = Some r"
proof -
  have "\<exists>r. wait_until h deadline interval attempt s w = Some r" if "deadline - monotonic h w \<le> of_nat n" for n s w
    using that
  proof (induction n arbitrary: s w)
    case 0
    then have "\<not> monotonic h w < deadline" by simp
    then show ?case by (simp add: wait_until.simps)
  next
    case (Suc n)
    show ?case
    proof (cases "monotonic h w < deadline")
      case False
      then show ?thesis by (simp add: wait_until.simps)
    next
      case True
      obtain a w1 where a: "attempt s w = (a, w1)" by (cases "attempt s w")
      have step: "\<exists>r. wait_until h deadline interval attempt s' w2 = Some r" if "sleep h interval w1 = (Inr u, w2)" for s' w2 u
      proof -
        from that have i: "0 \<le> interval" and w2: "w2 = pause h interval w1" by (auto simp: sleep_def split: if_splits)
        from i pos have "(1::rat) \<le> of_int interval" by simp
        moreover have "monotonic h w1 + of_int interval \<le> monotonic h w2" using clock i unfolding w2 clock_ok_def by blast
        moreover have "monotonic h w \<le> monotonic h w1" using mono [of w s] a by simp
        ultimately have "deadline - monotonic h w2 \<le> of_nat n" using Suc.prems by simp
        then show ?thesis by (rule Suc.IH)
      qed
      obtain b w2 where b: "sleep h interval w1 = (b, w2)" by (cases "sleep h interval w1")
      show ?thesis
        using True step a b
        by (subst wait_until.simps) (auto split: sum.split prod.split)
    qed
  qed
  moreover obtain n :: nat where "deadline - monotonic h w \<le> of_nat n" by (meson reals_Archimedean2 less_imp_le)
  ultimately show ?thesis by blast
qed

text \<open>What the loop gives, if anything, is what its last attempt gave.\<close>

lemma wait_until_result:
  assumes "wait_until h deadline interval attempt s w = Some (Inr (Some r), w')"
  shows "\<exists>s' w0. attempt s' w0 = (Inr (Inl r), w')"
proof -
  have "\<forall>r w'. y = (Inr (Some r), w') \<longrightarrow> (\<exists>s' w0. attempt s' w0 = (Inr (Inl r), w'))"
    if "wait_until h deadline interval attempt s w = Some y" for y
    using that
    by (rule wait_until.raw_induct [where P = "\<lambda>h deadline interval attempt s w y.
          \<forall>r w'. y = (Inr (Some r), w') \<longrightarrow> (\<exists>s' w0. attempt s' w0 = (Inr (Inl r), w'))", rotated])
      (auto split: if_splits prod.splits sum.splits)
  with assms show ?thesis by blast
qed

section \<open>Scripts that return\<close>

lemma returns_call_api [returns_intros]: "returns (call_api h c)"
  and returns_run_unchecked [returns_intros]: "returns (run_unchecked h args)"
  by (simp_all add: returns_def call_api_def run_unchecked_def)

lemma returns_run_command [returns_intros]: "returns (run_command h args env)"
  by (auto simp: returns_def run_command_def split: prod.split sum.split)

lemma returns_exit [returns_intros]: "returns m \<Longrightarrow> returns (exit_on_error m)" "returns m \<Longrightarrow> returns (exit_on_own_error m)"
  by (auto simp: returns_def exit_on_error_def exit_on_own_error_def split: option.split sum.split py_exn.split)

lemma api_call_clock: "clock_ok h \<Longrightarrow> monotonic h w \<le> monotonic h (snd (api_call h c w))"
  unfolding clock_ok_def api_call_def by (auto split: prod.split http_answer.split dest: spec2) (metis snd_conv)+

text \<open>A waiting loop inside a script returns when its attempts do not turn the clock back.\<close>

lemma returns_wait:
  assumes "clock_ok h" and "interval \<noteq> 0" and "\<And>s w. monotonic h w \<le> monotonic h (snd (attempt s w))"
    and "\<And>x. returns (f x)"
  shows "returns (\<lambda>w. s_bind (wait_until h (deadline w) interval attempt s) f w)"
proof -
  have "s_bind (wait_until h (deadline w) interval attempt s) f w \<noteq> None" for w
    using wait_until_returns [where attempt = attempt and deadline = "deadline w" and s = s and w = w, OF assms(1-3)] assms(4)
    unfolding returns_def s_bind_def by (auto split: sum.split)
  then show ?thesis by (simp add: returns_def)
qed

end
