(* ===== verification/Attach.thy ===== *)
theory Attach
  imports Host
begin

text \<open>
  Attaching a worker to the load balancer (\<^verbatim>\<open>linux-script/attach-vm-to-lb.py\<close>): the instance
  is found by its public address, the list of backends is extended by it and the script waits
  until the load balancer shows it.
\<close>

section \<open>Configuration and answers\<close>

record attach_config =
  target_load_balancer_id :: string
  target_public_ip :: string
  vultr_api_key :: string
  vultr_api_base :: string
  wait_timeout_seconds :: int
  wait_interval_seconds :: int

record InstanceSummary =
  instance_id :: string
  instance_label :: string
  instance_region :: string
  instance_status :: string
  server_status :: string
  public_ip :: string

record LoadBalancerSummary =
  lb_id :: string
  lb_label :: string
  lb_region :: string
  lb_status :: string
  lb_ip :: string
  lb_instances :: "string list"

definition attach_load_config :: "env \<Rightarrow> string \<Rightarrow> attach_config py" where
  "attach_load_config env ip =
     res_bind (require_env env ''VULTR_LOAD_BALANCER_ID'') (\<lambda>lb.
     res_bind (require_env env ''VULTR_API_KEY'') (\<lambda>key.
     res_bind (get_int_env env ''WAIT_TIMEOUT_SECONDS'' ''300'') (\<lambda>timeout.
     res_bind (get_int_env env ''WAIT_INTERVAL_SECONDS'' ''5'') (\<lambda>interval.
     Inr \<lparr>target_load_balancer_id = lb, target_public_ip = ip, vultr_api_key = key,
       vultr_api_base = getenv env ''VULTR_API_BASE'' ''https://api.vultr.com/v2'',
       wait_timeout_seconds = timeout, wait_interval_seconds = interval\<rparr>))))"

text \<open>\<^verbatim>\<open>str(d.get(key, ""))\<close>\<close>

definition text_of :: "string \<Rightarrow> json \<Rightarrow> string" where
  "text_of key d = py_str (jget_or key (JStr []) d)"

text \<open>The first instance with a given text under a key.\<close>

definition instance_with :: "string \<Rightarrow> string \<Rightarrow> json \<Rightarrow> json option py" where
  "instance_with key v data =
     (if \<not> truthy data then Inr None
      else res_bind (py_get_or ''instances'' (JArr []) data) (\<lambda>instances.
        if \<not> is_arr instances then Inl (RuntimeError ''Unsupported Vultr instance response shape.'')
        else Inr (find (\<lambda>i. is_obj i \<and> text_of key i = v) (arr_items instances))))"

definition parse_instance_id_by_public_ip :: "json \<Rightarrow> string \<Rightarrow> string py" where
  "parse_instance_id_by_public_ip data ip =
     res_bind (instance_with ''main_ip'' ip data) (\<lambda>found. case found of
       None \<Rightarrow> Inl (RuntimeError ''No Vultr instance found with public IP'')
     | Some i \<Rightarrow> Inr (text_of ''id'' i))"

definition parse_instance_summary :: "json \<Rightarrow> string \<Rightarrow> InstanceSummary py" where
  "parse_instance_summary data target =
     res_bind (instance_with ''id'' target data) (\<lambda>found. case found of
       None \<Rightarrow> Inl (RuntimeError ''No Vultr instance found with id'')
     | Some i \<Rightarrow> Inr \<lparr>instance_id = target, instance_label = text_of ''label'' i, instance_region = text_of ''region'' i,
         instance_status = text_of ''status'' i, server_status = text_of ''server_status'' i, public_ip = text_of ''main_ip'' i\<rparr>)"

text \<open>\<^verbatim>\<open>[str(i) for i in lb.get("instances", []) if i]\<close>\<close>

definition listed_instances :: "json \<Rightarrow> string list py" where
  "listed_instances lb =
     res_bind (iterate (jget_or ''instances'' (JArr []) lb)) (\<lambda>is. Inr (map py_str (filter truthy is)))"

definition parse_lb_summary :: "json \<Rightarrow> LoadBalancerSummary py" where
  "parse_lb_summary data =
     (if \<not> truthy data then Inl (RuntimeError ''Vultr load balancer response was empty.'')
      else res_bind (py_get_or ''load_balancer'' (JObj []) data) (\<lambda>lb.
        if \<not> is_obj lb then Inl (RuntimeError ''Unsupported Vultr load balancer response shape.'')
        else res_bind (listed_instances lb) (\<lambda>is.
        Inr \<lparr>lb_id = text_of ''id'' lb, lb_label = text_of ''label'' lb, lb_region = text_of ''region'' lb,
          lb_status = text_of ''status'' lb, lb_ip = text_of ''ip'' lb, lb_instances = is\<rparr>)))"

text \<open>The payload lists every backend once, the new one last.\<close>

definition merge_instances :: "string list \<Rightarrow> string \<Rightarrow> string list" where
  "merge_instances instances target =
     foldl (\<lambda>merged i. if i = [] \<or> i \<in> set merged then merged else merged @ [i]) [] (instances @ [target])"

definition instances_payload :: "string list \<Rightarrow> json" where
  "instances_payload is = JObj [(''instances'', JArr (map JStr is))]"

definition build_patch_payload :: "LoadBalancerSummary \<Rightarrow> string \<Rightarrow> json" where
  "build_patch_payload lb target = instances_payload (merge_instances (lb_instances lb) target)"

definition attached :: "LoadBalancerSummary \<Rightarrow> string \<Rightarrow> bool" where
  "attached lb target \<longleftrightarrow> target \<in> set (lb_instances lb)"

section \<open>The script\<close>

definition lb_path :: "string \<Rightarrow> string" where
  "lb_path lb = ''/load-balancers/'' @ lb"

definition all_instances :: string where
  "all_instances = ''/instances?per_page=500''"

definition resolve_by_ip :: "json \<Rightarrow> string \<Rightarrow> InstanceSummary py" where
  "resolve_by_ip data ip = res_bind (parse_instance_id_by_public_ip data ip) (parse_instance_summary data)"

text \<open>One round of a wait: own errors of the parser leave it to the next round.\<close>

definition resolve_attempt ::
  "'w host \<Rightarrow> (json \<Rightarrow> 'r option py) \<Rightarrow> unit \<Rightarrow> 'w \<Rightarrow> ('r + unit) py \<times> 'w" where
  "resolve_attempt h parse u w = (case api_call h (Get all_instances) w of
     (Inl e, w') \<Rightarrow> (Inl e, w')
   | (Inr data, w') \<Rightarrow> ((case parse data of
         Inr (Some r) \<Rightarrow> Inr (Inl r)
       | Inr None \<Rightarrow> Inr (Inr ())
       | Inl e \<Rightarrow> if own_error e then Inr (Inr ()) else Inl e), w'))"

definition wait_for_instance_resolution :: "'w host \<Rightarrow> attach_config \<Rightarrow> ('w, InstanceSummary) script" where
  "wait_for_instance_resolution h cfg = (\<lambda>w.
     s_bind (wait_until h (deadline_after h (wait_timeout_seconds cfg) w) (wait_interval_seconds cfg)
         (resolve_attempt h (\<lambda>data. res_bind (resolve_by_ip data (target_public_ip cfg)) (\<lambda>s. Inr (Some s)))) ())
       (\<lambda>found. case found of
          Some s \<Rightarrow> s_return s
        | None \<Rightarrow> s_bind (call_api h (Get all_instances)) (\<lambda>data. of_py (resolve_by_ip data (target_public_ip cfg)))) w)"

definition attach_attempt :: "'w host \<Rightarrow> attach_config \<Rightarrow> string \<Rightarrow> unit \<Rightarrow> 'w \<Rightarrow> (unit + unit) py \<times> 'w" where
  "attach_attempt h cfg target u w = (case api_call h (Get (lb_path (target_load_balancer_id cfg))) w of
     (Inl e, w') \<Rightarrow> (Inl e, w')
   | (Inr data, w') \<Rightarrow>
       (res_bind (parse_lb_summary data) (\<lambda>lb. Inr (if attached lb target then Inl () else Inr ())), w'))"

definition wait_for_attachment :: "'w host \<Rightarrow> attach_config \<Rightarrow> string \<Rightarrow> ('w, int) script" where
  "wait_for_attachment h cfg target = (\<lambda>w.
     s_bind (wait_until h (deadline_after h (wait_timeout_seconds cfg) w) (wait_interval_seconds cfg)
         (attach_attempt h cfg target) ())
       (\<lambda>found. case found of
          Some _ \<Rightarrow> s_return 0
        | None \<Rightarrow> of_py (Inl (RuntimeError ''Timed out waiting for load balancer to include instance''))) w)"

definition attach_vm :: "'w host \<Rightarrow> attach_config \<Rightarrow> ('w, int) script" where
  "attach_vm h cfg =
     s_bind (wait_for_instance_resolution h cfg) (\<lambda>vm.
     s_bind (call_api h (Get (lb_path (target_load_balancer_id cfg)))) (\<lambda>data.
     s_bind (of_py (parse_lb_summary data)) (\<lambda>lb.
     if instance_region vm \<noteq> lb_region lb then of_py (Inl (RuntimeError ''Instance region does not match load balancer region.''))
     else if attached lb (instance_id vm) then s_return 0
     else s_bind (call_api h (Patch (lb_path (target_load_balancer_id cfg)) (build_patch_payload lb (instance_id vm)))) (\<lambda>_.
       wait_for_attachment h cfg (instance_id vm)))))"

definition attach_main :: "'w host \<Rightarrow> env \<Rightarrow> string list \<Rightarrow> ('w, int) script" where
  "attach_main h env args = (case args of
     [ip] \<Rightarrow> exit_on_own_error (s_bind (of_py (attach_load_config env ip)) (attach_vm h))
   | _ \<Rightarrow> s_return 1)"

section \<open>The list of backends\<close>

lemma merge_instances_spec:
  "distinct (merge_instances is target)" "set (merge_instances is target) = (set is \<union> {target}) - {[]}"
proof -
  have "distinct (foldl (\<lambda>merged i. if i = [] \<or> i \<in> set merged then merged else merged @ [i]) m xs)
      \<and> set (foldl (\<lambda>merged i. if i = [] \<or> i \<in> set merged then merged else merged @ [i]) m xs) = set m \<union> (set xs - {[]})"
    if "distinct m" for m xs :: "string list"
    using that by (induction xs arbitrary: m) auto
  from this [of "[]" "is @ [target]"]
  show "distinct (merge_instances is target)" "set (merge_instances is target) = (set is \<union> {target}) - {[]}"
    by (auto simp: merge_instances_def)
qed

lemma merge_instances_new:
  assumes "distinct is" "[] \<notin> set is" "target \<noteq> []" "target \<notin> set is"
  shows "merge_instances is target = is @ [target]"
proof -
  have "foldl (\<lambda>merged i. if i = [] \<or> i \<in> set merged then merged else merged @ [i]) m xs = m @ xs"
    if "distinct (m @ xs)" "[] \<notin> set xs" for m xs :: "string list"
    using that by (induction xs arbitrary: m) auto
  from this [of "[]" "is @ [target]"] assms show ?thesis by (simp add: merge_instances_def)
qed

lemma attach_attempt_attached:
  assumes "attach_attempt h cfg target u w = (Inr (Inl r), w')"
  shows "\<exists>data lb. api_call h (Get (lb_path (target_load_balancer_id cfg))) w = (Inr data, w')
     \<and> parse_lb_summary data = Inr lb \<and> attached lb target"
  using assms by (auto simp: attach_attempt_def res_bind_Inr_iff split: prod.splits sum.splits if_splits)

lemma resolve_attempt_clock: "clock_ok h \<Longrightarrow> monotonic h w \<le> monotonic h (snd (resolve_attempt h parse u w))"
  using api_call_clock [of h w "Get all_instances"]
  by (auto simp: resolve_attempt_def split: prod.split sum.split)

lemma attach_attempt_clock: "clock_ok h \<Longrightarrow> monotonic h w \<le> monotonic h (snd (attach_attempt h cfg target u w))"
  using api_call_clock [of h w "Get (lb_path (target_load_balancer_id cfg))"]
  by (auto simp: attach_attempt_def split: prod.split sum.split)

lemma returns_attach_main:
  assumes "clock_ok h" and "\<And>cfg ip. attach_load_config env ip = Inr cfg \<Longrightarrow> wait_interval_seconds cfg \<noteq> 0"
  shows "returns (attach_main h env args)"
proof -
  have vm: "returns (wait_for_instance_resolution h cfg)" "returns (wait_for_attachment h cfg target)"
    if "wait_interval_seconds cfg \<noteq> 0" for cfg target
    unfolding wait_for_instance_resolution_def wait_for_attachment_def
    by (rule returns_wait; (rule assms(1) that resolve_attempt_clock attach_attempt_clock returns_intros assms(1))+)+
  show ?thesis
    unfolding attach_main_def attach_vm_def
    by (auto split: list.split intro!: returns_intros returns_bind_py vm assms(2))
qed

text \<open>
  What a list of backends is used for: an instance can be put in and taken out.  Operations are
  replayed in the order they are made.
\<close>

locale backend_pool =
  fixes members :: "'l \<Rightarrow> string set"
    and put_in :: "string \<Rightarrow> 'l \<Rightarrow> 'l"
    and take_out :: "string \<Rightarrow> 'l \<Rightarrow> 'l"
  assumes members_put_in: "i \<noteq> [] \<Longrightarrow> members (put_in i l) = insert i (members l)"
    and members_take_out: "members (take_out i l) = members l - {i}"
begin

definition replay :: "(bool \<times> string) list \<Rightarrow> 'l \<Rightarrow> 'l" where
  "replay ops l = fold (\<lambda>(attach, i). if attach then put_in i else take_out i) ops l"

lemma replay_snoc: "replay (ops @ [(a, i)]) l = (if a then put_in i (replay ops l) else take_out i (replay ops l))"
  by (simp add: replay_def)

text \<open>An instance is a backend if its last operation attached it, or if there was none and it was one before.\<close>

lemma members_replay:
  assumes "\<forall>(a, i) \<in> set ops. i \<noteq> []"
  shows "i \<in> members (replay ops l) \<longleftrightarrow>
    (case filter (\<lambda>p. snd p = i) ops of [] \<Rightarrow> i \<in> members l | p # ps \<Rightarrow> fst (last (p # ps)))"
  using assms
proof (induction ops rule: rev_induct)
  case Nil
  then show ?case by (simp add: replay_def)
next
  case (snoc p ops)
  obtain a j where p: "p = (a, j)" by (cases p)
  have j: "j \<noteq> []" using snoc.prems p by auto
  have IH: "i \<in> members (replay ops l) \<longleftrightarrow>
      (case filter (\<lambda>p. snd p = i) ops of [] \<Rightarrow> i \<in> members l | p # ps \<Rightarrow> fst (last (p # ps)))"
    using snoc by auto
  show ?case
  proof (cases "j = i")
    case True
    have "(case xs @ [(a, i)] of [] \<Rightarrow> i \<in> members l | p # ps \<Rightarrow> fst (last (p # ps))) = a" for xs
      by (cases xs) auto
    with True j show ?thesis by (simp add: p replay_snoc members_put_in members_take_out)
  next
    case False
    with IH j show ?thesis by (auto simp: p replay_snoc members_put_in members_take_out)
  qed
qed

lemma put_in_take_out: "i \<noteq> [] \<Longrightarrow> i \<notin> members l \<Longrightarrow> members (take_out i (put_in i l)) = members l"
  by (auto simp: members_put_in members_take_out)

end

end
