(* ===== verification/Teardown.thy ===== *)
theory Teardown
  imports Attach
begin

text \<open>
  Removing a worker (\<^verbatim>\<open>linux-script/teardown-vultr-worker.py\<close>): its node leaves the cluster, its
  instance leaves the load balancer and is then destroyed, each step waited for before the next.
\<close>

section \<open>Configuration and answers\<close>

record teardown_config =
  target_node_name :: string
  td_load_balancer_id :: string
  td_api_key :: string
  td_api_base :: string
  td_timeout :: int
  td_interval :: int
  kubectl_drain_timeout :: string
  kubectl_grace_period :: string
  debug_instance_lookup :: bool
  vultr_label_prefix :: string
  vultr_hostname_prefix :: string

record InstanceMatch =
  match_id :: string
  match_label :: string
  match_hostname :: string
  match_public_ip :: string

definition teardown_load_config :: "env \<Rightarrow> string \<Rightarrow> teardown_config py" where
  "teardown_load_config env node =
     res_bind (require_env env ''VULTR_LOAD_BALANCER_ID'') (\<lambda>lb.
     res_bind (require_env env ''VULTR_API_KEY'') (\<lambda>key.
     res_bind (get_int_env env ''WAIT_TIMEOUT_SECONDS'' ''300'') (\<lambda>timeout.
     res_bind (get_int_env env ''WAIT_INTERVAL_SECONDS'' ''5'') (\<lambda>interval.
     res_bind (get_bool_env env ''DEBUG_VULTR_INSTANCE_LOOKUP'' ''false'') (\<lambda>debug.
     Inr \<lparr>target_node_name = node, td_load_balancer_id = lb, td_api_key = key,
       td_api_base = getenv env ''VULTR_API_BASE'' ''https://api.vultr.com/v2'',
       td_timeout = timeout, td_interval = interval,
       kubectl_drain_timeout = getenv env ''KUBECTL_DRAIN_TIMEOUT'' ''5m'',
       kubectl_grace_period = getenv env ''KUBECTL_GRACE_PERIOD'' ''30'',
       debug_instance_lookup = debug, vultr_label_prefix = getenv env ''VULTR_LABEL_PREFIX'' [],
       vultr_hostname_prefix = getenv env ''VULTR_HOSTNAME_PREFIX'' []\<rparr>)))))"

text \<open>The names an instance of the node may have: the node's, with and without the prefix.\<close>

definition expected_names :: "string \<Rightarrow> string \<Rightarrow> string set" where
  "expected_names prefix_text node = {node} \<union> (if prefix_text \<noteq> [] then {prefix_text @ node} else {})"

definition response_instances :: "json \<Rightarrow> json list py" where
  "response_instances data =
     (if is_obj data \<and> is_arr (jget ''instances'' data) then Inr (arr_items (jget ''instances'' data))
      else if is_obj data then Inr [data]
      else if is_arr data then Inr (arr_items data)
      else Inl (RuntimeError ''Unsupported Vultr instance response shape''))"

definition matches_node :: "teardown_config \<Rightarrow> json \<Rightarrow> bool" where
  "matches_node cfg i \<longleftrightarrow> is_obj i
     \<and> (text_of ''label'' i \<in> expected_names (vultr_label_prefix cfg) (target_node_name cfg)
        \<or> text_of ''hostname'' i \<in> expected_names (vultr_hostname_prefix cfg) (target_node_name cfg))"

definition parse_instance_by_node_name :: "teardown_config \<Rightarrow> json \<Rightarrow> InstanceMatch py" where
  "parse_instance_by_node_name cfg data =
     (if \<not> truthy data then Inl (RuntimeError ''No Vultr instance found for node name'')
      else res_bind (response_instances data) (\<lambda>instances.
        case filter (matches_node cfg) instances of
          [] \<Rightarrow> Inl (RuntimeError ''No Vultr instance found for node name'')
        | [i] \<Rightarrow> Inr \<lparr>match_id = text_of ''id'' i, match_label = text_of ''label'' i,
            match_hostname = text_of ''hostname'' i, match_public_ip = text_of ''main_ip'' i\<rparr>
        | _ \<Rightarrow> Inl (RuntimeError ''Multiple Vultr instances matched node name'')))"

definition wait_for_instance_resolution_by_node_name :: "'w host \<Rightarrow> teardown_config \<Rightarrow> ('w, InstanceMatch) script" where
  "wait_for_instance_resolution_by_node_name h cfg = (\<lambda>w.
     s_bind (wait_until h (deadline_after h (td_timeout cfg) w) (td_interval cfg)
         (resolve_attempt h (\<lambda>data. res_bind (parse_instance_by_node_name cfg data) (\<lambda>i.
            Inr (if match_id i \<noteq> [] then Some i else None)))) ())
       (\<lambda>found. case found of
          Some i \<Rightarrow> s_return i
        | None \<Rightarrow> s_bind (call_api h (Get all_instances)) (\<lambda>data.
            of_py (res_bind (parse_instance_by_node_name cfg data) (\<lambda>i.
              if match_id i = [] then Inl (RuntimeError ''Failed to resolve a complete Vultr instance record'') else Inr i)))) w)"

definition instance_exists_in_list :: "json \<Rightarrow> string \<Rightarrow> bool py" where
  "instance_exists_in_list data target =
     (if \<not> truthy data then Inr False
      else res_bind (py_get_or ''instances'' (JArr []) data) (\<lambda>instances.
        Inr (is_arr instances \<and> list_ex (\<lambda>i. is_obj i \<and> text_of ''id'' i = target) (arr_items instances))))"

definition lb_has_instance :: "json \<Rightarrow> string \<Rightarrow> bool py" where
  "lb_has_instance data target =
     (if \<not> truthy data then Inr False
      else res_bind (py_get_or ''load_balancer'' (JObj []) data) (\<lambda>lb.
        if \<not> is_obj lb then Inr False
        else let instances = jget_or ''instances'' (JArr []) lb in
          Inr (is_arr instances \<and> target \<in> set (map py_str (arr_items instances)))))"

text \<open>Only the status of the summary is used, but its instances are read too.\<close>

definition parse_lb_status :: "json \<Rightarrow> string py" where
  "parse_lb_status data =
     (if \<not> truthy data then Inr []
      else res_bind (py_get_or ''load_balancer'' (JObj []) data) (\<lambda>lb.
        if \<not> is_obj lb then Inr []
        else res_bind (listed_instances lb) (\<lambda>_. Inr (text_of ''status'' lb))))"

definition remaining_instances :: "string list \<Rightarrow> string \<Rightarrow> string list" where
  "remaining_instances is target = filter (\<lambda>i. i \<noteq> target) is"

definition build_detach_payload :: "json \<Rightarrow> string \<Rightarrow> json py" where
  "build_detach_payload data target =
     (if \<not> truthy data then Inr (instances_payload [])
      else res_bind (py_get_or ''load_balancer'' (JObj []) data) (\<lambda>lb.
        if \<not> is_obj lb then Inr (instances_payload [])
        else res_bind (listed_instances lb) (\<lambda>is. Inr (instances_payload (remaining_instances is target)))))"

section \<open>Steps\<close>

definition node_exists :: "'w host \<Rightarrow> string \<Rightarrow> ('w, bool) script" where
  "node_exists h node =
     s_bind (run_unchecked h [''kubectl'', ''get'', ''node'', node]) (\<lambda>code. s_return (code = 0))"

definition detach_node_from_cluster :: "'w host \<Rightarrow> string \<Rightarrow> teardown_config \<Rightarrow> ('w, unit) script" where
  "detach_node_from_cluster h node cfg =
     s_bind (node_exists h node) (\<lambda>there.
     if \<not> there then s_return ()
     else s_bind (run_unchecked h [''kubectl'', ''cordon'', node]) (\<lambda>_.
       s_bind (run_command h [''kubectl'', ''drain'', node, ''--ignore-daemonsets'', ''--delete-emptydir-data'', ''--force'',
         ''--timeout='' @ kubectl_drain_timeout cfg, ''--grace-period='' @ kubectl_grace_period cfg] []) (\<lambda>_.
       run_command h [''kubectl'', ''delete'', ''node'', node] [])))"

definition detach_attempt :: "'w host \<Rightarrow> string \<Rightarrow> string \<Rightarrow> unit \<Rightarrow> 'w \<Rightarrow> (unit + unit) py \<times> 'w" where
  "detach_attempt h lb target u w = (case api_call h (Get (lb_path lb)) w of
     (Inl e, w') \<Rightarrow> (Inl e, w')
   | (Inr data, w') \<Rightarrow>
       (res_bind (parse_lb_status data) (\<lambda>_. res_bind (lb_has_instance data target) (\<lambda>there.
        Inr (if there then Inr () else Inl ()))), w'))"

definition wait_for_detachment :: "'w host \<Rightarrow> teardown_config \<Rightarrow> string \<Rightarrow> ('w, unit) script" where
  "wait_for_detachment h cfg target = (\<lambda>w.
     s_bind (wait_until h (deadline_after h (td_timeout cfg) w) (td_interval cfg) (detach_attempt h (td_load_balancer_id cfg) target) ())
       (\<lambda>found. case found of
          Some _ \<Rightarrow> s_return ()
        | None \<Rightarrow> of_py (Inl (RuntimeError ''Timed out waiting for load balancer to detach instance''))) w)"

definition detach_vm_from_lb :: "'w host \<Rightarrow> teardown_config \<Rightarrow> string \<Rightarrow> ('w, unit) script" where
  "detach_vm_from_lb h cfg target =
     s_bind (call_api h (Get (lb_path (td_load_balancer_id cfg)))) (\<lambda>data.
     s_bind (of_py (lb_has_instance data target)) (\<lambda>there.
     if \<not> there then s_return ()
     else s_bind (of_py (build_detach_payload data target)) (\<lambda>payload.
       s_bind (call_api h (Patch (lb_path (td_load_balancer_id cfg)) payload)) (\<lambda>_.
       wait_for_detachment h cfg target))))"

definition destroy_attempt :: "'w host \<Rightarrow> string \<Rightarrow> unit \<Rightarrow> 'w \<Rightarrow> (unit + unit) py \<times> 'w" where
  "destroy_attempt h target u w = (case api_call h (Get all_instances) w of
     (Inl e, w') \<Rightarrow> (Inl e, w')
   | (Inr data, w') \<Rightarrow>
       (res_bind (instance_exists_in_list data target) (\<lambda>there. Inr (if there then Inr () else Inl ())), w'))"

definition wait_for_destruction :: "'w host \<Rightarrow> teardown_config \<Rightarrow> string \<Rightarrow> ('w, unit) script" where
  "wait_for_destruction h cfg target = (\<lambda>w.
     s_bind (wait_until h (deadline_after h (td_timeout cfg) w) (td_interval cfg) (destroy_attempt h target) ())
       (\<lambda>found. case found of
          Some _ \<Rightarrow> s_return ()
        | None \<Rightarrow> of_py (Inl (RuntimeError ''Timed out waiting for instance to disappear from the Vultr instance list.''))) w)"

definition destroy_instance :: "'w host \<Rightarrow> teardown_config \<Rightarrow> string \<Rightarrow> ('w, unit) script" where
  "destroy_instance h cfg target =
     s_bind (call_api h (Delete (''/instances/'' @ target))) (\<lambda>_. wait_for_destruction h cfg target)"

text \<open>The three steps of \<^verbatim>\<open>main\<close>, in order.\<close>

definition teardown_steps :: "'w host \<Rightarrow> teardown_config \<Rightarrow> string \<Rightarrow> ('w, int) script" where
  "teardown_steps h cfg target =
     s_bind (detach_node_from_cluster h (target_node_name cfg) cfg) (\<lambda>_.
     s_bind (detach_vm_from_lb h cfg target) (\<lambda>_.
     s_bind (destroy_instance h cfg target) (\<lambda>_.
     s_return 0)))"

text \<open>\<open>which\<close> says whether \<^verbatim>\<open>kubectl\<close> is installed.\<close>

definition teardown_worker :: "'w host \<Rightarrow> bool \<Rightarrow> env \<Rightarrow> string \<Rightarrow> ('w, int) script" where
  "teardown_worker h which env node =
     s_bind (of_py (guard (\<not> which) (RuntimeError ''Missing required command: kubectl''))) (\<lambda>_.
     s_bind (of_py (teardown_load_config env node)) (\<lambda>cfg.
     s_bind (wait_for_instance_resolution_by_node_name h cfg) (\<lambda>i.
     teardown_steps h cfg (match_id i))))"

definition teardown_main :: "'w host \<Rightarrow> bool \<Rightarrow> env \<Rightarrow> string list \<Rightarrow> ('w, int) script" where
  "teardown_main h which env args = (case args of
     [node] \<Rightarrow> exit_on_error (teardown_worker h which env node)
   | _ \<Rightarrow> s_return 1)"

section \<open>Backends\<close>

text \<open>
  The answer for a load balancer with given backends, and the backends it has after the payload of
  an attach or a detach computed from that answer has been sent: Vultr takes the list it is sent.
\<close>

definition lb_response :: "string list \<Rightarrow> json" where
  "lb_response is = JObj [(''load_balancer'', JObj [(''instances'', JArr (map JStr is))])]"

definition backends_after :: "bool \<times> string \<Rightarrow> string list \<Rightarrow> string list py" where
  "backends_after op is = (case op of (attach, i) \<Rightarrow>
     res_bind (if attach then res_bind (parse_lb_summary (lb_response is)) (\<lambda>lb. Inr (build_patch_payload lb i))
       else build_detach_payload (lb_response is) i) listed_instances)"

definition detach_from_list :: "string \<Rightarrow> string list \<Rightarrow> string list" where
  "detach_from_list i is = remaining_instances (filter (\<lambda>x. x \<noteq> []) is) i"

lemma listed_strings: "jget_or ''instances'' (JArr []) d = JArr (map JStr is) \<Longrightarrow> listed_instances d = Inr (filter (\<lambda>x. x \<noteq> []) is)"
proof -
  have "map py_str (filter truthy (map JStr is)) = filter (\<lambda>x. x \<noteq> []) is" by (induction "is") simp_all
  then show "jget_or ''instances'' (JArr []) d = JArr (map JStr is) \<Longrightarrow> ?thesis" by (simp add: listed_instances_def)
qed

lemma listed_payload [simp]: "listed_instances (instances_payload is) = Inr (filter (\<lambda>x. x \<noteq> []) is)"
  by (rule listed_strings) (simp add: instances_payload_def jget_or_def)

lemma backends_after_attach: "i \<noteq> [] \<Longrightarrow> backends_after (True, i) is = Inr (merge_instances (filter (\<lambda>x. x \<noteq> []) is) i)"
proof -
  have "\<exists>lb. parse_lb_summary (lb_response is) = Inr lb \<and> lb_instances lb = filter (\<lambda>x. x \<noteq> []) is"
    by (simp add: parse_lb_summary_def lb_response_def py_get_or_def jget_or_def listed_strings)
  moreover have "filter (\<lambda>x. x \<noteq> []) (merge_instances xs i) = merge_instances xs i" for xs
    using merge_instances_spec(2) [of xs i] by (simp add: filter_id_conv)
  ultimately show ?thesis by (auto simp: backends_after_def build_patch_payload_def)
qed

lemma backends_after_detach: "backends_after (False, i) is = Inr (detach_from_list i is)"
  by (simp add: backends_after_def build_detach_payload_def lb_response_def py_get_or_def jget_or_def listed_strings
      detach_from_list_def remaining_instances_def) (rule filter_cong, auto)

interpretation lb_backends: backend_pool "\<lambda>is. set is - {[]}" "\<lambda>i is. merge_instances (filter (\<lambda>x. x \<noteq> []) is) i" detach_from_list
  by unfold_locales (auto simp: merge_instances_spec detach_from_list_def remaining_instances_def)

lemma backends_replay:
  "\<forall>(a, i) \<in> set ops. i \<noteq> [] \<Longrightarrow> fold_res backends_after ops is = Inr (lb_backends.replay ops is)"
proof (induction ops arbitrary: "is" rule: rev_induct)
  case Nil
  then show ?case by (simp add: lb_backends.replay_def)
next
  case (snoc p ops)
  then have "fold_res backends_after ops is = Inr (lb_backends.replay ops is)" by simp
  moreover obtain a i where "p = (a, i)" "i \<noteq> []" using snoc.prems by (cases p) auto
  ultimately show ?case
    by (cases a) (simp_all add: fold_res_append lb_backends.replay_snoc backends_after_attach backends_after_detach)
qed

text \<open>C32: after any sequence of attaches and detaches the load balancer has exactly the instances it
  should: those whose last operation attached them, and those it had that were left alone.\<close>

theorem backends_follow_operations:
  assumes "\<forall>(a, i) \<in> set ops. i \<noteq> []" and "i \<noteq> []"
  shows "\<exists>is'. fold_res backends_after ops is = Inr is'
     \<and> (i \<in> set is' \<longleftrightarrow> (case filter (\<lambda>p. snd p = i) ops of [] \<Rightarrow> i \<in> set is | p # ps \<Rightarrow> fst (last (p # ps))))"
  using backends_replay [OF assms(1), of "is"] lb_backends.members_replay [OF assms(1), of i "is"] assms(2)
  by (intro exI [of _ "lb_backends.replay ops is"]) (simp split: list.split)

theorem backends_follow_operations_witness:
  "\<exists>is'. fold_res backends_after [(True, ''a''), (True, ''b''), (False, ''a'')] [''c''] = Inr is' \<and> ''a'' \<notin> set is'"
  using backends_follow_operations [of "[(True, ''a''), (True, ''b''), (False, ''a'')]" "''a''" "[''c'']"] by auto

section \<open>A completed teardown\<close>

lemma detach_attempt_detached:
  assumes "detach_attempt h lb target u w = (Inr (Inl r), w')"
  shows "\<exists>data. api_call h (Get (lb_path lb)) w = (Inr data, w') \<and> lb_has_instance data target = Inr False"
  using assms by (auto simp: detach_attempt_def res_bind_Inr_iff split: prod.splits sum.splits if_splits)

lemma destroy_attempt_gone:
  assumes "destroy_attempt h target u w = (Inr (Inl r), w')"
  shows "\<exists>data. api_call h (Get all_instances) w = (Inr data, w') \<and> instance_exists_in_list data target = Inr False"
  using assms by (auto simp: destroy_attempt_def res_bind_Inr_iff split: prod.splits sum.splits if_splits)

lemma wait_for_detachment_detached:
  assumes "wait_for_detachment h cfg target w = Some (Inr u, w')"
  shows "\<exists>w0 data. api_call h (Get (lb_path (td_load_balancer_id cfg))) w0 = (Inr data, w') \<and> lb_has_instance data target = Inr False"
  using assms unfolding wait_for_detachment_def
  by (auto simp: s_bind_Some_Inr split: option.splits dest!: wait_until_result detach_attempt_detached)

lemma detach_vm_detached:
  assumes "detach_vm_from_lb h cfg target w = Some (Inr u, w')"
  shows "\<exists>w0 data. api_call h (Get (lb_path (td_load_balancer_id cfg))) w0 = (Inr data, w') \<and> lb_has_instance data target = Inr False"
proof -
  from assms obtain data w1 there where g: "api_call h (Get (lb_path (td_load_balancer_id cfg))) w = (Inr data, w1)"
    "lb_has_instance data target = Inr there" and rest: "(if \<not> there then s_return ()
      else s_bind (of_py (build_detach_payload data target)) (\<lambda>payload.
        s_bind (call_api h (Patch (lb_path (td_load_balancer_id cfg)) payload)) (\<lambda>_. wait_for_detachment h cfg target))) w1
      = Some (Inr u, w')"
    by (auto simp: detach_vm_from_lb_def s_bind_Some_Inr call_api_def)
  show ?thesis
  proof (cases there)
    case True
    with rest show ?thesis by (auto simp: s_bind_Some_Inr dest: wait_for_detachment_detached)
  next
    case False
    with rest g show ?thesis by auto
  qed
qed

lemma destroy_instance_gone:
  assumes "destroy_instance h cfg target w = Some (Inr u, w')"
  shows "\<exists>w0 data. api_call h (Get all_instances) w0 = (Inr data, w') \<and> instance_exists_in_list data target = Inr False"
  using assms unfolding destroy_instance_def wait_for_destruction_def
  by (auto simp: s_bind_Some_Inr split: option.splits dest!: wait_until_result destroy_attempt_gone)

lemma resolve_attempt_parsed:
  assumes "resolve_attempt h parse u w = (Inr (Inl r), w')"
  shows "\<exists>data. parse data = Inr (Some r)"
  using assms by (auto simp: resolve_attempt_def split: option.splits prod.splits sum.splits if_splits)

lemma resolved_instance_has_id:
  assumes "wait_for_instance_resolution_by_node_name h cfg w = Some (Inr i, w')"
  shows "match_id i \<noteq> []"
proof -
  from assms obtain found w1 where loop: "wait_until h (deadline_after h (td_timeout cfg) w) (td_interval cfg)
      (resolve_attempt h (\<lambda>data. res_bind (parse_instance_by_node_name cfg data) (\<lambda>i.
        Inr (if match_id i \<noteq> [] then Some i else None)))) () w = Some (Inr found, w1)"
    and rest: "(case found of Some i \<Rightarrow> s_return i | None \<Rightarrow>
        s_bind (call_api h (Get all_instances)) (\<lambda>data.
          of_py (res_bind (parse_instance_by_node_name cfg data) (\<lambda>i.
            if match_id i = [] then Inl (RuntimeError ''Failed to resolve a complete Vultr instance record'') else Inr i)))) w1
      = Some (Inr i, w')"
    unfolding wait_for_instance_resolution_by_node_name_def by (elim s_bindE)
  show ?thesis
  proof (cases found)
    case None
    with rest show ?thesis by (auto simp: res_bind_Inr_iff elim!: s_bindE split: if_splits)
  next
    case (Some j)
    obtain s' w0 where "resolve_attempt h (\<lambda>data. res_bind (parse_instance_by_node_name cfg data) (\<lambda>i.
        Inr (if match_id i \<noteq> [] then Some i else None))) s' w0 = (Inr (Inl j), w1)"
      using wait_until_result [OF loop [unfolded Some]] by (elim exE)
    from resolve_attempt_parsed [OF this] rest Some show ?thesis by (auto simp: res_bind_Inr_iff split: if_splits)
  qed
qed

lemma resolved_instance_parsed:
  assumes "wait_for_instance_resolution_by_node_name h cfg w = Some (Inr i, w')"
  shows "\<exists>w0 data. api_call h (Get all_instances) w0 = (Inr data, w') \<and> parse_instance_by_node_name cfg data = Inr i"
proof -
  let ?parse = "\<lambda>data. res_bind (parse_instance_by_node_name cfg data) (\<lambda>i. Inr (if match_id i \<noteq> [] then Some i else None))"
  from assms obtain found w1 where loop: "wait_until h (deadline_after h (td_timeout cfg) w) (td_interval cfg)
      (resolve_attempt h ?parse) () w = Some (Inr found, w1)"
    and rest: "(case found of Some i \<Rightarrow> s_return i | None \<Rightarrow>
        s_bind (call_api h (Get all_instances)) (\<lambda>data.
          of_py (res_bind (parse_instance_by_node_name cfg data) (\<lambda>i.
            if match_id i = [] then Inl (RuntimeError ''Failed to resolve a complete Vultr instance record'') else Inr i)))) w1
      = Some (Inr i, w')"
    unfolding wait_for_instance_resolution_by_node_name_def by (elim s_bindE)
  show ?thesis
  proof (cases found)
    case None
    with rest obtain data where "api_call h (Get all_instances) w1 = (Inr data, w')" "parse_instance_by_node_name cfg data = Inr i"
      by (auto simp: res_bind_Inr_iff call_api_def elim!: s_bindE split: if_splits)
    then show ?thesis by (intro exI conjI)
  next
    case (Some j)
    obtain s' w0 where last_try: "resolve_attempt h ?parse s' w0 = (Inr (Inl j), w1)"
      using wait_until_result [OF loop [unfolded Some]] by (elim exE)
    then have "\<exists>data. api_call h (Get all_instances) w0 = (Inr data, w1) \<and> ?parse data = Inr (Some j)"
      by (auto simp: resolve_attempt_def split: option.splits prod.splits sum.splits if_splits)
    then show ?thesis using rest Some by (auto simp: res_bind_Inr_iff split: if_splits)
  qed
qed

text \<open>The commands that take a node out of the cluster.\<close>

lemma node_detached:
  assumes "detach_node_from_cluster h node cfg w = Some (Inr u, w')"
  shows "\<exists>code wn. run h [''kubectl'', ''get'', ''node'', node] [] w = (Inr code, wn)
    \<and> (if code \<noteq> 0 then w' = wn
       else \<exists>cordoned wc wd. run h [''kubectl'', ''cordon'', node] [] wn = (Inr cordoned, wc)
         \<and> run h [''kubectl'', ''drain'', node, ''--ignore-daemonsets'', ''--delete-emptydir-data'', ''--force'',
              ''--timeout='' @ kubectl_drain_timeout cfg, ''--grace-period='' @ kubectl_grace_period cfg] [] wc = (Inr 0, wd)
         \<and> run h [''kubectl'', ''delete'', ''node'', node] [] wd = (Inr 0, w'))"
proof -
  from assms obtain code wn where get: "run h [''kubectl'', ''get'', ''node'', node] [] w = (Inr code, wn)"
    and rest: "(if code \<noteq> 0 then s_return ()
      else s_bind (run_unchecked h [''kubectl'', ''cordon'', node]) (\<lambda>_.
       s_bind (run_command h [''kubectl'', ''drain'', node, ''--ignore-daemonsets'', ''--delete-emptydir-data'', ''--force'',
         ''--timeout='' @ kubectl_drain_timeout cfg, ''--grace-period='' @ kubectl_grace_period cfg] []) (\<lambda>_.
       run_command h [''kubectl'', ''delete'', ''node'', node] []))) wn = Some (Inr u, w')"
    unfolding detach_node_from_cluster_def node_exists_def by (auto simp: run_unchecked_def elim!: s_bindE)
  show ?thesis
  proof (cases "code = 0")
    case True
    with rest obtain cordoned wc wd where "run_unchecked h [''kubectl'', ''cordon'', node] wn = Some (Inr cordoned, wc)"
      "run_command h [''kubectl'', ''drain'', node, ''--ignore-daemonsets'', ''--delete-emptydir-data'', ''--force'',
         ''--timeout='' @ kubectl_drain_timeout cfg, ''--grace-period='' @ kubectl_grace_period cfg] [] wc = Some (Inr (), wd)"
      "run_command h [''kubectl'', ''delete'', ''node'', node] [] wd = Some (Inr u, w')" by (auto elim!: s_bindE)
    then show ?thesis using get True by (auto simp: run_unchecked_def dest!: run_commandE)
  qed (use rest get in auto)
qed

text \<open>What has been asked of the load balancer: an instance it has is left out of the list it is sent.\<close>

lemma detach_vm_asked:
  assumes "detach_vm_from_lb h cfg target w = Some (Inr u, w')"
  shows "\<exists>data w1. api_call h (Get (lb_path (td_load_balancer_id cfg))) w = (Inr data, w1)
    \<and> (lb_has_instance data target = Inr False
       \<or> (\<exists>payload answer w2. build_detach_payload data target = Inr payload
            \<and> api_call h (Patch (lb_path (td_load_balancer_id cfg)) payload) w1 = (Inr answer, w2)))"
  using assms by (auto simp: detach_vm_from_lb_def call_api_def elim!: s_bindE of_py_bindE split: if_splits)

lemma destroy_asked:
  assumes "destroy_instance h cfg target w = Some (Inr u, w')"
  shows "\<exists>answer w1. api_call h (Delete (''/instances/'' @ target)) w = (Inr answer, w1)
    \<and> wait_for_destruction h cfg target w1 = Some (Inr u, w')"
  using assms by (auto simp: destroy_instance_def call_api_def elim!: s_bindE)

lemma destruction_seen:
  assumes "wait_for_destruction h cfg target w = Some (Inr u, w')"
  shows "\<exists>w0 data. api_call h (Get all_instances) w0 = (Inr data, w') \<and> instance_exists_in_list data target = Inr False"
  using assms unfolding wait_for_destruction_def
  by (auto simp: s_bind_Some_Inr split: option.splits dest!: wait_until_result destroy_attempt_gone)

text \<open>C31: what a teardown that ends well has done, in this order.  It has found the one instance of the node in
  the list of instances.  It has asked for the node, and where there is one, cordoned it, drained it and
  deleted it, the last two with success.  It has asked the load balancer, sent it a list without the
  instance when it had the instance, and seen it without the instance.  Only then has it sent the
  request to delete the instance, and it ends with a list of instances in which the instance is missing.\<close>

theorem teardown_in_order:
  assumes "teardown_main h which env [node] w = Some (Inr 0, w')"
  shows "\<exists>cfg i wq found w0 code wn w1 lb wl wp seen w2 answer w3 wg left.
     teardown_load_config env node = Inr cfg \<and> target_node_name cfg = node
     \<and> api_call h (Get all_instances) wq = (Inr found, w0) \<and> parse_instance_by_node_name cfg found = Inr i \<and> match_id i \<noteq> []
     \<and> run h [''kubectl'', ''get'', ''node'', node] [] w0 = (Inr code, wn)
     \<and> (if code \<noteq> 0 then w1 = wn
        else \<exists>cordoned wc wd. run h [''kubectl'', ''cordon'', node] [] wn = (Inr cordoned, wc)
          \<and> run h [''kubectl'', ''drain'', node, ''--ignore-daemonsets'', ''--delete-emptydir-data'', ''--force'',
               ''--timeout='' @ kubectl_drain_timeout cfg, ''--grace-period='' @ kubectl_grace_period cfg] [] wc = (Inr 0, wd)
          \<and> run h [''kubectl'', ''delete'', ''node'', node] [] wd = (Inr 0, w1))
     \<and> api_call h (Get (lb_path (td_load_balancer_id cfg))) w1 = (Inr lb, wl)
     \<and> (lb_has_instance lb (match_id i) = Inr False
        \<or> (\<exists>payload accepted wm. build_detach_payload lb (match_id i) = Inr payload
             \<and> api_call h (Patch (lb_path (td_load_balancer_id cfg)) payload) wl = (Inr accepted, wm)))
     \<and> api_call h (Get (lb_path (td_load_balancer_id cfg))) wp = (Inr seen, w2) \<and> lb_has_instance seen (match_id i) = Inr False
     \<and> api_call h (Delete (''/instances/'' @ match_id i)) w2 = (Inr answer, w3)
     \<and> api_call h (Get all_instances) wg = (Inr left, w') \<and> instance_exists_in_list left (match_id i) = Inr False"
proof -
  have "teardown_worker h which env node w = Some (Inr 0, w')"
    by (rule exit_on_error_0) (use assms in \<open>simp add: teardown_main_def\<close>)
  then obtain cfg i w0 where cfg: "teardown_load_config env node = Inr cfg"
    and i: "wait_for_instance_resolution_by_node_name h cfg w = Some (Inr i, w0)"
    and steps: "teardown_steps h cfg (match_id i) w0 = Some (Inr 0, w')"
    unfolding teardown_worker_def by (elim of_py_bindE s_bindE)
  from cfg have node: "target_node_name cfg = node" by (auto simp: teardown_load_config_def res_bind_Inr_iff)
  from steps obtain w1 w2 where n: "detach_node_from_cluster h node cfg w0 = Some (Inr (), w1)"
    and d: "detach_vm_from_lb h cfg (match_id i) w1 = Some (Inr (), w2)"
    and k: "destroy_instance h cfg (match_id i) w2 = Some (Inr (), w')"
    unfolding teardown_steps_def node by (elim s_bindE) simp
  from resolved_instance_parsed [OF i] obtain wq found where found: "api_call h (Get all_instances) wq = (Inr found, w0)"
    "parse_instance_by_node_name cfg found = Inr i" by (elim exE conjE)
  from node_detached [OF n] obtain code wn where node_out: "run h [''kubectl'', ''get'', ''node'', node] [] w0 = (Inr code, wn)"
    "if code \<noteq> 0 then w1 = wn
        else \<exists>cordoned wc wd. run h [''kubectl'', ''cordon'', node] [] wn = (Inr cordoned, wc)
          \<and> run h [''kubectl'', ''drain'', node, ''--ignore-daemonsets'', ''--delete-emptydir-data'', ''--force'',
               ''--timeout='' @ kubectl_drain_timeout cfg, ''--grace-period='' @ kubectl_grace_period cfg] [] wc = (Inr 0, wd)
          \<and> run h [''kubectl'', ''delete'', ''node'', node] [] wd = (Inr 0, w1)" by (elim exE conjE)
  from detach_vm_asked [OF d] obtain lb wl where lb: "api_call h (Get (lb_path (td_load_balancer_id cfg))) w1 = (Inr lb, wl)"
    "lb_has_instance lb (match_id i) = Inr False
        \<or> (\<exists>payload accepted wm. build_detach_payload lb (match_id i) = Inr payload
             \<and> api_call h (Patch (lb_path (td_load_balancer_id cfg)) payload) wl = (Inr accepted, wm))" by (elim exE conjE)
  from detach_vm_detached [OF d] obtain wp seen where seen: "api_call h (Get (lb_path (td_load_balancer_id cfg))) wp = (Inr seen, w2)"
    "lb_has_instance seen (match_id i) = Inr False" by (elim exE conjE)
  from destroy_asked [OF k] obtain answer w3 where asked: "api_call h (Delete (''/instances/'' @ match_id i)) w2 = (Inr answer, w3)"
    "wait_for_destruction h cfg (match_id i) w3 = Some (Inr (), w')" by (elim exE conjE)
  from destruction_seen [OF asked(2)] obtain wg left where gone: "api_call h (Get all_instances) wg = (Inr left, w')"
    "instance_exists_in_list left (match_id i) = Inr False" by (elim exE conjE)
  show ?thesis
    by (intro exI conjI) (rule cfg node found resolved_instance_has_id [OF i] node_out lb seen asked(1) gone)+
qed

text \<open>An account with one instance that is no backend; the world is whether it has been destroyed.\<close>

definition one_instance :: json where
  "one_instance = JObj [(''instances'', JArr [JObj [(''id'', JStr ''i''), (''label'', JStr ''worker''), (''main_ip'', JStr ''ip'')]])]"

definition example_host :: "bool host" where
  "example_host = \<lparr>
     http = \<lambda>c w. (case c of
         Delete _ \<Rightarrow> (Answer [], True)
       | Get path \<Rightarrow> (Answer (if path \<noteq> all_instances then ''lb'' else if w then ''none'' else ''one''), w)
       | _ \<Rightarrow> (UrlError, w)),
     run = \<lambda>args env w. (Inr 0, w), monotonic = \<lambda>w. 0, pause = \<lambda>n w. w, write_json = \<lambda>p v w. w, read_text = \<lambda>p w. None,
     loads = \<lambda>s. Some (if s = ''lb'' then lb_response [] else if s = ''one'' then one_instance else JObj [(''instances'', JArr [])])\<rparr>"

definition example_env :: env where
  "example_env name = (if name = ''VULTR_LOAD_BALANCER_ID'' \<or> name = ''VULTR_API_KEY'' then Some ''x'' else None)"

theorem teardown_in_order_witness:
  "\<exists>cfg (i :: InstanceMatch) w0 code wn. teardown_load_config example_env ''worker'' = Inr cfg \<and> match_id i \<noteq> []
     \<and> run example_host [''kubectl'', ''get'', ''node'', ''worker''] [] w0 = (Inr code, wn)"
proof -
  have run: "teardown_main example_host True example_env [''worker''] False = Some (Inr 0, True)" by code_simp
  from teardown_in_order [OF run] obtain cfg and i :: InstanceMatch and w0 code wn where
    "teardown_load_config example_env ''worker'' = Inr cfg" "match_id i \<noteq> []"
    and "run example_host [''kubectl'', ''get'', ''node'', ''worker''] [] w0 = (Inr code, wn)" by (elim exE conjE) (rule that)
  then show ?thesis by (intro exI conjI)
qed

section \<open>The script returns\<close>

lemma detach_attempt_clock: "clock_ok h \<Longrightarrow> monotonic h w \<le> monotonic h (snd (detach_attempt h lb target u w))"
  using api_call_clock [of h w "Get (lb_path lb)"]
  by (auto simp: detach_attempt_def split: prod.split sum.split)

lemma destroy_attempt_clock: "clock_ok h \<Longrightarrow> monotonic h w \<le> monotonic h (snd (destroy_attempt h target u w))"
  using api_call_clock [of h w "Get all_instances"]
  by (auto simp: destroy_attempt_def split: prod.split sum.split)

lemma returns_teardown_main:
  assumes "clock_ok h" and "\<And>cfg node. teardown_load_config env node = Inr cfg \<Longrightarrow> td_interval cfg \<noteq> 0"
  shows "returns (teardown_main h which env args)"
proof -
  have waits: "returns (wait_for_instance_resolution_by_node_name h cfg)" "returns (wait_for_detachment h cfg target)"
    "returns (wait_for_destruction h cfg target)" if "td_interval cfg \<noteq> 0" for cfg target
    unfolding wait_for_instance_resolution_by_node_name_def wait_for_detachment_def wait_for_destruction_def
    by (rule returns_wait; (rule assms(1) that resolve_attempt_clock detach_attempt_clock destroy_attempt_clock returns_intros)+)+
  show ?thesis
    unfolding teardown_main_def teardown_worker_def teardown_steps_def detach_node_from_cluster_def node_exists_def
      detach_vm_from_lb_def destroy_instance_def
    by (auto split: list.split intro!: returns_bind_py returns_intros waits assms(2))
qed

end
