(* ===== verification/Bootstrap.thy ===== *)
theory Bootstrap
  imports Host Manifest
begin

text \<open>
  Setting up the machines of the cluster: \<^verbatim>\<open>linux-script/bootstrap-k3s-worker.py\<close> and
  \<^verbatim>\<open>linux-script/bootstrap-k3s-master.py\<close>.  A path is its text.
\<close>

section \<open>The machine\<close>

text \<open>
  What the scripts meet besides the world of \<open>Host\<close>: whether they run as root, the name of the
  machine, which commands are installed, commands whose output is captured (the text given to
  them, their exit code, output and error output), two commands joined by a pipe (their exit
  codes), a command run in a directory with its output going to a log file, files written and
  their modes, the text of the time, and \<^verbatim>\<open>json.dumps\<close>.
\<close>

type_synonym exports = "(string \<times> string) list"

record 'w machine =
  world :: "'w host"
  is_root :: bool
  hostname :: string
  installed :: "string \<Rightarrow> 'w \<Rightarrow> bool"
  captured :: "string list \<Rightarrow> string option \<Rightarrow> exports \<Rightarrow> 'w \<Rightarrow> (int \<times> string \<times> string) py \<times> 'w"
  piped :: "string list \<Rightarrow> string list \<Rightarrow> exports \<Rightarrow> 'w \<Rightarrow> (int \<times> int) py \<times> 'w"
  logged :: "string \<Rightarrow> string list \<Rightarrow> exports \<Rightarrow> string \<Rightarrow> 'w \<Rightarrow> int py \<times> 'w"
  run_in :: "string \<Rightarrow> string list \<Rightarrow> exports \<Rightarrow> 'w \<Rightarrow> int py \<times> 'w"
  write_text :: "string \<Rightarrow> string \<Rightarrow> 'w \<Rightarrow> 'w"
  chmod :: "string \<Rightarrow> int \<Rightarrow> 'w \<Rightarrow> 'w"
  local_time :: "'w \<Rightarrow> string"
  dumps :: "json \<Rightarrow> string"

definition do_write :: "'w machine \<Rightarrow> string \<Rightarrow> string \<Rightarrow> ('w, unit) script" where
  "do_write m path content = (\<lambda>w. Some (Inr (), write_text m path content w))"

definition do_read :: "'w machine \<Rightarrow> string \<Rightarrow> ('w, string) script" where
  "do_read m path = (\<lambda>w. Some (or_raise FileNotFoundError (read_text (world m) path w), w))"

definition do_chmod :: "'w machine \<Rightarrow> string \<Rightarrow> int \<Rightarrow> ('w, unit) script" where
  "do_chmod m path mode = (\<lambda>w. Some (Inr (), chmod m path mode w))"

definition copyfile :: "'w machine \<Rightarrow> string \<Rightarrow> string \<Rightarrow> ('w, unit) script" where
  "copyfile m source target = s_bind (do_read m source) (do_write m target)"

text \<open>\<^verbatim>\<open>run_command(..., capture_output=True)\<close> and \<^verbatim>\<open>run_command(..., input_text=...)\<close>\<close>

definition run_captured :: "'w machine \<Rightarrow> string list \<Rightarrow> exports \<Rightarrow> ('w, int \<times> string \<times> string) script" where
  "run_captured m args env = (\<lambda>w. Some (captured m args None env w))"

definition checked_output :: "'w machine \<Rightarrow> string list \<Rightarrow> exports \<Rightarrow> ('w, string) script" where
  "checked_output m args env = s_bind (run_captured m args env) (\<lambda>(code, out, err).
     if code = 0 then s_return out else of_py (Inl (CalledProcessError code)))"

definition run_with_input :: "'w machine \<Rightarrow> string list \<Rightarrow> string \<Rightarrow> exports \<Rightarrow> ('w, unit) script" where
  "run_with_input m args input env = s_bind (\<lambda>w. Some (captured m args (Some input) env w)) (\<lambda>(code, out, err).
     if code = 0 then s_return () else of_py (Inl (CalledProcessError code)))"

definition pipe_command_output :: "'w machine \<Rightarrow> string list \<Rightarrow> string list \<Rightarrow> exports \<Rightarrow> ('w, unit) script" where
  "pipe_command_output m producer consumer env =
     s_bind (\<lambda>w. Some (piped m producer consumer env w)) (\<lambda>(produced, consumed).
     if consumed \<noteq> 0 then of_py (Inl (CalledProcessError consumed))
     else if produced \<noteq> 0 then of_py (Inl (CalledProcessError produced))
     else s_return ())"

text \<open>\<^verbatim>\<open>command_exists\<close>\<close>

definition if_installed :: "'w machine \<Rightarrow> string \<Rightarrow> ('w, unit) script \<Rightarrow> ('w, unit) script \<Rightarrow> ('w, unit) script" where
  "if_installed m command c c' = (\<lambda>w. if installed m command w then c w else c' w)"

text \<open>The statements of a script one after the other, and a loop over a list.\<close>

fun in_order :: "('w, unit) script list \<Rightarrow> ('w, unit) script" where
  "in_order [] = s_return ()"
| "in_order (c # cs) = s_bind c (\<lambda>_. in_order cs)"

fun collect :: "('a \<Rightarrow> ('w, 'b) script) \<Rightarrow> 'a list \<Rightarrow> ('w, 'b list) script" where
  "collect f [] = s_return []"
| "collect f (x # xs) = s_bind (f x) (\<lambda>y. s_bind (collect f xs) (\<lambda>ys. s_return (y # ys)))"

definition require_root :: "'w machine \<Rightarrow> ('w, unit) script" where
  "require_root m = of_py (guard (\<not> is_root m) (RuntimeError ''This script must run as root.''))"

text \<open>Here a required variable need only not be empty.\<close>

definition required :: "env \<Rightarrow> string \<Rightarrow> string py" where
  "required env name =
     (let v = getenv env name [] in
      if v = [] then Inl (RuntimeError (''Missing required environment variable: '' @ name)) else Inr v)"

text \<open>The address of an interface and the interface of an address, from the lines of \<^verbatim>\<open>ip addr\<close>.\<close>

definition first_address :: "string \<Rightarrow> string" where
  "first_address out =
     (case find (\<lambda>parts. 4 \<le> length parts) (map split_words (splitlines out)) of
        None \<Rightarrow> []
      | Some parts \<Rightarrow> takeWhile (\<lambda>c. c \<noteq> CHR ''/'') (parts ! 3))"

definition interface_with :: "string \<Rightarrow> string \<Rightarrow> string" where
  "interface_with node_ip out =
     (case find (\<lambda>parts. 4 \<le> length parts \<and> starts_with (parts ! 3) (node_ip @ ''/'')) (map split_words (splitlines out)) of
        None \<Rightarrow> []
      | Some parts \<Rightarrow> parts ! 1)"

definition derive_node_ip_from_iface :: "'w machine \<Rightarrow> string \<Rightarrow> exports \<Rightarrow> ('w, string) script" where
  "derive_node_ip_from_iface m iface env =
     s_bind (checked_output m [''ip'', ''-4'', ''-o'', ''addr'', ''show'', ''dev'', iface] env) (\<lambda>out. s_return (first_address out))"

definition derive_iface_from_node_ip :: "'w machine \<Rightarrow> string \<Rightarrow> exports \<Rightarrow> ('w, string) script" where
  "derive_iface_from_node_ip m node_ip env =
     s_bind (checked_output m [''ip'', ''-4'', ''-o'', ''addr'', ''show''] env) (\<lambda>out. s_return (interface_with node_ip out))"

definition allow_rules :: "'w machine \<Rightarrow> string list \<Rightarrow> exports \<Rightarrow> ('w, unit) script" where
  "allow_rules m rules env = in_order (map (\<lambda>rule. run_command (world m) [''ufw'', ''allow'', rule] env) rules)"

definition k3s_config_path :: string where
  "k3s_config_path = ''/etc/rancher/k3s/config.yaml''"

section \<open>A worker\<close>

record worker_config =
  wk_k3s_url :: string
  wk_k3s_token :: string
  wk_channel :: string
  wk_install_script_url :: string
  wk_allow_https :: bool
  wk_node_name :: string
  wk_node_ip :: string
  wk_flannel_iface :: string

definition worker_load_config :: "'w machine \<Rightarrow> env \<Rightarrow> worker_config py" where
  "worker_load_config m env =
     res_bind (required env ''K3S_URL'') (\<lambda>url.
     res_bind (required env ''K3S_TOKEN'') (\<lambda>token.
     res_bind (get_bool_env env ''ALLOW_HTTPS'' ''false'') (\<lambda>https.
     Inr \<lparr>wk_k3s_url = url, wk_k3s_token = token, wk_channel = getenv env ''K3S_CHANNEL'' ''stable'',
       wk_install_script_url = getenv env ''K3S_INSTALL_SCRIPT_URL'' ''https://get.k3s.io'', wk_allow_https = https,
       wk_node_name = getenv env ''NODE_NAME'' (takeWhile (\<lambda>c. c \<noteq> CHR ''.'') (hostname m)),
       wk_node_ip = getenv env ''NODE_IP'' [], wk_flannel_iface = getenv env ''FLANNEL_IFACE'' []\<rparr>)))"

definition worker_address :: "'w machine \<Rightarrow> worker_config \<Rightarrow> ('w, worker_config) script" where
  "worker_address m cfg =
     s_bind (if wk_node_ip cfg = [] \<and> wk_flannel_iface cfg \<noteq> [] then derive_node_ip_from_iface m (wk_flannel_iface cfg) []
       else s_return (wk_node_ip cfg)) (\<lambda>ip.
     s_bind (if wk_flannel_iface cfg = [] \<and> ip \<noteq> [] then derive_iface_from_node_ip m ip []
       else s_return (wk_flannel_iface cfg)) (\<lambda>iface.
     if ip = [] then of_py (Inl (RuntimeError ''Unable to determine NODE_IP. Set NODE_IP explicitly or provide FLANNEL_IFACE.''))
     else if iface = [] then of_py (Inl (RuntimeError ''Unable to determine FLANNEL_IFACE. Set FLANNEL_IFACE explicitly.''))
     else s_return (cfg\<lparr>wk_node_ip := ip, wk_flannel_iface := iface\<rparr>)))"

definition worker_configure_ufw :: "'w machine \<Rightarrow> worker_config \<Rightarrow> ('w, unit) script" where
  "worker_configure_ufw m cfg =
     if_installed m ''ufw''
       (allow_rules m ([''22/tcp'', ''80/tcp'', ''8472/udp'', ''9100/udp'', ''9100/tcp'', ''10250/tcp'']
         @ (if wk_allow_https cfg then [''443/tcp''] else [])) [])
       (s_return ())"

definition worker_k3s_lines :: "worker_config \<Rightarrow> string list" where
  "worker_k3s_lines cfg = [''node-ip: '' @ wk_node_ip cfg, ''node-name: '' @ wk_node_name cfg]
     @ (if wk_flannel_iface cfg \<noteq> [] then [''flannel-iface: '' @ wk_flannel_iface cfg] else [])"

definition install_k3s_agent :: "'w machine \<Rightarrow> worker_config \<Rightarrow> ('w, unit) script" where
  "install_k3s_agent m cfg = pipe_command_output m [''curl'', ''-sfL'', wk_install_script_url cfg] [''sh'', ''-'']
     [(''INSTALL_K3S_CHANNEL'', wk_channel cfg), (''K3S_URL'', wk_k3s_url cfg), (''K3S_TOKEN'', wk_k3s_token cfg),
      (''INSTALL_K3S_EXEC'', ''agent'')]"

definition worker_steps :: "'w machine \<Rightarrow> worker_config \<Rightarrow> ('w, unit) script" where
  "worker_steps m cfg = in_order
     [worker_configure_ufw m cfg,
      do_write m k3s_config_path (join_lines (worker_k3s_lines cfg) @ [newline]),
      install_k3s_agent m cfg,
      run_command (world m) [''systemctl'', ''enable'', ''--now'', ''k3s-agent''] [],
      run_command (world m) [''systemctl'', ''restart'', ''k3s-agent''] []]"

definition bootstrap_worker_main :: "'w machine \<Rightarrow> env \<Rightarrow> ('w, int) script" where
  "bootstrap_worker_main m env = exit_on_error (
     s_bind (require_root m) (\<lambda>_.
     s_bind (of_py (worker_load_config m env)) (\<lambda>cfg.
     s_bind (worker_address m cfg) (\<lambda>cfg.
     s_bind (worker_steps m cfg) (\<lambda>_. s_return 0)))))"

section \<open>A completed worker\<close>

lemma pipeE:
  assumes "pipe_command_output m producer consumer env w = Some (Inr u, w')"
  shows "piped m producer consumer env w = (Inr (0, 0), w')"
  using assms
  by (auto simp: pipe_command_output_def s_bind_Some_Inr split: prod.splits if_splits)

lemma required_Inr: "required env name = Inr v \<Longrightarrow> v \<noteq> []"
  by (auto simp: required_def Let_def split: if_splits)

lemma worker_address_known:
  assumes "worker_address m cfg w = Some (Inr cfg', w')"
  shows "wk_node_ip cfg' \<noteq> []" "wk_flannel_iface cfg' \<noteq> []"
    "wk_k3s_url cfg' = wk_k3s_url cfg" "wk_k3s_token cfg' = wk_k3s_token cfg" "wk_node_name cfg' = wk_node_name cfg"
  using assms unfolding worker_address_def
  by (auto elim!: s_bindE split: if_splits)

lemma worker_steps_done:
  assumes "worker_steps m cfg w = Some (Inr u, w')"
  shows "\<exists>w0 w1 w2 env. piped m [''curl'', ''-sfL'', wk_install_script_url cfg] [''sh'', ''-'']
         env (write_text m k3s_config_path (join_lines (worker_k3s_lines cfg) @ [newline]) w0) = (Inr (0, 0), w1)
     \<and> (''K3S_URL'', wk_k3s_url cfg) \<in> set env \<and> (''K3S_TOKEN'', wk_k3s_token cfg) \<in> set env
     \<and> run (world m) [''systemctl'', ''enable'', ''--now'', ''k3s-agent''] [] w1 = (Inr 0, w2)
     \<and> run (world m) [''systemctl'', ''restart'', ''k3s-agent''] [] w2 = (Inr 0, w')"
proof -
  from assms obtain w0 w1 w2 w3 where
    "do_write m k3s_config_path (join_lines (worker_k3s_lines cfg) @ [newline]) w0 = Some (Inr (), w1)"
    "install_k3s_agent m cfg w1 = Some (Inr (), w2)"
    "run_command (world m) [''systemctl'', ''enable'', ''--now'', ''k3s-agent''] [] w2 = Some (Inr (), w3)"
    "run_command (world m) [''systemctl'', ''restart'', ''k3s-agent''] [] w3 = Some (Inr (), w')"
    unfolding worker_steps_def in_order.simps by (elim s_bindE) simp
  note steps = this(1) this(2) [unfolded install_k3s_agent_def, THEN pipeE] this(3,4) [THEN run_commandE]
  show ?thesis
    by (rule exI [of _ w0], rule exI [of _ w2], rule exI [of _ w3], rule exI [of _
        "[(''INSTALL_K3S_CHANNEL'', wk_channel cfg), (''K3S_URL'', wk_k3s_url cfg), (''K3S_TOKEN'', wk_k3s_token cfg),
          (''INSTALL_K3S_EXEC'', ''agent'')]"])
      (use steps in \<open>simp add: do_write_def\<close>)
qed

text \<open>A worker whose bootstrap ends well knows its address and interface, has written them into the
  configuration of k3s before the agent was installed with the URL and the token of the cluster,
  and has then enabled and restarted the agent, every command having ended well.\<close>

theorem worker_joins_cluster:
  assumes "bootstrap_worker_main m env w = Some (Inr 0, w')"
  shows "is_root m \<and> (\<exists>(cfg :: worker_config) w0 w1 w2 extra.
       wk_k3s_url cfg \<noteq> [] \<and> wk_k3s_token cfg \<noteq> [] \<and> wk_node_ip cfg \<noteq> [] \<and> wk_flannel_iface cfg \<noteq> []
     \<and> piped m [''curl'', ''-sfL'', wk_install_script_url cfg] [''sh'', ''-''] extra
         (write_text m k3s_config_path (join_lines [''node-ip: '' @ wk_node_ip cfg, ''node-name: '' @ wk_node_name cfg,
            ''flannel-iface: '' @ wk_flannel_iface cfg] @ [newline]) w0) = (Inr (0, 0), w1)
     \<and> (''K3S_URL'', wk_k3s_url cfg) \<in> set extra \<and> (''K3S_TOKEN'', wk_k3s_token cfg) \<in> set extra
     \<and> run (world m) [''systemctl'', ''enable'', ''--now'', ''k3s-agent''] [] w1 = (Inr 0, w2)
     \<and> run (world m) [''systemctl'', ''restart'', ''k3s-agent''] [] w2 = (Inr 0, w'))"
proof -
  from assms have "s_bind (require_root m) (\<lambda>_. s_bind (of_py (worker_load_config m env)) (\<lambda>cfg.
     s_bind (worker_address m cfg) (\<lambda>cfg. s_bind (worker_steps m cfg) (\<lambda>_. s_return (0::int))))) w = Some (Inr 0, w')"
    using exit_on_error_0 [OF assms [unfolded bootstrap_worker_main_def]] by simp
  then obtain cfg cfg' wa wb wc where root: "require_root m w = Some (Inr (), wa)"
    and load: "worker_load_config m env = Inr cfg"
    and address: "worker_address m cfg wa = Some (Inr cfg', wb)" and steps: "worker_steps m cfg' wb = Some (Inr (), w')"
    by (elim s_bindE of_py_bindE) simp
  from load have "wk_k3s_url cfg \<noteq> []" "wk_k3s_token cfg \<noteq> []"
    by (auto simp: worker_load_config_def res_bind_Inr_iff dest: required_Inr)
  with worker_address_known [OF address] have known: "wk_k3s_url cfg' \<noteq> []"
    "wk_k3s_token cfg' \<noteq> []" "wk_node_ip cfg' \<noteq> []" "wk_flannel_iface cfg' \<noteq> []" by simp_all
  from known(4) have "worker_k3s_lines cfg' = [''node-ip: '' @ wk_node_ip cfg', ''node-name: '' @ wk_node_name cfg',
      ''flannel-iface: '' @ wk_flannel_iface cfg']" by (simp add: worker_k3s_lines_def)
  note steps_done = worker_steps_done [OF steps, unfolded this]
  from root have "is_root m" by (simp add: require_root_def)
  with steps_done show ?thesis
    by (elim exE conjE) (rule conjI, assumption, rule exI, rule exI, rule exI, rule exI, rule exI, intro conjI; (rule known | assumption))
qed

text \<open>A machine whose commands all end well; its world remembers nothing.\<close>

definition willing_machine :: "unit machine" where
  "willing_machine = \<lparr>world = \<lparr>http = \<lambda>c w. (UrlError, w), run = \<lambda>args env w. (Inr 0, w), monotonic = \<lambda>w. 0, pause = \<lambda>n w. w,
       write_json = \<lambda>p v w. w, read_text = \<lambda>p w. None, loads = \<lambda>s. None\<rparr>,
     is_root = True, hostname = ''worker.local'', installed = \<lambda>c w. True, captured = \<lambda>args i env w. (Inr (0, [], []), w),
     piped = \<lambda>a b env w. (Inr (0, 0), w), logged = \<lambda>d args env l w. (Inr 0, w), run_in = \<lambda>d args env w. (Inr 0, w),
     write_text = \<lambda>p c w. w, chmod = \<lambda>p n w. w, local_time = \<lambda>w. [], dumps = \<lambda>v. []\<rparr>"

definition worker_variables :: env where
  "worker_variables name = (if name \<in> {''K3S_URL'', ''K3S_TOKEN'', ''NODE_IP'', ''FLANNEL_IFACE''} then Some ''x'' else None)"

theorem worker_joins_cluster_witness:
  "\<exists>cfg :: worker_config. wk_node_ip cfg \<noteq> [] \<and> wk_flannel_iface cfg \<noteq> [] \<and> is_root willing_machine"
proof -
  have "bootstrap_worker_main willing_machine worker_variables () = Some (Inr 0, ())" by code_simp
  from worker_joins_cluster [OF this] show ?thesis by (elim exE conjE) (intro exI conjI)
qed

section \<open>Scripts of these parts return\<close>

lemma returns_machine [returns_intros]:
  "returns (do_write m p c)" "returns (do_read m p)" "returns (do_chmod m p n)" "returns (run_captured m args env)"
  "returns (run_with_input m args i env)" "returns (pipe_command_output m a b env)"
  by (auto simp: returns_def do_write_def do_read_def do_chmod_def run_captured_def run_with_input_def
      pipe_command_output_def s_bind_def s_return_def of_py_def split: sum.split prod.split)

lemma returns_if_installed [returns_intros]: "returns c \<Longrightarrow> returns c' \<Longrightarrow> returns (if_installed m command c c')"
  by (simp add: returns_def if_installed_def)

lemma returns_in_order [returns_intros]: "\<forall>c \<in> set cs. returns c \<Longrightarrow> returns (in_order cs)"
  by (induction cs) (auto intro!: returns_intros)

lemma returns_collect [returns_intros]: "(\<And>x. returns (f x)) \<Longrightarrow> returns (collect f xs)"
  by (induction xs) (auto intro!: returns_intros)

lemma returns_checked_output [returns_intros]: "returns (checked_output m args env)"
  unfolding checked_output_def by (auto intro!: returns_intros split: prod.split)

lemma returns_address [returns_intros]:
  "returns (derive_node_ip_from_iface m i env)" "returns (derive_iface_from_node_ip m ip env)" "returns (allow_rules m rules env)"
  "returns (copyfile m a b)" "returns (require_root m)"
  unfolding derive_node_ip_from_iface_def derive_iface_from_node_ip_def allow_rules_def copyfile_def require_root_def
  by (auto intro!: returns_intros)

lemma returns_bootstrap_worker_main: "returns (bootstrap_worker_main m env)"
  unfolding bootstrap_worker_main_def worker_address_def worker_steps_def worker_configure_ufw_def install_k3s_agent_def
  by (auto intro!: returns_intros)

end
