(* ===== verification/BootstrapMaster.thy ===== *)
theory BootstrapMaster
  imports Bootstrap
begin

text \<open>
  Setting up the master of the cluster (\<^verbatim>\<open>linux-script/bootstrap-k3s-master.py\<close>).  Variables the
  script sets in its own environment are passed to every later command.
\<close>

section \<open>Configuration\<close>

record master_config =
  project_dir :: string
  log_dir :: string
  master_node_name :: string
  master_public_ip :: string
  ms_channel :: string
  ms_install_script_url :: string
  custom_scaler_image :: string
  install_monitoring :: bool
  install_ingress :: bool
  deploy_custom_scaler :: bool
  custom_scaler_sample :: bool
  worker_bootstrap_ssh_host_mode :: string
  vultr_bootstrap_ssh_user :: string
  worker_k3s_url :: string
  ms_node_ip :: string
  advertise_address :: string
  ms_flannel_iface :: string

definition trim_trailing_slash :: "string \<Rightarrow> string" where
  "trim_trailing_slash v = (let trimmed = rstrip_if (\<lambda>c. c = CHR ''/'') v in if trimmed \<noteq> [] then trimmed else v)"

text \<open>\<^verbatim>\<open>directory / name\<close>\<close>

definition child :: "string \<Rightarrow> string \<Rightarrow> string" where
  "child d name = (if d \<noteq> [] \<and> last d = CHR ''/'' then d @ name else d @ CHR ''/'' # name)"

definition deployment_variables :: "string list" where
  "deployment_variables = [''WORKER_VULTR_REGION'', ''WORKER_VULTR_PLAN'', ''WORKER_VULTR_OS_ID'', ''VULTR_LOAD_BALANCER_ID'',
     ''VULTR_API_KEY'', ''VM_JOB_PRIVATE_KEY_PATH'', ''VM_JOB_PUBLIC_KEY_PATH'']"

definition master_load_config :: "env \<Rightarrow> master_config py" where
  "master_load_config env =
     res_bind (required env ''PROJECT_DIR'') (\<lambda>dir.
     res_bind (required env ''MASTER_NODE_NAME'') (\<lambda>node.
     let project = trim_trailing_slash dir;
         public = getenv env ''MASTER_PUBLIC_IP'' [];
         private = getenv env ''MASTER_PRIVATE_IP'' [];
         address = (if private \<noteq> [] then private else public) in
     res_bind (get_bool_env env ''INSTALL_MONITORING'' ''true'') (\<lambda>monitoring.
     res_bind (get_bool_env env ''INSTALL_INGRESS'' ''false'') (\<lambda>ingress.
     res_bind (get_bool_env env ''DEPLOY_CUSTOM_SCALER'' ''true'') (\<lambda>scaler.
     res_bind (get_bool_env env ''APPLY_CUSTOM_SCALER_SAMPLE'' ''true'') (\<lambda>sample.
     res_bind (if scaler then traverse (required env) deployment_variables else Inr []) (\<lambda>_.
     Inr \<lparr>project_dir = project, log_dir = getenv env ''BOOTSTRAP_LOG_DIR'' (child project ''work-log''),
       master_node_name = node, master_public_ip = public, ms_channel = getenv env ''K3S_CHANNEL'' ''stable'',
       ms_install_script_url = getenv env ''K3S_INSTALL_SCRIPT_URL'' ''https://get.k3s.io'',
       custom_scaler_image = getenv env ''CUSTOM_SCALER_IMAGE'' ''docker.io/boygioi/custom-scaler:latest'',
       install_monitoring = monitoring, install_ingress = ingress, deploy_custom_scaler = scaler,
       custom_scaler_sample = sample,
       worker_bootstrap_ssh_host_mode = getenv env ''WORKER_BOOTSTRAP_SSH_HOST_MODE'' ''private'',
       vultr_bootstrap_ssh_user = getenv env ''VULTR_BOOTSTRAP_SSH_USER'' ''root'',
       worker_k3s_url = getenv env ''WORKER_K3S_URL'' [], ms_node_ip = address, advertise_address = address,
       ms_flannel_iface = getenv env ''FLANNEL_IFACE_DEFAULT'' []\<rparr>)))))))"

text \<open>What later commands find in their environment: first the log directory, then also the cluster.\<close>

definition log_exports :: "master_config \<Rightarrow> exports" where
  "log_exports cfg = [(''BOOTSTRAP_LOG_DIR'', log_dir cfg)]"

definition kubeconfig_path :: string where
  "kubeconfig_path = ''/etc/rancher/k3s/k3s.yaml''"

definition kube_exports :: "master_config \<Rightarrow> exports" where
  "kube_exports cfg = (''KUBECONFIG'', kubeconfig_path) # log_exports cfg"

definition master_address :: "'w machine \<Rightarrow> master_config \<Rightarrow> ('w, master_config) script" where
  "master_address m cfg =
     s_bind (if ms_node_ip cfg = [] \<and> ms_flannel_iface cfg \<noteq> []
       then s_bind (derive_node_ip_from_iface m (ms_flannel_iface cfg) (log_exports cfg)) (\<lambda>ip.
         s_return (cfg\<lparr>ms_node_ip := ip, advertise_address := ip\<rparr>))
       else s_return cfg) (\<lambda>cfg.
     s_bind (if ms_flannel_iface cfg = [] \<and> ms_node_ip cfg \<noteq> []
       then s_bind (derive_iface_from_node_ip m (ms_node_ip cfg) (log_exports cfg)) (\<lambda>iface.
         s_return (cfg\<lparr>ms_flannel_iface := iface\<rparr>))
       else s_return cfg) (\<lambda>cfg.
     if ms_node_ip cfg = [] then of_py (Inl (RuntimeError ''Unable to determine the master node IP.''))
     else if ms_flannel_iface cfg = []
       then of_py (Inl (RuntimeError ''Unable to determine FLANNEL_IFACE. Set FLANNEL_IFACE_DEFAULT explicitly.''))
     else s_return cfg))"

section \<open>Installing k3s\<close>

definition install_base_packages :: "'w machine \<Rightarrow> ('w, unit) script" where
  "install_base_packages m = in_order
     [run_command (world m) [''apt-get'', ''update''] [(''DEBIAN_FRONTEND'', ''noninteractive'')],
      run_command (world m) [''apt-get'', ''install'', ''-y'', ''ca-certificates'', ''curl'', ''make'', ''python3'', ''python3-pip'', ''rsync'']
        [(''DEBIAN_FRONTEND'', ''noninteractive'')]]"

definition master_configure_ufw :: "'w machine \<Rightarrow> master_config \<Rightarrow> ('w, unit) script" where
  "master_configure_ufw m cfg =
     if_installed m ''ufw'' (allow_rules m [''6443/tcp'', ''8472/udp'', ''10250/tcp'', ''9100/tcp''] (log_exports cfg)) (s_return ())"

definition master_k3s_lines :: "master_config \<Rightarrow> string list" where
  "master_k3s_lines cfg =
     [''node-name: '' @ master_node_name cfg, ''node-ip: '' @ ms_node_ip cfg, ''advertise-address: '' @ advertise_address cfg,
      ''write-kubeconfig-mode: '' @ [CHR 0x22] @ ''0644'' @ [CHR 0x22], ''disable:'', ''  - traefik'']
     @ (if ms_flannel_iface cfg \<noteq> [] then [''flannel-iface: '' @ ms_flannel_iface cfg] else [])
     @ [''tls-san:'', ''  - '' @ ms_node_ip cfg]
     @ (if master_public_ip cfg \<noteq> [] then [''  - '' @ master_public_ip cfg] else [])"

definition master_write_k3s_config :: "'w machine \<Rightarrow> master_config \<Rightarrow> ('w, unit) script" where
  "master_write_k3s_config m cfg = do_write m k3s_config_path (join_lines (master_k3s_lines cfg) @ [newline])"

definition install_k3s_server :: "'w machine \<Rightarrow> master_config \<Rightarrow> ('w, unit) script" where
  "install_k3s_server m cfg = pipe_command_output m [''curl'', ''-sfL'', ms_install_script_url cfg] [''sh'', ''-'']
     ([(''INSTALL_K3S_CHANNEL'', ms_channel cfg), (''INSTALL_K3S_EXEC'', ''server'')] @ log_exports cfg)"

definition install_helm :: "'w machine \<Rightarrow> master_config \<Rightarrow> ('w, unit) script" where
  "install_helm m cfg =
     if_installed m ''helm'' (s_return ())
       (pipe_command_output m [''curl'', ''-fsSL'', ''https://raw.githubusercontent.com/helm/helm/main/scripts/get-helm-3'']
         [''bash''] (kube_exports cfg))"

text \<open>One round of the wait for the node; the wait for its readiness follows once it is there.\<close>

definition registered_attempt :: "'w machine \<Rightarrow> master_config \<Rightarrow> unit \<Rightarrow> 'w \<Rightarrow> (unit + unit) py \<times> 'w" where
  "registered_attempt m cfg u w = (case run (world m) [''kubectl'', ''get'', ''node'', master_node_name cfg] (kube_exports cfg) w of
     (Inl e, w') \<Rightarrow> (Inl e, w')
   | (Inr code, w') \<Rightarrow> (Inr (if code = 0 then Inl () else Inr ()), w'))"

definition wait_for_registration :: "'w machine \<Rightarrow> master_config \<Rightarrow> ('w, unit) script" where
  "wait_for_registration m cfg = (\<lambda>w.
     s_bind (wait_until (world m) (deadline_after (world m) 300 w) 5 (registered_attempt m cfg) ())
       (\<lambda>found. case found of
          Some _ \<Rightarrow> run_command (world m) [''kubectl'', ''wait'', ''--for=condition=Ready'', ''node/'' @ master_node_name cfg,
            ''--timeout=300s''] (kube_exports cfg)
        | None \<Rightarrow> of_py (Inl (RuntimeError ''Timed out waiting for node to become Ready.''))) w)"

definition wait_for_k3s_ready :: "'w machine \<Rightarrow> master_config \<Rightarrow> ('w, unit) script" where
  "wait_for_k3s_ready m cfg = in_order
     [run_command (world m) [''systemctl'', ''enable'', ''--now'', ''k3s''] (kube_exports cfg),
      run_command (world m) [''systemctl'', ''restart'', ''k3s''] (kube_exports cfg),
      wait_for_registration m cfg]"

definition prepare_kubeconfig :: "'w machine \<Rightarrow> ('w, unit) script" where
  "prepare_kubeconfig m = in_order [copyfile m kubeconfig_path ''/root/.kube/config'', do_chmod m ''/root/.kube/config'' 384]"

definition label_and_taint_master :: "'w machine \<Rightarrow> master_config \<Rightarrow> ('w, unit) script" where
  "label_and_taint_master m cfg = in_order
     [run_command (world m) [''kubectl'', ''label'', ''node'', master_node_name cfg, ''role=infra'', ''--overwrite''] (kube_exports cfg),
      run_command (world m) [''kubectl'', ''taint'', ''node'', master_node_name cfg, ''role=infra:NoSchedule'', ''--overwrite'']
        (kube_exports cfg)]"

section \<open>The local path provisioner\<close>

text \<open>
  \<^verbatim>\<open>"key: role" in helper\<close> of a value that is not a text: lists and dictionaries have items and
  keys, and no \<^verbatim>\<open>replace\<close>.
\<close>

definition patched_value :: "json \<Rightarrow> json py" where
  "patched_value v = (case v of
     JStr s \<Rightarrow> Inr (JStr (patch_helper s))
   | JArr xs \<Rightarrow> if \<not> list_ex (\<lambda>x. json_eq x (JStr ''key: role'')) xs
         \<and> list_ex (\<lambda>x. json_eq x (JStr toleration_marker) \<or> json_eq x (JStr spec_marker)) xs
       then Inl AttributeError else Inr v
   | JObj ps \<Rightarrow> if ''key: role'' \<notin> set (map fst ps) \<and> (toleration_marker \<in> set (map fst ps) \<or> spec_marker \<in> set (map fst ps))
       then Inl AttributeError else Inr v
   | _ \<Rightarrow> Inl TypeError)"

definition patch_local_path_config :: "json \<Rightarrow> json py" where
  "patch_local_path_config config =
     res_bind (py_get_or ''data'' (JObj []) config) (\<lambda>data.
     res_bind (py_get_or ''helperPod.yaml'' (JStr []) data) (\<lambda>helper.
     res_bind (patched_value helper) (\<lambda>patched.
     Inr (JObj (AList.update ''data'' (JObj (AList.update ''helperPod.yaml'' patched (obj_items data))) (obj_items config))))))"

definition provisioner_toleration :: string where
  "provisioner_toleration = join_lines
     [''spec:'', ''  template:'', ''    spec:'', ''      tolerations:'', ''        - key: role'', ''          operator: Equal'',
      ''          value: infra'', ''          effect: NoSchedule'', []]"

definition patch_local_path_provisioner_for_infra_taint :: "'w machine \<Rightarrow> master_config \<Rightarrow> ('w, unit) script" where
  "patch_local_path_provisioner_for_infra_taint m cfg =
     s_bind (run_command (world m) [''kubectl'', ''-n'', ''kube-system'', ''patch'', ''deployment'', ''local-path-provisioner'',
       ''--type'', ''merge'', ''-p'', provisioner_toleration] (kube_exports cfg)) (\<lambda>_.
     s_bind (checked_output m [''kubectl'', ''-n'', ''kube-system'', ''get'', ''configmap'', ''local-path-config'', ''-o'', ''json'']
       (kube_exports cfg)) (\<lambda>config_json.
     s_bind (of_py (or_raise (ValueError ''JSONDecodeError'') (loads (world m) config_json))) (\<lambda>config.
     s_bind (of_py (patch_local_path_config config)) (\<lambda>patched. in_order
       [run_with_input m [''kubectl'', ''apply'', ''-f'', ''-''] (dumps m patched) (kube_exports cfg),
        run_command (world m) [''kubectl'', ''rollout'', ''restart'', ''deployment/local-path-provisioner'', ''-n'', ''kube-system'']
          (kube_exports cfg),
        run_command (world m) [''kubectl'', ''rollout'', ''status'', ''deployment/local-path-provisioner'', ''-n'', ''kube-system'',
          ''--timeout=300s''] (kube_exports cfg)]))))"

section \<open>Monitoring and ingress\<close>

text \<open>\<^verbatim>\<open>run_logged_step\<close>: the output goes to the log file of the step.\<close>

definition run_logged_step :: "'w machine \<Rightarrow> master_config \<Rightarrow> string \<Rightarrow> string list \<Rightarrow> ('w, unit) script" where
  "run_logged_step m cfg step_name args =
     s_bind (\<lambda>w. Some (logged m (project_dir cfg) args (kube_exports cfg) (child (log_dir cfg) (step_name @ ''.log'')) w)) (\<lambda>code.
     if code \<noteq> 0 then of_py (Inl (RuntimeError (''Step '' @ step_name @ '' failed.''))) else s_return ())"

text \<open>What a command prints, or that it is not there; the names it lists, or none.\<close>

definition capture_output :: "'w machine \<Rightarrow> master_config \<Rightarrow> string list \<Rightarrow> ('w, string) script" where
  "capture_output m cfg args = (\<lambda>w. case captured m args None (kube_exports cfg) w of
     (Inr (code, out, err), w') \<Rightarrow> Some (Inr (out @ err), w')
   | (Inl e, w') \<Rightarrow>
       if e = FileNotFoundError then Some (Inr (''No such file or command: '' @ hd args @ [newline]), w') else Some (Inl e, w'))"

definition list_resources :: "'w machine \<Rightarrow> master_config \<Rightarrow> string list \<Rightarrow> ('w, string list) script" where
  "list_resources m cfg args = (\<lambda>w. case captured m args None (kube_exports cfg) w of
     (Inr (code, out, err), w') \<Rightarrow>
       Some (Inr (if code \<noteq> 0 then [] else filter (\<lambda>l. l \<noteq> []) (map strip (splitlines out))), w')
   | (Inl e, w') \<Rightarrow> if e = FileNotFoundError then Some (Inr [], w') else Some (Inl e, w'))"

definition write_section :: "string \<Rightarrow> string \<Rightarrow> string" where
  "write_section title content = ''=== '' @ title @ '' ==='' @ [newline] @ content
     @ (if content \<noteq> [] \<and> last content \<noteq> newline then [newline] else []) @ [newline]"

definition diagnostic_sections :: "(string \<times> string list) list" where
  "diagnostic_sections =
     [(''Helm List'', [''helm'', ''list'', ''-n'', ''monitoring'']),
      (''Helm Status'', [''helm'', ''status'', ''monitoring-stack'', ''-n'', ''monitoring'', ''--show-resources'']),
      (''Helm History'', [''helm'', ''history'', ''monitoring-stack'', ''-n'', ''monitoring'']),
      (''Monitoring Pods'', [''kubectl'', ''get'', ''pods'', ''-n'', ''monitoring'', ''-o'', ''wide'']),
      (''Monitoring Jobs'', [''kubectl'', ''get'', ''jobs'', ''-n'', ''monitoring'', ''-o'', ''wide'']),
      (''Monitoring Events'', [''kubectl'', ''get'', ''events'', ''-n'', ''monitoring'', ''--sort-by=.lastTimestamp'']),
      (''Monitoring All Resources'', [''kubectl'', ''get'', ''all'', ''-n'', ''monitoring'']),
      (''Monitoring PVCs'', [''kubectl'', ''get'', ''pvc'', ''-n'', ''monitoring'']),
      (''PersistentVolumes'', [''kubectl'', ''get'', ''pv'']),
      (''StorageClasses'', [''kubectl'', ''get'', ''storageclass'']),
      (''Local Path Provisioner Pods'',
        [''kubectl'', ''get'', ''pods'', ''-n'', ''kube-system'', ''-l'', ''app=local-path-provisioner'', ''-o'', ''wide'']),
      (''Local Path ConfigMap'', [''kubectl'', ''get'', ''configmap'', ''local-path-config'', ''-n'', ''kube-system'', ''-o'', ''yaml''])]"

text \<open>A command for each of several names, under one title.\<close>

definition write_each ::
  "'w machine \<Rightarrow> master_config \<Rightarrow> string \<Rightarrow> (string \<Rightarrow> string list) \<Rightarrow> string list \<Rightarrow> ('w, string) script" where
  "write_each m cfg title command names =
     s_bind (collect (\<lambda>name. s_bind (capture_output m cfg (command name)) (\<lambda>out.
       s_return (''--- '' @ name @ '' ---'' @ [newline] @ out @ [newline]))) names) (\<lambda>texts.
     s_return (''=== '' @ title @ '' ==='' @ [newline] @ concat texts @ [newline]))"

definition collect_monitoring_debug_info :: "'w machine \<Rightarrow> master_config \<Rightarrow> ('w, unit) script" where
  "collect_monitoring_debug_info m cfg =
     s_bind (list_resources m cfg [''kubectl'', ''get'', ''jobs'', ''-n'', ''monitoring'', ''-o'', ''name'']) (\<lambda>job_names.
     s_bind (list_resources m cfg [''kubectl'', ''get'', ''pods'', ''-n'', ''monitoring'', ''-o'', ''name'']) (\<lambda>pod_names.
     s_bind (\<lambda>w. Some (Inr (local_time m w), w)) (\<lambda>now.
     s_bind (collect (\<lambda>(title, args). s_bind (capture_output m cfg args) (\<lambda>out. s_return (write_section title out)))
       diagnostic_sections) (\<lambda>sections.
     s_bind (write_each m cfg ''Monitoring Job Describe'' (\<lambda>job. [''kubectl'', ''describe'', ''-n'', ''monitoring'', job]) job_names) (\<lambda>jobs.
     s_bind (write_each m cfg ''Monitoring Pod Describe'' (\<lambda>pod. [''kubectl'', ''describe'', ''-n'', ''monitoring'', pod]) pod_names) (\<lambda>pods.
     s_bind (write_each m cfg ''Monitoring Pod Logs''
       (\<lambda>pod. [''kubectl'', ''logs'', ''-n'', ''monitoring'', pod, ''--all-containers=true'', ''--tail=200'']) pod_names) (\<lambda>logs.
     do_write m (child (log_dir cfg) ''monitoring-install-diagnostics.log'')
       (write_section ''Timestamp'' now @ concat sections @ jobs @ pods @ logs))))))))"

text \<open>A failed installation leaves its diagnostics and stays failed.\<close>

definition install_monitoring_stack :: "'w machine \<Rightarrow> master_config \<Rightarrow> ('w, unit) script" where
  "install_monitoring_stack m cfg =
     s_bind (\<lambda>w. case run_logged_step m cfg ''monitoring-install'' [''make'', ''install-helm-monitor''] w of
         Some (Inl (RuntimeError msg), w') \<Rightarrow>
           s_bind (collect_monitoring_debug_info m cfg) (\<lambda>_. of_py (Inl (RuntimeError msg))) w'
       | r \<Rightarrow> r) (\<lambda>_.
     run_logged_step m cfg ''monitoring-service-monitor'' [''make'', ''deploy-monitor''])"

definition install_ingress_stack :: "'w machine \<Rightarrow> master_config \<Rightarrow> ('w, unit) script" where
  "install_ingress_stack m cfg =
     s_bind (\<lambda>w. Some (run_in m (project_dir cfg) [''make'', ''install-helm-ingress''] (kube_exports cfg) w)) (\<lambda>code.
     if code = 0 then s_return () else of_py (Inl (CalledProcessError code)))"

section \<open>The custom scaler\<close>

definition filter_custom_scaler_bundle :: "'w machine \<Rightarrow> master_config \<Rightarrow> ('w, string) script" where
  "filter_custom_scaler_bundle m cfg =
     s_bind (checked_output m [''kubectl'', ''kustomize'', child (project_dir cfg) ''custom-scaler/config/default''] (kube_exports cfg))
       (\<lambda>manifest. s_return (filter_bundle manifest))"

definition apply_custom_scaler_bundle :: "'w machine \<Rightarrow> master_config \<Rightarrow> ('w, unit) script" where
  "apply_custom_scaler_bundle m cfg =
     s_bind (filter_custom_scaler_bundle m cfg) (\<lambda>bundle.
     if bundle = [] then of_py (Inl (RuntimeError ''Custom scaler bundle is empty after filtering.''))
     else in_order
       [run_with_input m [''kubectl'', ''apply'', ''-f'', ''-''] bundle (kube_exports cfg),
        run_command (world m) [''kubectl'', ''-n'', ''custom-scaler-system'', ''set'', ''image'',
          ''deployment/custom-scaler-controller-manager'', ''manager='' @ custom_scaler_image cfg] (kube_exports cfg)])"

definition require_file :: "'w machine \<Rightarrow> string \<Rightarrow> string \<Rightarrow> ('w, unit) script" where
  "require_file m path msg = (\<lambda>w. Some (case read_text (world m) path w of
     None \<Rightarrow> Inl (RuntimeError msg) | Some content \<Rightarrow> Inr (), w))"

definition write_vm_job_secret_files :: "'w machine \<Rightarrow> env \<Rightarrow> ('w, unit) script" where
  "write_vm_job_secret_files m env =
     s_bind (of_py (required env ''VM_JOB_PRIVATE_KEY_PATH'')) (\<lambda>private.
     s_bind (of_py (required env ''VM_JOB_PUBLIC_KEY_PATH'')) (\<lambda>public.
     in_order
       [require_file m private ''VM job private key file not found'',
        require_file m public ''VM job public key file not found'',
        do_chmod m ''/root/.ssh'' 448,
        copyfile m private ''/root/.ssh/vm-job_ed25519'',
        copyfile m public ''/root/.ssh/vm-job_ed25519.pub'',
        do_chmod m ''/root/.ssh/vm-job_ed25519'' 384,
        do_chmod m ''/root/.ssh/vm-job_ed25519.pub'' 420]))"

definition create_and_apply_manifest :: "'w machine \<Rightarrow> master_config \<Rightarrow> string list \<Rightarrow> ('w, unit) script" where
  "create_and_apply_manifest m cfg args =
     s_bind (checked_output m args (kube_exports cfg)) (\<lambda>manifest.
     run_with_input m [''kubectl'', ''apply'', ''-f'', ''-''] manifest (kube_exports cfg))"

definition literal :: "string \<Rightarrow> string \<Rightarrow> string" where
  "literal name v = ''--from-literal='' @ name @ ''='' @ v"

definition cluster_url :: "string \<Rightarrow> string" where
  "cluster_url address = ''https://'' @ address @ '':6443''"

definition vm_job_config_args :: "master_config \<Rightarrow> env \<Rightarrow> string \<Rightarrow> string list" where
  "vm_job_config_args cfg env lb =
     [''kubectl'', ''-n'', ''custom-scaler-system'', ''create'', ''configmap'', ''custom-scaler-vm-job-config'',
      literal ''VULTR_REGION'' (getenv env ''WORKER_VULTR_REGION'' []),
      literal ''VULTR_PLAN'' (getenv env ''WORKER_VULTR_PLAN'' []),
      literal ''VULTR_OS_ID'' (getenv env ''WORKER_VULTR_OS_ID'' []),
      literal ''VULTR_FIREWALL_GROUP_ID'' (getenv env ''WORKER_VULTR_FIREWALL_GROUP_ID'' []),
      literal ''VULTR_VPC_ID'' (getenv env ''WORKER_VULTR_VPC_ID'' []),
      literal ''VULTR_SSH_KEY_IDS'' (getenv env ''WORKER_VULTR_SSH_KEY_IDS'' []),
      literal ''VULTR_LOAD_BALANCER_ID'' lb,
      literal ''VULTR_BOOTSTRAP_SSH_USER'' (vultr_bootstrap_ssh_user cfg),
      literal ''K3S_URL'' (if worker_k3s_url cfg \<noteq> [] then worker_k3s_url cfg else cluster_url (advertise_address cfg)),
      literal ''FLANNEL_IFACE_DEFAULT'' (ms_flannel_iface cfg),
      literal ''BOOTSTRAP_SSH_HOST_MODE'' (worker_bootstrap_ssh_host_mode cfg),
      literal ''VULTR_ROOT_PUBLIC_KEY_FILE'' ''/var/run/vm-job-secret/id_ed25519.pub'',
      literal ''SSH_OPTS'' ''-i /var/run/vm-job-secret/id_ed25519 -o StrictHostKeyChecking=accept-new'',
      ''--dry-run=client'', ''-o'', ''yaml'']"

definition apply_vm_job_config :: "'w machine \<Rightarrow> env \<Rightarrow> master_config \<Rightarrow> ('w, unit) script" where
  "apply_vm_job_config m env cfg =
     s_bind (of_py (required env ''VULTR_LOAD_BALANCER_ID'')) (\<lambda>lb.
     create_and_apply_manifest m cfg (vm_job_config_args cfg env lb))"

definition node_token_path :: string where
  "node_token_path = ''/var/lib/rancher/k3s/server/node-token''"

definition apply_vm_job_secret :: "'w machine \<Rightarrow> env \<Rightarrow> master_config \<Rightarrow> ('w, unit) script" where
  "apply_vm_job_secret m env cfg =
     s_bind (do_read m node_token_path) (\<lambda>token.
     s_bind (of_py (required env ''VULTR_API_KEY'')) (\<lambda>key.
     create_and_apply_manifest m cfg
       [''kubectl'', ''-n'', ''custom-scaler-system'', ''create'', ''secret'', ''generic'', ''custom-scaler-vm-job-secret'',
        literal ''VULTR_API_KEY'' key, literal ''K3S_TOKEN'' (strip token),
        ''--from-file=id_ed25519=/root/.ssh/vm-job_ed25519'', ''--from-file=id_ed25519.pub=/root/.ssh/vm-job_ed25519.pub'',
        ''--dry-run=client'', ''-o'', ''yaml'']))"

definition wait_for_custom_scaler_ready :: "'w machine \<Rightarrow> master_config \<Rightarrow> ('w, unit) script" where
  "wait_for_custom_scaler_ready m cfg = in_order
     [run_command (world m) [''kubectl'', ''wait'', ''--for=condition=Established'', ''crd/customscalers.autoscaling.my.domain'',
        ''--timeout=300s''] (kube_exports cfg),
      run_command (world m) [''kubectl'', ''rollout'', ''status'', ''deployment/custom-scaler-controller-manager'',
        ''-n'', ''custom-scaler-system'', ''--timeout=300s''] (kube_exports cfg)]"

definition apply_custom_scaler_sample :: "'w machine \<Rightarrow> master_config \<Rightarrow> ('w, unit) script" where
  "apply_custom_scaler_sample m cfg =
     run_command (world m) [''kubectl'', ''apply'', ''-f'',
       child (project_dir cfg) ''custom-scaler/config/samples/autoscaling_v1_customscaler.yaml''] (kube_exports cfg)"

section \<open>The whole script\<close>

definition write_access_files :: "'w machine \<Rightarrow> master_config \<Rightarrow> ('w, unit) script" where
  "write_access_files m cfg =
     (let shares = child (project_dir cfg) ''shares'' in
     s_bind (do_read m node_token_path) (\<lambda>token.
     s_bind (do_write m (child shares ''k3s-worker.env'')
       (''K3S_URL='' @ cluster_url (advertise_address cfg) @ [newline] @ ''K3S_TOKEN='' @ strip token @ [newline])) (\<lambda>_.
     s_bind (do_read m kubeconfig_path) (\<lambda>kubeconfig.
     s_bind (do_write m (child shares ''kubeconfig-private.yaml'')
       (str_replace (cluster_url ''127.0.0.1'') (cluster_url (advertise_address cfg)) kubeconfig)) (\<lambda>_.
     if master_public_ip cfg \<noteq> []
     then do_write m (child shares ''kubeconfig-public.yaml'')
       (str_replace (cluster_url ''127.0.0.1'') (cluster_url (master_public_ip cfg)) kubeconfig)
     else s_return ())))))"

definition deploy_steps :: "'w machine \<Rightarrow> env \<Rightarrow> master_config \<Rightarrow> ('w, unit) script list" where
  "deploy_steps m env cfg =
     (if \<not> deploy_custom_scaler cfg then []
      else [apply_custom_scaler_bundle m cfg, write_vm_job_secret_files m env, apply_vm_job_config m env cfg,
          apply_vm_job_secret m env cfg, wait_for_custom_scaler_ready m cfg]
        @ (if custom_scaler_sample cfg then [apply_custom_scaler_sample m cfg] else []))"

definition master_steps :: "'w machine \<Rightarrow> env \<Rightarrow> master_config \<Rightarrow> ('w, unit) script list" where
  "master_steps m env cfg =
     [master_configure_ufw m cfg, master_write_k3s_config m cfg, install_k3s_server m cfg, wait_for_k3s_ready m cfg,
      prepare_kubeconfig m, install_helm m cfg, label_and_taint_master m cfg, patch_local_path_provisioner_for_infra_taint m cfg]
     @ (if install_monitoring cfg then [install_monitoring_stack m cfg] else [])
     @ (if install_ingress cfg then [install_ingress_stack m cfg] else [])
     @ deploy_steps m env cfg
     @ [write_access_files m cfg]"

definition bootstrap_master_main :: "'w machine \<Rightarrow> env \<Rightarrow> ('w, int) script" where
  "bootstrap_master_main m env = exit_on_error (
     s_bind (require_root m) (\<lambda>_.
     s_bind (of_py (master_load_config env)) (\<lambda>cfg.
     s_bind (install_base_packages m) (\<lambda>_.
     s_bind (master_address m cfg) (\<lambda>cfg.
     s_bind (in_order (master_steps m env cfg)) (\<lambda>_. s_return 0))))))"

section \<open>The script returns\<close>

lemma registered_attempt_clock:
  "clock_ok (world m) \<Longrightarrow> monotonic (world m) w \<le> monotonic (world m) (snd (registered_attempt m cfg u w))"
proof -
  assume "clock_ok (world m)"
  then have "monotonic (world m) w
      \<le> monotonic (world m) (snd (run (world m) [''kubectl'', ''get'', ''node'', master_node_name cfg] (kube_exports cfg) w))"
    unfolding clock_ok_def by blast
  then show ?thesis by (auto simp: registered_attempt_def split: prod.split sum.split)
qed

lemma returns_captures [returns_intros]:
  "returns (capture_output m cfg args)" "returns (list_resources m cfg args)" "returns (run_logged_step m cfg s args)"
  "returns (require_file m p e)" "returns (install_ingress_stack m cfg)"
  by (auto simp: returns_def capture_output_def list_resources_def run_logged_step_def require_file_def
      install_ingress_stack_def s_bind_def s_return_def of_py_def split: sum.split prod.split)

lemma returns_diagnostics [returns_intros]: "returns (collect_monitoring_debug_info m cfg)"
proof -
  have "returns (\<lambda>w. Some (Inr (local_time m w), w))" by (simp add: returns_def)
  then show ?thesis
    unfolding collect_monitoring_debug_info_def write_each_def by (auto intro!: returns_intros split: prod.split)
qed

lemma returns_monitoring [returns_intros]: "returns (install_monitoring_stack m cfg)"
proof -
  have "returns (s_bind (collect_monitoring_debug_info m cfg) (\<lambda>_. of_py (Inl (RuntimeError msg)) :: ('a, unit) script))" for msg
    by (intro returns_intros)
  then have "returns (\<lambda>w. case run_logged_step m cfg s args w of
         Some (Inl (RuntimeError msg), w') \<Rightarrow>
           s_bind (collect_monitoring_debug_info m cfg) (\<lambda>_. of_py (Inl (RuntimeError msg))) w'
       | r \<Rightarrow> r)" for s args
    using returns_captures(3) [of m cfg s args] by (auto simp: returns_def split: option.split prod.split sum.split py_exn.split)
  then show ?thesis unfolding install_monitoring_stack_def by (intro returns_intros)
qed

lemma returns_master_steps:
  assumes "clock_ok (world m)" and "c \<in> set (master_steps m env cfg)"
  shows "returns c"
proof -
  have wait: "returns (wait_for_registration m cfg)"
    unfolding wait_for_registration_def
    by (rule returns_wait; (rule assms(1) registered_attempt_clock returns_intros | simp)+)
  have "returns (master_configure_ufw m cfg)" "returns (master_write_k3s_config m cfg)" "returns (install_k3s_server m cfg)"
    "returns (wait_for_k3s_ready m cfg)" "returns (prepare_kubeconfig m)" "returns (install_helm m cfg)"
    "returns (label_and_taint_master m cfg)" "returns (patch_local_path_provisioner_for_infra_taint m cfg)"
    "returns (apply_custom_scaler_bundle m cfg)" "returns (write_vm_job_secret_files m env)"
    "returns (apply_vm_job_config m env cfg)" "returns (apply_vm_job_secret m env cfg)"
    "returns (wait_for_custom_scaler_ready m cfg)" "returns (apply_custom_scaler_sample m cfg)" "returns (write_access_files m cfg)"
    unfolding master_configure_ufw_def master_write_k3s_config_def install_k3s_server_def wait_for_k3s_ready_def prepare_kubeconfig_def
      install_helm_def label_and_taint_master_def patch_local_path_provisioner_for_infra_taint_def
      apply_custom_scaler_bundle_def filter_custom_scaler_bundle_def write_vm_job_secret_files_def apply_vm_job_config_def
      apply_vm_job_secret_def create_and_apply_manifest_def wait_for_custom_scaler_ready_def apply_custom_scaler_sample_def
      write_access_files_def Let_def
    by (auto intro!: returns_intros wait)
  then show ?thesis using assms(2) by (auto simp: master_steps_def deploy_steps_def intro: returns_intros split: if_splits)
qed

lemma returns_bootstrap_master_main:
  assumes "clock_ok (world m)"
  shows "returns (bootstrap_master_main m env)"
  unfolding bootstrap_master_main_def master_address_def install_base_packages_def
  by (auto intro!: returns_intros intro: returns_master_steps [OF assms])

end
