(* ===== verification/CreateWorker.thy ===== *)
theory CreateWorker
  imports Teardown BootstrapMaster
begin

text \<open>
  Creating a worker: the virtual machine (\<^verbatim>\<open>linux-script/create-vultr-worker.py\<close>) and the whole
  flow from the machine to a backend of the load balancer (\<^verbatim>\<open>linux-script/create-worker-e2e.py\<close>).
  Texts are ASCII where they are encoded.
\<close>

section \<open>The request\<close>

record create_config =
  node_name :: string
  cr_api_key :: string
  vultr_region :: string
  vultr_plan :: string
  vultr_os_id :: int
  cr_api_base :: string
  flannel_iface_default :: string
  cr_timeout :: int
  cr_interval :: int
  debug_vultr_create :: bool

definition create_load_config :: "env \<Rightarrow> string \<Rightarrow> create_config py" where
  "create_load_config env node =
     res_bind (require_env env ''VULTR_OS_ID'') (\<lambda>os.
     res_bind (or_raise (RuntimeError ''Environment variable VULTR_OS_ID must be an integer.'') (py_int os)) (\<lambda>os_id.
     res_bind (require_env env ''VULTR_API_KEY'') (\<lambda>key.
     res_bind (require_env env ''VULTR_REGION'') (\<lambda>region.
     res_bind (require_env env ''VULTR_PLAN'') (\<lambda>plan.
     res_bind (get_int_env env ''WAIT_TIMEOUT_SECONDS'' ''900'') (\<lambda>timeout.
     res_bind (get_int_env env ''WAIT_INTERVAL_SECONDS'' ''5'') (\<lambda>interval.
     res_bind (get_bool_env env ''DEBUG_VULTR_CREATE'' ''false'') (\<lambda>debug.
     Inr \<lparr>node_name = node, cr_api_key = key, vultr_region = region, vultr_plan = plan, vultr_os_id = os_id,
       cr_api_base = getenv env ''VULTR_API_BASE'' ''https://api.vultr.com/v2'',
       flannel_iface_default = getenv env ''FLANNEL_IFACE_DEFAULT'' ''enp8s0'',
       cr_timeout = timeout, cr_interval = interval, debug_vultr_create = debug\<rparr>))))))))"

definition csv_env :: "env \<Rightarrow> string \<Rightarrow> string list" where
  "csv_env env name =
     (let raw = strip (getenv env name []) in
      if raw = [] then [] else filter (\<lambda>s. s \<noteq> []) (map strip (split_char (CHR '','') raw)))"

text \<open>The path is read with its \<^verbatim>\<open>~\<close> expanded.\<close>

definition read_root_public_key :: "'w host \<Rightarrow> env \<Rightarrow> ('w, string) script" where
  "read_root_public_key h env =
     (let inline_key = strip (getenv env ''VULTR_ROOT_PUBLIC_KEY'' []);
          key_file = strip (getenv env ''VULTR_ROOT_PUBLIC_KEY_FILE'' []) in
      if inline_key \<noteq> [] then s_return inline_key
      else if key_file = [] then s_return []
      else (\<lambda>w. case read_text h key_file w of
          None \<Rightarrow> Some (Inl (RuntimeError ''Root public key file not found''), w)
        | Some content \<Rightarrow> Some (Inr (strip content), w)))"

definition build_root_cloud_init :: "string \<Rightarrow> string" where
  "build_root_cloud_init public_key = join_lines
     [''#cloud-config'', ''disable_root: false'', ''ssh_pwauth: false'', ''users:'', ''  - name: root'',
      ''    lock_passwd: true'', ''    ssh_authorized_keys:'', ''      - '' @ public_key]"

definition base64_digit :: "nat \<Rightarrow> char" where
  "base64_digit n = (if n < 26 then char_of (n + 65) else if n < 52 then char_of (n + 71)
     else if n < 62 then char_of (n - 4) else if n = 62 then CHR ''+'' else CHR ''/'')"

fun base64 :: "string \<Rightarrow> string" where
  "base64 [] = []"
| "base64 [a] = (let n = of_char a * 16 :: nat in [base64_digit (n div 64), base64_digit (n mod 64), CHR ''='', CHR ''=''])"
| "base64 [a, b] = (let n = (of_char a * 256 + of_char b) * 4 :: nat in
     [base64_digit (n div 4096), base64_digit (n div 64 mod 64), base64_digit (n mod 64), CHR ''=''])"
| "base64 (a # b # c # s) = (let n = (of_char a * 256 + of_char b) * 256 + of_char c :: nat in
     base64_digit (n div 262144) # base64_digit (n div 4096 mod 64) # base64_digit (n div 64 mod 64) # base64_digit (n mod 64)
       # base64 s)"

definition optional_field :: "string \<Rightarrow> json \<Rightarrow> (string \<times> json) list" where
  "optional_field k v = (if truthy v then [(k, v)] else [])"

definition build_payload :: "'w host \<Rightarrow> env \<Rightarrow> create_config \<Rightarrow> ('w, json) script" where
  "build_payload h env cfg =
     s_bind (read_root_public_key h env) (\<lambda>root_key.
     let given_data = getenv env ''VULTR_USER_DATA'' [];
         user_data = (if given_data = [] \<and> root_key \<noteq> [] then build_root_cloud_init root_key else given_data) in
     s_return (JObj (
       [(''region'', JStr (vultr_region cfg)), (''plan'', JStr (vultr_plan cfg)), (''os_id'', JInt (vultr_os_id cfg)),
        (''label'', JStr (getenv env ''VULTR_LABEL_PREFIX'' [] @ node_name cfg)),
        (''hostname'', JStr (getenv env ''VULTR_HOSTNAME_PREFIX'' [] @ node_name cfg)), (''activation_email'', JBool False)]
       @ optional_field ''firewall_group_id'' (JStr (strip (getenv env ''VULTR_FIREWALL_GROUP_ID'' [])))
       @ optional_field ''ssh_key_ids'' (JArr (map JStr (csv_env env ''VULTR_SSH_KEY_IDS'')))
       @ optional_field ''tags'' (JArr (map JStr (csv_env env ''VULTR_TAGS'')))
       @ optional_field ''user_data'' (JStr (base64 user_data))
       @ optional_field ''script_id'' (JStr (strip (getenv env ''VULTR_SCRIPT_ID'' []))))))"

section \<open>The answers\<close>

definition response_instance :: "json \<Rightarrow> string \<Rightarrow> string \<Rightarrow> json py" where
  "response_instance data no_data no_object =
     (if \<not> truthy data then Inl (RuntimeError no_data)
      else res_bind (py_get ''instance'' data) (\<lambda>i. if is_obj i then Inr i else Inl (RuntimeError no_object)))"

definition parse_create_response :: "json \<Rightarrow> string py" where
  "parse_create_response data =
     res_bind (response_instance data ''Vultr create response was empty.''
       ''Vultr create response did not include an instance object.'') (\<lambda>i.
     let vm_id = strip (text_of ''id'' i) in
     if vm_id = [] then Inl (RuntimeError ''Vultr create response did not include an instance id.'')
     else Inr vm_id)"

record instance_state =
  st_status :: string
  st_server_status :: string
  st_public_ip :: string
  st_private_ip :: string

definition parse_instance_state :: "json \<Rightarrow> instance_state py" where
  "parse_instance_state data =
     res_bind (response_instance data ''Vultr instance state response was empty.''
       ''Vultr instance state response did not include an instance object.'') (\<lambda>i.
     Inr \<lparr>st_status = text_of ''status'' i, st_server_status = text_of ''server_status'' i,
       st_public_ip = text_of ''main_ip'' i, st_private_ip = text_of ''internal_ip'' i\<rparr>)"

text \<open>One round of the wait; its state is whether the VPC has been attached.\<close>

definition instance_ready :: "string \<Rightarrow> instance_state \<Rightarrow> bool" where
  "instance_ready vpc st \<longleftrightarrow> st_status st = ''active'' \<and> st_server_status st = ''ok'' \<and> st_public_ip st \<noteq> []
     \<and> (vpc = [] \<or> st_private_ip st \<noteq> [])"

definition ready_attempt ::
  "'w host \<Rightarrow> string \<Rightarrow> string \<Rightarrow> bool \<Rightarrow> 'w \<Rightarrow> (instance_state + bool) py \<times> 'w" where
  "ready_attempt h vpc vm_id vpc_attached w =
     (case api_call h (Get (''/instances/'' @ vm_id)) w of
        (Inl e, w') \<Rightarrow> (Inl e, w')
      | (Inr data, w') \<Rightarrow> (case parse_instance_state data of
          Inl e \<Rightarrow> (Inl e, w')
        | Inr st \<Rightarrow>
            if st_status st = ''active'' \<and> st_public_ip st \<noteq> [] \<and> \<not> vpc_attached \<and> vpc \<noteq> [] then
              (case api_call h (Post (''/instances/'' @ vm_id @ ''/vpcs/attach'') (JObj [(''vpc_id'', JStr vpc)])) w' of
                 (Inl e, w'') \<Rightarrow> (Inl e, w'')
               | (Inr _, w'') \<Rightarrow> (Inr (Inr True), w''))
            else if instance_ready vpc st then (Inr (Inl st), w')
            else (Inr (Inr vpc_attached), w')))"

definition wait_for_instance_ready :: "'w host \<Rightarrow> env \<Rightarrow> create_config \<Rightarrow> string \<Rightarrow> ('w, instance_state) script" where
  "wait_for_instance_ready h env cfg vm_id = (\<lambda>w.
     s_bind (wait_until h (deadline_after h (cr_timeout cfg) w) (cr_interval cfg)
         (ready_attempt h (strip (getenv env ''VULTR_VPC_ID'' [])) vm_id) False)
       (\<lambda>found. case found of
          None \<Rightarrow> of_py (Inl (RuntimeError ''Timed out waiting for instance to become ready (status=active, server_status=ok).''))
        | Some st \<Rightarrow> s_return st) w)"

definition write_result_file :: "'w host \<Rightarrow> env \<Rightarrow> create_config \<Rightarrow> string \<Rightarrow> instance_state \<Rightarrow> ('w, unit) script" where
  "write_result_file h env cfg vm_id st =
     (let path = strip (getenv env ''CREATE_RESULT_FILE'' []) in
      if path = [] then s_return ()
      else (\<lambda>w. Some (Inr (), write_json h path
        (JObj [(''node_name'', JStr (node_name cfg)), (''instance_id'', JStr vm_id),
          (''public_ip'', JStr (st_public_ip st)), (''private_ip'', JStr (st_private_ip st)),
          (''server_status'', JStr (st_server_status st))]) w)))"

definition create_worker :: "'w host \<Rightarrow> env \<Rightarrow> create_config \<Rightarrow> ('w, int) script" where
  "create_worker h env cfg =
     s_bind (build_payload h env cfg) (\<lambda>payload.
     s_bind (call_api h (Post ''/instances'' payload)) (\<lambda>response.
     s_bind (of_py (parse_create_response response)) (\<lambda>vm_id.
     s_bind (wait_for_instance_ready h env cfg vm_id) (\<lambda>st.
     s_bind (write_result_file h env cfg vm_id st) (\<lambda>_.
     s_return 0)))))"

definition create_main :: "'w host \<Rightarrow> env \<Rightarrow> string list \<Rightarrow> ('w, int) script" where
  "create_main h env args = (case args of
     [node] \<Rightarrow> exit_on_own_error (s_bind (of_py (create_load_config env node)) (create_worker h env))
   | _ \<Rightarrow> s_return 1)"

lemma ready_attempt_clock: "clock_ok h \<Longrightarrow> monotonic h w \<le> monotonic h (snd (ready_attempt h vpc i s w))"
  using api_call_clock [of h w "Get (''/instances/'' @ i)"]
    api_call_clock [of h "snd (api_call h (Get (''/instances/'' @ i)) w)"
      "Post (''/instances/'' @ i @ ''/vpcs/attach'') (JObj [(''vpc_id'', JStr vpc)])"]
  unfolding ready_attempt_def by (auto split: prod.split sum.split)

lemma returns_read_root_public_key [returns_intros]: "returns (read_root_public_key h env)"
  unfolding read_root_public_key_def Let_def
  by (intro returns_intros) (simp add: returns_def split: option.split)

lemma returns_write_result_file [returns_intros]: "returns (write_result_file h env cfg i st)"
  unfolding write_result_file_def Let_def by (intro returns_intros) (simp add: returns_def)

lemma returns_create_main:
  assumes "clock_ok h" and "\<And>cfg node. create_load_config env node = Inr cfg \<Longrightarrow> cr_interval cfg \<noteq> 0"
  shows "returns (create_main h env args)"
proof -
  have wait: "returns (wait_for_instance_ready h env cfg i)" if "cr_interval cfg \<noteq> 0" for cfg i
    unfolding wait_for_instance_ready_def
    by (rule returns_wait; (rule assms(1) that ready_attempt_clock returns_intros)+)
  show ?thesis
    unfolding create_main_def create_worker_def build_payload_def Let_def
    by (auto split: list.split intro!: returns_bind_py returns_intros wait assms(2))
qed

section \<open>The whole flow\<close>

text \<open>
  What the flow takes from its surroundings: whether \<^verbatim>\<open>kubectl\<close> is there, the interpreter, the
  directory of the scripts, the home directory, the temporary file, the time and the random number
  of a generated name, and how \<^verbatim>\<open>shlex\<close> splits the options of ssh.
\<close>

record surroundings =
  has_kubectl :: bool
  python :: string
  script_dir :: string
  home :: string
  result_path :: string
  epoch :: int
  random_number :: int
  shlex_split :: "string \<Rightarrow> string list"

definition generate_node_name :: "surroundings \<Rightarrow> env \<Rightarrow> string" where
  "generate_node_name s env = getenv env ''WORKER_NODE_NAME_PREFIX'' ''k3s-worker'' @ ''-'' @ int_str (epoch s)
     @ ''-'' @ pad_digits 4 (nat (random_number s))"

definition env_int :: "env \<Rightarrow> string \<Rightarrow> string \<Rightarrow> int py" where
  "env_int env name dflt = or_raise (ValueError ''invalid literal for int()'') (py_int (getenv env name dflt))"

definition extract_ssh_host :: "string \<Rightarrow> string" where
  "extract_ssh_host ssh_target = rev (takeWhile (\<lambda>c. c \<noteq> CHR ''@'') (rev ssh_target))"

definition known_hosts_file :: "surroundings \<Rightarrow> env \<Rightarrow> string" where
  "known_hosts_file s env = getenv env ''SSH_KNOWN_HOSTS_FILE'' (home s @ ''/.ssh/known_hosts'')"

definition remove_stale_known_host :: "'w host \<Rightarrow> surroundings \<Rightarrow> env \<Rightarrow> string \<Rightarrow> ('w, unit) script" where
  "remove_stale_known_host h s env ssh_target =
     (let ssh_host = extract_ssh_host ssh_target in
      s_bind (run_unchecked h [''ssh-keygen'', ''-R'', ssh_host, ''-f'', known_hosts_file s env]) (\<lambda>_.
      s_bind (run_unchecked h [''ssh-keygen'', ''-R'', ''['' @ ssh_host @ '']:22'', ''-f'', known_hosts_file s env]) (\<lambda>_.
      s_return ())))"

definition default_wait_ssh_options :: "string \<Rightarrow> int \<Rightarrow> string list" where
  "default_wait_ssh_options known_hosts connect_timeout =
     [''-o'', ''BatchMode=yes'', ''-o'', ''StrictHostKeyChecking=accept-new'', ''-o'', ''UserKnownHostsFile='' @ known_hosts,
      ''-o'', ''ConnectTimeout='' @ int_str connect_timeout]"

text \<open>One round of a wait for a command to succeed.\<close>

definition command_attempt :: "'w host \<Rightarrow> string list \<Rightarrow> unit \<Rightarrow> 'w \<Rightarrow> (unit + unit) py \<times> 'w" where
  "command_attempt h args u w = (case run h args [] w of
     (Inl e, w') \<Rightarrow> (Inl e, w')
   | (Inr code, w') \<Rightarrow> (Inr (if code = 0 then Inl () else Inr ()), w'))"

definition wait_for_command :: "'w host \<Rightarrow> string list \<Rightarrow> int \<Rightarrow> int \<Rightarrow> ('w, unit option) script" where
  "wait_for_command h args timeout interval = (\<lambda>w.
     s_bind (wait_until h (deadline_after h timeout w) interval (command_attempt h args) ()) s_return w)"

definition wait_for_ssh_ready :: "'w host \<Rightarrow> surroundings \<Rightarrow> env \<Rightarrow> string \<Rightarrow> ('w, unit) script" where
  "wait_for_ssh_ready h s env ssh_target =
     s_bind (of_py (env_int env ''SSH_READY_TIMEOUT_SECONDS'' ''300'')) (\<lambda>timeout.
     s_bind (of_py (env_int env ''SSH_READY_POLL_INTERVAL_SECONDS'' ''5'')) (\<lambda>interval.
     s_bind (of_py (env_int env ''SSH_READY_CONNECT_TIMEOUT_SECONDS'' ''5'')) (\<lambda>connect_timeout.
     let opts = strip (getenv env ''SSH_OPTS'' []);
         ssh_opts = (if opts \<noteq> [] then shlex_split s opts else default_wait_ssh_options (known_hosts_file s env) connect_timeout) in
     s_bind (wait_for_command h ([''ssh''] @ ssh_opts @ [ssh_target, ''true'']) timeout interval) (\<lambda>ready. case ready of
         Some _ \<Rightarrow> s_return ()
       | None \<Rightarrow> of_py (Inl (RuntimeError ''Timed out waiting for SSH''))))))"

definition wait_for_node_ready :: "'w host \<Rightarrow> env \<Rightarrow> string \<Rightarrow> ('w, unit) script" where
  "wait_for_node_ready h env node =
     s_bind (of_py (env_int env ''KUBECTL_NODE_REGISTRATION_TIMEOUT_SECONDS'' ''300'')) (\<lambda>timeout.
     s_bind (of_py (env_int env ''KUBECTL_NODE_POLL_INTERVAL_SECONDS'' ''5'')) (\<lambda>interval.
     s_bind (wait_for_command h [''kubectl'', ''get'', ''node'', node] timeout interval) (\<lambda>_.
     s_bind (run_unchecked h [''kubectl'', ''get'', ''node'', node]) (\<lambda>code.
     if code \<noteq> 0 then of_py (Inl (RuntimeError ''Timed out waiting for node to appear in the cluster.''))
     else run_command h [''kubectl'', ''wait'', ''--for=condition=Ready'', ''node/'' @ node,
       ''--timeout='' @ getenv env ''KUBECTL_NODE_READY_TIMEOUT'' ''300s''] []))))"

definition read_create_result :: "'w host \<Rightarrow> string \<Rightarrow> ('w, json) script" where
  "read_create_result h path = (\<lambda>w. case read_text h path w of
     None \<Rightarrow> Some (Inl FileNotFoundError, w)
   | Some content \<Rightarrow> Some (or_raise (ValueError ''JSONDecodeError'') (loads h content), w))"

text \<open>The variables a flow cannot do without.\<close>

definition required_names :: "string list" where
  "required_names = [''K3S_URL'', ''K3S_TOKEN'', ''VULTR_API_KEY'', ''VULTR_REGION'', ''VULTR_PLAN'', ''VULTR_OS_ID'',
     ''VULTR_LOAD_BALANCER_ID'']"

definition ssh_host_for :: "env \<Rightarrow> string \<Rightarrow> string \<Rightarrow> string py" where
  "ssh_host_for env public private =
     (let mode = getenv env ''BOOTSTRAP_SSH_HOST_MODE'' ''private'' in
      if mode = ''public'' then Inr public else if mode = ''private'' then Inr private
      else Inl (RuntimeError ''BOOTSTRAP_SSH_HOST_MODE must be either public or private.''))"

text \<open>Joining the cluster and the load balancer, once the machine has its addresses.\<close>

definition join_and_attach :: "'w host \<Rightarrow> surroundings \<Rightarrow> env \<Rightarrow> string \<Rightarrow> string \<Rightarrow> string \<Rightarrow> string \<Rightarrow> ('w, int) script" where
  "join_and_attach h s env node ssh_target public private =
     s_bind (remove_stale_known_host h s env private) (\<lambda>_.
     s_bind (remove_stale_known_host h s env ssh_target) (\<lambda>_.
     s_bind (wait_for_ssh_ready h s env ssh_target) (\<lambda>_.
     s_bind (run_command h [script_dir s @ ''/add-k3s-worker-over-ssh.sh'', ssh_target, private,
         getenv env ''FLANNEL_IFACE_DEFAULT'' ''enp8s0'', node] []) (\<lambda>_.
     s_bind (wait_for_node_ready h env node) (\<lambda>_.
     s_bind (run_command h [python s, script_dir s @ ''/attach-vm-to-lb.py'', public] []) (\<lambda>_.
     s_return 0))))))"

definition worker_flow :: "'w host \<Rightarrow> surroundings \<Rightarrow> env \<Rightarrow> string option \<Rightarrow> ('w, int) script" where
  "worker_flow h s env arg =
     s_bind (of_py (guard (\<not> has_kubectl s) (RuntimeError ''Missing required command: kubectl''))) (\<lambda>_.
     s_bind (of_py (traverse (require_env env) required_names)) (\<lambda>_.
     let node = (case arg of Some n \<Rightarrow> n | None \<Rightarrow> generate_node_name s env) in
     s_bind (run_command h [python s, script_dir s @ ''/create-vultr-worker.py'', node] [(''CREATE_RESULT_FILE'', result_path s)]) (\<lambda>_.
     s_bind (read_create_result h (result_path s)) (\<lambda>result.
     s_bind (of_py (guard (\<not> is_obj result) AttributeError)) (\<lambda>_.
     let public = text_of ''public_ip'' result; private = text_of ''private_ip'' result in
     s_bind (of_py (guard (public = [] \<or> private = []) (RuntimeError ''Create result file did not include both public and private IPs.''))) (\<lambda>_.
     s_bind (of_py (ssh_host_for env public private)) (\<lambda>ssh_host.
     join_and_attach h s env node (getenv env ''VULTR_BOOTSTRAP_SSH_USER'' ''root'' @ ''@'' @ ssh_host) public private)))))))"

definition e2e_main :: "'w host \<Rightarrow> surroundings \<Rightarrow> env \<Rightarrow> string list \<Rightarrow> ('w, int) script" where
  "e2e_main h s env args = (case args of
     [] \<Rightarrow> exit_on_error (worker_flow h s env None)
   | [node] \<Rightarrow> exit_on_error (worker_flow h s env (Some node))
   | _ \<Rightarrow> s_return 1)"

section \<open>The scripts return\<close>

lemma command_attempt_clock: "clock_ok h \<Longrightarrow> monotonic h w \<le> monotonic h (snd (command_attempt h args u w))"
proof -
  assume "clock_ok h"
  then have "monotonic h w \<le> monotonic h (snd (run h args [] w))" unfolding clock_ok_def by blast
  then show ?thesis by (auto simp: command_attempt_def split: prod.split sum.split)
qed

lemma returns_wait_for_command:
  assumes "clock_ok h" "interval \<noteq> 0"
  shows "returns (wait_for_command h args timeout interval)"
  unfolding wait_for_command_def by (rule returns_wait; (rule assms command_attempt_clock returns_intros)+)

lemma returns_small [returns_intros]:
  "returns (remove_stale_known_host h s env t)" "returns (read_create_result h p)"
  unfolding remove_stale_known_host_def Let_def read_create_result_def
  by (intro returns_intros) (auto simp: returns_def split: option.split)

lemma returns_e2e_main:
  assumes "clock_ok h"
    and "env_int env ''SSH_READY_POLL_INTERVAL_SECONDS'' ''5'' \<noteq> Inr 0" "env_int env ''KUBECTL_NODE_POLL_INTERVAL_SECONDS'' ''5'' \<noteq> Inr 0"
  shows "returns (e2e_main h s env args)"
proof -
  have "returns (wait_for_ssh_ready h s env t)" "returns (wait_for_node_ready h env n)" for t n
    unfolding wait_for_ssh_ready_def wait_for_node_ready_def Let_def
    using assms(2,3) by (auto intro!: returns_bind_py returns_intros returns_wait_for_command [OF assms(1)])
  then have "returns (join_and_attach h s env n t a b)" for n t a b
    unfolding join_and_attach_def by (intro returns_intros)
  then have "returns (worker_flow h s env arg)" for arg
    unfolding worker_flow_def Let_def by (intro returns_intros)
  then show ?thesis unfolding e2e_main_def by (auto split: list.split intro!: returns_intros)
qed

text \<open>C33: with a clock that moves on and a pause between the rounds, every script ends, those that set
  up a machine as well as those that create, attach and remove workers: no wait goes on for ever,
  whatever the API and the commands answer.\<close>

theorem worker_scripts_return:
  assumes "clock_ok (world m)" and "get_int_env env ''WAIT_INTERVAL_SECONDS'' ''5'' \<noteq> Inr 0"
    and "env_int env ''SSH_READY_POLL_INTERVAL_SECONDS'' ''5'' \<noteq> Inr 0" and "env_int env ''KUBECTL_NODE_POLL_INTERVAL_SECONDS'' ''5'' \<noteq> Inr 0"
  shows "(\<exists>r. attach_main (world m) env args w = Some r) \<and> (\<exists>r. teardown_main (world m) which env args w = Some r)
     \<and> (\<exists>r. create_main (world m) env args w = Some r) \<and> (\<exists>r. e2e_main (world m) s env args w = Some r)
     \<and> (\<exists>r. bootstrap_worker_main m env w = Some r) \<and> (\<exists>r. bootstrap_master_main m env w = Some r)"
proof -
  have "wait_interval_seconds cfg \<noteq> 0" if "attach_load_config env ip = Inr cfg" for cfg ip
    using that assms(2) by (auto simp: attach_load_config_def res_bind_Inr_iff)
  moreover have "td_interval cfg \<noteq> 0" if "teardown_load_config env node = Inr cfg" for cfg node
    using that assms(2) by (auto simp: teardown_load_config_def res_bind_Inr_iff)
  moreover have "cr_interval cfg \<noteq> 0" if "create_load_config env node = Inr cfg" for cfg node
    using that assms(2) by (auto simp: create_load_config_def res_bind_Inr_iff)
  ultimately have "returns (attach_main (world m) env args)" "returns (teardown_main (world m) which env args)"
    "returns (create_main (world m) env args)" "returns (e2e_main (world m) s env args)"
    using assms by (blast intro: returns_attach_main returns_teardown_main returns_create_main returns_e2e_main)+
  moreover have "returns (bootstrap_worker_main m env)" "returns (bootstrap_master_main m env)"
    using returns_bootstrap_worker_main returns_bootstrap_master_main [OF assms(1)] by blast+
  ultimately show ?thesis by (auto simp: returns_def)
qed

text \<open>A world that is nothing but its clock, with an API and commands that never succeed.\<close>

definition silent_machine :: "int machine" where
  "silent_machine = \<lparr>world = \<lparr>http = \<lambda>c w. (UrlError, w), run = \<lambda>args env w. (Inr 1, w), monotonic = of_int, pause = \<lambda>n w. w + n,
       write_json = \<lambda>p v w. w, read_text = \<lambda>p w. None, loads = \<lambda>s. None\<rparr>,
     is_root = True, hostname = [], installed = \<lambda>c w. True, captured = \<lambda>args i env w. (Inr (1, [], []), w),
     piped = \<lambda>a b env w. (Inr (1, 1), w), logged = \<lambda>d args env l w. (Inr 1, w), run_in = \<lambda>d args env w. (Inr 1, w),
     write_text = \<lambda>p c w. w, chmod = \<lambda>p n w. w, local_time = \<lambda>w. [], dumps = \<lambda>v. []\<rparr>"

theorem worker_scripts_return_witness: "\<exists>r. teardown_main (world silent_machine) True (\<lambda>_. None) [''worker-5''] 0 = Some r"
proof -
  have "clock_ok (world silent_machine)" by (simp add: clock_ok_def silent_machine_def)
  moreover have "get_int_env (\<lambda>_. None) ''WAIT_INTERVAL_SECONDS'' ''5'' \<noteq> Inr 0"
    "env_int (\<lambda>_. None) ''SSH_READY_POLL_INTERVAL_SECONDS'' ''5'' \<noteq> Inr 0"
    "env_int (\<lambda>_. None) ''KUBECTL_NODE_POLL_INTERVAL_SECONDS'' ''5'' \<noteq> Inr 0" by code_simp+
  ultimately show ?thesis by (rule worker_scripts_return [THEN conjunct2, THEN conjunct1])
qed

end
