(* ===== verification/WorkerFlow.thy ===== *)
theory WorkerFlow
  imports CreateWorker
begin

text \<open>
  What has happened when the scripts that create a worker end well
  (\<^verbatim>\<open>linux-script/create-vultr-worker.py\<close>, \<^verbatim>\<open>linux-script/create-worker-e2e.py\<close>).
\<close>

section \<open>Waits that have ended well\<close>

lemma command_succeeded:
  assumes "wait_for_command h args timeout interval w = Some (Inr (Some u), w')"
  shows "\<exists>w0. run h args [] w0 = (Inr 0, w')"
proof -
  from assms have "wait_until h (deadline_after h timeout w) interval (command_attempt h args) () w = Some (Inr (Some u), w')"
    by (simp add: wait_for_command_def s_bind_Some_Inr)
  from wait_until_result [OF this] obtain s' w0 where "command_attempt h args s' w0 = (Inr (Inl u), w')" by blast
  then have "run h args [] w0 = (Inr 0, w')" by (auto simp: command_attempt_def split: prod.splits sum.splits if_splits)
  then show ?thesis ..
qed

lemma ssh_succeeded:
  assumes "wait_for_ssh_ready h s env ssh_target w = Some (Inr u, w')"
  shows "\<exists>opts w0. run h ([''ssh''] @ opts @ [ssh_target, ''true'']) [] w0 = (Inr 0, w')"
proof -
  from assms obtain opts timeout interval ready w1 where
    "wait_for_command h ([''ssh''] @ opts @ [ssh_target, ''true'']) timeout interval w = Some (Inr ready, w1)"
    "(case ready of Some _ \<Rightarrow> s_return () | None \<Rightarrow> of_py (Inl (RuntimeError ''Timed out waiting for SSH''))) w1 = Some (Inr u, w')"
    unfolding wait_for_ssh_ready_def Let_def by (elim of_py_bindE s_bindE)
  then have "wait_for_command h ([''ssh''] @ opts @ [ssh_target, ''true'']) timeout interval w = Some (Inr (Some ()), w')"
    by (cases ready) auto
  from command_succeeded [OF this] show ?thesis by blast
qed

lemma node_ready_succeeded:
  assumes "wait_for_node_ready h env node w = Some (Inr u, w')"
  shows "\<exists>w0 w1. run h [''kubectl'', ''get'', ''node'', node] [] w0 = (Inr 0, w1)
    \<and> run h [''kubectl'', ''wait'', ''--for=condition=Ready'', ''node/'' @ node,
       ''--timeout='' @ getenv env ''KUBECTL_NODE_READY_TIMEOUT'' ''300s''] [] w1 = (Inr 0, w')"
proof -
  from assms obtain code w0 w1 where look: "run_unchecked h [''kubectl'', ''get'', ''node'', node] w0 = Some (Inr code, w1)"
    and rest: "(if code \<noteq> 0 then of_py (Inl (RuntimeError ''Timed out waiting for node to appear in the cluster.''))
       else run_command h [''kubectl'', ''wait'', ''--for=condition=Ready'', ''node/'' @ node,
         ''--timeout='' @ getenv env ''KUBECTL_NODE_READY_TIMEOUT'' ''300s''] []) w1 = Some (Inr u, w')"
    unfolding wait_for_node_ready_def by (elim of_py_bindE s_bindE)
  have code: "code = 0"
  proof (rule ccontr)
    assume "code \<noteq> 0"
    with rest show False by simp
  qed
  from rest [unfolded code] have "run_command h [''kubectl'', ''wait'', ''--for=condition=Ready'', ''node/'' @ node,
      ''--timeout='' @ getenv env ''KUBECTL_NODE_READY_TIMEOUT'' ''300s''] [] w1 = Some (Inr u, w')"
    by (simp only: simp_thms if_False)
  from run_commandE [OF this] look code show ?thesis by (intro exI [of _ w0] exI [of _ w1]) (simp add: run_unchecked_def)
qed

lemma instance_became_ready:
  assumes "wait_for_instance_ready h env cfg vm_id w = Some (Inr st, w')"
  shows "\<exists>w0 data. api_call h (Get (''/instances/'' @ vm_id)) w0 = (Inr data, w') \<and> parse_instance_state data = Inr st
    \<and> instance_ready (strip (getenv env ''VULTR_VPC_ID'' [])) st"
proof -
  let ?vpc = "strip (getenv env ''VULTR_VPC_ID'' [])"
  from assms have "wait_until h (deadline_after h (cr_timeout cfg) w) (cr_interval cfg) (ready_attempt h ?vpc vm_id) False w
      = Some (Inr (Some st), w')"
    unfolding wait_for_instance_ready_def by (elim s_bindE) (simp split: option.splits)
  from wait_until_result [OF this] obtain attached w0 where "ready_attempt h ?vpc vm_id attached w0 = (Inr (Inl st), w')" by blast
  then show ?thesis by (auto simp: ready_attempt_def split: prod.splits sum.splits if_splits)
qed

lemma instance_resolved:
  assumes "wait_for_instance_resolution h cfg w = Some (Inr vm, w')"
  shows "\<exists>wa data. api_call h (Get all_instances) wa = (Inr data, w') \<and> resolve_by_ip data (target_public_ip cfg) = Inr vm"
proof -
  let ?parse = "\<lambda>data. res_bind (resolve_by_ip data (target_public_ip cfg)) (\<lambda>s. Inr (Some s))"
  from assms obtain found w1 where wait: "wait_until h (deadline_after h (wait_timeout_seconds cfg) w) (wait_interval_seconds cfg)
      (resolve_attempt h ?parse) () w = Some (Inr found, w1)"
    and rest: "(case found of Some s \<Rightarrow> s_return s
      | None \<Rightarrow> s_bind (call_api h (Get all_instances)) (\<lambda>data. of_py (resolve_by_ip data (target_public_ip cfg)))) w1 = Some (Inr vm, w')"
    unfolding wait_for_instance_resolution_def by (elim s_bindE)
  show ?thesis
  proof (cases found)
    case None
    with rest show ?thesis by (auto simp: s_bind_Some_Inr call_api_def)
  next
    case (Some s)
    with wait obtain u w0 where "resolve_attempt h ?parse u w0 = (Inr (Inl s), w1)"
      by (metis (no_types, lifting) wait_until_result)
    with rest Some show ?thesis
      by (auto simp: resolve_attempt_def res_bind_Inr_iff split: prod.splits sum.splits option.splits if_splits)
  qed
qed

lemma attachment_seen:
  assumes "wait_for_attachment h cfg target w = Some (Inr r, w')"
  shows "\<exists>wa data lb. api_call h (Get (lb_path (target_load_balancer_id cfg))) wa = (Inr data, w')
    \<and> parse_lb_summary data = Inr lb \<and> attached lb target"
proof -
  from assms obtain u where "wait_until h (deadline_after h (wait_timeout_seconds cfg) w) (wait_interval_seconds cfg)
      (attach_attempt h cfg target) () w = Some (Inr (Some u), w')"
    unfolding wait_for_attachment_def by (elim s_bindE) (auto split: option.splits)
  from wait_until_result [OF this] obtain v w0 where "attach_attempt h cfg target v w0 = (Inr (Inl u), w')" by blast
  from attach_attempt_attached [OF this] show ?thesis by blast
qed

lemma exit_on_own_error_0: "exit_on_own_error m w = Some (Inr 0, w') \<Longrightarrow> m w = Some (Inr 0, w')"
  by (auto simp: exit_on_own_error_def split: option.splits sum.splits prod.splits if_splits)

text \<open>The flow under its handlers.\<close>

lemma e2e_flow:
  assumes "e2e_main h s env args w = Some (Inr 0, w')"
  obtains arg where "worker_flow h s env arg w = Some (Inr 0, w')" "args = (case arg of None \<Rightarrow> [] | Some n \<Rightarrow> [n])"
proof (cases args)
  case Nil
  with assms have "exit_on_error (worker_flow h s env None) w = Some (Inr 0, w')" by (simp add: e2e_main_def)
  from exit_on_error_0 [OF this] Nil that [of None] show ?thesis by simp
next
  case (Cons n ns)
  with assms have ns: "ns = []" by (cases ns) (simp_all add: e2e_main_def)
  with assms Cons have "exit_on_error (worker_flow h s env (Some n)) w = Some (Inr 0, w')" by (simp add: e2e_main_def)
  from exit_on_error_0 [OF this] Cons ns that [of "Some n"] show ?thesis by simp
qed

section \<open>A willing world\<close>

text \<open>An API whose machine is ready at once, commands that end well, and a result file.\<close>

definition ready_host :: "unit host" where
  "ready_host = \<lparr>http = \<lambda>c w. (Answer (case c of Post _ _ \<Rightarrow> ''made'' | _ \<Rightarrow> ''up''), w), run = \<lambda>args env w. (Inr 0, w),
     monotonic = \<lambda>w. 0, pause = \<lambda>n w. w, write_json = \<lambda>p v w. w, read_text = \<lambda>p w. Some ''result'',
     loads = \<lambda>t. Some (if t = ''made'' then JObj [(''instance'', JObj [(''id'', JStr ''i'')])]
       else if t = ''up'' then JObj [(''instance'', JObj [(''status'', JStr ''active''), (''server_status'', JStr ''ok''), (''main_ip'', JStr ''a'')])]
       else JObj [(''public_ip'', JStr ''a''), (''private_ip'', JStr ''b'')])\<rparr>"

definition flow_env :: env where
  "flow_env name = (if name = ''VULTR_OS_ID'' then Some ''1'' else if name \<in> set required_names then Some ''x'' else None)"

definition flow_surroundings :: surroundings where
  "flow_surroundings = \<lparr>has_kubectl = True, python = ''python3'', script_dir = ''d'', home = ''h'', result_path = ''r'', epoch = 1,
     random_number = 2, shlex_split = \<lambda>t. []\<rparr>"

text \<open>A load balancer that lists the instance once it has been patched.\<close>

definition patched_host :: "bool host" where
  "patched_host = \<lparr>http = \<lambda>c w. (case c of
         Patch _ _ \<Rightarrow> (Answer [], True)
       | Get path \<Rightarrow> (Answer (if path = all_instances then ''all'' else if w then ''with'' else ''without''), w)
       | _ \<Rightarrow> (UrlError, w)),
     run = \<lambda>args env w. (Inr 0, w), monotonic = \<lambda>w. 0, pause = \<lambda>n w. w, write_json = \<lambda>p v w. w, read_text = \<lambda>p w. None,
     loads = \<lambda>t. Some (if t = ''all'' then one_instance else lb_response (if t = ''with'' then [''i''] else []))\<rparr>"

section \<open>Properties\<close>

text \<open>A machine whose creation ends well was asked for once it could be configured, and what ended the
  wait was an answer in which it was active with a public address, and with a private one where a
  network had to be attached; that answer is what the result file holds.\<close>

theorem created_worker_is_ready:
  assumes "create_main h env [node] w = Some (Inr 0, w')"
  shows "\<exists>cfg payload response vm_id st data wa wb wc wd. create_load_config env node = Inr cfg
     \<and> api_call h (Post ''/instances'' payload) wa = (Inr response, wb) \<and> parse_create_response response = Inr vm_id
     \<and> api_call h (Get (''/instances/'' @ vm_id)) wc = (Inr data, wd) \<and> parse_instance_state data = Inr st
     \<and> st_status st = ''active'' \<and> st_public_ip st \<noteq> [] \<and> (strip (getenv env ''VULTR_VPC_ID'' []) \<noteq> [] \<longrightarrow> st_private_ip st \<noteq> [])
     \<and> write_result_file h env cfg vm_id st wd = Some (Inr (), w')"
proof -
  have "s_bind (of_py (create_load_config env node)) (create_worker h env) w = Some (Inr 0, w')"
    by (rule exit_on_own_error_0) (use assms in \<open>simp add: create_main_def\<close>)
  then obtain cfg where cfg: "create_load_config env node = Inr cfg" and c: "create_worker h env cfg w = Some (Inr 0, w')"
    by (elim of_py_bindE)
  from c obtain payload response vm_id st wa wb wd where made: "call_api h (Post ''/instances'' payload) wa = Some (Inr response, wb)"
    and vm: "parse_create_response response = Inr vm_id" and ready: "wait_for_instance_ready h env cfg vm_id wb = Some (Inr st, wd)"
    and kept: "write_result_file h env cfg vm_id st wd = Some (Inr (), w')"
    unfolding create_worker_def by (elim of_py_bindE s_bindE) simp
  from instance_became_ready [OF ready] obtain wc data where seen: "api_call h (Get (''/instances/'' @ vm_id)) wc = (Inr data, wd)"
    "parse_instance_state data = Inr st" "instance_ready (strip (getenv env ''VULTR_VPC_ID'' [])) st" by blast
  have "api_call h (Post ''/instances'' payload) wa = (Inr response, wb)" using made by (simp add: call_api_def)
  with cfg vm seen kept show ?thesis
    unfolding instance_ready_def by blast
qed

theorem created_worker_is_ready_witness:
  "\<exists>vm_id st. parse_create_response (JObj [(''instance'', JObj [(''id'', JStr ''i'')])]) = Inr vm_id \<and> st_status st = ''active''
    \<and> st_public_ip st \<noteq> [] \<and> (\<exists>wc data wd. api_call ready_host (Get (''/instances/'' @ vm_id)) wc = (Inr data, wd) \<and> parse_instance_state data = Inr st)"
proof -
  have "create_main ready_host flow_env [''n''] () = Some (Inr 0, ())" by code_simp
  from created_worker_is_ready [OF this] obtain payload response vm_id st data wa wb wc wd where
    posted: "api_call ready_host (Post ''/instances'' payload) wa = (Inr response, wb)" and vm: "parse_create_response response = Inr vm_id"
    and seen: "api_call ready_host (Get (''/instances/'' @ vm_id)) wc = (Inr data, wd)" "parse_instance_state data = Inr st"
    "st_status st = ''active''" "st_public_ip st \<noteq> []" by (elim exE conjE)
  have "response = JObj [(''instance'', JObj [(''id'', JStr ''i'')])]"
    using posted by (simp add: api_call_def ready_host_def strip_def rstrip_if_def is_ws_def split: if_splits)
  with vm seen show ?thesis by (intro exI conjI) simp_all
qed

text \<open>C28: when the whole flow ends with 0, each of its commands has ended well, in this order: the machine
  was created and its result file names both addresses, ssh answered, the node was joined over it,
  the cluster listed it and saw it ready, and only then it was attached to the load balancer.\<close>

theorem worker_flow_in_order:
  assumes "e2e_main h s env args w = Some (Inr 0, w')"
  shows "\<exists>node content result ssh_host opts w1 w2 w3 w4 w5 w6 w7.
       args \<in> {[], [node]} \<and> (args = [] \<longrightarrow> node = generate_node_name s env)
     \<and> run h [python s, script_dir s @ ''/create-vultr-worker.py'', node] [(''CREATE_RESULT_FILE'', result_path s)] w = (Inr 0, w1)
     \<and> read_text h (result_path s) w1 = Some content \<and> loads h content = Some result
     \<and> text_of ''public_ip'' result \<noteq> [] \<and> text_of ''private_ip'' result \<noteq> []
     \<and> ssh_host_for env (text_of ''public_ip'' result) (text_of ''private_ip'' result) = Inr ssh_host
     \<and> run h ([''ssh''] @ opts @ [getenv env ''VULTR_BOOTSTRAP_SSH_USER'' ''root'' @ ''@'' @ ssh_host, ''true'']) [] w2 = (Inr 0, w3)
     \<and> run h [script_dir s @ ''/add-k3s-worker-over-ssh.sh'', getenv env ''VULTR_BOOTSTRAP_SSH_USER'' ''root'' @ ''@'' @ ssh_host,
         text_of ''private_ip'' result, getenv env ''FLANNEL_IFACE_DEFAULT'' ''enp8s0'', node] [] w3 = (Inr 0, w4)
     \<and> run h [''kubectl'', ''get'', ''node'', node] [] w5 = (Inr 0, w6)
     \<and> run h [''kubectl'', ''wait'', ''--for=condition=Ready'', ''node/'' @ node,
         ''--timeout='' @ getenv env ''KUBECTL_NODE_READY_TIMEOUT'' ''300s''] [] w6 = (Inr 0, w7)
     \<and> run h [python s, script_dir s @ ''/attach-vm-to-lb.py'', text_of ''public_ip'' result] [] w7 = (Inr 0, w')"
proof -
  from assms obtain arg where arg: "worker_flow h s env arg w = Some (Inr 0, w')"
    "args = (case arg of None \<Rightarrow> [] | Some n \<Rightarrow> [n])" by (rule e2e_flow)
  define node where "node = (case arg of Some n \<Rightarrow> n | None \<Rightarrow> generate_node_name s env)"
  have args: "args \<in> {[], [node]}" "args = [] \<longrightarrow> node = generate_node_name s env"
    using arg(2) by (simp_all add: node_def split: option.splits)
  from arg(1) obtain w1 wr result ssh_host where
    create: "run_command h [python s, script_dir s @ ''/create-vultr-worker.py'', node] [(''CREATE_RESULT_FILE'', result_path s)] w
      = Some (Inr (), w1)"
    and result: "read_create_result h (result_path s) w1 = Some (Inr result, wr)"
    and known: "guard (text_of ''public_ip'' result = [] \<or> text_of ''private_ip'' result = [])
      (RuntimeError ''Create result file did not include both public and private IPs.'') = Inr ()"
    and ssh: "ssh_host_for env (text_of ''public_ip'' result) (text_of ''private_ip'' result) = Inr ssh_host"
    and join: "join_and_attach h s env node (getenv env ''VULTR_BOOTSTRAP_SSH_USER'' ''root'' @ ''@'' @ ssh_host)
      (text_of ''public_ip'' result) (text_of ''private_ip'' result) wr = Some (Inr 0, w')"
    unfolding worker_flow_def Let_def node_def by (elim of_py_bindE s_bindE) simp
  let ?target = "getenv env ''VULTR_BOOTSTRAP_SSH_USER'' ''root'' @ ''@'' @ ssh_host"
  from join obtain w2 w3 w4 w7 where steps:
    "wait_for_ssh_ready h s env ?target w2 = Some (Inr (), w3)"
    "run_command h [script_dir s @ ''/add-k3s-worker-over-ssh.sh'', ?target, text_of ''private_ip'' result,
       getenv env ''FLANNEL_IFACE_DEFAULT'' ''enp8s0'', node] [] w3 = Some (Inr (), w4)"
    "wait_for_node_ready h env node w4 = Some (Inr (), w7)"
    "run_command h [python s, script_dir s @ ''/attach-vm-to-lb.py'', text_of ''public_ip'' result] [] w7 = Some (Inr (), w')"
    unfolding join_and_attach_def by (elim s_bindE) simp
  from result obtain content where content: "read_text h (result_path s) w1 = Some content" "loads h content = Some result"
    by (auto simp: read_create_result_def split: option.splits)
  from known have ips: "text_of ''public_ip'' result \<noteq> []" "text_of ''private_ip'' result \<noteq> []" by simp_all
  from ssh_succeeded [OF steps(1)] obtain opts v where
    answered: "run h ([''ssh''] @ opts @ [?target, ''true'']) [] v = (Inr 0, w3)" by (elim exE)
  from node_ready_succeeded [OF steps(3)] obtain w5 w6 where
    seen: "run h [''kubectl'', ''get'', ''node'', node] [] w5 = (Inr 0, w6)"
    "run h [''kubectl'', ''wait'', ''--for=condition=Ready'', ''node/'' @ node,
       ''--timeout='' @ getenv env ''KUBECTL_NODE_READY_TIMEOUT'' ''300s''] [] w6 = (Inr 0, w7)" by (elim exE conjE)
  show ?thesis
    by (rule exI, rule exI, rule exI, rule exI, rule exI, rule exI, rule exI, rule exI, rule exI, rule exI, rule exI, rule exI,
        intro conjI, rule args(1), rule args(2), rule run_commandE [OF create], rule content(1), rule content(2), rule ips(1),
        rule ips(2), rule ssh, rule answered, rule run_commandE [OF steps(2)], rule seen(1), rule seen(2), rule run_commandE [OF steps(4)])
qed

theorem worker_flow_in_order_witness:
  "\<exists>node opts ssh_host w2 w3 w5 w6. node = ''n''
    \<and> run ready_host ([''ssh''] @ opts @ [getenv flow_env ''VULTR_BOOTSTRAP_SSH_USER'' ''root'' @ ''@'' @ ssh_host, ''true'']) [] w2 = (Inr 0, w3)
    \<and> run ready_host [''kubectl'', ''get'', ''node'', node] [] w5 = (Inr 0, w6)"
proof -
  have "e2e_main ready_host flow_surroundings flow_env [''n''] () = Some (Inr 0, ())" by code_simp
  from worker_flow_in_order [OF this] obtain node ssh_host opts w2 w3 w5 w6 where node: "[''n''] \<in> {[], [node]}"
    and ssh: "run ready_host ([''ssh''] @ opts @ [getenv flow_env ''VULTR_BOOTSTRAP_SSH_USER'' ''root'' @ ''@'' @ ssh_host, ''true'']) [] w2 = (Inr 0, w3)"
    and listed: "run ready_host [''kubectl'', ''get'', ''node'', node] [] w5 = (Inr 0, w6)"
    by (elim exE conjE)
  from node have "node = ''n''" by simp
  from this ssh listed show ?thesis by (intro exI conjI)
qed

text \<open>Attaching ends with 0 only on an answer of the load balancer that lists the instance, which is the
  one the API gave for the public address and in the region of the load balancer.\<close>

theorem attached_worker_is_listed:
  assumes "attach_main h env [ip] w = Some (Inr 0, w')"
  shows "\<exists>cfg vm listing before after lb lb' wa wb wc wd. attach_load_config env ip = Inr cfg
     \<and> api_call h (Get all_instances) wa = (Inr listing, wb) \<and> resolve_by_ip listing ip = Inr vm
     \<and> api_call h (Get (lb_path (target_load_balancer_id cfg))) wb = (Inr before, wc) \<and> parse_lb_summary before = Inr lb
     \<and> instance_region vm = lb_region lb
     \<and> api_call h (Get (lb_path (target_load_balancer_id cfg))) wd = (Inr after, w') \<and> parse_lb_summary after = Inr lb'
     \<and> instance_id vm \<in> set (lb_instances lb')"
proof -
  have "s_bind (of_py (attach_load_config env ip)) (attach_vm h) w = Some (Inr 0, w')"
    by (rule exit_on_own_error_0) (use assms in \<open>simp add: attach_main_def\<close>)
  then obtain cfg where cfg: "attach_load_config env ip = Inr cfg" and vm: "attach_vm h cfg w = Some (Inr 0, w')"
    by (elim of_py_bindE)
  from cfg have ip: "target_public_ip cfg = ip" by (auto simp: attach_load_config_def res_bind_Inr_iff)
  from vm obtain vm data lb wb w1 where found: "wait_for_instance_resolution h cfg w = Some (Inr vm, wb)"
    and asked: "call_api h (Get (lb_path (target_load_balancer_id cfg))) wb = Some (Inr data, w1)"
    and lb: "parse_lb_summary data = Inr lb"
    and rest: "(if instance_region vm \<noteq> lb_region lb then of_py (Inl (RuntimeError ''Instance region does not match load balancer region.''))
       else if attached lb (instance_id vm) then s_return 0
       else s_bind (call_api h (Patch (lb_path (target_load_balancer_id cfg)) (build_patch_payload lb (instance_id vm)))) (\<lambda>_.
         wait_for_attachment h cfg (instance_id vm))) w1 = Some (Inr 0, w')"
    unfolding attach_vm_def by (elim of_py_bindE s_bindE)
  have region: "instance_region vm = lb_region lb"
  proof (rule ccontr)
    assume "instance_region vm \<noteq> lb_region lb"
    with rest show False by simp
  qed
  have listed: "\<exists>wd after lb'. api_call h (Get (lb_path (target_load_balancer_id cfg))) wd = (Inr after, w')
      \<and> parse_lb_summary after = Inr lb' \<and> instance_id vm \<in> set (lb_instances lb')"
  proof (cases "attached lb (instance_id vm)")
    case True
    with rest region have "w' = w1" by simp
    with asked lb True show ?thesis by (auto simp: call_api_def attached_def)
  next
    case False
    with rest region obtain w2 where "wait_for_attachment h cfg (instance_id vm) w2 = Some (Inr 0, w')"
      by (auto elim!: s_bindE)
    from attachment_seen [OF this] show ?thesis by (auto simp: attached_def)
  qed
  from asked have before: "api_call h (Get (lb_path (target_load_balancer_id cfg))) wb = (Inr data, w1)" by (simp add: call_api_def)
  from instance_resolved [OF found, unfolded ip] listed obtain wa listing wd after lb' where
    "api_call h (Get all_instances) wa = (Inr listing, wb)" "resolve_by_ip listing ip = Inr vm"
    "api_call h (Get (lb_path (target_load_balancer_id cfg))) wd = (Inr after, w')" "parse_lb_summary after = Inr lb'"
    "instance_id vm \<in> set (lb_instances lb')" by (elim exE conjE)
  with cfg before lb region show ?thesis by (intro exI conjI)
qed

theorem attached_worker_is_listed_witness:
  "\<exists>(vm :: InstanceSummary) after lb' wd. api_call patched_host (Get (lb_path ''x'')) wd = (Inr after, True) \<and> parse_lb_summary after = Inr lb'
    \<and> instance_id vm \<in> set (lb_instances lb')"
proof -
  have "attach_main patched_host example_env [''ip''] False = Some (Inr 0, True)" by code_simp
  from attached_worker_is_listed [OF this] obtain cfg and vm :: InstanceSummary and after lb' wd where cfg: "attach_load_config example_env ''ip'' = Inr cfg"
    and seen: "api_call patched_host (Get (lb_path (target_load_balancer_id cfg))) wd = (Inr after, True)" "parse_lb_summary after = Inr lb'"
      "instance_id vm \<in> set (lb_instances lb')" by (elim exE conjE)
  have "(case attach_load_config example_env ''ip'' of Inr cfg \<Rightarrow> target_load_balancer_id cfg = ''x'' | Inl _ \<Rightarrow> False)" by code_simp
  with cfg have "target_load_balancer_id cfg = ''x''" by simp
  with seen show ?thesis by (intro exI conjI) simp_all
qed

end
