(* ===== verification/GoBase.thy ===== *)
theory GoBase
  imports PyEnv
begin

text \<open>
  What the operator's Go code uses of its language: \<^verbatim>\<open>int32\<close> with its wrap-around, \<^verbatim>\<open>float64\<close>
  with infinities and NaN, errors as values, and functions that return a value or an error and
  change the cluster on the way.
\<close>

section \<open>int32\<close>

text \<open>An \<^verbatim>\<open>int32\<close> is the integer it stands for; \<open>i32\<close> is the wrap-around after every operation.\<close>

definition i32 :: "int \<Rightarrow> int" where
  "i32 x = (x + 2147483648) mod 4294967296 - 2147483648"

abbreviation is_i32 :: "int \<Rightarrow> bool" where
  "is_i32 x \<equiv> - 2147483648 \<le> x \<and> x < 2147483648"

lemma i32_id: "- 2147483648 \<le> x \<Longrightarrow> x < 2147483648 \<Longrightarrow> i32 x = x"
  by (simp add: i32_def)

lemma i32_small: "\<bar>x\<bar> \<le> 2147483647 \<Longrightarrow> i32 x = x"
  by (simp add: i32_id)

lemma i32_bounds: "- 2147483648 \<le> i32 x" "i32 x < 2147483648"
  by (simp_all add: i32_def)

lemma i32_0 [simp]: "i32 0 = 0" and i32_1 [simp]: "i32 1 = 1"
  by (simp_all add: i32_def)

lemma i32_wraps: "i32 2147483648 = - 2147483648"
  by (simp add: i32_def)

text \<open>The same for \<^verbatim>\<open>int64\<close>, of which durations in nanoseconds are made.\<close>

definition i64 :: "int \<Rightarrow> int" where
  "i64 x = (x + 9223372036854775808) mod 18446744073709551616 - 9223372036854775808"

section \<open>float64\<close>

text \<open>
  Multiplication and division with a sign of zero that is not told apart (a divisor of zero
  does not occur: the code divides only by what it has found positive), and \<^verbatim>\<open>math.Ceil\<close>.
\<close>

definition fl_sgn :: "pfloat \<Rightarrow> int" where
  "fl_sgn x = (case x of Fin r \<Rightarrow> if r < 0 then - 1 else if r = 0 then 0 else 1 | PInf \<Rightarrow> 1 | NInf \<Rightarrow> - 1 | NaN \<Rightarrow> 0)"

definition fl_inf :: "int \<Rightarrow> pfloat" where
  "fl_inf s = (if s = 0 then NaN else if 0 < s then PInf else NInf)"

fun fl_mul :: "pfloat \<Rightarrow> pfloat \<Rightarrow> pfloat" where
  "fl_mul (Fin x) (Fin y) = to_float (x * y)"
| "fl_mul NaN _ = NaN"
| "fl_mul _ NaN = NaN"
| "fl_mul x y = fl_inf (fl_sgn x * fl_sgn y)"

fun fl_div :: "pfloat \<Rightarrow> pfloat \<Rightarrow> pfloat" where
  "fl_div (Fin x) (Fin y) = (if y = 0 then fl_inf (fl_sgn (Fin x)) else to_float (x / y))"
| "fl_div NaN _ = NaN"
| "fl_div _ NaN = NaN"
| "fl_div (Fin x) _ = Fin 0"
| "fl_div x (Fin y) = (if y < 0 then fl_inf (- fl_sgn x) else x)"
| "fl_div _ _ = NaN"

fun fl_ceil :: "pfloat \<Rightarrow> pfloat" where
  "fl_ceil (Fin x) = Fin (of_int \<lceil>x\<rceil>)"
| "fl_ceil x = x"

text \<open>
  \<^verbatim>\<open>int32(x)\<close> of a float: its integral part when that fits; what it is otherwise, the language
  leaves to the implementation, which is an argument.
\<close>

definition fl_int32 :: "(pfloat \<Rightarrow> int) \<Rightarrow> pfloat \<Rightarrow> int" where
  "fl_int32 other x = (case trunc_float x of
     Some n \<Rightarrow> if is_i32 n then n else i32 (other x)
   | None \<Rightarrow> i32 (other x))"

lemma fl_int32_bounds: "is_i32 (fl_int32 other x)"
  using i32_bounds by (auto simp: fl_int32_def split: option.split)

text \<open>The quotient of two small whole numbers, rounded as a float and then up, is the exact one rounded up.\<close>

lemma ceil_quotient:
  assumes a: "0 \<le> a" "a < 2147483648" and b: "0 < b" "b < 2147483648"
  shows "\<lceil>rnd64 (of_int a / of_int b)\<rceil> = \<lceil>of_int a / (of_int b :: rat)\<rceil>"
proof (cases "a = 0")
  case False
  let ?q = "of_int a / of_int b :: rat"
  let ?n = "\<lceil>?q\<rceil>"
  have B: "(0::rat) < of_int b" "(1::rat) \<le> of_int b" "(of_int b :: rat) < 2147483648" and A: "(1::rat) \<le> of_int a" "(of_int a :: rat) < 2147483648"
    using a b False by simp_all
  have "?q \<le> of_int a" using A B by (simp add: divide_le_eq mult_le_cancel_left1)
  then have n: "0 < ?n" "?n \<le> a" using A B by (auto simp: ceiling_le_iff)
  have "\<bar>m\<bar> \<le> 2 ^ 53" if "m = ?n" for m using n [folded that] a by simp
  then have up: "rnd64 ?q \<le> of_int ?n" by (intro rnd64_le_int) simp_all
  have "of_int (?n - 1) < ?q" by linarith
  then have "of_int ((?n - 1) * b) < (of_int a :: rat)" using B by (simp add: less_divide_eq)
  then have "(?n - 1) * b + 1 \<le> a" by (simp only: of_int_less_iff)
  then have "of_int ((?n - 1) * b + 1) \<le> (of_int a :: rat)" by (simp only: of_int_le_iff)
  then have gap: "of_int (?n - 1) + 1 / of_int b \<le> ?q" using B by (simp add: le_divide_eq distrib_right)
  have "(2::rat) powi (-1022) \<le> 2 powi (-31)" by (rule power_int_increasing) simp_all
  also have "\<dots> = 1 / 2147483648" by (simp add: power_int_minus_divide)
  also have "\<dots> \<le> 1 / of_int b" using B by (intro divide_left_mono) simp_all
  also have "\<dots> \<le> ?q" using A B by (intro divide_right_mono) simp_all
  finally have "\<bar>rnd64 ?q - ?q\<bar> \<le> ?q / 2 ^ 53" by (rule rnd64_error)
  moreover have "?q / 2 ^ 53 < 1 / of_int b" using A B by (simp add: field_simps)
  ultimately have lo: "of_int (?n - 1) < rnd64 ?q" using gap by linarith
  from up lo show ?thesis by (intro ceiling_unique) simp_all
qed simp

section \<open>Text\<close>

text \<open>\<^verbatim>\<open>strings.TrimSpace\<close>, \<^verbatim>\<open>strconv.ParseInt(raw, 10, 32)\<close> and what
  \<^verbatim>\<open>fmt.Sscanf(raw, "%d", &n)\<close> reads of a text without leading space: a number with an optional
  sign, whatever follows it, when it fits 64 bits.\<close>

definition go_space :: "char \<Rightarrow> bool" where
  "go_space c = (let n = of_char c :: nat in 9 \<le> n \<and> n \<le> 13 \<or> n = 32 \<or> n = 133 \<or> n = 160)"

definition trim_with :: "(char \<Rightarrow> bool) \<Rightarrow> string \<Rightarrow> string" where
  "trim_with p s = rstrip_if p (dropWhile p s)"

definition trim_space :: "string \<Rightarrow> string" where
  "trim_space = trim_with go_space"

definition digits_value :: "string \<Rightarrow> int" where
  "digits_value ds = foldl (\<lambda>a c. 10 * a + int (digit_val c)) 0 ds"

definition signed_digits :: "string \<Rightarrow> bool \<times> string" where
  "signed_digits s = (case s of [] \<Rightarrow> (False, [])
     | c # cs \<Rightarrow> if c = CHR ''-'' then (True, cs) else if c = CHR ''+'' then (False, cs) else (False, s))"

definition parse_int32 :: "string \<Rightarrow> int option" where
  "parse_int32 s = (let (neg, ds) = signed_digits s; n = (if neg then - digits_value ds else digits_value ds) in
     if ds = [] \<or> \<not> list_all is_digit ds \<or> \<not> is_i32 n then None else Some n)"

definition scan_int :: "string \<Rightarrow> int option" where
  "scan_int s = (let (neg, cs) = signed_digits s; ds = takeWhile is_digit cs;
       n = (if neg then - digits_value ds else digits_value ds) in
     if ds = [] \<or> n < - (2 ^ 63) \<or> 2 ^ 63 \<le> n then None else Some n)"

lemma parse_int32_range: "parse_int32 s = Some n \<Longrightarrow> is_i32 n"
  by (auto simp: parse_int32_def Let_def split: prod.splits if_splits)

text \<open>\<^verbatim>\<open>%.3f\<close>: the nearest decimal with three places, ties to even.\<close>

definition fixed3 :: "pfloat \<Rightarrow> string" where
  "fixed3 x = (case x of
     Fin r \<Rightarrow> (let n = rne (\<bar>r\<bar> * 1000) in
       (if r < 0 then ''-'' else []) @ int_str (n div 1000) @ ''.'' @ pad_digits 3 (nat (n mod 1000)))
   | PInf \<Rightarrow> ''+Inf'' | NInf \<Rightarrow> ''-Inf'' | NaN \<Rightarrow> ''NaN'')"

section \<open>Errors and effects\<close>

text \<open>An error of the Kubernetes client says whether the object does not exist; its text is kept.\<close>

datatype go_error = NotFound string | GoError string

type_synonym ('w, 'a) go = "'w \<Rightarrow> (go_error + 'a) \<times> 'w"

definition g_return :: "'a \<Rightarrow> ('w, 'a) go" where
  "g_return x = (\<lambda>w. (Inr x, w))"

definition g_fail :: "go_error \<Rightarrow> ('w, 'a) go" where
  "g_fail e = (\<lambda>w. (Inl e, w))"

text \<open>\<^verbatim>\<open>if err != nil { return err }\<close>\<close>

definition g_bind :: "('w, 'a) go \<Rightarrow> ('a \<Rightarrow> ('w, 'b) go) \<Rightarrow> ('w, 'b) go" where
  "g_bind m f = (\<lambda>w. case m w of (Inl e, w') \<Rightarrow> (Inl e, w') | (Inr x, w') \<Rightarrow> f x w')"

lemma g_return_simp [simp]: "g_return x w = (Inr x, w)"
  and g_fail_simp [simp]: "g_fail e w = (Inl e, w)"
  by (simp_all add: g_return_def g_fail_def)

lemma g_bind_simps [simp]:
  "m w = (Inl e, w') \<Longrightarrow> g_bind m f w = (Inl e, w')"
  "m w = (Inr x, w') \<Longrightarrow> g_bind m f w = f x w'"
  by (simp_all add: g_bind_def)

lemma g_bind_Inr_iff: "g_bind m f w = (Inr y, w') \<longleftrightarrow> (\<exists>x w1. m w = (Inr x, w1) \<and> f x w1 = (Inr y, w'))"
  by (auto simp: g_bind_def split: prod.splits sum.splits)

lemma g_bindE:
  assumes "g_bind m f w = (Inr y, w')"
  obtains x w1 where "m w = (Inr x, w1)" and "f x w1 = (Inr y, w')"
  using assms by (auto simp: g_bind_Inr_iff)

end
