(* ===== verification/ScalerPolicy.thy ===== *)
theory ScalerPolicy
  imports GoBase
begin

text \<open>
  What the operator is told: \<^verbatim>\<open>custom-scaler/internal/controller/scaling_defaults.go\<close>, the
  specification of a \<^verbatim>\<open>CustomScaler\<close> (\<^verbatim>\<open>custom-scaler/api/v1/customscaler_types.go\<close>) and the
  policy that follows from both (\<^verbatim>\<open>scalingPolicyFor\<close>).
\<close>

section \<open>Defaults\<close>

text \<open>The code's \<^verbatim>\<open>scalingPolicy\<close> has the same fields as its defaults.\<close>

record ScalingDefaults =
  RequestsPerPod :: pfloat
  CPUSecondsPerPod :: pfloat
  SafetyFactor :: pfloat
  SparePod :: int
  MinReplicas :: int
  MaxReplicas :: int
  ScaleDownPolicy :: string
  AppErrorRateThreshold :: pfloat
  IngressP99ThresholdSec :: pfloat
  IngressDeploymentName :: string
  IngressDeploymentNS :: string
  IngressReplicasPerWorker :: int
  ReactiveRequiredPoints :: int
  ReactiveIncreaseStep :: int
  ReactiveDecreaseStep :: int
  ReactiveMaxBump :: int
  ReactiveReplicaStep :: int

type_synonym scalingPolicy = ScalingDefaults

record WorkerCapacityDefaults =
  wd_NodeAllocatableMilliCPU :: int
  wd_PodRequestMilliCPU :: int
  wd_SafetyPods :: int
  wd_CapacityStrategy :: string
  wd_MinWorkerCount :: int
  wd_MaxWorkerCount :: int

text \<open>\<^verbatim>\<open>os.Getenv\<close> gives the empty text for a variable that is not set.\<close>

definition getEnvString :: "env \<Rightarrow> string \<Rightarrow> string \<Rightarrow> string" where
  "getEnvString env key fallback = (let raw = getenv env key [] in if raw = [] then fallback else raw)"

text \<open>\<open>parse_float\<close> is \<^verbatim>\<open>strconv.ParseFloat(raw, 64)\<close>, \<open>None\<close> its error.\<close>

definition getEnvFloat :: "(string \<Rightarrow> pfloat option) \<Rightarrow> env \<Rightarrow> string \<Rightarrow> pfloat \<Rightarrow> pfloat" where
  "getEnvFloat parse_float env key fallback =
     (let raw = getenv env key [] in
      if raw = [] then fallback else case parse_float raw of None \<Rightarrow> fallback | Some x \<Rightarrow> x)"

definition getEnvInt32 :: "env \<Rightarrow> string \<Rightarrow> int \<Rightarrow> int" where
  "getEnvInt32 env key fallback =
     (let raw = getenv env key [] in
      if raw = [] then fallback else case parse_int32 raw of None \<Rightarrow> fallback | Some n \<Rightarrow> n)"

definition built_in :: ScalingDefaults where
  "built_in = \<lparr>RequestsPerPod = Fin 25, CPUSecondsPerPod = Fin 30, SafetyFactor = Fin (rnd64 (11 / 10)), SparePod = 1,
     MinReplicas = 1, MaxReplicas = 10, ScaleDownPolicy = ''dangerous'', AppErrorRateThreshold = Fin (rnd64 (1 / 20)),
     IngressP99ThresholdSec = Fin (1 / 2), IngressDeploymentName = ''ingress-nginx-controller'',
     IngressDeploymentNS = ''ingress-nginx'', IngressReplicasPerWorker = 2, ReactiveRequiredPoints = 2,
     ReactiveIncreaseStep = 1, ReactiveDecreaseStep = 2, ReactiveMaxBump = 10, ReactiveReplicaStep = 2\<rparr>"

definition LoadScalingDefaultsFromEnv :: "(string \<Rightarrow> pfloat option) \<Rightarrow> env \<Rightarrow> ScalingDefaults" where
  "LoadScalingDefaultsFromEnv parse_float env =
     (let num = getEnvFloat parse_float env; int = getEnvInt32 env; text = getEnvString env; b = built_in in
     \<lparr>RequestsPerPod = num ''SCALER_REQUESTS_PER_POD'' (RequestsPerPod b),
      CPUSecondsPerPod = num ''SCALER_CPU_SECONDS_PER_POD'' (CPUSecondsPerPod b),
      SafetyFactor = num ''SCALER_SAFETY_FACTOR'' (SafetyFactor b),
      SparePod = int ''SCALER_SPARE_POD'' (SparePod b),
      MinReplicas = int ''SCALER_MIN_REPLICAS'' (MinReplicas b),
      MaxReplicas = int ''SCALER_MAX_REPLICAS'' (MaxReplicas b),
      ScaleDownPolicy = text ''SCALER_SCALE_DOWN_POLICY'' (ScaleDownPolicy b),
      AppErrorRateThreshold = num ''SCALER_APP_ERROR_RATE_THRESHOLD'' (AppErrorRateThreshold b),
      IngressP99ThresholdSec = num ''SCALER_INGRESS_P99_THRESHOLD_SECONDS'' (IngressP99ThresholdSec b),
      IngressDeploymentName = text ''SCALER_INGRESS_DEPLOYMENT_NAME'' (IngressDeploymentName b),
      IngressDeploymentNS = text ''SCALER_INGRESS_DEPLOYMENT_NAMESPACE'' (IngressDeploymentNS b),
      IngressReplicasPerWorker = int ''SCALER_INGRESS_REPLICAS_PER_WORKER'' (IngressReplicasPerWorker b),
      ReactiveRequiredPoints = int ''SCALER_REACTIVE_REQUIRED_POINTS'' (ReactiveRequiredPoints b),
      ReactiveIncreaseStep = int ''SCALER_REACTIVE_INCREASE_STEP'' (ReactiveIncreaseStep b),
      ReactiveDecreaseStep = int ''SCALER_REACTIVE_DECREASE_STEP'' (ReactiveDecreaseStep b),
      ReactiveMaxBump = int ''SCALER_REACTIVE_MAX_BUMP'' (ReactiveMaxBump b),
      ReactiveReplicaStep = int ''SCALER_REACTIVE_REPLICA_STEP'' (ReactiveReplicaStep b)\<rparr>)"

definition LoadForecastingDefaultsFromEnv :: "env \<Rightarrow> string" where
  "LoadForecastingDefaultsFromEnv env = getEnvString env ''SCALER_FORECAST_CONTRACT_ID'' ''demo-linear-regression-v1''"

definition LoadWorkerCapacityDefaultsFromEnv :: "env \<Rightarrow> WorkerCapacityDefaults" where
  "LoadWorkerCapacityDefaultsFromEnv env =
     \<lparr>wd_NodeAllocatableMilliCPU = getEnvInt32 env ''SCALER_WORKER_NODE_ALLOCATABLE_MILLICPU'' 1800,
      wd_PodRequestMilliCPU = getEnvInt32 env ''SCALER_WORKER_POD_REQUEST_MILLICPU'' 600,
      wd_SafetyPods = getEnvInt32 env ''SCALER_WORKER_SAFETY_PODS'' 1,
      wd_CapacityStrategy = getEnvString env ''SCALER_WORKER_CAPACITY_STRATEGY'' ''direct-divide'',
      wd_MinWorkerCount = getEnvInt32 env ''SCALER_WORKER_MIN_COUNT'' 0,
      wd_MaxWorkerCount = getEnvInt32 env ''SCALER_WORKER_MAX_COUNT'' 0\<rparr>"

section \<open>Normalisation\<close>

text \<open>\<^verbatim>\<open>if x <= 0 { x = fallback }\<close> and \<^verbatim>\<open>if x < 0 { x = fallback }\<close>; a NaN is not replaced.\<close>

definition positive_or :: "pfloat \<Rightarrow> pfloat \<Rightarrow> pfloat" where
  "positive_or fallback x = (if pf_le x (Fin 0) then fallback else x)"

definition above_zero_or :: "int \<Rightarrow> int \<Rightarrow> int" where
  "above_zero_or fallback n = (if n \<le> 0 then fallback else n)"

definition not_negative_or :: "int \<Rightarrow> int \<Rightarrow> int" where
  "not_negative_or fallback n = (if n < 0 then fallback else n)"

definition normalized :: "ScalingDefaults \<Rightarrow> ScalingDefaults" where
  "normalized d =
     (let low = above_zero_or (MinReplicas built_in) (MinReplicas d) in
      \<lparr>RequestsPerPod = positive_or (RequestsPerPod built_in) (RequestsPerPod d),
       CPUSecondsPerPod = positive_or (CPUSecondsPerPod built_in) (CPUSecondsPerPod d),
       SafetyFactor = positive_or (SafetyFactor built_in) (SafetyFactor d),
       SparePod = not_negative_or (SparePod built_in) (SparePod d),
       MinReplicas = low,
       MaxReplicas = (if MaxReplicas d < low then low else MaxReplicas d),
       ScaleDownPolicy = (if ScaleDownPolicy d \<in> {''safe'', ''dangerous''} then ScaleDownPolicy d else ScaleDownPolicy built_in),
       AppErrorRateThreshold = positive_or (AppErrorRateThreshold built_in) (AppErrorRateThreshold d),
       IngressP99ThresholdSec = positive_or (IngressP99ThresholdSec built_in) (IngressP99ThresholdSec d),
       IngressDeploymentName = IngressDeploymentName d, IngressDeploymentNS = IngressDeploymentNS d,
       IngressReplicasPerWorker = not_negative_or (IngressReplicasPerWorker built_in) (IngressReplicasPerWorker d),
       ReactiveRequiredPoints = above_zero_or (ReactiveRequiredPoints built_in) (ReactiveRequiredPoints d),
       ReactiveIncreaseStep = above_zero_or (ReactiveIncreaseStep built_in) (ReactiveIncreaseStep d),
       ReactiveDecreaseStep = above_zero_or (ReactiveDecreaseStep built_in) (ReactiveDecreaseStep d),
       ReactiveMaxBump = not_negative_or (ReactiveMaxBump built_in) (ReactiveMaxBump d),
       ReactiveReplicaStep = not_negative_or (ReactiveReplicaStep built_in) (ReactiveReplicaStep d)\<rparr>)"

definition normalized_capacity :: "WorkerCapacityDefaults \<Rightarrow> WorkerCapacityDefaults" where
  "normalized_capacity d =
     (let low = not_negative_or 0 (wd_MinWorkerCount d); high = not_negative_or 0 (wd_MaxWorkerCount d) in
      \<lparr>wd_NodeAllocatableMilliCPU = above_zero_or 1800 (wd_NodeAllocatableMilliCPU d),
       wd_PodRequestMilliCPU = above_zero_or 600 (wd_PodRequestMilliCPU d),
       wd_SafetyPods = not_negative_or 1 (wd_SafetyPods d),
       wd_CapacityStrategy =
         (if wd_CapacityStrategy d \<in> {''direct-divide'', ''free-slots''} then wd_CapacityStrategy d else ''direct-divide''),
       wd_MinWorkerCount = low,
       wd_MaxWorkerCount = (if 0 < high \<and> high < low then low else high)\<rparr>)"

section \<open>The custom resource\<close>

record WorkerPrototypeSpec =
  wps_TargetWorkerCount :: "int option"
  wps_MaxBatchSize :: "int option"
  wps_NodeLabelKey :: string
  wps_NodeLabelValue :: string

record CustomScalerSpec =
  spec_URL :: string
  spec_DeploymentName :: string
  spec_ForecastDeployment :: string
  spec_IntervalMinutes :: int
  spec_RequestsPerPod :: "pfloat option"
  spec_SafetyFactor :: "pfloat option"
  spec_SparePod :: "int option"
  spec_MinReplicas :: "int option"
  spec_MaxReplicas :: "int option"
  spec_WorkerPrototype :: "WorkerPrototypeSpec option"

text \<open>\<^verbatim>\<open>if override != nil && ok(*override\<close>\<^verbatim>\<open>) { x = *override }\<close>\<close>

definition overridden :: "('a \<Rightarrow> bool) \<Rightarrow> 'a option \<Rightarrow> 'a \<Rightarrow> 'a" where
  "overridden ok override x = (case override of Some y \<Rightarrow> if ok y then y else x | None \<Rightarrow> x)"

definition scalingPolicyFor :: "ScalingDefaults \<Rightarrow> CustomScalerSpec \<Rightarrow> scalingPolicy" where
  "scalingPolicyFor policy_defaults spec =
     (let d = normalized policy_defaults;
          low = overridden (\<lambda>n. 0 < n) (spec_MinReplicas spec) (MinReplicas d);
          high = overridden (\<lambda>n. 0 < n) (spec_MaxReplicas spec) (MaxReplicas d) in
      d\<lparr>RequestsPerPod := overridden (pf_lt (Fin 0)) (spec_RequestsPerPod spec) (RequestsPerPod d),
        SafetyFactor := overridden (pf_lt (Fin 0)) (spec_SafetyFactor spec) (SafetyFactor d),
        SparePod := overridden (\<lambda>n. 0 \<le> n) (spec_SparePod spec) (SparePod d),
        MinReplicas := low,
        MaxReplicas := (if high < low then low else high)\<rparr>)"

text \<open>Zero and negative minutes count as one; a duration is in nanoseconds.\<close>

definition pollingInterval :: "int \<Rightarrow> int" where
  "pollingInterval minutes = i64 ((if minutes \<le> 0 then 1 else minutes) * 60000000000)"

section \<open>Valid policies\<close>

definition policy_ok :: "scalingPolicy \<Rightarrow> bool" where
  "policy_ok p \<longleftrightarrow> \<not> pf_le (RequestsPerPod p) (Fin 0) \<and> \<not> pf_le (CPUSecondsPerPod p) (Fin 0) \<and> \<not> pf_le (SafetyFactor p) (Fin 0)
     \<and> 0 \<le> SparePod p \<and> 0 < MinReplicas p \<and> MinReplicas p \<le> MaxReplicas p \<and> ScaleDownPolicy p \<in> {''safe'', ''dangerous''}
     \<and> \<not> pf_le (AppErrorRateThreshold p) (Fin 0) \<and> \<not> pf_le (IngressP99ThresholdSec p) (Fin 0) \<and> 0 \<le> IngressReplicasPerWorker p
     \<and> 0 < ReactiveRequiredPoints p \<and> 0 < ReactiveIncreaseStep p \<and> 0 < ReactiveDecreaseStep p
     \<and> 0 \<le> ReactiveMaxBump p \<and> 0 \<le> ReactiveReplicaStep p"

lemma positive_or_ok: "\<not> pf_le f (Fin 0) \<Longrightarrow> \<not> pf_le (positive_or f x) (Fin 0)"
  by (simp add: positive_or_def)

lemma rnd64_pos_half: "1 / 4 \<le> x \<Longrightarrow> 0 < rnd64 x" for x
  using rnd64_mono [of "1 / 4" x] rnd64_quarters [of 1] by simp

lemma rnd64_twentieth: "0 < rnd64 (1 / 20)"
  using rnd64_mono [of "1 * 2 powi (-5)" "1 / 20"] rnd64_exact [of 1 "-5"] by (simp add: power_int_minus_divide)

lemma built_in_ok: "policy_ok built_in"
  using rnd64_pos_half [of "11 / 10"] rnd64_twentieth by (simp add: policy_ok_def built_in_def)

lemma normalized_ok: "policy_ok (normalized d)"
  using built_in_ok
  by (auto simp: policy_ok_def normalized_def Let_def positive_or_def above_zero_or_def not_negative_or_def)

lemma scalingPolicyFor_ok: "policy_ok (scalingPolicyFor d spec)"
  using normalized_ok [of d]
  by (auto simp: policy_ok_def scalingPolicyFor_def Let_def overridden_def pf_lt_def split: option.splits)

end
