(* ===== verification/ScalerTypes.thy ===== *)
theory ScalerTypes
  imports ScalerPolicy
begin

text \<open>
  The status of a \<^verbatim>\<open>CustomScaler\<close> (\<^verbatim>\<open>custom-scaler/api/v1/customscaler_types.go\<close>), the objects of
  the cluster as far as the operator reads them, and the operator's view of the world: the
  Kubernetes API, the forecasting service, the clock and random names as arguments of the model.
  Times are in nanoseconds.
\<close>

section \<open>Worker operations\<close>

record WorkerOperationStatus =
  OperationType :: string
  TargetNodeName :: string
  Phase :: string
  JobNamespace :: string
  JobName :: string
  RequestedCount :: int
  Message :: string
  StartedAt :: "int option"
  CommandFinishedAt :: "int option"

record WorkerPrototypeStatus =
  TargetWorkerCount :: int
  ObservedReadyWorkerCount :: int
  PendingCreateCount :: int
  PendingDeleteCount :: int
  EffectiveWorkerCount :: int
  LastAction :: string
  LastReason :: string
  LastEnsureTime :: "int option"
  ActiveOperations :: "WorkerOperationStatus list"
  ActiveOperation :: "WorkerOperationStatus option"

section \<open>What the last loops did\<close>

record replicaDemandSummary =
  PeakRequestsPerMinute :: rat
  EffectiveRequestsPerMinute :: pfloat
  PeakCPUSecondsPerMinute :: rat
  EffectiveCPUSecondsPerMinute :: pfloat
  RequestReplicaDemand :: int
  CPUReplicaDemand :: int
  BaseReplicaDemand :: int
  DominantSignal :: string

text \<open>The fields of the loop's status that repeat the demand are kept together in \<open>pl_Summary\<close>.\<close>

record PodScalerLoopStatus =
  pl_ObservedAt :: int
  pl_TargetDeployment :: string
  pl_ForecastContractID :: string
  pl_ForecastModelName :: string
  pl_ForecastModelVersion :: string
  pl_ForecastRemoteContract :: string
  pl_ForecastRemoteEndpoint :: string
  pl_ForecastFeatureMetrics :: "string list"
  pl_ForecastStepSeconds :: int
  pl_ForecastGeneratedAt :: string
  pl_ForecastPredictionCount :: int
  pl_ForecastPredictionRowsCount :: int
  pl_ForecastRequiredHistoryRows :: int
  pl_ForecastProvidedHistoryRows :: int
  pl_ForecastBufferedHistoryRows :: int
  pl_ForecastRequestPayload :: string
  pl_ForecastResponseBody :: string
  pl_Summary :: replicaDemandSummary
  pl_CurrentReactivePressureBump :: int
  pl_NextReactivePressureBump :: int
  pl_ReactivePressureReason :: string
  pl_ReactivePressureReplicaBump :: int
  pl_CurrentReplicas :: int
  pl_ProposedReplicas :: int
  pl_DesiredReplicas :: int
  pl_ScaleDownAllowed :: bool
  pl_ScaleDownReason :: string
  pl_AppliedScale :: bool

text \<open>The computation of a target, which the status of the node loop repeats field by field.\<close>

record workerTargetComputation =
  wt_Mode :: string
  wt_Strategy :: string
  wt_TargetWorkerCount :: int
  wt_RawTargetWorkerCount :: int
  wt_DesiredReplicas :: int
  wt_UnschedulablePods :: int
  wt_SafetyPods :: int
  wt_DesiredPodsForCapacity :: int
  wt_NodeAllocatableMilliCPU :: int
  wt_PodRequestMilliCPU :: int
  wt_PodsPerWorker :: int
  wt_MinWorkerCount :: int
  wt_MaxWorkerCount :: int
  wt_ReadyWorkerCount :: int
  wt_CurrentAppScheduledPods :: int
  wt_TotalAppSlotCapacity :: int
  wt_MissingAppSlots :: int
  wt_RequiredReadyWorkers :: int

record NodeScalerLoopStatus =
  nl_ObservedAt :: int
  nl_TargetDeployment :: string
  nl_Target :: workerTargetComputation
  nl_TargetWorkerCount :: int
  nl_ObservedReadyWorkers :: int
  nl_PendingCreateWorkers :: int
  nl_PendingDeleteWorkers :: int
  nl_EffectiveWorkers :: int
  nl_WorkersToCreate :: int
  nl_WorkersToDelete :: int
  nl_LastAction :: string
  nl_LastReason :: string
  nl_ActiveOperations :: "WorkerOperationStatus list"

record CustomScalerStatus =
  LastForecastPeak :: rat
  LastEffectiveRequestsPerMinute :: pfloat
  LastDesiredReplicas :: int
  CurrentReplicas :: int
  ReactivePressureBump :: int
  ReactivePressureReason :: string
  LastPodLoop :: "PodScalerLoopStatus option"
  LastNodeLoop :: "NodeScalerLoopStatus option"
  WorkerPrototype :: "WorkerPrototypeStatus option"

record CustomScaler =
  cs_Name :: string
  cs_Namespace :: string
  cs_Spec :: CustomScalerSpec
  cs_Status :: CustomScalerStatus

section \<open>The cluster\<close>

type_synonym labels = "string \<Rightarrow> string option"

text \<open>\<open>dep_Selector\<close> is what \<^verbatim>\<open>LabelSelectorAsSelector\<close> makes of the deployment's selector.\<close>

record Deployment =
  dep_Namespace :: string
  dep_Name :: string
  dep_Replicas :: "int option"
  dep_Selector :: "go_error + (labels \<Rightarrow> bool)"

record Node =
  node_Name :: string
  node_Labels :: labels
  node_Conditions :: "(string \<times> string) list"
  node_AllocatableMilliCPU :: "int option"
  node_CreationUnixNano :: int

text \<open>Conditions of a pod have a type, a status and a reason; owners a kind and whether they control it.\<close>

record Pod =
  pod_NodeName :: string
  pod_Phase :: string
  pod_Deleting :: bool
  pod_Labels :: labels
  pod_Conditions :: "(string \<times> string \<times> string) list"
  pod_ContainerMilliCPU :: "int list"
  pod_Owners :: "(string \<times> bool option) list"

text \<open>A job to be created: the parts that the operator decides.\<close>

datatype env_value = Literal string | SecretKey string string

record Job =
  job_Name :: string
  job_Namespace :: string
  job_Labels :: "(string \<times> string) list"
  job_TTLSeconds :: int
  job_BackoffLimit :: int
  job_Image :: string
  job_Command :: "string list"
  job_Env :: "(string \<times> env_value) list"
  job_EnvFrom :: "string list"
  job_ServiceAccount :: string
  job_SecretMount :: "(string \<times> string) option"

section \<open>The operator's world\<close>

record forecastPredictionRow =
  row_Datetime :: string
  row_TotalRequestsPerMinute :: rat
  row_TotalCPUSecondsPerMinute :: rat
  row_TotalBandwidthBytesPerMinute :: rat

text \<open>A series that is not in the response is the empty one, as for a map in Go.\<close>

record forecastResponse =
  fr_Deployment :: string
  fr_ContractID :: string
  fr_TargetMetric :: string
  fr_FeatureMetrics :: "string list"
  fr_StepSeconds :: int
  fr_Predictions :: "rat list"
  fr_PredictionRows :: "forecastPredictionRow list"
  fr_Observed :: "string \<Rightarrow> rat option list"
  fr_ModelName :: string
  fr_ModelVersion :: string
  fr_GeneratedAt :: string
  fr_RemoteEndpoint :: string
  fr_RemoteContract :: string
  fr_RequiredHistoryRows :: int
  fr_ProvidedHistoryRows :: int
  fr_BufferedHistoryRows :: int

text \<open>
  The Kubernetes API for the object under reconciliation and the others, the forecasting
  service (its status code and its body, or the error of reading it), \<^verbatim>\<open>json.Marshal\<close> of a text and
  \<^verbatim>\<open>json.Unmarshal\<close> of a response, the clock, random texts of a length, the conditions (type and
  status) of a job, and the implementation's conversion of floats beyond \<^verbatim>\<open>int32\<close>.
\<close>

record 'w k8s =
  get_scaler :: "('w, CustomScaler) go"
  get_deployment :: "string \<Rightarrow> string \<Rightarrow> ('w, Deployment) go"
  update_deployment :: "Deployment \<Rightarrow> ('w, unit) go"
  patch_status :: "CustomScaler \<Rightarrow> ('w, unit) go"
  list_nodes :: "('w, Node list) go"
  list_pods :: "('w, Pod list) go"
  list_pods_in :: "string \<Rightarrow> (labels \<Rightarrow> bool) \<Rightarrow> ('w, Pod list) go"
  get_job :: "string \<Rightarrow> string \<Rightarrow> ('w, (string \<times> string) list) go"
  create_job :: "Job \<Rightarrow> ('w, unit) go"
  http_post :: "string \<Rightarrow> string \<Rightarrow> ('w, int \<times> (go_error + string)) go"
  marshal_text :: "string \<Rightarrow> string"
  unmarshal :: "string \<Rightarrow> go_error + forecastResponse"
  clock_now :: "'w \<Rightarrow> int"
  rand_string :: "nat \<Rightarrow> 'w \<Rightarrow> string \<times> 'w"
  beyond_int32 :: "pfloat \<Rightarrow> int"

text \<open>\<^verbatim>\<open>ctrl.Result\<close> and the error of a reconciliation: when to come back (0 for not at all), or the error.\<close>

type_synonym reconcile_result = "int \<times> go_error option"

definition ignore_not_found :: "go_error \<Rightarrow> go_error option" where
  "ignore_not_found e = (case e of NotFound _ \<Rightarrow> None | GoError _ \<Rightarrow> Some e)"

text \<open>\<^verbatim>\<open>requeueAfter\<close> for the errors that are logged, the error itself for those that are returned.\<close>

datatype stop = Logged | Returned go_error

type_synonym ('w, 'a) cycle = "'w \<Rightarrow> (stop + 'a) \<times> 'w"

definition or_log :: "('w, 'a) go \<Rightarrow> ('w, 'a) cycle" where
  "or_log m = (\<lambda>w. case m w of (Inl e, w') \<Rightarrow> (Inl Logged, w') | (Inr x, w') \<Rightarrow> (Inr x, w'))"

definition or_give :: "('w, 'a) go \<Rightarrow> ('w, 'a) cycle" where
  "or_give m = (\<lambda>w. case m w of (Inl e, w') \<Rightarrow> (Inl (Returned e), w') | (Inr x, w') \<Rightarrow> (Inr x, w'))"

definition c_bind :: "('w, 'a) cycle \<Rightarrow> ('a \<Rightarrow> ('w, 'b) cycle) \<Rightarrow> ('w, 'b) cycle" where
  "c_bind m f = (\<lambda>w. case m w of (Inl s, w') \<Rightarrow> (Inl s, w') | (Inr x, w') \<Rightarrow> f x w')"

definition c_return :: "'a \<Rightarrow> ('w, 'a) cycle" where
  "c_return x = (\<lambda>w. (Inr x, w))"

definition of_result :: "go_error + 'a \<Rightarrow> ('w, 'a) go" where
  "of_result r = (\<lambda>w. (r, w))"

text \<open>The outcome of a cycle for the object, which comes back after the interval unless an error is returned.\<close>

definition cycle_result :: "int \<Rightarrow> (stop + unit) \<Rightarrow> reconcile_result" where
  "cycle_result requeueAfter r = (case r of Inl (Returned e) \<Rightarrow> (0, Some e) | _ \<Rightarrow> (requeueAfter, None))"

lemma c_bind_Inr_iff: "c_bind m f w = (Inr y, w') \<longleftrightarrow> (\<exists>x w1. m w = (Inr x, w1) \<and> f x w1 = (Inr y, w'))"
  by (auto simp: c_bind_def split: prod.splits sum.splits)

lemma c_bindE:
  assumes "c_bind m f w = (Inr y, w')"
  obtains x w1 where "m w = (Inr x, w1)" and "f x w1 = (Inr y, w')"
  using assms by (auto simp: c_bind_Inr_iff)

lemma or_log_Inr [simp]: "or_log m w = (Inr x, w') \<longleftrightarrow> m w = (Inr x, w')"
  and or_give_Inr [simp]: "or_give m w = (Inr x, w') \<longleftrightarrow> m w = (Inr x, w')"
  by (auto simp: or_log_def or_give_def split: prod.splits sum.splits)

lemma of_result_simp [simp]: "of_result r w = (r, w)"
  by (simp add: of_result_def)

lemma c_return_simp [simp]: "c_return x w = (Inr x, w)"
  by (simp add: c_return_def)

end
