(* ===== verification/WorkerCapacity.thy ===== *)
theory WorkerCapacity
  imports ScalerTypes "HOL-Library.Multiset"
begin

text \<open>
  How many workers there should be (\<^verbatim>\<open>custom-scaler/internal/controller/worker_capacity.go\<close>), and
  which nodes are workers (\<^verbatim>\<open>worker_prototype.go\<close>).
\<close>

section \<open>Workers\<close>

definition isNodeReady :: "Node \<Rightarrow> bool" where
  "isNodeReady node = list_ex (\<lambda>(kind, status). kind = ''Ready'' \<and> status = ''True'') (node_Conditions node)"

text \<open>A node is managed unless it belongs to the control plane or does not carry the label asked for.\<close>

definition managed_worker :: "WorkerPrototypeSpec \<Rightarrow> Node \<Rightarrow> bool" where
  "managed_worker spec node =
     (node_Labels node ''node-role.kubernetes.io/control-plane'' = None
      \<and> (wps_NodeLabelKey spec \<noteq> [] \<longrightarrow> (case node_Labels node (wps_NodeLabelKey spec) of
            None \<Rightarrow> False
          | Some v \<Rightarrow> wps_NodeLabelValue spec = [] \<or> v = wps_NodeLabelValue spec)))"

definition listManagedWorkerNodes :: "'w k8s \<Rightarrow> WorkerPrototypeSpec \<Rightarrow> ('w, Node list) go" where
  "listManagedWorkerNodes k spec = g_bind (list_nodes k) (\<lambda>nodes. g_return (filter (managed_worker spec) nodes))"

definition countReadyWorkerNodes :: "'w k8s \<Rightarrow> WorkerPrototypeSpec \<Rightarrow> ('w, int) go" where
  "countReadyWorkerNodes k spec =
     g_bind (listManagedWorkerNodes k spec) (\<lambda>nodes. g_return (i32 (int (length (filter isNodeReady nodes)))))"

section \<open>Pods\<close>

definition isPodUnschedulable :: "Pod \<Rightarrow> bool" where
  "isPodUnschedulable pod =
     (pod_NodeName pod = [] \<and> pod_Phase pod = ''Pending''
      \<and> list_ex (\<lambda>(kind, status, reason). kind = ''PodScheduled'' \<and> status = ''False'' \<and> reason = ''Unschedulable'') (pod_Conditions pod))"

definition countUnschedulablePods :: "Pod list \<Rightarrow> int" where
  "countUnschedulablePods pods = i32 (int (length (filter (\<lambda>pod. \<not> pod_Deleting pod \<and> isPodUnschedulable pod) pods)))"

definition countUnschedulableDeploymentPods :: "'w k8s \<Rightarrow> Deployment \<Rightarrow> ('w, int) go" where
  "countUnschedulableDeploymentPods k deployment =
     g_bind (of_result (dep_Selector deployment)) (\<lambda>selector.
     g_bind (list_pods_in k (dep_Namespace deployment) selector) (\<lambda>pods. g_return (countUnschedulablePods pods)))"

definition podRequestedMilliCPU :: "Pod \<Rightarrow> int" where
  "podRequestedMilliCPU pod = i32 (sum_list (pod_ContainerMilliCPU pod))"

section \<open>Slots\<close>

record workerNodeCapacitySnapshot =
  snap_NodeName :: string
  snap_AllocatableMilliCPU :: int
  snap_ReservedMilliCPU :: int
  snap_AppSlots :: int

definition snapshot_of :: "int \<Rightarrow> Node \<Rightarrow> workerNodeCapacitySnapshot" where
  "snapshot_of fallback node = \<lparr>snap_NodeName = node_Name node,
     snap_AllocatableMilliCPU = (case node_AllocatableMilliCPU node of Some n \<Rightarrow> if 0 < n then i32 n else fallback | None \<Rightarrow> fallback),
     snap_ReservedMilliCPU = 0, snap_AppSlots = 0\<rparr>"

text \<open>A pod that is on its way out or has ended takes no room.\<close>

definition occupies :: "Pod \<Rightarrow> bool" where
  "occupies pod = (\<not> pod_Deleting pod \<and> pod_NodeName pod \<noteq> [] \<and> pod_Phase pod \<noteq> ''Succeeded'' \<and> pod_Phase pod \<noteq> ''Failed'')"

definition reserve :: "string \<Rightarrow> int \<Rightarrow> workerNodeCapacitySnapshot list \<Rightarrow> workerNodeCapacitySnapshot list" where
  "reserve name milli = map (\<lambda>s. if snap_NodeName s = name
     then s\<lparr>snap_ReservedMilliCPU := i32 (snap_ReservedMilliCPU s + milli)\<rparr> else s)"

fun place_pods :: "(labels \<Rightarrow> bool) \<Rightarrow> Pod list \<Rightarrow> workerNodeCapacitySnapshot list \<times> int \<Rightarrow> workerNodeCapacitySnapshot list \<times> int" where
  "place_pods selector [] acc = acc"
| "place_pods selector (pod # pods) (snapshots, scheduled) = place_pods selector pods
     (if \<not> occupies pod \<or> pod_NodeName pod \<notin> set (map snap_NodeName snapshots) then (snapshots, scheduled)
      else if selector (pod_Labels pod) then (snapshots, i32 (scheduled + 1))
      else (reserve (pod_NodeName pod) (podRequestedMilliCPU pod) snapshots, scheduled))"

definition with_slots :: "int \<Rightarrow> workerNodeCapacitySnapshot \<Rightarrow> workerNodeCapacitySnapshot" where
  "with_slots request s =
     (let free = i32 (snap_AllocatableMilliCPU s - snap_ReservedMilliCPU s) in
      s\<lparr>snap_AppSlots := (if free < 0 then 0 else free) div request\<rparr>)"

definition buildWorkerNodeCapacitySnapshots ::
  "Node list \<Rightarrow> Pod list \<Rightarrow> (labels \<Rightarrow> bool) \<Rightarrow> int \<Rightarrow> int \<Rightarrow> workerNodeCapacitySnapshot list \<times> int" where
  "buildWorkerNodeCapacitySnapshots nodes pods selector allocatable request =
     (let (snapshots, scheduled) = place_pods selector pods (map (snapshot_of allocatable) (filter isNodeReady nodes), 0) in
      (map (with_slots (if request \<le> 0 then 1 else request)) snapshots, scheduled))"

section \<open>The target\<close>

definition applyWorkerTargetBounds :: "workerTargetComputation \<Rightarrow> WorkerCapacityDefaults \<Rightarrow> workerTargetComputation" where
  "applyWorkerTargetBounds target d =
     (let low = wd_MinWorkerCount d; high = wd_MaxWorkerCount d;
          raised = (if wt_TargetWorkerCount target < low then low else wt_TargetWorkerCount target) in
      target\<lparr>wt_MinWorkerCount := low, wt_MaxWorkerCount := high,
        wt_TargetWorkerCount := (if 0 < high \<and> high < raised then high else raised)\<rparr>)"

text \<open>\<^verbatim>\<open>int32(math.Ceil(float64(a) / float64(b)))\<close>\<close>

definition ceil_div :: "'w k8s \<Rightarrow> int \<Rightarrow> int \<Rightarrow> int" where
  "ceil_div k a b = fl_int32 (beyond_int32 k) (fl_ceil (fl_div (Fin (of_int a)) (Fin (of_int b))))"

definition resolveWorkerTargetCountByDirectDivide :: "'w k8s \<Rightarrow> workerTargetComputation \<Rightarrow> workerTargetComputation" where
  "resolveWorkerTargetCountByDirectDivide k b =
     (let target = (if 0 < wt_DesiredPodsForCapacity b then ceil_div k (wt_DesiredPodsForCapacity b) (wt_PodsPerWorker b)
        else wt_TargetWorkerCount b) in
      b\<lparr>wt_TargetWorkerCount := target, wt_RawTargetWorkerCount := target\<rparr>)"

text \<open>The loop over the nodes, most slots first: the nodes it takes and what is still missing.\<close>

fun take_workers :: "int list \<Rightarrow> int \<Rightarrow> int \<Rightarrow> int \<times> int" where
  "take_workers [] remaining taken = (remaining, taken)"
| "take_workers (slots # more_slots) remaining taken =
     (if remaining \<le> 0 then (remaining, taken)
      else if slots \<le> 0 then take_workers more_slots remaining taken
      else take_workers more_slots (i32 (remaining - slots)) (i32 (taken + 1)))"

definition by_slots :: "workerNodeCapacitySnapshot list \<Rightarrow> workerNodeCapacitySnapshot list" where
  "by_slots = sort_key (\<lambda>s. (- snap_AppSlots s, snap_NodeName s))"

definition fill_slots :: "'w k8s \<Rightarrow> workerNodeCapacitySnapshot list \<Rightarrow> int \<Rightarrow> workerTargetComputation \<Rightarrow> workerTargetComputation" where
  "fill_slots k snapshots scheduled b =
     (let ready = i32 (int (length snapshots));
          b' = b\<lparr>wt_CurrentAppScheduledPods := scheduled, wt_ReadyWorkerCount := ready,
            wt_TotalAppSlotCapacity := foldl (\<lambda>total s. i32 (total + snap_AppSlots s)) (wt_TotalAppSlotCapacity b) snapshots\<rparr>;
          (remaining, taken) = take_workers (map snap_AppSlots (by_slots snapshots)) (wt_DesiredPodsForCapacity b) 0;
          grown = i32 (ready + ceil_div k remaining (wt_PodsPerWorker b)) in
      if wt_DesiredPodsForCapacity b \<le> 0 then b'
      else if remaining \<le> 0
        then b'\<lparr>wt_RequiredReadyWorkers := taken, wt_TargetWorkerCount := taken, wt_RawTargetWorkerCount := taken\<rparr>
      else b'\<lparr>wt_RequiredReadyWorkers := ready, wt_MissingAppSlots := remaining, wt_TargetWorkerCount := grown,
        wt_RawTargetWorkerCount := grown\<rparr>)"

definition resolveWorkerTargetCountByFreeSlots ::
  "'w k8s \<Rightarrow> WorkerPrototypeSpec \<Rightarrow> Deployment \<Rightarrow> workerTargetComputation \<Rightarrow> ('w, workerTargetComputation) go" where
  "resolveWorkerTargetCountByFreeSlots k spec deployment b =
     g_bind (of_result (dep_Selector deployment)) (\<lambda>selector.
     g_bind (listManagedWorkerNodes k spec) (\<lambda>nodes.
     g_bind (list_pods k) (\<lambda>pods.
     g_return (case buildWorkerNodeCapacitySnapshots nodes pods selector (wt_NodeAllocatableMilliCPU b) (wt_PodRequestMilliCPU b) of
         (snapshots, scheduled) \<Rightarrow> fill_slots k snapshots scheduled b))))"

definition no_target :: workerTargetComputation where
  "no_target = \<lparr>wt_Mode = [], wt_Strategy = [], wt_TargetWorkerCount = 0, wt_RawTargetWorkerCount = 0, wt_DesiredReplicas = 0,
     wt_UnschedulablePods = 0, wt_SafetyPods = 0, wt_DesiredPodsForCapacity = 0, wt_NodeAllocatableMilliCPU = 0,
     wt_PodRequestMilliCPU = 0, wt_PodsPerWorker = 0, wt_MinWorkerCount = 0, wt_MaxWorkerCount = 0, wt_ReadyWorkerCount = 0,
     wt_CurrentAppScheduledPods = 0, wt_TotalAppSlotCapacity = 0, wt_MissingAppSlots = 0, wt_RequiredReadyWorkers = 0\<rparr>"

definition base_target :: "WorkerCapacityDefaults \<Rightarrow> int \<Rightarrow> int \<Rightarrow> workerTargetComputation" where
  "base_target d desiredReplicas unschedulable =
     (let per_worker = wd_NodeAllocatableMilliCPU d div wd_PodRequestMilliCPU d in
      no_target\<lparr>wt_Mode := ''auto'', wt_Strategy := wd_CapacityStrategy d, wt_DesiredReplicas := desiredReplicas,
        wt_UnschedulablePods := unschedulable, wt_SafetyPods := wd_SafetyPods d,
        wt_DesiredPodsForCapacity := max (i32 (i32 (desiredReplicas + wd_SafetyPods d) + unschedulable)) 0,
        wt_NodeAllocatableMilliCPU := wd_NodeAllocatableMilliCPU d, wt_PodRequestMilliCPU := wd_PodRequestMilliCPU d,
        wt_PodsPerWorker := (if per_worker \<le> 0 then 1 else per_worker),
        wt_MinWorkerCount := wd_MinWorkerCount d, wt_MaxWorkerCount := wd_MaxWorkerCount d\<rparr>)"

definition resolveWorkerTargetCount ::
  "'w k8s \<Rightarrow> WorkerCapacityDefaults \<Rightarrow> WorkerPrototypeSpec \<Rightarrow> Deployment \<Rightarrow> int \<Rightarrow> ('w, workerTargetComputation) go" where
  "resolveWorkerTargetCount k capacity spec deployment desiredReplicas =
     (let d = normalized_capacity capacity in
      case wps_TargetWorkerCount spec of
        Some n \<Rightarrow> g_return (applyWorkerTargetBounds (no_target\<lparr>wt_Mode := ''manual'', wt_Strategy := ''manual-override'',
          wt_TargetWorkerCount := n, wt_RawTargetWorkerCount := n, wt_DesiredReplicas := desiredReplicas\<rparr>) d)
      | None \<Rightarrow> g_bind (countUnschedulableDeploymentPods k deployment) (\<lambda>unschedulable.
          let b = base_target d desiredReplicas unschedulable in
          if wd_CapacityStrategy d = ''free-slots''
          then g_bind (resolveWorkerTargetCountByFreeSlots k spec deployment b) (\<lambda>target. g_return (applyWorkerTargetBounds target d))
          else g_return (applyWorkerTargetBounds (resolveWorkerTargetCountByDirectDivide k b) d)))"

section \<open>Rounding up\<close>

lemma fl_int32_of_int: "is_i32 n \<Longrightarrow> fl_int32 other (Fin (of_int n)) = n"
  by (simp add: fl_int32_def)

lemma to_float_quotient:
  assumes "0 \<le> a" "a < 2147483648" "0 < b" "b < (2147483648 :: int)"
  shows "to_float (of_int a / of_int b) = Fin (rnd64 (of_int a / of_int b))"
proof (rule to_float_small)
  have "(of_int a :: rat) / of_int b \<le> of_int a" using assms by (simp add: divide_le_eq mult_le_cancel_left1)
  moreover have "(of_int a :: rat) < 2147483648" using assms by simp
  moreover have "(0 :: rat) \<le> of_int a / of_int b" using assms by simp
  ultimately show "\<bar>(of_int a :: rat) / of_int b\<bar> \<le> 9007199254740992" by linarith
qed

lemma ceil_div_exact:
  assumes a: "0 \<le> a" "a < 2147483648" and b: "0 < b" "b < 2147483648"
  shows "ceil_div k a b = \<lceil>of_int a / (of_int b :: rat)\<rceil>" and "0 \<le> ceil_div k a b" and "ceil_div k a b \<le> a"
proof -
  let ?c = "\<lceil>of_int a / (of_int b :: rat)\<rceil>"
  have "(of_int a :: rat) / of_int b \<le> of_int a" using a b by (simp add: divide_le_eq mult_le_cancel_left1)
  then have c: "?c \<le> a" by (simp add: ceiling_le_iff)
  have "(0 :: rat) \<le> of_int a / of_int b" using a b by simp
  then have nonneg: "0 \<le> ?c" by linarith
  have "ceil_div k a b = fl_int32 (beyond_int32 k) (Fin (of_int \<lceil>rnd64 (of_int a / of_int b)\<rceil>))"
    using b by (simp add: ceil_div_def to_float_quotient [OF a b])
  also have "\<lceil>rnd64 (of_int a / of_int b)\<rceil> = ?c" by (rule ceil_quotient [OF a b])
  also have "fl_int32 (beyond_int32 k) (Fin (of_int n)) = n" if "0 \<le> n" "n \<le> a" for n using that a by (intro fl_int32_of_int) auto
  note this [OF nonneg c]
  finally show "ceil_div k a b = ?c" .
  with c nonneg show "0 \<le> ceil_div k a b" "ceil_div k a b \<le> a" by simp_all
qed

lemma ceiling_division:
  assumes "0 < (b :: int)"
  shows "a \<le> \<lceil>of_int a / (of_int b :: rat)\<rceil> * b" and "(\<lceil>of_int a / (of_int b :: rat)\<rceil> - 1) * b < a"
proof -
  let ?q = "of_int a / (of_int b :: rat)"
  have up: "a \<le> c * b" if "?q \<le> of_int c" for c
  proof -
    from that assms have "(of_int a :: rat) \<le> of_int (c * b)" by (simp add: divide_le_eq)
    then show ?thesis by (simp only: of_int_le_iff)
  qed
  have down: "c * b < a" if "of_int c < ?q" for c
  proof -
    from that assms have "of_int (c * b) < (of_int a :: rat)" by (simp add: less_divide_eq)
    then show ?thesis by (simp only: of_int_less_iff)
  qed
  show "a \<le> \<lceil>?q\<rceil> * b" by (rule up) simp
  show "(\<lceil>?q\<rceil> - 1) * b < a" by (rule down) linarith
qed

section \<open>Taking the nodes with the most slots\<close>

lemma subset_add_mset: "M \<subseteq># N \<Longrightarrow> M \<subseteq># add_mset x N"
  by (erule subset_mset.order_trans) simp

lemma subset_without:
  assumes "M \<subseteq># add_mset x N" "x \<notin># M"
  shows "M \<subseteq># N"
proof (rule mset_subset_eqI)
  fix a
  have "count M a \<le> count (add_mset x N) a" using assms(1) by (rule mset_subset_eq_count)
  then show "count M a \<le> count N a" using assms(2) by (cases "a = x") (auto simp: not_in_iff)
qed

lemma subseqs_mset: "ys \<in> set (subseqs xs) \<Longrightarrow> mset ys \<subseteq># mset xs"
proof (induction xs arbitrary: ys)
  case (Cons x xs)
  then show ?case by (auto simp: Let_def intro: subset_add_mset)
qed simp

lemma mset_subseqs: "M \<subseteq># mset xs \<Longrightarrow> \<exists>ys \<in> set (subseqs xs). mset ys = M"
proof (induction xs arbitrary: M)
  case (Cons x xs)
  show ?case
  proof (cases "x \<in># M")
    case True
    then obtain M' where M: "M = add_mset x M'" by (metis multi_member_split)
    with Cons.prems have "M' \<subseteq># mset xs" by simp
    with Cons.IH obtain ys where "ys \<in> set (subseqs xs)" "mset ys = M'" by blast
    then have "x # ys \<in> set (subseqs (x # xs))" "mset (x # ys) = M" using M by (simp_all add: Let_def)
    then show ?thesis by blast
  next
    case False
    with Cons.prems have "M \<subseteq># mset xs" by (auto intro: subset_without)
    with Cons.IH obtain ys where "ys \<in> set (subseqs xs)" "mset ys = M" by blast
    then show ?thesis by (auto simp: Let_def)
  qed
qed simp

text \<open>No choice of as many elements has a larger sum than the first ones of a list from large to small.\<close>

lemma sum_of_largest:
  fixes xs :: "int list"
  assumes "sorted_wrt (\<ge>) xs" "M \<subseteq># mset xs" "\<forall>x \<in> set xs. 0 \<le> x"
  shows "sum_mset M \<le> sum_list (take (size M) xs)"
  using assms
proof (induction xs arbitrary: M)
  case (Cons x xs)
  show ?case
  proof (cases "M = {#}")
    case False
    then obtain y where y: "y \<in># M" and pick: "y = x \<or> x \<notin># M" by blast
    then obtain M' where M: "M = add_mset y M'" by (metis multi_member_split)
    have le: "y \<le> x"
    proof -
      have "y \<in># mset (x # xs)" using y Cons.prems(2) by (rule mset_subset_eqD [rotated])
      then show ?thesis using Cons.prems(1) by auto
    qed
    have "M' \<subseteq># mset xs"
    proof (cases "y = x")
      case True
      with Cons.prems(2) M show ?thesis by simp
    next
      case False
      with pick have "x \<notin># M" by simp
      with Cons.prems(2) have "M \<subseteq># mset xs" by (auto intro: subset_without)
      moreover have "M' \<subseteq># M" unfolding M by simp
      ultimately show ?thesis by (rule subset_mset.order_trans [rotated])
    qed
    with Cons have "sum_mset M' \<le> sum_list (take (size M') xs)" by simp
    with le M show ?thesis by simp
  qed simp
qed simp

lemma take_workers_all:
  assumes "sorted_wrt (\<ge>) xs" "\<forall>x \<in> set xs. 0 \<le> x \<and> x < 2147483648" "need < 2147483648" "0 \<le> t" "t + int (length xs) < 2147483648"
    and "0 < need \<or> 0 \<le> t" and "0 \<le> need \<or> - 2147483648 \<le> need"
  shows "(fst (take_workers xs need t) \<le> 0 \<longleftrightarrow> need \<le> sum_list xs)
    \<and> (0 < fst (take_workers xs need t) \<longrightarrow> fst (take_workers xs need t) = need - sum_list xs)
    \<and> t \<le> snd (take_workers xs need t) \<and> nat (snd (take_workers xs need t) - t) \<le> length xs
    \<and> (need \<le> sum_list xs \<longrightarrow> need \<le> sum_list (take (nat (snd (take_workers xs need t) - t)) xs))
    \<and> (\<forall>m. need \<le> sum_list (take m xs) \<longrightarrow> snd (take_workers xs need t) \<le> t + int m)"
  using assms
proof (induction xs arbitrary: need t)
  case Nil
  then show ?case by auto
next
  case (Cons x xs)
  have pos: "0 \<le> sum_list (x # xs)" using Cons.prems(2) by (intro sum_list_nonneg) auto
  consider "need \<le> 0" | "0 < need" "x = 0" | "0 < need" "0 < x" using Cons.prems(2) by force
  then show ?case
  proof cases
    case 1
    then show ?thesis using pos by auto
  next
    case 2
    then have zeros: "\<forall>y \<in> set xs. y = 0" using Cons.prems(1,2) by fastforce
    have tw: "take_workers ys need t = (need, t)" if "\<forall>y \<in> set ys. y = 0" for ys using that \<open>0 < need\<close> by (induction ys) auto
    have sums: "sum_list ys = 0" if "\<forall>y \<in> set ys. y = 0" for ys :: "int list" using that by (induction ys) auto
    have all: "\<forall>y \<in> set (x # xs). y = 0" using 2 zeros by simp
    then have "\<forall>y \<in> set (take m (x # xs)). y = 0" for m using set_take_subset [of m "x # xs"] by blast
    then have "take_workers (x # xs) need t = (need, t)" "sum_list (x # xs) = 0" "\<And>m. sum_list (take m (x # xs)) = 0"
      using all by (intro tw sums; blast)+
    with 2 show ?thesis by simp
  next
    case 3
    have step: "i32 (need - x) = need - x" "i32 (t + 1) = t + 1" using 3 Cons.prems by (auto simp: i32_id)
    define r where "r = take_workers xs (need - x) (t + 1)"
    have tw: "take_workers (x # xs) need t = r" using 3 step by (simp add: r_def)
    have IH: "(fst r \<le> 0 \<longleftrightarrow> need - x \<le> sum_list xs) \<and> (0 < fst r \<longrightarrow> fst r = need - x - sum_list xs)
      \<and> t + 1 \<le> snd r \<and> nat (snd r - (t + 1)) \<le> length xs
      \<and> (need - x \<le> sum_list xs \<longrightarrow> need - x \<le> sum_list (take (nat (snd r - (t + 1))) xs))
      \<and> (\<forall>m. need - x \<le> sum_list (take m xs) \<longrightarrow> snd r \<le> t + 1 + int m)"
      unfolding r_def using Cons.prems 3 by (intro Cons.IH) auto
    obtain n where n: "nat (snd r - t) = Suc n" "nat (snd r - (t + 1)) = n"
      using IH by (metis Suc_nat_eq_nat_zadd1 add.commute add_diff_cancel_left' diff_add_cancel diff_diff_eq diff_ge_0_iff_ge)
    have "snd r \<le> t + int m" if "need \<le> sum_list (take m (x # xs))" for m
    proof (cases m)
      case 0
      with that 3 show ?thesis by simp
    next
      case (Suc m')
      with that have "need - x \<le> sum_list (take m' xs)" by simp
      with IH have "snd r \<le> t + 1 + int m'" by blast
      with Suc show ?thesis by simp
    qed
    with IH n show ?thesis unfolding tw by auto
  qed
qed

section \<open>Capacity of a worker\<close>

lemma div_le_self: "0 \<le> n \<Longrightarrow> 0 < r \<Longrightarrow> n div r \<le> (n :: int)"
  using zdiv_mono2 [of n 1 r] by simp

lemma loaded_capacity:
  fixes env :: env
  defines "d \<equiv> normalized_capacity (LoadWorkerCapacityDefaultsFromEnv env)"
  shows "0 < wd_NodeAllocatableMilliCPU d \<and> wd_NodeAllocatableMilliCPU d < 2147483648 \<and> 0 < wd_PodRequestMilliCPU d"
proof -
  have "getEnvInt32 env key fallback < 2147483648" if "fallback < 2147483648" for key fallback
    using that by (auto simp: getEnvInt32_def Let_def dest: parse_int32_range split: option.split)
  then show ?thesis
    by (simp add: d_def normalized_capacity_def LoadWorkerCapacityDefaultsFromEnv_def above_zero_or_def Let_def)
qed

lemma base_target_capacity:
  fixes env :: env and n u :: int
  defines "b \<equiv> base_target (normalized_capacity (LoadWorkerCapacityDefaultsFromEnv env)) n u"
  shows "0 < wt_PodsPerWorker b" "wt_PodsPerWorker b < 2147483648"
    "0 \<le> wt_DesiredPodsForCapacity b" "wt_DesiredPodsForCapacity b < 2147483648"
    "wt_TargetWorkerCount b = 0" "wt_RawTargetWorkerCount b = 0"
proof -
  let ?d = "normalized_capacity (LoadWorkerCapacityDefaultsFromEnv env)"
  have "wd_NodeAllocatableMilliCPU ?d div wd_PodRequestMilliCPU ?d \<le> wd_NodeAllocatableMilliCPU ?d"
    using loaded_capacity [of env] by (intro div_le_self) auto
  then show "0 < wt_PodsPerWorker b" "wt_PodsPerWorker b < 2147483648"
    using loaded_capacity [of env] by (auto simp: b_def base_target_def Let_def)
  show "0 \<le> wt_DesiredPodsForCapacity b" "wt_DesiredPodsForCapacity b < 2147483648"
    using i32_bounds by (auto simp: b_def base_target_def Let_def)
  show "wt_TargetWorkerCount b = 0" "wt_RawTargetWorkerCount b = 0"
    by (simp_all add: b_def base_target_def no_target_def Let_def)
qed

section \<open>Slots of the snapshots\<close>

lemma place_pods_length: "length (fst (place_pods selector pods acc)) = length (fst acc)"
  by (induction selector pods acc rule: place_pods.induct) (auto simp: reserve_def)

lemma snapshots_slots:
  assumes "buildWorkerNodeCapacitySnapshots nodes pods selector a r = (snapshots, scheduled)"
  shows "length snapshots = length (filter isNodeReady nodes)"
    and "\<forall>s \<in> set snapshots. 0 \<le> snap_AppSlots s \<and> snap_AppSlots s < 2147483648"
proof -
  let ?r = "if r \<le> 0 then 1 else r"
  obtain base where placed: "place_pods selector pods (map (snapshot_of a) (filter isNodeReady nodes), 0) = (base, scheduled)"
    and snapshots: "snapshots = map (with_slots ?r) base"
    using assms by (auto simp: buildWorkerNodeCapacitySnapshots_def Let_def split: prod.splits)
  show "length snapshots = length (filter isNodeReady nodes)"
    using place_pods_length [of selector pods "(map (snapshot_of a) (filter isNodeReady nodes), 0)"] placed snapshots by simp
  have "0 \<le> n div ?r \<and> n div ?r < 2147483648" if "0 \<le> n" "n < 2147483648" for n
  proof -
    have "n div ?r \<le> n" using that by (intro div_le_self) auto
    then show ?thesis using that by (auto simp: pos_imp_zdiv_nonneg_iff)
  qed
  then show "\<forall>s \<in> set snapshots. 0 \<le> snap_AppSlots s \<and> snap_AppSlots s < 2147483648"
    using i32_bounds unfolding snapshots by (auto simp: with_slots_def Let_def)
qed

lemma by_slots_mset: "mset (by_slots snapshots) = mset snapshots"
  by (simp add: by_slots_def)

lemma by_slots_sorted: "sorted_wrt (\<ge>) (map snap_AppSlots (by_slots snapshots))"
proof -
  have "sorted_wrt (\<lambda>x y. (- snap_AppSlots x, snap_NodeName x) \<le> (- snap_AppSlots y, snap_NodeName y)) (by_slots snapshots)"
    using sorted_sort_key [of "\<lambda>s. (- snap_AppSlots s, snap_NodeName s)" snapshots] by (simp add: by_slots_def sorted_map)
  then show ?thesis unfolding sorted_wrt_map by (rule sorted_wrt_mono_rel [rotated]) auto
qed

lemma slots_sum: "sum_list (map snap_AppSlots (by_slots snapshots)) = sum_list (map snap_AppSlots snapshots)"
  using by_slots_mset [of snapshots] by (metis mset_map sum_mset_sum_list)

text \<open>What the loop over the nodes gives, in terms of every choice of nodes.\<close>

lemma take_workers_fewest:
  assumes slots: "\<forall>s \<in> set snapshots. 0 \<le> snap_AppSlots s \<and> snap_AppSlots s < 2147483648"
    and need: "0 < need" "need < 2147483648" and few: "int (length snapshots) < 2147483648"
    and run: "take_workers (map snap_AppSlots (by_slots snapshots)) need 0 = (remaining, taken)"
  shows "remaining \<le> 0 \<longleftrightarrow> need \<le> sum_list (map snap_AppSlots snapshots)"
    and "0 < remaining \<Longrightarrow> remaining = need - sum_list (map snap_AppSlots snapshots)"
    and "remaining \<le> 0 \<Longrightarrow> 0 \<le> taken \<and> (\<exists>ys \<in> set (subseqs snapshots). int (length ys) = taken \<and> need \<le> sum_list (map snap_AppSlots ys))"
    and "ys \<in> set (subseqs snapshots) \<Longrightarrow> need \<le> sum_list (map snap_AppSlots ys) \<Longrightarrow> taken \<le> int (length ys)"
proof -
  let ?xs = "map snap_AppSlots (by_slots snapshots)"
  have len: "length (by_slots snapshots) = length snapshots" and set: "set (by_slots snapshots) = set snapshots"
    using by_slots_mset [of snapshots] by (metis size_mset, metis set_mset_mset)
  have all: "\<forall>x \<in> set ?xs. 0 \<le> x \<and> x < 2147483648" using slots set by auto
  have r: "(remaining \<le> 0 \<longleftrightarrow> need \<le> sum_list (map snap_AppSlots snapshots))
      \<and> (0 < remaining \<longrightarrow> remaining = need - sum_list (map snap_AppSlots snapshots)) \<and> 0 \<le> taken \<and> nat taken \<le> length snapshots
      \<and> (need \<le> sum_list (map snap_AppSlots snapshots) \<longrightarrow> need \<le> sum_list (take (nat taken) ?xs))
      \<and> (\<forall>m. need \<le> sum_list (take m ?xs) \<longrightarrow> taken \<le> int m)"
    using take_workers_all [OF by_slots_sorted all, of need 0] need few by (simp add: run slots_sum len)
  then show "remaining \<le> 0 \<longleftrightarrow> need \<le> sum_list (map snap_AppSlots snapshots)"
    and "0 < remaining \<Longrightarrow> remaining = need - sum_list (map snap_AppSlots snapshots)" by blast+
  show "0 \<le> taken \<and> (\<exists>ys \<in> set (subseqs snapshots). int (length ys) = taken \<and> need \<le> sum_list (map snap_AppSlots ys))"
    if "remaining \<le> 0"
  proof
    show "0 \<le> taken" using r by blast
    have "mset (take (nat taken) (by_slots snapshots)) \<subseteq># mset (by_slots snapshots)"
      by (metis append_take_drop_id mset_append mset_subset_eq_add_left)
    then obtain ys where ys: "ys \<in> set (subseqs snapshots)" "mset ys = mset (take (nat taken) (by_slots snapshots))"
      using mset_subseqs [of "mset (take (nat taken) (by_slots snapshots))" snapshots] by (auto simp: by_slots_mset)
    have "sum_list (map snap_AppSlots ys) = sum_list (take (nat taken) ?xs)"
      unfolding take_map using ys(2) by (metis mset_map sum_mset_sum_list)
    moreover have "length ys = nat taken" using ys(2) r len by (metis length_take min.absorb2 size_mset)
    ultimately show "\<exists>ys \<in> set (subseqs snapshots). int (length ys) = taken \<and> need \<le> sum_list (map snap_AppSlots ys)"
      using r that ys(1) by (intro bexI [of _ ys]) auto
  qed
  show "taken \<le> int (length ys)" if "ys \<in> set (subseqs snapshots)" "need \<le> sum_list (map snap_AppSlots ys)"
  proof -
    have "mset (map snap_AppSlots ys) \<subseteq># mset ?xs"
      using subseqs_mset [OF that(1)] by (simp add: by_slots_mset image_mset_subseteq_mono)
    from sum_of_largest [OF by_slots_sorted this] all
    have "sum_list (map snap_AppSlots ys) \<le> sum_list (take (length ys) ?xs)" unfolding sum_mset_sum_list size_mset length_map by blast
    with that(2) have "need \<le> sum_list (take (length ys) ?xs)" by simp
    with r show ?thesis by blast
  qed
qed

section \<open>Two workers\<close>

definition demo_node :: "string \<Rightarrow> int \<Rightarrow> Node" where
  "demo_node name milli = \<lparr>node_Name = name, node_Labels = \<lambda>l. None, node_Conditions = [(''Ready'', ''True'')],
     node_AllocatableMilliCPU = Some milli, node_CreationUnixNano = 0\<rparr>"

definition demo_base :: workerTargetComputation where
  "demo_base = base_target (normalized_capacity (LoadWorkerCapacityDefaultsFromEnv (\<lambda>v. None))) 1 0"

section \<open>Properties\<close>

lemma direct_divide_least:
  fixes env :: env and n u :: int
  defines "b \<equiv> base_target (normalized_capacity (LoadWorkerCapacityDefaultsFromEnv env)) n u"
  shows "0 \<le> wt_RawTargetWorkerCount (resolveWorkerTargetCountByDirectDivide k b)
    \<and> wt_DesiredPodsForCapacity b \<le> wt_RawTargetWorkerCount (resolveWorkerTargetCountByDirectDivide k b) * wt_PodsPerWorker b
    \<and> (0 < wt_DesiredPodsForCapacity b
       \<longrightarrow> (wt_RawTargetWorkerCount (resolveWorkerTargetCountByDirectDivide k b) - 1) * wt_PodsPerWorker b < wt_DesiredPodsForCapacity b)"
proof -
  note range = base_target_capacity [of env n u, folded b_def]
  show ?thesis
  proof (cases "0 < wt_DesiredPodsForCapacity b")
    case True
    then have "wt_RawTargetWorkerCount (resolveWorkerTargetCountByDirectDivide k b)
        = ceil_div k (wt_DesiredPodsForCapacity b) (wt_PodsPerWorker b)"
      by (simp add: resolveWorkerTargetCountByDirectDivide_def Let_def)
    then show ?thesis
      using ceil_div_exact [of "wt_DesiredPodsForCapacity b" "wt_PodsPerWorker b" k] range
        ceiling_division [of "wt_PodsPerWorker b" "wt_DesiredPodsForCapacity b"] by metis
  next
    case False
    with range show ?thesis by (simp add: resolveWorkerTargetCountByDirectDivide_def Let_def)
  qed
qed

text \<open>C23: dividing directly gives the least number of workers that hold the pods asked for: as many pods fit on
  them, and not on one fewer, whatever the settings.  Neither the rounding of the quotient as a float
  nor the width of the integers interferes.\<close>

theorem direct_divide_fits:
  assumes "b = base_target (normalized_capacity (LoadWorkerCapacityDefaultsFromEnv env)) n u"
    and "target = wt_RawTargetWorkerCount (resolveWorkerTargetCountByDirectDivide k b)" and "0 < wt_DesiredPodsForCapacity b"
  shows "0 \<le> target \<and> wt_DesiredPodsForCapacity b \<le> target * wt_PodsPerWorker b
    \<and> (target - 1) * wt_PodsPerWorker b < wt_DesiredPodsForCapacity b"
  using direct_divide_least [of k env n u] assms by blast

theorem direct_divide_fits_witness:
  "\<forall>k :: unit k8s. wt_RawTargetWorkerCount (resolveWorkerTargetCountByDirectDivide k
     (base_target (normalized_capacity (LoadWorkerCapacityDefaultsFromEnv (\<lambda>v. None))) 5 1)) = 3"
proof
  fix k :: "unit k8s"
  let ?b = "base_target (normalized_capacity (LoadWorkerCapacityDefaultsFromEnv (\<lambda>v. None))) 5 1"
  have b: "wt_DesiredPodsForCapacity ?b = 7" "wt_PodsPerWorker ?b = 3" by code_simp+
  from direct_divide_fits [OF refl refl, of "\<lambda>v. None" 5 1 k] show "wt_RawTargetWorkerCount (resolveWorkerTargetCountByDirectDivide k ?b) = 3"
    unfolding b by simp
qed

text \<open>C10: counting free slots gives the least number of ready workers that hold the pods asked for: some choice of
  as many ready workers has enough free slots and no smaller one has.  If all of them together have not,
  it is all of them and the least number of empty workers for the pods that are left.\<close>

theorem free_slots_fewest:
  assumes "b = base_target (normalized_capacity (LoadWorkerCapacityDefaultsFromEnv env)) n u"
    and "buildWorkerNodeCapacitySnapshots nodes pods selector (wt_NodeAllocatableMilliCPU b) (wt_PodRequestMilliCPU b) = (snapshots, scheduled)"
    and "0 < wt_DesiredPodsForCapacity b" and "int (length snapshots) + wt_DesiredPodsForCapacity b < 2147483648"
  shows "if wt_DesiredPodsForCapacity b \<le> sum_list (map snap_AppSlots snapshots)
    then (\<exists>ys \<in> set (subseqs snapshots). int (length ys) = wt_RawTargetWorkerCount (fill_slots k snapshots scheduled b)
           \<and> wt_DesiredPodsForCapacity b \<le> sum_list (map snap_AppSlots ys))
       \<and> (\<forall>ys \<in> set (subseqs snapshots). wt_DesiredPodsForCapacity b \<le> sum_list (map snap_AppSlots ys)
           \<longrightarrow> wt_RawTargetWorkerCount (fill_slots k snapshots scheduled b) \<le> int (length ys))
    else wt_RawTargetWorkerCount (fill_slots k snapshots scheduled b) = int (length snapshots)
       + \<lceil>of_int (wt_DesiredPodsForCapacity b - sum_list (map snap_AppSlots snapshots)) / (of_int (wt_PodsPerWorker b) :: rat)\<rceil>"
proof -
  let ?need = "wt_DesiredPodsForCapacity b"
  note range = base_target_capacity [of env n u, folded assms(1)]
  note slots = snapshots_slots(2) [OF assms(2)]
  obtain remaining taken where run: "take_workers (map snap_AppSlots (by_slots snapshots)) ?need 0 = (remaining, taken)"
    by (cases "take_workers (map snap_AppSlots (by_slots snapshots)) ?need 0")
  have few: "int (length snapshots) < 2147483648" using assms(3,4) by linarith
  note loop = take_workers_fewest [OF slots assms(3) range(4) few run]
  show ?thesis
  proof (cases "?need \<le> sum_list (map snap_AppSlots snapshots)")
    case True
    then have enough: "remaining \<le> 0" by (simp add: loop(1))
    then have "wt_RawTargetWorkerCount (fill_slots k snapshots scheduled b) = taken"
      using assms(3) by (simp add: fill_slots_def run Let_def)
    with True loop(3) [OF enough] loop(4) show ?thesis by (simp only: if_True) blast
  next
    case False
    then have short: "0 < remaining" using loop(1) by linarith
    note rest = loop(2) [OF short]
    have "0 \<le> sum_list (map snap_AppSlots snapshots)" using slots by (intro sum_list_nonneg) auto
    then have c: "0 \<le> remaining" "remaining \<le> ?need" "remaining < 2147483648" using short rest range by simp_all
    note div = ceil_div_exact [OF c(1,3) range(1,2), of k]
    have "wt_RawTargetWorkerCount (fill_slots k snapshots scheduled b)
        = i32 (i32 (int (length snapshots)) + ceil_div k remaining (wt_PodsPerWorker b))"
      using assms(3) short by (simp add: fill_slots_def run Let_def)
    also have "\<dots> = int (length snapshots) + ceil_div k remaining (wt_PodsPerWorker b)"
      using div(2,3) c assms(4) few by (simp add: i32_id)
    finally show ?thesis using False div(1) rest by simp
  qed
qed

theorem free_slots_fewest_witness:
  "\<forall>k :: unit k8s. \<exists>snapshots scheduled. wt_RawTargetWorkerCount (fill_slots k snapshots scheduled demo_base) = 1 \<and> length snapshots = 2"
proof
  fix k :: "unit k8s"
  obtain snapshots scheduled where built: "buildWorkerNodeCapacitySnapshots [demo_node ''a'' 600, demo_node ''b'' 1800] [] (\<lambda>l. True)
      (wt_NodeAllocatableMilliCPU demo_base) (wt_PodRequestMilliCPU demo_base) = (snapshots, scheduled)" by (rule prod.exhaust)
  have "map snap_AppSlots (fst (buildWorkerNodeCapacitySnapshots [demo_node ''a'' 600, demo_node ''b'' 1800] [] (\<lambda>l. True)
      (wt_NodeAllocatableMilliCPU demo_base) (wt_PodRequestMilliCPU demo_base))) = [1, 3]" by code_simp
  then have slots: "map snap_AppSlots snapshots = [1, 3]" unfolding built by simp
  then have two: "length snapshots = 2" using length_map [of snap_AppSlots snapshots] by simp
  have need: "wt_DesiredPodsForCapacity demo_base = 2" by code_simp
  let ?r = "wt_RawTargetWorkerCount (fill_slots k snapshots scheduled demo_base)"
  from free_slots_fewest [OF demo_base_def built, of k] have
    some: "\<exists>ys \<in> set (subseqs snapshots). int (length ys) = ?r \<and> 2 \<le> sum_list (map snap_AppSlots ys)"
    and least: "\<forall>ys \<in> set (subseqs snapshots). 2 \<le> sum_list (map snap_AppSlots ys) \<longrightarrow> ?r \<le> int (length ys)"
    unfolding need slots two by simp_all
  from slots obtain a b where s: "snapshots = [a, b]" and b: "snap_AppSlots b = 3" by (auto simp: map_eq_Cons_conv)
  have "[b] \<in> set (subseqs snapshots)" by (simp add: s Let_def)
  with least b have "?r \<le> 1" by fastforce
  moreover have "0 < ?r"
  proof -
    from some obtain ys :: "workerNodeCapacitySnapshot list" where "int (length ys) = ?r" "2 \<le> sum_list (map snap_AppSlots ys)" by blast
    then show ?thesis by (cases ys) auto
  qed
  ultimately have "?r = 1" by simp
  with two show "\<exists>snapshots scheduled. wt_RawTargetWorkerCount (fill_slots k snapshots scheduled demo_base) = 1 \<and> length snapshots = 2"
    by blast
qed

end
