(* ===== verification/WorkerPlan.thy ===== *)
theory WorkerPlan
  imports WorkerCapacity
begin

text \<open>
  Planning the creation and deletion of workers
  (\<^verbatim>\<open>custom-scaler/internal/controller/worker_operations.go\<close>, \<^verbatim>\<open>worker_prototype.go\<close>).
\<close>

section \<open>Operations under way\<close>

text \<open>The operations of a status, or the single one of an older status.\<close>

definition cloneActiveOperations :: "WorkerPrototypeStatus option \<Rightarrow> WorkerOperationStatus list" where
  "cloneActiveOperations status = (case status of
     None \<Rightarrow> []
   | Some s \<Rightarrow> if ActiveOperations s \<noteq> [] then ActiveOperations s
       else (case ActiveOperation s of None \<Rightarrow> [] | Some operation \<Rightarrow> [operation]))"

definition syncLegacyActiveOperation :: "WorkerPrototypeStatus \<Rightarrow> WorkerPrototypeStatus" where
  "syncLegacyActiveOperation s =
     s\<lparr>ActiveOperation := (case ActiveOperations s of [] \<Rightarrow> None | operation # _ \<Rightarrow> Some operation)\<rparr>"

definition activeOperationRequestedCount :: "WorkerOperationStatus \<Rightarrow> int" where
  "activeOperationRequestedCount operation = (if 0 < RequestedCount operation then RequestedCount operation else 1)"

fun sumActiveOperationCounts :: "WorkerOperationStatus list \<Rightarrow> int \<Rightarrow> int \<Rightarrow> int \<times> int" where
  "sumActiveOperationCounts [] createCount deleteCount = (createCount, deleteCount)"
| "sumActiveOperationCounts (operation # operations) createCount deleteCount =
     (let n = activeOperationRequestedCount operation in
      if OperationType operation = ''create'' then sumActiveOperationCounts operations (i32 (createCount + n)) deleteCount
      else if OperationType operation = ''delete'' then sumActiveOperationCounts operations createCount (i32 (deleteCount + n))
      else sumActiveOperationCounts operations createCount deleteCount)"

definition formatActiveOperationSummary :: "WorkerOperationStatus list \<Rightarrow> string" where
  "formatActiveOperationSummary operations =
     (if operations = [] then ''none''
      else concat (tl (concat (map (\<lambda>p. ['', '', OperationType p @ '':'' @ TargetNodeName p @ '':'' @ Phase p]) operations))))"

text \<open>Whether the status of an operation differs from another in what is worth a write.\<close>

definition workerOperationChanged :: "WorkerOperationStatus \<Rightarrow> WorkerOperationStatus \<Rightarrow> bool" where
  "workerOperationChanged current next_op =
     (OperationType current \<noteq> OperationType next_op \<or> TargetNodeName current \<noteq> TargetNodeName next_op
      \<or> Phase current \<noteq> Phase next_op \<or> JobNamespace current \<noteq> JobNamespace next_op \<or> JobName current \<noteq> JobName next_op
      \<or> RequestedCount current \<noteq> RequestedCount next_op \<or> Message current \<noteq> Message next_op)"

definition activeOperationSlicesChanged :: "WorkerOperationStatus list \<Rightarrow> WorkerOperationStatus list \<Rightarrow> bool" where
  "activeOperationSlicesChanged current nexts =
     (length current \<noteq> length nexts \<or> list_ex (\<lambda>(a, b). workerOperationChanged a b) (zip current nexts))"

section \<open>The plan\<close>

record workerPrototypePlan =
  plan_Status :: WorkerPrototypeStatus
  plan_WorkersToCreate :: int
  plan_WorkersToDelete :: int

definition workerPrototypeStatusChanged :: "WorkerPrototypeStatus option \<Rightarrow> workerPrototypePlan option \<Rightarrow> bool" where
  "workerPrototypeStatusChanged current plan = (case (plan, current) of
     (None, _) \<Rightarrow> False
   | (Some p, None) \<Rightarrow> True
   | (Some p, Some c) \<Rightarrow> (let s = plan_Status p in
       TargetWorkerCount c \<noteq> TargetWorkerCount s \<or> ObservedReadyWorkerCount c \<noteq> ObservedReadyWorkerCount s
       \<or> PendingCreateCount c \<noteq> PendingCreateCount s \<or> PendingDeleteCount c \<noteq> PendingDeleteCount s
       \<or> EffectiveWorkerCount c \<noteq> EffectiveWorkerCount s \<or> LastAction c \<noteq> LastAction s \<or> LastReason c \<noteq> LastReason s
       \<or> activeOperationSlicesChanged (cloneActiveOperations current) (cloneActiveOperations (Some s))))"

definition new_status :: WorkerPrototypeStatus where
  "new_status = \<lparr>TargetWorkerCount = 0, ObservedReadyWorkerCount = 0, PendingCreateCount = 0, PendingDeleteCount = 0,
     EffectiveWorkerCount = 0, LastAction = [], LastReason = [], LastEnsureTime = None, ActiveOperations = [], ActiveOperation = None\<rparr>"

text \<open>What is counted before anything is decided: the operations under way, less those that the ready workers show to be done.\<close>

record worker_counts =
  wc_Target :: int
  wc_Observed :: int
  wc_PendingCreate :: int
  wc_PendingDelete :: int
  wc_CreateSlotsUsed :: int
  wc_DeleteSlotsUsed :: int
  wc_Effective :: int

definition count_workers :: "int \<Rightarrow> int \<Rightarrow> int \<Rightarrow> WorkerOperationStatus list \<Rightarrow> worker_counts" where
  "count_workers target previous observed operations =
     (let (raw_create, raw_delete) = sumActiveOperationCounts operations 0 0;
          created = (if previous < observed then min raw_create (i32 (observed - previous)) else 0);
          deleted = (if observed < previous then min raw_delete (i32 (previous - observed)) else 0);
          pending_create = i32 (raw_create - created); pending_delete = i32 (raw_delete - deleted) in
      \<lparr>wc_Target = target, wc_Observed = observed, wc_PendingCreate = pending_create, wc_PendingDelete = pending_delete,
       wc_CreateSlotsUsed = max (i32 (raw_create - created)) 0, wc_DeleteSlotsUsed = max (i32 (raw_delete - deleted)) 0,
       wc_Effective = i32 (i32 (observed + pending_create) - pending_delete)\<rparr>)"

definition limits_text :: "worker_counts \<Rightarrow> string \<Rightarrow> int \<Rightarrow> string" where
  "limits_text c last_label n = '' target='' @ int_str (wc_Target c) @ '' effective='' @ int_str (wc_Effective c) @ '' '' @ last_label @ int_str n"

text \<open>How many workers to create and to delete, with the action and the reason.\<close>

definition plan_action :: "worker_counts \<Rightarrow> int \<Rightarrow> int \<Rightarrow> int \<Rightarrow> int \<Rightarrow> WorkerOperationStatus list \<Rightarrow> int \<times> int \<times> string \<times> string" where
  "plan_action c max_create max_delete batch unschedulable operations =
     (let waiting = ''waiting-active-operation''; delta = i32 (wc_Target c - wc_Effective c); excess = i32 (- delta);
          (action, reason) = (if operations \<noteq> []
            then (waiting, ''waiting for active worker operations to finish observation: '' @ formatActiveOperationSummary operations)
            else (''stable'', ''target-satisfied''));
          free_create = max (i32 (max_create - wc_CreateSlotsUsed c)) 0;
          free_delete = max (i32 (max_delete - wc_DeleteSlotsUsed c)) 0 in
      if 0 < delta
      then if 0 < wc_DeleteSlotsUsed c
          then (0, 0, waiting, ''delete operations in flight block new creates: activeDelete='' @ int_str (wc_DeleteSlotsUsed c))
        else if free_create \<le> 0
          then (0, 0, waiting, ''create slots saturated: activeCreate='' @ int_str (wc_CreateSlotsUsed c) @ '' limit='' @ int_str max_create
            @ limits_text c ''missing='' delta)
        else let n = min delta (min batch free_create) in
          if 0 < n then (n, 0, ''enqueue-create'', tl (limits_text c ''missing='' delta)) else (n, 0, action, reason)
      else if delta < 0
      then if 0 < wc_CreateSlotsUsed c
          then (0, 0, waiting, ''create operations in flight block new deletes: activeCreate='' @ int_str (wc_CreateSlotsUsed c))
        else if 0 < unschedulable
          then (0, 0, ''blocked-unschedulable-pods'',
            ''unschedulable pods present block deletes: unschedulablePods='' @ int_str unschedulable)
        else if free_delete \<le> 0
          then (0, 0, waiting, ''delete slots saturated: activeDelete='' @ int_str (wc_DeleteSlotsUsed c) @ '' limit='' @ int_str max_delete
            @ limits_text c ''excess='' excess)
        else let n = min excess (min batch free_delete) in
          if 0 < n then (0, n, ''enqueue-delete'', tl (limits_text c ''excess='' excess)) else (0, n, action, reason)
      else (0, 0, action, reason))"

definition ensureWorkers ::
  "int \<Rightarrow> int option \<Rightarrow> WorkerPrototypeStatus option \<Rightarrow> int \<Rightarrow> int \<Rightarrow> int \<Rightarrow> int \<Rightarrow> int \<Rightarrow> workerPrototypePlan" where
  "ensureWorkers target batch current observed unschedulable maxCreate maxDelete time =
     (let max_create = above_zero_or 1 maxCreate; max_delete = above_zero_or 1 maxDelete;
          size_limit = (case batch of Some b \<Rightarrow> if 0 < b then b else max max_create max_delete | None \<Rightarrow> max max_create max_delete);
          status = (case current of None \<Rightarrow> new_status | Some s \<Rightarrow> s);
          operations = cloneActiveOperations current;
          c = count_workers target (case current of None \<Rightarrow> 0 | Some s \<Rightarrow> ObservedReadyWorkerCount s) observed operations;
          (creates, deletes, action, reason) = plan_action c max_create max_delete size_limit unschedulable operations in
      \<lparr>plan_Status = syncLegacyActiveOperation (status\<lparr>ActiveOperations := operations, TargetWorkerCount := target,
         ObservedReadyWorkerCount := observed,
         PendingCreateCount := (if 0 < creates then i32 (wc_PendingCreate c + creates) else wc_PendingCreate c),
         PendingDeleteCount := (if 0 < deletes then i32 (wc_PendingDelete c + deletes) else wc_PendingDelete c),
         EffectiveWorkerCount := (if 0 < creates then i32 (wc_Effective c + creates)
           else if 0 < deletes then i32 (wc_Effective c - deletes) else wc_Effective c),
         LastAction := action, LastReason := reason, LastEnsureTime := Some time\<rparr>),
       plan_WorkersToCreate = creates, plan_WorkersToDelete = deletes\<rparr>)"

definition reconcileWorkerPrototype ::
  "'w k8s \<Rightarrow> WorkerCapacityDefaults \<Rightarrow> int \<Rightarrow> int \<Rightarrow> CustomScaler \<Rightarrow> Deployment \<Rightarrow> int \<Rightarrow> int
     \<Rightarrow> ('w, (workerPrototypePlan \<times> workerTargetComputation) option) go" where
  "reconcileWorkerPrototype k capacity maxCreate maxDelete customScaler deployment desiredReplicas time =
     (case spec_WorkerPrototype (cs_Spec customScaler) of
        None \<Rightarrow> g_return None
      | Some spec \<Rightarrow>
          g_bind (resolveWorkerTargetCount k capacity spec deployment desiredReplicas) (\<lambda>target.
          g_bind (countReadyWorkerNodes k spec) (\<lambda>observed.
          g_return (Some (ensureWorkers (wt_TargetWorkerCount target) (wps_MaxBatchSize spec) (WorkerPrototype (cs_Status customScaler))
            observed (wt_UnschedulablePods target) maxCreate maxDelete time, target)))))"

section \<open>What is in flight\<close>

text \<open>The workers that the operations of a kind are to create or delete.\<close>

definition in_flight :: "string \<Rightarrow> WorkerOperationStatus list \<Rightarrow> int" where
  "in_flight kind operations = sum_list (map activeOperationRequestedCount (filter (\<lambda>p. OperationType p = kind) operations))"

lemma requested_pos: "0 < activeOperationRequestedCount p"
  by (simp add: activeOperationRequestedCount_def)

lemma in_flight_nonneg: "0 \<le> in_flight kind ops"
  unfolding in_flight_def using requested_pos by (intro sum_list_nonneg) (auto intro: less_imp_le)

lemma in_flight_simps [simp]:
  "in_flight kind [] = 0"
  "in_flight kind (p # ops) = (if OperationType p = kind then activeOperationRequestedCount p else 0) + in_flight kind ops"
  "in_flight kind (ops @ ops') = in_flight kind ops + in_flight kind ops'"
  by (simp_all add: in_flight_def)

lemma sumActiveOperationCounts_in_flight:
  "0 \<le> c \<Longrightarrow> 0 \<le> d \<Longrightarrow> c + in_flight ''create'' ops < 2147483648 \<Longrightarrow> d + in_flight ''delete'' ops < 2147483648
   \<Longrightarrow> sumActiveOperationCounts ops c d = (c + in_flight ''create'' ops, d + in_flight ''delete'' ops)"
proof (induction ops c d rule: sumActiveOperationCounts.induct)
  case (2 p ops c d)
  have pos: "0 < activeOperationRequestedCount p" "0 \<le> in_flight ''create'' ops" "0 \<le> in_flight ''delete'' ops"
    using requested_pos in_flight_nonneg by auto
  consider (create) "OperationType p = ''create''" | (delete) "OperationType p = ''delete''"
    | (other) "OperationType p \<noteq> ''create''" "OperationType p \<noteq> ''delete''" by blast
  then show ?case
  proof cases
    case create
    with "2.prems" pos have "i32 (c + activeOperationRequestedCount p) = c + activeOperationRequestedCount p" by (simp add: i32_id)
    with create "2.prems" pos "2.IH"(1) [OF refl create] show ?thesis by (simp add: Let_def)
  next
    case delete
    with "2.prems" pos have "i32 (d + activeOperationRequestedCount p) = d + activeOperationRequestedCount p" by (simp add: i32_id)
    moreover have "OperationType p \<noteq> ''create''" using delete by simp
    ultimately show ?thesis using delete "2.prems" pos "2.IH"(2) [OF refl _ delete] by (simp add: Let_def)
  next
    case other
    then show ?thesis using "2.prems" "2.IH"(3) [OF refl other] by (simp add: Let_def)
  qed
qed simp

text \<open>Numbers far from the bounds of int32, so that nothing wraps around.\<close>

abbreviation small :: "int \<Rightarrow> bool" where
  "small n \<equiv> 0 \<le> n \<and> n < 536870912"

definition previous_ready :: "WorkerPrototypeStatus option \<Rightarrow> int" where
  "previous_ready current = (case current of None \<Rightarrow> 0 | Some s \<Rightarrow> ObservedReadyWorkerCount s)"

definition plan_input_ok :: "int \<Rightarrow> WorkerPrototypeStatus option \<Rightarrow> int \<Rightarrow> bool" where
  "plan_input_ok target current observed \<longleftrightarrow> small target \<and> small observed \<and> small (previous_ready current)
     \<and> in_flight ''create'' (cloneActiveOperations current) < 536870912 \<and> in_flight ''delete'' (cloneActiveOperations current) < 536870912"

lemma count_workers_calm:
  fixes target :: int
  assumes "small previous" "small observed" "in_flight ''create'' ops < 536870912" "in_flight ''delete'' ops < 536870912"
  defines "c \<equiv> count_workers target previous observed ops"
  shows "wc_PendingCreate c = in_flight ''create'' ops - min (in_flight ''create'' ops) (max 0 (observed - previous))"
    and "wc_PendingDelete c = in_flight ''delete'' ops - min (in_flight ''delete'' ops) (max 0 (previous - observed))"
    and "wc_CreateSlotsUsed c = wc_PendingCreate c" and "wc_DeleteSlotsUsed c = wc_PendingDelete c"
    and "small (wc_PendingCreate c)" and "small (wc_PendingDelete c)"
    and "wc_Effective c = observed + wc_PendingCreate c - wc_PendingDelete c"
    and "wc_Target c = target" and "wc_Observed c = observed"
proof -
  have nonneg: "0 \<le> in_flight ''create'' ops" "0 \<le> in_flight ''delete'' ops" by (rule in_flight_nonneg)+
  have raw: "sumActiveOperationCounts ops 0 0 = (in_flight ''create'' ops, in_flight ''delete'' ops)"
    using assms(3,4) nonneg by (simp add: sumActiveOperationCounts_in_flight)
  show pc: "wc_PendingCreate c = in_flight ''create'' ops - min (in_flight ''create'' ops) (max 0 (observed - previous))"
    using assms(1-4) nonneg by (auto simp: c_def count_workers_def raw Let_def i32_id)
  show pd: "wc_PendingDelete c = in_flight ''delete'' ops - min (in_flight ''delete'' ops) (max 0 (previous - observed))"
    using assms(1-4) nonneg by (auto simp: c_def count_workers_def raw Let_def i32_id)
  show s: "small (wc_PendingCreate c)" "small (wc_PendingDelete c)" unfolding pc pd using assms(1-4) nonneg by auto
  have same: "wc_CreateSlotsUsed c = max (wc_PendingCreate c) 0" "wc_DeleteSlotsUsed c = max (wc_PendingDelete c) 0"
    "wc_Effective c = i32 (i32 (observed + wc_PendingCreate c) - wc_PendingDelete c)"
    by (simp_all add: c_def count_workers_def raw Let_def)
  show "wc_CreateSlotsUsed c = wc_PendingCreate c" "wc_DeleteSlotsUsed c = wc_PendingDelete c"
    "wc_Effective c = observed + wc_PendingCreate c - wc_PendingDelete c"
    unfolding same using s assms(2) by (simp_all add: i32_id)
  show "wc_Target c = target" "wc_Observed c = observed" by (simp_all add: c_def count_workers_def raw Let_def)
qed

text \<open>A decision that creates: nothing is being deleted, and neither the target nor the limit is passed.  One that deletes: no
  pod waits for a node, nothing is being created, and it stays at the target and within the limit.\<close>

lemma plan_action_calm:
  assumes act: "plan_action c max_create max_delete batch unschedulable ops = (creates, deletes, action, reason)"
    and s: "small (wc_Target c)" "small (wc_PendingCreate c)" "small (wc_PendingDelete c)" "small (wc_Observed c)"
    and used: "wc_CreateSlotsUsed c = wc_PendingCreate c" "wc_DeleteSlotsUsed c = wc_PendingDelete c"
    and eff: "wc_Effective c = wc_Observed c + wc_PendingCreate c - wc_PendingDelete c"
    and limits: "0 < max_create" "max_create < 2147483648" "0 < max_delete" "max_delete < 2147483648" "0 < batch"
  shows "0 \<le> creates \<and> 0 \<le> deletes"
    and "0 < creates \<Longrightarrow> deletes = 0 \<and> wc_PendingDelete c = 0 \<and> wc_Effective c + creates \<le> wc_Target c
      \<and> wc_PendingCreate c + creates \<le> max_create \<and> creates \<le> batch"
    and "0 < deletes \<Longrightarrow> creates = 0 \<and> wc_PendingCreate c = 0 \<and> unschedulable \<le> 0 \<and> wc_Target c \<le> wc_Effective c - deletes
      \<and> wc_PendingDelete c + deletes \<le> max_delete \<and> deletes \<le> batch"
    and "creates = 0 \<Longrightarrow> deletes = 0 \<Longrightarrow> wc_Effective c = wc_Target c
      \<or> wc_Effective c < wc_Target c \<and> (0 < wc_PendingDelete c \<or> max_create \<le> wc_PendingCreate c)
      \<or> wc_Target c < wc_Effective c \<and> (0 < wc_PendingCreate c \<or> 0 < unschedulable \<or> max_delete \<le> wc_PendingDelete c)"
proof -
  define d where "d = wc_Target c - wc_Effective c"
  have "i32 (wc_Target c - wc_Effective c) = d" "i32 (- d) = - d" using s eff by (simp_all add: i32_id d_def)
  moreover have "i32 (max_create - wc_PendingCreate c) = max_create - wc_PendingCreate c"
    "i32 (max_delete - wc_PendingDelete c) = max_delete - wc_PendingDelete c" using s limits by (simp_all add: i32_id)
  ultimately have act': "(if 0 < d
      then if 0 < wc_PendingDelete c then creates = 0 \<and> deletes = 0
        else if max_create - wc_PendingCreate c \<le> 0 then creates = 0 \<and> deletes = 0
        else creates = min d (min batch (max (max_create - wc_PendingCreate c) 0)) \<and> deletes = 0
      else if d < 0
      then if 0 < wc_PendingCreate c then creates = 0 \<and> deletes = 0
        else if 0 < unschedulable then creates = 0 \<and> deletes = 0
        else if max_delete - wc_PendingDelete c \<le> 0 then creates = 0 \<and> deletes = 0
        else creates = 0 \<and> deletes = min (- d) (min batch (max (max_delete - wc_PendingDelete c) 0))
      else creates = 0 \<and> deletes = 0)"
    using act by (simp add: plan_action_def used Let_def split: if_splits prod.splits)
  then show "0 \<le> creates \<and> 0 \<le> deletes" using limits by (auto split: if_splits)
  show "deletes = 0 \<and> wc_PendingDelete c = 0 \<and> wc_Effective c + creates \<le> wc_Target c
      \<and> wc_PendingCreate c + creates \<le> max_create \<and> creates \<le> batch" if "0 < creates"
    using act' that s limits unfolding d_def by (auto split: if_splits)
  show "creates = 0 \<and> wc_PendingCreate c = 0 \<and> unschedulable \<le> 0 \<and> wc_Target c \<le> wc_Effective c - deletes
      \<and> wc_PendingDelete c + deletes \<le> max_delete \<and> deletes \<le> batch" if "0 < deletes"
    using act' that s limits unfolding d_def by (auto split: if_splits)
  show "wc_Effective c = wc_Target c
      \<or> wc_Effective c < wc_Target c \<and> (0 < wc_PendingDelete c \<or> max_create \<le> wc_PendingCreate c)
      \<or> wc_Target c < wc_Effective c \<and> (0 < wc_PendingCreate c \<or> 0 < unschedulable \<or> max_delete \<le> wc_PendingDelete c)"
    if "creates = 0" "deletes = 0"
    using act' that s limits unfolding d_def by (auto simp: min_def max_def split: if_splits)
qed

section \<open>Properties\<close>

lemma ensureWorkers_calm:
  assumes ok: "plan_input_ok target current observed" and limits: "maxCreate < 2147483648" "maxDelete < 2147483648"
    and p: "p = ensureWorkers target batch current observed unschedulable maxCreate maxDelete time"
  defines "c \<equiv> count_workers target (previous_ready current) observed (cloneActiveOperations current)"
  obtains size_limit action reason where
    "plan_action c (max 1 maxCreate) (max 1 maxDelete) size_limit unschedulable (cloneActiveOperations current)
       = (plan_WorkersToCreate p, plan_WorkersToDelete p, action, reason)" "0 < size_limit"
    "PendingCreateCount (plan_Status p) = wc_PendingCreate c + plan_WorkersToCreate p"
    "PendingDeleteCount (plan_Status p) = wc_PendingDelete c + plan_WorkersToDelete p"
    "EffectiveWorkerCount (plan_Status p) = wc_Effective c + plan_WorkersToCreate p - plan_WorkersToDelete p"
    "0 \<le> plan_WorkersToCreate p" "0 \<le> plan_WorkersToDelete p" "\<forall>b. batch = Some b \<and> 0 < b \<longrightarrow> size_limit = b"
proof -
  let ?ops = "cloneActiveOperations current"
  define size_limit where "size_limit = (case batch of Some b \<Rightarrow> if 0 < b then b else max (max 1 maxCreate) (max 1 maxDelete)
    | None \<Rightarrow> max (max 1 maxCreate) (max 1 maxDelete))"
  have size: "\<forall>b. batch = Some b \<and> 0 < b \<longrightarrow> size_limit = b" by (simp add: size_limit_def)
  have size_pos: "0 < size_limit" by (auto simp: size_limit_def split: option.split)
  obtain creates deletes action reason where
    act: "plan_action c (max 1 maxCreate) (max 1 maxDelete) size_limit unschedulable ?ops = (creates, deletes, action, reason)"
    by (cases "plan_action c (max 1 maxCreate) (max 1 maxDelete) size_limit unschedulable ?ops")
  have above: "above_zero_or 1 n = max 1 n" for n :: int by (auto simp: above_zero_or_def)
  have input: "small (previous_ready current)" "small observed" "in_flight ''create'' ?ops < 536870912" "in_flight ''delete'' ?ops < 536870912"
    "small target" using ok by (simp_all add: plan_input_ok_def)
  note calm = count_workers_calm [OF input(1-4), of target, folded c_def]
  have prev: "(case current of None \<Rightarrow> 0 | Some s \<Rightarrow> ObservedReadyWorkerCount s) = previous_ready current"
    by (simp add: previous_ready_def)
  have fields: "plan_WorkersToCreate p = creates" "plan_WorkersToDelete p = deletes"
    "PendingCreateCount (plan_Status p) = (if 0 < creates then i32 (wc_PendingCreate c + creates) else wc_PendingCreate c)"
    "PendingDeleteCount (plan_Status p) = (if 0 < deletes then i32 (wc_PendingDelete c + deletes) else wc_PendingDelete c)"
    "EffectiveWorkerCount (plan_Status p) = (if 0 < creates then i32 (wc_Effective c + creates)
       else if 0 < deletes then i32 (wc_Effective c - deletes) else wc_Effective c)"
    unfolding p ensureWorkers_def Let_def above prev c_def [symmetric] size_limit_def [symmetric] act
    by (simp_all add: syncLegacyActiveOperation_def)
  have bounds: "max 1 maxCreate < 2147483648" "max 1 maxDelete < 2147483648" using limits by simp_all
  have r: "0 \<le> creates \<and> 0 \<le> deletes"
    "0 < creates \<Longrightarrow> deletes = 0 \<and> wc_PendingDelete c = 0 \<and> wc_Effective c + creates \<le> wc_Target c
      \<and> wc_PendingCreate c + creates \<le> max 1 maxCreate \<and> creates \<le> size_limit"
    "0 < deletes \<Longrightarrow> creates = 0 \<and> wc_PendingCreate c = 0 \<and> unschedulable \<le> 0 \<and> wc_Target c \<le> wc_Effective c - deletes
      \<and> wc_PendingDelete c + deletes \<le> max 1 maxDelete \<and> deletes \<le> size_limit"
    using plan_action_calm(1-3) [OF act, unfolded calm(8,9), OF input(5) calm(5,6) input(2) calm(3,4,7) _ bounds(1) _ bounds(2) size_pos]
    unfolding calm(8) by auto
  have "PendingCreateCount (plan_Status p) = wc_PendingCreate c + creates"
    "PendingDeleteCount (plan_Status p) = wc_PendingDelete c + deletes"
    "EffectiveWorkerCount (plan_Status p) = wc_Effective c + creates - deletes"
    unfolding fields using r calm(5-8) input(2,5) by (auto simp: i32_id)
  then show ?thesis using that [of size_limit action reason] act size_pos r(1) size unfolding fields(1,2) by blast
qed

text \<open>C7: the planner never overshoots.  What it counts as effective is what is ready and being created, less what is being
  deleted.  It creates only when nothing is being deleted, never past the target and never more at a
  time than the limit; it deletes only when nothing is being created and no pod waits for a node,
  never below the target and within its limit.  No plan is larger than the batch that the resource sets.  It does
  neither only at the target, or where one of those reasons holds it back.  The numbers are within
  the range in which no sum of two of them wraps.\<close>

theorem plan_never_overshoots:
  assumes "plan_input_ok target current observed" and "maxCreate < 2147483648" and "maxDelete < 2147483648"
    and "p = ensureWorkers target batch current observed unschedulable maxCreate maxDelete time" and "s = plan_Status p"
  shows "EffectiveWorkerCount s = observed + PendingCreateCount s - PendingDeleteCount s
    \<and> (0 < plan_WorkersToCreate p \<longrightarrow> plan_WorkersToDelete p = 0 \<and> PendingDeleteCount s = 0 \<and> EffectiveWorkerCount s \<le> target
         \<and> PendingCreateCount s \<le> max 1 maxCreate)
    \<and> (0 < plan_WorkersToDelete p \<longrightarrow> plan_WorkersToCreate p = 0 \<and> PendingCreateCount s = 0 \<and> unschedulable \<le> 0
         \<and> target \<le> EffectiveWorkerCount s \<and> PendingDeleteCount s \<le> max 1 maxDelete)
    \<and> (\<forall>b. batch = Some b \<and> 0 < b \<longrightarrow> plan_WorkersToCreate p \<le> b \<and> plan_WorkersToDelete p \<le> b)
    \<and> (plan_WorkersToCreate p = 0 \<and> plan_WorkersToDelete p = 0 \<longrightarrow> EffectiveWorkerCount s = target
         \<or> EffectiveWorkerCount s < target \<and> (0 < PendingDeleteCount s \<or> max 1 maxCreate \<le> PendingCreateCount s)
         \<or> target < EffectiveWorkerCount s \<and> (0 < PendingCreateCount s \<or> 0 < unschedulable \<or> max 1 maxDelete \<le> PendingDeleteCount s))"
proof -
  define c where "c = count_workers target (previous_ready current) observed (cloneActiveOperations current)"
  have input: "small (previous_ready current)" "small observed" "in_flight ''create'' (cloneActiveOperations current) < 536870912"
    "in_flight ''delete'' (cloneActiveOperations current) < 536870912" "small target" using assms(1) by (simp_all add: plan_input_ok_def)
  note calm = count_workers_calm [OF input(1-4), of target, folded c_def]
  obtain size_limit action reason where
    act: "plan_action c (max 1 maxCreate) (max 1 maxDelete) size_limit unschedulable (cloneActiveOperations current)
       = (plan_WorkersToCreate p, plan_WorkersToDelete p, action, reason)" and size: "0 < size_limit"
    and counts: "PendingCreateCount (plan_Status p) = wc_PendingCreate c + plan_WorkersToCreate p"
    "PendingDeleteCount (plan_Status p) = wc_PendingDelete c + plan_WorkersToDelete p"
    "EffectiveWorkerCount (plan_Status p) = wc_Effective c + plan_WorkersToCreate p - plan_WorkersToDelete p"
    and "0 \<le> plan_WorkersToCreate p" "0 \<le> plan_WorkersToDelete p"
    and batch: "\<forall>b. batch = Some b \<and> 0 < b \<longrightarrow> size_limit = b"
    by (rule ensureWorkers_calm [OF assms(1-4), folded c_def])
  note fields = counts [folded assms(5)]
  have bounds: "(0::int) < max 1 maxCreate" "max 1 maxCreate < 2147483648" "(0::int) < max 1 maxDelete" "max 1 maxDelete < 2147483648"
    using assms(2,3) by simp_all
  note r = plan_action_calm [OF act, unfolded calm(8,9), OF input(5) calm(5,6) input(2) calm(3,4,7) bounds size]
  have "plan_WorkersToCreate p \<le> b \<and> plan_WorkersToDelete p \<le> b" if "batch = Some b" "0 < b" for b
    using r(1-3) batch that by fastforce
  then show ?thesis unfolding fields calm(7) using r unfolding calm(7) by auto
qed

theorem plan_never_overshoots_witness:
  "plan_WorkersToCreate (ensureWorkers 5 (Some 2) None 1 0 3 3 0) = 2
   \<and> plan_WorkersToDelete (ensureWorkers 5 (Some 2) None 1 0 3 3 0) \<le> 2
   \<and> EffectiveWorkerCount (plan_Status (ensureWorkers 5 (Some 2) None 1 0 3 3 0)) \<le> 5"
proof -
  have ok: "plan_input_ok 5 None 1" by (simp add: plan_input_ok_def previous_ready_def cloneActiveOperations_def)
  have "plan_WorkersToCreate (ensureWorkers 5 (Some 2) None 1 0 3 3 0) = 2" by code_simp
  with plan_never_overshoots [OF ok _ _ refl refl, of 3 3 "Some 2" 0 0] show ?thesis by simp
qed

end
