(* ===== verification/WorkerExecutor.thy ===== *)
theory WorkerExecutor
  imports WorkerPlan
begin

text \<open>
  Carrying out a plan (\<^verbatim>\<open>custom-scaler/internal/controller/worker_executor.go\<close>): operations under
  way are followed through their jobs until the number of ready workers shows them, new ones are
  started as jobs that run the create or the delete command.
\<close>

section \<open>Configuration\<close>

record WorkerExecutorConfig =
  we_Namespace :: string
  we_ServiceAccountName :: string
  we_Image :: string
  we_CreateCommand :: string
  we_DeleteCommand :: string
  we_NodeNamePrefix :: string
  we_ConfigMapName :: string
  we_SecretName :: string
  we_SecretMountPath :: string
  we_TTLSecondsAfterRun :: int
  we_ObservationTimeout :: int
  we_MaxConcurrentCreateOps :: int
  we_MaxConcurrentDeleteOps :: int

definition envOrDefault :: "env \<Rightarrow> string \<Rightarrow> string \<Rightarrow> string" where
  "envOrDefault env name dflt = (let v = trim_space (getenv env name []) in if v \<noteq> [] then v else dflt)"

definition envOrDefaultInt32 :: "env \<Rightarrow> string \<Rightarrow> int \<Rightarrow> int" where
  "envOrDefaultInt32 env name dflt =
     (let v = trim_space (getenv env name []) in
      if v = [] then dflt else case scan_int v of None \<Rightarrow> dflt | Some n \<Rightarrow> i32 n)"

definition LoadWorkerExecutorConfigFromEnv :: "env \<Rightarrow> WorkerExecutorConfig" where
  "LoadWorkerExecutorConfigFromEnv env =
     \<lparr>we_Namespace = envOrDefault env ''SCALER_WORKER_EXECUTOR_NAMESPACE'' ''custom-scaler-system'',
      we_ServiceAccountName = envOrDefault env ''SCALER_WORKER_EXECUTOR_SERVICE_ACCOUNT'' ''custom-scaler-controller-manager'',
      we_Image = envOrDefault env ''SCALER_WORKER_EXECUTOR_IMAGE'' ''docker.io/boygioi/vm-job:latest'',
      we_CreateCommand = trim_space (getenv env ''SCALER_WORKER_CREATE_COMMAND'' []),
      we_DeleteCommand = trim_space (getenv env ''SCALER_WORKER_DELETE_COMMAND'' []),
      we_NodeNamePrefix = envOrDefault env ''SCALER_WORKER_NODE_NAME_PREFIX'' ''k3s-worker'',
      we_ConfigMapName = envOrDefault env ''SCALER_WORKER_EXECUTOR_CONFIG_MAP_NAME'' ''custom-scaler-vm-job-config'',
      we_SecretName = envOrDefault env ''SCALER_WORKER_EXECUTOR_SECRET_NAME'' ''custom-scaler-vm-job-secret'',
      we_SecretMountPath = envOrDefault env ''SCALER_WORKER_EXECUTOR_SECRET_MOUNT_PATH'' ''/var/run/vm-job-secret'',
      we_TTLSecondsAfterRun = envOrDefaultInt32 env ''SCALER_WORKER_EXECUTOR_TTL_SECONDS'' 3600,
      we_ObservationTimeout = i64 (envOrDefaultInt32 env ''SCALER_WORKER_OBSERVATION_TIMEOUT_SECONDS'' 600 * 1000000000),
      we_MaxConcurrentCreateOps = above_zero_or 1 (envOrDefaultInt32 env ''SCALER_WORKER_MAX_CONCURRENT_CREATE_OPS'' 1),
      we_MaxConcurrentDeleteOps = above_zero_or 1 (envOrDefaultInt32 env ''SCALER_WORKER_MAX_CONCURRENT_DELETE_OPS'' 1)\<rparr>"

definition enabledFor :: "WorkerExecutorConfig \<Rightarrow> string \<Rightarrow> bool" where
  "enabledFor c operationType =
     (if operationType = ''create'' then we_CreateCommand c \<noteq> []
      else if operationType = ''delete'' then we_DeleteCommand c \<noteq> [] else False)"

section \<open>Names and commands\<close>

text \<open>Letters and digits stay, every run of other characters is one dash.\<close>

definition is_alnum :: "char \<Rightarrow> bool" where
  "is_alnum c = (let n = of_char c :: nat in 97 \<le> n \<and> n \<le> 122 \<or> 48 \<le> n \<and> n \<le> 57)"

fun dashed :: "string \<Rightarrow> bool \<Rightarrow> string" where
  "dashed [] lastWasDash = []"
| "dashed (c # cs) lastWasDash =
     (if is_alnum c then c # dashed cs False
      else if lastWasDash then dashed cs True else CHR ''-'' # dashed cs True)"

abbreviation is_dash :: "char \<Rightarrow> bool" where
  "is_dash c \<equiv> c = CHR ''-''"

definition sanitizeNameComponent :: "string \<Rightarrow> string" where
  "sanitizeNameComponent v = trim_with is_dash (dashed (lower (trim_space v)) False)"

definition sanitizeJobName :: "string \<Rightarrow> string" where
  "sanitizeJobName name =
     (let short = rstrip_if is_dash (take 63 (lower name)) in if short = [] then ''worker-op'' else short)"

definition shellQuote :: "string \<Rightarrow> string" where
  "shellQuote v = (if v = [] then [CHR 0x27, CHR 0x27]
     else CHR 0x27 # str_replace [CHR 0x27] [CHR 0x27, CHR 0x22, CHR 0x27, CHR 0x22, CHR 0x27] v @ [CHR 0x27])"

definition buildWorkerOperationCommand :: "string \<Rightarrow> string \<Rightarrow> string" where
  "buildWorkerOperationCommand baseCommand targetNodeName =
     (let command = trim_space baseCommand in
      if targetNodeName = [] then command else command @ '' '' @ shellQuote targetNodeName)"

text \<open>\<open>suffix\<close> is the random part of the name.\<close>

definition generateWorkerNodeName :: "string \<Rightarrow> string \<Rightarrow> int \<Rightarrow> string \<Rightarrow> string" where
  "generateWorkerNodeName node_prefix scalerName time suffix_text =
     (let p = sanitizeNameComponent node_prefix; s = sanitizeNameComponent scalerName in
      sanitizeJobName ((if p = [] then ''k3s-worker'' else p) @ ''-'' @ (if s = [] then ''scaler'' else s) @ ''-''
        @ int_str (time div 1000000000) @ ''-'' @ suffix_text))"

section \<open>The worker to delete\<close>

definition isDaemonSetManagedPod :: "Pod \<Rightarrow> bool" where
  "isDaemonSetManagedPod pod = list_ex (\<lambda>(kind, controller). kind = ''DaemonSet'' \<and> controller = Some True) (pod_Owners pod)"

definition pods_on :: "Pod list \<Rightarrow> string \<Rightarrow> nat" where
  "pods_on pods name = length (filter (\<lambda>pod. pod_NodeName pod = name \<and> occupies pod \<and> \<not> isDaemonSetManagedPod pod) pods)"

text \<open>Fewest pods first, then the newest node, then the first name.\<close>

definition deletion_key :: "Pod list \<Rightarrow> Node \<Rightarrow> nat \<times> int \<times> string" where
  "deletion_key pods node = (pods_on pods (node_Name node), - node_CreationUnixNano node, node_Name node)"

definition chooseWorkerNodeForDeletion :: "Node list \<Rightarrow> Pod list \<Rightarrow> string" where
  "chooseWorkerNodeForDeletion nodes pods =
     (case sort_key (deletion_key pods) (filter isNodeReady nodes) of [] \<Rightarrow> [] | node # _ \<Rightarrow> node_Name node)"

definition selectWorkerNodeForDeletion :: "'w k8s \<Rightarrow> WorkerPrototypeSpec \<Rightarrow> ('w, string) go" where
  "selectWorkerNodeForDeletion k spec =
     g_bind (listManagedWorkerNodes k spec) (\<lambda>nodes.
     g_bind (list_pods k) (\<lambda>pods. g_return (chooseWorkerNodeForDeletion nodes pods)))"

section \<open>Following the jobs\<close>

definition isJobSucceeded :: "(string \<times> string) list \<Rightarrow> bool" where
  "isJobSucceeded conditions = list_ex (\<lambda>(kind, status). kind = ''Complete'' \<and> status = ''True'') conditions"

definition isJobFailed :: "(string \<times> string) list \<Rightarrow> bool" where
  "isJobFailed conditions = list_ex (\<lambda>(kind, status). kind = ''Failed'' \<and> status = ''True'') conditions"

definition with_effective :: "WorkerPrototypeStatus \<Rightarrow> WorkerPrototypeStatus" where
  "with_effective s =
     s\<lparr>EffectiveWorkerCount := i32 (i32 (ObservedReadyWorkerCount s + PendingCreateCount s) - PendingDeleteCount s)\<rparr>"

definition rollbackUnstartedWorkerOperations :: "string \<Rightarrow> int \<Rightarrow> WorkerPrototypeStatus \<Rightarrow> WorkerPrototypeStatus" where
  "rollbackUnstartedWorkerOperations operationType amount s =
     (if amount \<le> 0 then s
      else with_effective (
        if operationType = ''create'' then s\<lparr>PendingCreateCount := (let n = min (PendingCreateCount s) amount in
            if 0 < n then i32 (PendingCreateCount s - n) else PendingCreateCount s)\<rparr>
        else if operationType = ''delete'' then s\<lparr>PendingDeleteCount := (let n = min (PendingDeleteCount s) amount in
            if 0 < n then i32 (PendingDeleteCount s - n) else PendingDeleteCount s)\<rparr>
        else s))"

definition rollbackWorkerOperation :: "WorkerOperationStatus \<Rightarrow> WorkerPrototypeStatus \<Rightarrow> WorkerPrototypeStatus" where
  "rollbackWorkerOperation operation =
     rollbackUnstartedWorkerOperations (OperationType operation) (activeOperationRequestedCount operation)"

definition workerOperationTimedOut :: "WorkerOperationStatus \<Rightarrow> int \<Rightarrow> int \<Rightarrow> bool" where
  "workerOperationTimedOut active time timeout =
     (if timeout \<le> 0 then False
      else case (case CommandFinishedAt active of None \<Rightarrow> StartedAt active | Some t \<Rightarrow> Some t) of
          None \<Rightarrow> False
        | Some t \<Rightarrow> timeout \<le> time - t)"

record job_watch =
  watch_Status :: WorkerPrototypeStatus
  watch_CreateBudget :: int
  watch_DeleteBudget :: int
  watch_Remaining :: "WorkerOperationStatus list"

definition acted :: "string \<Rightarrow> string \<Rightarrow> WorkerPrototypeStatus \<Rightarrow> WorkerPrototypeStatus" where
  "acted action reason s = s\<lparr>LastAction := action, LastReason := reason\<rparr>"

definition job_text :: "WorkerOperationStatus \<Rightarrow> string" where
  "job_text active = ''job '' @ JobNamespace active @ ''/'' @ JobName active"

text \<open>An operation whose job has just succeeded starts to wait for the number of ready workers.\<close>

definition command_done :: "int \<Rightarrow> (string \<times> string) list \<Rightarrow> WorkerOperationStatus \<Rightarrow> WorkerOperationStatus" where
  "command_done time conditions active =
     (if isJobSucceeded conditions \<and> Phase active = ''Running''
      then active\<lparr>Phase := ''WaitingForObservation'', CommandFinishedAt := Some time,
        Message := ''command completed; waiting for worker observation''\<rparr>
      else active)"

definition judge_operation :: "int \<Rightarrow> int \<Rightarrow> (string \<times> string) list \<Rightarrow> WorkerOperationStatus \<Rightarrow> job_watch \<Rightarrow> job_watch" where
  "judge_operation timeout time conditions operation v =
     (let s = watch_Status v; active = command_done time conditions operation;
          waits = (Phase active = ''WaitingForObservation''); n = activeOperationRequestedCount active;
          observed = acted ''executor-observed'' (OperationType active @ '' operation reflected in observed worker count'') in
      if isJobFailed conditions
      then v\<lparr>watch_Status := acted ''executor-job-failed'' (job_text operation @ '' failed'') (rollbackWorkerOperation operation s)\<rparr>
      else if waits \<and> OperationType active = ''create'' \<and> 0 < watch_CreateBudget v
      then v\<lparr>watch_CreateBudget := i32 (watch_CreateBudget v - n), watch_Status := observed s\<rparr>
      else if waits \<and> OperationType active = ''delete'' \<and> 0 < watch_DeleteBudget v
      then v\<lparr>watch_DeleteBudget := i32 (watch_DeleteBudget v - n), watch_Status := observed s\<rparr>
      else if waits \<and> workerOperationTimedOut active time timeout
      then v\<lparr>watch_Status := acted ''executor-observation-timeout''
        (OperationType active @ '' operation for node '' @ TargetNodeName active @ '' timed out waiting for worker observation'')
        (rollbackWorkerOperation active s)\<rparr>
      else v\<lparr>watch_Remaining := watch_Remaining v @ [active]\<rparr>)"

fun watch_operations :: "'w k8s \<Rightarrow> int \<Rightarrow> int \<Rightarrow> WorkerOperationStatus list \<Rightarrow> job_watch \<Rightarrow> ('w, job_watch) go" where
  "watch_operations k timeout time [] v = g_return v"
| "watch_operations k timeout time (active # operations) v = (\<lambda>w. case get_job k (JobNamespace active) (JobName active) w of
     (Inl (NotFound t), w') \<Rightarrow> watch_operations k timeout time operations
       (v\<lparr>watch_Status := acted ''executor-missing-job'' (job_text active @ '' was not found'') (rollbackWorkerOperation active (watch_Status v))\<rparr>) w'
   | (Inl (GoError t), w') \<Rightarrow> (Inl (GoError t), w')
   | (Inr conditions, w') \<Rightarrow> watch_operations k timeout time operations (judge_operation timeout time conditions active v) w')"

definition reconcileActiveWorkerOperations ::
  "'w k8s \<Rightarrow> int \<Rightarrow> int \<Rightarrow> WorkerPrototypeStatus option \<Rightarrow> WorkerPrototypeStatus \<Rightarrow> ('w, WorkerPrototypeStatus) go" where
  "reconcileActiveWorkerOperations k timeout time previous s =
     (let operations = cloneActiveOperations (Some s);
          ready_before = (case previous of None \<Rightarrow> 0 | Some p \<Rightarrow> ObservedReadyWorkerCount p) in
      if operations = [] then g_return (syncLegacyActiveOperation s)
      else g_bind (watch_operations k timeout time operations
          \<lparr>watch_Status = s, watch_CreateBudget = max (i32 (ObservedReadyWorkerCount s - ready_before)) 0,
           watch_DeleteBudget = max (i32 (ready_before - ObservedReadyWorkerCount s)) 0, watch_Remaining = []\<rparr>) (\<lambda>v.
        g_return (syncLegacyActiveOperation ((watch_Status v)\<lparr>ActiveOperations := watch_Remaining v\<rparr>))))"

section \<open>Starting operations\<close>

text \<open>The command and the node of an operation; none when there is no worker to delete.\<close>

definition prepareWorkerOperationExecution ::
  "'w k8s \<Rightarrow> WorkerExecutorConfig \<Rightarrow> CustomScaler \<Rightarrow> WorkerPrototypeSpec \<Rightarrow> string \<Rightarrow> int \<Rightarrow> ('w, (string \<times> string) option) go" where
  "prepareWorkerOperationExecution k config customScaler spec operationType time =
     (if operationType = ''create'' then (\<lambda>w. case rand_string k 4 w of (r, w') \<Rightarrow>
        let node = generateWorkerNodeName (we_NodeNamePrefix config) (cs_Name customScaler) time r in
        (Inr (Some (buildWorkerOperationCommand (we_CreateCommand config) node, node)), w'))
      else if operationType = ''delete'' then g_bind (selectWorkerNodeForDeletion k spec) (\<lambda>node.
        g_return (if node = [] then None else Some (buildWorkerOperationCommand (we_DeleteCommand config) node, node)))
      else g_fail (GoError (''unsupported worker operation type: '' @ operationType)))"

text \<open>\<^verbatim>\<open>now.UTC().Format(time.RFC3339)\<close>\<close>

definition rfc3339 :: "int \<Rightarrow> string" where
  "rfc3339 time = iso_seconds (time div 1000) @ ''Z''"

definition buildWorkerOperationJob ::
  "CustomScaler \<Rightarrow> WorkerPrototypeStatus \<Rightarrow> string \<Rightarrow> WorkerExecutorConfig \<Rightarrow> string \<times> string \<Rightarrow> int \<Rightarrow> string \<Rightarrow> Job" where
  "buildWorkerOperationJob customScaler s operationType config execution time suffix_text =
     \<lparr>job_Name = sanitizeJobName (cs_Name customScaler @ ''-worker-'' @ operationType @ ''-'' @ suffix_text),
      job_Namespace = we_Namespace config,
      job_Labels = [(''autoscaling.my.domain/customscaler'', cs_Name customScaler), (''autoscaling.my.domain/worker-op'', operationType),
        (''autoscaling.my.domain/scaler-namespace'', cs_Namespace customScaler)],
      job_TTLSeconds = we_TTLSecondsAfterRun config, job_BackoffLimit = 0, job_Image = we_Image config,
      job_Command = [''/bin/sh'', ''-c'', fst execution],
      job_Env = [(''SCALER_NAME'', Literal (cs_Name customScaler)), (''SCALER_NAMESPACE'', Literal (cs_Namespace customScaler)),
         (''WORKER_OPERATION_TYPE'', Literal operationType), (''WORKER_TARGET_NODE_NAME'', Literal (snd execution)),
         (''WORKER_TARGET_COUNT'', Literal (int_str (TargetWorkerCount s))),
         (''WORKER_OBSERVED_READY_COUNT'', Literal (int_str (ObservedReadyWorkerCount s))),
         (''WORKER_PENDING_CREATE_COUNT'', Literal (int_str (PendingCreateCount s))),
         (''WORKER_PENDING_DELETE_COUNT'', Literal (int_str (PendingDeleteCount s))),
         (''WORKER_EFFECTIVE_COUNT'', Literal (int_str (EffectiveWorkerCount s))),
         (''WORKER_ENSURE_TIME'', Literal (rfc3339 time)), (''SCALER_WORKER_NODE_NAME_PREFIX'', Literal (we_NodeNamePrefix config))]
        @ (if we_SecretName config = [] then []
           else [(''VULTR_API_KEY'', SecretKey (we_SecretName config) ''VULTR_API_KEY''),
             (''K3S_TOKEN'', SecretKey (we_SecretName config) ''K3S_TOKEN'')]),
      job_EnvFrom = (if we_ConfigMapName config = [] then [] else [we_ConfigMapName config]),
      job_ServiceAccount = we_ServiceAccountName config,
      job_SecretMount = (if we_SecretName config = [] then None else Some (we_SecretName config, we_SecretMountPath config))\<rparr>"

text \<open>An operation that is not to be carried out takes its pending count back, one at a time.\<close>

definition give_up :: "string \<Rightarrow> WorkerPrototypeStatus \<Rightarrow> WorkerPrototypeStatus" where
  "give_up operationType s = with_effective (
     if operationType = ''create'' \<and> 0 < PendingCreateCount s then s\<lparr>PendingCreateCount := i32 (PendingCreateCount s - 1)\<rparr>
     else if operationType = ''delete'' \<and> 0 < PendingDeleteCount s then s\<lparr>PendingDeleteCount := i32 (PendingDeleteCount s - 1)\<rparr>
     else s)"

definition started :: "string \<Rightarrow> string \<Rightarrow> Job \<Rightarrow> int \<Rightarrow> WorkerPrototypeStatus \<Rightarrow> WorkerPrototypeStatus" where
  "started operationType node job time s =
     acted ''executor-started'' (operationType @ '' job '' @ job_Namespace job @ ''/'' @ job_Name job @ '' created for node '' @ node)
       (syncLegacyActiveOperation (s\<lparr>ActiveOperations := ActiveOperations s @ [\<lparr>OperationType = operationType, TargetNodeName = node,
          Phase = ''Running'', JobNamespace = job_Namespace job, JobName = job_Name job, RequestedCount = 1,
          Message = ''executor job created'', StartedAt = Some time, CommandFinishedAt = None\<rparr>]\<rparr>))"

definition startWorkerOperation ::
  "'w k8s \<Rightarrow> WorkerExecutorConfig \<Rightarrow> CustomScaler \<Rightarrow> WorkerPrototypeSpec \<Rightarrow> string \<Rightarrow> int \<Rightarrow> WorkerPrototypeStatus
     \<Rightarrow> ('w, WorkerPrototypeStatus) go" where
  "startWorkerOperation k config customScaler spec operationType time s =
     (if \<not> enabledFor config operationType
      then g_return (acted ''executor-disabled'' (operationType @ '' command is not configured'') (give_up operationType s))
      else g_bind (prepareWorkerOperationExecution k config customScaler spec operationType time) (\<lambda>execution.
        case execution of
          None \<Rightarrow> g_return (acted ''executor-no-target'' (''no target node available for '' @ operationType @ '' operation'')
            (give_up operationType s))
        | Some (command, node) \<Rightarrow> (\<lambda>w. case rand_string k 5 w of (r, w') \<Rightarrow>
            let job = buildWorkerOperationJob customScaler s operationType config (command, node) time r in
            g_bind (create_job k job) (\<lambda>_. g_return (started operationType node job time s)) w')))"

definition error_text :: "go_error \<Rightarrow> string" where
  "error_text e = (case e of NotFound t \<Rightarrow> t | GoError t \<Rightarrow> t)"

text \<open>The loop over the operations to start: \<open>n\<close> are left, \<open>count_started\<close> have been started.\<close>

primrec start_loop ::
  "nat \<Rightarrow> int \<Rightarrow> 'w k8s \<Rightarrow> WorkerExecutorConfig \<Rightarrow> CustomScaler \<Rightarrow> WorkerPrototypeSpec \<Rightarrow> string \<Rightarrow> int \<Rightarrow> WorkerPrototypeStatus
     \<Rightarrow> ('w, WorkerPrototypeStatus) go" where
  "start_loop 0 count_started k config customScaler spec operationType time s =
     g_return (syncLegacyActiveOperation (if 1 < count_started
       then acted ''executor-started'' (operationType @ '' jobs started: '' @ int_str count_started) s else s))"
| "start_loop (Suc n) count_started k config customScaler spec operationType time s =
     (\<lambda>w. case startWorkerOperation k config customScaler spec operationType time s w of
        (Inl e, w') \<Rightarrow>
          if count_started = 0 then (Inl e, w')
          else let requested = count_started + 1 + int n in
            (Inr (syncLegacyActiveOperation (acted ''executor-partial-start''
              (''started '' @ int_str count_started @ ''/'' @ int_str requested @ '' '' @ operationType @ '' jobs; last error: '' @ error_text e)
              (rollbackUnstartedWorkerOperations operationType (i32 (requested - count_started)) s))), w')
      | (Inr s', w') \<Rightarrow> start_loop n (count_started + 1) k config customScaler spec operationType time s' w')"

definition startWorkerOperations ::
  "'w k8s \<Rightarrow> WorkerExecutorConfig \<Rightarrow> CustomScaler \<Rightarrow> WorkerPrototypeSpec \<Rightarrow> string \<Rightarrow> int \<Rightarrow> int \<Rightarrow> WorkerPrototypeStatus
     \<Rightarrow> ('w, WorkerPrototypeStatus) go" where
  "startWorkerOperations k config customScaler spec operationType requestedCount time s =
     start_loop (nat requestedCount) 0 k config customScaler spec operationType time s"

definition reconcileWorkerExecutor ::
  "'w k8s \<Rightarrow> WorkerExecutorConfig \<Rightarrow> CustomScaler \<Rightarrow> WorkerPrototypeSpec \<Rightarrow> workerPrototypePlan \<Rightarrow> int \<Rightarrow> ('w, workerPrototypePlan) go" where
  "reconcileWorkerExecutor k config customScaler spec plan time =
     g_bind (reconcileActiveWorkerOperations k (we_ObservationTimeout config) time (WorkerPrototype (cs_Status customScaler)) (plan_Status plan))
       (\<lambda>s. g_bind (if 0 < plan_WorkersToCreate plan
              then startWorkerOperations k config customScaler spec ''create'' (plan_WorkersToCreate plan) time s
            else if 0 < plan_WorkersToDelete plan
              then startWorkerOperations k config customScaler spec ''delete'' (plan_WorkersToDelete plan) time s
            else g_return s) (\<lambda>s. g_return (plan\<lparr>plan_Status := s\<rparr>)))"

text \<open>Not called by any reconciler.\<close>

definition workerObservationSatisfied :: "WorkerPrototypeStatus option \<Rightarrow> WorkerPrototypeStatus option \<Rightarrow> string \<Rightarrow> bool" where
  "workerObservationSatisfied previous current operationType = (case (previous, current) of
     (Some p, Some c) \<Rightarrow>
       if operationType = ''create'' then PendingCreateCount c < PendingCreateCount p \<or> ObservedReadyWorkerCount p < ObservedReadyWorkerCount c
       else if operationType = ''delete'' then PendingDeleteCount c < PendingDeleteCount p \<or> ObservedReadyWorkerCount c < ObservedReadyWorkerCount p
       else False
   | _ \<Rightarrow> False)"

end
