(* ===== verification/PodScaler.thy ===== *)
theory PodScaler
  imports ScalerTypes
begin

text \<open>
  The pod scaler (\<^verbatim>\<open>custom-scaler/internal/controller/customscaler_controller.go\<close>,
  \<^verbatim>\<open>pod_scaling_controller.go\<close>, \<^verbatim>\<open>loop_status.go\<close>): from the forecast and what was observed to the
  replicas of the deployment.
\<close>

section \<open>The request\<close>

definition buildForecastRequestBody :: "'w k8s \<Rightarrow> string \<Rightarrow> go_error + string" where
  "buildForecastRequestBody k contract =
     (let contractID = trim_space contract in
      if contractID = [] then Inl (GoError ''forecast contract id is empty'')
      else Inr ([CHR ''{'', CHR 0x22] @ ''contract_id'' @ [CHR 0x22, CHR '':''] @ marshal_text k contractID @ ''}''))"

definition parseForecastResponse :: "'w k8s \<Rightarrow> string \<Rightarrow> go_error + forecastResponse" where
  "parseForecastResponse k body = res_bind (unmarshal k body) (\<lambda>response.
     if fr_Predictions response = [] then Inl (GoError ''forecast response did not include predictions'') else Inr response)"

section \<open>Demand\<close>

definition maxFloat64 :: "rat list \<Rightarrow> rat" where
  "maxFloat64 values = (case values of [] \<Rightarrow> 0 | v # vs \<Rightarrow> foldl (\<lambda>best x. if best < x then x else best) v vs)"

text \<open>The replicas that carry a load, and the replica demand of a forecast.\<close>

definition replicas_for :: "'w k8s \<Rightarrow> pfloat \<Rightarrow> pfloat \<Rightarrow> int" where
  "replicas_for k effective per_pod = (if pf_lt (Fin 0) per_pod then fl_int32 (beyond_int32 k) (fl_ceil (fl_div effective per_pod)) else 0)"

definition demand_summary :: "'w k8s \<Rightarrow> forecastResponse \<Rightarrow> scalingPolicy \<Rightarrow> replicaDemandSummary" where
  "demand_summary k forecast policy =
     (let requests = maxFloat64 (fr_Predictions forecast);
          effective = (if fr_Predictions forecast = [] then Fin 0 else fl_mul (Fin requests) (SafetyFactor policy));
          request_demand = (if fr_Predictions forecast = [] then 0 else replicas_for k effective (RequestsPerPod policy));
          cpu = maxFloat64 (map row_TotalCPUSecondsPerMinute (fr_PredictionRows forecast));
          effective_cpu = (if fr_PredictionRows forecast = [] then Fin 0 else fl_mul (Fin cpu) (SafetyFactor policy));
          cpu_demand = (if fr_PredictionRows forecast = [] then 0 else replicas_for k effective_cpu (CPUSecondsPerPod policy));
          base = (if request_demand < cpu_demand then cpu_demand else request_demand) in
      \<lparr>PeakRequestsPerMinute = requests, EffectiveRequestsPerMinute = effective, PeakCPUSecondsPerMinute = cpu,
       EffectiveCPUSecondsPerMinute = effective_cpu, RequestReplicaDemand = request_demand, CPUReplicaDemand = cpu_demand,
       BaseReplicaDemand = (if base < 0 then 0 else base),
       DominantSignal = (if request_demand < cpu_demand then ''cpu_seconds_per_minute'' else ''requests_per_minute'')\<rparr>)"

definition calculateDesiredReplicas :: "'w k8s \<Rightarrow> forecastResponse \<Rightarrow> scalingPolicy \<Rightarrow> int \<times> replicaDemandSummary" where
  "calculateDesiredReplicas k forecast policy =
     (let summary = demand_summary k forecast policy; base = BaseReplicaDemand summary;
          spared = (if 0 < base then i32 (base + SparePod policy) else base);
          raised = (if spared < MinReplicas policy then MinReplicas policy else spared);
          capped = (if MaxReplicas policy < raised then MaxReplicas policy else raised) in
      (capped, summary))"

section \<open>What was observed\<close>

definition required_points :: "scalingPolicy \<Rightarrow> int" where
  "required_points policy = (if ReactiveRequiredPoints policy \<le> 0 then 1 else ReactiveRequiredPoints policy)"

text \<open>The loop from the newest point back, over the points that have a value, until it has enough.\<close>

fun recent_scan :: "int \<Rightarrow> rat option list \<Rightarrow> rat list \<Rightarrow> rat list" where
  "recent_scan limit [] values = values"
| "recent_scan limit (point # older) values =
     (if int (length values) < limit
      then recent_scan limit older (case point of None \<Rightarrow> values | Some v \<Rightarrow> values @ [v])
      else values)"

definition recentNonNilValues :: "rat option list \<Rightarrow> int \<Rightarrow> rat list" where
  "recentNonNilValues series limit = (if limit \<le> 0 \<or> series = [] then [] else recent_scan limit (rev series) [])"

definition above_text :: "string \<Rightarrow> string \<Rightarrow> rat \<Rightarrow> pfloat \<Rightarrow> string" where
  "above_text prefix_text relation v threshold = prefix_text @ '': '' @ fixed3 (Fin v) @ relation @ fixed3 threshold"

definition allowScaleDown :: "(string \<Rightarrow> rat option list) \<Rightarrow> scalingPolicy \<Rightarrow> bool \<times> string" where
  "allowScaleDown observed policy =
     (let errors = observed ''app_error_rate''; ingress = observed ''ingress_p99_seconds''; required = required_points policy;
          recent_errors = recentNonNilValues errors required; recent_ingress = recentNonNilValues ingress required in
      if ScaleDownPolicy policy \<noteq> ''safe'' then (True, ''policy-dangerous'')
      else if errors = [] \<or> ingress = [] then (False, ''missing-guardrail-history'')
      else if int (length recent_errors) < required \<or> int (length recent_ingress) < required
        then (False, ''insufficient-guardrail-history'')
      else case find (\<lambda>v. pf_lt (AppErrorRateThreshold policy) (Fin v)) recent_errors of
          Some v \<Rightarrow> (False, above_text ''app_error_rate_above_threshold'' '' > '' v (AppErrorRateThreshold policy))
        | None \<Rightarrow> (case find (\<lambda>v. pf_lt (IngressP99ThresholdSec policy) (Fin v)) recent_ingress of
              Some v \<Rightarrow> (False, above_text ''ingress_p99_above_threshold'' '' > '' v (IngressP99ThresholdSec policy))
            | None \<Rightarrow> (True, ''recent-guardrails-healthy'')))"

definition allowIngressScaleDown :: "(string \<Rightarrow> rat option list) \<Rightarrow> scalingPolicy \<Rightarrow> bool \<times> string" where
  "allowIngressScaleDown observed policy =
     (let ingress = observed ''ingress_p99_seconds''; required = required_points policy;
          recent = recent_scan required (rev ingress) [] in
      if ingress = [] then (False, ''missing-ingress-history'')
      else if int (length recent) < required then (False, ''insufficient-ingress-history'')
      else case find (\<lambda>v. pf_le (IngressP99ThresholdSec policy) (Fin v)) recent of
          Some v \<Rightarrow> (False, above_text ''recent-ingress-p99-not-all-below-threshold'' '' >= '' v (IngressP99ThresholdSec policy))
        | None \<Rightarrow> (True, ''recent-ingress-p99-all-below-threshold''))"

text \<open>A value at an index of both series, where the series have one.\<close>

definition point_at :: "rat option list \<Rightarrow> nat \<Rightarrow> rat option" where
  "point_at series index = (if index < length series then series ! index else None)"

definition triggered :: "scalingPolicy \<Rightarrow> rat option \<times> rat option \<Rightarrow> bool" where
  "triggered policy row =
     ((case fst row of Some v \<Rightarrow> pf_lt (IngressP99ThresholdSec policy) (Fin v) | None \<Rightarrow> False)
      \<or> (case snd row of Some v \<Rightarrow> pf_lt (AppErrorRateThreshold policy) (Fin v) | None \<Rightarrow> False))"

fun pressure_scan :: "scalingPolicy \<Rightarrow> int \<Rightarrow> (rat option \<times> rat option) list \<Rightarrow> int \<Rightarrow> bool \<times> string" where
  "pressure_scan policy required [] collected =
     (if collected < required then (False, ''insufficient-reactive-history'')
      else (True, ''recent-reactive-pressure-all-triggered''))"
| "pressure_scan policy required (row # older) collected =
     (if collected < required
      then if fst row = None \<and> snd row = None then pressure_scan policy required older collected
        else if \<not> triggered policy row then (False, ''recent-reactive-pressure-not-triggered'')
        else pressure_scan policy required older (collected + 1)
      else (True, ''recent-reactive-pressure-all-triggered''))"

definition reactive_rows :: "(string \<Rightarrow> rat option list) \<Rightarrow> (rat option \<times> rat option) list" where
  "reactive_rows observed =
     (let ingress = observed ''ingress_p99_seconds''; errors = observed ''app_error_rate'' in
      map (\<lambda>index. (point_at ingress index, point_at errors index)) (rev [0..<max (length ingress) (length errors)]))"

definition hasSustainedReactivePressure :: "(string \<Rightarrow> rat option list) \<Rightarrow> scalingPolicy \<Rightarrow> bool \<times> string" where
  "hasSustainedReactivePressure observed policy =
     (if observed ''ingress_p99_seconds'' = [] \<and> observed ''app_error_rate'' = [] then (False, ''missing-reactive-history'')
      else pressure_scan policy (required_points policy) (reactive_rows observed) 0)"

definition nextReactivePressureBump :: "int \<Rightarrow> (string \<Rightarrow> rat option list) \<Rightarrow> scalingPolicy \<Rightarrow> int \<times> string" where
  "nextReactivePressureBump currentBump observed policy =
     (let (underPressure, reason) = hasSustainedReactivePressure observed policy;
          up = i32 (currentBump + ReactiveIncreaseStep policy); down = i32 (currentBump - ReactiveDecreaseStep policy) in
      if underPressure
      then (if 0 < ReactiveMaxBump policy \<and> ReactiveMaxBump policy < up then ReactiveMaxBump policy else up, reason)
      else (if down < 0 then 0 else down, reason))"

section \<open>The decision\<close>

text \<open>
  The replicas of a cycle: what the forecast asks for, with the bump of the pressure and no more
  than the largest number, kept at the present number when scaling down is not safe.
\<close>

record pod_decision =
  pd_Summary :: replicaDemandSummary
  pd_NextBump :: int
  pd_PressureReason :: string
  pd_ReplicaBump :: int
  pd_CurrentReplicas :: int
  pd_ProposedReplicas :: int
  pd_DesiredReplicas :: int
  pd_ScaleDownAllowed :: bool
  pd_ScaleDownReason :: string

definition with_bump :: "scalingPolicy \<Rightarrow> int \<Rightarrow> int \<Rightarrow> int" where
  "with_bump policy replica_bump desired =
     (if 0 < replica_bump
      then let raised = i32 (desired + replica_bump) in if MaxReplicas policy < raised then MaxReplicas policy else raised
      else desired)"

definition decide :: "'w k8s \<Rightarrow> scalingPolicy \<Rightarrow> int \<Rightarrow> forecastResponse \<Rightarrow> int \<Rightarrow> pod_decision" where
  "decide k policy currentBump forecast currentReplicas =
     (let (nextBump, reason) = nextReactivePressureBump currentBump (fr_Observed forecast) policy;
          (desired, summary) = calculateDesiredReplicas k forecast policy;
          replicaBump = i32 (nextBump * ReactiveReplicaStep policy);
          proposed = with_bump policy replicaBump desired;
          (allowed, downReason) = (if proposed < currentReplicas then allowScaleDown (fr_Observed forecast) policy
            else (True, ''not-applicable'')) in
      \<lparr>pd_Summary = summary, pd_NextBump = nextBump, pd_PressureReason = reason, pd_ReplicaBump = replicaBump,
       pd_CurrentReplicas = currentReplicas, pd_ProposedReplicas = proposed,
       pd_DesiredReplicas = (if allowed then proposed else currentReplicas),
       pd_ScaleDownAllowed = allowed, pd_ScaleDownReason = downReason\<rparr>)"

definition buildLastPodLoopStatus :: "CustomScaler \<Rightarrow> forecastResponse \<Rightarrow> string \<Rightarrow> string \<Rightarrow> pod_decision \<Rightarrow> int \<Rightarrow> PodScalerLoopStatus" where
  "buildLastPodLoopStatus customScaler forecast requestBody responseBody d observedAt =
     \<lparr>pl_ObservedAt = observedAt,
      pl_TargetDeployment = spec_DeploymentName (cs_Spec customScaler),
      pl_ForecastContractID = fr_ContractID forecast,
      pl_ForecastModelName = fr_ModelName forecast,
      pl_ForecastModelVersion = fr_ModelVersion forecast,
      pl_ForecastRemoteContract = fr_RemoteContract forecast,
      pl_ForecastRemoteEndpoint = fr_RemoteEndpoint forecast,
      pl_ForecastFeatureMetrics = fr_FeatureMetrics forecast,
      pl_ForecastStepSeconds = i32 (fr_StepSeconds forecast),
      pl_ForecastGeneratedAt = fr_GeneratedAt forecast,
      pl_ForecastPredictionCount = i32 (int (length (fr_Predictions forecast))),
      pl_ForecastPredictionRowsCount = i32 (int (length (fr_PredictionRows forecast))),
      pl_ForecastRequiredHistoryRows = i32 (fr_RequiredHistoryRows forecast),
      pl_ForecastProvidedHistoryRows = i32 (fr_ProvidedHistoryRows forecast),
      pl_ForecastBufferedHistoryRows = i32 (fr_BufferedHistoryRows forecast),
      pl_ForecastRequestPayload = requestBody,
      pl_ForecastResponseBody = responseBody,
      pl_Summary = pd_Summary d,
      pl_CurrentReactivePressureBump = ReactivePressureBump (cs_Status customScaler),
      pl_NextReactivePressureBump = pd_NextBump d,
      pl_ReactivePressureReason = pd_PressureReason d,
      pl_ReactivePressureReplicaBump = pd_ReplicaBump d,
      pl_CurrentReplicas = pd_CurrentReplicas d,
      pl_ProposedReplicas = pd_ProposedReplicas d,
      pl_DesiredReplicas = pd_DesiredReplicas d,
      pl_ScaleDownAllowed = pd_ScaleDownAllowed d,
      pl_ScaleDownReason = pd_ScaleDownReason d,
      pl_AppliedScale = (pd_CurrentReplicas d \<noteq> pd_DesiredReplicas d)\<rparr>"

section \<open>The cycle\<close>

text \<open>The status always changes: a loop's snapshot is always there.\<close>

definition patchPodScalingStatus :: "'w k8s \<Rightarrow> CustomScaler \<Rightarrow> pod_decision \<Rightarrow> PodScalerLoopStatus \<Rightarrow> ('w, unit) go" where
  "patchPodScalingStatus k customScaler d lastLoop = patch_status k (customScaler\<lparr>cs_Status := (cs_Status customScaler)\<lparr>
     LastForecastPeak := PeakRequestsPerMinute (pd_Summary d),
     LastEffectiveRequestsPerMinute := EffectiveRequestsPerMinute (pd_Summary d),
     LastDesiredReplicas := pd_DesiredReplicas d, CurrentReplicas := pd_DesiredReplicas d,
     ReactivePressureBump := pd_NextBump d, ReactivePressureReason := pd_PressureReason d, LastPodLoop := Some lastLoop\<rparr>\<rparr>)"

text \<open>\<^verbatim>\<open>http.StatusOK\<close> up to, not including, \<^verbatim>\<open>http.StatusMultipleChoices\<close>\<close>

definition fetch_forecast :: "'w k8s \<Rightarrow> string \<Rightarrow> string \<Rightarrow> ('w, string \<times> forecastResponse) go" where
  "fetch_forecast k url body =
     g_bind (http_post k url body) (\<lambda>(code, answer).
     if code < 200 \<or> 300 \<le> code then g_fail (GoError ''Forecasting service returned non-success status'')
     else g_bind (of_result answer) (\<lambda>responseBody.
       g_bind (of_result (parseForecastResponse k responseBody)) (\<lambda>forecast. g_return (responseBody, forecast))))"

definition scale_pods :: "'w k8s \<Rightarrow> CustomScaler \<Rightarrow> forecastResponse \<Rightarrow> string \<Rightarrow> string \<Rightarrow> scalingPolicy \<Rightarrow> Deployment \<Rightarrow> ('w, unit) cycle" where
  "scale_pods k customScaler forecast body responseBody policy deployment =
     (let current = (case dep_Replicas deployment of None \<Rightarrow> 1 | Some n \<Rightarrow> n);
          d = decide k policy (ReactivePressureBump (cs_Status customScaler)) forecast current in
     c_bind (if pd_CurrentReplicas d \<noteq> pd_DesiredReplicas d
       then or_give (update_deployment k (deployment\<lparr>dep_Replicas := Some (pd_DesiredReplicas d)\<rparr>)) else c_return ()) (\<lambda>_.
     c_bind (\<lambda>w. (Inr (clock_now k w), w)) (\<lambda>observedAt.
     or_log (patchPodScalingStatus k customScaler d
       (buildLastPodLoopStatus customScaler forecast body responseBody d observedAt)))))"

definition pod_cycle :: "'w k8s \<Rightarrow> ScalingDefaults \<Rightarrow> string \<Rightarrow> CustomScaler \<Rightarrow> ('w, unit) cycle" where
  "pod_cycle k policy_defaults contract customScaler =
     (let spec = cs_Spec customScaler; policy = scalingPolicyFor policy_defaults spec in
     c_bind (or_log (of_result (buildForecastRequestBody k contract))) (\<lambda>body.
     c_bind (or_log (fetch_forecast k (spec_URL spec) body)) (\<lambda>(responseBody, forecast).
     c_bind (or_log (get_deployment k (cs_Namespace customScaler) (spec_DeploymentName spec))) (\<lambda>deployment.
     scale_pods k customScaler forecast body responseBody policy deployment))))"

definition pod_Reconcile :: "'w k8s \<Rightarrow> ScalingDefaults \<Rightarrow> string \<Rightarrow> 'w \<Rightarrow> reconcile_result \<times> 'w" where
  "pod_Reconcile k policy_defaults contract w = (case get_scaler k w of
     (Inl e, w') \<Rightarrow> ((0, ignore_not_found e), w')
   | (Inr customScaler, w') \<Rightarrow> (case pod_cycle k policy_defaults contract customScaler w' of
       (r, w'') \<Rightarrow> ((cycle_result (pollingInterval (spec_IntervalMinutes (cs_Spec customScaler))) r, w''))))"

section \<open>Code that no reconciler calls\<close>

definition forecastDeploymentName :: "CustomScalerSpec \<Rightarrow> string" where
  "forecastDeploymentName spec =
     (let name = spec_DeploymentName spec; tail = ''-deployment'';
          trimmed = (if suffix tail name then take (length name - length tail) name else name) in
      if spec_ForecastDeployment spec \<noteq> [] then spec_ForecastDeployment spec else if trimmed \<noteq> [] then trimmed else name)"

definition reconcileIngressDeployment :: "'w k8s \<Rightarrow> (string \<Rightarrow> rat option list) \<Rightarrow> scalingPolicy \<Rightarrow> int \<Rightarrow> ('w, unit) go" where
  "reconcileIngressDeployment k observed policy observedReadyWorkers =
     (if IngressDeploymentName policy = [] \<or> IngressReplicasPerWorker policy \<le> 0 then g_return ()
      else g_bind (get_deployment k (IngressDeploymentNS policy) (IngressDeploymentName policy)) (\<lambda>ingress.
        let desired = i32 (observedReadyWorkers * IngressReplicasPerWorker policy);
            current = (case dep_Replicas ingress of None \<Rightarrow> 1 | Some n \<Rightarrow> n) in
        if desired < current \<and> \<not> fst (allowIngressScaleDown observed policy) then g_return ()
        else if desired = current then g_return ()
        else update_deployment k (ingress\<lparr>dep_Replicas := Some desired\<rparr>)))"

section \<open>Recent points\<close>

text \<open>The values of a series from the newest back.\<close>

definition newest_values :: "rat option list \<Rightarrow> rat list" where
  "newest_values series = map the (filter (\<lambda>p. p \<noteq> None) (rev series))"

lemma recent_scan_take:
  "int (length vs) \<le> limit \<Longrightarrow> recent_scan limit points vs
     = vs @ take (nat limit - length vs) (map the (filter (\<lambda>p. p \<noteq> None) points))"
proof (induction limit points vs rule: recent_scan.induct)
  case (1 limit vs)
  then show ?case by simp
next
  case (2 limit point older vs)
  show ?case
  proof (cases "int (length vs) < limit")
    case True
    then have n: "nat limit - length vs = Suc (nat limit - Suc (length vs))" by linarith
    from True show ?thesis using 2 n by (cases point) simp_all
  next
    case False
    with "2.prems" have "nat limit - length vs = 0" by linarith
    with False show ?thesis by simp
  qed
qed

lemma recentNonNilValues_take: "recentNonNilValues series limit = take (nat limit) (newest_values series)"
  using recent_scan_take [of "[]" limit "rev series"]
  by (cases "limit \<le> 0 \<or> series = []") (auto simp: recentNonNilValues_def newest_values_def)

lemma required_points_pos: "0 < required_points policy"
  by (simp add: required_points_def)

lemma find_None_all: "find P xs = None \<longleftrightarrow> (\<forall>x \<in> set xs. \<not> P x)"
  by (auto simp: find_None_iff)

lemma find_SomeD: "find P xs = Some x \<Longrightarrow> x \<in> set xs \<and> P x"
  by (auto simp: find_Some_iff)

text \<open>Scaling down is safe: the policy does not ask, or there are enough recent points and none is above its threshold.\<close>

definition healthy :: "(string \<Rightarrow> rat option list) \<Rightarrow> scalingPolicy \<Rightarrow> bool" where
  "healthy observed policy \<longleftrightarrow>
     (let n = nat (required_points policy); errors = newest_values (observed ''app_error_rate'');
          ingress = newest_values (observed ''ingress_p99_seconds'') in
      n \<le> length errors \<and> n \<le> length ingress
      \<and> (\<forall>v \<in> set (take n errors). \<not> pf_lt (AppErrorRateThreshold policy) (Fin v))
      \<and> (\<forall>v \<in> set (take n ingress). \<not> pf_lt (IngressP99ThresholdSec policy) (Fin v)))"

lemma short_recent: "int (length (take (nat n) xs)) < n \<longleftrightarrow> length xs < nat n" if "0 < n"
  using that by (auto simp: min_def)

lemma allowScaleDown_iff:
  "fst (allowScaleDown observed policy) \<longleftrightarrow> ScaleDownPolicy policy \<noteq> ''safe'' \<or> healthy observed policy"
proof -
  let ?n = "required_points policy"
  have n: "0 < ?n" by (rule required_points_pos)
  have missing: "\<not> healthy observed policy" if "observed ''app_error_rate'' = [] \<or> observed ''ingress_p99_seconds'' = []"
    using that n by (auto simp: healthy_def Let_def newest_values_def)
  show ?thesis
    using missing
    unfolding allowScaleDown_def Let_def recentNonNilValues_take short_recent [OF n]
    by (auto simp: healthy_def Let_def find_None_all not_less split: option.split dest!: find_SomeD)
qed

section \<open>Sustained pressure\<close>

text \<open>The points of the two series taken together, newest first, without those that have no value.\<close>

definition valued_rows :: "(string \<Rightarrow> rat option list) \<Rightarrow> (rat option \<times> rat option) list" where
  "valued_rows observed = filter (\<lambda>row. fst row \<noteq> None \<or> snd row \<noteq> None) (reactive_rows observed)"

lemma pressure_scan_iff:
  "0 \<le> collected \<Longrightarrow> fst (pressure_scan policy required rows collected) \<longleftrightarrow>
     (let valued = filter (\<lambda>row. fst row \<noteq> None \<or> snd row \<noteq> None) rows; n = nat (required - collected) in
      n \<le> length valued \<and> (\<forall>row \<in> set (take n valued). triggered policy row))"
proof (induction policy required rows collected rule: pressure_scan.induct)
  case (1 policy required collected)
  then show ?case by auto
next
  case (2 policy required row older collected)
  show ?case
  proof (cases "collected < required")
    case True
    then have n: "nat (required - collected) = Suc (nat (required - (collected + 1)))" by linarith
    from True show ?thesis using 2 n by (auto simp: Let_def)
  next
    case False
    then show ?thesis by simp
  qed
qed

lemma hasSustainedReactivePressure_iff:
  "fst (hasSustainedReactivePressure observed policy) \<longleftrightarrow>
     (let n = nat (required_points policy) in n \<le> length (valued_rows observed)
        \<and> (\<forall>row \<in> set (take n (valued_rows observed)). triggered policy row))"
proof (cases "observed ''ingress_p99_seconds'' = [] \<and> observed ''app_error_rate'' = []")
  case True
  then have "valued_rows observed = []" by (simp add: valued_rows_def reactive_rows_def Let_def)
  with True required_points_pos [of policy] show ?thesis by (simp add: hasSustainedReactivePressure_def Let_def)
next
  case False
  then have "hasSustainedReactivePressure observed policy = pressure_scan policy (required_points policy) (reactive_rows observed) 0"
    unfolding hasSustainedReactivePressure_def by (rule if_not_P)
  then show ?thesis by (simp add: pressure_scan_iff valued_rows_def Let_def)
qed

section \<open>Bounds\<close>

lemma nextReactivePressureBump_range:
  assumes "0 \<le> level" "level \<le> b" "0 < ReactiveIncreaseStep p" "0 < ReactiveDecreaseStep p"
    and "b + ReactiveIncreaseStep p < 2147483648" and "ReactiveDecreaseStep p < 2147483648"
    and "0 < ReactiveMaxBump p \<and> ReactiveMaxBump p \<le> b \<or> level + ReactiveIncreaseStep p \<le> b"
  shows "0 \<le> fst (nextReactivePressureBump level observed p)"
    and "fst (nextReactivePressureBump level observed p) \<le> b"
    and "fst (nextReactivePressureBump level observed p) \<le> level + ReactiveIncreaseStep p"
proof -
  have "i32 (level + ReactiveIncreaseStep p) = level + ReactiveIncreaseStep p"
    "i32 (level - ReactiveDecreaseStep p) = level - ReactiveDecreaseStep p"
    using assms by (simp_all add: i32_id)
  then show "0 \<le> fst (nextReactivePressureBump level observed p)"
    "fst (nextReactivePressureBump level observed p) \<le> b"
    "fst (nextReactivePressureBump level observed p) \<le> level + ReactiveIncreaseStep p"
    using assms by (auto simp: nextReactivePressureBump_def Let_def split: prod.split)
qed

lemma calculateDesiredReplicas_range:
  "MinReplicas p \<le> MaxReplicas p \<Longrightarrow> MinReplicas p \<le> fst (calculateDesiredReplicas k f p)
     \<and> fst (calculateDesiredReplicas k f p) \<le> MaxReplicas p"
  by (simp add: calculateDesiredReplicas_def Let_def)

lemma with_bump_range:
  assumes "low \<le> n" "n \<le> MaxReplicas p" "low \<le> MaxReplicas p" "MaxReplicas p + b < 2147483648" "0 < low"
  shows "low \<le> with_bump p b n" and "with_bump p b n \<le> MaxReplicas p"
proof -
  have "i32 (n + b) = n + b" if "0 < b" using that assms by (simp add: i32_id)
  then show "low \<le> with_bump p b n" "with_bump p b n \<le> MaxReplicas p"
    using assms by (auto simp: with_bump_def Let_def)
qed

text \<open>The decisions of successive cycles, each starting from the bump that the last one left.\<close>

fun decisions :: "'w k8s \<Rightarrow> scalingPolicy \<Rightarrow> int \<Rightarrow> (forecastResponse \<times> int) list \<Rightarrow> pod_decision list" where
  "decisions k p level [] = []"
| "decisions k p level ((forecast, current) # cycles) =
     (let d = decide k p level forecast current in d # decisions k p (pd_NextBump d) cycles)"

lemma decide_simps:
  "pd_NextBump (decide k p level f c) = fst (nextReactivePressureBump level (fr_Observed f) p)"
  "pd_ReplicaBump (decide k p level f c) = i32 (pd_NextBump (decide k p level f c) * ReactiveReplicaStep p)"
  "pd_ProposedReplicas (decide k p level f c)
     = with_bump p (pd_ReplicaBump (decide k p level f c)) (fst (calculateDesiredReplicas k f p))"
  "pd_CurrentReplicas (decide k p level f c) = c"
  "pd_DesiredReplicas (decide k p level f c) =
     (if pd_ProposedReplicas (decide k p level f c) < c \<and> \<not> fst (allowScaleDown (fr_Observed f) p) then c
      else pd_ProposedReplicas (decide k p level f c))"
  by (simp_all add: decide_def Let_def split: prod.splits)

text \<open>How far the bump can rise in a number of cycles: to the largest one where the policy sets one (0 is none), or by
  a step in each.  While it is below \<open>b\<close>, neither it nor the replicas it adds pass the range of int32.\<close>

definition bump_limit :: "scalingPolicy \<Rightarrow> int \<Rightarrow> nat \<Rightarrow> int" where
  "bump_limit p level n =
     (if 0 < ReactiveMaxBump p then max level (ReactiveMaxBump p) else level + int n * ReactiveIncreaseStep p)"

definition no_wrap :: "scalingPolicy \<Rightarrow> int \<Rightarrow> bool" where
  "no_wrap p b \<longleftrightarrow> b + ReactiveIncreaseStep p < 2147483648 \<and> ReactiveDecreaseStep p < 2147483648
     \<and> MaxReplicas p + b * ReactiveReplicaStep p < 2147483648"

lemma decide_range:
  assumes ok: "policy_ok p" and room: "no_wrap p b" and level: "0 \<le> level" "level \<le> b"
    and up: "0 < ReactiveMaxBump p \<and> ReactiveMaxBump p \<le> b \<or> level + ReactiveIncreaseStep p \<le> b"
  shows "0 \<le> pd_NextBump (decide k p level f c) \<and> pd_NextBump (decide k p level f c) \<le> b"
    and "pd_NextBump (decide k p level f c) \<le> level + ReactiveIncreaseStep p"
    and "MinReplicas p \<le> pd_ProposedReplicas (decide k p level f c) \<and> pd_ProposedReplicas (decide k p level f c) \<le> MaxReplicas p"
proof -
  let ?b = "pd_NextBump (decide k p level f c)"
  have steps: "0 < ReactiveIncreaseStep p" "0 < ReactiveDecreaseStep p" "b + ReactiveIncreaseStep p < 2147483648"
    "ReactiveDecreaseStep p < 2147483648" using ok room by (simp_all add: policy_ok_def no_wrap_def)
  note r = nextReactivePressureBump_range [OF level steps up]
  show b: "0 \<le> ?b \<and> ?b \<le> b" and "?b \<le> level + ReactiveIncreaseStep p" unfolding decide_simps(1) using r by simp_all
  have step: "0 \<le> ReactiveReplicaStep p" "0 < MinReplicas p" "MinReplicas p \<le> MaxReplicas p" using ok by (simp_all add: policy_ok_def)
  then have "0 \<le> ?b * ReactiveReplicaStep p" "?b * ReactiveReplicaStep p \<le> b * ReactiveReplicaStep p"
    using b by (simp_all add: mult_right_mono)
  with room step have "MaxReplicas p + i32 (?b * ReactiveReplicaStep p) < 2147483648"
    by (simp add: no_wrap_def i32_id)
  moreover have "MinReplicas p \<le> fst (calculateDesiredReplicas k f p) \<and> fst (calculateDesiredReplicas k f p) \<le> MaxReplicas p"
    using step(3) by (rule calculateDesiredReplicas_range)
  ultimately show "MinReplicas p \<le> pd_ProposedReplicas (decide k p level f c) \<and> pd_ProposedReplicas (decide k p level f c) \<le> MaxReplicas p"
    using step unfolding decide_simps(2,3) by (auto intro!: with_bump_range)
qed

lemma decisions_range:
  assumes "policy_ok p" "no_wrap p b" "0 \<le> level" "level \<le> b"
    and "0 < ReactiveMaxBump p \<and> ReactiveMaxBump p \<le> b \<or> level + int (length cycles) * ReactiveIncreaseStep p \<le> b"
    and "d \<in> set (decisions k p level cycles)"
  shows "0 \<le> pd_NextBump d \<and> pd_NextBump d \<le> b
    \<and> MinReplicas p \<le> pd_ProposedReplicas d \<and> pd_ProposedReplicas d \<le> MaxReplicas p
    \<and> (pd_DesiredReplicas d = pd_ProposedReplicas d
       \<or> pd_ProposedReplicas d < pd_CurrentReplicas d \<and> pd_DesiredReplicas d = pd_CurrentReplicas d)"
  using assms
proof (induction k p level cycles rule: decisions.induct)
  case (2 k p level forecast current cycles)
  let ?d = "decide k p level forecast current"
  have pos: "0 \<le> int (length cycles) * ReactiveIncreaseStep p" using "2.prems"(1) by (simp add: policy_ok_def)
  then have "0 < ReactiveMaxBump p \<and> ReactiveMaxBump p \<le> b \<or> level + ReactiveIncreaseStep p \<le> b"
    using "2.prems"(5) by (auto simp: distrib_right)
  note r = decide_range [OF "2.prems"(1-4) this, of k forecast current]
  have later: "0 < ReactiveMaxBump p \<and> ReactiveMaxBump p \<le> b \<or> pd_NextBump ?d + int (length cycles) * ReactiveIncreaseStep p \<le> b"
    using "2.prems"(5) r(2) by (auto simp: distrib_right)
  from "2.prems"(6) consider "d = ?d" | "d \<in> set (decisions k p (pd_NextBump ?d) cycles)" by (auto simp: Let_def)
  then show ?case
  proof cases
    case 1
    with r show ?thesis by (auto simp: decide_simps(4,5))
  next
    case 2
    then show ?thesis using "2.IH" [OF refl "2.prems"(1,2) _ _ later] r(1) by blast
  qed
qed simp

lemma bump_limit_enough:
  assumes "policy_ok p"
  shows "level \<le> bump_limit p level n"
    and "0 < ReactiveMaxBump p \<and> ReactiveMaxBump p \<le> bump_limit p level n \<or> level + int n * ReactiveIncreaseStep p \<le> bump_limit p level n"
  using assms by (auto simp: bump_limit_def policy_ok_def)

section \<open>A completed cycle\<close>

lemma fetch_forecast_Inr:
  assumes "fetch_forecast k url body w = (Inr (raw, forecast), w')"
  shows "\<exists>code. http_post k url body w = (Inr (code, Inr raw), w') \<and> 200 \<le> code \<and> code < 300
     \<and> unmarshal k raw = Inr forecast \<and> fr_Predictions forecast \<noteq> []"
proof -
  from assms obtain code answer w1 where post: "http_post k url body w = (Inr (code, answer), w1)"
    and rest: "(if code < 200 \<or> 300 \<le> code then g_fail (GoError ''Forecasting service returned non-success status'')
      else g_bind (of_result answer) (\<lambda>responseBody. g_bind (of_result (parseForecastResponse k responseBody))
        (\<lambda>forecast. g_return (responseBody, forecast)))) w1 = (Inr (raw, forecast), w')"
    unfolding fetch_forecast_def by (elim g_bindE) auto
  have code: "200 \<le> code" "code < 300"
    using rest by (auto simp: not_less [symmetric] simp del: not_less intro: ccontr split: if_splits)
  with rest have "g_bind (of_result answer) (\<lambda>responseBody. g_bind (of_result (parseForecastResponse k responseBody))
        (\<lambda>forecast. g_return (responseBody, forecast))) w1 = (Inr (raw, forecast), w')" by simp
  then have "answer = Inr raw" "parseForecastResponse k raw = Inr forecast" "w1 = w'"
    by (auto simp: g_bind_Inr_iff)
  then show ?thesis using post code by (auto simp: parseForecastResponse_def res_bind_Inr_iff split: if_splits)
qed

lemma pod_cycle_Inr:
  assumes "pod_cycle k defs contract cs w = (Inr (), w')"
  shows "\<exists>code raw forecast deployment d body w1 w2 w3. http_post k (spec_URL (cs_Spec cs)) body w = (Inr (code, Inr raw), w1)
     \<and> 200 \<le> code \<and> code < 300 \<and> unmarshal k raw = Inr forecast \<and> fr_Predictions forecast \<noteq> []
     \<and> get_deployment k (cs_Namespace cs) (spec_DeploymentName (cs_Spec cs)) w1 = (Inr deployment, w2)
     \<and> d = decide k (scalingPolicyFor defs (cs_Spec cs)) (ReactivePressureBump (cs_Status cs)) forecast
         (case dep_Replicas deployment of None \<Rightarrow> 1 | Some n \<Rightarrow> n)
     \<and> (if pd_CurrentReplicas d = pd_DesiredReplicas d then w3 = w2
        else update_deployment k (deployment\<lparr>dep_Replicas := Some (pd_DesiredReplicas d)\<rparr>) w2 = (Inr (), w3))
     \<and> patchPodScalingStatus k cs d (buildLastPodLoopStatus cs forecast body raw d (clock_now k w3)) w3 = (Inr (), w')"
proof -
  from assms obtain body raw forecast deployment w1 w2 where
    fetched: "fetch_forecast k (spec_URL (cs_Spec cs)) body w = (Inr (raw, forecast), w1)"
    and got: "get_deployment k (cs_Namespace cs) (spec_DeploymentName (cs_Spec cs)) w1 = (Inr deployment, w2)"
    and scaled: "scale_pods k cs forecast body raw (scalingPolicyFor defs (cs_Spec cs)) deployment w2 = (Inr (), w')"
    unfolding pod_cycle_def Let_def by (elim c_bindE) (auto elim!: c_bindE)
  define d where "d = decide k (scalingPolicyFor defs (cs_Spec cs)) (ReactivePressureBump (cs_Status cs)) forecast
         (case dep_Replicas deployment of None \<Rightarrow> 1 | Some n \<Rightarrow> n)"
  from scaled obtain w3 where updated: "(if pd_CurrentReplicas d \<noteq> pd_DesiredReplicas d
       then or_give (update_deployment k (deployment\<lparr>dep_Replicas := Some (pd_DesiredReplicas d)\<rparr>)) else c_return ()) w2 = (Inr (), w3)"
    and patched: "patchPodScalingStatus k cs d (buildLastPodLoopStatus cs forecast body raw d (clock_now k w3)) w3 = (Inr (), w')"
    unfolding scale_pods_def Let_def d_def [symmetric] by (elim c_bindE) auto
  from updated have "if pd_CurrentReplicas d = pd_DesiredReplicas d then w3 = w2
      else update_deployment k (deployment\<lparr>dep_Replicas := Some (pd_DesiredReplicas d)\<rparr>) w2 = (Inr (), w3)"
    by (auto split: if_splits)
  with fetch_forecast_Inr [OF fetched] got patched d_def show ?thesis by blast
qed

section \<open>A small cluster\<close>

text \<open>A world that holds the replicas of the deployment; the service answers with one prediction and healthy or bad points.\<close>

definition demo_spec :: CustomScalerSpec where
  "demo_spec = \<lparr>spec_URL = ''u'', spec_DeploymentName = ''d'', spec_ForecastDeployment = [], spec_IntervalMinutes = 1,
     spec_RequestsPerPod = None, spec_SafetyFactor = Some (Fin 1), spec_SparePod = None, spec_MinReplicas = None,
     spec_MaxReplicas = None, spec_WorkerPrototype = None\<rparr>"

definition demo_scaler :: CustomScaler where
  "demo_scaler = \<lparr>cs_Name = ''s'', cs_Namespace = ''n'', cs_Spec = demo_spec,
     cs_Status = \<lparr>LastForecastPeak = 0, LastEffectiveRequestsPerMinute = Fin 0, LastDesiredReplicas = 0, CurrentReplicas = 0,
       ReactivePressureBump = 0, ReactivePressureReason = [], LastPodLoop = None, LastNodeLoop = None, WorkerPrototype = None\<rparr>\<rparr>"

definition demo_forecast :: forecastResponse where
  "demo_forecast = \<lparr>fr_Deployment = ''d'', fr_ContractID = ''c'', fr_TargetMetric = [], fr_FeatureMetrics = [], fr_StepSeconds = 60,
     fr_Predictions = [50], fr_PredictionRows = [], fr_Observed = \<lambda>name. [Some 0, None, Some 0], fr_ModelName = [],
     fr_ModelVersion = [], fr_GeneratedAt = [], fr_RemoteEndpoint = [], fr_RemoteContract = [], fr_RequiredHistoryRows = 0,
     fr_ProvidedHistoryRows = 0, fr_BufferedHistoryRows = 0\<rparr>"

definition demo_k8s :: "int \<Rightarrow> int k8s" where
  "demo_k8s code = \<lparr>get_scaler = g_return demo_scaler,
     get_deployment = \<lambda>ns name replicas. (Inr \<lparr>dep_Namespace = ns, dep_Name = name, dep_Replicas = Some replicas,
       dep_Selector = Inr (\<lambda>l. True)\<rparr>, replicas),
     update_deployment = \<lambda>d replicas. (Inr (), case dep_Replicas d of None \<Rightarrow> replicas | Some n \<Rightarrow> n),
     patch_status = \<lambda>cs. g_return (), list_nodes = g_return [], list_pods = g_return [], list_pods_in = \<lambda>ns sel. g_return [],
     get_job = \<lambda>ns name. g_return [], create_job = \<lambda>job. g_return (), http_post = \<lambda>url body. g_return (code, Inr ''{}''),
     marshal_text = \<lambda>s. s, unmarshal = \<lambda>body. Inr demo_forecast, clock_now = \<lambda>w. 0, rand_string = \<lambda>n w. (replicate n CHR ''x'', w),
     beyond_int32 = \<lambda>x. 0\<rparr>"

definition safe_defaults :: ScalingDefaults where
  "safe_defaults = built_in\<lparr>ScaleDownPolicy := ''safe''\<rparr>"

section \<open>Properties\<close>



text \<open>C8: a cycle that ends well and lowers the replicas under the policy "safe" has seen at least the required
  number of recent error rates and of recent latencies, none of them above its threshold.\<close>

theorem scale_down_only_when_healthy:
  assumes "pod_cycle k defs contract cs w = (Inr (), w')"
    and "ScaleDownPolicy (scalingPolicyFor defs (cs_Spec cs)) = ''safe''"
  shows "\<exists>code raw body forecast deployment d w1 w2 w3.
       http_post k (spec_URL (cs_Spec cs)) body w = (Inr (code, Inr raw), w1) \<and> unmarshal k raw = Inr forecast
     \<and> get_deployment k (cs_Namespace cs) (spec_DeploymentName (cs_Spec cs)) w1 = (Inr deployment, w2)
     \<and> pd_CurrentReplicas d = (case dep_Replicas deployment of None \<Rightarrow> 1 | Some n \<Rightarrow> n)
     \<and> (if pd_CurrentReplicas d = pd_DesiredReplicas d then w3 = w2
        else update_deployment k (deployment\<lparr>dep_Replicas := Some (pd_DesiredReplicas d)\<rparr>) w2 = (Inr (), w3))
     \<and> (pd_DesiredReplicas d < pd_CurrentReplicas d
          \<longrightarrow> healthy (fr_Observed forecast) (scalingPolicyFor defs (cs_Spec cs)))
     \<and> patchPodScalingStatus k cs d (buildLastPodLoopStatus cs forecast body raw d (clock_now k w3)) w3 = (Inr (), w')"
proof -
  from pod_cycle_Inr [OF assms(1)] obtain code raw forecast deployment d body w1 w2 w3 where
    seen: "http_post k (spec_URL (cs_Spec cs)) body w = (Inr (code, Inr raw), w1)" "unmarshal k raw = Inr forecast"
    "get_deployment k (cs_Namespace cs) (spec_DeploymentName (cs_Spec cs)) w1 = (Inr deployment, w2)"
    and d: "d = decide k (scalingPolicyFor defs (cs_Spec cs)) (ReactivePressureBump (cs_Status cs)) forecast
         (case dep_Replicas deployment of None \<Rightarrow> 1 | Some n \<Rightarrow> n)"
    and updated: "if pd_CurrentReplicas d = pd_DesiredReplicas d then w3 = w2
        else update_deployment k (deployment\<lparr>dep_Replicas := Some (pd_DesiredReplicas d)\<rparr>) w2 = (Inr (), w3)"
    and patched: "patchPodScalingStatus k cs d (buildLastPodLoopStatus cs forecast body raw d (clock_now k w3)) w3 = (Inr (), w')"
    by (elim exE conjE)
  have current: "pd_CurrentReplicas d = (case dep_Replicas deployment of None \<Rightarrow> 1 | Some n \<Rightarrow> n)"
    unfolding d by (rule decide_simps(4))
  have "healthy (fr_Observed forecast) (scalingPolicyFor defs (cs_Spec cs))" if "pd_DesiredReplicas d < pd_CurrentReplicas d"
    using that assms(2) unfolding d decide_simps(4,5) allowScaleDown_iff by (auto split: if_splits)
  with seen current updated patched show ?thesis by (intro exI conjI impI)
qed

theorem scale_down_only_when_healthy_witness:
  "\<exists>d w3. pd_CurrentReplicas d = 9 \<and> (pd_DesiredReplicas d < 9 \<longrightarrow> healthy (fr_Observed demo_forecast) (scalingPolicyFor safe_defaults demo_spec))
     \<and> patchPodScalingStatus (demo_k8s 200) demo_scaler d (buildLastPodLoopStatus demo_scaler demo_forecast [] [] d 0) w3 = (Inr (), 3)"
proof -
  have run: "pod_cycle (demo_k8s 200) safe_defaults ''c'' demo_scaler 9 = (Inr (), 3)"
    and safe: "ScaleDownPolicy (scalingPolicyFor safe_defaults (cs_Spec demo_scaler)) = ''safe''" by code_simp+
  from scale_down_only_when_healthy [OF run safe] show ?thesis
    by (auto simp: demo_k8s_def demo_scaler_def patchPodScalingStatus_def)
qed

text \<open>An answer without a usable forecast: none at all, a status other than success, a body that cannot be read or
  decoded, or one without predictions.\<close>

definition unusable :: "(string \<Rightarrow> go_error + forecastResponse) \<Rightarrow> go_error + (int \<times> (go_error + string)) \<Rightarrow> bool" where
  "unusable parse answer \<longleftrightarrow> (case answer of
     Inl e \<Rightarrow> True
   | Inr (code, body) \<Rightarrow> code < 200 \<or> 300 \<le> code \<or> (case body of
       Inl e \<Rightarrow> True
     | Inr text_read \<Rightarrow> (case parse text_read of Inl e \<Rightarrow> True | Inr forecast \<Rightarrow> fr_Predictions forecast = [])))"

lemma unusable_fails:
  assumes "http_post k url body w = (answer, w')" "unusable (unmarshal k) answer"
  shows "\<exists>e. fetch_forecast k url body w = (Inl e, w')"
  using assms by (auto simp: fetch_forecast_def g_bind_def unusable_def of_result_def parseForecastResponse_def g_fail_def res_bind_def
      split: sum.splits prod.splits if_splits)

text \<open>C26: a cycle that gets no usable forecast changes neither the deployment nor the status: all it does is the
  request, and it is tried again after the interval.\<close>

theorem no_forecast_changes_nothing:
  assumes "get_scaler k w = (Inr cs, w1)" and "buildForecastRequestBody k contract = Inr body"
    and "http_post k (spec_URL (cs_Spec cs)) body w1 = (answer, w2)" and "unusable (unmarshal k) answer"
  shows "pod_Reconcile k defs contract w = ((pollingInterval (spec_IntervalMinutes (cs_Spec cs)), None), w2)"
proof -
  from unusable_fails [OF assms(3,4)] obtain e where "fetch_forecast k (spec_URL (cs_Spec cs)) body w1 = (Inl e, w2)" ..
  then have "pod_cycle k defs contract cs w1 = (Inl Logged, w2)"
    unfolding pod_cycle_def Let_def using assms(2) by (simp add: c_bind_def or_log_def)
  then show ?thesis using assms(1) by (simp add: pod_Reconcile_def cycle_result_def)
qed

text \<open>A service that answers with a forecast without predictions.\<close>

definition empty_k8s :: "int k8s" where
  "empty_k8s = (demo_k8s 200)\<lparr>unmarshal := \<lambda>body. Inr (demo_forecast\<lparr>fr_Predictions := []\<rparr>)\<rparr>"

theorem no_forecast_changes_nothing_witness:
  "pod_Reconcile empty_k8s safe_defaults ''c'' 9 = ((60000000000, None), 9)"
proof -
  have "get_scaler empty_k8s 9 = (Inr demo_scaler, 9)" by (simp add: demo_k8s_def empty_k8s_def)
  moreover obtain body where "buildForecastRequestBody empty_k8s ''c'' = Inr body"
    by (simp add: buildForecastRequestBody_def trim_space_def trim_with_def rstrip_if_def go_space_def)
  moreover obtain answer where answer: "http_post empty_k8s (spec_URL (cs_Spec demo_scaler)) body 9
      = (answer, 9)" "unusable (unmarshal empty_k8s) answer"
    by (simp add: empty_k8s_def demo_k8s_def unusable_def)
  ultimately show ?thesis
    using no_forecast_changes_nothing [of empty_k8s 9 demo_scaler 9 "''c''" body answer]
    by (simp add: demo_scaler_def demo_spec_def pollingInterval_def i64_def)
qed

text \<open>Pressure is sustained exactly when, among the points at which the latency or the error rate has a value,
  there are as many as required and each of the newest ones has one of the two above its threshold.\<close>

theorem pressure_is_recent_points:
  "fst (hasSustainedReactivePressure observed policy) \<longleftrightarrow>
     nat (required_points policy) \<le> length (valued_rows observed)
     \<and> list_all (triggered policy) (take (nat (required_points policy)) (valued_rows observed))"
  by (simp add: hasSustainedReactivePressure_iff Let_def list_all_iff)

end
