(* ===== verification/WorkerJobs.thy ===== *)
theory WorkerJobs
  imports WorkerExecutor PodScaler
begin

text \<open>
  What the operator's jobs are told (\<^verbatim>\<open>custom-scaler/internal/controller/worker_executor.go\<close>): the
  quoting of the node's name against a reading of it by the shell, the form of the generated
  names, the worker that is chosen for deletion, and what is reported of jobs that were not started.
\<close>

section \<open>Quoting\<close>

text \<open>A word as the shell reads it: what is between quotes is taken as it is.  Double quotes are read only around
  characters that have no meaning between them.\<close>

datatype quoting = Plain | Single | Double

definition kept_in_double :: "char \<Rightarrow> bool" where
  "kept_in_double c \<longleftrightarrow> c \<noteq> CHR 0x22 \<and> c \<noteq> CHR ''$'' \<and> c \<noteq> CHR 0x60 \<and> c \<noteq> CHR 0x5C"

fun shell_word :: "quoting \<Rightarrow> string \<Rightarrow> string option" where
  "shell_word q [] = (if q = Plain then Some [] else None)"
| "shell_word Plain (c # cs) =
     (if c = CHR 0x27 then shell_word Single cs
      else if c = CHR 0x22 then shell_word Double cs
      else None)"
| "shell_word Single (c # cs) =
     (if c = CHR 0x27 then shell_word Plain cs else map_option (Cons c) (shell_word Single cs))"
| "shell_word Double (c # cs) =
     (if c = CHR 0x22 then shell_word Plain cs
      else if kept_in_double c then map_option (Cons c) (shell_word Double cs)
      else None)"

lemma shell_word_replaced:
  "shell_word Single (str_replace [CHR 0x27] [CHR 0x27, CHR 0x22, CHR 0x27, CHR 0x22, CHR 0x27] v @ [CHR 0x27]) = Some v"
  by (induction v) (simp_all add: starts_with_def kept_in_double_def)

text \<open>C40: the shell reads a quoted name as that name, whatever its characters.\<close>

theorem quoted_name_is_read_back:
  "shell_word Plain (shellQuote v) = Some v"
  by (simp add: shellQuote_def shell_word_replaced del: str_replace.simps)

section \<open>Names\<close>

definition label_char :: "char \<Rightarrow> bool" where
  "label_char c \<longleftrightarrow> is_alnum c \<or> c = CHR ''-''"

text \<open>What Kubernetes accepts as a label: lower case letters, digits and dashes between letters or digits, at most 63.\<close>

definition is_label :: "string \<Rightarrow> bool" where
  "is_label s \<longleftrightarrow> s \<noteq> [] \<and> length s \<le> 63 \<and> list_all label_char s \<and> is_alnum (hd s) \<and> is_alnum (last s)"

lemma alnum_lower: "label_char c \<Longrightarrow> lower_char c = c"
  by (auto simp: label_char_def is_alnum_def lower_char_def Let_def)

lemma labels_lower: "list_all label_char s \<Longrightarrow> lower s = s"
  by (induction s) (simp_all add: lower_def alnum_lower)

lemma dash_no_alnum: "label_char c \<Longrightarrow> is_alnum c \<longleftrightarrow> c \<noteq> CHR ''-''"
  by (auto simp: label_char_def is_alnum_def)

lemma dashed_chars: "list_all label_char (dashed s b)"
  by (induction s b rule: dashed.induct) (simp_all add: label_char_def)

lemma list_all_prefix: "prefix s t \<Longrightarrow> list_all P t \<Longrightarrow> list_all P s"
  by (auto simp: prefix_def)

lemma sanitizeNameComponent_chars: "list_all label_char (sanitizeNameComponent v)"
proof -
  have "list_all label_char (dropWhile is_dash (dashed (lower (trim_space v)) False))"
    using dashed_chars by (auto simp: list_all_iff dest: set_dropWhileD)
  then show ?thesis
    unfolding sanitizeNameComponent_def trim_with_def by (rule list_all_prefix [OF rstrip_if_prefix])
qed

lemma sanitizeNameComponent_head:
  assumes "sanitizeNameComponent v \<noteq> []"
  shows "is_alnum (hd (sanitizeNameComponent v))"
proof -
  let ?d = "dropWhile is_dash (dashed (lower (trim_space v)) False)"
  have p: "prefix (sanitizeNameComponent v) ?d" by (simp add: sanitizeNameComponent_def trim_with_def rstrip_if_prefix)
  with assms have hd: "hd (sanitizeNameComponent v) = hd ?d" and ne: "?d \<noteq> []"
    by (metis hd_append2 prefix_def, metis prefix_bot.extremum_uniqueI)
  have "hd ?d \<noteq> CHR ''-''" by (rule hd_dropWhile [OF ne])
  moreover have "label_char (hd (sanitizeNameComponent v))"
    using sanitizeNameComponent_chars [of v] assms by (cases "sanitizeNameComponent v") simp_all
  ultimately show ?thesis using hd by (simp add: dash_no_alnum)
qed

lemma int_str_labels: "list_all label_char (int_str n)"
  using int_str_chars [of _ n] by (auto simp: list_all_iff label_char_def is_alnum_def is_digit_def Let_def)

lemma sanitizeJobName_label:
  assumes "list_all label_char s" "s \<noteq> []" "is_alnum (hd s)"
  shows "is_label (sanitizeJobName s)"
proof -
  let ?t = "take 63 s" let ?r = "rstrip_if is_dash ?t"
  obtain c cs where s: "s = c # cs" using assms(2) by (cases s) auto
  have c: "c \<noteq> CHR ''-''" using assms(1,3) s dash_no_alnum by auto
  have t: "?t = c # take 62 cs" by (simp add: s)
  have p: "prefix ?r ?t" by (rule rstrip_if_prefix)
  have ne: "?r \<noteq> []"
  proof
    assume "?r = []"
    then have "\<forall>d \<in> set ?t. is_dash d" by (auto simp: rstrip_if_def dropWhile_eq_Nil_conv)
    with c t show False by simp
  qed
  have hd: "hd ?r = c" using p ne t by (cases ?r) auto
  have chars: "list_all label_char ?r"
    using list_all_prefix [OF p] list_all_prefix [OF take_is_prefix assms(1)] by blast
  have "length ?r \<le> 63" using prefix_length_le [OF p] by simp
  moreover have "is_alnum (last ?r)"
    using rstrip_if_last [OF ne] chars ne dash_no_alnum by (metis last_in_set list_all_iff)
  ultimately have "is_label ?r" using ne chars hd assms(3) s by (simp add: is_label_def)
  then show ?thesis using ne by (simp add: sanitizeJobName_def Let_def labels_lower [OF assms(1)])
qed

text \<open>A generated name is a label, whatever the settings and the name of the scaler.\<close>

theorem node_name_is_label:
  assumes "list_all is_alnum suffix_text"
  shows "is_label (generateWorkerNodeName node_prefix scaler time suffix_text)"
proof -
  define p where "p = (if sanitizeNameComponent node_prefix = [] then ''k3s-worker'' else sanitizeNameComponent node_prefix)"
  define s where "s = (if sanitizeNameComponent scaler = [] then ''scaler'' else sanitizeNameComponent scaler)"
  have "list_all label_char p" "p \<noteq> []" "is_alnum (hd p)"
    using sanitizeNameComponent_chars [of node_prefix] sanitizeNameComponent_head [of node_prefix]
    by (simp_all add: p_def label_char_def is_alnum_def)
  moreover have "list_all label_char s" using sanitizeNameComponent_chars [of scaler] by (simp add: s_def label_char_def is_alnum_def)
  moreover have "list_all label_char suffix_text" using assms by (auto simp: list_all_iff label_char_def)
  ultimately show ?thesis
    unfolding generateWorkerNodeName_def Let_def p_def [symmetric] s_def [symmetric]
    by (intro sanitizeJobName_label) (simp_all add: int_str_labels label_char_def)
qed

theorem node_name_is_label_witness:
  "is_label (generateWorkerNodeName ''My Workers!'' ''shop'' 5000000000 ''x7k2'')"
  by (rule node_name_is_label) code_simp

lemma sanitizeJobName_long: "63 \<le> length b \<Longrightarrow> sanitizeJobName (b @ x) = sanitizeJobName b"
  by (simp add: sanitizeJobName_def lower_def)

text \<open>Once the settings and the scaler's name fill a label, nothing is left of the time and of the random text: every
  worker of the scaler is given the same name, and every job of a kind.\<close>

theorem long_names_are_not_unique:
  assumes "sanitizeNameComponent node_prefix \<noteq> []" and "sanitizeNameComponent scaler \<noteq> []"
    and "62 \<le> length (sanitizeNameComponent node_prefix) + length (sanitizeNameComponent scaler)"
  shows "generateWorkerNodeName node_prefix scaler time1 suffix1 = generateWorkerNodeName node_prefix scaler time2 suffix2"
proof -
  let ?b = "sanitizeNameComponent node_prefix @ ''-'' @ sanitizeNameComponent scaler"
  have "63 \<le> length ?b" using assms(3) by simp
  note long = sanitizeJobName_long [OF this]
  show ?thesis
    using assms(1,2) long [of "''-'' @ int_str (time1 div 1000000000) @ ''-'' @ suffix1"]
      long [of "''-'' @ int_str (time2 div 1000000000) @ ''-'' @ suffix2"] by (simp add: generateWorkerNodeName_def Let_def)
qed

definition long_name :: string where
  "long_name = replicate 52 CHR ''s''"

theorem long_names_are_not_unique_witness:
  "generateWorkerNodeName ''k3s-worker'' long_name 0 ''aaaa'' = generateWorkerNodeName ''k3s-worker'' long_name 1000000000 ''bbbb''"
proof (rule long_names_are_not_unique)
  have "length (sanitizeNameComponent ''k3s-worker'') = 10" "length (sanitizeNameComponent long_name) = 52" by code_simp+
  then show "sanitizeNameComponent ''k3s-worker'' \<noteq> []" "sanitizeNameComponent long_name \<noteq> []"
    "62 \<le> length (sanitizeNameComponent ''k3s-worker'') + length (sanitizeNameComponent long_name)" by force+
qed

section \<open>The worker to delete\<close>

text \<open>\<open>a\<close> is deleted rather than \<open>b\<close>: fewer pods, then younger, then the first by name.\<close>

definition goes_before :: "Pod list \<Rightarrow> Node \<Rightarrow> Node \<Rightarrow> bool" where
  "goes_before pods a b \<longleftrightarrow> pods_on pods (node_Name a) < pods_on pods (node_Name b)
     \<or> pods_on pods (node_Name a) = pods_on pods (node_Name b) \<and> (node_CreationUnixNano b < node_CreationUnixNano a
       \<or> node_CreationUnixNano a = node_CreationUnixNano b \<and> node_Name a < node_Name b)"

lemma goes_before_key: "goes_before pods a b \<longleftrightarrow> deletion_key pods a < deletion_key pods b"
  by (auto simp: goes_before_def deletion_key_def less_prod_def less_le)

lemma chooseWorkerNodeForDeletion_least:
  assumes "filter isNodeReady nodes \<noteq> []"
  obtains node where "node \<in> set nodes" "isNodeReady node" "chooseWorkerNodeForDeletion nodes pods = node_Name node"
    "\<And>other. other \<in> set nodes \<Longrightarrow> isNodeReady other \<Longrightarrow> \<not> goes_before pods other node"
proof -
  let ?sorted = "sort_key (deletion_key pods) (filter isNodeReady nodes)"
  have "length ?sorted = length (filter isNodeReady nodes)" by simp
  with assms obtain node rest where s: "?sorted = node # rest" by (metis length_0_conv list.exhaust)
  have "set ?sorted = set (filter isNodeReady nodes)" by simp
  then have "node \<in> set nodes" "isNodeReady node" unfolding s by auto
  moreover have "chooseWorkerNodeForDeletion nodes pods = node_Name node" by (simp add: chooseWorkerNodeForDeletion_def s)
  moreover have "\<not> goes_before pods other node" if "other \<in> set nodes" "isNodeReady other" for other
  proof -
    have "other \<in> set ?sorted" using that by simp
    moreover have "sorted (map (deletion_key pods) ?sorted)" by (rule sorted_sort_key)
    ultimately show ?thesis unfolding s goes_before_key by (auto simp: not_less)
  qed
  ultimately show ?thesis using that by blast
qed

text \<open>C25: the worker that is chosen for deletion is ready, and no ready one goes before it; none is chosen
  when none is ready.\<close>

theorem chosen_worker_goes_first:
  "if filter isNodeReady nodes = [] then chooseWorkerNodeForDeletion nodes pods = []
   else list_ex (\<lambda>node. isNodeReady node \<and> chooseWorkerNodeForDeletion nodes pods = node_Name node
     \<and> filter (\<lambda>other. isNodeReady other \<and> goes_before pods other node) nodes = []) nodes"
proof (cases "filter isNodeReady nodes = []")
  case True
  then show ?thesis by (simp add: chooseWorkerNodeForDeletion_def)
next
  case False
  from chooseWorkerNodeForDeletion_least [OF this, of pods] obtain node where
    node: "node \<in> set nodes" "isNodeReady node" "chooseWorkerNodeForDeletion nodes pods = node_Name node"
      "\<And>other. other \<in> set nodes \<Longrightarrow> isNodeReady other \<Longrightarrow> \<not> goes_before pods other node" by metis
  have "filter (\<lambda>other. isNodeReady other \<and> goes_before pods other node) nodes = []"
    using node(4) by (auto simp: filter_empty_conv)
  with node(1-3) have "list_ex (\<lambda>node. isNodeReady node \<and> chooseWorkerNodeForDeletion nodes pods = node_Name node
     \<and> filter (\<lambda>other. isNodeReady other \<and> goes_before pods other node) nodes = []) nodes" unfolding list_ex_iff by blast
  then show ?thesis unfolding if_not_P [OF False] .
qed

section \<open>What is reported\<close>

text \<open>Every operation that a loop of deletions starts is aimed at the node that was chosen first, as long as what is
  listed does not change.\<close>

definition same_cluster :: "'w k8s \<Rightarrow> Node list \<Rightarrow> Pod list \<Rightarrow> bool" where
  "same_cluster k nodes pods \<longleftrightarrow> (\<forall>w. fst (list_nodes k w) = Inr nodes \<and> fst (list_pods k w) = Inr pods)"

lemma select_same_cluster:
  assumes "same_cluster k nodes pods"
  obtains w' where "selectWorkerNodeForDeletion k spec w = (Inr (chooseWorkerNodeForDeletion (filter (managed_worker spec) nodes) pods), w')"
proof -
  obtain w1 where 1: "list_nodes k w = (Inr nodes, w1)" using assms unfolding same_cluster_def by (metis prod.collapse)
  obtain w2 where 2: "list_pods k w1 = (Inr pods, w2)" using assms unfolding same_cluster_def by (metis prod.collapse)
  show ?thesis
    by (rule that [of w2]) (simp add: selectWorkerNodeForDeletion_def listManagedWorkerNodes_def g_bind_def g_return_def 1 2)
qed

lemma status_fields [simp]:
  "ActiveOperations (acted a r s) = ActiveOperations s" "LastAction (acted a r s) = a" "LastReason (acted a r s) = r"
  "ActiveOperations (syncLegacyActiveOperation s) = ActiveOperations s" "LastAction (syncLegacyActiveOperation s) = LastAction s"
  "LastReason (syncLegacyActiveOperation s) = LastReason s" "ActiveOperations (give_up kind s) = ActiveOperations s"
  by (simp_all add: acted_def syncLegacyActiveOperation_def give_up_def with_effective_def)

lemma start_deletion:
  assumes "enabledFor config ''delete''" and "same_cluster k nodes pods" and "\<forall>job w. fst (create_job k job w) = Inr ()"
    and "chooseWorkerNodeForDeletion (filter (managed_worker spec) nodes) pods = node" and "node \<noteq> []"
  shows "\<exists>s' w'. startWorkerOperation k config cs spec ''delete'' time s w = (Inr s', w')
     \<and> map TargetNodeName (ActiveOperations s') = map TargetNodeName (ActiveOperations s) @ [node]"
proof -
  from select_same_cluster [OF assms(2), of spec w] obtain w1 where
    sel: "selectWorkerNodeForDeletion k spec w = (Inr node, w1)" unfolding assms(4) .
  have prep: "prepareWorkerOperationExecution k config cs spec ''delete'' time w
      = (Inr (Some (buildWorkerOperationCommand (we_DeleteCommand config) node, node)), w1)"
    using sel assms(5) by (simp add: prepareWorkerOperationExecution_def)
  obtain r w2 where r: "rand_string k 5 w1 = (r, w2)" by (rule prod.exhaust)
  define job where "job = buildWorkerOperationJob cs s ''delete'' config (buildWorkerOperationCommand (we_DeleteCommand config) node, node) time r"
  obtain w3 where job: "create_job k job w2 = (Inr (), w3)" using assms(3) by (metis prod.collapse)
  have "startWorkerOperation k config cs spec ''delete'' time s w = (Inr (started ''delete'' node job time s), w3)"
    unfolding startWorkerOperation_def using assms(1) job
    by (simp add: g_bind_def prep r Let_def job_def)
  moreover have "map TargetNodeName (ActiveOperations (started ''delete'' node job time s))
      = map TargetNodeName (ActiveOperations s) @ [node]" by (simp add: started_def)
  ultimately show ?thesis by blast
qed

lemma start_deletions:
  assumes "enabledFor config ''delete''" and "same_cluster k nodes pods" and "\<forall>job w. fst (create_job k job w) = Inr ()"
    and "chooseWorkerNodeForDeletion (filter (managed_worker spec) nodes) pods = node" and "node \<noteq> []"
  shows "\<exists>s' w'. start_loop n c k config cs spec ''delete'' time s w = (Inr s', w')
     \<and> map TargetNodeName (ActiveOperations s') = map TargetNodeName (ActiveOperations s) @ replicate n node"
proof (induction n arbitrary: c s w)
  case 0
  then show ?case by simp
next
  case (Suc n)
  from start_deletion [OF assms, of cs time s w] obtain s1 w1 where
    1: "startWorkerOperation k config cs spec ''delete'' time s w = (Inr s1, w1)"
      "map TargetNodeName (ActiveOperations s1) = map TargetNodeName (ActiveOperations s) @ [node]" by blast
  from Suc [of "c + 1" s1 w1] show ?case using 1 by simp
qed

text \<open>C39: deletions that are started together are all aimed at the same worker: one is deleted, however many the
  plan asked for.\<close>

theorem deletions_share_their_target:
  assumes "enabledFor config ''delete''" and "same_cluster k nodes pods" and "\<forall>job w. fst (create_job k job w) = Inr ()"
    and "chooseWorkerNodeForDeletion (filter (managed_worker spec) nodes) pods = node" and "node \<noteq> []"
  shows "\<exists>s' w'. startWorkerOperations k config cs spec ''delete'' requested time s w = (Inr s', w')
     \<and> map TargetNodeName (ActiveOperations s') = map TargetNodeName (ActiveOperations s) @ replicate (nat requested) node"
  unfolding startWorkerOperations_def by (rule start_deletions [OF assms])

lemma start_disabled:
  assumes "\<not> enabledFor config kind"
  shows "\<exists>s'. start_loop n c k config cs spec kind time s w = (Inr s', w) \<and> ActiveOperations s' = ActiveOperations s
     \<and> (1 < c + int n \<longrightarrow> LastAction s' = ''executor-started'' \<and> LastReason s' = kind @ '' jobs started: '' @ int_str (c + int n))"
proof (induction n arbitrary: c s)
  case 0
  then show ?case by simp
next
  case (Suc n)
  let ?s = "acted ''executor-disabled'' (kind @ '' command is not configured'') (give_up kind s)"
  have "startWorkerOperation k config cs spec kind time s w = (Inr ?s, w)" using assms by (simp add: startWorkerOperation_def)
  moreover have n: "c + 1 + int n = c + int (Suc n)" by simp
  ultimately show ?case using Suc [of "c + 1" ?s, unfolded n] by (simp del: of_nat_Suc)
qed

definition demo_workers :: WorkerPrototypeSpec where
  "demo_workers = \<lparr>wps_TargetWorkerCount = None, wps_MaxBatchSize = None, wps_NodeLabelKey = [], wps_NodeLabelValue = []\<rparr>"

definition no_commands :: WorkerExecutorConfig where
  "no_commands = LoadWorkerExecutorConfigFromEnv (\<lambda>v. None)"

definition demo_status :: WorkerPrototypeStatus where
  "demo_status = \<lparr>TargetWorkerCount = 0, ObservedReadyWorkerCount = 2, PendingCreateCount = 0, PendingDeleteCount = 2,
     EffectiveWorkerCount = 0, LastAction = [], LastReason = [], LastEnsureTime = None, ActiveOperations = [], ActiveOperation = None\<rparr>"

theorem deletions_share_their_target_witness:
  "\<exists>s' w'. startWorkerOperations ((demo_k8s 200)\<lparr>list_nodes := g_return [demo_node ''a'' 600, demo_node ''b'' 600]\<rparr>)
       (no_commands\<lparr>we_DeleteCommand := ''delete''\<rparr>) demo_scaler demo_workers ''delete'' 2 0 demo_status 0 = (Inr s', w')
     \<and> map TargetNodeName (ActiveOperations s') = [''a'', ''a'']"
proof -
  let ?nodes = "[demo_node ''a'' 600, demo_node ''b'' 600]"
  have enabled: "enabledFor (no_commands\<lparr>we_DeleteCommand := ''delete''\<rparr>) ''delete''" by code_simp
  have choice: "chooseWorkerNodeForDeletion (filter (managed_worker demo_workers) ?nodes) [] = ''a''" by code_simp
  have same: "same_cluster ((demo_k8s 200)\<lparr>list_nodes := g_return ?nodes\<rparr>) ?nodes []"
    and created: "\<forall>job w. fst (create_job ((demo_k8s 200)\<lparr>list_nodes := g_return ?nodes\<rparr>) job w) = Inr ()"
    by (simp_all add: same_cluster_def demo_k8s_def)
  have "''a'' \<noteq> []" "ActiveOperations demo_status = []" by (simp_all add: demo_status_def)
  with deletions_share_their_target [OF enabled same created choice, of demo_scaler 2 0 demo_status 0]
  show ?thesis by (simp add: numeral_2_eq_2)
qed

text \<open>When no command is configured for two or more operations, none of them becomes active, and all of them
  are reported as started.\<close>

theorem disabled_jobs_reported_started:
  assumes "\<not> enabledFor config kind" and "1 < requested"
  shows "\<exists>s'. startWorkerOperations k config cs spec kind requested time s w = (Inr s', w)
     \<and> ActiveOperations s' = ActiveOperations s \<and> LastAction s' = ''executor-started''
     \<and> LastReason s' = kind @ '' jobs started: '' @ int_str requested"
  using start_disabled [OF assms(1), of "nat requested" 0 k cs spec time s w] assms(2) by (simp add: startWorkerOperations_def)

theorem disabled_jobs_reported_started_witness:
  "\<forall>k :: unit k8s. \<exists>s'. startWorkerOperations k no_commands demo_scaler demo_workers ''create'' 2 0 demo_status () = (Inr s', ())
     \<and> ActiveOperations s' = [] \<and> LastReason s' = ''create jobs started: 2''"
proof
  fix k :: "unit k8s"
  have "\<not> enabledFor no_commands ''create''" "(1::int) < 2" by code_simp+
  moreover have "''create'' @ '' jobs started: '' @ int_str 2 = ''create jobs started: 2''" "ActiveOperations demo_status = []" by code_simp+
  ultimately show "\<exists>s'. startWorkerOperations k no_commands demo_scaler demo_workers ''create'' 2 0 demo_status () = (Inr s', ())
     \<and> ActiveOperations s' = [] \<and> LastReason s' = ''create jobs started: 2''"
    using disabled_jobs_reported_started [of no_commands "''create''" 2 k demo_scaler demo_workers 0 demo_status "()"] by metis
qed

end
