(* ===== verification/NodeScaler.thy ===== *)
theory NodeScaler
  imports WorkerJobs
begin

text \<open>
  The node scaler (\<^verbatim>\<open>custom-scaler/internal/controller/node_scaling_controller.go\<close>,
  \<^verbatim>\<open>loop_status.go\<close>): a target for the workers, a plan, its execution, and the status that the next
  cycle starts from.
\<close>

section \<open>The cycle\<close>

definition buildLastNodeLoopStatus :: "CustomScaler \<Rightarrow> workerPrototypePlan \<Rightarrow> workerTargetComputation \<Rightarrow> int \<Rightarrow> NodeScalerLoopStatus" where
  "buildLastNodeLoopStatus customScaler plan target time =
     (let s = plan_Status plan in
      \<lparr>nl_ObservedAt = time, nl_TargetDeployment = spec_DeploymentName (cs_Spec customScaler), nl_Target = target,
       nl_TargetWorkerCount = TargetWorkerCount s, nl_ObservedReadyWorkers = ObservedReadyWorkerCount s,
       nl_PendingCreateWorkers = PendingCreateCount s, nl_PendingDeleteWorkers = PendingDeleteCount s,
       nl_EffectiveWorkers = EffectiveWorkerCount s, nl_WorkersToCreate = plan_WorkersToCreate plan,
       nl_WorkersToDelete = plan_WorkersToDelete plan, nl_LastAction = LastAction s, nl_LastReason = LastReason s,
       nl_ActiveOperations = cloneActiveOperations (Some s)\<rparr>)"

text \<open>A snapshot of the loop is there whenever a plan is, so that the status is always written.\<close>

definition patchWorkerPrototypeStatus ::
  "'w k8s \<Rightarrow> CustomScaler \<Rightarrow> workerPrototypePlan \<Rightarrow> NodeScalerLoopStatus \<Rightarrow> ('w, unit) go" where
  "patchWorkerPrototypeStatus k customScaler plan lastLoop = patch_status k (customScaler\<lparr>cs_Status := (cs_Status customScaler)\<lparr>
     WorkerPrototype := Some (plan_Status plan), LastNodeLoop := Some lastLoop\<rparr>\<rparr>)"

definition desired_for_workers :: "CustomScaler \<Rightarrow> Deployment \<Rightarrow> int" where
  "desired_for_workers customScaler deployment =
     (let n = LastDesiredReplicas (cs_Status customScaler) in
      if n = 0 then (case dep_Replicas deployment of Some r \<Rightarrow> r | None \<Rightarrow> n) else n)"

definition node_cycle ::
  "'w k8s \<Rightarrow> WorkerCapacityDefaults \<Rightarrow> WorkerExecutorConfig \<Rightarrow> WorkerPrototypeSpec \<Rightarrow> CustomScaler \<Rightarrow> ('w, unit) cycle" where
  "node_cycle k capacity config spec customScaler =
     c_bind (or_log (get_deployment k (cs_Namespace customScaler) (spec_DeploymentName (cs_Spec customScaler)))) (\<lambda>deployment.
     c_bind (\<lambda>w. (Inr (clock_now k w), w)) (\<lambda>time.
     c_bind (or_log (reconcileWorkerPrototype k capacity (we_MaxConcurrentCreateOps config) (we_MaxConcurrentDeleteOps config)
       customScaler deployment (desired_for_workers customScaler deployment) time)) (\<lambda>planned. case planned of
         None \<Rightarrow> c_return ()
       | Some (plan, target) \<Rightarrow>
           c_bind (or_log (reconcileWorkerExecutor k config customScaler spec plan time)) (\<lambda>plan.
           or_log (patchWorkerPrototypeStatus k customScaler plan (buildLastNodeLoopStatus customScaler plan target time))))))"

definition node_Reconcile :: "'w k8s \<Rightarrow> WorkerCapacityDefaults \<Rightarrow> WorkerExecutorConfig \<Rightarrow> 'w \<Rightarrow> reconcile_result \<times> 'w" where
  "node_Reconcile k capacity config w = (case get_scaler k w of
     (Inl e, w') \<Rightarrow> ((0, ignore_not_found e), w')
   | (Inr customScaler, w') \<Rightarrow>
       (let requeueAfter = pollingInterval (spec_IntervalMinutes (cs_Spec customScaler)) in
        case spec_WorkerPrototype (cs_Spec customScaler) of
          None \<Rightarrow> ((requeueAfter, None), w')
        | Some spec \<Rightarrow> (case node_cycle k capacity config spec customScaler w' of
            (r, w'') \<Rightarrow> (cycle_result requeueAfter r, w''))))"

text \<open>One round for the workers: the plan for what is ready, and its execution.\<close>

definition worker_round ::
  "'w k8s \<Rightarrow> WorkerExecutorConfig \<Rightarrow> CustomScaler \<Rightarrow> WorkerPrototypeSpec \<Rightarrow> int \<Rightarrow> int \<Rightarrow> int \<Rightarrow> int \<Rightarrow> WorkerPrototypeStatus option
     \<Rightarrow> ('w, WorkerPrototypeStatus) go" where
  "worker_round k config customScaler spec target unschedulable observed time current =
     g_bind (reconcileWorkerExecutor k config (customScaler\<lparr>cs_Status := (cs_Status customScaler)\<lparr>WorkerPrototype := current\<rparr>\<rparr>) spec
       (ensureWorkers target (wps_MaxBatchSize spec) current observed unschedulable (we_MaxConcurrentCreateOps config)
         (we_MaxConcurrentDeleteOps config) time) time) (\<lambda>plan. g_return (plan_Status plan))"

section \<open>Starting keeps the counts\<close>

text \<open>What is counted as effective follows from the three counts.\<close>

definition effective_ok :: "WorkerPrototypeStatus \<Rightarrow> bool" where
  "effective_ok s \<longleftrightarrow> EffectiveWorkerCount s = i32 (i32 (ObservedReadyWorkerCount s + PendingCreateCount s) - PendingDeleteCount s)"

lemma with_effective_ok [simp]: "effective_ok (with_effective s)"
  by (simp add: effective_ok_def with_effective_def)

lemma status_updates [simp]:
  "effective_ok (acted a r s) = effective_ok s" "effective_ok (syncLegacyActiveOperation s) = effective_ok s"
  "effective_ok (s\<lparr>ActiveOperations := ops\<rparr>) = effective_ok s"
  "ObservedReadyWorkerCount (acted a r s) = ObservedReadyWorkerCount s" "ActiveOperations (acted a r s) = ActiveOperations s"
  "ActiveOperations (syncLegacyActiveOperation s) = ActiveOperations s"
  "ObservedReadyWorkerCount (syncLegacyActiveOperation s) = ObservedReadyWorkerCount s"
  by (simp_all add: effective_ok_def acted_def syncLegacyActiveOperation_def)

lemma rollback_keeps:
  "effective_ok s \<Longrightarrow> effective_ok (rollbackUnstartedWorkerOperations kind n s)"
  "ActiveOperations (rollbackUnstartedWorkerOperations kind n s) = ActiveOperations s"
  "ObservedReadyWorkerCount (rollbackUnstartedWorkerOperations kind n s) = ObservedReadyWorkerCount s"
  by (simp_all add: rollbackUnstartedWorkerOperations_def with_effective_def effective_ok_def)

lemma give_up_keeps:
  "effective_ok (give_up kind s)" "ActiveOperations (give_up kind s) = ActiveOperations s"
  "ObservedReadyWorkerCount (give_up kind s) = ObservedReadyWorkerCount s"
  by (simp_all add: give_up_def with_effective_def effective_ok_def)

text \<open>A start adds at most one operation, of its kind, for one worker.\<close>

definition added :: "string \<Rightarrow> int \<Rightarrow> WorkerPrototypeStatus \<Rightarrow> WorkerPrototypeStatus \<Rightarrow> bool" where
  "added kind n s s' \<longleftrightarrow> (\<exists>new. ActiveOperations s' = ActiveOperations s @ new \<and> int (length new) \<le> n
     \<and> (\<forall>p \<in> set new. OperationType p = kind \<and> RequestedCount p = 1 \<and> Phase p = ''Running''))
     \<and> ObservedReadyWorkerCount s' = ObservedReadyWorkerCount s \<and> (effective_ok s \<longrightarrow> effective_ok s')"

lemma added_refl: "0 \<le> n \<Longrightarrow> added kind n s s"
  by (simp add: added_def)

lemma added_trans:
  assumes "added kind n s s1" "added kind m s1 s2"
  shows "added kind (n + m) s s2"
proof -
  from assms(1) obtain new1 where 1: "ActiveOperations s1 = ActiveOperations s @ new1" "int (length new1) \<le> n"
    "\<forall>p \<in> set new1. OperationType p = kind \<and> RequestedCount p = 1 \<and> Phase p = ''Running''" unfolding added_def by blast
  from assms(2) obtain new2 where 2: "ActiveOperations s2 = ActiveOperations s1 @ new2" "int (length new2) \<le> m"
    "\<forall>p \<in> set new2. OperationType p = kind \<and> RequestedCount p = 1 \<and> Phase p = ''Running''" unfolding added_def by blast
  have "ActiveOperations s2 = ActiveOperations s @ (new1 @ new2)" using 1 2 by simp
  moreover have "int (length (new1 @ new2)) \<le> n + m" using 1 2 by simp
  moreover have "\<forall>p \<in> set (new1 @ new2). OperationType p = kind \<and> RequestedCount p = 1 \<and> Phase p = ''Running''"
    unfolding set_append using 1(3) 2(3) by blast
  moreover have "ObservedReadyWorkerCount s2 = ObservedReadyWorkerCount s \<and> (effective_ok s \<longrightarrow> effective_ok s2)"
    using assms by (simp add: added_def)
  ultimately show ?thesis unfolding added_def by blast
qed

lemma added_acted: "added kind n s s' \<Longrightarrow> added kind n s (acted a r s')"
  and added_sync: "added kind n s s' \<Longrightarrow> added kind n s (syncLegacyActiveOperation s')"
  by (simp_all add: added_def)

lemma added_started: "added kind 1 s (started kind node job time s)"
  by (simp add: added_def started_def)

lemma added_give_up: "added kind 1 s (give_up kind s)"
  by (simp add: added_def give_up_keeps)

lemma added_rollback: "added kind n s s' \<Longrightarrow> added kind n s (rollbackUnstartedWorkerOperations kind' m s')"
  by (simp add: added_def rollback_keeps)

lemma startWorkerOperation_adds:
  assumes "startWorkerOperation k config cs spec kind time s w = (Inr s', w')"
  shows "added kind 1 s s'"
proof (cases "enabledFor config kind")
  case False
  with assms show ?thesis by (auto simp: startWorkerOperation_def intro: added_acted added_give_up)
next
  case True
  then have on: "\<not> \<not> enabledFor config kind" by simp
  obtain execution w1 where "prepareWorkerOperationExecution k config cs spec kind time w = (Inr execution, w1)"
    and rest: "(case execution of
          None \<Rightarrow> g_return (acted ''executor-no-target'' (''no target node available for '' @ kind @ '' operation'') (give_up kind s))
        | Some (command, node) \<Rightarrow> (\<lambda>w. case rand_string k 5 w of (r, w') \<Rightarrow>
            let job = buildWorkerOperationJob cs s kind config (command, node) time r in
            g_bind (create_job k job) (\<lambda>_. g_return (started kind node job time s)) w')) w1 = (Inr s', w')"
    using assms [unfolded startWorkerOperation_def if_not_P [OF on]] by (rule g_bindE)
  from rest show ?thesis
    by (auto simp: Let_def g_bind_Inr_iff intro: added_acted added_give_up added_started split: option.splits prod.splits)
qed

lemma start_loop_adds:
  "0 \<le> j \<Longrightarrow> start_loop n j k config cs spec kind time s w = (Inr s', w') \<Longrightarrow> added kind (int n) s s'"
proof (induction n arbitrary: j s w)
  case 0
  then show ?case by (auto intro!: added_sync added_acted added_refl split: if_splits)
next
  case (Suc n)
  obtain r w1 where start: "startWorkerOperation k config cs spec kind time s w = (r, w1)"
    by (cases "startWorkerOperation k config cs spec kind time s w")
  show ?case
  proof (cases r)
    case (Inl e)
    with Suc.prems start show ?thesis
      by (auto simp: Let_def intro!: added_sync added_acted added_rollback added_refl split: if_splits)
  next
    case (Inr s1)
    with Suc.prems start have rest: "start_loop n (j + 1) k config cs spec kind time s1 w1 = (Inr s', w')" by simp
    have "added kind 1 s s1" by (rule startWorkerOperation_adds [OF start [unfolded Inr]])
    moreover have "added kind (int n) s1 s'" using Suc.prems(1) by (intro Suc.IH [OF _ rest]) simp
    ultimately have "added kind (1 + int n) s s'" by (rule added_trans)
    then show ?thesis by simp
  qed
qed

lemma startWorkerOperations_adds:
  "startWorkerOperations k config cs spec kind n time s w = (Inr s', w') \<Longrightarrow> 0 \<le> n \<Longrightarrow> added kind n s s'"
  unfolding startWorkerOperations_def by (drule start_loop_adds [rotated]) simp_all

section \<open>Following jobs keeps the counts\<close>

lemma command_done_same [simp]:
  "OperationType (command_done time cs p) = OperationType p" "RequestedCount (command_done time cs p) = RequestedCount p"
  "activeOperationRequestedCount (command_done time cs p) = activeOperationRequestedCount p"
  "JobNamespace (command_done time cs p) = JobNamespace p" "JobName (command_done time cs p) = JobName p"
  "TargetNodeName (command_done time cs p) = TargetNodeName p"
  by (simp_all add: command_done_def activeOperationRequestedCount_def)

text \<open>What following does to the status of a plan, and to the operations that remain.\<close>

definition followed :: "int \<Rightarrow> int \<Rightarrow> job_watch \<Rightarrow> job_watch \<Rightarrow> bool" where
  "followed creates deletes v v' \<longleftrightarrow> (effective_ok (watch_Status v) \<longrightarrow> effective_ok (watch_Status v'))
     \<and> ObservedReadyWorkerCount (watch_Status v') = ObservedReadyWorkerCount (watch_Status v)
     \<and> in_flight ''create'' (watch_Remaining v') \<le> in_flight ''create'' (watch_Remaining v) + creates
     \<and> in_flight ''delete'' (watch_Remaining v') \<le> in_flight ''delete'' (watch_Remaining v) + deletes"

lemma rollbackWorkerOperation_keeps:
  "effective_ok s \<Longrightarrow> effective_ok (rollbackWorkerOperation p s)"
  "ObservedReadyWorkerCount (rollbackWorkerOperation p s) = ObservedReadyWorkerCount s"
  by (simp_all add: rollbackWorkerOperation_def rollback_keeps)

lemma followed_trans: "followed a b v v1 \<Longrightarrow> followed c d v1 v2 \<Longrightarrow> followed (a + c) (b + d) v v2"
  unfolding followed_def by linarith

lemma judge_followed:
  "followed (in_flight ''create'' [p]) (in_flight ''delete'' [p]) v (judge_operation timeout time conditions p v)"
proof -
  have "0 < activeOperationRequestedCount p" by (rule requested_pos)
  then show ?thesis
    unfolding judge_operation_def Let_def followed_def
    by (simp add: rollbackWorkerOperation_keeps in_flight_nonneg)
qed

lemma missing_followed:
  "followed (in_flight ''create'' [p]) (in_flight ''delete'' [p]) v (v\<lparr>watch_Status := acted a r (rollbackWorkerOperation p (watch_Status v))\<rparr>)"
proof -
  have "0 < activeOperationRequestedCount p" by (rule requested_pos)
  then show ?thesis by (simp add: followed_def rollbackWorkerOperation_keeps)
qed

lemma watch_followed:
  "watch_operations k timeout time ops v w = (Inr v', w') \<Longrightarrow> followed (in_flight ''create'' ops) (in_flight ''delete'' ops) v v'"
proof (induction ops arbitrary: v w)
  case Nil
  then show ?case by (simp add: followed_def)
next
  case (Cons p ops)
  obtain r w1 where got: "get_job k (JobNamespace p) (JobName p) w = (r, w1)" by (cases "get_job k (JobNamespace p) (JobName p) w")
  have step: "followed (in_flight ''create'' (p # ops)) (in_flight ''delete'' (p # ops)) v v'"
    if "followed (in_flight ''create'' [p]) (in_flight ''delete'' [p]) v v1" "watch_operations k timeout time ops v1 w1 = (Inr v', w')" for v1
    using followed_trans [OF that(1) Cons.IH [OF that(2)]] by (simp add: add.commute)
  show ?case
  proof (cases r)
    case (Inl e)
    with Cons.prems got obtain t where "e = NotFound t" by (cases e) auto
    with Cons.prems got Inl have "watch_operations k timeout time ops
       (v\<lparr>watch_Status := acted ''executor-missing-job'' (job_text p @ '' was not found'') (rollbackWorkerOperation p (watch_Status v))\<rparr>) w1
       = (Inr v', w')" by simp
    then show ?thesis by (rule step [OF missing_followed])
  next
    case (Inr conditions)
    with Cons.prems got have "watch_operations k timeout time ops (judge_operation timeout time conditions p v) w1 = (Inr v', w')" by simp
    then show ?thesis by (rule step [OF judge_followed])
  qed
qed

lemma active_followed:
  assumes run: "reconcileActiveWorkerOperations k timeout time previous s w = (Inr s', w')" and ops: "ActiveOperations s = cloneActiveOperations (Some s)"
  shows "(effective_ok s \<longrightarrow> effective_ok s') \<and> ObservedReadyWorkerCount s' = ObservedReadyWorkerCount s
    \<and> in_flight ''create'' (ActiveOperations s') \<le> in_flight ''create'' (ActiveOperations s)
    \<and> in_flight ''delete'' (ActiveOperations s') \<le> in_flight ''delete'' (ActiveOperations s)"
proof (cases "cloneActiveOperations (Some s) = []")
  case True
  with run show ?thesis by (auto simp: reconcileActiveWorkerOperations_def Let_def)
next
  case False
  with run obtain v where v: "followed (in_flight ''create'' (ActiveOperations s)) (in_flight ''delete'' (ActiveOperations s))
      \<lparr>watch_Status = s, watch_CreateBudget = max (i32 (ObservedReadyWorkerCount s - (case previous of None \<Rightarrow> 0 | Some p \<Rightarrow> ObservedReadyWorkerCount p))) 0,
           watch_DeleteBudget = max (i32 ((case previous of None \<Rightarrow> 0 | Some p \<Rightarrow> ObservedReadyWorkerCount p) - ObservedReadyWorkerCount s)) 0,
           watch_Remaining = []\<rparr> v"
    and s': "s' = syncLegacyActiveOperation ((watch_Status v)\<lparr>ActiveOperations := watch_Remaining v\<rparr>)"
    unfolding reconcileActiveWorkerOperations_def Let_def ops by (auto elim!: g_bindE dest: watch_followed)
  then show ?thesis by (simp add: followed_def)
qed

section \<open>A round\<close>

lemma in_flight_ones:
  "\<forall>p \<in> set new. OperationType p = kind \<and> RequestedCount p = 1 \<and> Q p
    \<Longrightarrow> in_flight kind' new = (if kind' = kind then int (length new) else 0)"
  by (induction new) (auto simp: activeOperationRequestedCount_def)

lemma ensureWorkers_operations:
  "ActiveOperations (plan_Status (ensureWorkers target batch current observed u mc md time)) = cloneActiveOperations current"
  "ObservedReadyWorkerCount (plan_Status (ensureWorkers target batch current observed u mc md time)) = observed"
  by (simp_all add: ensureWorkers_def Let_def syncLegacyActiveOperation_def split: prod.split)

lemma ensureWorkers_cloned:
  "cloneActiveOperations (Some (plan_Status (ensureWorkers target batch current observed u mc md time)))
     = ActiveOperations (plan_Status (ensureWorkers target batch current observed u mc md time))"
  by (simp add: ensureWorkers_def Let_def cloneActiveOperations_def syncLegacyActiveOperation_def split: prod.split list.split)

lemma worker_roundE:
  assumes "worker_round k config cs spec target unschedulable observed time current w = (Inr s', w')"
  defines "p \<equiv> ensureWorkers target (wps_MaxBatchSize spec) current observed unschedulable (we_MaxConcurrentCreateOps config)
         (we_MaxConcurrentDeleteOps config) time"
  obtains s cs' w1 where "reconcileActiveWorkerOperations k (we_ObservationTimeout config) time current (plan_Status p) w = (Inr s, w1)"
    "(if 0 < plan_WorkersToCreate p then startWorkerOperations k config cs' spec ''create'' (plan_WorkersToCreate p) time s
      else if 0 < plan_WorkersToDelete p then startWorkerOperations k config cs' spec ''delete'' (plan_WorkersToDelete p) time s
      else g_return s) w1 = (Inr s', w')"
    "cs_Name cs' = cs_Name cs"
proof -
  let ?cs = "cs\<lparr>cs_Status := (cs_Status cs)\<lparr>WorkerPrototype := current\<rparr>\<rparr>"
  from assms(1) obtain s w1 where
    "reconcileActiveWorkerOperations k (we_ObservationTimeout config) time current (plan_Status p) w = (Inr s, w1)"
    "(if 0 < plan_WorkersToCreate p then startWorkerOperations k config ?cs spec ''create'' (plan_WorkersToCreate p) time s
      else if 0 < plan_WorkersToDelete p then startWorkerOperations k config ?cs spec ''delete'' (plan_WorkersToDelete p) time s
      else g_return s) w1 = (Inr s', w')"
    unfolding worker_round_def p_def [symmetric] reconcileWorkerExecutor_def by (elim g_bindE) auto
  then show thesis by (rule that) simp
qed

section \<open>A round with one operation\<close>

text \<open>A round that plans nothing new only follows the operation under way.\<close>

lemma quiet_round:
  assumes p: "p = ensureWorkers target (wps_MaxBatchSize spec) current observed unschedulable (we_MaxConcurrentCreateOps config)
         (we_MaxConcurrentDeleteOps config) time"
    and none: "plan_WorkersToCreate p = 0" "plan_WorkersToDelete p = 0" and one: "cloneActiveOperations current = [op]"
    and job: "get_job k (JobNamespace op) (JobName op) w = (Inr conditions, w')"
    and v: "v = judge_operation (we_ObservationTimeout config) time conditions op \<lparr>watch_Status = plan_Status p,
         watch_CreateBudget = max (i32 (observed - previous_ready current)) 0,
         watch_DeleteBudget = max (i32 (previous_ready current - observed)) 0, watch_Remaining = []\<rparr>"
  shows "worker_round k config cs spec target unschedulable observed time current w
    = (Inr (syncLegacyActiveOperation ((watch_Status v)\<lparr>ActiveOperations := watch_Remaining v\<rparr>)), w')"
proof -
  have ops: "cloneActiveOperations (Some (plan_Status p)) = [op]" and obs: "ObservedReadyWorkerCount (plan_Status p) = observed"
    unfolding p by (simp_all add: ensureWorkers_cloned ensureWorkers_operations one)
  have prev: "(case current of None \<Rightarrow> 0 | Some s \<Rightarrow> ObservedReadyWorkerCount s) = previous_ready current"
    by (simp add: previous_ready_def)
  have "reconcileActiveWorkerOperations k (we_ObservationTimeout config) time current (plan_Status p) w
      = (Inr (syncLegacyActiveOperation ((watch_Status v)\<lparr>ActiveOperations := watch_Remaining v\<rparr>)), w')"
    unfolding reconcileActiveWorkerOperations_def Let_def ops prev obs by (simp add: g_bind_def job v)
  then show ?thesis
    unfolding worker_round_def p [symmetric] reconcileWorkerExecutor_def by (simp add: g_bind_def none)
qed

lemma quiet_plan:
  assumes ok: "plan_input_ok target current observed" "maxCreate < 2147483648" "maxDelete < 2147483648"
    and p: "p = ensureWorkers target batch current observed unschedulable maxCreate maxDelete time"
    and c: "c = count_workers target (previous_ready current) observed (cloneActiveOperations current)"
    and quiet: "wc_Effective c = target \<or> target < wc_Effective c \<and> 0 < wc_PendingCreate c"
  shows "plan_WorkersToCreate p = 0" "plan_WorkersToDelete p = 0" "PendingCreateCount (plan_Status p) = wc_PendingCreate c"
    "EffectiveWorkerCount (plan_Status p) = wc_Effective c"
proof -
  from ensureWorkers_calm [OF ok p, folded c] obtain size_limit action reason where
    act: "plan_action c (max 1 maxCreate) (max 1 maxDelete) size_limit unschedulable
      (cloneActiveOperations current) = (plan_WorkersToCreate p, plan_WorkersToDelete p, action, reason)" and size: "0 < size_limit"
    and counts: "PendingCreateCount (plan_Status p) = wc_PendingCreate c + plan_WorkersToCreate p"
    "EffectiveWorkerCount (plan_Status p) = wc_Effective c + plan_WorkersToCreate p - plan_WorkersToDelete p"
    "0 \<le> plan_WorkersToCreate p" "0 \<le> plan_WorkersToDelete p" by metis
  have input: "small (previous_ready current)" "small observed" "in_flight ''create'' (cloneActiveOperations current) < 536870912"
    "in_flight ''delete'' (cloneActiveOperations current) < 536870912" "small target" using ok(1) by (simp_all add: plan_input_ok_def)
  note calm = count_workers_calm [OF input(1-4), of target, folded c]
  have bounds: "(0::int) < max 1 maxCreate" "max 1 maxCreate < 2147483648" "(0::int) < max 1 maxDelete" "max 1 maxDelete < 2147483648"
    using ok(2,3) by simp_all
  note r = plan_action_calm [OF act, unfolded calm(8,9), OF input(5) calm(5,6) input(2) calm(3,4,7) bounds size]
  show zero: "plan_WorkersToCreate p = 0" "plan_WorkersToDelete p = 0"
    using r(2,3) quiet counts(3,4) unfolding calm(7) by (smt (verit))+
  show "PendingCreateCount (plan_Status p) = wc_PendingCreate c" "EffectiveWorkerCount (plan_Status p) = wc_Effective c"
    unfolding counts zero by simp_all
qed

text \<open>The decision about a waiting creation when the number of ready workers does not rise.\<close>

lemma judge_running:
  "Phase op \<noteq> ''WaitingForObservation'' \<Longrightarrow> \<not> isJobFailed conditions \<Longrightarrow> \<not> isJobSucceeded conditions
    \<Longrightarrow> judge_operation timeout time conditions op v = v\<lparr>watch_Remaining := watch_Remaining v @ [op]\<rparr>"
  by (simp add: judge_operation_def command_done_def Let_def)

lemma judge_waiting:
  "\<not> isJobFailed conditions \<Longrightarrow> watch_CreateBudget v = 0 \<Longrightarrow> OperationType op = ''create''
    \<Longrightarrow> \<not> workerOperationTimedOut (command_done time conditions op) time timeout
    \<Longrightarrow> judge_operation timeout time conditions op v = v\<lparr>watch_Remaining := watch_Remaining v @ [command_done time conditions op]\<rparr>"
  by (simp add: judge_operation_def Let_def)

lemma plan_input_one:
  assumes "ActiveOperations s = [q]" "OperationType q = ''create''" "activeOperationRequestedCount q = 1"
    and "0 \<le> ObservedReadyWorkerCount s" "ObservedReadyWorkerCount s < 536870912" "small target" "small observed"
  shows "cloneActiveOperations (Some s) = [q]" and "plan_input_ok target (Some s) observed"
    and "in_flight ''create'' [q] = 1" and "in_flight ''delete'' [q] = 0" and "previous_ready (Some s) = ObservedReadyWorkerCount s"
  using assms by (simp_all add: cloneActiveOperations_def plan_input_ok_def previous_ready_def)

text \<open>The round in which the worker appears before its job has ended.\<close>

lemma early_round:
  assumes q: "ActiveOperations s = [q]" "OperationType q = ''create''" "activeOperationRequestedCount q = 1" "Phase q = ''Running''"
    and n: "ObservedReadyWorkerCount s = n" "0 \<le> n" "n < 536870000"
    and limits: "we_MaxConcurrentCreateOps config < 2147483648" "we_MaxConcurrentDeleteOps config < 2147483648"
    and job: "get_job k (JobNamespace q) (JobName q) w = (Inr conditions, w')" "\<not> isJobSucceeded conditions" "\<not> isJobFailed conditions"
  shows "\<exists>s'. worker_round k config cs spec (n + 1) 0 (n + 1) time (Some s) w = (Inr s', w') \<and> ActiveOperations s' = [q]
     \<and> EffectiveWorkerCount s' = n + 1 \<and> ObservedReadyWorkerCount s' = n + 1"
proof -
  define p where "p = ensureWorkers (n + 1) (wps_MaxBatchSize spec) (Some s) (n + 1) 0 (we_MaxConcurrentCreateOps config)
         (we_MaxConcurrentDeleteOps config) time"
  have "0 \<le> ObservedReadyWorkerCount s" "ObservedReadyWorkerCount s < 536870912" "small (n + 1)" "small (n + 1)" using n by simp_all
  note one = plan_input_one [OF q(1-3) this]
  have eff: "wc_Effective (count_workers (n + 1) (previous_ready (Some s)) (n + 1) [q]) = n + 1"
    using count_workers_calm(1,2,7) [of "previous_ready (Some s)" "n + 1" "[q]" "n + 1"] n one(3-5) by simp
  note plan = quiet_plan [OF one(2) limits p_def refl, unfolded one(1), OF disjI1, OF eff]
  have obs: "ObservedReadyWorkerCount (plan_Status p) = n + 1" by (simp add: p_def ensureWorkers_operations)
  have "worker_round k config cs spec (n + 1) 0 (n + 1) time (Some s) w
      = (Inr (syncLegacyActiveOperation ((plan_Status p)\<lparr>ActiveOperations := [q]\<rparr>)), w')"
    using quiet_round [OF p_def plan(1,2) one(1) job(1) refl] q(4) job(2,3) by (simp add: judge_running)
  then show ?thesis using plan(4) obs eff by (simp add: syncLegacyActiveOperation_def)
qed

text \<open>A round that sees as many ready workers as the last one, with a creation that still counts.\<close>

lemma waiting_round:
  assumes q: "ActiveOperations s = [q]" "OperationType q = ''create''" "activeOperationRequestedCount q = 1"
    and n: "ObservedReadyWorkerCount s = n" "0 \<le> n" "n < 536870912"
    and limits: "we_MaxConcurrentCreateOps config < 2147483648" "we_MaxConcurrentDeleteOps config < 2147483648"
    and job: "get_job k (JobNamespace q) (JobName q) w = (Inr conditions, w')" "\<not> isJobFailed conditions"
    and in_time: "\<not> workerOperationTimedOut (command_done time conditions q) time (we_ObservationTimeout config)"
  shows "\<exists>s'. worker_round k config cs spec n 0 n time (Some s) w = (Inr s', w') \<and> ActiveOperations s' = [command_done time conditions q]
     \<and> EffectiveWorkerCount s' = n + 1 \<and> ObservedReadyWorkerCount s' = n"
proof -
  define p where "p = ensureWorkers n (wps_MaxBatchSize spec) (Some s) n 0 (we_MaxConcurrentCreateOps config)
         (we_MaxConcurrentDeleteOps config) time"
  have "0 \<le> ObservedReadyWorkerCount s" "ObservedReadyWorkerCount s < 536870912" "small n" "small n" using n by simp_all
  note one = plan_input_one [OF q(1-3) this]
  have c: "wc_Effective (count_workers n (previous_ready (Some s)) n [q]) = n + 1"
    "wc_PendingCreate (count_workers n (previous_ready (Some s)) n [q]) = 1"
    using count_workers_calm(1,2,7) [of "previous_ready (Some s)" n "[q]" n] n one(3-5) by simp_all
  then have "n < wc_Effective (count_workers n (previous_ready (Some s)) n [q])
      \<and> 0 < wc_PendingCreate (count_workers n (previous_ready (Some s)) n [q])" by simp
  note plan = quiet_plan [OF one(2) limits p_def refl, unfolded one(1), OF disjI2, OF this]
  have obs: "ObservedReadyWorkerCount (plan_Status p) = n" by (simp add: p_def ensureWorkers_operations)
  have "worker_round k config cs spec n 0 n time (Some s) w
      = (Inr (syncLegacyActiveOperation ((plan_Status p)\<lparr>ActiveOperations := [command_done time conditions q]\<rparr>)), w')"
    using quiet_round [OF p_def plan(1,2) one(1) job(1) refl] n(1) one(5) job(2) in_time q(2) by (simp add: judge_waiting)
  then show ?thesis using plan(4) obs c(1) by (simp add: syncLegacyActiveOperation_def)
qed

text \<open>What a plan within the range of the integers does to the books and to the operations in flight.\<close>

lemma plan_keeps_books:
  assumes input_ok: "plan_input_ok target current observed" and limits: "maxCreate < 2147483648" "maxDelete < 2147483648"
    and p: "p = ensureWorkers target batch current observed unschedulable maxCreate maxDelete time"
  shows "effective_ok (plan_Status p)"
    and "0 < plan_WorkersToCreate p \<Longrightarrow> in_flight ''create'' (cloneActiveOperations current) + plan_WorkersToCreate p
      \<le> max (in_flight ''create'' (cloneActiveOperations current)) (max 1 maxCreate + max 0 (observed - previous_ready current))"
    and "0 < plan_WorkersToDelete p \<Longrightarrow> in_flight ''delete'' (cloneActiveOperations current) + plan_WorkersToDelete p
      \<le> max (in_flight ''delete'' (cloneActiveOperations current)) (max 1 maxDelete + max 0 (previous_ready current - observed))"
proof -
  define c where "c = count_workers target (previous_ready current) observed (cloneActiveOperations current)"
  have input: "small (previous_ready current)" "small observed" "in_flight ''create'' (cloneActiveOperations current) < 536870912"
    "in_flight ''delete'' (cloneActiveOperations current) < 536870912" "small target" using input_ok by (simp_all add: plan_input_ok_def)
  note calm = count_workers_calm [OF input(1-4), of target, folded c_def]
  from ensureWorkers_calm [OF input_ok limits p, folded c_def] obtain size_limit action reason where
    act: "plan_action c (max 1 maxCreate) (max 1 maxDelete) size_limit unschedulable (cloneActiveOperations current)
      = (plan_WorkersToCreate p, plan_WorkersToDelete p, action, reason)" and size: "0 < size_limit"
    and counts: "PendingCreateCount (plan_Status p) = wc_PendingCreate c + plan_WorkersToCreate p"
    "PendingDeleteCount (plan_Status p) = wc_PendingDelete c + plan_WorkersToDelete p"
    "EffectiveWorkerCount (plan_Status p) = wc_Effective c + plan_WorkersToCreate p - plan_WorkersToDelete p"
    "0 \<le> plan_WorkersToCreate p" "0 \<le> plan_WorkersToDelete p" by metis
  have bounds: "(0::int) < max 1 maxCreate" "max 1 maxCreate < 2147483648" "(0::int) < max 1 maxDelete" "max 1 maxDelete < 2147483648"
    using limits by simp_all
  note r = plan_action_calm [OF act, unfolded calm(8,9), OF input(5) calm(5,6) input(2) calm(3,4,7) bounds size]
  have obs: "ObservedReadyWorkerCount (plan_Status p) = observed" by (simp add: p ensureWorkers_operations)
  have wide: "plan_WorkersToCreate p < 2147483648 - 1073741824 \<and> plan_WorkersToDelete p < 2147483648 - 1073741824"
    using r(2,3) calm(5-7) input(2,5) counts(4,5) by (smt (verit))
  with counts calm(5-7) input(2) show "effective_ok (plan_Status p)"
    unfolding effective_ok_def counts(1-3) obs calm(7) by (simp add: i32_id)
  show "0 < plan_WorkersToCreate p \<Longrightarrow> in_flight ''create'' (cloneActiveOperations current) + plan_WorkersToCreate p
      \<le> max (in_flight ''create'' (cloneActiveOperations current)) (max 1 maxCreate + max 0 (observed - previous_ready current))"
    using r(2) calm(1) by (smt (verit))
  show "0 < plan_WorkersToDelete p \<Longrightarrow> in_flight ''delete'' (cloneActiveOperations current) + plan_WorkersToDelete p
      \<le> max (in_flight ''delete'' (cloneActiveOperations current)) (max 1 maxDelete + max 0 (previous_ready current - observed))"
    using r(3) calm(2) by (smt (verit))
qed

lemma added_counts:
  assumes "added kind n s s'" "effective_ok s" "0 \<le> n"
  shows "ObservedReadyWorkerCount s' = ObservedReadyWorkerCount s \<and> effective_ok s'
    \<and> in_flight kind' (ActiveOperations s') \<le> in_flight kind' (ActiveOperations s) + (if kind' = kind then n else 0)"
proof -
  from assms(1,2) obtain new where new: "ActiveOperations s' = ActiveOperations s @ new" "int (length new) \<le> n"
    "\<forall>q \<in> set new. OperationType q = kind \<and> RequestedCount q = 1 \<and> Phase q = ''Running''"
    "ObservedReadyWorkerCount s' = ObservedReadyWorkerCount s" "effective_ok s'" unfolding added_def by blast
  then show ?thesis using in_flight_ones [OF new(3), of kind'] by simp
qed

section \<open>Examples\<close>

text \<open>A cluster in which a job is done when it is looked at for the second time.\<close>

definition slow_jobs :: "int k8s" where
  "slow_jobs = (demo_k8s 200)\<lparr>get_job := \<lambda>ns name polls.
     (Inr (if polls = 0 then [] else [(''Complete'', ''True'')]), polls + 1)\<rparr>"

definition demo_config :: WorkerExecutorConfig where
  "demo_config = no_commands\<lparr>we_CreateCommand := ''create''\<rparr>"

definition demo_operation :: WorkerOperationStatus where
  "demo_operation = \<lparr>OperationType = ''create'', TargetNodeName = ''w'', Phase = ''Running'', JobNamespace = ''n'', JobName = ''j'',
     RequestedCount = 1, Message = [], StartedAt = Some 0, CommandFinishedAt = None\<rparr>"

definition early_status :: WorkerPrototypeStatus where
  "early_status = \<lparr>TargetWorkerCount = 2, ObservedReadyWorkerCount = 1, PendingCreateCount = 1, PendingDeleteCount = 0,
     EffectiveWorkerCount = 2, LastAction = [], LastReason = [], LastEnsureTime = None, ActiveOperations = [demo_operation],
     ActiveOperation = Some demo_operation\<rparr>"

section \<open>Properties\<close>

text \<open>C6: a round keeps the books: what is counted as effective is what is ready and pending creation, less what is
  pending deletion.  No more operations of a kind are in flight after it than before, or than the limit
  and those that the change in ready workers stands for: a worker that is ready frees its slot while its
  operation still counts.  The numbers are within the range in which no sum of two of them wraps.\<close>

theorem round_keeps_limits:
  assumes "worker_round k config cs spec target unschedulable observed time current w = (Inr s, w')"
    and "plan_input_ok target current observed"
    and "we_MaxConcurrentCreateOps config < 2147483648" and "we_MaxConcurrentDeleteOps config < 2147483648"
  shows "ObservedReadyWorkerCount s = observed
    \<and> EffectiveWorkerCount s = i32 (i32 (observed + PendingCreateCount s) - PendingDeleteCount s)
    \<and> in_flight ''create'' (ActiveOperations s) \<le> max (in_flight ''create'' (cloneActiveOperations current))
         (max 1 (we_MaxConcurrentCreateOps config) + max 0 (observed - previous_ready current))
    \<and> in_flight ''delete'' (ActiveOperations s) \<le> max (in_flight ''delete'' (cloneActiveOperations current))
         (max 1 (we_MaxConcurrentDeleteOps config) + max 0 (previous_ready current - observed))"
proof -
  define p where "p = ensureWorkers target (wps_MaxBatchSize spec) current observed unschedulable (we_MaxConcurrentCreateOps config)
         (we_MaxConcurrentDeleteOps config) time"
  let ?C = "in_flight ''create'' (cloneActiveOperations current)" and ?D = "in_flight ''delete'' (cloneActiveOperations current)"
  note plan = plan_keeps_books [OF assms(2-4) p_def]
  from worker_roundE [OF assms(1), folded p_def] obtain s1 cs' w1 where
    active: "reconcileActiveWorkerOperations k (we_ObservationTimeout config) time current (plan_Status p) w = (Inr s1, w1)"
    and start: "(if 0 < plan_WorkersToCreate p then startWorkerOperations k config cs' spec ''create'' (plan_WorkersToCreate p) time s1
      else if 0 < plan_WorkersToDelete p then startWorkerOperations k config cs' spec ''delete'' (plan_WorkersToDelete p) time s1
      else g_return s1) w1 = (Inr s, w')" by metis
  have ops: "ActiveOperations (plan_Status p) = cloneActiveOperations current" "ObservedReadyWorkerCount (plan_Status p) = observed"
    by (simp_all add: p_def ensureWorkers_operations)
  from active_followed [OF active] have s1: "effective_ok s1" "ObservedReadyWorkerCount s1 = observed"
    "in_flight ''create'' (ActiveOperations s1) \<le> ?C" "in_flight ''delete'' (ActiveOperations s1) \<le> ?D"
    using plan(1) ensureWorkers_cloned [of target "wps_MaxBatchSize spec" current observed unschedulable "we_MaxConcurrentCreateOps config"
      "we_MaxConcurrentDeleteOps config" time, folded p_def] unfolding ops by simp_all
  consider (create) "0 < plan_WorkersToCreate p" "added ''create'' (plan_WorkersToCreate p) s1 s"
    | (delete) "0 < plan_WorkersToDelete p" "added ''delete'' (plan_WorkersToDelete p) s1 s" | (neither) "s = s1"
    using start by (auto split: if_splits dest!: startWorkerOperations_adds)
  then show ?thesis
  proof cases
    case create
    note counts = added_counts [OF create(2) s1(1) less_imp_le [OF create(1)]]
    have books: "ObservedReadyWorkerCount s = observed" "effective_ok s" using counts s1(2) by simp_all
    have "in_flight ''create'' (ActiveOperations s) \<le> in_flight ''create'' (ActiveOperations s1) + plan_WorkersToCreate p"
      "in_flight ''delete'' (ActiveOperations s) \<le> in_flight ''delete'' (ActiveOperations s1)"
      using counts [of "''create''"] counts [of "''delete''"] by simp_all
    with books plan(2) [OF create(1)] s1(3,4) show ?thesis unfolding effective_ok_def by (intro conjI) auto
  next
    case delete
    note counts = added_counts [OF delete(2) s1(1) less_imp_le [OF delete(1)]]
    have books: "ObservedReadyWorkerCount s = observed" "effective_ok s" using counts s1(2) by simp_all
    have "in_flight ''delete'' (ActiveOperations s) \<le> in_flight ''delete'' (ActiveOperations s1) + plan_WorkersToDelete p"
      "in_flight ''create'' (ActiveOperations s) \<le> in_flight ''create'' (ActiveOperations s1)"
      using counts [of "''delete''"] counts [of "''create''"] by simp_all
    with books plan(3) [OF delete(1)] s1(3,4) show ?thesis unfolding effective_ok_def by (intro conjI) auto
  next
    case neither
    with s1 show ?thesis by (auto simp: effective_ok_def)
  qed
qed

theorem round_keeps_limits_witness:
  "\<exists>s. fst (worker_round slow_jobs demo_config demo_scaler demo_workers 2 0 1 0 (Some early_status) 0) = Inr s \<and> PendingCreateCount s = 1
     \<and> EffectiveWorkerCount s = i32 (2 - PendingDeleteCount s) \<and> in_flight ''create'' (ActiveOperations s) \<le> 1"
proof -
  let ?r = "worker_round slow_jobs demo_config demo_scaler demo_workers 2 0 1 0 (Some early_status) 0"
  have pending: "map_sum (\<lambda>e. ()) PendingCreateCount (fst ?r) = Inr 1" by code_simp
  then obtain s w' where r: "?r = (Inr s, w')" and one: "PendingCreateCount s = 1" by (cases ?r; cases "fst ?r") auto
  have input: "plan_input_ok 2 (Some early_status) 1" by code_simp
  have limit: "we_MaxConcurrentCreateOps demo_config = 1" "we_MaxConcurrentDeleteOps demo_config = 1" by code_simp+
  have before: "in_flight ''create'' (cloneActiveOperations (Some early_status)) = 1" "previous_ready (Some early_status) = 1" by code_simp+
  have "EffectiveWorkerCount s = i32 (i32 (1 + 1) - PendingDeleteCount s)" "in_flight ''create'' (ActiveOperations s) \<le> 1"
    using round_keeps_limits [OF r input] unfolding limit one before by simp_all
  with pending r one show ?thesis by (simp add: i32_def)
qed

text \<open>C24: a worker that is seen ready while its job still runs is not seen by its operation.  The round in which it
  appears leaves the operation running; the next one, in which the job has succeeded, leaves it waiting for an
  observation that has already been made, and counts one worker more than there are; a later one
  with as many ready workers leaves it waiting still, until its time is over.\<close>

theorem early_worker_goes_unseen:
  assumes op: "OperationType op = ''create''" "RequestedCount op = 1" "Phase op = ''Running''"
    and s0: "ActiveOperations s0 = [op]" "ObservedReadyWorkerCount s0 = n" "0 \<le> n" "n < 536870000"
    and limits: "we_MaxConcurrentCreateOps config < 2147483648" "we_MaxConcurrentDeleteOps config < 2147483648"
    and job1: "get_job k (JobNamespace op) (JobName op) w0 = (Inr conditions1, w1)" "\<not> isJobSucceeded conditions1" "\<not> isJobFailed conditions1"
    and job2: "get_job k (JobNamespace op) (JobName op) w1 = (Inr conditions2, w2)" "isJobSucceeded conditions2" "\<not> isJobFailed conditions2"
    and job3: "get_job k (JobNamespace op) (JobName op) w2 = (Inr conditions3, w3)" "\<not> isJobFailed conditions3"
    and in_time: "t3 - t2 < we_ObservationTimeout config" "0 < we_ObservationTimeout config"
  shows "\<exists>s1 s2 s3. worker_round k config cs spec (n + 1) 0 (n + 1) t1 (Some s0) w0 = (Inr s1, w1)
     \<and> ActiveOperations s1 = [op] \<and> EffectiveWorkerCount s1 = n + 1
     \<and> worker_round k config cs spec (n + 1) 0 (n + 1) t2 (Some s1) w1 = (Inr s2, w2)
     \<and> ActiveOperations s2 = [command_done t2 conditions2 op] \<and> Phase (command_done t2 conditions2 op) = ''WaitingForObservation''
     \<and> EffectiveWorkerCount s2 = n + 2
     \<and> worker_round k config cs spec (n + 1) 0 (n + 1) t3 (Some s2) w2 = (Inr s3, w3) \<and> ActiveOperations s3 = ActiveOperations s2"
proof -
  let ?op = "command_done t2 conditions2 op"
  have one: "activeOperationRequestedCount op = 1" using op(2) by (simp add: activeOperationRequestedCount_def)
  have waiting: "Phase ?op = ''WaitingForObservation''" "CommandFinishedAt ?op = Some t2"
    using op(3) job2(2) by (simp_all add: command_done_def)
  have kept: "command_done t3 conditions3 ?op = ?op" using waiting(1) by (simp add: command_done_def [of t3])
  from early_round [OF s0(1) op(1) one op(3) s0(2-4) limits job1] obtain s1 where
    r1: "worker_round k config cs spec (n + 1) 0 (n + 1) t1 (Some s0) w0 = (Inr s1, w1)" "ActiveOperations s1 = [op]"
      "EffectiveWorkerCount s1 = n + 1" "ObservedReadyWorkerCount s1 = n + 1" by blast
  have n1: "0 \<le> n + 1" "n + 1 < 536870912" using s0(3,4) by simp_all
  have "\<not> workerOperationTimedOut ?op t2 (we_ObservationTimeout config)" using waiting(2) in_time(2) by (simp add: workerOperationTimedOut_def)
  from waiting_round [OF r1(2) op(1) one r1(4) n1 limits job2(1,3) this] obtain s2 where
    r2: "worker_round k config cs spec (n + 1) 0 (n + 1) t2 (Some s1) w1 = (Inr s2, w2)" "ActiveOperations s2 = [?op]"
      "EffectiveWorkerCount s2 = n + 1 + 1" "ObservedReadyWorkerCount s2 = n + 1" by blast
  have op2: "OperationType ?op = ''create''" "activeOperationRequestedCount ?op = 1" using op(1) one by simp_all
  have job3': "get_job k (JobNamespace ?op) (JobName ?op) w2 = (Inr conditions3, w3)" using job3(1) by simp
  have "\<not> workerOperationTimedOut (command_done t3 conditions3 ?op) t3 (we_ObservationTimeout config)"
    unfolding kept using waiting(2) in_time by (simp add: workerOperationTimedOut_def)
  from waiting_round [OF r2(2) op2 r2(4) n1 limits job3' job3(2) this] obtain s3 where
    r3: "worker_round k config cs spec (n + 1) 0 (n + 1) t3 (Some s2) w2 = (Inr s3, w3)" "ActiveOperations s3 = [?op]"
    unfolding kept by blast
  show ?thesis
    by (rule exI [of _ s1], rule exI [of _ s2], rule exI [of _ s3])
      (use r1(1-3) r2(1-3) r3 waiting(1) in \<open>intro conjI; simp\<close>)
qed

theorem early_worker_goes_unseen_witness:
  "\<exists>s1 s2 s3. worker_round slow_jobs demo_config demo_scaler demo_workers 2 0 2 1 (Some early_status) 0 = (Inr s1, 1)
     \<and> EffectiveWorkerCount s1 = 2
     \<and> worker_round slow_jobs demo_config demo_scaler demo_workers 2 0 2 2 (Some s1) 1 = (Inr s2, 2) \<and> EffectiveWorkerCount s2 = 3
     \<and> worker_round slow_jobs demo_config demo_scaler demo_workers 2 0 2 3 (Some s2) 2 = (Inr s3, 3)
     \<and> ActiveOperations s3 = ActiveOperations s2"
proof -
  let ?running = "[] :: (string \<times> string) list" and ?ready = "[(''Complete'', ''True'')]"
  have op: "OperationType demo_operation = ''create''" "RequestedCount demo_operation = 1" "Phase demo_operation = ''Running''"
    by (simp_all add: demo_operation_def)
  have s0: "ActiveOperations early_status = [demo_operation]" "ObservedReadyWorkerCount early_status = 1" by (simp_all add: early_status_def)
  have limits: "we_MaxConcurrentCreateOps demo_config < 2147483648" "we_MaxConcurrentDeleteOps demo_config < 2147483648"
    and patience: "we_ObservationTimeout demo_config = 600000000000" by code_simp+
  have jobs: "get_job slow_jobs ns name polls = (Inr (if polls = 0 then ?running else ?ready), polls + 1)" for ns name polls
    by (simp add: slow_jobs_def)
  have state: "\<not> isJobSucceeded ?running" "\<not> isJobFailed ?running" "isJobSucceeded ?ready" "\<not> isJobFailed ?ready" by code_simp+
  have "(3::int) - 2 < we_ObservationTimeout demo_config" "0 < we_ObservationTimeout demo_config" unfolding patience by simp_all
  from early_worker_goes_unseen [OF op s0 _ _ limits _ state(1,2) _ state(3,4) _ state(4) this,
    of slow_jobs 0 1 2 3 demo_scaler demo_workers 1] show ?thesis unfolding jobs by simp blast
qed

end
