(* ===== verification/Operator.thy ===== *)
theory Operator
  imports NodeScaler
begin

text \<open>
  The two reconcilers of the operator together (\<^verbatim>\<open>custom-scaler/internal/controller\<close>): they
  share nothing but the status of the object, which the pod scaler writes and the node scaler reads.
\<close>

section \<open>A pod cycle and a node cycle\<close>

text \<open>What was written last is read, and reading changes nothing.\<close>

definition reads_back :: "'w k8s \<Rightarrow> bool" where
  "reads_back k \<longleftrightarrow> (\<forall>cs w w'. patch_status k cs w = (Inr (), w') \<longrightarrow> get_scaler k w' = (Inr cs, w'))"

text \<open>What a pod cycle that ended well has decided, from the forecast it was given and the replicas it found.\<close>

definition decided ::
  "'w k8s \<Rightarrow> scalingPolicy \<Rightarrow> CustomScaler \<Rightarrow> 'w \<Rightarrow> pod_decision \<Rightarrow> bool" where
  "decided k policy cs w d \<longleftrightarrow> (\<exists>body code raw w1 forecast deployment w2. http_post k (spec_URL (cs_Spec cs)) body w = (Inr (code, Inr raw), w1)
     \<and> unmarshal k raw = Inr forecast \<and> get_deployment k (cs_Namespace cs) (spec_DeploymentName (cs_Spec cs)) w1 = (Inr deployment, w2)
     \<and> d = decide k policy (ReactivePressureBump (cs_Status cs)) forecast (case dep_Replicas deployment of None \<Rightarrow> 1 | Some n \<Rightarrow> n))"

lemma pod_cycle_patches:
  assumes "pod_cycle k defs contract cs w = (Inr (), w')" and "reads_back k"
    and "0 \<le> ReactivePressureBump (cs_Status cs)"
    and "no_wrap (scalingPolicyFor defs (cs_Spec cs)) (bump_limit (scalingPolicyFor defs (cs_Spec cs)) (ReactivePressureBump (cs_Status cs)) 1)"
  shows "\<exists>cs' d. get_scaler k w' = (Inr cs', w') \<and> cs_Spec cs' = cs_Spec cs \<and> decided k (scalingPolicyFor defs (cs_Spec cs)) cs w d
     \<and> LastDesiredReplicas (cs_Status cs') = pd_DesiredReplicas d \<and> MinReplicas (scalingPolicyFor defs (cs_Spec cs)) \<le> pd_DesiredReplicas d"
proof -
  from pod_cycle_Inr [OF assms(1)] obtain code raw forecast deployment d body w1 w2 w3 where
    seen: "http_post k (spec_URL (cs_Spec cs)) body w = (Inr (code, Inr raw), w1)"
    "200 \<le> code" "code < 300" "unmarshal k raw = Inr forecast" "fr_Predictions forecast \<noteq> []"
    "get_deployment k (cs_Namespace cs) (spec_DeploymentName (cs_Spec cs)) w1 = (Inr deployment, w2)"
    and d: "d = decide k (scalingPolicyFor defs (cs_Spec cs)) (ReactivePressureBump (cs_Status cs)) forecast
         (case dep_Replicas deployment of None \<Rightarrow> 1 | Some n \<Rightarrow> n)"
    and updated: "if pd_CurrentReplicas d = pd_DesiredReplicas d then w3 = w2
        else update_deployment k (deployment\<lparr>dep_Replicas := Some (pd_DesiredReplicas d)\<rparr>) w2 = (Inr (), w3)"
    and patched: "patchPodScalingStatus k cs d (buildLastPodLoopStatus cs forecast body raw d (clock_now k w3)) w3 = (Inr (), w')"
    by (elim exE conjE)
  let ?p = "scalingPolicyFor defs (cs_Spec cs)"
  let ?cycles = "[(forecast, case dep_Replicas deployment of None \<Rightarrow> 1 | Some n \<Rightarrow> n)]"
  have "d \<in> set (decisions k ?p (ReactivePressureBump (cs_Status cs)) ?cycles)" by (simp add: d Let_def)
  moreover have "no_wrap ?p (bump_limit ?p (ReactivePressureBump (cs_Status cs)) (length ?cycles))" using assms(4) by simp
  ultimately have range: "MinReplicas ?p \<le> pd_DesiredReplicas d"
    using decisions_range [OF scalingPolicyFor_ok _ assms(3) bump_limit_enough(1,2) [OF scalingPolicyFor_ok]] by fastforce
  define cs' where "cs' = cs\<lparr>cs_Status := (cs_Status cs)\<lparr>LastForecastPeak := PeakRequestsPerMinute (pd_Summary d),
     LastEffectiveRequestsPerMinute := EffectiveRequestsPerMinute (pd_Summary d), LastDesiredReplicas := pd_DesiredReplicas d,
     CurrentReplicas := pd_DesiredReplicas d, ReactivePressureBump := pd_NextBump d, ReactivePressureReason := pd_PressureReason d,
     LastPodLoop := Some (buildLastPodLoopStatus cs forecast body raw d (clock_now k w3))\<rparr>\<rparr>"
  have "patch_status k cs' w3 = (Inr (), w')" using patched by (simp add: patchPodScalingStatus_def cs'_def)
  with assms(2) have "get_scaler k w' = (Inr cs', w')" by (simp add: reads_back_def)
  moreover have "cs_Spec cs' = cs_Spec cs" "LastDesiredReplicas (cs_Status cs') = pd_DesiredReplicas d" by (simp_all add: cs'_def)
  moreover have "decided k ?p cs w d" unfolding decided_def using seen(1,4,6) d by blast
  ultimately show ?thesis using range by blast
qed

text \<open>The number of workers for a number of pods: enough of them to hold the pods, within the bounds of the settings.\<close>

definition workers_for :: "WorkerCapacityDefaults \<Rightarrow> int \<Rightarrow> int" where
  "workers_for d pods =
     (let per_worker = max 1 (wd_NodeAllocatableMilliCPU d div wd_PodRequestMilliCPU d);
          enough = max (wd_MinWorkerCount d) ((pods + per_worker - 1) div per_worker) in
      if 0 < wd_MaxWorkerCount d then min (wd_MaxWorkerCount d) enough else enough)"

lemma least_quotient:
  fixes a b q :: int
  assumes "0 < b" "a \<le> q * b" "(q - 1) * b < a"
  shows "(a + b - 1) div b = q"
proof (rule int_div_pos_eq [where r = "a + b - 1 - q * b"])
qed (use assms in \<open>simp_all add: algebra_simps\<close>)

lemma target_for_pods:
  assumes "resolveWorkerTargetCount k (LoadWorkerCapacityDefaultsFromEnv env) spec deployment n w = (Inr target, w')"
    and "wps_TargetWorkerCount spec = None"
    and "wd_CapacityStrategy (normalized_capacity (LoadWorkerCapacityDefaultsFromEnv env)) \<noteq> ''free-slots''"
  shows "\<exists>u. countUnschedulableDeploymentPods k deployment w = (Inr u, w') \<and> wt_DesiredReplicas target = n \<and> wt_UnschedulablePods target = u
    \<and> (let d = normalized_capacity (LoadWorkerCapacityDefaultsFromEnv env); pods = n + wd_SafetyPods d + u in
        0 < n \<and> 0 \<le> u \<and> pods < 2147483648 \<longrightarrow> wt_TargetWorkerCount target = workers_for d pods)"
proof -
  let ?d = "normalized_capacity (LoadWorkerCapacityDefaultsFromEnv env)"
  from assms obtain u where u: "countUnschedulableDeploymentPods k deployment w = (Inr u, w')"
    and target: "target = applyWorkerTargetBounds (resolveWorkerTargetCountByDirectDivide k (base_target ?d n u)) ?d"
    unfolding resolveWorkerTargetCount_def Let_def by (auto elim!: g_bindE)
  let ?b = "base_target ?d n u"
  let ?q = "wt_RawTargetWorkerCount (resolveWorkerTargetCountByDirectDivide k ?b)"
  have fields: "wt_DesiredReplicas target = n" "wt_UnschedulablePods target = u"
    "wt_TargetWorkerCount target = (let raised = max (wd_MinWorkerCount ?d) ?q in
       if 0 < wd_MaxWorkerCount ?d then min (wd_MaxWorkerCount ?d) raised else raised)"
    by (auto simp: target applyWorkerTargetBounds_def resolveWorkerTargetCountByDirectDivide_def base_target_def Let_def)
  have "wt_TargetWorkerCount target = workers_for ?d (n + wd_SafetyPods ?d + u)"
    if "0 < n" "0 \<le> u" "n + wd_SafetyPods ?d + u < 2147483648"
  proof -
    have safety: "0 \<le> wd_SafetyPods ?d" by (simp add: normalized_capacity_def not_negative_or_def Let_def)
    have pods: "wt_DesiredPodsForCapacity ?b = n + wd_SafetyPods ?d + u"
      using that safety by (simp add: base_target_def Let_def i32_id)
    have per: "wt_PodsPerWorker ?b = max 1 (wd_NodeAllocatableMilliCPU ?d div wd_PodRequestMilliCPU ?d)"
      by (auto simp: base_target_def Let_def)
    have "0 < n + wd_SafetyPods ?d + u" using that safety by simp
    with direct_divide_least [of k env n u] have "n + wd_SafetyPods ?d + u \<le> ?q * wt_PodsPerWorker ?b"
      "(?q - 1) * wt_PodsPerWorker ?b < n + wd_SafetyPods ?d + u" unfolding pods by simp_all
    moreover have "0 < wt_PodsPerWorker ?b" unfolding per by simp
    ultimately have "(n + wd_SafetyPods ?d + u + wt_PodsPerWorker ?b - 1) div wt_PodsPerWorker ?b = ?q" by (intro least_quotient)
    then show ?thesis unfolding fields(3) workers_for_def Let_def per by simp
  qed
  with u fields(1,2) show ?thesis unfolding Let_def by blast
qed

lemma node_cycle_Inr:
  assumes "node_cycle k capacity config spec cs w = (Inr (), w')"
  shows "spec_WorkerPrototype (cs_Spec cs) = None \<or>
    (\<exists>s deployment plan plan' target time observed wa w1 w2 w3 w4. spec_WorkerPrototype (cs_Spec cs) = Some s
     \<and> get_deployment k (cs_Namespace cs) (spec_DeploymentName (cs_Spec cs)) wa = (Inr deployment, w1)
     \<and> resolveWorkerTargetCount k capacity s deployment (desired_for_workers cs deployment) w1 = (Inr target, w2)
     \<and> plan = ensureWorkers (wt_TargetWorkerCount target) (wps_MaxBatchSize s) (WorkerPrototype (cs_Status cs))
          observed (wt_UnschedulablePods target) (we_MaxConcurrentCreateOps config) (we_MaxConcurrentDeleteOps config) time
     \<and> reconcileWorkerExecutor k config cs spec plan time w3 = (Inr plan', w4)
     \<and> patchWorkerPrototypeStatus k cs plan' (buildLastNodeLoopStatus cs plan' target time) w4 = (Inr (), w'))"
proof (cases "spec_WorkerPrototype (cs_Spec cs)")
  case (Some s)
  from assms obtain deployment planned w1 w2 where
    found: "get_deployment k (cs_Namespace cs) (spec_DeploymentName (cs_Spec cs)) w = (Inr deployment, w1)"
    and got: "reconcileWorkerPrototype k capacity (we_MaxConcurrentCreateOps config) (we_MaxConcurrentDeleteOps config) cs deployment
       (desired_for_workers cs deployment) (clock_now k w1) w1 = (Inr planned, w2)"
    and rest: "(case planned of None \<Rightarrow> c_return () | Some (plan, target) \<Rightarrow>
           c_bind (or_log (reconcileWorkerExecutor k config cs spec plan (clock_now k w1))) (\<lambda>plan.
           or_log (patchWorkerPrototypeStatus k cs plan (buildLastNodeLoopStatus cs plan target (clock_now k w1))))) w2 = (Inr (), w')"
    unfolding node_cycle_def by (elim c_bindE) auto
  from got Some obtain target observed w3 where
    resolved: "resolveWorkerTargetCount k capacity s deployment (desired_for_workers cs deployment) w1 = (Inr target, w3)"
    and planned: "planned = Some (ensureWorkers (wt_TargetWorkerCount target) (wps_MaxBatchSize s) (WorkerPrototype (cs_Status cs))
            observed (wt_UnschedulablePods target) (we_MaxConcurrentCreateOps config) (we_MaxConcurrentDeleteOps config) (clock_now k w1), target)"
    unfolding reconcileWorkerPrototype_def by (auto elim!: g_bindE)
  from rest obtain plan' w4 where "reconcileWorkerExecutor k config cs spec (fst (the planned)) (clock_now k w1) w2 = (Inr plan', w4)"
    "patchWorkerPrototypeStatus k cs plan' (buildLastNodeLoopStatus cs plan' target (clock_now k w1)) w4 = (Inr (), w')"
    unfolding planned option.case prod.case by (elim c_bindE) auto
  with found resolved Some planned show ?thesis by simp blast
qed simp

text \<open>C9: a node cycle after a pod cycle, when the status that was written last is read, no number of workers is set by hand
  and workers are counted by division.  For the replicas that the pod cycle decided, together with the
  safety pods of the settings and the pods that no node takes, it plans the least number of workers
  that hold them, within the bounds of the settings, and writes it down.  The pressure of the status is not negative, and
  the numbers stay within int32.\<close>

theorem target_follows_replicas:
  assumes "pod_cycle k defs contract cs w = (Inr (), w1)" and "reads_back k"
    and "0 \<le> ReactivePressureBump (cs_Status cs)"
    and "no_wrap (scalingPolicyFor defs (cs_Spec cs)) (bump_limit (scalingPolicyFor defs (cs_Spec cs)) (ReactivePressureBump (cs_Status cs)) 1)"
    and "spec_WorkerPrototype (cs_Spec cs) = Some spec" and "wps_TargetWorkerCount spec = None"
    and "wd_CapacityStrategy (normalized_capacity (LoadWorkerCapacityDefaultsFromEnv env)) \<noteq> ''free-slots''"
    and "get_scaler k w1 = (Inr cs1, w1')" and "node_cycle k (LoadWorkerCapacityDefaultsFromEnv env) config spec cs1 w1' = (Inr (), w2)"
  shows "\<exists>d plan plan' target time observed deployment u wa wb w3 w4. decided k (scalingPolicyFor defs (cs_Spec cs)) cs w d
    \<and> LastDesiredReplicas (cs_Status cs1) = pd_DesiredReplicas d
    \<and> countUnschedulableDeploymentPods k deployment wa = (Inr u, wb)
    \<and> (let caps = normalized_capacity (LoadWorkerCapacityDefaultsFromEnv env); pods = pd_DesiredReplicas d + wd_SafetyPods caps + u in
         0 \<le> u \<and> pods < 2147483648 \<longrightarrow> wt_TargetWorkerCount target = workers_for caps pods)
    \<and> wt_DesiredReplicas target = pd_DesiredReplicas d \<and> wt_UnschedulablePods target = u
    \<and> plan = ensureWorkers (wt_TargetWorkerCount target) (wps_MaxBatchSize spec) (WorkerPrototype (cs_Status cs1))
         observed u (we_MaxConcurrentCreateOps config) (we_MaxConcurrentDeleteOps config) time
    \<and> reconcileWorkerExecutor k config cs1 spec plan time w3 = (Inr plan', w4)
    \<and> patchWorkerPrototypeStatus k cs1 plan' (buildLastNodeLoopStatus cs1 plan' target time) w4 = (Inr (), w2)
    \<and> nl_Target (buildLastNodeLoopStatus cs1 plan' target time) = target"
proof -
  from pod_cycle_patches [OF assms(1-4)] assms(8) obtain d where
    cs1: "cs_Spec cs1 = cs_Spec cs" "decided k (scalingPolicyFor defs (cs_Spec cs)) cs w d"
      "LastDesiredReplicas (cs_Status cs1) = pd_DesiredReplicas d" "MinReplicas (scalingPolicyFor defs (cs_Spec cs)) \<le> pd_DesiredReplicas d" by auto
  have pos: "0 < pd_DesiredReplicas d" using cs1(4) scalingPolicyFor_ok [of defs "cs_Spec cs"] by (simp add: policy_ok_def)
  have n: "desired_for_workers cs1 deployment = pd_DesiredReplicas d" for deployment using pos cs1(3) by (simp add: desired_for_workers_def)
  have spec: "spec_WorkerPrototype (cs_Spec cs1) = Some spec" using cs1(1) assms(5) by simp
  from node_cycle_Inr [OF assms(9), unfolded n] spec obtain deployment plan plan' target time observed wa wb w3 w4 where
    resolved: "resolveWorkerTargetCount k (LoadWorkerCapacityDefaultsFromEnv env) spec deployment (pd_DesiredReplicas d) wa = (Inr target, wb)"
    and plan: "plan = ensureWorkers (wt_TargetWorkerCount target) (wps_MaxBatchSize spec) (WorkerPrototype (cs_Status cs1))
         observed (wt_UnschedulablePods target) (we_MaxConcurrentCreateOps config) (we_MaxConcurrentDeleteOps config) time"
    and executed: "reconcileWorkerExecutor k config cs1 spec plan time w3 = (Inr plan', w4)"
    and patched: "patchWorkerPrototypeStatus k cs1 plan' (buildLastNodeLoopStatus cs1 plan' target time) w4 = (Inr (), w2)" by auto
  from target_for_pods [OF resolved assms(6,7)] obtain u where
    u: "countUnschedulableDeploymentPods k deployment wa = (Inr u, wb)" "wt_DesiredReplicas target = pd_DesiredReplicas d"
      "wt_UnschedulablePods target = u"
    and count: "let caps = normalized_capacity (LoadWorkerCapacityDefaultsFromEnv env); pods = pd_DesiredReplicas d + wd_SafetyPods caps + u in
      0 < pd_DesiredReplicas d \<and> 0 \<le> u \<and> pods < 2147483648 \<longrightarrow> wt_TargetWorkerCount target = workers_for caps pods" by (elim exE conjE)
  have "let caps = normalized_capacity (LoadWorkerCapacityDefaultsFromEnv env); pods = pd_DesiredReplicas d + wd_SafetyPods caps + u in
      0 \<le> u \<and> pods < 2147483648 \<longrightarrow> wt_TargetWorkerCount target = workers_for caps pods" using count pos by (simp add: Let_def)
  moreover have "nl_Target (buildLastNodeLoopStatus cs1 plan' target time) = target" by (simp add: buildLastNodeLoopStatus_def Let_def)
  ultimately show ?thesis using cs1(2,3) u(1,2) plan [unfolded u(3)] executed patched u(3) by (intro exI conjI)
qed

section \<open>An example\<close>

text \<open>A cluster whose state is the object and the deployment's replicas.\<close>

definition storing :: "(CustomScaler \<times> int) k8s" where
  "storing = \<lparr>get_scaler = \<lambda>(cs, r). (Inr cs, (cs, r)),
     get_deployment = \<lambda>ns name (cs, r). (Inr \<lparr>dep_Namespace = ns, dep_Name = name, dep_Replicas = Some r,
       dep_Selector = Inr (\<lambda>l. True)\<rparr>, (cs, r)),
     update_deployment = \<lambda>d (cs, r). (Inr (), (cs, case dep_Replicas d of None \<Rightarrow> r | Some n \<Rightarrow> n)),
     patch_status = \<lambda>cs (old, r). (Inr (), (cs, r)), list_nodes = g_return [], list_pods = g_return [],
     list_pods_in = \<lambda>ns sel. g_return [], get_job = \<lambda>ns name. g_return [], create_job = \<lambda>job. g_return (),
     http_post = \<lambda>url body. g_return (200, Inr ''{}''), marshal_text = \<lambda>s. s, unmarshal = \<lambda>body. Inr demo_forecast,
     clock_now = \<lambda>w. 0, rand_string = \<lambda>n w. (replicate n CHR ''x'', w), beyond_int32 = \<lambda>x. 0\<rparr>"

definition with_workers :: CustomScaler where
  "with_workers = demo_scaler\<lparr>cs_Spec := demo_spec\<lparr>spec_WorkerPrototype := Some demo_workers\<rparr>\<rparr>"

lemma storing_reads_back: "reads_back storing"
  by (auto simp: reads_back_def storing_def)

theorem target_follows_replicas_witness:
  "\<exists>(d :: pod_decision) plan target time w4. pd_DesiredReplicas d = LastDesiredReplicas (cs_Status (fst (snd (pod_Reconcile storing safe_defaults ''c'' (with_workers, 1)))))
     \<and> wt_DesiredReplicas target = pd_DesiredReplicas d
     \<and> patchWorkerPrototypeStatus storing (fst (snd (pod_Reconcile storing safe_defaults ''c'' (with_workers, 1)))) plan
         (buildLastNodeLoopStatus (fst (snd (pod_Reconcile storing safe_defaults ''c'' (with_workers, 1)))) plan target time) w4
       = (Inr (), snd (node_cycle storing (LoadWorkerCapacityDefaultsFromEnv (\<lambda>v. None)) no_commands demo_workers
           (fst (snd (pod_Reconcile storing safe_defaults ''c'' (with_workers, 1))))
           (snd (pod_Reconcile storing safe_defaults ''c'' (with_workers, 1)))))"
proof -
  let ?pods = "pod_cycle storing safe_defaults ''c'' with_workers (with_workers, 1)"
  let ?w1 = "snd ?pods"
  let ?nodes = "node_cycle storing (LoadWorkerCapacityDefaultsFromEnv (\<lambda>v. None)) no_commands demo_workers (fst ?w1) ?w1"
  have "fst ?pods = Inr ()" by code_simp
  then have pods: "?pods = (Inr (), ?w1)" by (metis prod.collapse)
  have "fst ?nodes = Inr ()" by code_simp
  then have nodes: "?nodes = (Inr (), snd ?nodes)" by (metis prod.collapse)
  let ?p = "scalingPolicyFor safe_defaults (cs_Spec with_workers)"
  have policy: "0 \<le> ReactivePressureBump (cs_Status with_workers)"
    "no_wrap ?p (bump_limit ?p (ReactivePressureBump (cs_Status with_workers)) 1)" by code_simp+
  have spec: "spec_WorkerPrototype (cs_Spec with_workers) = Some demo_workers" "wps_TargetWorkerCount demo_workers = None"
    by (simp_all add: with_workers_def demo_workers_def)
  have strategy: "wd_CapacityStrategy (normalized_capacity (LoadWorkerCapacityDefaultsFromEnv (\<lambda>v. None))) \<noteq> ''free-slots''" by code_simp
  have got: "get_scaler storing ?w1 = (Inr (fst ?w1), ?w1)" by (simp add: storing_def split: prod.split)
  from target_follows_replicas [OF pods storing_reads_back policy spec strategy got nodes] obtain d plan target time w4 where
    r: "pd_DesiredReplicas (d :: pod_decision) = LastDesiredReplicas (cs_Status (fst ?w1))" "wt_DesiredReplicas target = pd_DesiredReplicas d"
    "patchWorkerPrototypeStatus storing (fst ?w1) plan (buildLastNodeLoopStatus (fst ?w1) plan target time) w4 = (Inr (), snd ?nodes)"
    by (elim exE conjE) (rule that, simp_all)
  have "snd (pod_Reconcile storing safe_defaults ''c'' (with_workers, 1)) = ?w1"
    by (simp add: pod_Reconcile_def storing_def Let_def split: prod.split)
  then show ?thesis using r by metis
qed

end
