(* ===== verification/DemandProfiles.thy ===== *)
theory DemandProfiles
  imports Json GoBase "HOL-Library.AList"
begin

text \<open>
  The profiles of the resource demand service and the demand sampled from them
  (\<^verbatim>\<open>general-resource-demand-service/src/resource-demand/resource-demand.profiles.ts\<close>,
  \<^verbatim>\<open>resource-demand.types.ts\<close>).  A thrown error is its message; numbers are finite floats, sums and
  products beyond the range of floats are left out.  Values are those \<^verbatim>\<open>JSON.parse\<close> gives, in whose objects
  no name occurs twice.
\<close>

section \<open>JavaScript\<close>

definition js_space :: "char \<Rightarrow> bool" where
  "js_space c = (let n = of_char c :: nat in 9 \<le> n \<and> n \<le> 13 \<or> n = 32 \<or> n = 160)"

definition class_name :: "string \<Rightarrow> string" where
  "class_name s = lower (trim_with js_space s)"

text \<open>\<^verbatim>\<open>/^[a-z0-9._-]+$/\<close>\<close>

definition class_char :: "char \<Rightarrow> bool" where
  "class_char c = (let n = of_char c :: nat in 97 \<le> n \<and> n \<le> 122 \<or> 48 \<le> n \<and> n \<le> 57 \<or> c \<in> {CHR ''.'', CHR ''_'', CHR ''-''})"

definition valid_class :: "string \<Rightarrow> bool" where
  "valid_class s = (s \<noteq> [] \<and> list_all class_char s)"

text \<open>\<^verbatim>\<open>Object.entries\<close>: names that are array indices come first and rise.\<close>

definition index_value :: "string \<Rightarrow> nat" where
  "index_value s = foldl (\<lambda>n c. 10 * n + digit_val c) 0 s"

definition is_index :: "string \<Rightarrow> bool" where
  "is_index s = (s \<noteq> [] \<and> list_all is_digit s \<and> (s = ''0'' \<or> hd s \<noteq> CHR ''0'') \<and> index_value s < 4294967295)"

definition js_entries :: "(string \<times> 'a) list \<Rightarrow> (string \<times> 'a) list" where
  "js_entries d = sort_key (\<lambda>(name, v). index_value name) (filter (\<lambda>(name, v). is_index name) d)
     @ filter (\<lambda>(name, v). \<not> is_index name) d"

definition from_entries :: "(string \<times> 'a) list \<Rightarrow> (string \<times> 'a) list" where
  "from_entries es = foldl (\<lambda>d (name, v). AList.update name v d) [] es"

definition js_round :: "rat \<Rightarrow> int" where
  "js_round x = \<lfloor>x + 1 / 2\<rfloor>"

fun js_number :: "json \<Rightarrow> pfloat option" where
  "js_number (JInt n) = Some (to_float (of_int n))"
| "js_number (JFloat x) = Some x"
| "js_number _ = None"

definition js_object :: "json \<Rightarrow> bool" where
  "js_object v = (is_obj v \<or> is_arr v)"

section \<open>Profiles\<close>

record CpuDemandConfig =
  cfg_baseThreadCpuMs :: rat
  cfg_cpuNoiseLimitMs :: rat
  cfg_requestClassWeights :: "(string \<times> rat) list"

record CpuDemandProfile =
  cpu_requestClass :: string
  cpu_baseThreadCpuMs :: rat
  cpu_cpuWeight :: rat
  cpu_cpuNoiseLimitMs :: rat

text \<open>\<open>pay_bytes\<close> are the nine percentiles from \<^verbatim>\<open>p01Bytes\<close> to \<^verbatim>\<open>p99Bytes\<close>.\<close>

record ResponsePayloadPercentileProfile =
  pay_requestClass :: string
  pay_bytes :: "rat list"

record RequestClassProfile =
  rcp_requestClass :: string
  rcp_cpuDemandProfile :: CpuDemandProfile
  rcp_responsePayloadDemandProfile :: ResponsePayloadPercentileProfile

section \<open>Validation\<close>

definition validateNumber :: "json \<Rightarrow> string \<Rightarrow> int \<Rightarrow> string + rat" where
  "validateNumber v label index = (case js_number v of
     Some (Fin r) \<Rightarrow> Inr r
   | _ \<Rightarrow> Inl (label @ '' at index '' @ int_str index @ '' must be a finite number''))"

definition validateWeight :: "string \<Rightarrow> string \<times> json \<Rightarrow> string + (string \<times> rat)" where
  "validateWeight label entry =
     (let requestClass = class_name (fst entry); named = label @ '' cpuWeight for '' @ [CHR 0x27] @ requestClass @ [CHR 0x27] in
      if \<not> valid_class requestClass
      then Inl (label @ '' requestClassWeights contains an invalid request class '' @ [CHR 0x27] @ fst entry @ [CHR 0x27])
      else res_bind (validateNumber (snd entry) named 0) (\<lambda>cpuWeight.
        if cpuWeight \<le> 0 then Inl (named @ '' must be > 0'') else Inr (requestClass, cpuWeight)))"

definition validateRequestClassWeights :: "json \<Rightarrow> string \<Rightarrow> string + (string \<times> rat) list" where
  "validateRequestClassWeights v label =
     (if \<not> is_obj v then Inl (label @ '' requestClassWeights must be an object'')
      else if obj_items v = [] then Inl (label @ '' requestClassWeights must not be empty'')
      else res_bind (traverse (validateWeight label) (js_entries (obj_items v))) (\<lambda>es. Inr (from_entries es)))"

definition validateCpuDemandConfig :: "json \<Rightarrow> string \<Rightarrow> string + CpuDemandConfig" where
  "validateCpuDemandConfig v label =
     (if \<not> js_object v then Inl (label @ '' config must be an object'')
      else res_bind (validateNumber (jget ''baseThreadCpuMs'' v) (label @ '' baseThreadCpuMs'') 0) (\<lambda>base.
        res_bind (validateNumber (jget ''cpuNoiseLimitMs'' v) (label @ '' cpuNoiseLimitMs'') 0) (\<lambda>noise.
        res_bind (validateRequestClassWeights (jget ''requestClassWeights'' v) label) (\<lambda>weights.
          if base \<le> 0 then Inl (label @ '' baseThreadCpuMs must be > 0'')
          else if noise < 0 then Inl (label @ '' cpuNoiseLimitMs must be >= 0'')
          else Inr \<lparr>cfg_baseThreadCpuMs = base, cfg_cpuNoiseLimitMs = noise, cfg_requestClassWeights = weights\<rparr>))))"

definition percentile_names :: "string list" where
  "percentile_names = [''p01Bytes'', ''p05Bytes'', ''p10Bytes'', ''p25Bytes'', ''p50Bytes'', ''p75Bytes'', ''p90Bytes'', ''p95Bytes'', ''p99Bytes'']"

text \<open>\<open>to_text\<close> is \<^verbatim>\<open>String\<close> of a value that is no text.\<close>

definition class_of :: "(json \<Rightarrow> string) \<Rightarrow> json \<Rightarrow> string" where
  "class_of to_text v = class_name (case v of JNull \<Rightarrow> [] | JStr s \<Rightarrow> s | _ \<Rightarrow> to_text v)"

definition validateResponsePayloadPercentileProfile ::
  "(json \<Rightarrow> string) \<Rightarrow> string \<Rightarrow> json \<times> nat \<Rightarrow> string + ResponsePayloadPercentileProfile" where
  "validateResponsePayloadPercentileProfile to_text label entry =
     (let (v, i) = entry; place = '' at index '' @ int_str (int i); requestClass = class_of to_text (jget ''requestClass'' v) in
      if \<not> js_object v then Inl (label @ '' profile'' @ place @ '' must be an object'')
      else if \<not> valid_class requestClass then Inl (label @ '' profile'' @ place @ '' must define a valid requestClass'')
      else res_bind (traverse (\<lambda>name. validateNumber (jget name v) (label @ '' '' @ name) (int i)) percentile_names) (\<lambda>bytes.
        if list_ex (\<lambda>b. b < 0) bytes then Inl (label @ '' percentile values'' @ place @ '' must be >= 0'')
        else if \<not> sorted bytes then Inl (label @ '' percentile values'' @ place @ '' must be non-decreasing'')
        else Inr \<lparr>pay_requestClass = requestClass, pay_bytes = bytes\<rparr>))"

text \<open>The callback of \<^verbatim>\<open>map\<close>: a profile whose class has not been there yet.\<close>

definition add_profile :: "(json \<Rightarrow> string) \<Rightarrow> string \<Rightarrow> json \<times> nat \<Rightarrow> ResponsePayloadPercentileProfile list
    \<Rightarrow> string + ResponsePayloadPercentileProfile list" where
  "add_profile to_text label entry seen =
     res_bind (validateResponsePayloadPercentileProfile to_text label entry) (\<lambda>profile.
       if pay_requestClass profile \<in> set (map pay_requestClass seen)
       then Inl (label @ '' profiles contain duplicate request class '' @ [CHR 0x27] @ pay_requestClass profile @ [CHR 0x27])
       else Inr (seen @ [profile]))"

definition loadResponsePayloadPercentileProfileList ::
  "(json \<Rightarrow> string) \<Rightarrow> (string + json) \<Rightarrow> string \<Rightarrow> string + ResponsePayloadPercentileProfile list" where
  "loadResponsePayloadPercentileProfileList to_text payload label = res_bind payload (\<lambda>v.
     if \<not> is_arr v \<or> arr_items v = [] then Inl (label @ '' profiles must be a non-empty JSON array'')
     else fold_res (add_profile to_text label) (zip (arr_items v) [0..<length (arr_items v)]) [])"

definition loadCpuDemandConfig :: "(string + json) \<Rightarrow> string \<Rightarrow> string + CpuDemandConfig" where
  "loadCpuDemandConfig payload label = res_bind payload (\<lambda>v. validateCpuDemandConfig v label)"

text \<open>\<open>cpu\<close> and \<open>response\<close> are the parsed files, or the error of reading or parsing them.\<close>

definition loadRequestClassProfiles ::
  "(json \<Rightarrow> string) \<Rightarrow> (string + json) \<Rightarrow> (string + json) \<Rightarrow> string + (string \<times> RequestClassProfile) list" where
  "loadRequestClassProfiles to_text cpu response =
     res_bind (loadCpuDemandConfig cpu ''CPU demand'') (\<lambda>config.
     res_bind (loadResponsePayloadPercentileProfileList to_text response ''response payload demand'') (\<lambda>payloads.
       let profiles = List.map_filter (\<lambda>(requestClass, cpuWeight).
             map_option (\<lambda>payload. (requestClass, \<lparr>rcp_requestClass = requestClass,
               rcp_cpuDemandProfile = \<lparr>cpu_requestClass = requestClass, cpu_baseThreadCpuMs = cfg_baseThreadCpuMs config,
                 cpu_cpuWeight = cpuWeight, cpu_cpuNoiseLimitMs = cfg_cpuNoiseLimitMs config\<rparr>,
               rcp_responsePayloadDemandProfile = payload\<rparr>))
             (map_of (map (\<lambda>p. (pay_requestClass p, p)) payloads) requestClass)) (js_entries (cfg_requestClassWeights config)) in
       if profiles = []
       then Inl (''No request classes were activated because the CPU demand profiles and ''
         @ ''response payload demand profiles do not overlap'')
       else Inr profiles))"

section \<open>Sampling\<close>

record SampledRequestClassDemand =
  dem_requestClass :: string
  dem_targetThreadCpuMs :: rat
  dem_targetThreadCpuTimeNs :: int
  dem_targetResponsePayloadBytes :: int

text \<open>\<open>random\<close> is \<^verbatim>\<open>Math.random()\<close> with the generator's state.\<close>

definition randomIntInclusive :: "('w \<Rightarrow> rat \<times> 'w) \<Rightarrow> int \<Rightarrow> int \<Rightarrow> 'w \<Rightarrow> int \<times> 'w" where
  "randomIntInclusive random low high w =
     (if high \<le> low then (low, w)
      else let (r, w') = random w in
        (\<lfloor>fadd (of_int \<lfloor>fmul r (fadd (fsub (of_int high) (of_int low)) 1)\<rfloor>) (of_int low)\<rfloor>, w'))"

definition sampleDouble :: "('w \<Rightarrow> rat \<times> 'w) \<Rightarrow> rat \<Rightarrow> rat \<Rightarrow> 'w \<Rightarrow> rat \<times> 'w" where
  "sampleDouble random low high w =
     (if high \<le> low then (low, w)
      else let (r, w') = random w in (fadd (fmul r (fsub high low)) low, w'))"

definition sampleCpuDemand :: "('w \<Rightarrow> rat \<times> 'w) \<Rightarrow> CpuDemandProfile \<Rightarrow> 'w \<Rightarrow> rat \<times> 'w" where
  "sampleCpuDemand random profile w =
     (let base = fmul (cpu_baseThreadCpuMs profile) (cpu_cpuWeight profile); limit = cpu_cpuNoiseLimitMs profile;
          (noise, w') = sampleDouble random (- limit) limit w in
      (max (rnd64 (1 / 1000)) (fadd base noise), w'))"

definition percentiles :: "int list" where
  "percentiles = [1, 5, 10, 25, 50, 75, 90, 95, 99]"

text \<open>The loop over the steps from the second on, with the step after each.\<close>

fun find_band :: "int \<Rightarrow> (int \<times> rat) \<Rightarrow> (int \<times> rat) \<Rightarrow> (int \<times> rat) list \<Rightarrow> (int \<times> rat) \<times> (int \<times> rat)" where
  "find_band roll low high [] = (low, high)"
| "find_band roll low high (step # steps) =
     (if roll < fst step then (low, step)
      else find_band roll step (case steps of [] \<Rightarrow> step | next_step # _ \<Rightarrow> next_step) steps)"

definition sampleResponsePayloadBytesFromPercentiles ::
  "('w \<Rightarrow> rat \<times> 'w) \<Rightarrow> ResponsePayloadPercentileProfile \<Rightarrow> 'w \<Rightarrow> int \<times> 'w" where
  "sampleResponsePayloadBytesFromPercentiles random profile w =
     (let steps = zip percentiles (pay_bytes profile); (roll, w') = randomIntInclusive random 1 100 w in
      if 99 \<le> roll then (max 0 (js_round (pay_bytes profile ! 8)), w')
      else let (low, high) = find_band roll (steps ! 0) (steps ! 1) (drop 1 steps);
               a = js_round (snd low); b = js_round (snd high) in
        randomIntInclusive random (min a b) (max a b) w')"

definition sampleRequestClassDemand :: "('w \<Rightarrow> rat \<times> 'w) \<Rightarrow> RequestClassProfile \<Rightarrow> 'w \<Rightarrow> SampledRequestClassDemand \<times> 'w" where
  "sampleRequestClassDemand random profile w =
     (let (ms, w1) = sampleCpuDemand random (rcp_cpuDemandProfile profile) w;
          (bytes, w2) = sampleResponsePayloadBytesFromPercentiles random (rcp_responsePayloadDemandProfile profile) w1 in
      (\<lparr>dem_requestClass = rcp_requestClass profile, dem_targetThreadCpuMs = ms,
        dem_targetThreadCpuTimeNs = max 1 (js_round (fmul ms 1000000)), dem_targetResponsePayloadBytes = bytes\<rparr>, w2))"

section \<open>Loaded profiles\<close>

definition profile_ok :: "RequestClassProfile \<Rightarrow> bool" where
  "profile_ok p \<longleftrightarrow> (let cpu = rcp_cpuDemandProfile p; pay = rcp_responsePayloadDemandProfile p in
     valid_class (rcp_requestClass p) \<and> cpu_requestClass cpu = rcp_requestClass p \<and> pay_requestClass pay = rcp_requestClass p
     \<and> 0 < cpu_baseThreadCpuMs cpu \<and> 0 < cpu_cpuWeight cpu \<and> 0 \<le> cpu_cpuNoiseLimitMs cpu
     \<and> length (pay_bytes pay) = 9 \<and> sorted (pay_bytes pay) \<and> list_all (\<lambda>b. 0 \<le> b) (pay_bytes pay))"

lemma from_entries_set: "set (from_entries es) \<subseteq> set es" and from_entries_distinct: "distinct (map fst (from_entries es))"
proof -
  have "set (foldl (\<lambda>d (name, v). AList.update name v d) d es) \<subseteq> set d \<union> set es
      \<and> (distinct (map fst d) \<longrightarrow> distinct (map fst (foldl (\<lambda>d (name, v). AList.update name v d) d es)))" for d
  proof (induction es arbitrary: d)
    case (Cons e es)
    obtain n v where e: "e = (n, v)" by (cases e)
    have "set (AList.update n v d) \<subseteq> insert (n, v) (set d)" by (induction d) auto
    with Cons [of "AList.update n v d"] show ?case using distinct_update [of d n v] by (auto simp: e)
  qed simp
  from this [of "[]"] show "set (from_entries es) \<subseteq> set es" "distinct (map fst (from_entries es))"
    by (simp_all add: from_entries_def)
qed

lemma js_entries_set [simp]: "set (js_entries d) = set d"
  by (auto simp: js_entries_def)

lemma js_entries_distinct: "distinct (map fst d) \<Longrightarrow> distinct (map fst (js_entries d))"
  by (auto simp: js_entries_def distinct_map inj_on_def)

lemma validateWeight_Inr: "validateWeight label e = Inr (n, x) \<Longrightarrow> valid_class n \<and> 0 < x"
  by (auto simp: validateWeight_def Let_def res_bind_Inr_iff split: if_splits)

lemma validated_weights:
  assumes "validateRequestClassWeights v label = Inr d"
  shows "distinct (map fst d) \<and> list_all (\<lambda>(n, x). valid_class n \<and> 0 < x) d"
proof -
  from assms obtain es where es: "traverse (validateWeight label) (js_entries (obj_items v)) = Inr es" and d: "d = from_entries es"
    by (auto simp: validateRequestClassWeights_def res_bind_Inr_iff split: if_splits)
  have "\<forall>e \<in> set es. \<exists>j. validateWeight label j = Inr e"
  proof
    fix e assume "e \<in> set es"
    then obtain i where "i < length es" "e = es ! i" by (auto simp: in_set_conv_nth)
    then show "\<exists>j. validateWeight label j = Inr e" using es unfolding traverse_Inr_iff list_all2_conv_all_nth by metis
  qed
  then have "\<forall>(n, x) \<in> set es. valid_class n \<and> 0 < x" using validateWeight_Inr by fast
  then show ?thesis using from_entries_set [of es] from_entries_distinct [of es] by (auto simp: d list_all_iff)
qed

lemma loaded_cpu_config:
  assumes "loadCpuDemandConfig cpu label = Inr config"
  shows "0 < cfg_baseThreadCpuMs config \<and> 0 \<le> cfg_cpuNoiseLimitMs config \<and> distinct (map fst (cfg_requestClassWeights config))
    \<and> list_all (\<lambda>(n, x). valid_class n \<and> 0 < x) (cfg_requestClassWeights config)"
proof -
  from assms obtain v base noise weights where "validateRequestClassWeights (jget ''requestClassWeights'' v) label = Inr weights"
    "\<not> base \<le> 0" "\<not> noise < 0"
    "config = \<lparr>cfg_baseThreadCpuMs = base, cfg_cpuNoiseLimitMs = noise, cfg_requestClassWeights = weights\<rparr>"
    unfolding loadCpuDemandConfig_def validateCpuDemandConfig_def by (auto simp: res_bind_Inr_iff split: if_splits)
  with validated_weights show ?thesis by fastforce
qed

definition payload_ok :: "ResponsePayloadPercentileProfile \<Rightarrow> bool" where
  "payload_ok p \<longleftrightarrow> valid_class (pay_requestClass p) \<and> length (pay_bytes p) = 9 \<and> sorted (pay_bytes p) \<and> list_all (\<lambda>b. 0 \<le> b) (pay_bytes p)"

lemma validated_payload:
  assumes "validateResponsePayloadPercentileProfile to_text label entry = Inr p"
  shows "payload_ok p"
proof -
  obtain v i where e: "entry = (v, i)" by (cases entry)
  from assms obtain bytes where b: "traverse (\<lambda>name. validateNumber (jget name v) (label @ '' '' @ name) (int i)) percentile_names = Inr bytes"
    and p: "p = \<lparr>pay_requestClass = class_of to_text (jget ''requestClass'' v), pay_bytes = bytes\<rparr>"
    and ok: "valid_class (class_of to_text (jget ''requestClass'' v))" "\<not> list_ex (\<lambda>b. b < 0) bytes" "sorted bytes"
    unfolding validateResponsePayloadPercentileProfile_def e Let_def prod.case
    by (auto simp only: res_bind_Inr_iff split: if_splits)
  have "length bytes = 9" using traverse_length [OF b] by (simp add: percentile_names_def)
  then show ?thesis using ok by (auto simp: payload_ok_def p list_ex_iff list_all_iff not_less)
qed

lemma loaded_payloads:
  assumes "loadResponsePayloadPercentileProfileList to_text payload label = Inr ps"
  shows "list_all payload_ok ps \<and> distinct (map pay_requestClass ps)"
proof -
  from assms obtain v where "fold_res (add_profile to_text label) (zip (arr_items v) [0..<length (arr_items v)]) [] = Inr ps"
    unfolding loadResponsePayloadPercentileProfileList_def by (auto simp: res_bind_Inr_iff split: if_splits)
  then show ?thesis
  proof (rule fold_res_invariant)
    fix entry ps qs
    assume ok: "list_all payload_ok ps \<and> distinct (map pay_requestClass ps)" and step: "add_profile to_text label entry ps = Inr qs"
    from step obtain p where "validateResponsePayloadPercentileProfile to_text label entry = Inr p"
      "pay_requestClass p \<notin> set (map pay_requestClass ps)" "qs = ps @ [p]"
      unfolding add_profile_def by (auto simp only: res_bind_Inr_iff split: if_splits)
    with ok validated_payload show "list_all payload_ok qs \<and> distinct (map pay_requestClass qs)" by simp
  qed simp
qed

lemma active_names:
  "map fst (List.map_filter (\<lambda>(n, x). map_option (\<lambda>q. (n, g n x q)) (m n)) es) = filter (\<lambda>n. m n \<noteq> None) (map fst es)"
  by (induction es) (auto simp: List.map_filter_simps split: option.split)

lemma active_entries:
  "(n, p) \<in> set (List.map_filter (\<lambda>(n, x). map_option (\<lambda>q. (n, g n x q)) (m n)) es)
    \<longleftrightarrow> (\<exists>x q. (n, x) \<in> set es \<and> m n = Some q \<and> p = g n x q)"
  by (induction es) (auto simp: List.map_filter_simps split: option.split)

section \<open>What is sampled\<close>

text \<open>The largest number of \<^verbatim>\<open>Math.random()\<close> is \<open>1 - 2 ^ -53\<close>.\<close>

definition random_ok :: "('w \<Rightarrow> rat \<times> 'w) \<Rightarrow> bool" where
  "random_ok random \<longleftrightarrow> (\<forall>w. 0 \<le> fst (random w) \<and> fst (random w) \<le> 1 - 1 / 2 ^ 53)"

lemma scaled_random:
  fixes r :: rat
  assumes "0 \<le> r" "r \<le> 1 - 1 / 2 ^ 53" "0 < n"
  shows "0 \<le> fmul r (of_int n)" and "fmul r (of_int n) < of_int n"
proof -
  let ?x = "r * of_int n"
  have x: "0 \<le> ?x" "?x \<le> (1 - 1 / 2 ^ 53) * of_int n" using assms by (simp_all add: mult_right_mono)
  then show "0 \<le> fmul r (of_int n)" by (simp add: fmul_def rnd64_nonneg)
  have one: "(1::rat) \<le> of_int n" using assms(3) by linarith
  show "fmul r (of_int n) < of_int n"
  proof (cases "2 powi (-1022) \<le> ?x")
    case True
    have "rnd64 ?x \<le> ?x * (1 + 1 / 2 ^ 53)" using abs_le_D1 [OF rnd64_error [OF True]] by (simp add: distrib_left)
    also have "\<dots> \<le> (1 - 1 / 2 ^ 53) * of_int n * (1 + 1 / 2 ^ 53)" by (rule mult_right_mono [OF x(2)]) simp
    also have "\<dots> = of_int n * (1 - 1 / 2 ^ 106)" by (simp add: algebra_simps)
    also have "\<dots> < of_int n" using one by simp
    finally show ?thesis by (simp add: fmul_def)
  next
    case False
    moreover have "(2::rat) powi (-1022) \<le> 2 powi (-2)" by (intro power_int_increasing) simp_all
    ultimately have "?x \<le> 1 / 4" by (simp add: power_int_minus_divide)
    then have "rnd64 ?x \<le> 1 / 4" using rnd64_mono [of ?x "1 / 4"] rnd64_quarters [of 1] by simp
    with one show ?thesis by (simp add: fmul_def)
  qed
qed

lemma randomIntInclusive_range:
  assumes "random_ok random" "low \<le> high" "0 \<le> low" "high \<le> 2 ^ 52" "randomIntInclusive random low high w = (n, w')"
  shows "low \<le> n \<and> n \<le> high"
proof (cases "high \<le> low")
  case False
  let ?r = "fst (random w)" and ?d = "high - low + 1"
  have d: "fadd (fsub (of_int high) (of_int low)) 1 = of_int ?d"
    using assms(2-4) rnd64_of_int [of "high - low"] rnd64_of_int [of ?d] by (simp add: fadd_def fsub_def)
  have r: "0 \<le> ?r" "?r \<le> 1 - 1 / 2 ^ 53" using assms(1) by (simp_all add: random_ok_def)
  note x = scaled_random [OF r, of ?d]
  let ?k = "\<lfloor>fmul ?r (of_int ?d)\<rfloor>"
  have k: "0 \<le> ?k" "?k < ?d" using x False by (simp, simp only: floor_less_iff)
  have "fadd (of_int ?k) (of_int low) = of_int (?k + low)"
    using rnd64_of_int [of "?k + low"] k assms(3,4) by (simp add: fadd_def)
  then have "n = ?k + low" using assms(5) False d unfolding randomIntInclusive_def by (simp add: case_prod_unfold Let_def)
  with k show ?thesis by simp
qed (use assms in \<open>simp add: randomIntInclusive_def\<close>)

text \<open>The band of percentiles that a roll falls into.\<close>

definition band :: "int \<Rightarrow> rat list \<Rightarrow> rat \<times> rat" where
  "band roll bytes =
     (if 99 \<le> roll then (bytes ! 8, bytes ! 8)
      else let i = length (filter (\<lambda>p. p \<le> max 1 roll) percentiles) in (bytes ! (i - 1), bytes ! i))"

lemma nine: "length xs = 9 \<Longrightarrow> \<exists>a b c d e f g h i. xs = [a, b, c, d, e, f, g, h, i]"
  by (auto simp: numeral_eq_Suc length_Suc_conv)

lemma find_band_is_band:
  assumes "length bytes = 9" "1 \<le> roll" "roll < 99"
  shows "map_prod snd snd (find_band roll (zip percentiles bytes ! 0) (zip percentiles bytes ! 1) (drop 1 (zip percentiles bytes))) = band roll bytes"
proof -
  from nine [OF assms(1)] obtain a b c d e f g h i where "bytes = [a, b, c, d, e, f, g, h, i]" by blast
  with assms(2,3) show ?thesis by (simp add: percentiles_def band_def Let_def)
qed

lemma band_rises:
  assumes "sorted bytes" "length bytes = 9" "1 \<le> roll"
  shows "fst (band roll bytes) \<le> snd (band roll bytes) \<and> fst (band roll bytes) \<in> set bytes \<and> snd (band roll bytes) \<in> set bytes"
proof -
  from nine [OF assms(2)] obtain a b c d e f g h i where "bytes = [a, b, c, d, e, f, g, h, i]" by blast
  with assms(1,3) show ?thesis by (simp add: percentiles_def band_def Let_def)
qed

lemma js_round_mono: "x \<le> y \<Longrightarrow> js_round x \<le> js_round y"
  by (simp add: js_round_def floor_mono)

lemma js_round_nonneg: "0 \<le> x \<Longrightarrow> 0 \<le> js_round x"
  by (simp add: js_round_def)

lemma js_round_le: "x \<le> of_int n \<Longrightarrow> js_round x \<le> n"
  by (simp add: js_round_def floor_le_iff)

lemma sampled_bytes_in_band:
  assumes "random_ok random" and "payload_ok p" and "list_all (\<lambda>b. b \<le> 2 ^ 52) (pay_bytes p)"
    and "sampleResponsePayloadBytesFromPercentiles random p w = (n, w')"
  obtains roll where "roll = fst (randomIntInclusive random 1 100 w)" "1 \<le> roll" "roll \<le> 100"
    "js_round (fst (band roll (pay_bytes p))) \<le> n" "n \<le> js_round (snd (band roll (pay_bytes p)))"
proof -
  let ?b = "pay_bytes p"
  have b: "length ?b = 9" "sorted ?b" "list_all (\<lambda>b. 0 \<le> b) ?b" using assms(2) by (simp_all add: payload_ok_def)
  obtain roll w1 where roll: "randomIntInclusive random 1 100 w = (roll, w1)" by (rule prod.exhaust)
  have r: "1 \<le> roll" "roll \<le> 100" using randomIntInclusive_range [OF assms(1) _ _ _ roll] by simp_all
  note rises = band_rises [OF b(2,1) r(1)]
  have first_draw: "roll = fst (randomIntInclusive random 1 100 w)" by (simp add: roll)
  show ?thesis
  proof (cases "99 \<le> roll")
    case True
    have "n = max 0 (js_round (?b ! 8))" using assms(4) roll True unfolding sampleResponsePayloadBytesFromPercentiles_def by (simp add: Let_def)
    moreover have "0 \<le> js_round (?b ! 8)" using b by (intro js_round_nonneg) (simp add: list_all_length)
    ultimately show ?thesis using that [of roll] first_draw r True by (simp add: band_def)
  next
    case False
    let ?f = "find_band roll (zip percentiles ?b ! 0) (zip percentiles ?b ! 1) (drop 1 (zip percentiles ?b))"
    let ?low = "js_round (fst (band roll ?b))" and ?high = "js_round (snd (band roll ?b))"
    have "map_prod snd snd ?f = band roll ?b" using b(1) r(1) False by (intro find_band_is_band) simp_all
    then have f: "snd (fst ?f) = fst (band roll ?b)" "snd (snd ?f) = snd (band roll ?b)" by (metis fst_map_prod, metis snd_map_prod)
    have low_high: "?low \<le> ?high" using rises by (simp add: js_round_mono)
    have "randomIntInclusive random (min ?low ?high) (max ?low ?high) w1 = (n, w')"
      using assms(4) roll False f unfolding sampleResponsePayloadBytesFromPercentiles_def by (simp add: Let_def case_prod_unfold)
    then have "randomIntInclusive random ?low ?high w1 = (n, w')" using low_high by (simp add: min_def max_def)
    moreover have "0 \<le> ?low" using rises b(3) by (simp add: js_round_nonneg list_all_iff)
    moreover have "?high \<le> 2 ^ 52" using rises assms(3) by (intro js_round_le) (simp add: list_all_iff)
    ultimately show ?thesis using randomIntInclusive_range [OF assms(1) low_high] that [OF first_draw] r by blast
  qed
qed

text \<open>A float whose double is one.\<close>

definition doubled_float :: "rat \<Rightarrow> bool" where
  "doubled_float x \<longleftrightarrow> rnd64 x = x \<and> rnd64 (2 * x) = 2 * x"

lemma sampled_noise:
  assumes "random_ok random" "0 \<le> limit" "doubled_float limit" "sampleDouble random (- limit) limit w = (x, w')"
  shows "- limit \<le> x \<and> x \<le> limit"
proof (cases "limit \<le> - limit")
  case False
  let ?r = "fst (random w)"
  have "0 \<le> ?r \<and> ?r \<le> 1 - 1 / 2 ^ 53" using assms(1) unfolding random_ok_def by blast
  then have r: "0 \<le> ?r" "?r \<le> 1" by simp_all
  have span: "fsub limit (- limit) = 2 * limit" and exact: "rnd64 limit = limit" using assms(3) by (simp_all add: fsub_def doubled_float_def)
  have x: "x = rnd64 (rnd64 (?r * (2 * limit)) - limit)"
    using assms(4) False span by (simp add: sampleDouble_def case_prod_unfold Let_def fadd_def fmul_def)
  have "0 \<le> rnd64 (?r * (2 * limit))" using r assms(2) by (simp add: rnd64_nonneg)
  then have "rnd64 (- limit) \<le> x" unfolding x by (intro rnd64_mono) simp
  moreover have "?r * (2 * limit) \<le> 2 * limit" using r assms(2) by (simp add: mult_left_le_one_le)
  then have "rnd64 (?r * (2 * limit)) \<le> 2 * limit" using rnd64_mono [of "?r * (2 * limit)" "2 * limit"] assms(3) by (simp add: doubled_float_def)
  then have "x \<le> rnd64 limit" unfolding x by (intro rnd64_mono) simp
  ultimately show ?thesis by (simp add: exact)
qed (use assms in \<open>simp add: sampleDouble_def\<close>)

section \<open>Properties\<close>

text \<open>The classes that are loaded are those of both files, each once and with a valid profile.\<close>

theorem loaded_profiles_are_valid:
  assumes "loadRequestClassProfiles to_text cpu response = Inr profiles"
  shows "\<exists>config payloads. loadCpuDemandConfig cpu ''CPU demand'' = Inr config
    \<and> loadResponsePayloadPercentileProfileList to_text response ''response payload demand'' = Inr payloads
    \<and> set (map fst profiles) = set (map fst (cfg_requestClassWeights config)) \<inter> set (map pay_requestClass payloads)
    \<and> profiles \<noteq> [] \<and> distinct (map fst profiles) \<and> list_all (\<lambda>(name, p). rcp_requestClass p = name \<and> profile_ok p) profiles"
proof -
  from assms obtain config payloads where c: "loadCpuDemandConfig cpu ''CPU demand'' = Inr config"
    and r: "loadResponsePayloadPercentileProfileList to_text response ''response payload demand'' = Inr payloads"
    unfolding loadRequestClassProfiles_def by (auto simp only: res_bind_Inr_iff)
  let ?m = "map_of (map (\<lambda>p. (pay_requestClass p, p)) payloads)"
  let ?g = "\<lambda>n x q. \<lparr>rcp_requestClass = n, rcp_cpuDemandProfile = \<lparr>cpu_requestClass = n,
    cpu_baseThreadCpuMs = cfg_baseThreadCpuMs config, cpu_cpuWeight = x, cpu_cpuNoiseLimitMs = cfg_cpuNoiseLimitMs config\<rparr>,
    rcp_responsePayloadDemandProfile = q\<rparr>"
  let ?es = "js_entries (cfg_requestClassWeights config)"
  have ps: "profiles = List.map_filter (\<lambda>(n, x). map_option (\<lambda>q. (n, ?g n x q)) (?m n)) ?es" and ne: "profiles \<noteq> []"
    using assms unfolding loadRequestClassProfiles_def c r by (simp_all only: res_bind_simps Let_def split: if_splits) simp_all
  note config = loaded_cpu_config [OF c] and payloads = loaded_payloads [OF r]
  have names: "map fst profiles = filter (\<lambda>n. ?m n \<noteq> None) (map fst ?es)" unfolding ps by (rule active_names)
  have "?m n \<noteq> None \<longleftrightarrow> n \<in> set (map pay_requestClass payloads)" for n by (auto simp: map_of_eq_None_iff image_image)
  then have "set (map fst profiles) = set (map fst (cfg_requestClassWeights config)) \<inter> set (map pay_requestClass payloads)"
    unfolding names set_filter set_map js_entries_set by auto
  moreover have "distinct (map fst profiles)" unfolding names using js_entries_distinct config by (intro distinct_filter) blast
  moreover have "rcp_requestClass p = n \<and> profile_ok p" if "(n, p) \<in> set profiles" for n p
  proof -
    from that obtain x q where p: "(n, x) \<in> set ?es" "?m n = Some q" "p = ?g n x q" unfolding ps active_entries by blast
    from p(2) have q: "q \<in> set payloads" "pay_requestClass q = n" by (auto dest: map_of_SomeD)
    from p(1) config have "valid_class n \<and> 0 < x" by (auto simp: list_all_iff)
    with q payloads config show ?thesis by (auto simp: p(3) profile_ok_def payload_ok_def Let_def list_all_iff)
  qed
  ultimately show ?thesis using c r ne by (auto simp: list_all_iff)
qed

text \<open>Milliseconds into nanoseconds.\<close>

lemma nanoseconds:
  assumes "rnd64 (1 / 1000) \<le> ms"
  shows "\<bar>of_int (max 1 (js_round (fmul ms 1000000))) - 1000000 * ms\<bar> \<le> 1 / 2 + 1000000 * ms / 2 ^ 53"
proof -
  let ?x = "ms * 1000000"
  have "1 / 1024 \<le> rnd64 (1 / 1000)" by code_simp
  with assms have "1 / 1024 \<le> ms" by linarith
  then have big: "900 \<le> ?x" by simp
  moreover have "(2 :: rat) powi (-1022) \<le> 1" by simp
  ultimately have "2 powi (-1022) \<le> ?x" by linarith
  then have err: "\<bar>rnd64 ?x - ?x\<bar> \<le> ?x / 2 ^ 53" by (rule rnd64_error)
  then have near: "\<bar>fmul ms 1000000 - ?x\<bar> \<le> ?x / 2 ^ 53" by (simp add: fmul_def)
  have "rnd64 1 \<le> rnd64 ?x" using big by (intro rnd64_mono) simp
  moreover have "rnd64 1 = 1" by code_simp
  ultimately have "1 \<le> fmul ms 1000000" by (simp add: fmul_def)
  then have "1 \<le> js_round (fmul ms 1000000)" by (simp add: js_round_def le_floor_iff)
  then have same: "max 1 (js_round (fmul ms 1000000)) = js_round (fmul ms 1000000)" by simp
  have "\<bar>of_int (js_round (fmul ms 1000000)) - fmul ms 1000000\<bar> \<le> 1 / 2" unfolding js_round_def by linarith
  with near have "\<bar>of_int (js_round (fmul ms 1000000)) - ?x\<bar> \<le> 1 / 2 + ?x / 2 ^ 53" by linarith
  then show ?thesis unfolding same by (simp only: mult.commute)
qed

text \<open>C30: what is sampled for a valid profile fits it.  The processor time is at least a microsecond and within the noise of the
  base; the worker is given that time in nanoseconds, up to half a nanosecond and the rounding of a float.
  The payload lies between the percentiles next to the roll from 1 to 100 that is drawn after the noise.
  The noise limit is a float whose double is one, no percentile is above \<open>2 ^ 52\<close>, and a random number is at most
  \<open>1 - 2 ^ -53\<close>.\<close>

theorem sampled_demand_fits_profile:
  assumes "profile_ok p" and "random_ok random" and "doubled_float (cpu_cpuNoiseLimitMs (rcp_cpuDemandProfile p))"
    and "list_all (\<lambda>b. b \<le> 2 ^ 52) (pay_bytes (rcp_responsePayloadDemandProfile p))"
    and "sampleRequestClassDemand random p w = (d, w')"
  shows "dem_requestClass d = rcp_requestClass p
    \<and> (let cpu = rcp_cpuDemandProfile p; base = fmul (cpu_baseThreadCpuMs cpu) (cpu_cpuWeight cpu); least = rnd64 (1 / 1000);
           ms = dem_targetThreadCpuMs d in
        max least (fsub base (cpu_cpuNoiseLimitMs cpu)) \<le> ms \<and> ms \<le> max least (fadd base (cpu_cpuNoiseLimitMs cpu))
        \<and> \<bar>of_int (dem_targetThreadCpuTimeNs d) - 1000000 * ms\<bar> \<le> 1 / 2 + 1000000 * ms / 2 ^ 53)
    \<and> (let roll = fst (randomIntInclusive random 1 100 (snd (sampleCpuDemand random (rcp_cpuDemandProfile p) w)));
           bytes = band roll (pay_bytes (rcp_responsePayloadDemandProfile p)) in
        1 \<le> roll \<and> roll \<le> 100 \<and> js_round (fst bytes) \<le> dem_targetResponsePayloadBytes d
        \<and> dem_targetResponsePayloadBytes d \<le> js_round (snd bytes))"
proof -
  let ?cpu = "rcp_cpuDemandProfile p" and ?pay = "rcp_responsePayloadDemandProfile p"
  let ?base = "fmul (cpu_baseThreadCpuMs ?cpu) (cpu_cpuWeight ?cpu)" and ?limit = "cpu_cpuNoiseLimitMs ?cpu"
  have ok: "0 \<le> ?limit" "payload_ok ?pay" using assms(1) by (simp_all add: profile_ok_def payload_ok_def Let_def)
  obtain noise w1 where noise: "sampleDouble random (- ?limit) ?limit w = (noise, w1)" by (rule prod.exhaust)
  obtain n w2 where bytes: "sampleResponsePayloadBytesFromPercentiles random ?pay w1 = (n, w2)" by (rule prod.exhaust)
  have w1: "snd (sampleCpuDemand random ?cpu w) = w1" by (simp add: sampleCpuDemand_def noise Let_def)
  define ms where "ms = max (rnd64 (1 / 1000)) (fadd ?base noise)"
  have d: "dem_requestClass d = rcp_requestClass p" "dem_targetThreadCpuMs d = ms"
    "dem_targetThreadCpuTimeNs d = max 1 (js_round (fmul ms 1000000))" "dem_targetResponsePayloadBytes d = n"
    using assms(5) noise bytes by (auto simp: sampleRequestClassDemand_def sampleCpuDemand_def Let_def ms_def)
  from sampled_noise [OF assms(2) ok(1) assms(3) noise] have n: "?base - ?limit \<le> ?base + noise" "?base + noise \<le> ?base + ?limit" by simp_all
  have "fsub ?base ?limit \<le> fadd ?base noise" "fadd ?base noise \<le> fadd ?base ?limit"
    unfolding fsub_def fadd_def by (rule rnd64_mono [OF n(1)], rule rnd64_mono [OF n(2)])
  then have range: "max (rnd64 (1 / 1000)) (fsub ?base ?limit) \<le> ms" "ms \<le> max (rnd64 (1 / 1000)) (fadd ?base ?limit)"
    unfolding ms_def by auto
  have nanos: "\<bar>of_int (max 1 (js_round (fmul ms 1000000))) - 1000000 * ms\<bar> \<le> 1 / 2 + 1000000 * ms / 2 ^ 53"
    by (rule nanoseconds) (simp add: ms_def)
  obtain roll where "roll = fst (randomIntInclusive random 1 100 w1)" "1 \<le> roll" "roll \<le> 100"
    "js_round (fst (band roll (pay_bytes ?pay))) \<le> n" "n \<le> js_round (snd (band roll (pay_bytes ?pay)))"
    by (rule sampled_bytes_in_band [OF assms(2) ok(2) assms(4) bytes])
  then show ?thesis unfolding d w1 Let_def using range nanos by simp
qed

section \<open>Examples\<close>

definition demo_cpu :: json where
  "demo_cpu = JObj [(''baseThreadCpuMs'', JInt 15), (''cpuNoiseLimitMs'', JInt 1),
     (''requestClassWeights'', JObj [(''Image '', JInt 1), (''html'', JInt 2)])]"

definition demo_payloads :: json where
  "demo_payloads = JArr [JObj ((''requestClass'', JStr ''image'')
     # map (\<lambda>name. (name, JInt (if name = ''p99Bytes'' then 3 else 2))) percentile_names)]"

theorem loaded_profiles_are_valid_witness:
  "\<exists>profiles. loadRequestClassProfiles (\<lambda>v. []) (Inr demo_cpu) (Inr demo_payloads) = Inr profiles
    \<and> list_all (\<lambda>(name, p). rcp_requestClass p = name \<and> profile_ok p) profiles \<and> map fst profiles = [''image'']"
proof -
  let ?r = "loadRequestClassProfiles (\<lambda>v. []) (Inr demo_cpu) (Inr demo_payloads)"
  have "map_sum (\<lambda>e. e) (map fst) ?r = Inr [''image'']" by code_simp
  then obtain profiles where r: "?r = Inr profiles" "map fst profiles = [''image'']" by (cases ?r) auto
  from loaded_profiles_are_valid [OF r(1)] have "list_all (\<lambda>(name, p). rcp_requestClass p = name \<and> profile_ok p) profiles"
    by (elim exE conjE)
  with r show ?thesis by (intro exI [of _ profiles] conjI)
qed

definition demo_profile :: RequestClassProfile where
  "demo_profile = \<lparr>rcp_requestClass = ''image'', rcp_cpuDemandProfile = \<lparr>cpu_requestClass = ''image'', cpu_baseThreadCpuMs = 15,
     cpu_cpuWeight = 1, cpu_cpuNoiseLimitMs = 1\<rparr>,
     rcp_responsePayloadDemandProfile = \<lparr>pay_requestClass = ''image'', pay_bytes = [0, 0, 0, 94, 685, 1312, 3310, 7514, 17134]\<rparr>\<rparr>"

theorem sampled_demand_fits_profile_witness:
  "14 \<le> dem_targetThreadCpuMs (fst (sampleRequestClassDemand (\<lambda>w. (1 / 2, w)) demo_profile ()))
   \<and> 1 \<le> fst (randomIntInclusive (\<lambda>w. (1 / 2, w)) 1 100 ())"
proof -
  have ok: "profile_ok demo_profile" by code_simp
  have random: "random_ok (\<lambda>w :: unit. (1 / 2, w))" by (simp add: random_ok_def)
  have noise: "doubled_float (cpu_cpuNoiseLimitMs (rcp_cpuDemandProfile demo_profile))" by code_simp
  have small: "list_all (\<lambda>b. b \<le> 2 ^ 52) (pay_bytes (rcp_responsePayloadDemandProfile demo_profile))" by (simp add: demo_profile_def)
  have run: "sampleRequestClassDemand (\<lambda>w. (1 / 2, w)) demo_profile ()
     = (fst (sampleRequestClassDemand (\<lambda>w. (1 / 2, w)) demo_profile ()), ())" by (rule prod_eqI) simp_all
  have cpu: "cpu_baseThreadCpuMs (rcp_cpuDemandProfile demo_profile) = 15" "cpu_cpuWeight (rcp_cpuDemandProfile demo_profile) = 1"
    "cpu_cpuNoiseLimitMs (rcp_cpuDemandProfile demo_profile) = 1" by (simp_all add: demo_profile_def)
  have least: "14 \<le> max (rnd64 (1 / 1000)) (fsub (fmul 15 1) 1)" by code_simp
  note fits = sampled_demand_fits_profile [OF ok random noise small run, unfolded Let_def cpu]
  then have "14 \<le> dem_targetThreadCpuMs (fst (sampleRequestClassDemand (\<lambda>w. (1 / 2, w)) demo_profile ()))"
    using order_trans [OF least] by (elim conjE)
  moreover have "snd (sampleCpuDemand (\<lambda>w. (1 / 2, w)) (rcp_cpuDemandProfile demo_profile) ()) = ()" by simp
  then have "1 \<le> fst (randomIntInclusive (\<lambda>w. (1 / 2, w)) 1 100 ())" using fits by metis
  ultimately show ?thesis by (rule conjI)
qed

end
