(* ===== verification/DemandWorker.thy ===== *)
theory DemandWorker
  imports PyNum "HOL-Library.Word"
begin

text \<open>
  The worker thread of the resource demand service
  (\<^verbatim>\<open>general-resource-demand-service/src/resource-demand/resource-demand.worker.ts\<close>): it computes a
  checksum until the thread has used the processor time asked for.
\<close>

unbundle bit_operations_syntax

section \<open>The checksum\<close>

text \<open>A number under \<^verbatim>\<open>| 0\<close>, \<^verbatim>\<open>>>> 0\<close>, \<^verbatim>\<open>^\<close>, \<^verbatim>\<open><<\<close>, \<^verbatim>\<open>>>>\<close> and \<^verbatim>\<open>Math.imul\<close> is its 32 bits.\<close>

definition burn_step :: "nat \<Rightarrow> 32 word \<Rightarrow> 32 word" where
  "burn_step index v0 =
     (let v1 = (v0 XOR of_nat index) * 2246822519; v2 = v1 XOR push_bit 13 v1; v3 = v2 XOR drop_bit 17 v2 in v3 XOR push_bit 5 v3)"

definition burnCpuChunk :: "32 word \<Rightarrow> 32 word" where
  "burnCpuChunk seed = fold burn_step [0..<20000] seed"

section \<open>The loop\<close>

text \<open>\<open>read\<close> is the processor time of the thread, as \<^verbatim>\<open>/proc/thread-self/schedstat\<close> tells it, or the message of
  the error of reading it; the times are in nanoseconds.\<close>

record WorkerExecutionResult =
  res_requestClass :: string
  res_observedThreadCpuTimeNs :: int
  res_workerChecksum :: "32 word"

partial_function (option) burn_until ::
  "('w \<Rightarrow> (string + int) \<times> 'w) \<Rightarrow> int \<Rightarrow> int \<Rightarrow> int \<Rightarrow> 32 word \<Rightarrow> 'w \<Rightarrow> ((string + int \<times> 32 word) \<times> 'w) option" where
  "burn_until read cpuStart target observed checksum w =
     (if observed < target then (case read w of
        (Inl e, w') \<Rightarrow> Some (Inl e, w')
      | (Inr t, w') \<Rightarrow> burn_until read cpuStart target (t - cpuStart) (burnCpuChunk checksum) w')
      else Some (Inr (observed, checksum), w))"

definition executeThreadCpuDemand ::
  "('w \<Rightarrow> (string + int) \<times> 'w) \<Rightarrow> string \<Rightarrow> int \<Rightarrow> 'w \<Rightarrow> ((string + WorkerExecutionResult) \<times> 'w) option" where
  "executeThreadCpuDemand read requestClass target w = (case read w of
     (Inl e, w') \<Rightarrow> Some (Inl e, w')
   | (Inr cpuStart, w') \<Rightarrow> (case burn_until read cpuStart target 0 0 w' of
        None \<Rightarrow> None
      | Some (Inl e, w'') \<Rightarrow> Some (Inl e, w'')
      | Some (Inr (observed, checksum), w'') \<Rightarrow>
          Some (Inr \<lparr>res_requestClass = requestClass, res_observedThreadCpuTimeNs = observed, res_workerChecksum = checksum\<rparr>, w'')))"

section \<open>Rounds lose nothing\<close>

lemma xor_cancel: "a XOR b = c XOR b \<longleftrightarrow> a = c" for a b c :: "32 word"
  by (metis xor.assoc xor.right_neutral xor_self_eq)

lemma bit_xor_shift_left:
  fixes d :: "32 word"
  assumes "d = push_bit k d" and "0 < k"
  shows "d = 0"
proof -
  have "\<not> bit d n" for n
  proof (induction n rule: less_induct)
    case (less n)
    show ?case
    proof
      assume "bit d n"
      then have "k \<le> n" "bit d (n - k)" using assms(1) by (metis bit_push_bit_iff)+
      then show False using less [of "n - k"] assms(2) by simp
    qed
  qed
  then show ?thesis by (simp add: bit_eq_iff)
qed

lemma bit_xor_shift_right:
  fixes d :: "32 word"
  assumes "d = drop_bit k d" and "0 < k"
  shows "d = 0"
proof -
  have up: "bit d n \<Longrightarrow> bit d (m * k + n)" for m n
  proof (induction m)
    case (Suc m)
    then have "bit (drop_bit k d) (m * k + n)" using assms(1) by simp
    then show ?case by (simp add: bit_drop_bit_eq add.assoc)
  qed simp
  have "\<not> bit d n" for n
  proof
    assume "bit d n"
    then have "bit d (32 * k + n)" by (rule up)
    then show False using bit_imp_le_length [of d "32 * k + n"] assms(2) by simp
  qed
  then show ?thesis by (simp add: bit_eq_iff)
qed

lemma xor_zero: "a XOR b = 0 \<Longrightarrow> a = b" for a b :: "32 word"
proof -
  assume "a XOR b = 0"
  then have "(a XOR b) XOR b = 0 XOR b" by (rule arg_cong)
  then show "a = b" by (simp add: xor.assoc)
qed

lemma inj_shift_left:
  assumes "0 < k"
  shows "inj (\<lambda>v :: 32 word. v XOR push_bit k v)"
proof (rule injI)
  fix a b :: "32 word" assume "a XOR push_bit k a = b XOR push_bit k b"
  then have "bit (a XOR push_bit k a) n = bit (b XOR push_bit k b) n" for n by simp
  then have "a XOR b = push_bit k (a XOR b)"
    by (intro bit_word_eqI) (simp add: bit_xor_iff bit_push_bit_iff, metis)
  from bit_xor_shift_left [OF this assms] show "a = b" by (rule xor_zero)
qed

lemma inj_shift_right:
  assumes "0 < k"
  shows "inj (\<lambda>v :: 32 word. v XOR drop_bit k v)"
proof (rule injI)
  fix a b :: "32 word" assume "a XOR drop_bit k a = b XOR drop_bit k b"
  then have "bit (a XOR drop_bit k a) n = bit (b XOR drop_bit k b) n" for n by simp
  then have "a XOR b = drop_bit k (a XOR b)"
    by (intro bit_word_eqI) (simp add: bit_xor_iff bit_drop_bit_eq, metis)
  from bit_xor_shift_right [OF this assms] show "a = b" by (rule xor_zero)
qed

lemma burn_step_inj: "inj (burn_step index)"
proof -
  have one: "(2246822519 :: 32 word) * 3066638151 = 1" by code_simp
  have "inj (\<lambda>v :: 32 word. (v XOR of_nat index) * 2246822519)"
  proof (rule injI)
    fix a b :: "32 word" assume "(a XOR of_nat index) * 2246822519 = (b XOR of_nat index) * 2246822519"
    then have "(a XOR of_nat index) * 2246822519 * 3066638151 = (b XOR of_nat index) * 2246822519 * 3066638151" by (rule arg_cong)
    then have "a XOR of_nat index = b XOR of_nat index" by (simp only: mult.assoc one mult_1_right)
    then show "a = b" by (simp add: xor_cancel)
  qed
  from inj_compose [OF inj_shift_left [of 5] inj_compose [OF inj_shift_right [of 17] inj_compose [OF inj_shift_left [of 13] this]]]
  show ?thesis unfolding burn_step_def Let_def comp_def by simp
qed

lemma fold_inj: "(\<And>i. inj (f i)) \<Longrightarrow> inj (fold f xs)" for f :: "'i \<Rightarrow> 'a \<Rightarrow> 'a"
proof (induction xs)
  case (Cons x xs)
  then show ?case using inj_compose [of "fold f xs" "f x"] by (simp add: comp_def)
qed simp

section \<open>The demand is met\<close>

text \<open>The \<open>n\<close>-th reading from now on.  Time goes on when some reading after a successful one fails or is later:
  two readings may show the same time, but the thread's counter does not stand still for ever while it computes.\<close>

definition reading :: "('w \<Rightarrow> (string + int) \<times> 'w) \<Rightarrow> nat \<Rightarrow> 'w \<Rightarrow> string + int" where
  "reading read n w = fst (read (((\<lambda>w. snd (read w)) ^^ n) w))"

definition time_goes_on :: "('w \<Rightarrow> (string + int) \<times> 'w) \<Rightarrow> bool" where
  "time_goes_on read \<longleftrightarrow> (\<forall>w t. fst (read w) = Inr t \<longrightarrow> (\<exists>n. \<forall>t'. reading read n w = Inr t' \<longrightarrow> t < t'))"

lemma reading_0 [simp]: "reading read 0 w = fst (read w)"
  by (simp add: reading_def)

lemma reading_Suc: "read w = (r, w') \<Longrightarrow> reading read (Suc n) w = reading read n w'"
  by (simp only: reading_def funpow_Suc_right comp_apply snd_conv)

lemma reading_add: "reading read (m + n) w = reading read m (((\<lambda>w. snd (read w)) ^^ n) w)"
  by (simp add: reading_def funpow_add)

lemma time_reaches:
  assumes "time_goes_on read"
  shows "\<exists>n. \<forall>t'. reading read n w = Inr t' \<longrightarrow> T \<le> t'"
proof (cases "fst (read w)")
  case (Inl e)
  then show ?thesis by (intro exI [of _ 0]) simp
next
  case (Inr t)
  then show ?thesis
  proof (induction "nat (T - t)" arbitrary: t w rule: less_induct)
    case less
    show ?case
    proof (cases "T \<le> t")
      case True
      with less.prems show ?thesis by (intro exI [of _ 0]) simp
    next
      case False
      obtain n where n: "\<forall>t'. reading read n w = Inr t' \<longrightarrow> t < t'" using assms less.prems unfolding time_goes_on_def by blast
      show ?thesis
      proof (cases "reading read n w")
        case (Inl e)
        then show ?thesis by (intro exI [of _ n]) simp
      next
        case (Inr t1)
        let ?w1 = "((\<lambda>w. snd (read w)) ^^ n) w"
        have "nat (T - t1) < nat (T - t)" using n Inr False by auto
        moreover have "fst (read ?w1) = Inr t1" using Inr by (simp add: reading_def)
        ultimately obtain m where "\<forall>t'. reading read m ?w1 = Inr t' \<longrightarrow> T \<le> t'" using less.hyps by blast
        then show ?thesis by (intro exI [of _ "m + n"]) (simp add: reading_add)
      qed
    qed
  qed
qed

lemma burn_until_done: "\<not> observed < target \<Longrightarrow> burn_until read cpuStart target observed checksum w = Some (Inr (observed, checksum), w)"
  by (simp add: burn_until.simps)

lemma burn_until_failed:
  "observed < target \<Longrightarrow> read w = (Inl e, w') \<Longrightarrow> burn_until read cpuStart target observed checksum w = Some (Inl e, w')"
  by (simp add: burn_until.simps)

lemma burn_until_goes_on:
  "observed < target \<Longrightarrow> read w = (Inr t, w')
    \<Longrightarrow> burn_until read cpuStart target observed checksum w = burn_until read cpuStart target (t - cpuStart) (burnCpuChunk checksum) w'"
  by (subst burn_until.simps) simp

lemma burn_until_returns:
  "\<forall>t'. reading read n w = Inr t' \<longrightarrow> cpuStart + target \<le> t' \<Longrightarrow> \<exists>r. burn_until read cpuStart target observed checksum w = Some r"
proof (induction n arbitrary: observed checksum w)
  case (0 observed checksum w)
  obtain a w' where read: "read w = (a, w')" by (rule prod.exhaust)
  show ?case
  proof (cases "observed < target")
    case True
    show ?thesis
    proof (cases a)
      case (Inl e)
      with True read show ?thesis by (simp add: burn_until_failed)
    next
      case (Inr t)
      with "0.prems" read have "\<not> t - cpuStart < target" by simp
      with True Inr read show ?thesis by (simp add: burn_until_goes_on burn_until_done)
    qed
  qed (simp add: burn_until_done)
next
  case (Suc n observed checksum w)
  obtain a w' where read: "read w = (a, w')" by (rule prod.exhaust)
  with Suc.prems have "\<forall>t'. reading read n w' = Inr t' \<longrightarrow> cpuStart + target \<le> t'" by (simp add: reading_Suc)
  note IH = Suc.IH [OF this]
  show ?case
  proof (cases "observed < target")
    case True
    show ?thesis using True read IH by (cases a) (simp_all add: burn_until_failed burn_until_goes_on)
  qed (simp add: burn_until_done)
qed

text \<open>What a loop that ends has seen: a failed reading, or the time it was to use.\<close>

definition burnt :: "('w \<Rightarrow> (string + int) \<times> 'w) \<Rightarrow> int \<Rightarrow> 32 word \<Rightarrow> 'w \<Rightarrow> (string + int \<times> 32 word) \<Rightarrow> bool" where
  "burnt read target checksum w r \<longleftrightarrow> (case r of
     Inl e \<Rightarrow> \<exists>n. reading read n w = Inl e
   | Inr (observed, c) \<Rightarrow> target \<le> observed \<and> (\<exists>n. c = (burnCpuChunk ^^ n) checksum))"

lemma burnt_later:
  assumes "read w = (a, w')" "burnt read target (burnCpuChunk checksum) w' r"
  shows "burnt read target checksum w r"
proof (cases r)
  case (Inl e)
  with assms(2) obtain n where "reading read n w' = Inl e" by (auto simp: burnt_def)
  then have "reading read (Suc n) w = Inl e" using reading_Suc [of read w a w' n] assms(1) by simp
  with Inl show ?thesis unfolding burnt_def by auto
next
  case (Inr oc)
  then obtain observed c where oc: "r = Inr (observed, c)" by (cases oc) simp
  with assms(2) obtain n where "target \<le> observed" "c = (burnCpuChunk ^^ n) (burnCpuChunk checksum)" by (auto simp: burnt_def)
  then have "target \<le> observed" "c = (burnCpuChunk ^^ Suc n) checksum" by (simp_all only: funpow_Suc_right comp_apply)
  then have "target \<le> observed \<and> (\<exists>n. c = (burnCpuChunk ^^ n) checksum)" by blast
  then show ?thesis unfolding burnt_def oc by simp
qed

lemma burn_until_burnt:
  assumes "burn_until read cpuStart target observed checksum w = Some y"
  shows "burnt read target checksum w (fst y)"
  using assms
proof (rule burn_until.raw_induct [where P = "\<lambda>read cpuStart target observed checksum w y. burnt read target checksum w (fst y)", rotated])
  fix loop read cpuStart target observed checksum w y
  assume IH: "\<And>read cpuStart target observed checksum w y.
      loop read cpuStart target observed checksum w = Some y \<Longrightarrow> burnt read target checksum w (fst y)"
    and run: "(if observed < target then (case read w of
        (Inl e, w') \<Rightarrow> Some (Inl e, w')
      | (Inr t, w') \<Rightarrow> loop read cpuStart target (t - cpuStart) (burnCpuChunk checksum) w')
      else Some (Inr (observed, checksum), w)) = Some y"
  obtain a w' where read: "read w = (a, w')" by (rule prod.exhaust)
  show "burnt read target checksum w (fst y)"
  proof (cases "observed < target")
    case False
    with run have "fst y = Inr (observed, checksum)" by auto
    with False show ?thesis by (auto simp: burnt_def intro: exI [of _ 0])
  next
    case True
    show ?thesis
    proof (cases a)
      case (Inl e)
      with True run read have "fst y = Inl e" by auto
      with Inl read show ?thesis by (auto simp: burnt_def intro: exI [of _ 0])
    next
      case (Inr t)
      with True run read IH have "burnt read target (burnCpuChunk checksum) w' (fst y)" by auto
      with read show ?thesis by (rule burnt_later)
    qed
  qed
qed

section \<open>Properties\<close>

text \<open>A chunk of the checksum is a permutation of the 32-bit numbers: however many chunks a worker computes, no
  two checksums are ever made one.\<close>

theorem chunk_is_permutation: "bij burnCpuChunk"
proof -
  have "inj (fold burn_step [0..<20000])" by (rule fold_inj) (rule burn_step_inj)
  moreover have "burnCpuChunk = fold burn_step [0..<20000]" by (simp add: fun_eq_iff burnCpuChunk_def del: upt_conv_Cons_Cons upt_rec_numeral)
  ultimately have "inj burnCpuChunk" by simp
  then show ?thesis by (simp add: bij_def finite_UNIV_inj_surj)
qed

text \<open>As long as the time of its thread goes on, a worker returns: with the error of a reading that failed, or
  having used at least the time asked for, its checksum that of a number of whole chunks.\<close>

theorem demand_is_met:
  assumes "time_goes_on read"
  shows "\<exists>r w'. executeThreadCpuDemand read requestClass target w = Some (r, w') \<and> (case r of
      Inl e \<Rightarrow> \<exists>n. reading read n w = Inl e
    | Inr result \<Rightarrow> res_requestClass result = requestClass \<and> target \<le> res_observedThreadCpuTimeNs result
        \<and> (\<exists>n. res_workerChecksum result = (burnCpuChunk ^^ n) 0))"
proof -
  obtain a w1 where read: "read w = (a, w1)" by (rule prod.exhaust)
  show ?thesis
  proof (cases a)
    case (Inl e)
    with read show ?thesis by (auto simp: executeThreadCpuDemand_def intro: exI [of _ 0])
  next
    case (Inr cpuStart)
    obtain n where "\<forall>t'. reading read n w1 = Inr t' \<longrightarrow> cpuStart + target \<le> t'" using time_reaches [OF assms] by blast
    from burn_until_returns [OF this] obtain b w2 where loop: "burn_until read cpuStart target 0 0 w1 = Some (b, w2)" by (metis prod.exhaust)
    with burn_until_burnt have burnt: "burnt read target 0 w1 b" by fastforce
    show ?thesis
    proof (cases b)
      case (Inl e)
      with burnt read have "\<exists>n. reading read n w = Inl e" by (auto simp: burnt_def intro: exI [of _ "Suc _"] simp: reading_Suc)
      with Inl Inr read loop show ?thesis by (auto simp: executeThreadCpuDemand_def)
    next
      case (Inr oc)
      with \<open>a = Inr cpuStart\<close> burnt read loop show ?thesis by (cases oc) (auto simp: executeThreadCpuDemand_def burnt_def)
    qed
  qed
qed

text \<open>A clock that shows every time twice.\<close>

definition slow_clock :: "int \<Rightarrow> (string + int) \<times> int" where
  "slow_clock t = (Inr (t div 2), t + 1)"

lemma slow_clock_goes_on: "time_goes_on slow_clock"
proof -
  have "reading slow_clock 2 w = Inr ((w + 2) div 2)" for w by (simp add: reading_def slow_clock_def numeral_2_eq_2)
  then show ?thesis unfolding time_goes_on_def by (intro allI impI exI [of _ 2]) (simp add: slow_clock_def)
qed

theorem demand_is_met_witness:
  "\<exists>r w'. executeThreadCpuDemand slow_clock ''html'' 30000000 5 = Some (r, w')"
  using demand_is_met [OF slow_clock_goes_on] by blast

end
