(* ===== verification/DemandPool.thy ===== *)
theory DemandPool
  imports DemandProfiles DemandWorker "HOL-Library.Multiset"
begin

text \<open>
  The resource demand service (\<^verbatim>\<open>general-resource-demand-service/src/resource-demand\<close>): requests
  share a pool of worker threads with a bounded queue
  (\<^verbatim>\<open>resource-demand.service.ts\<close>).  A promise is a number, its settlement an entry of a log, a worker
  thread the number of its object; times are in nanoseconds, as \<^verbatim>\<open>process.hrtime.bigint\<close> gives them.
\<close>

section \<open>Settings and data\<close>

definition SERVICE_NAME :: string where
  "SERVICE_NAME = ''general-resource-demand-service''"

definition WORKER_POOL_SIZE :: nat where
  "WORKER_POOL_SIZE = 3"

definition PENDING_QUEUE_SIZE :: nat where
  "PENDING_QUEUE_SIZE = 6"

record PendingTask =
  pt_sampledDemand :: SampledRequestClassDemand
  pt_wallClockStartNs :: int
  pt_dispatchedAtNs :: "int option"
  pt_queueDepthOnArrival :: nat
  pt_promise :: nat

record WorkerSlot =
  slot_id :: nat
  slot_worker :: nat
  slot_busy :: bool
  slot_activeTask :: "(nat \<times> PendingTask) option"

record WorkerTask =
  wt_taskId :: nat
  wt_requestClass :: string
  wt_targetThreadCpuTimeNs :: int

record WorkerResponse =
  wr_taskId :: nat
  wr_result :: "WorkerExecutionResult option"
  wr_error :: "string option"

record CompletedRequestClassExecution =
  ce_requestClass :: string
  ce_targetThreadCpuMs :: rat
  ce_observedThreadCpuMs :: rat
  ce_targetResponsePayloadBytes :: int
  ce_actualResponsePayloadBytes :: nat
  ce_appTimeMs :: rat
  ce_queueWaitMs :: rat
  ce_queueDepthOnArrival :: nat
  ce_workerId :: nat
  ce_workerChecksum :: "32 word"
  ce_responsePayload :: string

datatype settlement = Resolved CompletedRequestClassExecution | Rejected string

record demand_pool =
  workers :: "WorkerSlot list"
  pendingQueue :: "PendingTask list"
  nextTaskId :: nat
  isShuttingDown :: bool
  worker_objects :: nat
  posted :: "(nat \<times> WorkerTask) list"
  terminated :: "nat list"
  promises :: nat
  settled :: "(nat \<times> settlement) list"

section \<open>The response\<close>

text \<open>The loop that copies the seed until the payload is full; a class name has one byte per character.\<close>

function fill_payload :: "string \<Rightarrow> nat \<Rightarrow> string" where
  "fill_payload seed n = (if n = 0 \<or> seed = [] then [] else take n seed @ fill_payload seed (n - length seed))"
  by pat_completeness auto
termination
  by (relation "measure snd") auto

declare fill_payload.simps [simp del]

definition buildResponsePayload :: "string \<Rightarrow> int \<Rightarrow> string" where
  "buildResponsePayload requestClass bytes = fill_payload (SERVICE_NAME @ ''|'' @ requestClass @ ''|response-payload'') (nat bytes)"

definition ns_to_ms :: "int \<Rightarrow> rat" where
  "ns_to_ms n = fdiv (rnd64 (of_int n)) 1000000"

definition buildCompletedExecution :: "nat \<Rightarrow> PendingTask \<Rightarrow> WorkerExecutionResult \<Rightarrow> int \<Rightarrow> CompletedRequestClassExecution" where
  "buildCompletedExecution workerId task result time =
     (let d = pt_sampledDemand task; payload = buildResponsePayload (dem_requestClass d) (dem_targetResponsePayloadBytes d) in
      \<lparr>ce_requestClass = dem_requestClass d, ce_targetThreadCpuMs = dem_targetThreadCpuMs d,
       ce_observedThreadCpuMs = ns_to_ms (res_observedThreadCpuTimeNs result),
       ce_targetResponsePayloadBytes = dem_targetResponsePayloadBytes d, ce_actualResponsePayloadBytes = length payload,
       ce_appTimeMs = ns_to_ms (time - pt_wallClockStartNs task),
       ce_queueWaitMs = (case pt_dispatchedAtNs task of None \<Rightarrow> 0
         | Some t \<Rightarrow> if t = 0 then 0 else ns_to_ms (t - pt_wallClockStartNs task)),
       ce_queueDepthOnArrival = pt_queueDepthOnArrival task, ce_workerId = workerId,
       ce_workerChecksum = res_workerChecksum result, ce_responsePayload = payload\<rparr>)"

section \<open>The pool\<close>

definition settle :: "PendingTask \<Rightarrow> settlement \<Rightarrow> demand_pool \<Rightarrow> demand_pool" where
  "settle task r p = p\<lparr>settled := settled p @ [(pt_promise task, r)]\<rparr>"

definition onModuleInit :: demand_pool where
  "onModuleInit = \<lparr>workers = map (\<lambda>i. \<lparr>slot_id = i, slot_worker = i, slot_busy = False, slot_activeTask = None\<rparr>) [0..<WORKER_POOL_SIZE],
     pendingQueue = [], nextTaskId = 1, isShuttingDown = False, worker_objects = WORKER_POOL_SIZE, posted = [], terminated = [],
     promises = 0, settled = []\<rparr>"

definition findFreeWorker :: "demand_pool \<Rightarrow> nat option" where
  "findFreeWorker p = find (\<lambda>i. \<not> slot_busy (workers p ! i)) [0..<length (workers p)]"

definition assignTaskToWorker :: "nat \<Rightarrow> PendingTask \<Rightarrow> int \<Rightarrow> demand_pool \<Rightarrow> demand_pool" where
  "assignTaskToWorker i task time p =
     (let slot = workers p ! i; n = nextTaskId p; task = task\<lparr>pt_dispatchedAtNs := Some time\<rparr> in
      p\<lparr>nextTaskId := n + 1, workers := (workers p)[i := slot\<lparr>slot_busy := True, slot_activeTask := Some (n, task)\<rparr>],
        posted := posted p @ [(slot_worker slot, \<lparr>wt_taskId = n, wt_requestClass = dem_requestClass (pt_sampledDemand task),
          wt_targetThreadCpuTimeNs = dem_targetThreadCpuTimeNs (pt_sampledDemand task)\<rparr>)]\<rparr>)"

datatype arrival = UnknownClass string | Unavailable string | Accepted nat

text \<open>The two readings of the clock are for the arrival and for the dispatch.\<close>

definition executeRequestClass ::
  "(string \<times> RequestClassProfile) list \<Rightarrow> ('r \<Rightarrow> rat \<times> 'r) \<Rightarrow> string \<Rightarrow> int \<Rightarrow> int \<Rightarrow> demand_pool \<times> 'r \<Rightarrow> arrival \<times> demand_pool \<times> 'r" where
  "executeRequestClass profiles random requestClass time1 time2 state = (case state of (p, r) \<Rightarrow>
     let name = class_name requestClass in
     (case map_of profiles name of
        None \<Rightarrow> (UnknownClass (''Unknown request class '' @ [CHR 0x27] @ name @ [CHR 0x27]), p, r)
      | Some profile \<Rightarrow>
          let (demand, r') = sampleRequestClassDemand random profile r; free = findFreeWorker p in
          if free = None \<and> PENDING_QUEUE_SIZE \<le> length (pendingQueue p)
          then (Unavailable ''No free worker thread or queue slot is available for this request class'', p, r')
          else let task = \<lparr>pt_sampledDemand = demand, pt_wallClockStartNs = time1, pt_dispatchedAtNs = None,
                     pt_queueDepthOnArrival = length (pendingQueue p), pt_promise = promises p\<rparr>;
                   p' = p\<lparr>promises := promises p + 1\<rparr> in
            (Accepted (promises p), (case free of Some i \<Rightarrow> assignTaskToWorker i task time2 p'
               | None \<Rightarrow> p'\<lparr>pendingQueue := pendingQueue p' @ [task]\<rparr>), r')))"

definition dispatchNextPendingTask :: "int \<Rightarrow> demand_pool \<Rightarrow> demand_pool" where
  "dispatchNextPendingTask time p =
     (if isShuttingDown p then p
      else case (findFreeWorker p, pendingQueue p) of
          (Some i, task # rest) \<Rightarrow> assignTaskToWorker i task time (p\<lparr>pendingQueue := rest\<rparr>)
        | _ \<Rightarrow> p)"

text \<open>The slot is free again, its task forgotten.\<close>

definition free_slot :: "nat \<Rightarrow> demand_pool \<Rightarrow> demand_pool" where
  "free_slot i p = p\<lparr>workers := (workers p)[i := (workers p ! i)\<lparr>slot_busy := False, slot_activeTask := None\<rparr>]\<rparr>"

text \<open>The listener of messages; \<open>time1\<close> is read for the response, \<open>time2\<close> for the dispatch.  An empty message counts as none.\<close>

definition on_message :: "nat \<Rightarrow> WorkerResponse \<Rightarrow> int \<Rightarrow> int \<Rightarrow> demand_pool \<Rightarrow> demand_pool" where
  "on_message i message time1 time2 p = (case slot_activeTask (workers p ! i) of
     None \<Rightarrow> p
   | Some (taskId, task) \<Rightarrow>
       if taskId \<noteq> wr_taskId message then p
       else dispatchNextPendingTask time2 (settle task
         (case wr_error message of
            Some (c # cs) \<Rightarrow> Rejected (c # cs)
          | _ \<Rightarrow> (case wr_result message of
               None \<Rightarrow> Rejected (''Worker slot '' @ int_str (int (slot_id (workers p ! i))) @ '' returned no result for task ''
                 @ int_str (int (wr_taskId message)))
             | Some result \<Rightarrow> Resolved (buildCompletedExecution (slot_id (workers p ! i)) task result time1)))
         (free_slot i p)))"

definition handleWorkerFailure :: "nat \<Rightarrow> string \<Rightarrow> int \<Rightarrow> demand_pool \<Rightarrow> demand_pool" where
  "handleWorkerFailure i error time p =
     (if isShuttingDown p then p
      else let p1 = (case slot_activeTask (workers p ! i) of None \<Rightarrow> p | Some (taskId, task) \<Rightarrow> settle task (Rejected error) p);
               p2 = free_slot i p1 in
        dispatchNextPendingTask time (p2\<lparr>workers := (workers p2)[i := (workers p2 ! i)\<lparr>slot_worker := worker_objects p2\<rparr>],
          worker_objects := worker_objects p2 + 1\<rparr>))"

definition on_exit :: "nat \<Rightarrow> int \<Rightarrow> int \<Rightarrow> demand_pool \<Rightarrow> demand_pool" where
  "on_exit i code time p =
     (if code \<noteq> 0 \<and> \<not> isShuttingDown p
      then handleWorkerFailure i (''Worker slot '' @ int_str (int (slot_id (workers p ! i))) @ '' exited with code '' @ int_str code) time p
      else p)"

definition onModuleDestroy :: "demand_pool \<Rightarrow> demand_pool" where
  "onModuleDestroy p =
     p\<lparr>isShuttingDown := True, pendingQueue := [],
       settled := settled p
         @ map (\<lambda>task. (pt_promise task, Rejected (SERVICE_NAME @ '' worker queue is shutting down''))) (pendingQueue p)
         @ List.map_filter (\<lambda>slot. map_option (\<lambda>(n, task). (pt_promise task, Rejected (SERVICE_NAME @ '' worker pool is shutting down'')))
             (slot_activeTask slot)) (workers p),
       workers := map (\<lambda>slot. slot\<lparr>slot_activeTask := None\<rparr>) (workers p),
       terminated := terminated p @ map slot_worker (workers p)\<rparr>"

text \<open>What can happen, in any order: a request, an event of the worker of a slot (the listeners of a replaced
  one are gone), the end of the module.\<close>

inductive pool_step :: "(string \<times> RequestClassProfile) list \<Rightarrow> ('r \<Rightarrow> rat \<times> 'r) \<Rightarrow> demand_pool \<times> 'r \<Rightarrow> demand_pool \<times> 'r \<Rightarrow> bool"
  for profiles random where
  request: "executeRequestClass profiles random requestClass time1 time2 (p, r) = (outcome, p', r') \<Longrightarrow> pool_step profiles random (p, r) (p', r')"
| message: "i < length (workers p) \<Longrightarrow> pool_step profiles random (p, r) (on_message i m time1 time2 p, r)"
| failure: "i < length (workers p) \<Longrightarrow> pool_step profiles random (p, r) (handleWorkerFailure i e time p, r)"
| exit: "i < length (workers p) \<Longrightarrow> pool_step profiles random (p, r) (on_exit i code time p, r)"
| destroy: "pool_step profiles random (p, r) (onModuleDestroy p, r)"

definition pool_run :: "(string \<times> RequestClassProfile) list \<Rightarrow> ('r \<Rightarrow> rat \<times> 'r) \<Rightarrow> demand_pool \<times> 'r \<Rightarrow> demand_pool \<times> 'r \<Rightarrow> bool" where
  "pool_run profiles random = (pool_step profiles random)\<^sup>*\<^sup>*"

section \<open>The payload\<close>

lemma fill_payload_length: "seed \<noteq> [] \<Longrightarrow> length (fill_payload seed n) = n"
proof (induction seed n rule: fill_payload.induct)
  case (1 seed n)
  then show ?case by (subst fill_payload.simps) auto
qed

lemma fill_payload_nth: "seed \<noteq> [] \<Longrightarrow> k < n \<Longrightarrow> fill_payload seed n ! k = seed ! (k mod length seed)"
proof (induction seed n arbitrary: k rule: fill_payload.induct)
  case (1 seed n)
  show ?case
  proof (cases "k < length seed")
    case True
    then show ?thesis using 1(2,3) by (subst fill_payload.simps) (simp add: nth_append)
  next
    case False
    then have "fill_payload seed (n - length seed) ! (k - length seed) = seed ! ((k - length seed) mod length seed)"
      using 1 by (intro "1.IH") auto
    moreover have "(k - length seed) mod length seed = k mod length seed" using False by (simp add: le_mod_geq)
    ultimately show ?thesis using 1(2,3) False by (subst fill_payload.simps) (simp add: nth_append)
  qed
qed

section \<open>The books of the pool\<close>

definition running :: "WorkerSlot \<Rightarrow> nat list" where
  "running s = (case slot_activeTask s of None \<Rightarrow> [] | Some (n, task) \<Rightarrow> [pt_promise task])"

definition open_promises :: "demand_pool \<Rightarrow> nat list" where
  "open_promises p = concat (map running (workers p)) @ map pt_promise (pendingQueue p)"

text \<open>\<open>L\<close> are the promises that are in no book for the moment.\<close>

definition accounted :: "nat multiset \<Rightarrow> demand_pool \<Rightarrow> bool" where
  "accounted L p \<longleftrightarrow> L + mset (open_promises p) + mset (map fst (settled p)) = mset [0..<promises p]"

definition slots_in_order :: "demand_pool \<Rightarrow> bool" where
  "slots_in_order p \<longleftrightarrow> length (workers p) = WORKER_POOL_SIZE \<and> length (pendingQueue p) \<le> PENDING_QUEUE_SIZE
     \<and> (\<forall>s \<in> set (workers p). running s \<noteq> [] \<longrightarrow> slot_busy s)
     \<and> (\<not> isShuttingDown p \<longrightarrow> (\<forall>s \<in> set (workers p). slot_busy s \<longrightarrow> running s \<noteq> [])
          \<and> sorted_wrt (<) (map pt_promise (pendingQueue p))
          \<and> (\<forall>s \<in> set (workers p). \<forall>a \<in> set (running s). \<forall>t \<in> set (pendingQueue p). a < pt_promise t))"

definition pool_core :: "nat multiset \<Rightarrow> demand_pool \<Rightarrow> bool" where
  "pool_core L p \<longleftrightarrow> accounted L p \<and> slots_in_order p"

definition pool_ok :: "demand_pool \<Rightarrow> bool" where
  "pool_ok p \<longleftrightarrow> pool_core {#} p
     \<and> (\<not> isShuttingDown p \<longrightarrow> pendingQueue p \<noteq> [] \<longrightarrow> (\<forall>s \<in> set (workers p). slot_busy s))"

lemma mset_concat_update:
  "i < length xs \<Longrightarrow> mset (concat (map f (xs[i := y]))) + mset (f (xs ! i)) = mset (concat (map f xs)) + mset (f y)"
proof (induction xs arbitrary: i)
  case (Cons x xs)
  show ?case
  proof (cases i)
    case (Suc j)
    with Cons.IH [of j] Cons.prems show ?thesis by simp
  qed simp
qed simp

lemma core_settle: "pool_core (add_mset (pt_promise t) L) p \<Longrightarrow> pool_core L (settle t r p)"
  by (simp add: pool_core_def accounted_def slots_in_order_def settle_def open_promises_def)

lemma core_promise:
  "pool_core L p \<Longrightarrow> pool_core (add_mset (promises p) L) (p\<lparr>promises := promises p + 1\<rparr>)"
  by (simp add: pool_core_def accounted_def slots_in_order_def open_promises_def)

lemma core_old:
  assumes "pool_core L p" "a \<in> set (open_promises p)"
  shows "a < promises p"
proof -
  have "a \<in># L + mset (open_promises p) + mset (map fst (settled p))" using assms(2) by simp
  then have "a \<in># mset [0..<promises p]" using assms(1) unfolding pool_core_def accounted_def by metis
  then show ?thesis by simp
qed

lemma core_free:
  assumes "pool_core L p" "i < length (workers p)"
  shows "pool_core (mset (running (workers p ! i)) + L) (free_slot i p)"
proof -
  let ?s = "(workers p ! i)\<lparr>slot_busy := False, slot_activeTask := None\<rparr>"
  have new: "running ?s = []" by (simp add: running_def)
  have w: "workers (free_slot i p) = (workers p)[i := ?s]" by (simp add: free_slot_def)
  have same: "pendingQueue (free_slot i p) = pendingQueue p" "settled (free_slot i p) = settled p"
    "promises (free_slot i p) = promises p" "isShuttingDown (free_slot i p) = isShuttingDown p" by (simp_all add: free_slot_def)
  have "mset (running (workers p ! i)) + mset (open_promises (free_slot i p)) = mset (open_promises p)"
    using mset_concat_update [OF assms(2), of running ?s] unfolding new by (simp add: open_promises_def w same ac_simps)
  then have "accounted (mset (running (workers p ! i)) + L) (free_slot i p)"
    using assms(1) unfolding pool_core_def accounted_def same by (metis union_assoc union_commute)
  moreover have "set ((workers p)[i := ?s]) \<subseteq> insert ?s (set (workers p))" by (rule set_update_subset_insert)
  then have "slots_in_order (free_slot i p)" using assms(1) new unfolding pool_core_def slots_in_order_def w same by auto
  ultimately show ?thesis by (simp add: pool_core_def)
qed

lemma core_take:
  assumes "pool_core L p" "pendingQueue p = t # rest"
  shows "pool_core (add_mset (pt_promise t) L) (p\<lparr>pendingQueue := rest\<rparr>)"
  using assms by (auto simp: pool_core_def accounted_def slots_in_order_def open_promises_def)

lemma core_assign:
  assumes "pool_core (add_mset (pt_promise t) L) p" "i < length (workers p)" "\<not> slot_busy (workers p ! i)"
    and "\<not> isShuttingDown p \<longrightarrow> (\<forall>q \<in> set (pendingQueue p). pt_promise t < pt_promise q)"
  shows "pool_core L (assignTaskToWorker i t time p)"
proof -
  let ?s = "(workers p ! i)\<lparr>slot_busy := True, slot_activeTask := Some (nextTaskId p, t\<lparr>pt_dispatchedAtNs := Some time\<rparr>)\<rparr>"
  let ?p = "assignTaskToWorker i t time p"
  have new: "running ?s = [pt_promise t]" "slot_busy ?s" by (simp_all add: running_def)
  have w: "workers ?p = (workers p)[i := ?s]" by (simp add: assignTaskToWorker_def Let_def)
  have same: "pendingQueue ?p = pendingQueue p" "settled ?p = settled p" "promises ?p = promises p" "isShuttingDown ?p = isShuttingDown p"
    by (simp_all add: assignTaskToWorker_def Let_def)
  have "workers p ! i \<in> set (workers p)" using assms(2) by simp
  then have old: "running (workers p ! i) = []" using assms(1,3) unfolding pool_core_def slots_in_order_def by blast
  have "mset (open_promises ?p) = add_mset (pt_promise t) (mset (open_promises p))"
    using mset_concat_update [OF assms(2), of running ?s] unfolding new old by (simp add: open_promises_def w same)
  then have "accounted L ?p" using assms(1) unfolding pool_core_def accounted_def same by simp
  moreover have "set ((workers p)[i := ?s]) \<subseteq> insert ?s (set (workers p))" by (rule set_update_subset_insert)
  then have "slots_in_order ?p" using assms(1,4) new unfolding pool_core_def slots_in_order_def w same by auto
  ultimately show ?thesis by (simp add: pool_core_def)
qed

lemma core_enqueue:
  assumes "pool_core (add_mset (pt_promise t) L) p" "length (pendingQueue p) < PENDING_QUEUE_SIZE"
    and "\<And>a. a \<in> set (open_promises p) \<Longrightarrow> a < pt_promise t"
  shows "pool_core L (p\<lparr>pendingQueue := pendingQueue p @ [t]\<rparr>)"
  using assms by (auto simp: pool_core_def accounted_def slots_in_order_def open_promises_def sorted_wrt_append)

section \<open>Every step keeps the books\<close>

lemma findFreeWorker_Some: "findFreeWorker p = Some i \<Longrightarrow> i < length (workers p) \<and> \<not> slot_busy (workers p ! i)"
  by (auto simp: findFreeWorker_def find_Some_iff)

lemma findFreeWorker_None: "findFreeWorker p = None \<longleftrightarrow> (\<forall>s \<in> set (workers p). slot_busy s)"
  by (auto simp: findFreeWorker_def find_None_iff all_set_conv_all_nth)

lemma dispatch_keeps_books:
  assumes core: "pool_core {#} p"
    and others: "\<And>j. \<not> isShuttingDown p \<Longrightarrow> pendingQueue p \<noteq> [] \<Longrightarrow> j < length (workers p) \<Longrightarrow> j \<noteq> i \<Longrightarrow> slot_busy (workers p ! j)"
  shows "pool_ok (dispatchNextPendingTask time p)"
proof (cases "isShuttingDown p")
  case False
  show ?thesis
  proof (cases "findFreeWorker p")
    case None
    then have "dispatchNextPendingTask time p = p" by (simp add: dispatchNextPendingTask_def)
    with None core show ?thesis unfolding findFreeWorker_None by (simp add: pool_ok_def)
  next
    case (Some j)
    show ?thesis
    proof (cases "pendingQueue p")
      case Nil
      then show ?thesis using core False Some by (simp add: dispatchNextPendingTask_def pool_ok_def)
    next
      case (Cons t rest)
      let ?q = "p\<lparr>pendingQueue := rest\<rparr>"
      have j: "j < length (workers p)" "\<not> slot_busy (workers p ! j)" using findFreeWorker_Some [OF Some] by simp_all
      have eq: "dispatchNextPendingTask time p = assignTaskToWorker j t time ?q"
        using False Some Cons by (simp add: dispatchNextPendingTask_def)
      have later: "\<forall>q \<in> set rest. pt_promise t < pt_promise q"
        using core False Cons by (simp add: pool_core_def slots_in_order_def)
      have "pool_core {#} (assignTaskToWorker j t time ?q)"
        by (rule core_assign [OF core_take [OF core Cons]]) (use j later in simp_all)
      moreover have "\<forall>s \<in> set (workers (assignTaskToWorker j t time ?q)). slot_busy s"
      proof
        fix s assume "s \<in> set (workers (assignTaskToWorker j t time ?q))"
        then obtain k where k: "k < length (workers p)" "s = workers (assignTaskToWorker j t time ?q) ! k"
          by (auto simp: in_set_conv_nth assignTaskToWorker_def Let_def)
        have "j = i" using others [OF False _ j(1)] Cons j(2) by auto
        then show "slot_busy s" using k others [OF False _ k(1)] Cons by (cases "k = j") (simp_all add: assignTaskToWorker_def Let_def)
      qed
      ultimately show ?thesis unfolding eq by (simp add: pool_ok_def)
    qed
  qed
qed (use core in \<open>simp add: dispatchNextPendingTask_def pool_ok_def\<close>)

lemma settle_fields [simp]:
  "workers (settle t r p) = workers p" "pendingQueue (settle t r p) = pendingQueue p" "isShuttingDown (settle t r p) = isShuttingDown p"
  by (simp_all add: settle_def)

lemma free_slot_fields [simp]:
  "pendingQueue (free_slot i p) = pendingQueue p" "isShuttingDown (free_slot i p) = isShuttingDown p"
  "length (workers (free_slot i p)) = length (workers p)" "j \<noteq> i \<Longrightarrow> workers (free_slot i p) ! j = workers p ! j"
  by (simp_all add: free_slot_def)

lemma free_settle: "free_slot i (settle t r p) = settle t r (free_slot i p)"
  by (simp add: free_slot_def settle_def)

lemma all_busy: "pool_ok p \<Longrightarrow> \<not> isShuttingDown p \<Longrightarrow> pendingQueue p \<noteq> [] \<Longrightarrow> j < length (workers p) \<Longrightarrow> slot_busy (workers p ! j)"
  by (simp add: pool_ok_def)

lemma on_message_ok:
  assumes "pool_ok p" "i < length (workers p)"
  shows "pool_ok (on_message i m time1 time2 p)"
proof (cases "slot_activeTask (workers p ! i)")
  case (Some a)
  obtain n t where a: "a = (n, t)" by (rule prod.exhaust)
  show ?thesis
  proof (cases "n = wr_taskId m")
    case True
    have core: "pool_core (add_mset (pt_promise t) {#}) (free_slot i p)"
      using core_free [of "{#}" p i] assms Some by (simp add: pool_ok_def running_def a)
    have "pool_ok (dispatchNextPendingTask time2 (settle t r (free_slot i p)))" for r
      by (rule dispatch_keeps_books [OF core_settle [OF core], where i = i]) (simp add: all_busy [OF assms(1)])
    then show ?thesis using Some True by (simp add: on_message_def a)
  qed (use assms Some in \<open>simp add: on_message_def a\<close>)
qed (use assms in \<open>simp add: on_message_def\<close>)

lemma set_update_similar: "i < length xs \<Longrightarrow> P y (xs ! i) \<Longrightarrow> (\<And>x. P x x) \<Longrightarrow> \<forall>x \<in> set (xs[i := y]). \<exists>x' \<in> set xs. P x x'"
  by (metis in_set_conv_nth insertE nth_mem set_update_subset_insert subsetD)

lemma slots_in_order_similar:
  assumes "slots_in_order p" "length (workers q) = length (workers p)" "pendingQueue q = pendingQueue p" "isShuttingDown q = isShuttingDown p"
    and "\<forall>s \<in> set (workers q). \<exists>s' \<in> set (workers p). running s = running s' \<and> slot_busy s = slot_busy s'"
  shows "slots_in_order q"
  unfolding slots_in_order_def
proof (intro conjI impI ballI)
  fix s assume "s \<in> set (workers q)"
  with assms(5) obtain s' where s': "s' \<in> set (workers p)" "running s = running s'" "slot_busy s = slot_busy s'" by blast
  show "running s \<noteq> [] \<Longrightarrow> slot_busy s" using s' assms(1) unfolding slots_in_order_def by simp
  show "\<not> isShuttingDown q \<Longrightarrow> slot_busy s \<Longrightarrow> running s \<noteq> []" using s' assms(1,4) unfolding slots_in_order_def by simp
  show "\<not> isShuttingDown q \<Longrightarrow> a \<in> set (running s) \<Longrightarrow> t \<in> set (pendingQueue q) \<Longrightarrow> a < pt_promise t" for a t
    using s' assms(1,3,4) unfolding slots_in_order_def by simp
qed (use assms(1-4) in \<open>simp_all add: slots_in_order_def\<close>)

lemma core_replace:
  assumes "pool_core L p" "i < length (workers p)"
  shows "pool_core L (p\<lparr>workers := (workers p)[i := (workers p ! i)\<lparr>slot_worker := n\<rparr>], worker_objects := m\<rparr>)"
proof -
  define y where "y = (workers p ! i)\<lparr>slot_worker := n\<rparr>"
  define q where "q = p\<lparr>workers := (workers p)[i := y], worker_objects := m\<rparr>"
  have new: "running y = running (workers p ! i)" "slot_busy y = slot_busy (workers p ! i)" by (simp_all add: y_def running_def)
  have q: "workers q = (workers p)[i := y]" "pendingQueue q = pendingQueue p" "isShuttingDown q = isShuttingDown p"
    "settled q = settled p" "promises q = promises p" by (simp_all add: q_def)
  have "mset (concat (map running (workers q))) = mset (concat (map running (workers p)))"
    using mset_concat_update [OF assms(2), of running y] unfolding new q(1) by simp
  then have "accounted L q" using assms(1) by (simp add: pool_core_def accounted_def open_promises_def q(2,4,5))
  moreover have "slots_in_order q"
  proof (rule slots_in_order_similar)
    show "slots_in_order p" using assms(1) by (simp add: pool_core_def)
    show "\<forall>s \<in> set (workers q). \<exists>s' \<in> set (workers p). running s = running s' \<and> slot_busy s = slot_busy s'"
      unfolding q(1) by (rule set_update_similar [OF assms(2)]) (simp_all add: new)
  qed (simp_all add: q)
  ultimately show ?thesis by (simp add: pool_core_def q_def y_def)
qed

lemma handleWorkerFailure_ok:
  assumes "pool_ok p" "i < length (workers p)"
  shows "pool_ok (handleWorkerFailure i e time p)"
proof (cases "isShuttingDown p")
  case False
  define q where "q = (case slot_activeTask (workers p ! i) of None \<Rightarrow> free_slot i p | Some (n, t) \<Rightarrow> settle t (Rejected e) (free_slot i p))"
  have eq: "handleWorkerFailure i e time p = dispatchNextPendingTask time
      (q\<lparr>workers := (workers q)[i := (workers q ! i)\<lparr>slot_worker := worker_objects q\<rparr>], worker_objects := worker_objects q + 1\<rparr>)"
    using False by (simp add: handleWorkerFailure_def q_def Let_def free_settle split: option.split prod.split)
  have core: "pool_core {#} q"
  proof (cases "slot_activeTask (workers p ! i)")
    case None
    then show ?thesis using core_free [of "{#}" p i] assms by (simp add: pool_ok_def running_def q_def)
  next
    case (Some a)
    obtain n t where a: "a = (n, t)" by (rule prod.exhaust)
    have "pool_core (add_mset (pt_promise t) {#}) (free_slot i p)"
      using core_free [of "{#}" p i] assms Some by (simp add: pool_ok_def running_def a)
    then show ?thesis using Some by (simp add: q_def a core_settle)
  qed
  have q: "length (workers q) = length (workers p)" "pendingQueue q = pendingQueue p" "isShuttingDown q = isShuttingDown p"
    "j \<noteq> i \<Longrightarrow> workers q ! j = workers p ! j" for j
    by (simp_all add: q_def split: option.split prod.split)
  show ?thesis unfolding eq
    by (rule dispatch_keeps_books [OF core_replace [OF core], where i = i]) (simp_all add: q assms(2) all_busy [OF assms(1)])
qed (use assms in \<open>simp add: handleWorkerFailure_def\<close>)

lemma on_exit_ok: "pool_ok p \<Longrightarrow> i < length (workers p) \<Longrightarrow> pool_ok (on_exit i code time p)"
  by (simp add: on_exit_def handleWorkerFailure_ok)

lemma stopped_running:
  "map fst (List.map_filter (\<lambda>s. map_option (\<lambda>(n, t). (pt_promise t, r)) (slot_activeTask s)) ws) = concat (map running ws)"
  by (induction ws) (auto simp: List.map_filter_simps running_def split: option.split)

lemma onModuleDestroy_ok:
  assumes "pool_ok p"
  shows "pool_ok (onModuleDestroy p)"
proof -
  let ?ws = "map (\<lambda>s. s\<lparr>slot_activeTask := None\<rparr>) (workers p)"
  have none: "running s = []" if "s \<in> set ?ws" for s using that by (auto simp: running_def)
  then have "concat (map running ?ws) = []" by (simp only: concat_eq_Nil_conv) auto
  then have "accounted {#} (onModuleDestroy p)"
    using assms unfolding pool_ok_def pool_core_def accounted_def open_promises_def
    by (simp add: onModuleDestroy_def stopped_running comp_def ac_simps)
  moreover have "slots_in_order (onModuleDestroy p)"
  proof -
    have q: "workers (onModuleDestroy p) = ?ws" "pendingQueue (onModuleDestroy p) = []" "isShuttingDown (onModuleDestroy p)"
      by (simp_all add: onModuleDestroy_def)
    have "length ?ws = WORKER_POOL_SIZE" using assms by (simp add: pool_ok_def pool_core_def slots_in_order_def)
    with none q(3) show ?thesis unfolding slots_in_order_def q(1,2) by simp
  qed
  ultimately show ?thesis by (simp add: pool_ok_def pool_core_def onModuleDestroy_def)
qed

lemma executeRequestClass_ok:
  assumes "pool_ok p" "executeRequestClass profiles random requestClass time1 time2 (p, r) = (outcome, p', r')"
  shows "pool_ok p'"
proof (cases "map_of profiles (class_name requestClass)")
  case (Some profile)
  obtain d r1 where d: "sampleRequestClassDemand random profile r = (d, r1)" by (rule prod.exhaust)
  let ?t = "\<lparr>pt_sampledDemand = d, pt_wallClockStartNs = time1, pt_dispatchedAtNs = None,
    pt_queueDepthOnArrival = length (pendingQueue p), pt_promise = promises p\<rparr>"
  let ?q = "p\<lparr>promises := promises p + 1\<rparr>"
  have core: "pool_core (add_mset (pt_promise ?t) {#}) ?q" using core_promise [of "{#}" p] assms(1) by (simp add: pool_ok_def)
  show ?thesis
  proof (cases "findFreeWorker p")
    case free: (Some i)
    have i: "i < length (workers p)" "\<not> slot_busy (workers p ! i)" using findFreeWorker_Some [OF free] by simp_all
    have p': "p' = assignTaskToWorker i ?t time2 ?q"
      using assms(2) Some d free by (simp add: executeRequestClass_def Let_def)
    have empty: "\<not> isShuttingDown p \<Longrightarrow> pendingQueue p = []" using all_busy [OF assms(1) _ _ i(1)] i(2) by blast
    have "pool_core {#} p'" unfolding p' by (rule core_assign [OF core]) (use i empty in simp_all)
    then show ?thesis using empty by (simp add: pool_ok_def p' assignTaskToWorker_def Let_def)
  next
    case None
    show ?thesis
    proof (cases "PENDING_QUEUE_SIZE \<le> length (pendingQueue p)")
      case True
      then have "p' = p" using assms(2) Some d None by (simp add: executeRequestClass_def Let_def)
      then show ?thesis using assms(1) by simp
    next
      case False
      then have p': "p' = ?q\<lparr>pendingQueue := pendingQueue ?q @ [?t]\<rparr>"
        using assms(2) Some d None by (simp add: executeRequestClass_def Let_def)
      have old: "a < promises p" if "a \<in> set (open_promises ?q)" for a
        using core_old [of "{#}" p a] assms(1) that by (simp add: pool_ok_def open_promises_def)
      have "pool_core {#} p'" unfolding p' by (rule core_enqueue [OF core]) (use False old in simp_all)
      then show ?thesis using None unfolding findFreeWorker_None by (simp add: pool_ok_def p')
    qed
  qed
qed (use assms in \<open>simp add: executeRequestClass_def Let_def\<close>)

lemma pool_step_ok: "pool_step profiles random a b \<Longrightarrow> pool_ok (fst a) \<Longrightarrow> pool_ok (fst b)"
  by (induction rule: pool_step.induct)
    (simp_all add: executeRequestClass_ok on_message_ok handleWorkerFailure_ok on_exit_ok onModuleDestroy_ok)

lemma pool_init_ok: "pool_ok onModuleInit"
  by (auto simp: pool_ok_def pool_core_def accounted_def slots_in_order_def open_promises_def onModuleInit_def running_def
      WORKER_POOL_SIZE_def PENDING_QUEUE_SIZE_def)

lemma pool_run_ok:
  assumes "pool_run profiles random (onModuleInit, r0) (p, r)"
  shows "pool_ok p"
proof -
  have "pool_ok (fst b)" if "(pool_step profiles random)\<^sup>*\<^sup>* (onModuleInit, r0) b" for b
    using that by (induction rule: rtranclp_induct) (use pool_init_ok pool_step_ok in auto)
  then show ?thesis using assms unfolding pool_run_def by fastforce
qed

section \<open>Answers empty the pool\<close>

lemma dispatch_same [simp]:
  "settled (dispatchNextPendingTask time p) = settled p" "promises (dispatchNextPendingTask time p) = promises p"
  "isShuttingDown (dispatchNextPendingTask time p) = isShuttingDown p"
  by (simp_all add: dispatchNextPendingTask_def assignTaskToWorker_def Let_def split: option.split list.split)

lemma accounted_length: "pool_ok p \<Longrightarrow> length (open_promises p) + length (settled p) = promises p"
proof -
  assume "pool_ok p"
  then have "mset (open_promises p) + mset (map fst (settled p)) = mset [0..<promises p]"
    by (simp add: pool_ok_def pool_core_def accounted_def)
  then have "size (mset (open_promises p) + mset (map fst (settled p))) = size (mset [0..<promises p])" by (rule arg_cong)
  then show ?thesis by (simp only: size_union size_mset length_map length_upt diff_zero)
qed

lemma running_Nil: "running s = [] \<longleftrightarrow> slot_activeTask s = None"
  by (cases "slot_activeTask s") (auto simp: running_def)

lemma running_slot:
  assumes "pool_ok p" "\<not> isShuttingDown p" "open_promises p \<noteq> []"
  obtains i n t where "i < length (workers p)" "slot_activeTask (workers p ! i) = Some (n, t)"
proof -
  have "\<exists>s \<in> set (workers p). running s \<noteq> []"
  proof (cases "pendingQueue p = []")
    case True
    then show ?thesis using assms(3) by (auto simp: open_promises_def)
  next
    case False
    then have busy: "slot_busy (workers p ! 0)" "workers p ! 0 \<in> set (workers p)"
      using assms(1) all_busy [OF assms(1,2) False] by (simp_all add: pool_ok_def pool_core_def slots_in_order_def WORKER_POOL_SIZE_def)
    then have "running (workers p ! 0) \<noteq> []" using assms(1,2) unfolding pool_ok_def pool_core_def slots_in_order_def by blast
    then show ?thesis using busy(2) by blast
  qed
  then obtain i where i: "i < length (workers p)" "running (workers p ! i) \<noteq> []" by (auto simp: in_set_conv_nth)
  then obtain n t where "slot_activeTask (workers p ! i) = Some (n, t)"
    by (cases "slot_activeTask (workers p ! i)") (auto simp: running_def)
  with i show ?thesis using that by blast
qed

text \<open>An answer: a worker sends the result or the error of the task it runs.\<close>

inductive pool_answer :: "demand_pool \<Rightarrow> demand_pool \<Rightarrow> bool" where
  answer: "i < length (workers p) \<Longrightarrow> slot_activeTask (workers p ! i) = Some (wr_taskId m, t) \<Longrightarrow> pool_answer p (on_message i m time1 time2 p)"

lemma answer_settles_one:
  assumes "pool_answer p q" "pool_ok p"
  shows "pool_ok q \<and> isShuttingDown q = isShuttingDown p \<and> promises q = promises p
    \<and> length (settled q) = Suc (length (settled p)) \<and> Suc (length (open_promises q)) = length (open_promises p)"
  using assms(1)
proof cases
  case (answer i m t time1 time2)
  have ok: "pool_ok q" unfolding answer(1) by (rule on_message_ok [OF assms(2) answer(2)])
  have q: "length (settled q) = Suc (length (settled p))" "promises q = promises p" "isShuttingDown q = isShuttingDown p"
    using answer(3) unfolding answer(1) by (simp_all add: on_message_def settle_def free_slot_def)
  with accounted_length [OF ok] accounted_length [OF assms(2)] ok show ?thesis by simp
qed

lemma answers_settle:
  assumes "(pool_answer ^^ k) p q" "pool_ok p"
  shows "pool_ok q \<and> isShuttingDown q = isShuttingDown p \<and> promises q = promises p
    \<and> length (settled q) = length (settled p) + k \<and> length (open_promises q) + k = length (open_promises p)"
  using assms(1)
proof (induction k arbitrary: q)
  case 0
  with assms(2) show ?case by simp
next
  case (Suc k)
  then obtain u where u: "(pool_answer ^^ k) p u" "pool_answer u q" by auto
  note before = Suc.IH [OF u(1)]
  from answer_settles_one [OF u(2)] before show ?case by simp
qed

lemma answer_possible:
  assumes "pool_ok p" "\<not> isShuttingDown p" "open_promises p \<noteq> []"
  shows "\<exists>q. pool_answer p q"
proof -
  from running_slot [OF assms] obtain i n t where "i < length (workers p)" "slot_activeTask (workers p ! i) = Some (n, t)" .
  then show ?thesis using pool_answer.answer [of i p "\<lparr>wr_taskId = n, wr_result = None, wr_error = None\<rparr>" t 0 0] by auto
qed

lemma answers_empty_pool:
  assumes "pool_ok p" "\<not> isShuttingDown p"
  shows "\<exists>q. (pool_answer ^^ length (open_promises p)) p q"
  using assms
proof (induction "length (open_promises p)" arbitrary: p)
  case 0
  then show ?case by (intro exI [of _ p]) simp
next
  case (Suc k)
  from Suc.hyps(2) have "open_promises p \<noteq> []" by auto
  from answer_possible [OF Suc.prems this] obtain u where u: "pool_answer p u" ..
  note one = answer_settles_one [OF u Suc.prems(1)]
  then have "k = length (open_promises u)" using Suc.hyps(2) by simp
  with Suc.hyps(1) [of u] one Suc.prems(2) obtain q where "(pool_answer ^^ k) u q" by auto
  with u Suc.hyps(2) show ?case by (metis relpowp_Suc_I2)
qed

section \<open>Properties\<close>

lemma first_request:
  "\<exists>p r'. pool_run [(''image'', demo_profile)] random (onModuleInit, r) (p, r') \<and> open_promises p = [0] \<and> \<not> isShuttingDown p"
proof -
  obtain d r' where d: "sampleRequestClassDemand random demo_profile r = (d, r')" by (rule prod.exhaust)
  have name: "class_name ''image'' = ''image''" and free: "findFreeWorker onModuleInit = Some 0" by code_simp+
  obtain p where p: "executeRequestClass [(''image'', demo_profile)] random ''image'' 0 0 (onModuleInit, r) = (Accepted (promises onModuleInit), p, r')"
    "p = assignTaskToWorker 0 \<lparr>pt_sampledDemand = d, pt_wallClockStartNs = 0, pt_dispatchedAtNs = None,
      pt_queueDepthOnArrival = length (pendingQueue onModuleInit), pt_promise = promises onModuleInit\<rparr> 0
      (onModuleInit\<lparr>promises := promises onModuleInit + 1\<rparr>)"
    by (simp add: executeRequestClass_def d name free Let_def)
  have "pool_run [(''image'', demo_profile)] random (onModuleInit, r) (p, r')"
    unfolding pool_run_def by (rule r_into_rtranclp) (rule pool_step.request [OF p(1)])
  moreover have "open_promises p = [0]" "\<not> isShuttingDown p" unfolding p(2)
    by (simp_all add: assignTaskToWorker_def Let_def onModuleInit_def open_promises_def running_def WORKER_POOL_SIZE_def upt_rec)
  ultimately show ?thesis by blast
qed

lemma length_concat_le: "(\<And>x. length (f x) \<le> 1) \<Longrightarrow> length (concat (map f xs)) \<le> length xs"
proof (induction xs)
  case (Cons x xs)
  then have "length (f x) + length (concat (map f xs)) \<le> 1 + length xs" by (intro add_mono) simp_all
  then show ?case by simp
qed simp

text \<open>C11: however requests, answers, failures, exits and the end of the module interleave, an accepted request is settled exactly
  once, or runs, or waits; three at most run and six at most wait.\<close>

theorem pool_accounts_requests:
  assumes "pool_run profiles random (onModuleInit, r0) (p, r)"
  shows "mset (map fst (settled p)) + mset (concat (map running (workers p))) + mset (map pt_promise (pendingQueue p)) = mset [0..<promises p]
    \<and> length (concat (map running (workers p))) \<le> WORKER_POOL_SIZE \<and> length (pendingQueue p) \<le> PENDING_QUEUE_SIZE"
proof -
  have ok: "pool_ok p" by (rule pool_run_ok [OF assms])
  have "length (running s) \<le> 1" for s by (simp add: running_def split: option.split prod.split)
  then have "length (concat (map running (workers p))) \<le> length (workers p)" by (rule length_concat_le)
  then have "length (concat (map running (workers p))) \<le> WORKER_POOL_SIZE"
    using ok by (metis pool_ok_def pool_core_def slots_in_order_def)
  then show ?thesis using ok by (simp add: pool_ok_def pool_core_def accounted_def slots_in_order_def open_promises_def ac_simps)
qed

theorem pool_accounts_requests_witness:
  "\<forall>(random :: unit \<Rightarrow> rat \<times> unit) r. \<exists>p. open_promises p = [0] \<and> length (pendingQueue p) \<le> 6
    \<and> mset (map fst (settled p)) + mset (concat (map running (workers p))) + mset (map pt_promise (pendingQueue p)) = mset [0..<promises p]"
proof (intro allI)
  fix random :: "unit \<Rightarrow> rat \<times> unit" and r
  from first_request [of random r] obtain p r' where
    p: "pool_run [(''image'', demo_profile)] random (onModuleInit, r) (p, r')" "open_promises p = [0]" by (elim exE conjE)
  from pool_accounts_requests [OF p(1)] p(2) show "\<exists>p. open_promises p = [0] \<and> length (pendingQueue p) \<le> 6
    \<and> mset (map fst (settled p)) + mset (concat (map running (workers p))) + mset (map pt_promise (pendingQueue p)) = mset [0..<promises p]"
    by (intro exI [of _ p]) (simp add: PENDING_QUEUE_SIZE_def)
qed

text \<open>C12: while the module runs, a request waits only when every worker is busy, the queue is in the order of arrival, and what
  runs arrived before what waits.\<close>

theorem waiting_requests_in_order:
  assumes "pool_run profiles random (onModuleInit, r0) (p, r)" "\<not> isShuttingDown p"
  shows "(pendingQueue p \<noteq> [] \<longrightarrow> (\<forall>s \<in> set (workers p). slot_busy s \<and> slot_activeTask s \<noteq> None))
    \<and> sorted_wrt (<) (map pt_promise (pendingQueue p))
    \<and> (\<forall>s \<in> set (workers p). \<forall>n a. slot_activeTask s = Some (n, a) \<longrightarrow> (\<forall>t \<in> set (pendingQueue p). pt_promise a < pt_promise t))"
proof -
  have ok: "pool_ok p" by (rule pool_run_ok [OF assms(1)])
  have busy: "slot_busy s \<and> slot_activeTask s \<noteq> None" if "pendingQueue p \<noteq> []" "s \<in> set (workers p)" for s
  proof -
    have "slot_busy s" using ok assms(2) that unfolding pool_ok_def by blast
    moreover from this have "running s \<noteq> []" using ok assms(2) that unfolding pool_ok_def pool_core_def slots_in_order_def by blast
    ultimately show ?thesis by (cases "slot_activeTask s") (simp_all add: running_def)
  qed
  have "pt_promise a < pt_promise t"
    if "s \<in> set (workers p)" "slot_activeTask s = Some (n, a)" "t \<in> set (pendingQueue p)" for s n a t
  proof -
    have "pt_promise a \<in> set (running s)" using that(2) by (simp add: running_def)
    then show ?thesis using ok assms(2) that unfolding pool_ok_def pool_core_def slots_in_order_def by blast
  qed
  moreover have "sorted_wrt (<) (map pt_promise (pendingQueue p))"
    using ok assms(2) unfolding pool_ok_def pool_core_def slots_in_order_def by blast
  ultimately show ?thesis using busy by blast
qed

theorem waiting_requests_in_order_witness:
  "\<forall>(random :: unit \<Rightarrow> rat \<times> unit) r. \<exists>p. open_promises p = [0] \<and> sorted_wrt (<) (map pt_promise (pendingQueue p))"
proof (intro allI)
  fix random :: "unit \<Rightarrow> rat \<times> unit" and r
  from first_request [of random r] obtain p r' where
    p: "pool_run [(''image'', demo_profile)] random (onModuleInit, r) (p, r')" "open_promises p = [0]" "\<not> isShuttingDown p"
    by (elim exE conjE)
  from waiting_requests_in_order [OF p(1,3)] p(2)
  show "\<exists>p. open_promises p = [0] \<and> sorted_wrt (<) (map pt_promise (pendingQueue p))" by (intro exI [of _ p]) simp
qed

text \<open>C29: nothing that is accepted is left behind while the module runs.  In every state that a run reaches an answer is
  possible as long as a request is open, for each worker that answers takes the next that waits; every
  answer settles exactly one request; and so any sequence of as many answers as there are
  open requests, of which there is one, leaves nothing running and nothing waiting, and each promise settled once.\<close>

theorem pool_drains:
  assumes "pool_run profiles random (onModuleInit, r0) (p, r)" "\<not> isShuttingDown p"
  shows "(\<exists>q. (pool_answer ^^ length (open_promises p)) p q)
    \<and> (\<forall>k q. (pool_answer ^^ k) p q \<longrightarrow> length (open_promises q) + k = length (open_promises p)
         \<and> length (settled q) = length (settled p) + k \<and> (open_promises q \<noteq> [] \<longrightarrow> (\<exists>q'. pool_answer q q'))
         \<and> (k = length (open_promises p) \<longrightarrow> pendingQueue q = [] \<and> (\<forall>s \<in> set (workers q). slot_activeTask s = None)
              \<and> mset (map fst (settled q)) = mset [0..<promises p]))"
proof -
  have ok: "pool_ok p" by (rule pool_run_ok [OF assms(1)])
  have "length (open_promises q) + k = length (open_promises p) \<and> length (settled q) = length (settled p) + k
      \<and> (open_promises q \<noteq> [] \<longrightarrow> (\<exists>q'. pool_answer q q'))
      \<and> (k = length (open_promises p) \<longrightarrow> pendingQueue q = [] \<and> (\<forall>s \<in> set (workers q). slot_activeTask s = None)
           \<and> mset (map fst (settled q)) = mset [0..<promises p])" if "(pool_answer ^^ k) p q" for k q
  proof -
    note q = answers_settle [OF that ok]
    have "pendingQueue q = [] \<and> (\<forall>s \<in> set (workers q). slot_activeTask s = None) \<and> mset (map fst (settled q)) = mset [0..<promises p]"
      if "open_promises q = []"
    proof -
      have "accounted {#} q" using q unfolding pool_ok_def pool_core_def by blast
      then have "mset (map fst (settled q)) = mset [0..<promises p]" using q unfolding accounted_def that by simp
      moreover have "pendingQueue q = []" "\<forall>s \<in> set (workers q). running s = []" using that by (simp_all add: open_promises_def)
      moreover from this(2) have "\<forall>s \<in> set (workers q). slot_activeTask s = None" by (simp add: running_Nil)
      ultimately show ?thesis by blast
    qed
    with q answer_possible [of q] assms(2) show ?thesis by auto
  qed
  with answers_empty_pool [OF ok assms(2)] show ?thesis by blast
qed

theorem pool_drains_witness:
  "\<forall>(random :: unit \<Rightarrow> rat \<times> unit) r. \<exists>p q. open_promises p = [0] \<and> pool_answer p q
    \<and> pendingQueue q = [] \<and> mset (map fst (settled q)) = mset [0..<promises p]"
proof (intro allI)
  fix random :: "unit \<Rightarrow> rat \<times> unit" and r
  from first_request [of random r] obtain p r' where
    p: "pool_run [(''image'', demo_profile)] random (onModuleInit, r) (p, r')" "open_promises p = [0]" "\<not> isShuttingDown p"
    by (elim exE conjE)
  have one: "(pool_answer ^^ length (open_promises p)) p = pool_answer p" unfolding p(2) by (simp add: eq_OO)
  from pool_drains [OF p(1,3)] obtain q where q: "(pool_answer ^^ length (open_promises p)) p q" by (elim conjE exE)
  moreover have "pendingQueue q = [] \<and> mset (map fst (settled q)) = mset [0..<promises p]"
    using pool_drains [OF p(1,3)] q by blast
  ultimately show "\<exists>p q. open_promises p = [0] \<and> pool_answer p q \<and> pendingQueue q = [] \<and> mset (map fst (settled q)) = mset [0..<promises p]"
    using p(2) unfolding one by blast
qed

end
