(* ===== verification/DemandService.thy ===== *)
theory DemandService
  imports DemandPool
begin

text \<open>
  What a client of the resource demand service sees: the worker's answer to its task
  (\<^verbatim>\<open>resource-demand.worker.ts\<close>), the routes and the headers (\<^verbatim>\<open>resource-demand.controller.ts\<close>,
  \<^verbatim>\<open>app.controller.ts\<close>, \<^verbatim>\<open>app.service.ts\<close>), and the way of an accepted request from the pool through its
  worker to the response.
\<close>

section \<open>The worker's answer\<close>

text \<open>An error of reading the time is an \<^verbatim>\<open>Error\<close>, whose message is sent.\<close>

definition answer_task :: "('w \<Rightarrow> (string + int) \<times> 'w) \<Rightarrow> WorkerTask \<Rightarrow> 'w \<Rightarrow> (WorkerResponse \<times> 'w) option" where
  "answer_task read message w =
     (case executeThreadCpuDemand read (wt_requestClass message) (wt_targetThreadCpuTimeNs message) w of
        None \<Rightarrow> None
      | Some (Inr result, w') \<Rightarrow> Some (\<lparr>wr_taskId = wt_taskId message, wr_result = Some result, wr_error = None\<rparr>, w')
      | Some (Inl reason, w') \<Rightarrow> Some (\<lparr>wr_taskId = wt_taskId message, wr_result = None, wr_error = Some reason\<rparr>, w'))"

section \<open>The routes\<close>

definition RESPONSE_CONTENT_TYPE :: string where
  "RESPONSE_CONTENT_TYPE = ''application/octet-stream''"

text \<open>\<^verbatim>\<open>toFixed(3)\<close> of a number below \<open>10 ^ 21\<close>: the nearest thousandth of the exact value, the larger of two.\<close>

definition toFixed3 :: "rat \<Rightarrow> string" where
  "toFixed3 x = (let n = \<lfloor>\<bar>x\<bar> * 1000 + 1 / 2\<rfloor>; digits = int_str (n mod 1000) in
     (if x < 0 then ''-'' else []) @ int_str (n div 1000) @ ''.'' @ replicate (3 - length digits) CHR ''0'' @ digits)"

definition setExecutionHeaders :: "CompletedRequestClassExecution \<Rightarrow> (string \<times> string) list" where
  "setExecutionHeaders e =
     [(''X-Service-Name'', SERVICE_NAME), (''X-Request-Class'', ce_requestClass e),
      (''X-Target-Thread-CPU-Ms'', toFixed3 (ce_targetThreadCpuMs e)),
      (''X-Observed-Thread-CPU-Ms'', toFixed3 (ce_observedThreadCpuMs e)),
      (''X-Target-Response-Payload-Bytes'', int_str (ce_targetResponsePayloadBytes e)),
      (''X-Actual-Response-Payload-Bytes'', int_str (int (ce_actualResponsePayloadBytes e))),
      (''Content-Length'', int_str (int (ce_actualResponsePayloadBytes e))),
      (''X-Worker-Id'', int_str (int (ce_workerId e))), (''X-Worker-Checksum'', int_str (uint (ce_workerChecksum e))),
      (''X-Queue-Wait-Ms'', toFixed3 (ce_queueWaitMs e)),
      (''X-Queue-Depth-On-Arrival'', int_str (int (ce_queueDepthOnArrival e))), (''X-App-Time-Ms'', toFixed3 (ce_appTimeMs e))]"

datatype demand_body = JsonBody json | Bytes string

record demand_response =
  dr_status :: nat
  dr_type :: string
  dr_headers :: "(string \<times> string) list"
  dr_body :: demand_body

definition execution_metrics :: "CompletedRequestClassExecution \<Rightarrow> json" where
  "execution_metrics e = JObj
     [(''targetThreadCpuMs'', JFloat (Fin (ce_targetThreadCpuMs e))), (''observedThreadCpuMs'', JFloat (Fin (ce_observedThreadCpuMs e))),
      (''responsePayloadBytes'', JInt (int (ce_actualResponsePayloadBytes e))), (''appTimeMs'', JFloat (Fin (ce_appTimeMs e))),
      (''queueWaitMs'', JFloat (Fin (ce_queueWaitMs e))), (''queueDepthOnArrival'', JInt (int (ce_queueDepthOnArrival e))),
      (''workerId'', JInt (int (ce_workerId e))), (''workerChecksum'', JInt (uint (ce_workerChecksum e)))]"

text \<open>The route for a settled request.  A rejection is thrown on; the framework, which also measures a JSON
  body anew, turns it into a response.\<close>

definition demand_route :: "string option \<Rightarrow> settlement \<Rightarrow> string + demand_response" where
  "demand_route format outcome = (case outcome of
     Rejected e \<Rightarrow> Inl e
   | Resolved e \<Rightarrow> Inr (
       if map_option lower format = Some ''json''
       then \<lparr>dr_status = 200, dr_type = ''application/json'', dr_headers = setExecutionHeaders e,
         dr_body = JsonBody (JObj [(''service'', JStr SERVICE_NAME), (''requestClass'', JStr (ce_requestClass e)),
           (''metrics'', execution_metrics e)])\<rparr>
       else \<lparr>dr_status = 200, dr_type = RESPONSE_CONTENT_TYPE, dr_headers = setExecutionHeaders e,
         dr_body = Bytes (ce_responsePayload e)\<rparr>))"

definition getRequestClasses :: "(string \<times> RequestClassProfile) list \<Rightarrow> string list" where
  "getRequestClasses profiles = map fst profiles"

definition getRequestClassProfiles :: "(string \<times> RequestClassProfile) list \<Rightarrow> RequestClassProfile list" where
  "getRequestClassProfiles profiles = map snd profiles"

definition getServiceSummary :: "string list \<Rightarrow> json" where
  "getServiceSummary requestClasses = JObj
     [(''service'', JStr SERVICE_NAME), (''status'', JStr ''ok''), (''requestClasses'', JArr (map JStr requestClasses)),
      (''endpoints'', JArr (map (\<lambda>name. JStr (''/demand/'' @ name)) requestClasses))]"

section \<open>What runs has been posted\<close>

definition task_of :: "nat \<Rightarrow> PendingTask \<Rightarrow> WorkerTask" where
  "task_of n t = \<lparr>wt_taskId = n, wt_requestClass = dem_requestClass (pt_sampledDemand t),
     wt_targetThreadCpuTimeNs = dem_targetThreadCpuTimeNs (pt_sampledDemand t)\<rparr>"

definition wants_time :: "PendingTask \<Rightarrow> bool" where
  "wants_time t \<longleftrightarrow> 1 \<le> dem_targetThreadCpuTimeNs (pt_sampledDemand t)"

definition slot_posted :: "demand_pool \<Rightarrow> WorkerSlot \<Rightarrow> bool" where
  "slot_posted p s \<longleftrightarrow> (\<forall>n t. slot_activeTask s = Some (n, t) \<longrightarrow> (slot_worker s, task_of n t) \<in> set (posted p) \<and> wants_time t)"

definition posted_ok :: "demand_pool \<Rightarrow> bool" where
  "posted_ok p \<longleftrightarrow> (\<forall>s \<in> set (workers p). slot_posted p s) \<and> (\<forall>t \<in> set (pendingQueue p). wants_time t)"

lemma posted_ok_update:
  assumes "posted_ok p" "slot_posted q s" "workers q = (workers p)[i := s]" "set (posted p) \<subseteq> set (posted q)"
    and "set (pendingQueue q) \<subseteq> set (pendingQueue p)"
  shows "posted_ok q"
proof -
  have "slot_posted q s'" if "s' \<in> set (workers p)" for s'
    using assms(1,4) that unfolding posted_ok_def slot_posted_def by blast
  then have "\<forall>s' \<in> set (workers q). slot_posted q s'"
    using assms(2) set_update_subset_insert [of "workers p" i s] unfolding assms(3) by blast
  then show ?thesis using assms(1,5) unfolding posted_ok_def by blast
qed

lemma idle_posted [simp]: "slot_activeTask s = None \<Longrightarrow> slot_posted p s"
  by (simp add: slot_posted_def)

lemma posted_fewer: "posted_ok p \<Longrightarrow> set (pendingQueue q) \<subseteq> set (pendingQueue p) \<Longrightarrow> workers q = workers p \<Longrightarrow> posted q = posted p \<Longrightarrow> posted_ok q"
  by (auto simp: posted_ok_def slot_posted_def)

lemma posted_assign: "posted_ok p \<Longrightarrow> wants_time t \<Longrightarrow> posted_ok (assignTaskToWorker i t time p)"
  by (rule posted_ok_update [where p = p and i = i
        and s = "(workers p ! i)\<lparr>slot_busy := True, slot_activeTask := Some (nextTaskId p, t\<lparr>pt_dispatchedAtNs := Some time\<rparr>)\<rparr>"])
    (auto simp: assignTaskToWorker_def Let_def slot_posted_def task_of_def wants_time_def)

lemma posted_dispatch:
  assumes "posted_ok p"
  shows "posted_ok (dispatchNextPendingTask time p)"
proof (cases "findFreeWorker p = None \<or> pendingQueue p = [] \<or> isShuttingDown p")
  case False
  then obtain i t rest where c: "findFreeWorker p = Some i" "pendingQueue p = t # rest" by (cases "pendingQueue p") auto
  have "posted_ok (p\<lparr>pendingQueue := rest\<rparr>)" by (rule posted_fewer [OF assms]) (auto simp: c(2))
  moreover have "wants_time t" using assms c(2) by (simp add: posted_ok_def)
  ultimately show ?thesis using False c by (simp add: dispatchNextPendingTask_def posted_assign)
qed (use assms in \<open>auto simp: dispatchNextPendingTask_def split: option.split list.split\<close>)

lemma posted_settle [simp]: "posted_ok (settle t r p) = posted_ok p"
  by (simp add: posted_ok_def slot_posted_def settle_def)

lemma posted_free: "posted_ok p \<Longrightarrow> posted_ok (free_slot i p)"
  by (rule posted_ok_update [where p = p and i = i and s = "(workers p ! i)\<lparr>slot_busy := False, slot_activeTask := None\<rparr>"])
    (simp_all add: free_slot_def)

lemma posted_message: "posted_ok p \<Longrightarrow> posted_ok (on_message i m time1 time2 p)"
  by (simp add: on_message_def posted_dispatch posted_free split: option.split prod.split)

lemma free_then_replaced:
  assumes "posted_ok p" "i < length (workers p)"
  shows "posted_ok ((free_slot i p)\<lparr>workers := (workers (free_slot i p))[i := (workers (free_slot i p) ! i)\<lparr>slot_worker := n\<rparr>], worker_objects := m\<rparr>)"
  by (rule posted_ok_update [OF posted_free [OF assms(1), of i], where i = i and s = "(workers (free_slot i p) ! i)\<lparr>slot_worker := n\<rparr>"])
    (use assms(2) in \<open>simp_all add: free_slot_def\<close>)

lemma posted_failure:
  assumes "posted_ok p" "i < length (workers p)"
  shows "posted_ok (handleWorkerFailure i e time p)"
proof (cases "isShuttingDown p")
  case False
  define q where "q = (case slot_activeTask (workers p ! i) of None \<Rightarrow> p | Some (n, t) \<Rightarrow> settle t (Rejected e) p)"
  have q: "posted_ok q" "length (workers q) = length (workers p)" using assms(1) by (simp_all add: q_def split: option.split prod.split)
  have "posted_ok ((free_slot i q)\<lparr>workers := (workers (free_slot i q))[i := (workers (free_slot i q) ! i)\<lparr>slot_worker := worker_objects (free_slot i q)\<rparr>],
      worker_objects := worker_objects (free_slot i q) + 1\<rparr>)"
    by (rule free_then_replaced [OF q(1)]) (simp add: q(2) assms(2))
  then show ?thesis using False by (simp add: handleWorkerFailure_def q_def Let_def posted_dispatch)
qed (use assms in \<open>simp add: handleWorkerFailure_def\<close>)

lemma posted_destroy: "posted_ok p \<Longrightarrow> posted_ok (onModuleDestroy p)"
  by (auto simp: posted_ok_def onModuleDestroy_def)

lemma sampled_wants_time: "sampleRequestClassDemand random profile r = (d, r') \<Longrightarrow> 1 \<le> dem_targetThreadCpuTimeNs d"
  by (auto simp: sampleRequestClassDemand_def case_prod_unfold Let_def)

lemma posted_request:
  assumes "posted_ok p" "executeRequestClass profiles random requestClass time1 time2 (p, r) = (outcome, p', r')"
  shows "posted_ok p'"
proof (cases "map_of profiles (class_name requestClass)")
  case (Some profile)
  obtain d r1 where d: "sampleRequestClassDemand random profile r = (d, r1)" by (rule prod.exhaust)
  let ?t = "\<lparr>pt_sampledDemand = d, pt_wallClockStartNs = time1, pt_dispatchedAtNs = None,
    pt_queueDepthOnArrival = length (pendingQueue p), pt_promise = promises p\<rparr>"
  let ?q = "p\<lparr>promises := promises p + 1\<rparr>"
  have t: "wants_time ?t" using sampled_wants_time [OF d] by (simp add: wants_time_def)
  have q: "posted_ok ?q" by (rule posted_fewer [OF assms(1)]) simp_all
  show ?thesis
  proof (cases "findFreeWorker p")
    case None
    then have "p' = p \<or> p' = ?q\<lparr>pendingQueue := pendingQueue ?q @ [?t]\<rparr>"
      using assms(2) Some d by (simp add: executeRequestClass_def Let_def split: if_splits)
    moreover have "posted_ok (?q\<lparr>pendingQueue := pendingQueue ?q @ [?t]\<rparr>)" using q t by (auto simp: posted_ok_def slot_posted_def)
    ultimately show ?thesis using assms(1) by fastforce
  next
    case free: (Some i)
    then have "p' = assignTaskToWorker i ?t time2 ?q" using assms(2) Some d by (simp add: executeRequestClass_def Let_def)
    then show ?thesis using posted_assign [OF q t] by simp
  qed
qed (use assms in \<open>simp add: executeRequestClass_def Let_def\<close>)

lemma posted_step: "pool_step profiles random a b \<Longrightarrow> posted_ok (fst a) \<Longrightarrow> posted_ok (fst b)"
  by (induction rule: pool_step.induct)
    (simp_all add: posted_request posted_message posted_failure posted_destroy on_exit_def)

lemma posted_run:
  assumes "pool_run profiles random (onModuleInit, r0) (p, r)"
  shows "posted_ok p"
proof -
  have init: "posted_ok onModuleInit" by (auto simp: posted_ok_def onModuleInit_def)
  have "posted_ok (fst b)" if "(pool_step profiles random)\<^sup>*\<^sup>* (onModuleInit, r0) b" for b
    using that by (induction rule: rtranclp_induct) (use init posted_step in auto)
  then show ?thesis using assms unfolding pool_run_def by fastforce
qed

section \<open>Properties\<close>

lemma ns_to_ms_mono: "m \<le> n \<Longrightarrow> ns_to_ms m \<le> ns_to_ms n"
  unfolding ns_to_ms_def fdiv_def by (intro rnd64_mono divide_right_mono) simp_all

lemma answered:
  assumes "slot_activeTask (workers p ! i) = Some (n, t)" "wr_taskId m = n" "wr_error m = None" "wr_result m = Some result"
  shows "settled (on_message i m time1 time2 p)
    = settled p @ [(pt_promise t, Resolved (buildCompletedExecution (slot_id (workers p ! i)) t result time1))]"
  using assms by (simp add: on_message_def settle_def free_slot_def)

text \<open>The response to a resolved request: its body is the seed of its class, repeated up to the sampled size.\<close>

definition sized_response :: "SampledRequestClassDemand \<Rightarrow> demand_response \<Rightarrow> bool" where
  "sized_response d response \<longleftrightarrow> (case dr_body response of
     JsonBody _ \<Rightarrow> False
   | Bytes body \<Rightarrow> length body = nat (dem_targetResponsePayloadBytes d)
       \<and> map_of (dr_headers response) ''Content-Length'' = Some (int_str (int (length body)))
       \<and> (let seed = SERVICE_NAME @ ''|'' @ dem_requestClass d @ ''|response-payload'' in
           \<forall>k < length body. body ! k = seed ! (k mod length seed)))"

lemma resolved_response:
  "\<exists>response. demand_route None (Resolved (buildCompletedExecution i t result time)) = Inr response
    \<and> sized_response (pt_sampledDemand t) response"
proof -
  let ?d = "pt_sampledDemand t"
  let ?seed = "SERVICE_NAME @ ''|'' @ dem_requestClass ?d @ ''|response-payload''"
  define e where "e = buildCompletedExecution i t result time"
  define body where "body = fill_payload ?seed (nat (dem_targetResponsePayloadBytes ?d))"
  have e: "ce_responsePayload e = body" "ce_actualResponsePayloadBytes e = length body"
    by (simp_all add: e_def buildCompletedExecution_def Let_def body_def buildResponsePayload_def)
  obtain response where response: "demand_route None (Resolved e) = Inr response" "dr_body response = Bytes body"
      "dr_headers response = setExecutionHeaders e" by (simp add: demand_route_def e(1))
  have "length body = nat (dem_targetResponsePayloadBytes ?d)" "\<forall>k < length body. body ! k = ?seed ! (k mod length ?seed)"
    unfolding body_def by (simp_all add: fill_payload_length fill_payload_nth del: append.simps length_append)
  moreover have "map_of (dr_headers response) ''Content-Length'' = Some (int_str (int (length body)))"
    by (simp add: response(3) setExecutionHeaders_def e(2))
  ultimately have "sized_response ?d response" unfolding sized_response_def response(2) Let_def by simp
  with response(1) show ?thesis unfolding e_def by blast
qed

lemma rejected_message:
  assumes "slot_activeTask (workers p ! i) = Some (n, t)" "wr_taskId m = n" "wr_error m = Some e" "wr_result m = None"
  shows "\<exists>why. settled (on_message i m time1 time2 p) = settled p @ [(pt_promise t, Rejected why)] \<and> (e \<noteq> [] \<longrightarrow> why = e)"
  using assms by (cases e) (simp_all add: on_message_def settle_def free_slot_def)

text \<open>C13: the task that a worker runs has been posted to it and asks for some time.  As long as the time of its thread goes on, the
  worker answers and the answer settles the request: it is rejected with the error of a reading of the time
  that failed, or resolved with at least the processor time sampled for it and a body of
  exactly the sampled size that repeats the seed of its class.\<close>

theorem answer_resolves_request:
  assumes "pool_run profiles random (onModuleInit, r0) (p, r)" and "i < length (workers p)"
    and "slot_activeTask (workers p ! i) = Some (n, t)" and "time_goes_on read"
  shows "\<exists>task m w'. (slot_worker (workers p ! i), task) \<in> set (posted p) \<and> wt_taskId task = n \<and> 1 \<le> wt_targetThreadCpuTimeNs task
    \<and> answer_task read task w = Some (m, w')
    \<and> ((\<exists>e k why. wr_error m = Some e \<and> reading read k w = Inl e
          \<and> settled (on_message i m time1 time2 p) = settled p @ [(pt_promise t, Rejected why)] \<and> (e \<noteq> [] \<longrightarrow> why = e))
       \<or> (\<exists>e response. wr_error m = None
          \<and> settled (on_message i m time1 time2 p) = settled p @ [(pt_promise t, Resolved e)]
          \<and> ns_to_ms (dem_targetThreadCpuTimeNs (pt_sampledDemand t)) \<le> ce_observedThreadCpuMs e
          \<and> demand_route None (Resolved e) = Inr response \<and> sized_response (pt_sampledDemand t) response))"
proof -
  let ?d = "pt_sampledDemand t" and ?s = "workers p ! i"
  have "?s \<in> set (workers p)" using assms(2) by simp
  then have "(slot_worker ?s, task_of n t) \<in> set (posted p) \<and> wants_time t"
    using posted_run [OF assms(1)] assms(3) unfolding posted_ok_def slot_posted_def by blast
  then have posted: "(slot_worker ?s, task_of n t) \<in> set (posted p)" and time: "1 \<le> wt_targetThreadCpuTimeNs (task_of n t)"
    by (simp_all add: wants_time_def task_of_def)
  from demand_is_met [OF assms(4), of "dem_requestClass ?d" "dem_targetThreadCpuTimeNs ?d" w] obtain a w' where
    a: "executeThreadCpuDemand read (dem_requestClass ?d) (dem_targetThreadCpuTimeNs ?d) w = Some (a, w')"
    and met: "case a of Inl e \<Rightarrow> \<exists>k. reading read k w = Inl e
      | Inr result \<Rightarrow> res_requestClass result = dem_requestClass ?d \<and> dem_targetThreadCpuTimeNs ?d \<le> res_observedThreadCpuTimeNs result
          \<and> (\<exists>k. res_workerChecksum result = (burnCpuChunk ^^ k) 0)" by (elim exE conjE)
  have task: "wt_taskId (task_of n t) = n" by (simp add: task_of_def)
  show ?thesis
  proof (cases a)
    case (Inl e)
    define m where "m = \<lparr>wr_taskId = n, wr_result = None, wr_error = Some e\<rparr>"
    have answer: "answer_task read (task_of n t) w = Some (m, w')" using a Inl by (simp add: answer_task_def task_of_def m_def)
    obtain k where k: "reading read k w = Inl e" using met Inl by auto
    obtain why where "settled (on_message i m time1 time2 p) = settled p @ [(pt_promise t, Rejected why)]" "e \<noteq> [] \<longrightarrow> why = e"
      using rejected_message [OF assms(3), of m e time1 time2] by (auto simp: m_def)
    moreover have "wr_error m = Some e" by (simp add: m_def)
    ultimately show ?thesis using posted task time answer k by blast
  next
    case (Inr result)
    define m where "m = \<lparr>wr_taskId = n, wr_result = Some result, wr_error = None\<rparr>"
    define e where "e = buildCompletedExecution (slot_id ?s) t result time1"
    have answer: "answer_task read (task_of n t) w = Some (m, w')" using a Inr by (simp add: answer_task_def task_of_def m_def)
    have settled: "settled (on_message i m time1 time2 p) = settled p @ [(pt_promise t, Resolved e)]"
      unfolding e_def by (rule answered [OF assms(3)]) (simp_all add: m_def)
    obtain response where response: "demand_route None (Resolved e) = Inr response" "sized_response ?d response"
      using resolved_response unfolding e_def by blast
    have "ce_observedThreadCpuMs e = ns_to_ms (res_observedThreadCpuTimeNs result)"
      by (simp add: e_def buildCompletedExecution_def Let_def)
    then have "ns_to_ms (dem_targetThreadCpuTimeNs ?d) \<le> ce_observedThreadCpuMs e" using met Inr by (simp add: ns_to_ms_mono)
    moreover have "wr_error m = None" by (simp add: m_def)
    ultimately show ?thesis using posted task time answer settled response by blast
  qed
qed

theorem answer_resolves_request_witness:
  "\<forall>(random :: unit \<Rightarrow> rat \<times> unit) r. \<exists>p i m (t :: PendingTask) outcome. open_promises p = [0]
    \<and> settled (on_message i m 0 0 p) = settled p @ [(pt_promise t, outcome)]"
proof (intro allI)
  fix random :: "unit \<Rightarrow> rat \<times> unit" and r
  from first_request [of random r] obtain p r' where
    p: "pool_run [(''image'', demo_profile)] random (onModuleInit, r) (p, r')" "open_promises p = [0]" "\<not> isShuttingDown p"
    by (elim exE conjE)
  obtain i n t where i: "i < length (workers p)" "slot_activeTask (workers p ! i) = Some (n, t)"
    using running_slot [OF pool_run_ok [OF p(1)] p(3)] p(2) by auto
  from answer_resolves_request [OF p(1) i slow_clock_goes_on, of 5 0 0] obtain m outcome where
    "settled (on_message i m 0 0 p) = settled p @ [(pt_promise t, outcome)]" by (elim exE conjE disjE) (rule that, assumption)+
  with p(2) show "\<exists>p i m (t :: PendingTask) outcome. open_promises p = [0]
      \<and> settled (on_message i m 0 0 p) = settled p @ [(pt_promise t, outcome)]" by (intro exI conjI)
qed

end
