(* ===== verification/Spec2Isabelle.thy ===== *)
theory Spec2Isabelle
  imports SenderHooks Supervisor ForecastApp Poller ShowcaseApp Prometheus Locust WorkerFlow Operator DemandService
begin

text \<open>
  Verification library of the predictive autoscaling test bed.

  The repository is a test bed for scaling a Kubernetes cluster ahead of its load.  A load
  generator replays a script of requests against an application; a forecasting service predicts
  the load from Prometheus; a Go operator scales pods and nodes by the forecasts and reports its
  loops in the status of a custom resource; a showcase reads those loops and presents them; scripts
  create workers at Vultr, attach them to the load balancer and remove them; a TypeScript service
  is the application under load.  The library models the Python programs, the operator and the service.

  \<^bold>\<open>Foundations.\<close>
  \<^item> \<open>Prelude\<close>: results that may be an exception (\<open>Inl\<close> the exception), dictionaries in
    insertion order, counters, ranges, and the loop that steps from an instant to another.
  \<^item> \<open>PyNum\<close>, \<open>PyStr\<close>, \<open>PyTime\<close>, \<open>PyEnv\<close>: what the programs use of Python: unbounded integers,
    floats as rationals rounded to binary64 after every operation (\<open>rnd64\<close>), text and its
    conversions, instants as microseconds since the epoch with the calendar of \<^verbatim>\<open>datetime\<close>,
    exceptions and environment variables.  The digits of a float's text are searched among at most
    17, which always suffice for binary64.
  \<^item> \<open>Json\<close>: JSON values with truth value, text, equality and dictionary access.
  \<^item> \<open>Sampling\<close>: the index \<^verbatim>\<open>round((i / d) * n)\<close> in floats: in range, end points exact and strictly
    rising for at most \<open>2 ^ 20\<close> samples of at most \<open>2 ^ 40\<close> points, far beyond any series or script.

  \<^bold>\<open>The load generator\<close> (\<^verbatim>\<open>custom-load-generator\<close>).
  \<^item> \<open>Workload\<close>: \<^verbatim>\<open>workload.py\<close>, the request classes and the planner.
  \<^item> \<open>Script\<close>: \<^verbatim>\<open>load_runtime_config\<close> and \<^verbatim>\<open>load_script_points\<close> of \<^verbatim>\<open>load_sender.py\<close>; loading is
    refined to a predicate on the records of the file.
  \<^item> \<open>Reports\<close>: the three report writers.  The locale \<open>report_writer\<close> states what a sender needs of
    them, that flushes on the way do not change the finished file, and is interpreted by each.
  \<^item> \<open>Sender\<close>: class \<^verbatim>\<open>LoadSender\<close>: the fields, every method, and the step relation of its three
    coroutines, the requests under way, their callbacks, signals and event loop errors, which
    interleave where the code awaits; the steps of the sender and of its requests (\<open>own_attempt\<close>)
    are told from the signals and errors that come from outside.  \<open>SenderSafety\<close> and \<open>SenderRuns\<close> establish the invariant over
    all runs, \<open>SenderProps\<close> what follows from it: nothing raises, every planned request is accounted
    for, the tokens bound the requests under way, the reports agree with the counters, and every
    run can be brought to its end by its own steps, with no signal and no error.  \<open>SenderJob\<close> says what no step changes:
    configuration, timeline, and that every reported URL comes from the planner;
    \<open>SenderHooks\<close> the handlers it installs around a run, whose effects are steps of it.
  \<^item> \<open>Merge\<close>: several worker processes: who sends which request, what environment a worker gets, how
    reports and heartbeats are merged.  \<open>Fleet\<close>: the workers as runs of the sender over one script,
    whose merged report is that of a single process.
  \<^item> \<open>Supervisor\<close>: \<^verbatim>\<open>_run_multi_worker\<close> and \<^verbatim>\<open>main\<close> as a script over the machine with its files
    and processes: starting the workers, polling and merging, the interrupt, the final collection, the
    exit code.  What the workers do while the parent sleeps or waits is a parameter.

  \<^bold>\<open>The forecasting service\<close> (\<^verbatim>\<open>forecasting-service/app\<close>), \<open>Forecast\<close>: the validation of options,
  the series read from Prometheus, guardrails, the local, linear regression and legacy predictions and
  the extraction of metrics, from \<^verbatim>\<open>predict_workload\<close> down.  The answers of Prometheus and of a model
  are arguments.  \<open>ForecastApp\<close>: \<^verbatim>\<open>main.py\<close>, \<^verbatim>\<open>config.py\<close> and the remote model client: the
  routes, the options file and the exchange with a model down to its HTTP status.

  \<^bold>\<open>The showcase\<close> (\<^verbatim>\<open>system-showcase/app\<close>).
  \<^item> \<open>LoopHistory\<close>: \<^verbatim>\<open>loop_history_store.py\<close>, the bounded history of loops in a JSON file.
  \<^item> \<open>ScriptRange\<close>: \<^verbatim>\<open>script_range_store.py\<close>, a window of a long CSV file read through a sparse
    index, shown equal to the window of the whole file.
  \<^item> \<open>Showcase\<close>: \<^verbatim>\<open>snapshot_service.py\<close>, snapshots, their cache, the poll, the pages by minute.
  \<^item> \<open>Gateway\<close>: \<^verbatim>\<open>kubernetes_client.py\<close>, what is asked of the API server, which is a parameter, and
    in which order its answers are returned.
  \<^item> \<open>Poller\<close>: the snapshot service as an asyncio program: a step relation whose steps are those of the
    background poller, of the requests under the cache lock and of the lifespan, and what holds in
    all its runs: one poller at a time, no stale snapshot after a poll, the bound of the history,
    and that a stop ends the poller (after at most four of its steps).
  \<^item> \<open>LoadTestStore\<close>: \<^verbatim>\<open>load_test_store.py\<close>.  The locale \<open>slot\<close> says what is read from a place that
    some operations overwrite and the others leave alone; its two files interpret it.
  \<^item> \<open>ShowcaseApp\<close>: \<^verbatim>\<open>main.py\<close> and \<^verbatim>\<open>settings.py\<close>: the routes with the bounds on their parameters over
    the three stores, and the settings.
  \<^item> \<open>Prometheus\<close>: \<^verbatim>\<open>prometheus_client.py\<close>.

  \<^bold>\<open>The locust workload\<close> (\<^verbatim>\<open>locust-test\<close>), \<open>Locust\<close>: the requests of its users, the ranges their
  numbers come from, their text.

  \<^bold>\<open>The worker scripts\<close> (\<^verbatim>\<open>linux-script\<close>).
  \<^item> \<open>Effects\<close>: scripts as functions of the state they act on, in which \<open>None\<close> is a script that never
    returns, with the rules by which scripts return and keep a property.
  \<^item> \<open>Host\<close>: the world a script acts on (API, commands, clock, files) as a parameter, and the waiting loop, a partial
    function shown to end when the clock does not go back and pauses take time (\<open>clock_ok\<close>).
  \<^item> \<open>Manifest\<close>: the text the bootstrap scripts take apart: lines, words, YAML documents, the helper pod
    template.  \<open>Bootstrap\<close>, \<open>BootstrapMaster\<close>: \<^verbatim>\<open>bootstrap-k3s-worker.py\<close> and
    \<^verbatim>\<open>bootstrap-k3s-master.py\<close> over a machine with captured and piped commands and files.
  \<^item> \<open>Attach\<close>, \<open>Teardown\<close>, \<open>CreateWorker\<close>: \<^verbatim>\<open>attach-vm-to-lb.py\<close>, \<^verbatim>\<open>teardown-vultr-worker.py\<close>,
    \<^verbatim>\<open>create-vultr-worker.py\<close> and \<^verbatim>\<open>create-worker-e2e.py\<close>.  The locale \<open>backend_pool\<close> states what the
    load balancer's list of backends owes to its operations and is interpreted by the payloads the
    two scripts send.
    \<open>WorkerFlow\<close>: what has happened when a script ends with 0.

  \<^bold>\<open>The operator\<close> (\<^verbatim>\<open>custom-scaler\<close>, in Go).  Integers are wrapped at 32 or 64 bits where the code's are
  (\<open>i32\<close>, \<open>i64\<close>), floats are those of \<open>PyNum\<close>; what Go leaves open, a float beyond \<^verbatim>\<open>int32\<close>, is a
  parameter, as are the Kubernetes API, the HTTP exchange, \<^verbatim>\<open>json\<close>, \<^verbatim>\<open>strconv.ParseFloat\<close>, the clock and the random texts.
  \<^item> \<open>GoBase\<close>: what the operator uses of Go: wrapping, the operations on floats, texts, and steps that
    return a value or an error.
  \<^item> \<open>ScalerPolicy\<close>: \<^verbatim>\<open>scaling_defaults.go\<close> and \<^verbatim>\<open>scalingPolicyFor\<close>: every policy is valid, whatever the
    environment and the resource say.  \<open>ScalerTypes\<close>: \<^verbatim>\<open>customscaler_types.go\<close>, the objects of the
    cluster as far as they are read, the API.
  \<^item> \<open>PodScaler\<close>: the pod reconciler (\<^verbatim>\<open>customscaler_controller.go\<close>, \<^verbatim>\<open>pod_scaling_controller.go\<close>): demand,
    pressure, guardrails, the decision; its range over sequences of cycles, when it lowers the
    replicas, what it does without a forecast.
  \<^item> \<open>WorkerCapacity\<close>: \<^verbatim>\<open>worker_capacity.go\<close>: both strategies give the least number of workers.
  \<^item> \<open>WorkerPlan\<close>: \<^verbatim>\<open>worker_prototype.go\<close>, \<^verbatim>\<open>worker_operations.go\<close>: the plan and its limits.
  \<^item> \<open>WorkerExecutor\<close>: \<^verbatim>\<open>worker_executor.go\<close>: following and starting jobs.  \<open>WorkerJobs\<close>: names, quoting, the
    worker that is deleted, what is reported.
  \<^item> \<open>NodeScaler\<close>: the node reconciler (\<^verbatim>\<open>node_scaling_controller.go\<close>) and its rounds: the books are kept, the
    operations in flight bounded; a worker that is early is not noticed.
    \<open>Operator\<close>: a node cycle after a pod cycle.

  \<^bold>\<open>The resource demand service\<close> (\<^verbatim>\<open>general-resource-demand-service\<close>, in TypeScript).  \<^verbatim>\<open>JSON.parse\<close>,
  \<^verbatim>\<open>Math.random\<close>, the clocks and the events of the worker threads are parameters; numbers stay finite.
  \<^item> \<open>DemandProfiles\<close>: \<^verbatim>\<open>resource-demand.profiles.ts\<close>: what loads is valid, what is sampled fits its profile.
  \<^item> \<open>DemandWorker\<close>: the loop of \<^verbatim>\<open>resource-demand.worker.ts\<close>, a partial function shown to end with the
    demand met as long as the processor time of its thread goes on (\<open>demand_is_met\<close>), or to fail
    with the first reading that fails.
  \<^item> \<open>DemandPool\<close>: \<^verbatim>\<open>resource-demand.service.ts\<close>: the pool with its bounded queue as a step relation of requests,
    messages, failures, exits and the end of the module, whose books are an invariant of every run and
    which answers alone (\<open>pool_answer\<close>) empty.  A promise is a number; its settlement an entry of a log.
  \<^item> \<open>DemandService\<close>: the worker's answer, the routes and headers of \<^verbatim>\<open>resource-demand.controller.ts\<close>, and a
    request on its way through all of them.

  \<^bold>\<open>How the parts meet.\<close>  The script timeline feeds the sender (\<open>start_sender\<close>), the sender the writers,
  the workers' files the merge (\<open>merged_request_report\<close>, \<open>merged_statistics_totals\<close>), and the parent
  that exits with 0 has merged complete runs (\<open>parent_exits_zero\<close>).  The poll and the snapshots share
  the loop history and the cache lock (\<open>cache_follows_polls\<close>); a snapshot over the gateway does not
  depend on the order of the API server (\<open>snapshot_ignores_api_order\<close>); the application joins the
  stores (\<open>load_test_page_shows_latest\<close>, \<open>range_answer_independent\<close>).  The flow of
  \<^verbatim>\<open>create-worker-e2e.py\<close> runs the other scripts as commands, each only after the one before it has
  ended well (\<open>worker_flow_in_order\<close>).  The two reconcilers of the operator share the status of the
  resource (\<open>target_follows_replicas\<close>).

  \<^bold>\<open>Not modelled.\<close>
  \<^item> What the frameworks do: routing and conversion of parameters by FastAPI and pydantic, reading
    settings from the environment, the event loop beyond the steps above, running the users of locust.
  \<^item> Log lines, printing, creating directories.
  \<^item> Of the sender: a step reads the clock once where the code may read it several times, and the wall
    clock is not set back during a run; errors of the event loop are allowed until the run is over, also
    after the code has put the former handler back, so that there are more runs than the program
    has; an outcome is counted and its token returned in one step; the HTTP session is created without
    an error.  A path of an output file has a file name.
  \<^item> Of the showcase: what an index of a script has recorded before a row raises \<^verbatim>\<open>OverflowError\<close>; that a
    snapshot is built and stored without an await in between, which again allows more runs.
  \<^item> Of the worker scripts: that Vultr lists after a PATCH what was sent in it is taken as documented, with
    no other client at work; errors while the file of known hosts is created.
  \<^item> The text layer of CSV (a file is its records), encodings other than one byte per character,
    signed zeros, dates out of the range of \<^verbatim>\<open>datetime\<close> in forecasts, failures of the file system.
  \<^item> Of the operator: wiring (flags, certificates, watches), affinity and tolerations of a job, which are
    constants, and generated code.
  \<^item> Of the resource demand service: wiring and metrics, the size a buffer may have at most
    and the \<^verbatim>\<open>RangeError\<close> beyond it.
  \<^item> The React frontend, notebooks, shell scripts and manifests.
\<close>

end
